(* ===== verification/Prelude.thy ===== *)
theory Prelude
  imports Complex_Main "HOL-Library.AList" "HOL-Library.Sublist" "HOL-Library.Multiset"
begin

text \<open>
  Shared vocabulary of the development: Python's values, dictionaries and strings as the
  AgentCore sources use them, the collections of rewrite rules the components add to, and the
  two generic locales (an ordered dictionary, a transition system with an invariant) that the
  components interpret.

  Conventions.
  \<^item> A Python \<open>str\<close> is a \<open>string\<close>; case folding and whitespace are those of ASCII.
  \<^item> A Python \<open>dict\<close> is an association list in insertion order: assignment is
    \<open>AList.update\<close> (in place for a known key, at the end for a new one), deletion is
    \<open>AList.delete\<close>, \<open>d.get(k)\<close> is \<open>map_of d k\<close>.
  \<^item> A Python \<open>int\<close> is an \<open>int\<close>; a \<open>float\<close> is a \<open>real\<close>, without rounding.
  \<^item> A \<open>raise\<close> is a value \<open>Inl e\<close> of a sum type, a normal return is \<open>Inr r\<close>.
\<close>

named_theorems py_str_simps \<open>rewrite rules for the string operations\<close>
named_theorems dict_simps \<open>rewrite rules for insertion-ordered dictionaries\<close>

section \<open>Values and dictionaries\<close>

datatype pyval =
    PyNone
  | PyBool bool
  | PyInt int
  | PyStr string
  | PyList "pyval list"
  | PyDict "(string \<times> pyval) list"

type_synonym 'v pydict = "(string \<times> 'v) list"

text \<open>\<open>bool(v)\<close>: what \<open>if v\<close>, \<open>v or w\<close> and \<open>not v\<close> test.\<close>

fun truthy :: "pyval \<Rightarrow> bool" where
  "truthy PyNone = False"
| "truthy (PyBool b) = b"
| "truthy (PyInt i) = (i \<noteq> 0)"
| "truthy (PyStr s) = (s \<noteq> [])"
| "truthy (PyList xs) = (xs \<noteq> [])"
| "truthy (PyDict d) = (d \<noteq> [])"

text \<open>\<open>d.get(k)\<close> and \<open>d.get(k, v)\<close> of a dictionary of values.\<close>

definition get_or_none :: "pyval pydict \<Rightarrow> string \<Rightarrow> pyval" where
  "get_or_none d k = (case map_of d k of None \<Rightarrow> PyNone | Some v \<Rightarrow> v)"

definition dict_get_default :: "('k \<times> 'v) list \<Rightarrow> 'k \<Rightarrow> 'v \<Rightarrow> 'v" where
  "dict_get_default d k v = (case map_of d k of None \<Rightarrow> v | Some w \<Rightarrow> w)"

text \<open>The dictionaries among the elements of a list.\<close>

fun dicts_of :: "pyval list \<Rightarrow> pyval pydict list" where
  "dicts_of [] = []"
| "dicts_of (PyDict d # vs) = d # dicts_of vs"
| "dicts_of (v # vs) = dicts_of vs"

lemma dicts_of_append [simp]: "dicts_of (xs @ ys) = dicts_of xs @ dicts_of ys"
  by (induction xs rule: dicts_of.induct) auto

section \<open>Strings\<close>

definition char_lower :: "char \<Rightarrow> char" where
  "char_lower c = (if 65 \<le> (of_char c :: nat) \<and> (of_char c :: nat) \<le> 90
                   then char_of ((of_char c :: nat) + 32) else c)"

text \<open>\<open>s.lower()\<close>\<close>

definition str_lower :: "string \<Rightarrow> string" where
  "str_lower s = map char_lower s"

definition is_space :: "char \<Rightarrow> bool" where
  "is_space c = (let n = (of_char c :: nat) in n = 32 \<or> (9 \<le> n \<and> n \<le> 13) \<or> (28 \<le> n \<and> n \<le> 31))"

text \<open>\<open>s.strip()\<close>\<close>

definition str_strip :: "string \<Rightarrow> string" where
  "str_strip s = rev (dropWhile is_space (rev (dropWhile is_space s)))"

text \<open>\<open>str(n)\<close> of a natural number.\<close>

fun str_of_nat :: "nat \<Rightarrow> string" where
  "str_of_nat n = (if n < 10 then [char_of (48 + n)]
                   else str_of_nat (n div 10) @ [char_of (48 + n mod 10)])"

declare str_of_nat.simps [simp del]

definition str_of_int :: "int \<Rightarrow> string" where
  "str_of_int i = (if i < 0 then CHR ''-'' # str_of_nat (nat (- i)) else str_of_nat (nat i))"

definition is_digit :: "char \<Rightarrow> bool" where
  "is_digit c = (48 \<le> (of_char c :: nat) \<and> (of_char c :: nat) \<le> 57)"

text \<open>\<open>f"{n:,}"\<close>\<close>

fun group_thousands :: "string \<Rightarrow> string" where
  "group_thousands (a # b # c # d # rest) = a # b # c # CHR '','' # group_thousands (d # rest)"
| "group_thousands s = s"

definition with_commas :: "nat \<Rightarrow> string" where
  "with_commas n = rev (group_thousands (rev (str_of_nat n)))"

text \<open>
  \<open>int(s)\<close> of a decimal literal: surrounding blanks, a sign, digits, and single underscores
  between digits; \<open>None\<close> stands for the \<open>ValueError\<close>.
\<close>

fun digits_value :: "nat \<Rightarrow> string \<Rightarrow> nat option" where
  "digits_value n [] = Some n"
| "digits_value n (c # cs) =
     (if is_digit c then digits_value (10 * n + (of_char c - 48)) cs
      else if c = CHR ''_'' \<and> cs \<noteq> [] \<and> is_digit (hd cs) then digits_value n cs
      else None)"

definition unsigned_value :: "string \<Rightarrow> nat option" where
  "unsigned_value s = (if s \<noteq> [] \<and> is_digit (hd s) then digits_value 0 s else None)"

definition int_of_str :: "string \<Rightarrow> int option" where
  "int_of_str s =
     (case str_strip s of
        [] \<Rightarrow> None
      | c # cs \<Rightarrow>
          if c = CHR ''-'' then map_option (\<lambda>n. - int n) (unsigned_value cs)
          else if c = CHR ''+'' then map_option int (unsigned_value cs)
          else map_option int (unsigned_value (c # cs)))"

text \<open>\<open>int(v)\<close> of a value; \<open>None\<close> where it raises.\<close>

fun py_int :: "pyval \<Rightarrow> int option" where
  "py_int (PyInt i) = Some i"
| "py_int (PyBool b) = Some (if b then 1 else 0)"
| "py_int (PyStr s) = int_of_str s"
| "py_int _ = None"

text \<open>\<open>sep in s\<close>, and \<open>s.rsplit(sep, 1)[0]\<close> when it holds.\<close>

fun before_last :: "string \<Rightarrow> string \<Rightarrow> string option" where
  "before_last sep [] = None"
| "before_last sep (c # cs) =
     (case before_last sep cs of
        Some p \<Rightarrow> Some (c # p)
      | None \<Rightarrow> if prefix sep (c # cs) then Some [] else None)"

text \<open>\<open>sep.join(parts)\<close>\<close>

fun str_join :: "string \<Rightarrow> string list \<Rightarrow> string" where
  "str_join sep [] = []"
| "str_join sep [x] = x"
| "str_join sep (x # y # xs) = x @ sep @ str_join sep (y # xs)"

section \<open>Sums as results\<close>

abbreviation raises :: "('e + 'a) \<Rightarrow> bool" where
  "raises r \<equiv> (\<exists>e. r = Inl e)"

fun bind_result :: "('e + 'a) \<Rightarrow> ('a \<Rightarrow> 'e + 'b) \<Rightarrow> 'e + 'b" where
  "bind_result (Inl e) f = Inl e"
| "bind_result (Inr x) f = f x"

lemma bind_result_Inr_iff: "bind_result r f = Inr y \<longleftrightarrow> (\<exists>x. r = Inr x \<and> f x = Inr y)"
  by (cases r) auto


section \<open>Lemmas on strings\<close>

lemma length_str_lower [simp, py_str_simps]: "length (str_lower s) = length s"
  by (simp add: str_lower_def)

lemma char_lower_idem [simp]: "char_lower (char_lower c) = char_lower c"
proof -
  have "of_char (char_of (of_char c + 32 :: nat) :: char) = (of_char c + 32 :: nat)"
    if "of_char c \<le> (90 :: nat)"
    using that by (simp add: of_char_of)
  then show ?thesis
    by (auto simp: char_lower_def)
qed

lemma str_lower_idem [simp, py_str_simps]: "str_lower (str_lower s) = str_lower s"
  by (simp add: str_lower_def)

lemma str_lower_append [py_str_simps]: "str_lower (s @ t) = str_lower s @ str_lower t"
  by (simp add: str_lower_def)

lemma before_last_Some_split:
  "before_last sep s = Some p \<Longrightarrow> \<exists>t. s = p @ sep @ t"
proof (induction s arbitrary: p)
  case Nil
  then show ?case by simp
next
  case (Cons c cs)
  then show ?case
    by (fastforce split: option.splits if_splits simp: prefix_def)
qed

lemma before_last_length:
  "before_last sep s = Some p \<Longrightarrow> sep \<noteq> [] \<Longrightarrow> length p < length s"
  by (auto dest!: before_last_Some_split)

lemma before_last_None_iff:
  assumes "sep \<noteq> []"
  shows "before_last sep s = None \<longleftrightarrow> \<not> sublist sep s"
proof (induction s)
  case Nil
  then show ?case using assms by simp
next
  case (Cons c cs)
  then show ?case
    by (auto split: option.splits if_splits simp: sublist_Cons_right)
qed

lemma before_last_append:
  assumes "before_last sep t = None" and "prefix sep t" and "t \<noteq> []"
  shows False
  using assms by (cases t) (auto split: option.splits if_splits)

lemma before_last_at:
  assumes "before_last sep (drop 1 (sep @ t)) = None" and "sep \<noteq> []"
  shows "before_last sep (s @ sep @ t) = Some s"
proof (induction s)
  case Nil
  obtain c cs where "sep @ t = c # cs" using assms(2) by (cases sep) auto
  moreover have "before_last sep cs = None"
    using assms(1) \<open>sep @ t = c # cs\<close> by simp
  moreover have "prefix sep (c # cs)"
    using \<open>sep @ t = c # cs\<close> by (metis prefixI)
  ultimately show ?case by simp
next
  case (Cons c cs)
  then show ?case by simp
qed

lemma str_of_nat_digits: "\<forall>c \<in> set (str_of_nat n). is_digit c"
proof (induction n rule: str_of_nat.induct)
  case (1 n)
  show ?case
  proof (cases "n < 10")
    case True
    then show ?thesis by (simp add: str_of_nat.simps [of n] is_digit_def of_char_of)
  next
    case False
    then show ?thesis using 1
      by (auto simp: str_of_nat.simps [of n] is_digit_def of_char_of)
  qed
qed

lemma char_of_digit_inj:
  assumes "i < 10" and "j < 10"
  shows "(char_of (48 + i :: nat) = (char_of (48 + j :: nat) :: char)) = (i = j)"
proof
  assume "char_of (48 + i) = (char_of (48 + j) :: char)"
  then have "of_char (char_of (48 + i) :: char) = (of_char (char_of (48 + j) :: char) :: nat)"
    by simp
  with assms show "i = j" by (simp add: of_char_of)
qed simp

lemma str_of_nat_nonempty [simp]: "str_of_nat n \<noteq> []" "[] \<noteq> str_of_nat n"
  by (subst str_of_nat.simps, simp)+

lemma str_of_nat_inj: "str_of_nat m = str_of_nat n \<Longrightarrow> m = n"
proof (induction m arbitrary: n rule: str_of_nat.induct)
  case (1 m)
  show ?case
  proof (cases "m < 10"; cases "n < 10")
    assume "m < 10" "n < 10"
    with "1.prems" show ?thesis
      by (simp add: str_of_nat.simps [of m] str_of_nat.simps [of n] char_of_digit_inj)
  next
    assume "m < 10" "\<not> n < 10"
    with "1.prems" show ?thesis
      by (simp add: str_of_nat.simps [of m] str_of_nat.simps [of n])
  next
    assume "\<not> m < 10" "n < 10"
    with "1.prems" show ?thesis
      by (simp add: str_of_nat.simps [of m] str_of_nat.simps [of n])
  next
    assume big: "\<not> m < 10" "\<not> n < 10"
    with "1.prems" have "str_of_nat (m div 10) = str_of_nat (n div 10)"
      and "char_of (48 + m mod 10) = (char_of (48 + n mod 10) :: char)"
      by (simp_all add: str_of_nat.simps [of m] str_of_nat.simps [of n])
    with big "1.IH" have "m div 10 = n div 10" and "m mod 10 = n mod 10"
      by (simp_all add: char_of_digit_inj)
    then show ?thesis by (metis mult_div_mod_eq)
  qed
qed

section \<open>The dictionary interface\<close>

text \<open>
  What the components use of a Python dictionary: a lookup after an assignment, a lookup after
  a deletion, and the keys.  The laws are proved for insertion-ordered association lists below.
\<close>

locale py_mapping =
  fixes empty :: 'm
    and lookup :: "'m \<Rightarrow> 'k \<Rightarrow> 'v option"
    and assign :: "'k \<Rightarrow> 'v \<Rightarrow> 'm \<Rightarrow> 'm"
    and remove :: "'k \<Rightarrow> 'm \<Rightarrow> 'm"
  assumes lookup_empty: "lookup empty k = None"
    and lookup_assign: "lookup (assign k v m) k' = (if k' = k then Some v else lookup m k')"
    and lookup_remove: "lookup (remove k m) k' = (if k' = k then None else lookup m k')"
begin

text \<open>\<open>for k, v in items: d[k] = v\<close>: the last write to a key wins.\<close>

definition assign_all :: "('k \<times> 'v) list \<Rightarrow> 'm \<Rightarrow> 'm" where
  "assign_all items m = fold (\<lambda>(k, v). assign k v) items m"

lemma lookup_assign_all:
  "lookup (assign_all items m) k =
     (case map_of (rev items) k of Some v \<Rightarrow> Some v | None \<Rightarrow> lookup m k)"
proof (induction items arbitrary: m)
  case Nil
  then show ?case by (simp add: assign_all_def)
next
  case (Cons kv items)
  then show ?case
    by (cases kv)
       (auto simp: assign_all_def lookup_assign map_of_append map_add_def split: option.splits)
qed

lemma lookup_assign_all_notin:
  "k \<notin> fst ` set items \<Longrightarrow> lookup (assign_all items m) k = lookup m k"
  by (simp add: lookup_assign_all map_of_eq_None_iff [THEN iffD2])

end

interpretation pd: py_mapping "[]" map_of AList.update AList.delete
  by unfold_locales (auto simp: update_conv' delete_conv')

lemmas dict_lookup [dict_simps, simp] = pd.lookup_assign pd.lookup_remove

lemma keys_update [dict_simps]:
  "fst ` set (AList.update k v d) = insert k (fst ` set d)"
  by (induction d) auto

lemma distinct_keys_update [dict_simps]:
  "distinct (map fst d) \<Longrightarrow> distinct (map fst (AList.update k v d))"
  by (rule distinct_update)

lemma distinct_keys_delete [dict_simps]:
  "distinct (map fst d) \<Longrightarrow> distinct (map fst (AList.delete k d))"
  by (rule distinct_delete)

lemma update_new_append:
  "k \<notin> fst ` set d \<Longrightarrow> AList.update k v d = d @ [(k, v)]"
  by (induction d) auto

lemma update_snoc:
  "k \<notin> fst ` set d \<Longrightarrow> AList.update k v (d @ [(k, w)]) = d @ [(k, v)]"
  by (induction d) auto

lemma delete_snoc:
  "k \<notin> fst ` set d \<Longrightarrow> AList.delete k (d @ [(k, w)]) = d"
  by (induction d) auto

lemma delete_notin: "k \<notin> fst ` set d \<Longrightarrow> AList.delete k d = d"
  by (induction d) auto

section \<open>Transition systems\<close>

text \<open>
  A component with operations is a transition system.  The obligations of an interpretation are
  that the initial states satisfy the invariant and that every step keeps it.
\<close>

locale invariant_system =
  fixes start :: "'s \<Rightarrow> bool"
    and step :: "'s \<Rightarrow> 's \<Rightarrow> bool"
    and inv :: "'s \<Rightarrow> bool"
  assumes start_inv: "start s \<Longrightarrow> inv s"
    and step_inv: "step s t \<Longrightarrow> inv s \<Longrightarrow> inv t"
begin

lemma steps_inv: "rtranclp step s t \<Longrightarrow> inv s \<Longrightarrow> inv t"
  by (induction rule: rtranclp_induct) (auto intro: step_inv)

lemma reachable_inv: "start s \<Longrightarrow> rtranclp step s t \<Longrightarrow> inv t"
  by (blast intro: steps_inv start_inv)

end

text \<open>
  The same for a component whose operations are functions of the state: a run is a list of
  operations.  It is an invariant system whose steps are the executions of one operation.
\<close>

locale op_system =
  fixes start :: "'s \<Rightarrow> bool"
    and exec :: "'op \<Rightarrow> 's \<Rightarrow> 's"
    and inv :: "'s \<Rightarrow> bool"
  assumes start_ok: "start s \<Longrightarrow> inv s"
    and exec_ok: "inv s \<Longrightarrow> inv (exec op s)"

sublocale op_system \<subseteq> rel: invariant_system start "\<lambda>s t. \<exists>op. t = exec op s" inv
  by unfold_locales (auto intro: start_ok exec_ok)

context op_system begin

lemma run_inv: "inv s \<Longrightarrow> inv (fold exec ops s)"
  by (induction ops arbitrary: s) (auto intro: exec_ok)

lemma run_start_inv: "start s \<Longrightarrow> inv (fold exec ops s)"
  by (blast intro: run_inv start_ok)

end

end
