(* ===== verification/Messages.thy ===== *)
theory Messages
  imports Prelude
begin

text \<open>
  The chat messages of \<^verbatim>\<open>agent_core/messages.py\<close>: plain dictionaries in the wire format of
  OpenAI chat completions, their builders, the filter applied before a list is handed to a
  provider, and the outbound contract for private reasoning.

  A \<open>str()\<close> of a value that is neither a string nor \<open>None\<close> is the parameter \<open>str_of\<close>.
\<close>

type_synonym message = "pyval pydict"

section \<open>The wire boundary\<close>

definition WIRE_MESSAGE_KEYS :: "string set" where
  "WIRE_MESSAGE_KEYS = {''role'', ''content'', ''name'', ''tool_calls'', ''tool_call_id'',
                        ''reasoning_content''}"

definition all_wire_keys :: "message \<Rightarrow> bool" where
  "all_wire_keys m = list_all (\<lambda>(k, v). k \<in> WIRE_MESSAGE_KEYS) m"

definition for_wire :: "message list \<Rightarrow> message list" where
  "for_wire messages =
     (if list_all all_wire_keys messages then messages
      else map (\<lambda>m. if all_wire_keys m then m
                     else filter (\<lambda>(k, v). k \<in> WIRE_MESSAGE_KEYS) m) messages)"

section \<open>Builders\<close>

definition system_msg :: "string \<Rightarrow> message" where
  "system_msg content = [(''content'', PyStr content), (''role'', PyStr ''system'')]"

definition user_msg :: "string \<Rightarrow> message" where
  "user_msg content = [(''content'', PyStr content), (''role'', PyStr ''user'')]"

definition assistant_msg :: "pyval \<Rightarrow> pyval list option \<Rightarrow> string \<Rightarrow> message" where
  "assistant_msg content tool_calls reasoning =
     (let m = [(''content'', content), (''role'', PyStr ''assistant'')];
          m = (case tool_calls of
                 Some (c # cs) \<Rightarrow> AList.update ''tool_calls'' (PyList (c # cs)) m
               | _ \<Rightarrow> m)
      in if reasoning \<noteq> [] then AList.update ''reasoning_content'' (PyStr reasoning) m else m)"

definition tool_msg :: "string \<Rightarrow> string \<Rightarrow> message" where
  "tool_msg content tool_call_id =
     [(''content'', PyStr content), (''role'', PyStr ''tool''),
      (''tool_call_id'', PyStr tool_call_id)]"

text \<open>\<open>s.replace(old, new)\<close> for a non-empty \<open>old\<close>.\<close>

function str_replace :: "string \<Rightarrow> string \<Rightarrow> string \<Rightarrow> string" where
  "str_replace old new [] = []"
| "str_replace old new (c # cs) =
     (if old \<noteq> [] \<and> prefix old (c # cs)
      then new @ str_replace old new (drop (length old) (c # cs))
      else c # str_replace old new cs)"
  by pat_completeness auto
termination
  by (relation "measure (\<lambda>(old, new, s). length s)") auto

definition think_open :: string where "think_open = ''<think>''"
definition think_close :: string where "think_close = ''</think>''"
definition think_close_escaped :: string where "think_close_escaped = ''</ think>''"

text \<open>The rendering of a value inside an f-string.\<close>

definition py_format :: "(pyval \<Rightarrow> string) \<Rightarrow> pyval \<Rightarrow> string" where
  "py_format str_of v = (case v of PyStr s \<Rightarrow> s | _ \<Rightarrow> str_of v)"

definition assistant_msg_with_reasoning ::
  "(pyval \<Rightarrow> string) \<Rightarrow> pyval \<Rightarrow> string \<Rightarrow> pyval list option \<Rightarrow> string \<Rightarrow> message" where
  "assistant_msg_with_reasoning str_of visible reasoning tool_calls thinking_format =
     (if reasoning \<noteq> [] \<and> thinking_format = ''tag'' then
        (let safe = str_replace think_close think_close_escaped reasoning;
             wrapped = think_open @ safe @ think_close;
             visible' = (if truthy visible
                         then PyStr (wrapped @ [char_of (10::nat)] @ py_format str_of visible)
                         else PyStr wrapped)
         in assistant_msg visible' tool_calls [])
      else if reasoning \<noteq> [] \<and> thinking_format = ''reasoning_content'' then
        assistant_msg visible tool_calls reasoning
      else assistant_msg visible tool_calls [])"

section \<open>Helpers\<close>

text \<open>The source's text has an em dash where this one has a hyphen.\<close>

definition image_placeholder :: string where
  "image_placeholder = ''[image - not visible in this text-only rendering]''"

text \<open>\<open>block.get("text") or block.get("content") or ""\<close>\<close>

definition block_text :: "message \<Rightarrow> pyval" where
  "block_text b =
     (if truthy (get_or_none b ''text'') then get_or_none b ''text''
      else if truthy (get_or_none b ''content'') then get_or_none b ''content''
      else PyStr [])"

text \<open>What one block of a content list contributes to the flattened text.\<close>

fun block_parts :: "pyval \<Rightarrow> string list" where
  "block_parts (PyStr s) = [s]"
| "block_parts (PyDict b) =
     (if get_or_none b ''type'' = PyStr ''image_url'' then [image_placeholder]
      else (case block_text b of PyStr s \<Rightarrow> [s] | _ \<Rightarrow> []))"
| "block_parts _ = []"

fun text_of :: "(pyval \<Rightarrow> string) \<Rightarrow> pyval \<Rightarrow> string" where
  "text_of str_of PyNone = []"
| "text_of str_of (PyStr s) = s"
| "text_of str_of (PyList blocks) = str_join [char_of (10::nat)] (concat (map block_parts blocks))"
| "text_of str_of v = str_of v"

definition is_tool_msg :: "message \<Rightarrow> bool" where
  "is_tool_msg m = (get_or_none m ''role'' = PyStr ''tool'')"

definition is_assistant_msg :: "message \<Rightarrow> bool" where
  "is_assistant_msg m = (get_or_none m ''role'' = PyStr ''assistant'')"

section \<open>Lemmas\<close>

text \<open>The filter written as a single pass over every message.\<close>

abbreviation wire_filter :: "message \<Rightarrow> message" where
  "wire_filter \<equiv> filter (\<lambda>(k, v). k \<in> WIRE_MESSAGE_KEYS)"

lemma wire_filter_all: "all_wire_keys m \<Longrightarrow> wire_filter m = m"
  by (simp add: all_wire_keys_def list_all_iff filter_id_conv case_prod_beta)

lemma all_wire_keys_filter: "all_wire_keys (wire_filter m)"
  by (auto simp: all_wire_keys_def list_all_iff)

lemma map_of_filter_key:
  "map_of (filter (\<lambda>(k, v). P k) d) k = (if P k then map_of d k else None)"
  by (induction d) auto

lemma get_assistant_msg [simp]:
  "map_of (assistant_msg c tcs r) ''role'' = Some (PyStr ''assistant'')"
  "map_of (assistant_msg c tcs r) ''content'' = Some c"
  "map_of (assistant_msg c tcs r) ''reasoning_content'' = (if r = [] then None else Some (PyStr r))"
  "map_of (assistant_msg c tcs r) ''tool_calls'' =
     (case tcs of Some (x # xs) \<Rightarrow> Some (PyList (x # xs)) | _ \<Rightarrow> None)"
  by (auto simp: assistant_msg_def Let_def split: option.splits list.splits)

lemma is_assistant_assistant_msg [simp]: "is_assistant_msg (assistant_msg c tcs r)"
  by (simp add: is_assistant_msg_def get_or_none_def)

lemma is_assistant_user_msg [simp]: "\<not> is_assistant_msg (user_msg s)"
  by (simp add: is_assistant_msg_def get_or_none_def user_msg_def)

text \<open>Escaping leaves no closing tag: an occurrence cannot be formed across a replacement.\<close>

lemma str_replace_prefix_free:
  assumes "CHR ''<'' \<notin> set p"
    and "prefix p (str_replace think_close think_close_escaped s)"
  shows "prefix p s"
  using assms
proof (induction p arbitrary: s)
  case Nil
  then show ?case by simp
next
  case (Cons c p)
  from Cons.prems(2) obtain d s' where s: "s = d # s'"
    by (cases s) auto
  have no: "\<not> prefix think_close s"
  proof
    assume "prefix think_close s"
    then have "str_replace think_close think_close_escaped s =
        think_close_escaped @ str_replace think_close think_close_escaped (drop (length think_close) s)"
      unfolding s by (simp add: think_close_def)
    with Cons.prems show False by (auto simp: think_close_escaped_def)
  qed
  with Cons.prems(2) have "c = d" and "prefix p (str_replace think_close think_close_escaped s')"
    unfolding s by auto
  with Cons.IH Cons.prems(1) show ?case by (simp add: s)
qed

lemma str_replace_no_close:
  "\<not> sublist think_close (str_replace think_close think_close_escaped s)"
proof (induction think_close think_close_escaped s rule: str_replace.induct)
  case 1
  then show ?case by (simp add: think_close_def)
next
  case (2 c cs)
  let ?r = "str_replace think_close think_close_escaped"
  show ?case
  proof (cases "prefix think_close (c # cs)")
    case True
    then have "?r (c # cs) = think_close_escaped @ ?r (drop (length think_close) (c # cs))"
      by (simp add: think_close_def)
    moreover have "\<not> sublist think_close (?r (drop (length think_close) (c # cs)))"
      using 2(1) True by (simp add: think_close_def)
    ultimately show ?thesis
      by (simp add: think_close_def think_close_escaped_def sublist_Cons_right)
  next
    case False
    then have r: "?r (c # cs) = c # ?r cs" by simp
    have "\<not> prefix think_close (c # ?r cs)"
    proof
      assume p: "prefix think_close (c # ?r cs)"
      have tc: "think_close = CHR ''<'' # ''/think>''" by (simp add: think_close_def)
      from p have c: "c = CHR ''<''" by (simp add: think_close_def)
      from p tc have t: "prefix ''/think>'' (?r cs)" by (metis Cons_prefix_Cons)
      from t have "prefix ''/think>'' cs" by (rule str_replace_prefix_free [rotated]) simp
      with c False show False by (simp add: think_close_def)
    qed
    moreover have "\<not> sublist think_close (?r cs)" using 2(2) False by simp
    ultimately show ?thesis unfolding r by (simp only: sublist_Cons_right) blast
  qed
qed

end
