(* ===== verification/Trimmer.thy ===== *)
theory Trimmer
  imports Messages
begin

text \<open>
  Session history trimming, \<^verbatim>\<open>agent_core/runtime/loop/message_trimmer.py\<close>: the protocol
  \<open>MessageTrimmer\<close> (a locale), its two implementations, the backwards scan for a task's final
  report, and the eager trim that compresses a session's history and remaps its boundaries.

  A boundary is the pair of the index of a task's prompt and the index of its last message;
  \<open>None\<close> marks the running task.  Every caller of \<open>find_final_assistant\<close> passes a start index
  that is not negative, so that argument is a \<open>nat\<close>.
\<close>

type_synonym TaskBoundary = "int \<times> int option"

section \<open>The scan for the final report\<close>

text \<open>The test inside the loop: an assistant message that is not a tool-call stub.\<close>

definition clean_final :: "message \<Rightarrow> bool" where
  "clean_final m = (is_assistant_msg m \<and> \<not> truthy (get_or_none m ''tool_calls''))"

text \<open>The loop \<open>for j in range(end, start - 1, -1)\<close>; the last argument is \<open>j + 1\<close>.\<close>

fun scan_back :: "message list \<Rightarrow> nat \<Rightarrow> nat \<Rightarrow> message option" where
  "scan_back messages start 0 = None"
| "scan_back messages start (Suc j) =
     (if j < start then None
      else if clean_final (messages ! j) then Some (messages ! j)
      else scan_back messages start j)"

definition find_final_assistant :: "message list \<Rightarrow> nat \<Rightarrow> int \<Rightarrow> message option" where
  "find_final_assistant messages start endb =
     scan_back messages start (nat (min endb (int (length messages) - 1) + 1))"

section \<open>The trimmers\<close>

definition null_trim :: "message list \<Rightarrow> TaskBoundary list option \<Rightarrow> message list" where
  "null_trim messages boundaries = messages"

text \<open>The loop of \<open>TaskBoundaryTrimmer.trim\<close> over the boundaries.\<close>

fun trim_loop :: "message list \<Rightarrow> TaskBoundary list \<Rightarrow> message list" where
  "trim_loop messages [] = []"
| "trim_loop messages ((start, endb) # bs) =
     (if start < 0 \<or> int (length messages) \<le> start then trim_loop messages bs
      else (case endb of
              None \<Rightarrow> drop (nat start) messages @ trim_loop messages bs
            | Some e \<Rightarrow>
                [messages ! nat start]
                @ (case find_final_assistant messages (nat start + 1) e of
                     None \<Rightarrow> [] | Some final_ai \<Rightarrow> [final_ai])
                @ trim_loop messages bs))"

definition boundary_trim :: "message list \<Rightarrow> TaskBoundary list option \<Rightarrow> message list" where
  "boundary_trim messages boundaries =
     (case boundaries of
        None \<Rightarrow> messages
      | Some bs \<Rightarrow>
          if bs = [] \<or> messages = [] then messages
          else if filter (\<lambda>b. snd b \<noteq> None) bs = [] then messages
          else trim_loop messages bs)"

section \<open>The eager trim\<close>

text \<open>The loop of \<open>trim_and_remap_boundaries\<close>, with its two accumulators.\<close>

fun remap_loop ::
  "message list \<Rightarrow> TaskBoundary list \<Rightarrow> message list \<Rightarrow> TaskBoundary list \<Rightarrow>
   message list \<times> TaskBoundary list" where
  "remap_loop messages [] new_messages new_boundaries = (new_messages, new_boundaries)"
| "remap_loop messages ((start, endb) # bs) new_messages new_boundaries =
     (if start < 0 \<or> int (length messages) \<le> start
      then remap_loop messages bs new_messages new_boundaries
      else
        let new_start = int (length new_messages) in
        case endb of
          None \<Rightarrow>
            remap_loop messages bs (new_messages @ drop (nat start) messages)
              (new_boundaries @ [(new_start, None)])
        | Some e \<Rightarrow>
            (case find_final_assistant messages (nat start + 1) e of
               Some final_ai \<Rightarrow>
                 remap_loop messages bs (new_messages @ [messages ! nat start] @ [final_ai])
                   (new_boundaries @ [(new_start, Some (new_start + 1))])
             | None \<Rightarrow>
                 remap_loop messages bs (new_messages @ [messages ! nat start])
                   (new_boundaries @ [(new_start, Some new_start)])))"

definition trim_and_remap_boundaries ::
  "message list \<Rightarrow> TaskBoundary list \<Rightarrow> message list \<times> TaskBoundary list" where
  "trim_and_remap_boundaries messages boundaries =
     (if boundaries = [] \<or> messages = [] then (messages, boundaries)
      else if \<not> list_ex (\<lambda>b. snd b \<noteq> None) boundaries then (messages, boundaries)
      else remap_loop messages boundaries [] [])"

section \<open>The boundary invariant of a session\<close>

text \<open>
  The docstring of \<open>SubAgentSession\<close>: every closed boundary holds a clean assistant message
  after its prompt.  A session's boundaries also tile its messages, and only the last one may
  be open; this is what dispatch and closure maintain.
\<close>

definition closed_ok :: "message list \<Rightarrow> int \<Rightarrow> int \<Rightarrow> bool" where
  "closed_ok messages s e =
     (0 \<le> s \<and> s < e \<and> e < int (length messages)
      \<and> find_final_assistant messages (nat s + 1) e \<noteq> None)"

fun tiles :: "message list \<Rightarrow> int \<Rightarrow> TaskBoundary list \<Rightarrow> bool" where
  "tiles messages lo [] = (lo = int (length messages))"
| "tiles messages lo ((s, None) # bs) =
     (s = lo \<and> 0 \<le> s \<and> s < int (length messages) \<and> bs = [])"
| "tiles messages lo ((s, Some e) # bs) =
     (s = lo \<and> closed_ok messages s e \<and> tiles messages (e + 1) bs)"

text \<open>The report a closed boundary surfaces, and those of a whole history.\<close>

definition report_of :: "message list \<Rightarrow> TaskBoundary \<Rightarrow> message option" where
  "report_of messages b =
     (case snd b of None \<Rightarrow> None | Some e \<Rightarrow> find_final_assistant messages (nat (fst b) + 1) e)"

definition prompt_of :: "message list \<Rightarrow> TaskBoundary \<Rightarrow> message" where
  "prompt_of messages b = messages ! nat (fst b)"

section \<open>The scan returns the last clean message of the range\<close>

lemma scan_back_None_iff:
  "scan_back ms start n = None \<longleftrightarrow> (\<forall>j. start \<le> j \<and> j < n \<longrightarrow> \<not> clean_final (ms ! j))"
proof (induction n)
  case (Suc n)
  then show ?case by (cases "n < start") (auto simp: less_Suc_eq not_less)
qed simp

lemma scan_back_Some_iff:
  "scan_back ms start n = Some m \<longleftrightarrow>
     (\<exists>j. start \<le> j \<and> j < n \<and> clean_final (ms ! j) \<and> ms ! j = m
          \<and> (\<forall>k. j < k \<and> k < n \<longrightarrow> \<not> clean_final (ms ! k)))"
proof (induction n)
  case 0
  then show ?case by simp
next
  case (Suc n)
  show ?case
  proof (cases "start \<le> n \<and> clean_final (ms ! n)")
    case True
    then have "scan_back ms start (Suc n) = Some (ms ! n)" by simp
    moreover have "j = n" if "j < Suc n" "\<forall>k. j < k \<and> k < Suc n \<longrightarrow> \<not> clean_final (ms ! k)" for j
      using that True by (metis less_SucE lessI)
    ultimately show ?thesis using True by (auto intro!: exI [of _ n])
  next
    case False
    then have "scan_back ms start (Suc n) = scan_back ms start n" if "start \<le> n"
      using that by simp
    with Suc False show ?thesis
      by (cases "start \<le> n") (auto simp: less_Suc_eq)
  qed
qed

lemma find_final_assistant_clean:
  "find_final_assistant ms start e = Some m \<Longrightarrow> clean_final m \<and> m \<in> set ms"
  by (auto simp: find_final_assistant_def scan_back_Some_iff intro!: nth_mem)

lemma find_final_assistant_None_iff:
  "find_final_assistant ms start e = None \<longleftrightarrow>
     (\<forall>j. start \<le> j \<and> int j \<le> e \<and> j < length ms \<longrightarrow> \<not> clean_final (ms ! j))"
proof -
  have "j < nat (min e (int (length ms) - 1) + 1) \<longleftrightarrow> int j \<le> e \<and> j < length ms" for j
    by auto
  then show ?thesis by (simp add: find_final_assistant_def scan_back_None_iff)
qed

lemma find_final_assistant_single:
  assumes "n < length ms" and "clean_final (ms ! n)"
  shows "find_final_assistant ms n (int n) = Some (ms ! n)"
proof -
  have n: "nat (min (int n) (int (length ms) - 1) + 1) = Suc n" using assms(1) by simp
  show ?thesis unfolding find_final_assistant_def n using assms(2) by simp
qed

lemma find_final_assistant_last:
  assumes "ms \<noteq> []" and "clean_final (last ms)" and "start < length ms"
  shows "find_final_assistant ms start (int (length ms) - 1) = Some (last ms)"
proof -
  obtain n where n: "length ms = Suc n" using assms(1) by (cases ms) auto
  then have "last ms = ms ! n" using assms(1) by (simp add: last_conv_nth)
  moreover have "nat (min (int (length ms) - 1) (int (length ms) - 1) + 1) = Suc n"
    using n by simp
  ultimately show ?thesis using assms(2,3) n by (simp add: find_final_assistant_def)
qed

section \<open>The remap loop without its accumulators\<close>

fun packed :: "message list \<Rightarrow> int \<Rightarrow> TaskBoundary list \<Rightarrow> TaskBoundary list" where
  "packed ms n [] = []"
| "packed ms n ((s, None) # bs) = (n, None) # packed ms (n + int (length ms) - s) bs"
| "packed ms n ((s, Some e) # bs) = (n, Some (n + 1)) # packed ms (n + 2) bs"

lemma fst_remap_loop: "fst (remap_loop ms bs newm newb) = newm @ trim_loop ms bs"
  by (induction ms bs newm newb rule: remap_loop.induct)
     (auto simp: Let_def split: option.splits)

lemma remap_loop_tiles:
  "tiles ms lo bs \<Longrightarrow>
   remap_loop ms bs newm newb = (newm @ trim_loop ms bs, newb @ packed ms (int (length newm)) bs)"
proof (induction ms lo bs arbitrary: newm newb rule: tiles.induct)
  case (1 ms lo)
  then show ?case by simp
next
  case (2 ms lo s bs)
  then show ?case by (simp add: Let_def)
next
  case (3 ms lo s e bs)
  then have ok: "closed_ok ms s e" and t: "tiles ms (e + 1) bs" by auto
  then obtain f where f: "find_final_assistant ms (nat s + 1) e = Some f"
    and s: "0 \<le> s" "s < int (length ms)" by (auto simp: closed_ok_def)
  have len: "int (length (newm @ [ms ! nat s] @ [f])) = int (length newm) + 2" by simp
  have "remap_loop ms bs (newm @ [ms ! nat s] @ [f]) b =
      ((newm @ [ms ! nat s] @ [f]) @ trim_loop ms bs, b @ packed ms (int (length newm) + 2) bs)" for b
    using "3.IH" [OF t, of "newm @ [ms ! nat s] @ [f]" b] unfolding len .
  with f s show ?case by (simp add: Let_def)
qed

lemma tiles_trimmed:
  "tiles ms lo bs \<Longrightarrow>
   tiles (newm @ trim_loop ms bs) (int (length newm)) (packed ms (int (length newm)) bs)
   \<and> map (report_of (newm @ trim_loop ms bs)) (packed ms (int (length newm)) bs) =
       map (report_of ms) bs
   \<and> map (prompt_of (newm @ trim_loop ms bs)) (packed ms (int (length newm)) bs) =
       map (prompt_of ms) bs"
proof (induction ms lo bs arbitrary: newm rule: tiles.induct)
  case (1 ms lo)
  then show ?case by simp
next
  case (2 ms lo s bs)
  then show ?case
    by (auto simp: report_of_def prompt_of_def nth_append nth_drop)
next
  case (3 ms lo s e bs)
  then have ok: "closed_ok ms s e" and t: "tiles ms (e + 1) bs" by auto
  then obtain f where f: "find_final_assistant ms (nat s + 1) e = Some f"
    and s: "0 \<le> s" "s < int (length ms)" by (auto simp: closed_ok_def)
  let ?p = "ms ! nat s" and ?n = "length newm"
  define M where "M = newm @ trim_loop ms ((s, Some e) # bs)"
  have M: "M = (newm @ [?p, f]) @ trim_loop ms bs" using f s by (simp add: M_def)
  have f_at: "M ! (?n + 1) = f" and p_at: "M ! ?n = ?p" and len: "?n + 1 < length M"
    unfolding M by (simp_all add: nth_append)
  have rep: "find_final_assistant M (?n + 1) (int (?n + 1)) = Some f"
    using find_final_assistant_single [OF len] f_at find_final_assistant_clean [OF f] by simp
  then have "closed_ok M (int ?n) (int ?n + 1)"
    using len by (simp add: closed_ok_def nat_add_distrib algebra_simps)
  moreover have "int (length (newm @ [?p, f])) = int ?n + 2" by simp
  with "3.IH" [OF t, of "newm @ [?p, f]"]
  have "tiles M (int ?n + 2) (packed ms (int ?n + 2) bs)
    \<and> map (report_of M) (packed ms (int ?n + 2) bs) = map (report_of ms) bs
    \<and> map (prompt_of M) (packed ms (int ?n + 2) bs) = map (prompt_of ms) bs"
    unfolding M by (simp add: add.commute)
  moreover have "report_of M (int ?n, Some (int ?n + 1)) = report_of ms (s, Some e)"
    using rep f by (simp add: report_of_def algebra_simps)
  moreover have "prompt_of M (int ?n, Some (int ?n + 1)) = prompt_of ms (s, Some e)"
    using p_at by (simp add: prompt_of_def)
  ultimately show ?case unfolding M_def [symmetric] by (simp add: add.commute)
qed

text \<open>A history in packed form is a fixed point of the remap.\<close>

definition two_per_task :: "TaskBoundary list \<Rightarrow> bool" where
  "two_per_task bs = (\<forall>(s, e) \<in> set bs. e \<noteq> None \<longrightarrow> e = Some (s + 1))"

lemma two_per_task_packed: "two_per_task (packed ms n bs)"
  by (induction ms n bs rule: packed.induct) (auto simp: two_per_task_def)

lemma remap_loop_fixed:
  "tiles ms lo bs \<Longrightarrow> two_per_task bs \<Longrightarrow> 0 \<le> lo \<Longrightarrow>
   remap_loop ms bs (take (nat lo) ms) newb = (ms, newb @ bs)"
proof (induction ms lo bs arbitrary: newb rule: tiles.induct)
  case (1 ms lo)
  then show ?case by simp
next
  case (2 ms lo s bs)
  then show ?case by (auto simp: min_def Let_def)
next
  case (3 ms lo s e bs)
  then have ok: "closed_ok ms s e" and t: "tiles ms (e + 1) bs" and e: "e = s + 1" and lo: "lo = s"
    and two: "two_per_task bs" by (auto simp: two_per_task_def)
  from ok have s: "0 \<le> s" "s < int (length ms)" "nat s + 1 < length ms"
    by (auto simp: closed_ok_def e)
  from ok obtain f where f: "find_final_assistant ms (nat s + 1) e = Some f"
    by (auto simp: closed_ok_def)
  have at: "int (nat s + 1) = e" using s by (simp add: e)
  have "clean_final (ms ! (nat s + 1))"
  proof (rule ccontr)
    assume "\<not> clean_final (ms ! (nat s + 1))"
    moreover have "j = nat s + 1" if "nat s + 1 \<le> j" "int j \<le> e" for j
      using that at by linarith
    ultimately have "find_final_assistant ms (nat s + 1) e = None"
      by (auto simp: find_final_assistant_None_iff)
    with f show False by simp
  qed
  with find_final_assistant_single [OF s(3)] f at have "f = ms ! (nat s + 1)" by simp
  moreover have "take (nat s) ms @ [ms ! nat s, ms ! (nat s + 1)] = take (nat (e + 1)) ms"
    using s by (simp add: e take_Suc_conv_app_nth nat_add_distrib)
  ultimately show ?case
    using "3.IH" [OF t two, of "newb @ [(s, Some e)]"] f s
    by (simp add: lo e min_def)
qed

section \<open>The trimmer protocol\<close>

text \<open>
  What the bus relies on when it seeds a run with a trimmer's output: no message is invented,
  and the history of a session that has completed no task is passed through.
\<close>

locale message_trimmer =
  fixes trim :: "message list \<Rightarrow> TaskBoundary list option \<Rightarrow> message list"
  assumes trim_subset: "set (trim ms bs) \<subseteq> set ms"
    and trim_first_task:
      "(\<And>l. bs = Some l \<Longrightarrow> \<forall>b \<in> set l. snd b = None) \<Longrightarrow> trim ms bs = ms"
begin

text \<open>
  The seed of a run is the system prompt followed by the trimmed history; the bus absorbs
  whatever the run added behind the seed and the task prompt.
\<close>

definition seed :: "string \<Rightarrow> message list \<Rightarrow> TaskBoundary list \<Rightarrow> message list" where
  "seed prompt ms bs = system_msg prompt # trim ms (Some bs)"

lemma absorb_seed:
  "drop (length (seed prompt ms bs) + 1) (seed prompt ms bs @ [user_msg q] @ new) = new"
  by (simp add: seed_def)

lemma seed_fresh: "seed prompt [] [] = [system_msg prompt]"
  using trim_first_task [of "Some []" "[]"] by (simp add: seed_def)

end

lemma trim_loop_subset: "set (trim_loop ms bs) \<subseteq> set ms"
proof (induction ms bs rule: trim_loop.induct)
  case (2 ms s e bs)
  then show ?case
    by (auto split: option.splits if_splits
        dest!: find_final_assistant_clean [OF sym] in_set_dropD intro!: nth_mem)
qed simp

interpretation nulltr: message_trimmer null_trim
  by unfold_locales (auto simp: null_trim_def)

interpretation tbt: message_trimmer boundary_trim
proof unfold_locales
  show "set (boundary_trim ms bs) \<subseteq> set ms" for ms bs
    using trim_loop_subset [of ms] by (auto simp: boundary_trim_def split: option.splits)
next
  show "boundary_trim ms bs = ms" if "\<And>l. bs = Some l \<Longrightarrow> \<forall>b \<in> set l. snd b = None" for ms bs
    using that by (auto simp: boundary_trim_def filter_empty_conv split: option.splits)
qed

section \<open>Properties of the trimmers\<close>

lemma remap_fst_trim:
  "fst (trim_and_remap_boundaries ms bs) = boundary_trim ms (Some bs)"
  by (auto simp: trim_and_remap_boundaries_def boundary_trim_def fst_remap_loop
      filter_empty_conv list_ex_iff)

lemma trim_and_remap_changed:
  "trim_and_remap_boundaries ms bs \<noteq> (ms, bs) \<Longrightarrow>
   trim_and_remap_boundaries ms bs = remap_loop ms bs [] []"
  by (auto simp: trim_and_remap_boundaries_def)

lemma trim_and_remap_tiles:
  assumes "tiles ms 0 bs" and "trim_and_remap_boundaries ms bs = (ms', bs')"
  shows "tiles ms' 0 bs' \<and> map (report_of ms') bs' = map (report_of ms) bs
    \<and> map (prompt_of ms') bs' = map (prompt_of ms) bs"
proof (cases "trim_and_remap_boundaries ms bs = (ms, bs)")
  case True
  then show ?thesis using assms by simp
next
  case False
  from trim_and_remap_changed [OF this] show ?thesis
    using assms(2) tiles_trimmed [OF assms(1), of "[]"] remap_loop_tiles [OF assms(1), of "[]" "[]"]
    by simp
qed

lemma trim_and_remap_fixed:
  assumes "tiles ms 0 bs" and "trim_and_remap_boundaries ms bs = (ms', bs')"
  shows "trim_and_remap_boundaries ms' bs' = (ms', bs')"
proof (cases "trim_and_remap_boundaries ms bs = (ms, bs)")
  case True
  then show ?thesis using assms by simp
next
  case False
  with trim_and_remap_changed assms(2) remap_loop_tiles [OF assms(1), of "[]" "[]"]
  have bs': "bs' = packed ms 0 bs" by simp
  have "tiles ms' 0 bs'" using trim_and_remap_tiles [OF assms] by simp
  with two_per_task_packed [of ms 0 bs] remap_loop_fixed [of ms' 0 bs' "[]"]
  have "remap_loop ms' bs' [] [] = (ms', bs')" by (simp add: bs')
  then show ?thesis by (auto simp: trim_and_remap_boundaries_def)
qed

text \<open>
  C8: eager trimming keeps the boundary invariant of a session.  Whenever the boundaries tile
  the history and every closed one holds a clean assistant message, the same holds of the
  trimmed history with its remapped boundaries, and every task keeps its prompt and its report.
\<close>

theorem eager_trim_keeps_invariant:
  assumes "tiles ms 0 bs" and "trim_and_remap_boundaries ms bs = (ms', bs')"
  shows "tiles ms' 0 bs' \<and> map (report_of ms') bs' = map (report_of ms) bs
    \<and> map (prompt_of ms') bs' = map (prompt_of ms) bs"
  using trim_and_remap_tiles [OF assms] .

definition ex_history :: "message list" where
  "ex_history = [user_msg ''q'', assistant_msg (PyStr ''x'') (Some [PyInt 1]) [],
                 tool_msg ''r'' ''1'', assistant_msg (PyStr ''done'') None [], user_msg ''q2'']"

theorem eager_trim_keeps_invariant_witness:
  "tiles ex_history 0 [(0, Some 3), (4, None)]
   \<and> trim_and_remap_boundaries ex_history [(0, Some 3), (4, None)] =
       ([user_msg ''q'', assistant_msg (PyStr ''done'') None [], user_msg ''q2''],
        [(0, Some 1), (2, None)])
   \<and> tiles [user_msg ''q'', assistant_msg (PyStr ''done'') None [], user_msg ''q2''] 0
        [(0, Some 1), (2, None)]"
proof -
  have t: "tiles ex_history 0 [(0, Some 3), (4, None)]" by code_simp
  have r: "trim_and_remap_boundaries ex_history [(0, Some 3), (4, None)] =
      ([user_msg ''q'', assistant_msg (PyStr ''done'') None [], user_msg ''q2''],
       [(0, Some 1), (2, None)])" by code_simp
  from t r eager_trim_keeps_invariant [OF t r] show ?thesis by simp
qed

text \<open>
  C9: eager trimming is transparent and stable.  The seed a task-boundary trimmer builds from
  the eagerly trimmed history is the one it builds from the full history, and trimming a second
  time changes nothing.
\<close>

theorem eager_trim_transparent:
  assumes "tiles ms 0 bs" and "trim_and_remap_boundaries ms bs = (ms', bs')"
  shows "boundary_trim ms' (Some bs') = boundary_trim ms (Some bs)
    \<and> trim_and_remap_boundaries ms' bs' = (ms', bs')"
  using trim_and_remap_fixed [OF assms] remap_fst_trim [of ms bs] remap_fst_trim [of ms' bs']
    assms(2) by simp

theorem eager_trim_transparent_witness:
  "boundary_trim [user_msg ''q'', assistant_msg (PyStr ''done'') None [], user_msg ''q2'']
      (Some [(0, Some 1), (2, None)]) =
   boundary_trim ex_history (Some [(0, Some 3), (4, None)])"
proof -
  have t: "tiles ex_history 0 [(0, Some 3), (4, None)]" by code_simp
  have r: "trim_and_remap_boundaries ex_history [(0, Some 3), (4, None)] =
      ([user_msg ''q'', assistant_msg (PyStr ''done'') None [], user_msg ''q2''],
       [(0, Some 1), (2, None)])" by code_simp
  from eager_trim_transparent [OF t r] show ?thesis by simp
qed

end
