(* ===== verification/Budget.thy ===== *)
theory Budget
  imports Prelude
begin

text \<open>
  The budget models of \<^verbatim>\<open>agent_core/models/task_budget.py\<close>: what a task may spend, one charge,
  the running totals with their exhaustion flag, and the escalation that raises the ceilings.
  A reported change keeps its data; its rendering as text is not modelled.
\<close>

record TaskBudget =
  tb_max_tokens :: int
  tb_max_cost_usd :: "real option"
  tb_max_wall_time_s :: int
  tb_max_parallel :: int
  tb_max_depth :: int
  tb_max_search_calls :: int
  tb_max_verify_passes :: int
  tb_max_debate_rounds :: int
  tb_default_model_tier :: string
  tb_role_tiers :: "string pydict"

definition default_TaskBudget :: TaskBudget where
  "default_TaskBudget =
     \<lparr>tb_max_tokens = 500000, tb_max_cost_usd = None, tb_max_wall_time_s = 300,
      tb_max_parallel = 3, tb_max_depth = 1, tb_max_search_calls = 20,
      tb_max_verify_passes = 5, tb_max_debate_rounds = 0,
      tb_default_model_tier = ''medium'', tb_role_tiers = []\<rparr>"

record BudgetCharge =
  bc_primitive :: string
  bc_llm_calls :: int
  bc_search_calls :: int
  bc_verify_passes :: int
  bc_debate_rounds :: int
  bc_tokens :: int
  bc_cost_usd :: real
  bc_wall_time_s :: int

record BudgetState =
  allocated :: TaskBudget
  llm_calls_used :: int
  search_calls_used :: int
  verify_passes_used :: int
  debate_rounds_used :: int
  tokens_used :: int
  cost_usd_used :: real
  wall_time_s_used :: int
  exhausted :: bool
  warnings :: "string list"

section \<open>Charging\<close>

definition warn_if :: "bool \<Rightarrow> string \<Rightarrow> BudgetState \<Rightarrow> BudgetState" where
  "warn_if b w s = (if b then s\<lparr>warnings := warnings s @ [w]\<rparr> else s)"

definition exhaust_if :: "bool \<Rightarrow> string \<Rightarrow> BudgetState \<Rightarrow> BudgetState" where
  "exhaust_if b w s = (if b then s\<lparr>exhausted := True, warnings := warnings s @ [w]\<rparr> else s)"

text \<open>\<open>a.max_cost_usd and used >= a.max_cost_usd\<close>: a limit of zero is no limit.\<close>

definition cost_exceeded :: "real option \<Rightarrow> real \<Rightarrow> bool" where
  "cost_exceeded limit used = (case limit of None \<Rightarrow> False | Some c \<Rightarrow> c \<noteq> 0 \<and> c \<le> used)"

definition check_exhaustion :: "BudgetState \<Rightarrow> BudgetState" where
  "check_exhaustion s0 =
     (let a = allocated s0;
          s1 = exhaust_if (tb_max_search_calls a \<le> search_calls_used s0) ''search_calls exhausted'' s0;
          s2 = warn_if (tb_max_verify_passes a \<le> verify_passes_used s1) ''verify_passes exhausted'' s1;
          s3 = exhaust_if (tb_max_tokens a \<le> tokens_used s2) ''token budget exhausted'' s2;
          s4 = exhaust_if (cost_exceeded (tb_max_cost_usd a) (cost_usd_used s3))
                 ''cost budget exhausted'' s3;
          s5 = exhaust_if (0 < tb_max_wall_time_s a \<and> tb_max_wall_time_s a \<le> wall_time_s_used s4)
                 ''wall time exhausted'' s4
      in s5)"

definition charge :: "BudgetCharge \<Rightarrow> BudgetState \<Rightarrow> BudgetState" where
  "charge c s =
     check_exhaustion
       (s\<lparr>llm_calls_used := llm_calls_used s + bc_llm_calls c,
          search_calls_used := search_calls_used s + bc_search_calls c,
          verify_passes_used := verify_passes_used s + bc_verify_passes c,
          debate_rounds_used := debate_rounds_used s + bc_debate_rounds c,
          tokens_used := tokens_used s + bc_tokens c,
          cost_usd_used := cost_usd_used s + bc_cost_usd c,
          wall_time_s_used := wall_time_s_used s + bc_wall_time_s c\<rparr>)"

section \<open>Escalation\<close>

datatype budget_change =
    FieldChange string int int
  | TierChange string string
  | RoleTierChange string string string

text \<open>\<open>tier_order.get(tier, 0)\<close>\<close>

definition tier_order :: "string \<Rightarrow> nat" where
  "tier_order t = (if t = ''medium'' then 1 else if t = ''strong'' then 2 else 0)"

text \<open>One round of the loop over the integer ceilings.\<close>

definition raise_field ::
  "string \<Rightarrow> (TaskBudget \<Rightarrow> int) \<Rightarrow> ((int \<Rightarrow> int) \<Rightarrow> TaskBudget \<Rightarrow> TaskBudget) \<Rightarrow>
   TaskBudget \<Rightarrow> TaskBudget \<times> budget_change list \<Rightarrow> TaskBudget \<times> budget_change list" where
  "raise_field name get upd new_budget = (\<lambda>(a, changes).
     let old_val = get a; new_val = get new_budget in
     if old_val < new_val
     then (upd (\<lambda>_. new_val) a, changes @ [FieldChange name old_val new_val])
     else (a, changes))"

definition raise_tier ::
  "TaskBudget \<Rightarrow> TaskBudget \<times> budget_change list \<Rightarrow> TaskBudget \<times> budget_change list" where
  "raise_tier new_budget = (\<lambda>(a, changes).
     let new_tier = tb_default_model_tier new_budget; old_tier = tb_default_model_tier a in
     if tier_order old_tier < tier_order new_tier
     then (a\<lparr>tb_default_model_tier := new_tier\<rparr>, changes @ [TierChange old_tier new_tier])
     else (a, changes))"

text \<open>One round of the loop over the role tiers of the new budget.\<close>

definition raise_role ::
  "string \<times> string \<Rightarrow> TaskBudget \<times> budget_change list \<Rightarrow> TaskBudget \<times> budget_change list" where
  "raise_role = (\<lambda>(role, tier) (a, changes).
     let current = dict_get_default (tb_role_tiers a) role ''light'' in
     if tier_order current < tier_order tier
     then (a\<lparr>tb_role_tiers := AList.update role tier (tb_role_tiers a)\<rparr>,
           changes @ [RoleTierChange role current tier])
     else (a, changes))"

definition escalate_allocation :: "TaskBudget \<Rightarrow> TaskBudget \<Rightarrow> TaskBudget \<times> budget_change list" where
  "escalate_allocation new_budget a0 =
     fold raise_role (tb_role_tiers new_budget)
       (raise_tier new_budget
         (raise_field ''max_debate_rounds'' tb_max_debate_rounds tb_max_debate_rounds_update new_budget
           (raise_field ''max_verify_passes'' tb_max_verify_passes tb_max_verify_passes_update new_budget
             (raise_field ''max_search_calls'' tb_max_search_calls tb_max_search_calls_update new_budget
               (raise_field ''max_parallel'' tb_max_parallel tb_max_parallel_update new_budget
                 (raise_field ''max_wall_time_s'' tb_max_wall_time_s tb_max_wall_time_s_update new_budget
                   (raise_field ''max_tokens'' tb_max_tokens tb_max_tokens_update new_budget
                     (a0, []))))))))"

definition escalate :: "TaskBudget \<Rightarrow> BudgetState \<Rightarrow> BudgetState \<times> budget_change list" where
  "escalate new_budget s =
     (let (a, changes) = escalate_allocation new_budget (allocated s);
          s1 = s\<lparr>allocated := a\<rparr>
      in if changes \<noteq> []
         then (s1\<lparr>exhausted := False,
                  warnings := filter (\<lambda>w. \<not> sublist ''exhausted'' w) (warnings s1)\<rparr>, changes)
         else (s1, changes))"

definition remaining_search_calls :: "BudgetState \<Rightarrow> int" where
  "remaining_search_calls s = max 0 (tb_max_search_calls (allocated s) - search_calls_used s)"

definition remaining_verify_passes :: "BudgetState \<Rightarrow> int" where
  "remaining_verify_passes s = max 0 (tb_max_verify_passes (allocated s) - verify_passes_used s)"

definition remaining_debate_rounds :: "BudgetState \<Rightarrow> int" where
  "remaining_debate_rounds s = max 0 (tb_max_debate_rounds (allocated s) - debate_rounds_used s)"

section \<open>The abstract contract\<close>

text \<open>A hard limit is spent: the test that the exhaustion flag stands for.\<close>

definition over_limit :: "BudgetState \<Rightarrow> bool" where
  "over_limit s =
     (let a = allocated s in
      tb_max_search_calls a \<le> search_calls_used s \<or> tb_max_tokens a \<le> tokens_used s
      \<or> cost_exceeded (tb_max_cost_usd a) (cost_usd_used s)
      \<or> (0 < tb_max_wall_time_s a \<and> tb_max_wall_time_s a \<le> wall_time_s_used s))"

text \<open>The order in which an escalation may move an allocation: no ceiling falls.\<close>

definition budget_le :: "TaskBudget \<Rightarrow> TaskBudget \<Rightarrow> bool" where
  "budget_le a b =
     (tb_max_tokens a \<le> tb_max_tokens b \<and> tb_max_cost_usd a = tb_max_cost_usd b
      \<and> tb_max_wall_time_s a \<le> tb_max_wall_time_s b \<and> tb_max_parallel a \<le> tb_max_parallel b
      \<and> tb_max_depth a = tb_max_depth b \<and> tb_max_search_calls a \<le> tb_max_search_calls b
      \<and> tb_max_verify_passes a \<le> tb_max_verify_passes b
      \<and> tb_max_debate_rounds a \<le> tb_max_debate_rounds b
      \<and> tier_order (tb_default_model_tier a) \<le> tier_order (tb_default_model_tier b)
      \<and> (\<forall>r. tier_order (dict_get_default (tb_role_tiers a) r ''light'')
              \<le> tier_order (dict_get_default (tb_role_tiers b) r ''light'')))"

lemma exhaust_if_fields [simp]:
  "allocated (exhaust_if b w s) = allocated s"
  "search_calls_used (exhaust_if b w s) = search_calls_used s"
  "verify_passes_used (exhaust_if b w s) = verify_passes_used s"
  "tokens_used (exhaust_if b w s) = tokens_used s"
  "cost_usd_used (exhaust_if b w s) = cost_usd_used s"
  "wall_time_s_used (exhaust_if b w s) = wall_time_s_used s"
  "exhausted (exhaust_if b w s) = (exhausted s \<or> b)"
  by (simp_all add: exhaust_if_def)

lemma warn_if_fields [simp]:
  "allocated (warn_if b w s) = allocated s"
  "search_calls_used (warn_if b w s) = search_calls_used s"
  "tokens_used (warn_if b w s) = tokens_used s"
  "cost_usd_used (warn_if b w s) = cost_usd_used s"
  "wall_time_s_used (warn_if b w s) = wall_time_s_used s"
  "exhausted (warn_if b w s) = exhausted s"
  by (simp_all add: warn_if_def)

lemma budget_le_refl: "budget_le a a"
  by (simp add: budget_le_def)

lemma budget_le_trans: "budget_le a b \<Longrightarrow> budget_le b c \<Longrightarrow> budget_le a c"
  by (auto simp: budget_le_def intro: order_trans)

lemma raise_tier_le: "budget_le (fst ac) (fst (raise_tier b ac))"
  by (auto simp: raise_tier_def budget_le_def Let_def split: prod.splits)

lemma raise_role_le: "budget_le (fst ac) (fst (raise_role rt ac))"
  by (cases rt; cases ac) (auto simp: raise_role_def budget_le_def Let_def dict_get_default_def)

lemma fold_raise_role_le: "budget_le (fst ac) (fst (fold raise_role rts ac))"
proof (induction rts arbitrary: ac)
  case (Cons rt rts)
  show ?case
    using budget_le_trans [OF raise_role_le Cons.IH] by (simp del: split_paired_All)
qed (simp add: budget_le_refl)

lemma raise_fields_le:
  "budget_le (fst ac) (fst (raise_field n tb_max_tokens tb_max_tokens_update b ac))"
  "budget_le (fst ac) (fst (raise_field n tb_max_wall_time_s tb_max_wall_time_s_update b ac))"
  "budget_le (fst ac) (fst (raise_field n tb_max_parallel tb_max_parallel_update b ac))"
  "budget_le (fst ac) (fst (raise_field n tb_max_search_calls tb_max_search_calls_update b ac))"
  "budget_le (fst ac) (fst (raise_field n tb_max_verify_passes tb_max_verify_passes_update b ac))"
  "budget_le (fst ac) (fst (raise_field n tb_max_debate_rounds tb_max_debate_rounds_update b ac))"
  by (auto simp: raise_field_def budget_le_def Let_def split: prod.splits)

lemma escalate_allocation_le: "budget_le a (fst (escalate_allocation b a))"
  unfolding escalate_allocation_def
  by (rule budget_le_trans [OF _ fold_raise_role_le], rule budget_le_trans [OF _ raise_tier_le],
      (rule budget_le_trans [OF _ raise_fields_le(6)] budget_le_trans [OF _ raise_fields_le(5)]
        budget_le_trans [OF _ raise_fields_le(4)] budget_le_trans [OF _ raise_fields_le(3)]
        budget_le_trans [OF _ raise_fields_le(2)] budget_le_trans [OF _ raise_fields_le(1)])+)
     (simp add: budget_le_refl)

section \<open>Properties\<close>

text \<open>
  Charging keeps exact totals and the exhaustion flag is exactly "was exhausted, or a hard
  limit is now reached"; a charge never clears the flag.
\<close>

theorem charge_spec:
  "let s' = charge c s in
     tokens_used s' = tokens_used s + bc_tokens c
     \<and> search_calls_used s' = search_calls_used s + bc_search_calls c
     \<and> cost_usd_used s' = cost_usd_used s + bc_cost_usd c
     \<and> wall_time_s_used s' = wall_time_s_used s + bc_wall_time_s c
     \<and> allocated s' = allocated s
     \<and> exhausted s' = (exhausted s \<or> over_limit s')"
  by (simp add: charge_def check_exhaustion_def over_limit_def Let_def disj_assoc)

text \<open>
  Escalation raises ceilings only and keeps every consumption counter, and it clears the
  exhaustion flag exactly when it raised something, whichever limit had been spent.
\<close>

theorem escalate_spec:
  "budget_le (allocated s) (allocated (fst (escalate b s)))
   \<and> tokens_used (fst (escalate b s)) = tokens_used s
   \<and> search_calls_used (fst (escalate b s)) = search_calls_used s
   \<and> cost_usd_used (fst (escalate b s)) = cost_usd_used s
   \<and> wall_time_s_used (fst (escalate b s)) = wall_time_s_used s
   \<and> exhausted (fst (escalate b s)) = (exhausted s \<and> snd (escalate b s) = [])"
  using escalate_allocation_le [of "allocated s" b]
  by (auto simp: escalate_def Let_def case_prod_beta)

end
