(* ===== verification/Spawn.thy ===== *)
theory Spawn
  imports Budget
begin

text \<open>
  The spawn controller of \<^verbatim>\<open>agent_core/components/agent_bus/spawn_guard.py\<close>.  The semaphore is
  the number of free slots; \<open>acquire_slot\<close> is \<open>None\<close> where the coroutine would wait.  Each
  operation runs without suspension apart from that wait, so it is one step.  A reservation's
  timestamp is not kept: nothing reads it.
\<close>

datatype spawn_error =
    SpawnDepthExceeded int int
  | BudgetExhausted int int

record SpawnReservation =
  res_job_id :: string
  res_depth :: int
  res_estimated_tokens :: int
  res_acquired :: bool

record SpawnGuard =
  sg_max_depth :: int
  sg_max_tokens :: int
  sg_max_parallel :: int
  sg_timeout_s :: int
  sg_semaphore :: nat
  sg_tokens_reserved :: int
  sg_tokens_actual :: int
  sg_active :: "SpawnReservation pydict"
  sg_total_spawns :: int

definition DEFAULT_SUB_AGENT_TIMEOUT_S :: int where
  "DEFAULT_SUB_AGENT_TIMEOUT_S = 5400"

definition init_SpawnGuard :: "TaskBudget option \<Rightarrow> int option \<Rightarrow> SpawnGuard" where
  "init_SpawnGuard budget sub_agent_timeout_s =
     (let b = (case budget of None \<Rightarrow> default_TaskBudget | Some b \<Rightarrow> b)
      in \<lparr>sg_max_depth = tb_max_depth b, sg_max_tokens = tb_max_tokens b,
          sg_max_parallel = tb_max_parallel b,
          sg_timeout_s = (case sub_agent_timeout_s of
                            None \<Rightarrow> DEFAULT_SUB_AGENT_TIMEOUT_S | Some t \<Rightarrow> t),
          sg_semaphore = nat (max (tb_max_parallel b) 1),
          sg_tokens_reserved = 0, sg_tokens_actual = 0, sg_active = [],
          sg_total_spawns = 0\<rparr>)"

definition active_count :: "SpawnGuard \<Rightarrow> nat" where
  "active_count g = length (sg_active g)"

definition remaining_tokens :: "SpawnGuard \<Rightarrow> int" where
  "remaining_tokens g = max 0 (sg_max_tokens g - sg_tokens_reserved g)"

definition pre_check :: "string \<Rightarrow> int \<Rightarrow> int \<Rightarrow> SpawnGuard \<Rightarrow> spawn_error + SpawnGuard" where
  "pre_check job_id depth estimated_tokens g =
     (if sg_max_depth g \<le> depth then Inl (SpawnDepthExceeded depth (sg_max_depth g))
      else
        let remaining = sg_max_tokens g - sg_tokens_reserved g in
        if 0 < estimated_tokens \<and> remaining < estimated_tokens
        then Inl (BudgetExhausted estimated_tokens remaining)
        else Inr (g\<lparr>sg_tokens_reserved := sg_tokens_reserved g + estimated_tokens,
                    sg_active := AList.update job_id
                      \<lparr>res_job_id = job_id, res_depth = depth,
                       res_estimated_tokens = estimated_tokens, res_acquired = False\<rparr>
                      (sg_active g),
                    sg_total_spawns := sg_total_spawns g + 1\<rparr>))"

definition acquire_slot :: "string \<Rightarrow> SpawnGuard \<Rightarrow> SpawnGuard option" where
  "acquire_slot job_id g =
     (if sg_semaphore g = 0 then None
      else
        let g1 = g\<lparr>sg_semaphore := sg_semaphore g - 1\<rparr> in
        case map_of (sg_active g1) job_id of
          None \<Rightarrow> Some g1
        | Some r \<Rightarrow> Some (g1\<lparr>sg_active := AList.update job_id (r\<lparr>res_acquired := True\<rparr>)
                                            (sg_active g1)\<rparr>))"

text \<open>The combined call: \<open>Inr None\<close> while it waits for a slot.\<close>

definition acquire ::
  "string \<Rightarrow> int \<Rightarrow> int \<Rightarrow> SpawnGuard \<Rightarrow> spawn_error + SpawnGuard option" where
  "acquire job_id depth estimated_tokens g =
     (case pre_check job_id depth estimated_tokens g of
        Inl e \<Rightarrow> Inl e
      | Inr g1 \<Rightarrow> Inr (acquire_slot job_id g1))"

definition release :: "string \<Rightarrow> int \<Rightarrow> SpawnGuard \<Rightarrow> SpawnGuard" where
  "release job_id actual_tokens g =
     (case map_of (sg_active g) job_id of
        None \<Rightarrow> g
      | Some r \<Rightarrow>
          let g1 = g\<lparr>sg_active := AList.delete job_id (sg_active g),
                     sg_tokens_reserved := sg_tokens_reserved g - res_estimated_tokens r,
                     sg_tokens_actual := sg_tokens_actual g + actual_tokens\<rparr>
          in if res_acquired r then g1\<lparr>sg_semaphore := sg_semaphore g1 + 1\<rparr> else g1)"

text \<open>
  The context manager \<open>reservation\<close>: acquire, run the body on the guard, release in the
  \<open>finally\<close> whether or not the body raised.
\<close>

definition reservation ::
  "string \<Rightarrow> int \<Rightarrow> int \<Rightarrow> (SpawnGuard \<Rightarrow> SpawnGuard \<times> bool) \<Rightarrow> SpawnGuard \<Rightarrow>
   spawn_error + (SpawnGuard \<times> bool) option" where
  "reservation job_id depth estimated_tokens body g =
     (case acquire job_id depth estimated_tokens g of
        Inl e \<Rightarrow> Inl e
      | Inr None \<Rightarrow> Inr None
      | Inr (Some g1) \<Rightarrow> (let (g2, raised) = body g1 in Inr (Some (release job_id 0 g2, raised))))"

section \<open>Accounting\<close>

definition reserved_sum :: "SpawnReservation pydict \<Rightarrow> int" where
  "reserved_sum act = (\<Sum>(k, r) \<leftarrow> act. res_estimated_tokens r)"

definition slots_held :: "SpawnReservation pydict \<Rightarrow> nat" where
  "slots_held act = length (filter (\<lambda>(k, r). res_acquired r) act)"

definition slot_limit :: "SpawnGuard \<Rightarrow> nat" where
  "slot_limit g = nat (max (sg_max_parallel g) 1)"

text \<open>Every token reserved and every slot taken belongs to one active reservation.\<close>

definition guard_inv :: "SpawnGuard \<Rightarrow> bool" where
  "guard_inv g =
     (distinct (map fst (sg_active g))
      \<and> sg_tokens_reserved g = reserved_sum (sg_active g)
      \<and> sg_semaphore g + slots_held (sg_active g) = slot_limit g
      \<and> (\<forall>(k, r) \<in> set (sg_active g). 0 \<le> res_estimated_tokens r)
      \<and> sg_tokens_reserved g \<le> max 0 (sg_max_tokens g))"

text \<open>
  How the bus uses a guard: a fresh job id and a non-negative estimate at the pre-check, one
  slot per reservation, and a release at any time.
\<close>

inductive guard_step :: "SpawnGuard \<Rightarrow> SpawnGuard \<Rightarrow> bool" where
  pre_check: "map_of (sg_active g) job_id = None \<Longrightarrow> 0 \<le> est \<Longrightarrow>
     pre_check job_id depth est g = Inr g' \<Longrightarrow> guard_step g g'"
| acquire: "map_of (sg_active g) job_id = Some r \<Longrightarrow> \<not> res_acquired r \<Longrightarrow>
     acquire_slot job_id g = Some g' \<Longrightarrow> guard_step g g'"
| release: "guard_step g (release job_id actual g)"

section \<open>Lemmas\<close>

lemma reserved_sum_simps [simp]:
  "reserved_sum [] = 0"
  "reserved_sum ((k, r) # act) = res_estimated_tokens r + reserved_sum act"
  "reserved_sum (act @ act') = reserved_sum act + reserved_sum act'"
  by (simp_all add: reserved_sum_def)

lemma slots_held_simps [simp]:
  "slots_held [] = 0"
  "slots_held ((k, r) # act) = (if res_acquired r then 1 else 0) + slots_held act"
  "slots_held (act @ act') = slots_held act + slots_held act'"
  by (simp_all add: slots_held_def)

lemma delete_sums:
  assumes "distinct (map fst act)" and "map_of act k = Some r"
  shows "reserved_sum act = res_estimated_tokens r + reserved_sum (AList.delete k act)"
    and "slots_held act = (if res_acquired r then 1 else 0) + slots_held (AList.delete k act)"
  using assms
proof (induction act)
  case (Cons kv act)
  {
    case 1
    with Cons show ?case
      by (cases kv) (auto split: if_splits simp: delete_notin map_of_eq_None_iff)
  next
    case 2
    with Cons show ?case
      by (cases kv) (auto split: if_splits simp: delete_notin map_of_eq_None_iff)
  }
qed simp_all

lemma update_sums:
  assumes "distinct (map fst act)" and "map_of act k = Some r"
    and "res_estimated_tokens r' = res_estimated_tokens r"
    and "\<not> res_acquired r" and "res_acquired r'"
  shows "reserved_sum (AList.update k r' act) = reserved_sum act"
    and "slots_held (AList.update k r' act) = Suc (slots_held act)"
  using assms
proof (induction act)
  case (Cons kv act)
  {
    case 1
    with Cons show ?case by (cases kv) (auto split: if_splits)
  next
    case 2
    with Cons show ?case by (cases kv) (auto split: if_splits)
  }
qed simp_all

lemma reserved_sum_nonneg:
  "\<forall>(k, r) \<in> set act. 0 \<le> res_estimated_tokens r \<Longrightarrow> 0 \<le> reserved_sum act"
  by (induction act) auto

lemma update_set_subset: "set (AList.update k v d) \<subseteq> insert (k, v) (set d)"
  by (induction d) auto

lemma delete_set_subset: "set (AList.delete k d) \<subseteq> set d"
  by (simp add: AList.delete_eq)

lemma guard_inv_init: "guard_inv (init_SpawnGuard b t)"
  by (simp add: guard_inv_def init_SpawnGuard_def slot_limit_def Let_def)

lemma guard_inv_pre_check:
  assumes "guard_inv g" and "map_of (sg_active g) job_id = None" and "0 \<le> est"
    and "pre_check job_id depth est g = Inr g'"
  shows "guard_inv g'"
proof -
  have new: "job_id \<notin> fst ` set (sg_active g)" using assms(2) by (simp add: map_of_eq_None_iff)
  have "0 \<le> reserved_sum (sg_active g)"
    using assms(1) by (auto simp: guard_inv_def intro: reserved_sum_nonneg)
  with assms new show ?thesis
    by (auto simp: guard_inv_def pre_check_def Let_def slot_limit_def update_new_append
        split: if_splits)
qed

lemma guard_inv_acquire_slot:
  assumes "guard_inv g" and "map_of (sg_active g) job_id = Some r" and "\<not> res_acquired r"
    and "acquire_slot job_id g = Some g'"
  shows "guard_inv g'"
proof -
  let ?r' = "r\<lparr>res_acquired := True\<rparr>" and ?act = "sg_active g"
  have d: "distinct (map fst ?act)" using assms(1) by (simp add: guard_inv_def)
  note sums = update_sums [OF d assms(2), of ?r']
  have "0 \<le> res_estimated_tokens r"
    using assms(1) map_of_SomeD [OF assms(2)] by (auto simp: guard_inv_def)
  moreover have "g' = g\<lparr>sg_semaphore := sg_semaphore g - 1, sg_active := AList.update job_id ?r' ?act\<rparr>"
    and "sg_semaphore g \<noteq> 0"
    using assms(2,4) by (auto simp: acquire_slot_def Let_def split: if_splits)
  ultimately show ?thesis
    using assms(1,3) sums update_set_subset [of job_id ?r' ?act]
    by (auto simp: guard_inv_def slot_limit_def distinct_keys_update)
qed

lemma guard_inv_release:
  assumes "guard_inv g"
  shows "guard_inv (release job_id actual g)"
proof (cases "map_of (sg_active g) job_id")
  case None
  then show ?thesis using assms by (simp add: release_def)
next
  case (Some r)
  have d: "distinct (map fst (sg_active g))" using assms by (simp add: guard_inv_def)
  have "0 \<le> res_estimated_tokens r"
    using assms map_of_SomeD [OF Some] by (auto simp: guard_inv_def)
  with delete_sums [OF d Some] assms Some delete_set_subset [of job_id "sg_active g"] show ?thesis
    by (auto simp: guard_inv_def release_def slot_limit_def Let_def distinct_keys_delete)
qed

lemma guard_step_inv: "guard_step g g' \<Longrightarrow> guard_inv g \<Longrightarrow> guard_inv g'"
  by (induction rule: guard_step.induct)
     (auto intro: guard_inv_pre_check guard_inv_acquire_slot guard_inv_release)

lemma guard_step_limits:
  "guard_step g g' \<Longrightarrow> sg_max_parallel g' = sg_max_parallel g \<and> sg_max_tokens g' = sg_max_tokens g"
  by (induction rule: guard_step.induct)
     (auto simp: pre_check_def acquire_slot_def release_def Let_def split: if_splits option.splits)

interpretation guardsys: invariant_system
  "\<lambda>g. \<exists>b t. g = init_SpawnGuard b t" guard_step guard_inv
  by unfold_locales (auto intro: guard_inv_init guard_step_inv)

section \<open>Properties\<close>

text \<open>
  In every state the bus can bring a guard to, the running sub-agents never exceed
  \<open>max(max_parallel, 1)\<close>, the reserved tokens never exceed the token budget, and when no
  reservation is active every slot is free and no token is reserved.
\<close>

theorem spawn_limits:
  assumes "rtranclp guard_step (init_SpawnGuard b t) g"
  shows "slots_held (sg_active g) \<le> slot_limit g
    \<and> sg_tokens_reserved g \<le> max 0 (sg_max_tokens g)
    \<and> (sg_active g = [] \<longrightarrow> sg_semaphore g = slot_limit g \<and> sg_tokens_reserved g = 0)"
proof -
  from assms have "guard_inv g" using guardsys.reachable_inv by blast
  then show ?thesis by (auto simp: guard_inv_def)
qed

theorem spawn_limits_witness:
  "\<exists>g. rtranclp guard_step (init_SpawnGuard (Some (default_TaskBudget\<lparr>tb_max_depth := 2\<rparr>)) None) g
     \<and> sg_active g \<noteq> [] \<and> sg_tokens_reserved g \<le> max 0 (sg_max_tokens g)"
proof -
  let ?g0 = "init_SpawnGuard (Some (default_TaskBudget\<lparr>tb_max_depth := 2\<rparr>)) None"
  obtain g where g: "pre_check ''j'' 1 7 ?g0 = Inr g"
    by (simp add: pre_check_def init_SpawnGuard_def default_TaskBudget_def Let_def)
  have "guard_step ?g0 g"
    by (rule guard_step.pre_check [OF _ _ g]) (simp_all add: init_SpawnGuard_def Let_def)
  then have s: "rtranclp guard_step ?g0 g" by blast
  have "sg_active g \<noteq> []"
    using g by (auto simp: pre_check_def init_SpawnGuard_def default_TaskBudget_def Let_def)
  with s spawn_limits [OF s] show ?thesis by blast
qed

text \<open>
  The reservation of one job is returned in full.  Admission, slot and release of a fresh
  job leave the guard as it was, apart from the spawn count and the actual usage, and a second
  release changes nothing.
\<close>

theorem reservation_roundtrip:
  assumes "map_of (sg_active g) job_id = None"
    and "acquire job_id depth est g = Inr (Some g')"
  shows "release job_id actual g' =
      g\<lparr>sg_total_spawns := sg_total_spawns g + 1, sg_tokens_actual := sg_tokens_actual g + actual\<rparr>
    \<and> release job_id actual2 (release job_id actual g') = release job_id actual g'"
proof -
  have new: "job_id \<notin> fst ` set (sg_active g)" using assms(1) by (simp add: map_of_eq_None_iff)
  have lk: "map_of (sg_active g @ [(job_id, r)]) job_id = Some r" for r
    using assms(1) by (simp add: map_add_def)
  from assms(2) show ?thesis
    using assms(1) lk update_new_append [OF new] update_snoc [OF new] delete_snoc [OF new]
    by (auto simp: acquire_def pre_check_def acquire_slot_def release_def Let_def split: if_splits)
qed

theorem reservation_roundtrip_witness:
  "release ''j'' 3 (release ''j'' 9 (the (projr (acquire ''j'' 1 7
       (init_SpawnGuard (Some (default_TaskBudget\<lparr>tb_max_depth := 2\<rparr>)) None))))) =
   release ''j'' 9 (the (projr (acquire ''j'' 1 7
       (init_SpawnGuard (Some (default_TaskBudget\<lparr>tb_max_depth := 2\<rparr>)) None))))"
proof -
  let ?g0 = "init_SpawnGuard (Some (default_TaskBudget\<lparr>tb_max_depth := 2\<rparr>)) None"
  have fresh: "map_of (sg_active ?g0) ''j'' = None" by (simp add: init_SpawnGuard_def Let_def)
  obtain g' where g': "acquire ''j'' 1 7 ?g0 = Inr (Some g')"
    by (simp add: acquire_def pre_check_def acquire_slot_def init_SpawnGuard_def
        default_TaskBudget_def Let_def)
  show ?thesis unfolding g' sum.sel option.sel
    using reservation_roundtrip [OF fresh g', of 9 3] by (rule conjunct2)
qed

end
