(* ===== verification/Bus_Models.thy ===== *)
theory Bus_Models
  imports Trimmer Spawn
begin

text \<open>
  The data of the agent bus (\<^verbatim>\<open>components/agent_bus/models.py\<close>) and the helpers of
  \<^verbatim>\<open>components/agent_bus/runtime.py\<close> that act on it: the closure of an aborted task's boundary,
  the default result adapters, the transport form of a result, and the naming of jobs.

  Left out of the records: timestamps and durations, the live activity trail, the LLM, tool and
  turn-limit settings that are only handed to the agent loop.  The loop itself is an input: what
  a run returned or raised is an argument of the operation that finishes it.
\<close>

record SubTask =
  st_question :: string
  st_role_id :: string
  st_system_prompt :: "string option"
  st_metadata :: "pyval pydict"

record SubAgentResult =
  ar_question :: string
  ar_role_id :: string
  ar_final_content :: string
  ar_success :: bool
  ar_error :: "string option"
  ar_error_class :: "string option"
  ar_job_id :: string
  ar_metadata :: "pyval pydict"

datatype py_exception =
    CancelledError
  | TimeoutError
  | OtherException (exc_text: string) (exc_class: string)

datatype job_status = Queued | Submitted | Running | Completed | Failed | Aborted

abbreviation terminal :: "job_status \<Rightarrow> bool" where
  "terminal st \<equiv> st \<in> {Completed, Failed, Aborted}"

text \<open>
  The asyncio task of a job: waiting for its concurrency slot, inside the run, finished,
  cancelled before it ran, or ended by an exception before it recorded a result.  The closure of a session task keeps the session, the number of
  messages the run was seeded with, and the metadata of the task.
\<close>

datatype run_closure =
    PlainRun
  | SessionRun (sr_session: string) (sr_prefix_count: nat) (sr_metadata: "pyval pydict")

datatype async_task =
    TaskWaiting run_closure
  | TaskRunning run_closure
  | TaskDone
  | TaskCancelled
  | TaskRaised py_exception

record JobEntry =
  je_job_id :: string
  je_parent_task_id :: string
  je_item :: SubTask
  je_task :: "async_task option"
  je_status :: job_status
  je_result :: "SubAgentResult option"

record PendingSessionTask =
  pt_job_id :: string
  pt_task_prompt :: string
  pt_estimated_tokens :: int
  pt_spawn_context :: "pyval pydict option"
  pt_task_metadata :: "pyval pydict"

record CollectResult =
  cr_completed :: "SubAgentResult list"
  cr_pending :: "string list"
  cr_failed :: "SubAgentResult list"

datatype trimmer = NullTrimmer | TaskBoundaryTrimmer

fun trim_with :: "trimmer \<Rightarrow> message list \<Rightarrow> TaskBoundary list option \<Rightarrow> message list" where
  "trim_with NullTrimmer = null_trim"
| "trim_with TaskBoundaryTrimmer = boundary_trim"

record SubAgentSession =
  ss_session_id :: string
  ss_task_id :: string
  ss_name :: string
  ss_role_id :: string
  ss_system_prompt :: string
  ss_trimmer :: trimmer
  ss_messages :: "message list"
  ss_task_boundaries :: "TaskBoundary list"
  ss_total_task_count :: nat
  ss_current_job_id :: "string option"
  ss_last_report :: string
  ss_pending_results :: "SubAgentResult list"
  ss_pending_tasks :: "PendingSessionTask list"
  ss_publisher_no_tool_failures :: nat

text \<open>What the agent loop hands back, and how a run ended.\<close>

record LoopResult =
  lr_messages :: "message list"
  lr_final_content :: string
  lr_stopped_by :: string
  lr_metadata :: "pyval pydict"

datatype adapter_outcome =
    DefaultAdapter
  | AdapterReturned SubAgentResult
  | AdapterRaised py_exception

datatype run_outcome =
    RunReturned LoopResult adapter_outcome
  | RunRaised py_exception "LoopResult option"

section \<open>Runtime helpers\<close>

text \<open>\<open>safe_metadata\<close>, \<open>safe_final_content\<close>\<close>

definition safe_metadata :: "LoopResult option \<Rightarrow> pyval pydict" where
  "safe_metadata raw = (case raw of None \<Rightarrow> [] | Some r \<Rightarrow> lr_metadata r)"

definition safe_final_content :: "LoopResult option \<Rightarrow> string" where
  "safe_final_content raw = (case raw of None \<Rightarrow> [] | Some r \<Rightarrow> lr_final_content r)"

definition adapt_default_result ::
  "LoopResult \<Rightarrow> string \<Rightarrow> string \<Rightarrow> string \<Rightarrow> SubAgentResult" where
  "adapt_default_result raw job_id question role_id =
     \<lparr>ar_question = question, ar_role_id = role_id, ar_final_content = lr_final_content raw,
      ar_success = True, ar_error = None, ar_error_class = None, ar_job_id = job_id,
      ar_metadata = lr_metadata raw\<rparr>"

text \<open>The result built by the three exception handlers of a run.\<close>

definition exception_result ::
  "py_exception \<Rightarrow> LoopResult option \<Rightarrow> string \<Rightarrow> string \<Rightarrow> string \<Rightarrow> SubAgentResult" where
  "exception_result exc raw job_id question role_id =
     \<lparr>ar_question = question, ar_role_id = role_id, ar_final_content = safe_final_content raw,
      ar_success = False,
      ar_error = Some (case exc of CancelledError \<Rightarrow> ''aborted'' | TimeoutError \<Rightarrow> ''timeout''
                       | OtherException t c \<Rightarrow> t),
      ar_error_class = Some (case exc of CancelledError \<Rightarrow> ''CancelledError''
                             | TimeoutError \<Rightarrow> ''TimeoutError'' | OtherException t c \<Rightarrow> c),
      ar_job_id = job_id, ar_metadata = safe_metadata raw\<rparr>"

definition abort_stub :: message where
  "abort_stub = assistant_msg (PyStr ''[task aborted before producing a final answer]'') None []"

definition close_session_boundary_aborted :: "SubAgentSession \<Rightarrow> SubAgentSession" where
  "close_session_boundary_aborted s =
     (if ss_task_boundaries s = [] then s
      else
        let (start, endb) = last (ss_task_boundaries s) in
        if endb \<noteq> None then s
        else
          let msgs = (if find_final_assistant (ss_messages s) (nat start + 1)
                           (int (length (ss_messages s)) - 1) = None
                      then ss_messages s @ [abort_stub] else ss_messages s);
              tail = max start (int (length msgs) - 1)
          in s\<lparr>ss_messages := msgs,
               ss_task_boundaries := butlast (ss_task_boundaries s) @ [(start, Some tail)]\<rparr>)"

text \<open>The transport form of a result and back.\<close>

definition opt_str :: "string option \<Rightarrow> pyval" where
  "opt_str x = (case x of None \<Rightarrow> PyNone | Some s \<Rightarrow> PyStr s)"

definition result_to_message_content :: "SubAgentResult \<Rightarrow> pyval pydict" where
  "result_to_message_content r =
     [(''question'', PyStr (ar_question r)), (''role_id'', PyStr (ar_role_id r)),
      (''final_content'', PyStr (ar_final_content r)), (''success'', PyBool (ar_success r)),
      (''error'', opt_str (ar_error r)), (''error_class'', opt_str (ar_error_class r)),
      (''job_id'', PyStr (ar_job_id r)), (''metadata'', PyDict (ar_metadata r))]"

text \<open>\<open>str(content.get(k) or "")\<close>, \<open>content.get(k) or None\<close>, \<open>dict(content.get(k) or {})\<close>\<close>

definition str_field :: "(pyval \<Rightarrow> string) \<Rightarrow> pyval pydict \<Rightarrow> string \<Rightarrow> string" where
  "str_field str_of d k = (let v = get_or_none d k in if truthy v then py_format str_of v else [])"

definition opt_field :: "(pyval \<Rightarrow> string) \<Rightarrow> pyval pydict \<Rightarrow> string \<Rightarrow> string option" where
  "opt_field str_of d k = (let v = get_or_none d k in if truthy v then Some (py_format str_of v) else None)"

definition dict_field :: "pyval pydict \<Rightarrow> string \<Rightarrow> pyval pydict" where
  "dict_field d k = (case get_or_none d k of PyDict m \<Rightarrow> m | _ \<Rightarrow> [])"

definition message_content_to_result :: "(pyval \<Rightarrow> string) \<Rightarrow> pyval pydict \<Rightarrow> SubAgentResult" where
  "message_content_to_result str_of content =
     \<lparr>ar_question = str_field str_of content ''question'',
      ar_role_id = str_field str_of content ''role_id'',
      ar_final_content = str_field str_of content ''final_content'',
      ar_success = truthy (get_or_none content ''success''),
      ar_error = opt_field str_of content ''error'',
      ar_error_class = opt_field str_of content ''error_class'',
      ar_job_id = str_field str_of content ''job_id'',
      ar_metadata = dict_field content ''metadata''\<rparr>"

section \<open>Job names\<close>

definition job_infix :: string where "job_infix = ''.job.''"

definition make_job_id :: "string \<Rightarrow> nat \<Rightarrow> string" where
  "make_job_id parent_task_id n = parent_task_id @ job_infix @ str_of_nat n"

function strip_job_suffix :: "string \<Rightarrow> string" where
  "strip_job_suffix task_id =
     (case before_last job_infix task_id of None \<Rightarrow> task_id | Some p \<Rightarrow> strip_job_suffix p)"
  by pat_completeness auto
termination
  by (relation "measure length") (auto intro: before_last_length simp: job_infix_def)

declare strip_job_suffix.simps [simp del]

section \<open>Lemmas on names\<close>

lemma rev_digits_split:
  assumes "\<forall>c \<in> set d. is_digit c" and "\<not> is_digit x"
  shows "takeWhile is_digit (rev (p @ [x] @ d)) = rev d"
  using assms by (simp add: takeWhile_append)

lemma make_job_id_counter: "make_job_id p m = make_job_id q n \<Longrightarrow> m = n"
proof -
  assume eq: "make_job_id p m = make_job_id q n"
  have dot: "\<not> is_digit (CHR ''.'')" by (simp add: is_digit_def)
  have "takeWhile is_digit (rev (make_job_id r k)) = rev (str_of_nat k)" for r k
    using rev_digits_split [OF str_of_nat_digits [of k] dot, of "r @ ''.job''"]
    by (simp add: make_job_id_def job_infix_def)
  with eq have "rev (str_of_nat m) = rev (str_of_nat n)" by metis
  then show "m = n" by (simp add: str_of_nat_inj)
qed

lemma digits_no_dot: "CHR ''.'' \<notin> set (str_of_nat n)"
  using str_of_nat_digits [of n] by (auto simp: is_digit_def)

lemma before_last_job:
  "before_last job_infix (p @ job_infix @ str_of_nat n) = Some p"
proof (rule before_last_at)
  have in_set: "CHR ''.'' \<in> set d" if "sublist ''.job.'' d \<or> prefix ''job.'' d" for d :: string
    using that by (auto simp: prefix_def dest: set_mono_sublist)
  have "\<not> sublist ''.job.'' (str_of_nat n)" and "\<not> prefix ''job.'' (str_of_nat n)"
    using in_set [of "str_of_nat n"] digits_no_dot [of n] by auto
  then have "\<not> sublist job_infix (drop 1 (job_infix @ str_of_nat n))"
    by (simp add: job_infix_def sublist_Cons_right)
  moreover have "job_infix \<noteq> []" by (simp add: job_infix_def)
  ultimately show "before_last job_infix (drop 1 (job_infix @ str_of_nat n)) = None"
    using before_last_None_iff by blast
qed (simp add: job_infix_def)

lemma strip_job_suffix_job [simp]: "strip_job_suffix (make_job_id p n) = strip_job_suffix p"
  by (subst strip_job_suffix.simps) (simp add: make_job_id_def before_last_job)

lemma strip_job_suffix_root: "\<not> sublist job_infix t \<Longrightarrow> strip_job_suffix t = t"
  by (subst strip_job_suffix.simps)
     (simp add: before_last_None_iff [THEN iffD2] job_infix_def)

section \<open>Properties\<close>

text \<open>
  The root task of any nested job is recovered.  However deep sub-agents spawn each other,
  stripping the job suffixes of a job's name gives back the root task's id.
\<close>

theorem strip_recovers_root:
  assumes "\<not> sublist job_infix root_id"
  shows "strip_job_suffix (fold (\<lambda>n t. make_job_id t n) counters root_id) = root_id"
proof -
  have "strip_job_suffix (fold (\<lambda>n t. make_job_id t n) counters t) = strip_job_suffix t" for t
    by (induction counters arbitrary: t) simp_all
  then show ?thesis using strip_job_suffix_root [OF assms] by simp
qed

theorem strip_recovers_root_witness:
  "strip_job_suffix (fold (\<lambda>n t. make_job_id t n) [2, 13] ''root-1'') = ''root-1''"
  by (rule strip_recovers_root) (simp add: job_infix_def sublist_Cons_right)

text \<open>
  C24: a result survives its transport as a message, up to one normalisation: an error or error
  class that is the empty string comes back as absent.
\<close>

theorem result_transport_roundtrip:
  "message_content_to_result str_of (result_to_message_content r) =
     r\<lparr>ar_error := (if ar_error r = Some [] then None else ar_error r),
       ar_error_class := (if ar_error_class r = Some [] then None else ar_error_class r)\<rparr>"
  by (cases r) (auto simp: message_content_to_result_def result_to_message_content_def
      str_field_def opt_field_def dict_field_def get_or_none_def opt_str_def py_format_def Let_def
      split: option.splits)

end
