(* ===== verification/Bus.thy ===== *)
theory Bus
  imports Bus_Models
begin

text \<open>
  The operations of \<open>AgentBus\<close> (\<^verbatim>\<open>components/agent_bus/bus.py\<close>) on an explicit bus state.

  The bus is single-threaded: a coroutine runs without interruption from one suspension point to
  the next.  Each definition is such a stretch of code; where a method suspends in the middle
  (the finalisation of a session task does so twice) it is split at that point, and
  \<open>finish_job\<close> is the composition, which is what runs when the awaited calls do not suspend.
  Telemetry is not modelled.  What a cancelled or finished run delivered is an argument.
\<close>

record AgentBus =
  ab_jobs :: "JobEntry pydict"
  ab_counter :: nat
  ab_spawn_guard :: "SpawnGuard option"
  ab_sessions :: "SubAgentSession pydict"
  ab_task_aggregates :: "pyval list pydict pydict"
  ab_delivered_jobs :: "string list pydict"

datatype bus_error =
    DepthLimitExceeded int int
  | GuardError spawn_error
  | SessionNotFound string
  | SessionClash string string
  | UnknownRole string

definition empty_bus :: "SpawnGuard option \<Rightarrow> AgentBus" where
  "empty_bus g = \<lparr>ab_jobs = [], ab_counter = 0, ab_spawn_guard = g, ab_sessions = [],
                  ab_task_aggregates = [], ab_delivered_jobs = []\<rparr>"

section \<open>Access to jobs, sessions and the guard\<close>

definition put_job :: "JobEntry \<Rightarrow> AgentBus \<Rightarrow> AgentBus" where
  "put_job e b = b\<lparr>ab_jobs := AList.update (je_job_id e) e (ab_jobs b)\<rparr>"

text \<open>Writing to a session object that was dropped from the table is not visible in the bus.\<close>

definition put_session :: "string \<Rightarrow> SubAgentSession \<Rightarrow> AgentBus \<Rightarrow> AgentBus" where
  "put_session sid s b =
     (if map_of (ab_sessions b) sid = None then b
      else b\<lparr>ab_sessions := AList.update sid s (ab_sessions b)\<rparr>)"

definition guard_release :: "string \<Rightarrow> AgentBus \<Rightarrow> AgentBus" where
  "guard_release job_id b =
     b\<lparr>ab_spawn_guard := map_option (release job_id 0) (ab_spawn_guard b)\<rparr>"

definition next_job_id :: "string \<Rightarrow> AgentBus \<Rightarrow> string \<times> AgentBus" where
  "next_job_id parent_task_id b =
     (let b' = b\<lparr>ab_counter := ab_counter b + 1\<rparr> in (make_job_id parent_task_id (ab_counter b'), b'))"

definition get_job_status :: "string \<Rightarrow> AgentBus \<Rightarrow> job_status option" where
  "get_job_status job_id b = map_option je_status (map_of (ab_jobs b) job_id)"

section \<open>Submitting a one-shot job\<close>

text \<open>
  \<open>get_prompt\<close> is the registry's \<open>get_prompt_for\<close>; \<open>None\<close> where it raises for an unknown role.
  The job id is taken before the prompt is resolved, and the guard reserves after it.
\<close>

definition submit ::
  "(string \<Rightarrow> string option) \<Rightarrow> string \<Rightarrow> SubTask \<Rightarrow> int \<Rightarrow> int \<Rightarrow> int \<Rightarrow> AgentBus \<Rightarrow>
   AgentBus \<times> (bus_error + string)" where
  "submit get_prompt parent_task_id item current_depth max_depth estimated_tokens b =
     (let effective_max_depth =
            (case ab_spawn_guard b of
               None \<Rightarrow> max_depth
             | Some g \<Rightarrow> if sg_max_depth g < max_depth then sg_max_depth g else max_depth)
      in if effective_max_depth \<le> current_depth
         then (b, Inl (DepthLimitExceeded current_depth effective_max_depth))
         else
           let (job_id, b1) = next_job_id parent_task_id b;
               prompt_ok = (case st_system_prompt item of
                              Some (c # cs) \<Rightarrow> True
                            | _ \<Rightarrow> get_prompt (st_role_id item) \<noteq> None)
           in if \<not> prompt_ok then (b1, Inl (UnknownRole (st_role_id item)))
              else
                let entry = \<lparr>je_job_id = job_id, je_parent_task_id = parent_task_id, je_item = item,
                             je_task = Some (TaskWaiting PlainRun), je_status = Submitted,
                             je_result = None\<rparr>
                in case ab_spawn_guard b1 of
                     None \<Rightarrow> (put_job entry b1, Inr job_id)
                   | Some g \<Rightarrow>
                       (case pre_check job_id (current_depth + 1) estimated_tokens g of
                          Inl e \<Rightarrow> (b1, Inl (GuardError e))
                        | Inr g' \<Rightarrow> (put_job entry (b1\<lparr>ab_spawn_guard := Some g'\<rparr>), Inr job_id)))"

section \<open>Sessions\<close>

definition make_session_id :: "string \<Rightarrow> string \<Rightarrow> string" where
  "make_session_id task_id name = task_id @ ''::'' @ name"

text \<open>\<open>get_prompt\<close> is the optional registry lookup used when no prompt is given.\<close>

definition create_session ::
  "(string \<Rightarrow> string) option \<Rightarrow> string \<Rightarrow> string \<Rightarrow> string \<Rightarrow> string option \<Rightarrow> trimmer option \<Rightarrow>
   AgentBus \<Rightarrow> AgentBus \<times> (bus_error + string)" where
  "create_session get_prompt task_id name role_id system_prompt tr b =
     (let prompt = (case system_prompt of
                      Some p \<Rightarrow> p
                    | None \<Rightarrow> (case get_prompt of None \<Rightarrow> [] | Some f \<Rightarrow> f role_id));
          session_id = make_session_id task_id name
      in case map_of (ab_sessions b) session_id of
           Some s \<Rightarrow>
             if ss_role_id s \<noteq> role_id \<or> ss_system_prompt s \<noteq> prompt
             then (b, Inl (SessionClash task_id name)) else (b, Inr session_id)
         | None \<Rightarrow>
             (b\<lparr>ab_sessions := AList.update session_id
                 \<lparr>ss_session_id = session_id, ss_task_id = task_id, ss_name = name,
                  ss_role_id = role_id, ss_system_prompt = prompt,
                  ss_trimmer = (case tr of None \<Rightarrow> NullTrimmer | Some t \<Rightarrow> t),
                  ss_messages = [], ss_task_boundaries = [], ss_total_task_count = 0,
                  ss_current_job_id = None, ss_last_report = [], ss_pending_results = [],
                  ss_pending_tasks = [], ss_publisher_no_tool_failures = 0\<rparr>
                 (ab_sessions b)\<rparr>, Inr session_id))"

text \<open>
  The history side of a dispatch: the seed is trimmed from the clean history, then the new
  boundary opens at the current tail.  The number is the \<open>prefix_count\<close> of the run.
\<close>

definition open_task :: "string \<Rightarrow> SubAgentSession \<Rightarrow> SubAgentSession \<times> nat" where
  "open_task task_prompt s =
     (let trimmed = trim_with (ss_trimmer s) (ss_messages s) (Some (ss_task_boundaries s));
          initial_messages = system_msg (ss_system_prompt s) # trimmed;
          boundary_start = int (length (ss_messages s))
      in (s\<lparr>ss_total_task_count := ss_total_task_count s + 1,
            ss_messages := ss_messages s @ [user_msg task_prompt],
            ss_task_boundaries := ss_task_boundaries s @ [(boundary_start, None)]\<rparr>,
          length initial_messages + (if task_prompt \<noteq> [] then 1 else 0)))"

definition session_item :: "SubAgentSession \<Rightarrow> PendingSessionTask \<Rightarrow> SubTask" where
  "session_item s p =
     \<lparr>st_question = pt_task_prompt p, st_role_id = ss_role_id s,
      st_system_prompt = Some (ss_system_prompt s), st_metadata = pt_task_metadata p\<rparr>"

definition dispatch_session_task :: "string \<Rightarrow> PendingSessionTask \<Rightarrow> AgentBus \<Rightarrow> AgentBus" where
  "dispatch_session_task sid p b =
     (case map_of (ab_sessions b) sid of
        None \<Rightarrow> b
      | Some s \<Rightarrow>
          let (s1, prefix_count) = open_task (pt_task_prompt p) s;
              s2 = s1\<lparr>ss_current_job_id := Some (pt_job_id p)\<rparr>;
              task = Some (TaskWaiting (SessionRun sid prefix_count (pt_task_metadata p)));
              entry = (case map_of (ab_jobs b) (pt_job_id p) of
                         Some e \<Rightarrow> e\<lparr>je_status := Submitted, je_task := task\<rparr>
                       | None \<Rightarrow> \<lparr>je_job_id = pt_job_id p, je_parent_task_id = ss_task_id s,
                                  je_item = session_item s p, je_task = task,
                                  je_status = Submitted, je_result = None\<rparr>)
          in put_session sid s2 (put_job entry b))"

definition session_busy :: "SubAgentSession \<Rightarrow> AgentBus \<Rightarrow> bool" where
  "session_busy s b =
     (case ss_current_job_id s of
        None \<Rightarrow> False
      | Some j \<Rightarrow> (case map_of (ab_jobs b) j of
                     None \<Rightarrow> False | Some e \<Rightarrow> je_status e \<in> {Submitted, Running}))"

definition queue_or_dispatch :: "string \<Rightarrow> PendingSessionTask \<Rightarrow> AgentBus \<Rightarrow> AgentBus" where
  "queue_or_dispatch sid p b =
     (case map_of (ab_sessions b) sid of
        None \<Rightarrow> b
      | Some s \<Rightarrow>
          if session_busy s b then
            put_session sid (s\<lparr>ss_pending_tasks := ss_pending_tasks s @ [p]\<rparr>)
              (put_job \<lparr>je_job_id = pt_job_id p, je_parent_task_id = ss_task_id s,
                        je_item = session_item s p, je_task = None, je_status = Queued,
                        je_result = None\<rparr> b)
          else dispatch_session_task sid p b)"

definition submit_task_to_session ::
  "string \<Rightarrow> string \<Rightarrow> int \<Rightarrow> pyval pydict option \<Rightarrow> pyval pydict \<Rightarrow> AgentBus \<Rightarrow>
   AgentBus \<times> (bus_error + string)" where
  "submit_task_to_session session_id task_prompt estimated_tokens spawn_context task_metadata b =
     (case map_of (ab_sessions b) session_id of
        None \<Rightarrow> (b, Inl (SessionNotFound session_id))
      | Some s \<Rightarrow>
          let (job_id, b1) = next_job_id (ss_task_id s) b;
              p = \<lparr>pt_job_id = job_id, pt_task_prompt = task_prompt,
                   pt_estimated_tokens = estimated_tokens, pt_spawn_context = spawn_context,
                   pt_task_metadata = task_metadata\<rparr>
          in case ab_spawn_guard b1 of
               None \<Rightarrow> (queue_or_dispatch session_id p b1, Inr job_id)
             | Some g \<Rightarrow>
                 (case pre_check job_id 1 estimated_tokens g of
                    Inl e \<Rightarrow> (b1, Inl (GuardError e))
                  | Inr g' \<Rightarrow> (queue_or_dispatch session_id p (b1\<lparr>ab_spawn_guard := Some g'\<rparr>),
                               Inr job_id)))"

section \<open>The life of a run\<close>

text \<open>A waiting task gets its slot; \<open>None\<close> while the guard makes it wait.\<close>

definition start_job :: "string \<Rightarrow> AgentBus \<Rightarrow> AgentBus option" where
  "start_job job_id b =
     (case map_of (ab_jobs b) job_id of
        None \<Rightarrow> None
      | Some e \<Rightarrow>
          (case je_task e of
             Some (TaskWaiting c) \<Rightarrow>
               let run = put_job (e\<lparr>je_status := Running, je_task := Some (TaskRunning c)\<rparr>) in
               (case ab_spawn_guard b of
                  None \<Rightarrow> Some (run b)
                | Some g \<Rightarrow> map_option (\<lambda>g'. run (b\<lparr>ab_spawn_guard := Some g'\<rparr>))
                              (acquire_slot job_id g))
           | _ \<Rightarrow> None))"

definition end_stub :: "string \<Rightarrow> string \<Rightarrow> message" where
  "end_stub final_text stopped_by =
     assistant_msg (PyStr
       (if final_text \<noteq> [] then final_text
        else ''[task ended without a clean final answer (stopped_by=''
             @ (if stopped_by \<noteq> [] then stopped_by else ''unknown'') @ '')]'')) None []"

text \<open>The absorption of a finished run's turns and the closure of its boundary.\<close>

definition absorb_run :: "nat \<Rightarrow> LoopResult \<Rightarrow> SubAgentSession \<Rightarrow> SubAgentSession" where
  "absorb_run prefix_count raw s =
     (let msgs = ss_messages s @ drop prefix_count (lr_messages raw);
          final_text = str_strip (lr_final_content raw);
          start = fst (last (ss_task_boundaries s));
          msgs' = (if find_final_assistant msgs (nat start + 1) (int (length msgs) - 1) = None
                   then msgs @ [end_stub final_text (lr_stopped_by raw)] else msgs)
      in s\<lparr>ss_messages := msgs',
           ss_task_boundaries := butlast (ss_task_boundaries s) @ [(start, Some (int (length msgs') - 1))],
           ss_last_report := (if final_text \<noteq> [] then final_text else ss_last_report s)\<rparr>)"

definition index_error :: py_exception where
  "index_error = OtherException ''list index out of range'' ''IndexError''"

definition run_session_task ::
  "string \<Rightarrow> nat \<Rightarrow> string \<Rightarrow> run_outcome \<Rightarrow> SubAgentSession \<Rightarrow> SubAgentSession \<times> SubAgentResult" where
  "run_session_task job_id prefix_count task_prompt outcome s =
     (case outcome of
        RunRaised exc raw \<Rightarrow>
          (close_session_boundary_aborted s,
           exception_result exc raw job_id task_prompt (ss_role_id s))
      | RunReturned raw adapter \<Rightarrow>
          if ss_task_boundaries s = []
          then (s\<lparr>ss_messages := ss_messages s @ drop prefix_count (lr_messages raw)\<rparr>,
                exception_result index_error (Some raw) job_id task_prompt (ss_role_id s))
          else
            let s1 = absorb_run prefix_count raw s in
            (case adapter of
               DefaultAdapter \<Rightarrow> (s1, adapt_default_result raw job_id task_prompt (ss_role_id s))
             | AdapterReturned r \<Rightarrow> (s1, r)
             | AdapterRaised exc \<Rightarrow>
                 (close_session_boundary_aborted s1,
                  exception_result exc (Some raw) job_id task_prompt (ss_role_id s))))"

definition run_plain_job :: "JobEntry \<Rightarrow> run_outcome \<Rightarrow> SubAgentResult" where
  "run_plain_job e outcome =
     (let q = st_question (je_item e); role = st_role_id (je_item e) in
      case outcome of
        RunRaised exc raw \<Rightarrow> exception_result exc raw (je_job_id e) q role
      | RunReturned raw DefaultAdapter \<Rightarrow> adapt_default_result raw (je_job_id e) q role
      | RunReturned raw (AdapterReturned r) \<Rightarrow> r
      | RunReturned raw (AdapterRaised exc) \<Rightarrow> exception_result exc (Some raw) (je_job_id e) q role)"

definition status_of_result :: "SubAgentResult \<Rightarrow> job_status" where
  "status_of_result r =
     (if ar_error r = Some ''aborted'' then Aborted else if ar_success r then Completed else Failed)"

text \<open>
  The credit of a publishing session and the queueing of its result.  The count in the result's
  metadata is read with \<open>int()\<close>; where that raises, the result is not queued.
\<close>

definition publish_result ::
  "pyval pydict \<Rightarrow> SubAgentResult \<Rightarrow> SubAgentSession \<Rightarrow> SubAgentSession" where
  "publish_result task_metadata r s =
     (let queue = (\<lambda>s. s\<lparr>ss_pending_results := ss_pending_results s @ [r]\<rparr>);
          count = (let v = get_or_none (ar_metadata r) ''tool_calls_count''
                   in if truthy v then py_int v else Some 0)
      in if map_of task_metadata ''can_publish'' = Some (PyBool True) then
           (case count of
              None \<Rightarrow> s
            | Some n \<Rightarrow>
                if get_or_none (ar_metadata r) ''stopped_by'' = PyStr ''no_tool''
                then queue (s\<lparr>ss_publisher_no_tool_failures := ss_publisher_no_tool_failures s + 1\<rparr>)
                else if 0 < n then queue (s\<lparr>ss_publisher_no_tool_failures := 0\<rparr>)
                else queue s)
         else queue s)"

text \<open>
  First stretch of the finalisation, up to the announcement of the completed task.  A session
  that was dropped from the table meanwhile is written to out of sight of the bus; the result
  of the job does not depend on it.
\<close>

definition finish_record :: "string \<Rightarrow> run_outcome \<Rightarrow> AgentBus \<Rightarrow> AgentBus" where
  "finish_record job_id outcome b =
     (case map_of (ab_jobs b) job_id of
        None \<Rightarrow> b
      | Some e \<Rightarrow>
          (case je_task e of
             Some (TaskRunning PlainRun) \<Rightarrow>
               let r = run_plain_job e outcome in
               put_job (e\<lparr>je_result := Some r, je_status := status_of_result r\<rparr>) b
           | Some (TaskRunning (SessionRun sid prefix_count md)) \<Rightarrow>
               (case map_of (ab_sessions b) sid of
                  None \<Rightarrow>
                    let r = run_plain_job e outcome in
                    put_job (e\<lparr>je_result := Some r, je_status := status_of_result r\<rparr>) b
                | Some s \<Rightarrow>
                    let (s1, r) = run_session_task job_id prefix_count (st_question (je_item e)) outcome s
                    in put_session sid (publish_result md r s1)
                         (put_job (e\<lparr>je_result := Some r, je_status := status_of_result r\<rparr>) b))
           | _ \<Rightarrow> b))"

text \<open>The start of the \<open>finally\<close> block: the slot is returned and the session is free.\<close>

definition clear_current :: "string \<Rightarrow> string \<Rightarrow> AgentBus \<Rightarrow> AgentBus" where
  "clear_current sid job_id b =
     (case map_of (ab_sessions b) sid of
        None \<Rightarrow> b
      | Some s \<Rightarrow> if ss_current_job_id s = Some job_id
                  then put_session sid (s\<lparr>ss_current_job_id := None\<rparr>) b else b)"

definition finish_release :: "string \<Rightarrow> string \<Rightarrow> AgentBus \<Rightarrow> AgentBus" where
  "finish_release sid job_id b = clear_current sid job_id (guard_release job_id b)"

text \<open>
  The eager trim computes the compressed history, suspends while the dropped messages are
  written to disk when a history directory is set, and then stores what it had computed.
\<close>

definition eager_trim_store ::
  "message list \<times> TaskBoundary list \<Rightarrow> SubAgentSession \<Rightarrow> SubAgentSession" where
  "eager_trim_store new s = s\<lparr>ss_messages := fst new, ss_task_boundaries := snd new\<rparr>"

definition eager_trim :: "SubAgentSession \<Rightarrow> SubAgentSession" where
  "eager_trim s =
     eager_trim_store (trim_and_remap_boundaries (ss_messages s) (ss_task_boundaries s)) s"

definition finish_trim :: "string \<Rightarrow> AgentBus \<Rightarrow> AgentBus" where
  "finish_trim sid b =
     (case map_of (ab_sessions b) sid of None \<Rightarrow> b | Some s \<Rightarrow> put_session sid (eager_trim s) b)"

definition set_pending_tasks :: "string \<Rightarrow> PendingSessionTask list \<Rightarrow> AgentBus \<Rightarrow> AgentBus" where
  "set_pending_tasks sid ps b =
     (case map_of (ab_sessions b) sid of
        None \<Rightarrow> b | Some s \<Rightarrow> put_session sid (s\<lparr>ss_pending_tasks := ps\<rparr>) b)"

text \<open>\<open>_drain_session_queue\<close>: pop until a task that was not aborted while parked, and dispatch it.\<close>

fun drain_loop :: "string \<Rightarrow> PendingSessionTask list \<Rightarrow> AgentBus \<Rightarrow> AgentBus" where
  "drain_loop sid [] b = b"
| "drain_loop sid (p # ps) b =
     (let b1 = set_pending_tasks sid ps b in
      if get_job_status (pt_job_id p) b1 = Some Aborted then drain_loop sid ps b1
      else dispatch_session_task sid p b1)"

definition drain_session_queue :: "string \<Rightarrow> AgentBus \<Rightarrow> AgentBus" where
  "drain_session_queue sid b =
     (case map_of (ab_sessions b) sid of
        None \<Rightarrow> b | Some s \<Rightarrow> drain_loop sid (ss_pending_tasks s) b)"

definition set_task :: "string \<Rightarrow> async_task \<Rightarrow> AgentBus \<Rightarrow> AgentBus" where
  "set_task job_id t b =
     (case map_of (ab_jobs b) job_id of
        None \<Rightarrow> b | Some e \<Rightarrow> put_job (e\<lparr>je_task := Some t\<rparr>) b)"

definition finish_job :: "string \<Rightarrow> run_outcome \<Rightarrow> AgentBus \<Rightarrow> AgentBus" where
  "finish_job job_id outcome b =
     (case map_option je_task (map_of (ab_jobs b) job_id) of
        Some (Some (TaskRunning PlainRun)) \<Rightarrow>
          set_task job_id TaskDone (guard_release job_id (finish_record job_id outcome b))
      | Some (Some (TaskRunning (SessionRun sid prefix_count md))) \<Rightarrow>
          drain_session_queue sid
            (finish_trim sid
              (finish_release sid job_id
                (set_task job_id TaskDone (finish_record job_id outcome b))))
      | _ \<Rightarrow> b)"

section \<open>Aborting\<close>

text \<open>The first session whose queue holds the job loses it, and the reservation is returned.\<close>

fun purge_sessions ::
  "string \<Rightarrow> SubAgentSession pydict \<Rightarrow> SubAgentSession pydict \<times> bool" where
  "purge_sessions job_id [] = ([], False)"
| "purge_sessions job_id ((sid, s) # ss) =
     (if \<exists>p \<in> set (ss_pending_tasks s). pt_job_id p = job_id
      then ((sid, s\<lparr>ss_pending_tasks := filter (\<lambda>p. pt_job_id p \<noteq> job_id) (ss_pending_tasks s)\<rparr>) # ss,
            True)
      else (let (ss', removed) = purge_sessions job_id ss in ((sid, s) # ss', removed)))"

definition purge_queued_job :: "string \<Rightarrow> AgentBus \<Rightarrow> AgentBus" where
  "purge_queued_job job_id b =
     (let (ss, removed) = purge_sessions job_id (ab_sessions b);
          b1 = b\<lparr>ab_sessions := ss\<rparr>
      in if removed then guard_release job_id b1 else b1)"

definition mark_job_aborted :: "string \<Rightarrow> AgentBus \<Rightarrow> AgentBus" where
  "mark_job_aborted job_id b =
     (let b1 = guard_release job_id b in
      case map_of (ab_jobs b1) job_id of
        None \<Rightarrow> b1
      | Some e \<Rightarrow>
          if terminal (je_status e) then b1
          else put_job
            (e\<lparr>je_status := Aborted,
               je_result := (case je_result e of
                               Some r \<Rightarrow> Some r
                             | None \<Rightarrow> Some (exception_result CancelledError None job_id
                                               (st_question (je_item e)) (st_role_id (je_item e))))\<rparr>) b1)"

text \<open>
  \<open>entry.task.cancel(); await entry.task\<close>: a task that waits for its slot dies there, outside
  the \<open>try\<close>; a running one finishes with some outcome.
\<close>

definition cancel_and_await :: "string \<Rightarrow> run_outcome \<Rightarrow> AgentBus \<Rightarrow> AgentBus" where
  "cancel_and_await job_id outcome b =
     (case map_option je_task (map_of (ab_jobs b) job_id) of
        Some (Some (TaskWaiting c)) \<Rightarrow> set_task job_id TaskCancelled b
      | Some (Some (TaskRunning c)) \<Rightarrow> finish_job job_id outcome b
      | _ \<Rightarrow> b)"

definition abort :: "string \<Rightarrow> run_outcome \<Rightarrow> AgentBus \<Rightarrow> AgentBus \<times> job_status option" where
  "abort job_id outcome b =
     (case map_of (ab_jobs b) job_id of
        None \<Rightarrow> (b, None)
      | Some e \<Rightarrow>
          if terminal (je_status e) then (b, Some (je_status e))
          else
            let b' =
              (if je_status e = Queued \<or> je_task e = None
               then mark_job_aborted job_id (purge_queued_job job_id b)
               else
                 let b1 = cancel_and_await job_id outcome b in
                 case map_of (ab_jobs b1) job_id of
                   None \<Rightarrow> b1
                 | Some e1 \<Rightarrow>
                     if (case je_result e1 of None \<Rightarrow> False | Some r \<Rightarrow> ar_success r)
                     then put_job (e1\<lparr>je_status := Completed\<rparr>) b1
                     else if je_status e1 \<notin> {Completed, Failed} then mark_job_aborted job_id b1
                     else b1)
            in (b', get_job_status job_id b'))"

text \<open>
  \<open>cancel_for_parent\<close>: the queued jobs first, then the running ones; the count is the number
  of jobs this call cancelled.
\<close>

definition live_jobs_of :: "string \<Rightarrow> AgentBus \<Rightarrow> string list" where
  "live_jobs_of parent_task_id b =
     map fst (filter (\<lambda>(j, e). je_parent_task_id e = parent_task_id \<and> \<not> terminal (je_status e))
       (ab_jobs b))"

definition cancel_queued_of :: "string \<Rightarrow> AgentBus \<times> nat \<Rightarrow> AgentBus \<times> nat" where
  "cancel_queued_of job_id = (\<lambda>(b, n).
     case map_of (ab_jobs b) job_id of
       None \<Rightarrow> (b, n)
     | Some e \<Rightarrow> if je_status e = Queued \<or> je_task e = None
                 then (mark_job_aborted job_id (purge_queued_job job_id b), n + 1) else (b, n))"

definition cancel_running_of ::
  "(string \<Rightarrow> run_outcome) \<Rightarrow> string \<Rightarrow> AgentBus \<times> nat \<Rightarrow> AgentBus \<times> nat" where
  "cancel_running_of outcomes job_id = (\<lambda>(b, n).
     case map_of (ab_jobs b) job_id of
       None \<Rightarrow> (b, n)
     | Some e \<Rightarrow>
         if terminal (je_status e) \<or> je_task e = None then (b, n)
         else
           let b1 = cancel_and_await job_id (outcomes job_id) b
           in (if get_job_status job_id b1 \<in> {Some Completed, Some Failed, Some Aborted} then b1
               else mark_job_aborted job_id b1, n + 1))"

definition cancel_for_parent ::
  "string \<Rightarrow> (string \<Rightarrow> run_outcome) \<Rightarrow> AgentBus \<Rightarrow> AgentBus \<times> nat" where
  "cancel_for_parent parent_task_id outcomes b =
     (let mine = live_jobs_of parent_task_id b
      in fold (cancel_running_of outcomes) mine (fold cancel_queued_of mine (b, 0)))"

section \<open>Collecting\<close>

text \<open>
  \<open>collect\<close>: finished jobs are sorted at once, the others are waited for.  After the wait, at bus
  state \<open>b'\<close>, the jobs of \<open>finished\<close> and \<open>unfinished\<close> are those whose task is done and pending,
  in the order in which the two sets are iterated.
\<close>

fun collect_ready :: "AgentBus \<Rightarrow> string list \<Rightarrow> CollectResult \<times> string list" where
  "collect_ready b [] = (\<lparr>cr_completed = [], cr_pending = [], cr_failed = []\<rparr>, [])"
| "collect_ready b (jid # jids) =
     (let (res, waiting) = collect_ready b jids in
      case map_of (ab_jobs b) jid of
        None \<Rightarrow> (res, waiting)
      | Some e \<Rightarrow>
          (case je_result e of
             Some r \<Rightarrow>
               if je_status e = Failed \<or> \<not> ar_success r
               then (res\<lparr>cr_failed := r # cr_failed res\<rparr>, waiting)
               else (res\<lparr>cr_completed := r # cr_completed res\<rparr>, waiting)
           | None \<Rightarrow>
               if je_status e = Queued \<or> je_task e = None
               then (res\<lparr>cr_pending := jid # cr_pending res\<rparr>, waiting)
               else (res, jid # waiting)))"

definition collect ::
  "AgentBus \<Rightarrow> AgentBus \<Rightarrow> string list \<Rightarrow> string list \<Rightarrow> string list \<Rightarrow> CollectResult" where
  "collect b b' job_ids finished unfinished =
     (let (res, waiting) = collect_ready b job_ids;
          results = List.map_filter (\<lambda>j. Option.bind (map_of (ab_jobs b') j) je_result) finished
      in res\<lparr>cr_completed := cr_completed res @ filter ar_success results,
             cr_failed := cr_failed res @ filter (\<lambda>r. \<not> ar_success r) results,
             cr_pending := cr_pending res @ unfinished\<rparr>)"

definition pop_ready_session :: "string \<Rightarrow> SubAgentSession pydict \<Rightarrow> (string \<times> SubAgentSession) option" where
  "pop_ready_session task_id ss =
     List.find (\<lambda>(sid, s). ss_task_id s = task_id \<and> ss_pending_results s \<noteq> []) ss"

definition mark_delivered :: "string \<Rightarrow> string \<Rightarrow> AgentBus \<Rightarrow> AgentBus" where
  "mark_delivered task_id job_id b =
     (if job_id = [] then b
      else b\<lparr>ab_delivered_jobs :=
               AList.update task_id (List.insert job_id (dict_get_default (ab_delivered_jobs b) task_id []))
                 (ab_delivered_jobs b)\<rparr>)"

definition pop_ready_result ::
  "string \<Rightarrow> AgentBus \<Rightarrow> AgentBus \<times> (string \<times> SubAgentResult) option" where
  "pop_ready_result task_id b =
     (case pop_ready_session task_id (ab_sessions b) of
        None \<Rightarrow> (b, None)
      | Some (sid, s) \<Rightarrow>
          (case ss_pending_results s of
             [] \<Rightarrow> (b, None)
           | r # rs \<Rightarrow>
               (mark_delivered task_id (ar_job_id r) (put_session sid (s\<lparr>ss_pending_results := rs\<rparr>) b),
                Some (ss_session_id s, r))))"

section \<open>Reconciling tasks that ended without publishing\<close>

definition task_done :: "async_task option \<Rightarrow> bool" where
  "task_done t = (case t of Some TaskDone \<Rightarrow> True | Some TaskCancelled \<Rightarrow> True
                  | Some (TaskRaised e) \<Rightarrow> True | _ \<Rightarrow> False)"

fun lost_result :: "async_task option \<Rightarrow> string \<times> string" where
  "lost_result (Some TaskCancelled) =
     (''sub-agent task was cancelled before publishing a report'', ''CancelledError'')"
| "lost_result (Some (TaskRaised e)) =
     (case e of
        CancelledError \<Rightarrow> (''CancelledError'', ''CancelledError'')
      | TimeoutError \<Rightarrow> (''TimeoutError'', ''TimeoutError'')
      | OtherException t c \<Rightarrow> (if t \<noteq> [] then t else c, c))"
| "lost_result _ = (''sub-agent task ended without a report'', ''MissingSubAgentResult'')"

definition reconciled_status :: "SubAgentResult \<Rightarrow> job_status" where
  "reconciled_status r =
     (if ar_success r then Completed
      else if ar_error_class r = Some ''CancelledError'' then Aborted else Failed)"

text \<open>One round of the loop; the flag says that the session's queue is drained afterwards.\<close>

definition reconcile_session :: "string \<Rightarrow> AgentBus \<Rightarrow> AgentBus \<times> bool" where
  "reconcile_session sid b =
     (case map_of (ab_sessions b) sid of
        None \<Rightarrow> (b, False)
      | Some s \<Rightarrow>
          (case ss_current_job_id s of
             None \<Rightarrow> (b, False)
           | Some job_id \<Rightarrow>
               (case map_of (ab_jobs b) job_id of
                  None \<Rightarrow> (b, False)
                | Some e \<Rightarrow>
                    if \<not> task_done (je_task e) then (b, False)
                    else
                      let (err, cls) = lost_result (je_task e);
                          r = (case je_result e of
                                 Some r \<Rightarrow> r
                               | None \<Rightarrow>
                                   \<lparr>ar_question = st_question (je_item e),
                                    ar_role_id = st_role_id (je_item e), ar_final_content = [],
                                    ar_success = False, ar_error = Some err,
                                    ar_error_class = Some cls, ar_job_id = job_id,
                                    ar_metadata = []\<rparr>);
                          s1 = (if je_result e = None then close_session_boundary_aborted s else s);
                          s2 = (if \<exists>q \<in> set (ss_pending_results s1). ar_job_id q = job_id then s1
                                else s1\<lparr>ss_pending_results := ss_pending_results s1 @ [r]\<rparr>);
                          s3 = s2\<lparr>ss_current_job_id := None\<rparr>
                      in (guard_release job_id (put_session sid s3
                            (put_job (e\<lparr>je_result := Some r, je_status := reconciled_status r\<rparr>) b)),
                          True))))"

definition reconcile_terminal_session_jobs :: "string \<Rightarrow> AgentBus \<Rightarrow> AgentBus" where
  "reconcile_terminal_session_jobs task_id b =
     (let sids = map fst (filter (\<lambda>(sid, s). ss_task_id s = task_id) (ab_sessions b));
          (b1, drains) = fold (\<lambda>sid (b, ds). let (b', d) = reconcile_session sid b
                                             in (b', if d then ds @ [sid] else ds)) sids (b, [])
      in fold drain_session_queue drains b1)"

section \<open>The metadata pool and the end of a task\<close>

definition accumulate_task_metadata ::
  "string \<Rightarrow> pyval list pydict \<Rightarrow> AgentBus \<Rightarrow> AgentBus" where
  "accumulate_task_metadata task_id payload b =
     (let merged = filter (\<lambda>(k, v). v \<noteq> []) payload in
      if merged = [] then b
      else
        let bucket = dict_get_default (ab_task_aggregates b) task_id [];
            bucket' = fold (\<lambda>(k, items) d. AList.update k (dict_get_default d k [] @ items) d)
                        merged bucket
        in b\<lparr>ab_task_aggregates := AList.update task_id bucket' (ab_task_aggregates b)\<rparr>)"

definition drain_task_metadata :: "string \<Rightarrow> AgentBus \<Rightarrow> AgentBus \<times> pyval list pydict" where
  "drain_task_metadata task_id b =
     (b\<lparr>ab_task_aggregates := AList.delete task_id (ab_task_aggregates b)\<rparr>,
      dict_get_default (ab_task_aggregates b) task_id [])"

end
