(* ===== verification/Session_Inv.thy ===== *)
theory Session_Inv
  imports Bus
begin

text \<open>
  The history of one session: every operation of the bus on a session's messages and boundaries
  keeps the boundary invariant that \<open>SubAgentSession\<close> documents, and moves it between "a task
  is open" and "every task is closed".
\<close>

named_theorems history_intros \<open>operations that keep the boundary invariant\<close>

definition all_closed :: "TaskBoundary list \<Rightarrow> bool" where
  "all_closed bs = (\<forall>b \<in> set bs. snd b \<noteq> None)"

definition history_closed :: "SubAgentSession \<Rightarrow> bool" where
  "history_closed s = (tiles (ss_messages s) 0 (ss_task_boundaries s) \<and> all_closed (ss_task_boundaries s))"

definition history_open :: "SubAgentSession \<Rightarrow> bool" where
  "history_open s =
     (tiles (ss_messages s) 0 (ss_task_boundaries s) \<and> ss_task_boundaries s \<noteq> []
      \<and> snd (last (ss_task_boundaries s)) = None)"

section \<open>Tilings as a closed part and a tail\<close>

fun closed_upto :: "message list \<Rightarrow> int \<Rightarrow> TaskBoundary list \<Rightarrow> int \<Rightarrow> bool" where
  "closed_upto ms lo [] hi = (lo = hi)"
| "closed_upto ms lo ((s, None) # bs) hi = False"
| "closed_upto ms lo ((s, Some e) # bs) hi =
     (s = lo \<and> closed_ok ms s e \<and> closed_upto ms (e + 1) bs hi)"

lemma tiles_closed_iff:
  "all_closed bs \<Longrightarrow> tiles ms lo bs \<longleftrightarrow> closed_upto ms lo bs (int (length ms))"
  by (induction ms lo bs rule: tiles.induct) (auto simp: all_closed_def)

lemma closed_upto_all_closed: "closed_upto ms lo bs hi \<Longrightarrow> all_closed bs"
  by (induction ms lo bs hi rule: closed_upto.induct) (auto simp: all_closed_def)

lemma tiles_open_iff:
  "tiles ms lo (bs @ [(s, None)]) \<longleftrightarrow> closed_upto ms lo bs s \<and> 0 \<le> s \<and> s < int (length ms)"
proof (induction ms lo bs rule: tiles.induct)
  case (2 ms lo s' bs)
  then show ?case by simp
qed auto

lemma closed_upto_snoc:
  "closed_upto ms lo (bs @ [(s, Some e)]) hi \<longleftrightarrow>
     closed_upto ms lo bs s \<and> closed_ok ms s e \<and> hi = e + 1"
  by (induction ms lo bs s rule: closed_upto.induct) auto

lemma find_final_assistant_append:
  assumes "e < int (length ms)"
  shows "find_final_assistant (ms @ xs) start e = find_final_assistant ms start e"
proof -
  have "scan_back (ms @ xs) start n = scan_back ms start n" if "n \<le> length ms" for n
    using that by (induction n) (auto simp: nth_append)
  moreover have "nat (min e (int (length ms) - 1) + 1) \<le> length ms"
    and "min e (int (length (ms @ xs)) - 1) = min e (int (length ms) - 1)"
    using assms by auto
  ultimately show ?thesis by (simp add: find_final_assistant_def)
qed

lemma closed_ok_append: "closed_ok ms s e \<Longrightarrow> closed_ok (ms @ xs) s e"
  by (auto simp: closed_ok_def find_final_assistant_append)

lemma closed_upto_append: "closed_upto ms lo bs hi \<Longrightarrow> closed_upto (ms @ xs) lo bs hi"
  by (induction ms lo bs hi rule: closed_upto.induct) (auto simp: closed_ok_append)

section \<open>The operations on a session's history\<close>

lemma open_task_history [history_intros]:
  assumes "history_closed s" and "open_task p s = (s', n)"
  shows "history_open s'"
proof -
  from assms(1) have "closed_upto (ss_messages s) 0 (ss_task_boundaries s) (int (length (ss_messages s)))"
    unfolding history_closed_def using tiles_closed_iff by blast
  from closed_upto_append [OF this, of "[user_msg p]"] assms(2) show ?thesis
    by (auto simp: history_open_def open_task_def Let_def tiles_open_iff)
qed

lemma history_open_split:
  assumes "history_open s"
  obtains bs start where "ss_task_boundaries s = bs @ [(start, None)]"
    and "closed_upto (ss_messages s) 0 bs start" and "0 \<le> start"
    and "start < int (length (ss_messages s))"
proof -
  from assms have ne: "ss_task_boundaries s \<noteq> []"
    and op: "snd (last (ss_task_boundaries s)) = None"
    and t: "tiles (ss_messages s) 0 (ss_task_boundaries s)"
    by (simp_all add: history_open_def)
  let ?bs = "butlast (ss_task_boundaries s)" and ?st = "fst (last (ss_task_boundaries s))"
  have eq: "ss_task_boundaries s = ?bs @ [(?st, None)]"
    using ne op by (metis append_butlast_last_id prod.collapse)
  with t have "tiles (ss_messages s) 0 (?bs @ [(?st, None)])" by simp
  from iffD1 [OF tiles_open_iff this] that [OF eq] show ?thesis by blast
qed

lemma clean_stub:
  "clean_final abort_stub" "clean_final (end_stub t st)"
  by (simp_all add: clean_final_def abort_stub_def end_stub_def get_or_none_def)

text \<open>Closing the open boundary at the tail, after a stub if the task left no clean message.\<close>

lemma close_at_tail:
  assumes "closed_upto ms 0 bs start" and "0 \<le> start" and "start < int (length ms)"
    and "clean_final stub"
    and "ms' = (if find_final_assistant ms (nat start + 1) (int (length ms) - 1) = None
                then ms @ [stub] else ms)"
  shows "tiles ms' 0 (bs @ [(start, Some (int (length ms') - 1))])
    \<and> all_closed (bs @ [(start, Some (int (length ms') - 1))]) \<and> start \<le> int (length ms') - 1"
proof -
  have final: "find_final_assistant ms' (nat start + 1) (int (length ms') - 1) \<noteq> None"
  proof (cases "find_final_assistant ms (nat start + 1) (int (length ms) - 1) = None")
    case True
    then have ms': "ms' = ms @ [stub]" using assms(5) by simp
    then have "nat start + 1 < length ms'" using assms(2,3) by auto
    with find_final_assistant_last [of ms' "nat start + 1"] assms(4) show ?thesis
      by (simp add: ms')
  next
    case False
    then show ?thesis using assms(5) by auto
  qed
  then obtain j where "nat start + 1 \<le> j" and "j < length ms'"
    by (auto simp: find_final_assistant_None_iff)
  with final assms(2) have ok: "closed_ok ms' start (int (length ms') - 1)"
    by (auto simp: closed_ok_def)
  have upto: "closed_upto ms' 0 bs start" using assms(1,5) by (auto intro: closed_upto_append)
  let ?bs' = "bs @ [(start, Some (int (length ms') - 1))]"
  have "closed_upto ms' 0 ?bs' (int (length ms'))"
    using ok upto by (simp add: closed_upto_snoc)
  with closed_upto_all_closed [OF this] ok show ?thesis
    by (simp add: tiles_closed_iff closed_ok_def)
qed

lemma absorb_run_history [history_intros]:
  assumes "history_open s"
  shows "history_closed (absorb_run n raw s)"
proof -
  obtain bs start where b: "ss_task_boundaries s = bs @ [(start, None)]"
    and c: "closed_upto (ss_messages s) 0 bs start" "0 \<le> start" "start < int (length (ss_messages s))"
    using history_open_split [OF assms] .
  let ?ms = "ss_messages s @ drop n (lr_messages raw)"
  have "closed_upto ?ms 0 bs start" and "start < int (length ?ms)"
    using c closed_upto_append by auto
  from close_at_tail [OF this(1) c(2) this(2) clean_stub(2) refl] show ?thesis
    by (simp add: history_closed_def absorb_run_def b Let_def)
qed

lemma close_aborted_history [history_intros]:
  assumes "history_open s"
  shows "history_closed (close_session_boundary_aborted s)"
proof -
  obtain bs start where b: "ss_task_boundaries s = bs @ [(start, None)]"
    and c: "closed_upto (ss_messages s) 0 bs start" "0 \<le> start" "start < int (length (ss_messages s))"
    using history_open_split [OF assms] .
  from close_at_tail [OF c clean_stub(1) refl] show ?thesis
    by (simp add: history_closed_def close_session_boundary_aborted_def b Let_def max_def)
qed

lemma close_aborted_closed:
  assumes "history_closed s"
  shows "close_session_boundary_aborted s = s"
proof (cases "ss_task_boundaries s = []")
  case False
  with assms have "snd (last (ss_task_boundaries s)) \<noteq> None"
    by (auto simp: history_closed_def all_closed_def)
  then show ?thesis
    by (auto simp: close_session_boundary_aborted_def Let_def split: prod.splits)
qed (simp add: close_session_boundary_aborted_def)

lemma run_session_task_history [history_intros]:
  assumes "history_open s"
  shows "history_closed (fst (run_session_task j n p outcome s))"
proof -
  from assms have "ss_task_boundaries s \<noteq> []" by (simp add: history_open_def)
  with close_aborted_history [OF assms] absorb_run_history [OF assms] show ?thesis
    by (auto simp: run_session_task_def Let_def close_aborted_closed
        split: run_outcome.splits adapter_outcome.splits)
qed

lemma all_closed_packed: "all_closed bs \<Longrightarrow> all_closed (packed ms n bs)"
  by (induction ms n bs rule: packed.induct) (auto simp: all_closed_def)

lemma eager_trim_history [history_intros]:
  assumes "history_closed s"
  shows "history_closed (eager_trim s)"
proof -
  let ?ms = "ss_messages s" and ?bs = "ss_task_boundaries s"
  obtain ms' bs' where tr: "trim_and_remap_boundaries ?ms ?bs = (ms', bs')" by fastforce
  from assms have t: "tiles ?ms 0 ?bs" and c: "all_closed ?bs" by (simp_all add: history_closed_def)
  have "bs' = ?bs \<or> bs' = packed ?ms 0 ?bs"
    using tr remap_loop_tiles [OF t, of "[]" "[]"] trim_and_remap_changed [of ?ms ?bs]
    by (cases "trim_and_remap_boundaries ?ms ?bs = (?ms, ?bs)") auto
  with c have "all_closed bs'" by (auto intro: all_closed_packed)
  moreover have "tiles ms' 0 bs'" using trim_and_remap_tiles [OF t tr] by simp
  ultimately show ?thesis by (simp add: history_closed_def eager_trim_def eager_trim_store_def tr)
qed

lemma history_frame [simp]:
  "history_closed (s\<lparr>ss_current_job_id := x\<rparr>) = history_closed s"
  "history_open (s\<lparr>ss_current_job_id := x\<rparr>) = history_open s"
  "history_closed (s\<lparr>ss_pending_tasks := ps\<rparr>) = history_closed s"
  "history_open (s\<lparr>ss_pending_tasks := ps\<rparr>) = history_open s"
  "history_closed (s\<lparr>ss_pending_results := rs\<rparr>) = history_closed s"
  "history_open (s\<lparr>ss_pending_results := rs\<rparr>) = history_open s"
  "history_closed (s\<lparr>ss_publisher_no_tool_failures := k\<rparr>) = history_closed s"
  by (simp_all add: history_closed_def history_open_def)

lemma publish_result_fields [simp]:
  "ss_current_job_id (publish_result md r s) = ss_current_job_id s"
  "ss_pending_tasks (publish_result md r s) = ss_pending_tasks s"
  "history_closed (publish_result md r s) = history_closed s"
  by (auto simp: publish_result_def Let_def history_closed_def split: option.splits)

lemma run_session_task_fields [simp]:
  "ss_current_job_id (fst (run_session_task j n p oc s)) = ss_current_job_id s"
  "ss_pending_tasks (fst (run_session_task j n p oc s)) = ss_pending_tasks s"
  by (auto simp: run_session_task_def absorb_run_def close_session_boundary_aborted_def Let_def
      split: run_outcome.splits adapter_outcome.splits prod.splits)

lemma eager_trim_fields [simp]:
  "ss_current_job_id (eager_trim s) = ss_current_job_id s"
  "ss_pending_tasks (eager_trim s) = ss_pending_tasks s"
  by (simp_all add: eager_trim_def eager_trim_store_def)

lemma open_task_fields:
  assumes "open_task p s = (s', n)"
  shows "ss_current_job_id s' = ss_current_job_id s" and "ss_pending_tasks s' = ss_pending_tasks s"
  using assms by (auto simp: open_task_def Let_def)

end
