(* ===== verification/Bus_Inv.thy ===== *)
theory Bus_Inv
  imports Session_Inv
begin

text \<open>
  The invariant of the whole bus: how jobs, sessions, queues and the spawn guard fit together in
  every state between two atomic stretches.  It is stated on the lookup functions of the two
  tables, and every operation of \<open>Bus\<close> is one of a few changes of these functions.
\<close>

named_theorems change_intros \<open>changes of the tables that keep the bus invariant\<close>

section \<open>The invariant\<close>

definition job_wf :: "JobEntry \<Rightarrow> bool" where
  "job_wf e =
     (case je_status e of
        Queued \<Rightarrow> je_task e = None \<and> je_result e = None
      | Submitted \<Rightarrow> (\<exists>c. je_task e = Some (TaskWaiting c)) \<and> je_result e = None
      | Running \<Rightarrow> (\<exists>c. je_task e = Some (TaskRunning c)) \<and> je_result e = None
      | _ \<Rightarrow> je_result e \<noteq> None \<and> je_task e \<in> {None, Some TaskDone, Some TaskCancelled})"

text \<open>The session on whose behalf the job's task is alive.\<close>

definition serves :: "JobEntry \<Rightarrow> string \<Rightarrow> bool" where
  "serves e sid = (\<exists>n md. je_task e \<in> {Some (TaskWaiting (SessionRun sid n md)),
                                        Some (TaskRunning (SessionRun sid n md))})"

definition jobs_ok :: "nat \<Rightarrow> (string \<rightharpoonup> JobEntry) \<Rightarrow> bool" where
  "jobs_ok c J =
     (\<forall>j e. J j = Some e \<longrightarrow> je_job_id e = j \<and> job_wf e \<and> (\<exists>p k. j = make_job_id p k \<and> k \<le> c))"

definition links_ok :: "(string \<rightharpoonup> JobEntry) \<Rightarrow> (string \<rightharpoonup> SubAgentSession) \<Rightarrow> bool" where
  "links_ok J S =
     (\<forall>j e sid. J j = Some e \<and> serves e sid \<longrightarrow>
        (\<exists>s. S sid = Some s \<and> ss_current_job_id s = Some j))"

text \<open>
  A session runs its current job on an open history; without one its history is closed and
  nothing waits in its queue.  The exempt session is the one whose queue is about to be drained.
\<close>

definition session_ok :: "bool \<Rightarrow> (string \<rightharpoonup> JobEntry) \<Rightarrow> string \<Rightarrow> SubAgentSession \<Rightarrow> bool" where
  "session_ok exempt J sid s =
     (case ss_current_job_id s of
        None \<Rightarrow> history_closed s \<and> (exempt \<or> ss_pending_tasks s = [])
      | Some j \<Rightarrow> history_open s \<and> (\<exists>e. J j = Some e \<and> serves e sid))"

definition queued_ids :: "SubAgentSession \<Rightarrow> string list" where
  "queued_ids s = map pt_job_id (ss_pending_tasks s)"

definition queues_ok :: "(string \<rightharpoonup> JobEntry) \<Rightarrow> (string \<rightharpoonup> SubAgentSession) \<Rightarrow> bool" where
  "queues_ok J S =
     ((\<forall>sid s. S sid = Some s \<longrightarrow> distinct (queued_ids s)
         \<and> (\<forall>j \<in> set (queued_ids s). \<exists>e. J j = Some e \<and> je_status e = Queued))
      \<and> (\<forall>sid s sid' s' j. S sid = Some s \<and> S sid' = Some s' \<and> j \<in> set (queued_ids s)
            \<and> j \<in> set (queued_ids s') \<longrightarrow> sid = sid')
      \<and> (\<forall>j e. J j = Some e \<and> je_status e = Queued \<longrightarrow>
            (\<exists>sid s. S sid = Some s \<and> j \<in> set (queued_ids s))))"

text \<open>A live job holds a reservation, and a slot exactly while it runs; other ids hold none.\<close>

definition booked :: "JobEntry option \<Rightarrow> SpawnReservation option \<Rightarrow> bool" where
  "booked eo ro =
     (case ro of
        None \<Rightarrow> (case eo of None \<Rightarrow> True | Some e \<Rightarrow> terminal (je_status e))
      | Some r \<Rightarrow> (case eo of None \<Rightarrow> False
                   | Some e \<Rightarrow> \<not> terminal (je_status e) \<and> (res_acquired r \<longleftrightarrow> je_status e = Running)))"

definition guard_ok :: "(string \<rightharpoonup> JobEntry) \<Rightarrow> SpawnGuard option \<Rightarrow> bool" where
  "guard_ok J go =
     (case go of
        None \<Rightarrow> True
      | Some g \<Rightarrow> guard_inv g \<and> (\<forall>j. booked (J j) (map_of (sg_active g) j)))"

definition net_ok ::
  "string option \<Rightarrow> nat \<Rightarrow> (string \<rightharpoonup> JobEntry) \<Rightarrow> (string \<rightharpoonup> SubAgentSession) \<Rightarrow>
   SpawnGuard option \<Rightarrow> bool" where
  "net_ok ex c J S g =
     (jobs_ok c J \<and> links_ok J S \<and> (\<forall>sid s. S sid = Some s \<longrightarrow> session_ok (ex = Some sid) J sid s)
      \<and> queues_ok J S \<and> guard_ok J g)"

definition bus_ok :: "string option \<Rightarrow> AgentBus \<Rightarrow> bool" where
  "bus_ok ex b = net_ok ex (ab_counter b) (map_of (ab_jobs b)) (map_of (ab_sessions b)) (ab_spawn_guard b)"

abbreviation bus_inv :: "AgentBus \<Rightarrow> bool" where
  "bus_inv \<equiv> bus_ok None"

lemmas net_defs = net_ok_def jobs_ok_def links_ok_def queues_ok_def

section \<open>Consequences\<close>

lemma serves_status: "job_wf e \<Longrightarrow> serves e sid \<Longrightarrow> je_status e \<in> {Submitted, Running}"
  by (auto simp: job_wf_def serves_def split: job_status.splits)

lemma serves_unique: "serves e sid \<Longrightarrow> serves e sid' \<Longrightarrow> sid = sid'"
  by (auto simp: serves_def)

lemma serves_not_queued: "job_wf e \<Longrightarrow> serves e sid \<Longrightarrow> je_status e \<noteq> Queued \<and> \<not> terminal (je_status e)"
  using serves_status by fastforce

lemma serves_simps [simp]:
  "serves (e\<lparr>je_task := t\<rparr>) sid = serves (e\<lparr>je_task := t, je_status := st\<rparr>) sid"
  "serves (e\<lparr>je_status := st\<rparr>) sid = serves e sid"
  "serves (e\<lparr>je_result := r\<rparr>) sid = serves e sid"
  by (simp_all add: serves_def)

lemma job_id_fresh:
  assumes "jobs_ok c J" shows "J (make_job_id p (Suc c)) = None"
proof (rule ccontr)
  assume "J (make_job_id p (Suc c)) \<noteq> None"
  then obtain e where "J (make_job_id p (Suc c)) = Some e" by blast
  with assms obtain q k where "make_job_id p (Suc c) = make_job_id q k" and "k \<le> c"
    unfolding jobs_ok_def by blast
  with make_job_id_counter show False by fastforce
qed

lemma jobs_okD: "jobs_ok c J \<Longrightarrow> J j = Some e \<Longrightarrow> je_job_id e = j \<and> job_wf e"
  by (simp add: jobs_ok_def)

lemma jobs_ok_mono: "jobs_ok c J \<Longrightarrow> c \<le> c' \<Longrightarrow> jobs_ok c' J"
  unfolding jobs_ok_def by (meson le_trans)

lemma net_ok_counter: "net_ok ex c J S g \<Longrightarrow> c \<le> c' \<Longrightarrow> net_ok ex c' J S g"
  unfolding net_ok_def using jobs_ok_mono by blast

section \<open>Changes of the job table\<close>

lemma jobs_ok_upd:
  "jobs_ok c J \<Longrightarrow> job_wf e \<Longrightarrow> je_job_id e = make_job_id p k \<Longrightarrow> k \<le> c \<Longrightarrow> jobs_ok c (J(je_job_id e \<mapsto> e))"
  unfolding jobs_ok_def by auto

lemma jobs_ok_change:
  "jobs_ok c J \<Longrightarrow> J j = Some e \<Longrightarrow> je_job_id e' = j \<Longrightarrow> job_wf e' \<Longrightarrow> jobs_ok c (J(j \<mapsto> e'))"
  unfolding jobs_ok_def by auto

lemma guard_ok_booked: "guard_ok J (Some g) \<Longrightarrow> booked (J j) (map_of (sg_active g) j)"
  by (simp add: guard_ok_def)

lemma pre_check_active:
  "pre_check j d est g = Inr g' \<Longrightarrow>
     map_of (sg_active g') = (map_of (sg_active g))
       (j \<mapsto> \<lparr>res_job_id = j, res_depth = d, res_estimated_tokens = est, res_acquired = False\<rparr>)"
  by (auto simp: pre_check_def Let_def update_conv' split: if_splits)

lemma acquire_slot_active:
  "acquire_slot j g = Some g' \<Longrightarrow> map_of (sg_active g) j = Some r \<Longrightarrow>
     map_of (sg_active g') = (map_of (sg_active g))(j \<mapsto> r\<lparr>res_acquired := True\<rparr>)"
  by (auto simp: acquire_slot_def Let_def update_conv' split: if_splits)

lemma release_active:
  "map_of (sg_active (release j actual g)) = (map_of (sg_active g))(j := None)"
  by (auto simp: release_def Let_def split: option.splits)

lemma guard_ok_new:
  assumes "guard_ok J (Some g)" and "J j = None" and "0 \<le> est"
    and "pre_check j d est g = Inr g'" and "\<not> terminal (je_status e)" and "je_status e \<noteq> Running"
  shows "guard_ok (J(j \<mapsto> e)) (Some g')"
proof -
  have free: "map_of (sg_active g) j = None"
    using guard_ok_booked [OF assms(1), of j] assms(2) by (auto simp: booked_def split: option.splits)
  have "guard_inv g'" using guard_inv_pre_check [OF _ free assms(3,4)] assms(1)
    by (simp add: guard_ok_def)
  moreover have "booked (Some e) (Some \<lparr>res_job_id = j, res_depth = d, res_estimated_tokens = est,
      res_acquired = False\<rparr>)"
    using assms(5,6) by (simp add: booked_def)
  ultimately show ?thesis
    using assms(1) by (simp add: guard_ok_def pre_check_active [OF assms(4)])
qed

lemma guard_ok_same:
  assumes "guard_ok J g" and "J j = Some e" and "terminal (je_status e') = terminal (je_status e)"
    and "(je_status e' = Running) = (je_status e = Running)"
  shows "guard_ok (J(j \<mapsto> e')) g"
proof -
  have "booked (Some e') ro = booked (Some e) ro" for ro
    using assms(3,4) by (simp add: booked_def split: option.splits)
  with assms(1,2) show ?thesis
    by (simp add: guard_ok_def split: option.splits) (metis assms(2))
qed

lemma guard_ok_start:
  assumes "guard_ok J (Some g)" and "J j = Some e" and "je_status e = Submitted"
    and "acquire_slot j g = Some g'" and "je_status e' = Running"
  shows "guard_ok (J(j \<mapsto> e')) (Some g')"
proof -
  obtain r where r: "map_of (sg_active g) j = Some r" "\<not> res_acquired r"
    using guard_ok_booked [OF assms(1), of j] assms(2,3) by (auto simp: booked_def split: option.splits)
  have "guard_inv g'"
    using guard_inv_acquire_slot [OF _ r assms(4)] assms(1) by (simp add: guard_ok_def)
  moreover have "booked (Some e') (Some (r\<lparr>res_acquired := True\<rparr>))"
    using assms(5) by (simp add: booked_def)
  ultimately show ?thesis
    using assms(1) by (simp add: guard_ok_def acquire_slot_active [OF assms(4) r(1)])
qed

lemma guard_ok_release:
  assumes "guard_ok J g" and "terminal (je_status e')"
  shows "guard_ok (J(j \<mapsto> e')) (map_option (release j actual) g)"
proof -
  have "booked (Some e') None" using assms(2) by (simp add: booked_def)
  with assms(1) show ?thesis
    by (simp add: guard_ok_def release_active guard_inv_release split: option.splits)
qed

section \<open>Changes of both tables\<close>

lemma net_okD:
  assumes "net_ok ex c J S g"
  shows "jobs_ok c J" and "links_ok J S" and "queues_ok J S" and "guard_ok J g"
    and "S sid = Some s \<Longrightarrow> session_ok (ex = Some sid) J sid s"
  using assms by (simp_all add: net_ok_def)

lemma queuesD:
  assumes "queues_ok J S"
  shows "S sid = Some s \<Longrightarrow> distinct (queued_ids s)"
    and "S sid = Some s \<Longrightarrow> j \<in> set (queued_ids s) \<Longrightarrow> \<exists>e. J j = Some e \<and> je_status e = Queued"
    and "S sid = Some s \<Longrightarrow> S sid' = Some s' \<Longrightarrow> j \<in> set (queued_ids s) \<Longrightarrow>
          j \<in> set (queued_ids s') \<Longrightarrow> sid = sid'"
    and "J j = Some e \<Longrightarrow> je_status e = Queued \<Longrightarrow> \<exists>sid s. S sid = Some s \<and> j \<in> set (queued_ids s)"
  using assms unfolding queues_ok_def by blast+

lemma queuesI:
  assumes "\<And>sid s. S sid = Some s \<Longrightarrow> distinct (queued_ids s)"
    and "\<And>sid s j. S sid = Some s \<Longrightarrow> j \<in> set (queued_ids s) \<Longrightarrow> \<exists>e. J j = Some e \<and> je_status e = Queued"
    and "\<And>sid s sid' s' j. S sid = Some s \<Longrightarrow> S sid' = Some s' \<Longrightarrow> j \<in> set (queued_ids s) \<Longrightarrow>
          j \<in> set (queued_ids s') \<Longrightarrow> sid = sid'"
    and "\<And>j e. J j = Some e \<Longrightarrow> je_status e = Queued \<Longrightarrow> \<exists>sid s. S sid = Some s \<and> j \<in> set (queued_ids s)"
  shows "queues_ok J S"
  using assms unfolding queues_ok_def by blast

text \<open>A job changes in a way that neither its session nor its queue can see.\<close>

lemma net_job_change:
  assumes "net_ok ex c J S g" and "jobs_ok c (J(j \<mapsto> e'))" and "guard_ok (J(j \<mapsto> e')) g'"
    and sv: "\<And>sid. serves e' sid \<longleftrightarrow> (\<exists>e. J j = Some e \<and> serves e sid)"
    and qd: "je_status e' = Queued \<longleftrightarrow> (\<exists>e. J j = Some e \<and> je_status e = Queued)"
  shows "net_ok ex c (J(j \<mapsto> e')) S g'"
proof -
  note D = net_okD [OF assms(1)]
  have "links_ok (J(j \<mapsto> e')) S"
    using D(2) sv unfolding links_ok_def by (metis fun_upd_apply option.inject)
  moreover have "session_ok (ex = Some sid) (J(j \<mapsto> e')) sid s" if "S sid = Some s" for sid s
    using D(5) [OF that] sv by (auto simp: session_ok_def split: option.splits)
  moreover have "queues_ok (J(j \<mapsto> e')) S"
  proof (rule queuesI)
    show "\<exists>e. (J(j \<mapsto> e')) k = Some e \<and> je_status e = Queued"
      if "S sid = Some s" "k \<in> set (queued_ids s)" for sid s k
      using queuesD(2) [OF D(3) that] qd by auto
    show "\<exists>sid s. S sid = Some s \<and> k \<in> set (queued_ids s)"
      if "(J(j \<mapsto> e')) k = Some e" "je_status e = Queued" for k e
      using that queuesD(4) [OF D(3)] qd by (auto split: if_splits)
  qed (use queuesD [OF D(3)] in blast)+
  ultimately show ?thesis using assms(2,3) by (simp add: net_ok_def)
qed

text \<open>A session changes in a way that its jobs cannot see.\<close>

lemma queues_ok_same:
  assumes "queues_ok J S" and "S sid = Some s" and "queued_ids s' = queued_ids s"
  shows "queues_ok J (S(sid \<mapsto> s'))"
proof (rule queuesI)
  note Q = queuesD [OF assms(1)]
  show "distinct (queued_ids t)" if "(S(sid \<mapsto> s')) k = Some t" for k t
    using that Q(1) assms(2,3) by (auto split: if_splits)
  show "\<exists>e. J j = Some e \<and> je_status e = Queued"
    if "(S(sid \<mapsto> s')) k = Some t" "j \<in> set (queued_ids t)" for k t j
    using that Q(2) assms(2,3) by (auto split: if_splits)
  show "k = k'" if "(S(sid \<mapsto> s')) k = Some t" "(S(sid \<mapsto> s')) k' = Some t'"
    "j \<in> set (queued_ids t)" "j \<in> set (queued_ids t')" for k t k' t' j
    using that Q(3) assms(2,3) by (auto split: if_splits)
  show "\<exists>k t. (S(sid \<mapsto> s')) k = Some t \<and> j \<in> set (queued_ids t)"
    if "J j = Some e" "je_status e = Queued" for j e
    using Q(4) [OF that] assms(2,3) by (metis fun_upd_apply option.inject)
qed

lemma net_session_change:
  assumes "net_ok ex c J S g" and "S sid = Some s"
    and "ss_current_job_id s' = ss_current_job_id s" and "ss_pending_tasks s' = ss_pending_tasks s"
    and "history_open s \<Longrightarrow> history_open s'" and "history_closed s \<Longrightarrow> history_closed s'"
  shows "net_ok ex c J (S(sid \<mapsto> s')) g"
proof -
  note D = net_okD [OF assms(1)]
  have "links_ok J (S(sid \<mapsto> s'))"
    using D(2) assms(2,3) unfolding links_ok_def by (metis fun_upd_apply option.inject)
  moreover have "session_ok (ex = Some k) J k t" if "(S(sid \<mapsto> s')) k = Some t" for k t
    using that D(5) [of k] assms(2-6)
    by (auto simp: session_ok_def split: option.splits if_splits)
  moreover have "queues_ok J (S(sid \<mapsto> s'))"
    using queues_ok_same [OF D(3) assms(2)] assms(4) by (simp add: queued_ids_def)
  ultimately show ?thesis using D by (simp add: net_ok_def)
qed

text \<open>A new session starts idle.\<close>

lemma net_new_session:
  assumes "net_ok ex c J S g" and "S sid = None" and "ss_current_job_id s' = None"
    and "ss_pending_tasks s' = []" and "history_closed s'"
  shows "net_ok ex c J (S(sid \<mapsto> s')) g"
proof -
  note D = net_okD [OF assms(1)]
  have "links_ok J (S(sid \<mapsto> s'))"
    using D(2) assms(2) unfolding links_ok_def by (metis fun_upd_apply option.distinct(1))
  moreover have "session_ok (ex = Some k) J k t" if "(S(sid \<mapsto> s')) k = Some t" for k t
    using that D(5) [of k] assms(3-5) by (auto simp: session_ok_def split: if_splits)
  moreover have "queues_ok J (S(sid \<mapsto> s'))"
  proof (rule queuesI)
    have e: "queued_ids s' = []" using assms(4) by (simp add: queued_ids_def)
    show "distinct (queued_ids t)" if "(S(sid \<mapsto> s')) k = Some t" for k t
      using that queuesD(1) [OF D(3)] e by (auto split: if_splits)
    show "\<exists>e. J j = Some e \<and> je_status e = Queued"
      if "(S(sid \<mapsto> s')) k = Some t" "j \<in> set (queued_ids t)" for k t j
      using that queuesD(2) [OF D(3)] e by (auto split: if_splits)
    show "k = k'" if "(S(sid \<mapsto> s')) k = Some t" "(S(sid \<mapsto> s')) k' = Some t'"
      "j \<in> set (queued_ids t)" "j \<in> set (queued_ids t')" for k t k' t' j
      using that queuesD(3) [OF D(3)] e by (auto split: if_splits)
    show "\<exists>k t. (S(sid \<mapsto> s')) k = Some t \<and> j \<in> set (queued_ids t)"
      if "J j = Some e" "je_status e = Queued" for j e
      using queuesD(4) [OF D(3) that] assms(2) by (metis fun_upd_apply option.distinct(1))
  qed
  ultimately show ?thesis using D by (simp add: net_ok_def)
qed

text \<open>
  An idle session is given the job \<open>j\<close>: a new one, or the head of its queue.
\<close>

lemma links_dispatch:
  assumes "links_ok J S" and "S sid = Some s" and "ss_current_job_id s = None"
    and "ss_current_job_id s' = Some j" and "serves e' sid"
  shows "links_ok (J(j \<mapsto> e')) (S(sid \<mapsto> s'))"
  unfolding links_ok_def
proof (intro allI impI)
  fix k e sid' assume a: "(J(j \<mapsto> e')) k = Some e \<and> serves e sid'"
  show "\<exists>t. (S(sid \<mapsto> s')) sid' = Some t \<and> ss_current_job_id t = Some k"
  proof (cases "k = j")
    case True
    with a assms(4,5) serves_unique show ?thesis by (auto split: if_splits)
  next
    case False
    with a assms(1) obtain t where "S sid' = Some t" "ss_current_job_id t = Some k"
      unfolding links_ok_def by (metis fun_upd_apply)
    with assms(2,3) show ?thesis by auto
  qed
qed

lemma queues_dispatch:
  assumes "queues_ok J S" and "S sid = Some s" and "je_status e' \<noteq> Queued"
    and "J j = None \<and> queued_ids s' = queued_ids s \<or> queued_ids s = j # queued_ids s'"
  shows "queues_ok (J(j \<mapsto> e')) (S(sid \<mapsto> s'))"
proof (rule queuesI)
  note Q = queuesD [OF assms(1)]
  have out: "j \<notin> set (queued_ids t)" if "(S(sid \<mapsto> s')) k = Some t" for k t
    using that assms(2,4) Q(1) [OF assms(2)] Q(2) [of k t j] Q(2) [OF assms(2), of j] Q(3) [of sid s k t j]
    by (auto split: if_splits)
  have sub: "\<exists>t'. S k = Some t' \<and> set (queued_ids t) \<subseteq> set (queued_ids t') \<and> distinct (queued_ids t)"
    if "(S(sid \<mapsto> s')) k = Some t" for k t
    using that assms(2,4) Q(1) by (cases "k = sid") (auto, metis distinct.simps(2))
  show "distinct (queued_ids t)" if "(S(sid \<mapsto> s')) k = Some t" for k t
    using sub [OF that] by blast
  show "\<exists>e. (J(j \<mapsto> e')) i = Some e \<and> je_status e = Queued"
    if "(S(sid \<mapsto> s')) k = Some t" "i \<in> set (queued_ids t)" for k t i
    using sub [OF that(1)] out [OF that(1)] that(2) Q(2) [of k] by auto
  show "k = k'" if "(S(sid \<mapsto> s')) k = Some t" "(S(sid \<mapsto> s')) k' = Some t'"
    "i \<in> set (queued_ids t)" "i \<in> set (queued_ids t')" for k t k' t' i
    using sub [OF that(1)] sub [OF that(2)] that(3,4) Q(3) by blast
  show "\<exists>k t. (S(sid \<mapsto> s')) k = Some t \<and> i \<in> set (queued_ids t)"
    if e: "(J(j \<mapsto> e')) i = Some e" "je_status e = Queued" for i e
  proof -
    from e assms(3) have i: "i \<noteq> j" "J i = Some e" by (auto split: if_splits)
    then obtain k t where kt: "S k = Some t" "i \<in> set (queued_ids t)" using Q(4) e(2) by blast
    show ?thesis
    proof (cases "k = sid")
      case True
      with kt assms(2,4) i(1) have "i \<in> set (queued_ids s')" by auto
      then show ?thesis by (intro exI [of _ sid] exI [of _ s']) simp
    qed (use kt in auto)
  qed
qed

lemma net_dispatch:
  assumes "net_ok ex c J S g" and "ex \<in> {None, Some sid}" and "S sid = Some s"
    and "ss_current_job_id s = None" and "ss_current_job_id s' = Some j" and "history_open s'"
    and "jobs_ok c (J(j \<mapsto> e'))" and "guard_ok (J(j \<mapsto> e')) g'"
    and "serves e' sid"
    and from_queue: "J j = None \<and> queued_ids s' = queued_ids s \<or> queued_ids s = j # queued_ids s'"
  shows "net_ok None c (J(j \<mapsto> e')) (S(sid \<mapsto> s')) g'"
proof -
  note D = net_okD [OF assms(1)]
  have wf: "job_wf e'" using jobs_okD [OF assms(7), of j e'] by simp
  have idle: "\<not> serves e k" if "J j = Some e" for e k
  proof -
    have "je_status e = Queued"
      using queuesD(2) [OF D(3) assms(3), of j] from_queue that by auto
    moreover have "job_wf e" using jobs_okD [OF D(1) that] by simp
    ultimately show ?thesis using serves_not_queued by blast
  qed
  have "session_ok (None = Some k) (J(j \<mapsto> e')) k t" if "(S(sid \<mapsto> s')) k = Some t" for k t
    using that assms(2,5,6,9) D(5) [of k t] idle
    by (auto simp: session_ok_def split: option.splits if_splits)
  moreover have "links_ok (J(j \<mapsto> e')) (S(sid \<mapsto> s'))"
    using links_dispatch [OF D(2) assms(3,4,5,9)] .
  moreover have "queues_ok (J(j \<mapsto> e')) (S(sid \<mapsto> s'))"
    using queues_dispatch [OF D(3) assms(3) _ from_queue] serves_not_queued [OF wf assms(9)] by blast
  ultimately show ?thesis using assms(7,8) by (simp add: net_ok_def)
qed

text \<open>A busy session parks a new job at the end of its queue.\<close>

lemma net_enqueue:
  assumes "net_ok None c J S g" and "S sid = Some s" and "ss_current_job_id s \<noteq> None"
    and "J j = None" and "jobs_ok c (J(j \<mapsto> e'))" and "guard_ok (J(j \<mapsto> e')) g'"
    and "je_status e' = Queued" and "pt_job_id p = j"
    and s': "s' = s\<lparr>ss_pending_tasks := ss_pending_tasks s @ [p]\<rparr>"
  shows "net_ok None c (J(j \<mapsto> e')) (S(sid \<mapsto> s')) g'"
proof -
  note D = net_okD [OF assms(1)] and Q = queuesD [OF net_okD(3) [OF assms(1)]]
  have ids: "queued_ids s' = queued_ids s @ [j]" using assms(8) by (simp add: s' queued_ids_def)
  have fresh: "j \<notin> set (queued_ids t)" if "S k = Some t" for k t
    using Q(2) [OF that, of j] assms(4) by auto
  have ns: "\<not> serves e' k" for k
    using jobs_okD [OF assms(5), of j e'] serves_not_queued assms(7) by auto
  have "links_ok (J(j \<mapsto> e')) (S(sid \<mapsto> s'))"
    using D(2) assms(2) ns unfolding links_ok_def s' by (auto split: if_splits) (metis option.inject)
  moreover have "session_ok (None = Some k) (J(j \<mapsto> e')) k t" if "(S(sid \<mapsto> s')) k = Some t" for k t
    using that D(5) [of k] assms(2-4)
    by (auto simp: session_ok_def s' split: option.splits if_splits)
  moreover have "queues_ok (J(j \<mapsto> e')) (S(sid \<mapsto> s'))"
  proof (rule queuesI)
    have old: "i = j \<and> k = sid \<or> (\<exists>t0. S k = Some t0 \<and> i \<in> set (queued_ids t0))"
      if "(S(sid \<mapsto> s')) k = Some t" "i \<in> set (queued_ids t)" for k t i
      using that assms(2) ids by (auto split: if_splits)
    show "distinct (queued_ids t)" if "(S(sid \<mapsto> s')) k = Some t" for k t
      using that Q(1) fresh assms(2) ids by (auto split: if_splits)
    show "\<exists>e. (J(j \<mapsto> e')) i = Some e \<and> je_status e = Queued"
      if "(S(sid \<mapsto> s')) k = Some t" "i \<in> set (queued_ids t)" for k t i
      using that Q(2) [of k t i] Q(2) [OF assms(2), of i] assms(4,7) ids by (auto split: if_splits)
    show "k = k'" if "(S(sid \<mapsto> s')) k = Some t" "(S(sid \<mapsto> s')) k' = Some t'"
      "i \<in> set (queued_ids t)" "i \<in> set (queued_ids t')" for k t k' t' i
      using old [OF that(1,3)] old [OF that(2,4)] fresh Q(3) by blast
    show "\<exists>k t. (S(sid \<mapsto> s')) k = Some t \<and> i \<in> set (queued_ids t)"
      if e: "(J(j \<mapsto> e')) i = Some e" "je_status e = Queued" for i e
    proof (cases "i = j")
      case True
      then show ?thesis by (intro exI [of _ sid] exI [of _ s']) (simp add: ids)
    next
      case False
      with e have "J i = Some e" by simp
      with Q(4) [OF this e(2)] obtain k t where "S k = Some t" "i \<in> set (queued_ids t)" by blast
      with assms(2) ids show ?thesis
        by (cases "k = sid") (auto intro!: exI [of _ k] split: if_splits)
    qed
  qed
  ultimately show ?thesis using assms(5,6) by (simp add: net_ok_def)
qed

text \<open>The current job of a session ends; its queue is drained next.\<close>

lemma net_finish:
  assumes "net_ok None c J S g" and "J j = Some e" and "serves e sid" and "S sid = Some s"
    and "jobs_ok c (J(j \<mapsto> e'))" and "guard_ok (J(j \<mapsto> e')) g'" and "terminal (je_status e')"
    and "ss_current_job_id s' = None" and "ss_pending_tasks s' = ss_pending_tasks s"
    and "history_closed s'"
  shows "net_ok (Some sid) c (J(j \<mapsto> e')) (S(sid \<mapsto> s')) g'"
proof -
  note D = net_okD [OF assms(1)] and Q = queuesD [OF net_okD(3) [OF assms(1)]]
  have cur: "ss_current_job_id s = Some j"
    using D(2) assms(2-4) unfolding links_ok_def by fastforce
  have ns: "\<not> serves e' k" for k
    using jobs_okD [OF assms(5), of j e'] serves_not_queued assms(7) by auto
  have st: "je_status e \<noteq> Queued"
    using jobs_okD [OF D(1) assms(2)] serves_not_queued [OF _ assms(3)] by blast
  have "links_ok (J(j \<mapsto> e')) (S(sid \<mapsto> s'))"
    using D(2) assms(4) cur ns unfolding links_ok_def
    by (metis fun_upd_apply option.inject)
  moreover have "session_ok (Some sid = Some k) (J(j \<mapsto> e')) k t" if t: "(S(sid \<mapsto> s')) k = Some t" for k t
  proof (cases "k = sid")
    case True
    with t assms(8,10) show ?thesis by (simp add: session_ok_def)
  next
    case False
    with t have k: "S k = Some t" by simp
    moreover have "ss_current_job_id t \<noteq> Some j"
      using D(5) [OF k] False assms(2,3) serves_unique
      by (auto simp: session_ok_def split: option.splits)
    ultimately show ?thesis using D(5) [OF k] False
      by (auto simp: session_ok_def split: option.splits)
  qed
  moreover have "queues_ok (J(j \<mapsto> e')) (S(sid \<mapsto> s'))"
  proof -
    have "queues_ok (J(j \<mapsto> e')) S"
    proof (rule queuesI)
      show "\<exists>e. (J(j \<mapsto> e')) i = Some e \<and> je_status e = Queued"
        if "S k = Some t" "i \<in> set (queued_ids t)" for k t i
        using Q(2) [OF that] assms(2) st by auto
      show "\<exists>k t. S k = Some t \<and> i \<in> set (queued_ids t)"
        if "(J(j \<mapsto> e')) i = Some e" "je_status e = Queued" for i e
        using that Q(4) assms(7) by (auto split: if_splits)
    qed (use Q in blast)+
    from queues_ok_same [OF this assms(4)] show ?thesis
      by (simp add: queued_ids_def assms(9))
  qed
  ultimately show ?thesis using assms(5,6) by (simp add: net_ok_def)
qed

text \<open>A queued job is taken out of its queue and aborted.\<close>

lemma net_purge:
  assumes "net_ok None c J S g" and "J j = Some e" and "je_status e = Queued" and "S sid = Some s"
    and "j \<in> set (queued_ids s)"
    and "jobs_ok c (J(j \<mapsto> e'))" and "guard_ok (J(j \<mapsto> e')) g'" and "terminal (je_status e')"
    and s': "s' = s\<lparr>ss_pending_tasks := filter (\<lambda>p. pt_job_id p \<noteq> j) (ss_pending_tasks s)\<rparr>"
  shows "net_ok None c (J(j \<mapsto> e')) (S(sid \<mapsto> s')) g'"
proof -
  note D = net_okD [OF assms(1)] and Q = queuesD [OF net_okD(3) [OF assms(1)]]
  have ids: "queued_ids s' = filter (\<lambda>i. i \<noteq> j) (queued_ids s)"
    by (simp add: s' queued_ids_def filter_map o_def)
  have ns: "\<not> serves e k" "\<not> serves e' k" for k
    using jobs_okD [OF assms(6), of j e'] jobs_okD [OF D(1) assms(2)] serves_not_queued assms(3,8)
    by auto
  have "links_ok (J(j \<mapsto> e')) (S(sid \<mapsto> s'))"
    using D(2) assms(4) ns unfolding links_ok_def s' by (auto split: if_splits) (metis option.inject)
  moreover have "session_ok (None = Some k) (J(j \<mapsto> e')) k t" if "(S(sid \<mapsto> s')) k = Some t" for k t
    using that D(5) [of k] assms(2,4) ns
    by (auto simp: session_ok_def s' split: option.splits if_splits)
  moreover have "queues_ok (J(j \<mapsto> e')) (S(sid \<mapsto> s'))"
  proof (rule queuesI)
    have old: "\<exists>t0. S k = Some t0 \<and> i \<in> set (queued_ids t0)"
      if "(S(sid \<mapsto> s')) k = Some t" "i \<in> set (queued_ids t)" for k t i
      using that assms(4) ids by (auto split: if_splits)
    show "distinct (queued_ids t)" if "(S(sid \<mapsto> s')) k = Some t" for k t
      using that Q(1) assms(4) ids by (auto split: if_splits)
    show "\<exists>e. (J(j \<mapsto> e')) i = Some e \<and> je_status e = Queued"
      if "(S(sid \<mapsto> s')) k = Some t" "i \<in> set (queued_ids t)" for k t i
      using that Q(2) [of k t i] Q(2) [OF assms(4), of i] Q(3) [OF assms(4), of k t j] assms(5) ids
      by (auto split: if_splits)
    show "k = k'" if "(S(sid \<mapsto> s')) k = Some t" "(S(sid \<mapsto> s')) k' = Some t'"
      "i \<in> set (queued_ids t)" "i \<in> set (queued_ids t')" for k t k' t' i
      using old [OF that(1,3)] old [OF that(2,4)] Q(3) by blast
    show "\<exists>k t. (S(sid \<mapsto> s')) k = Some t \<and> i \<in> set (queued_ids t)"
      if e: "(J(j \<mapsto> e')) i = Some e" "je_status e = Queued" for i e
    proof -
      from e assms(8) have i: "i \<noteq> j" "J i = Some e" by (auto split: if_splits)
      then obtain k t where "S k = Some t" "i \<in> set (queued_ids t)" using Q(4) e(2) by blast
      with i assms(4) ids show ?thesis by (cases "k = sid") (auto intro!: exI [of _ k])
    qed
  qed
  ultimately show ?thesis using assms(6,7) by (simp add: net_ok_def)
qed

end
