(* ===== verification/Bus_Steps.thy ===== *)
theory Bus_Steps
  imports Bus_Inv
begin

text \<open>
  Submitting, starting and finishing tasks keep the bus invariant.
\<close>

section \<open>The tables after the primitive writes\<close>

named_theorems bus_frames \<open>what the primitive writes leave alone\<close>

lemma put_job_frames [bus_frames, simp]:
  "map_of (ab_jobs (put_job e b)) = (map_of (ab_jobs b))(je_job_id e \<mapsto> e)"
  "ab_sessions (put_job e b) = ab_sessions b"
  "ab_spawn_guard (put_job e b) = ab_spawn_guard b"
  "ab_counter (put_job e b) = ab_counter b"
  by (simp_all add: put_job_def update_conv')

lemma put_session_frames [bus_frames, simp]:
  "ab_jobs (put_session sid s b) = ab_jobs b"
  "ab_spawn_guard (put_session sid s b) = ab_spawn_guard b"
  "ab_counter (put_session sid s b) = ab_counter b"
  "map_of (ab_sessions b) sid \<noteq> None \<Longrightarrow>
     map_of (ab_sessions (put_session sid s b)) = (map_of (ab_sessions b))(sid \<mapsto> s)"
  by (auto simp add: put_session_def update_conv')

lemma guard_release_frames [bus_frames, simp]:
  "ab_jobs (guard_release j b) = ab_jobs b"
  "ab_sessions (guard_release j b) = ab_sessions b"
  "ab_counter (guard_release j b) = ab_counter b"
  "ab_spawn_guard (guard_release j b) = map_option (release j 0) (ab_spawn_guard b)"
  by (simp_all add: guard_release_def)

lemma busy_iff_current:
  assumes "bus_ok ex b" and "map_of (ab_sessions b) sid = Some s"
  shows "session_busy s b \<longleftrightarrow> ss_current_job_id s \<noteq> None"
proof -
  note D = net_okD [OF assms(1) [unfolded bus_ok_def]]
  have "session_ok (ex = Some sid) (map_of (ab_jobs b)) sid s" using D(5) [OF assms(2)] .
  moreover have "je_status e \<in> {Submitted, Running}"
    if "map_of (ab_jobs b) j = Some e" "serves e sid" for j e
    using serves_status [OF _ that(2)] jobs_okD [OF D(1) that(1)] by simp
  ultimately show ?thesis
    by (fastforce simp: session_ok_def session_busy_def split: option.splits)
qed

section \<open>Submitting\<close>

text \<open>
  A new job id with the guard's admission: what \<open>submit\<close> and \<open>submit_task_to_session\<close> share.
\<close>

lemma admitted_new:
  assumes "bus_inv b" and "j = make_job_id p (Suc (ab_counter b))"
    and "case ab_spawn_guard b of None \<Rightarrow> g' = None
         | Some g \<Rightarrow> \<exists>g1. g' = Some g1 \<and> pre_check j d est g = Inr g1"
    and "0 \<le> est" and "job_wf e'" and "je_job_id e' = j"
    and "je_status e' \<in> {Queued, Submitted}"
  shows "map_of (ab_jobs b) j = None"
    and "jobs_ok (Suc (ab_counter b)) ((map_of (ab_jobs b))(j \<mapsto> e'))"
    and "guard_ok ((map_of (ab_jobs b))(j \<mapsto> e')) g'"
    and "net_ok None (Suc (ab_counter b)) (map_of (ab_jobs b)) (map_of (ab_sessions b)) (ab_spawn_guard b)"
proof -
  note D = net_okD [OF assms(1) [unfolded bus_ok_def]]
  show new: "map_of (ab_jobs b) j = None" using job_id_fresh [OF D(1)] assms(2) by simp
  show "jobs_ok (Suc (ab_counter b)) ((map_of (ab_jobs b))(j \<mapsto> e'))"
    using jobs_ok_upd [OF jobs_ok_mono [OF D(1)], of "Suc (ab_counter b)" e' p "Suc (ab_counter b)"]
      assms(2,5,6) by simp
  show "guard_ok ((map_of (ab_jobs b))(j \<mapsto> e')) g'"
  proof (cases "ab_spawn_guard b")
    case None
    with assms(3) show ?thesis by (simp add: guard_ok_def)
  next
    case (Some g)
    with assms(3) obtain g1 where "g' = Some g1" and "pre_check j d est g = Inr g1" by auto
    with guard_ok_new [of "map_of (ab_jobs b)" g j est d g1 e'] D(4) new assms(4,7) Some show ?thesis
      by auto
  qed
  show "net_ok None (Suc (ab_counter b)) (map_of (ab_jobs b)) (map_of (ab_sessions b)) (ab_spawn_guard b)"
    using net_ok_counter assms(1) by (simp add: bus_ok_def)
qed

lemma next_job_id_ok: "bus_inv b \<Longrightarrow> bus_inv (snd (next_job_id p b))"
  by (auto simp: bus_ok_def next_job_id_def Let_def intro: net_ok_counter)

lemma submit_ok:
  assumes "bus_inv b" and "0 \<le> est"
  shows "bus_inv (fst (submit gp parent_task_id item d md est b))"
proof -
  let ?j = "make_job_id parent_task_id (Suc (ab_counter b))"
  let ?e = "\<lparr>je_job_id = ?j, je_parent_task_id = parent_task_id, je_item = item,
    je_task = Some (TaskWaiting PlainRun), je_status = Submitted, je_result = None\<rparr>"
  have wf: "job_wf ?e" by (simp add: job_wf_def)
  have new: "net_ok None (Suc (ab_counter b)) ((map_of (ab_jobs b))(?j \<mapsto> ?e))
      (map_of (ab_sessions b)) g'"
    if "case ab_spawn_guard b of None \<Rightarrow> g' = None
         | Some g \<Rightarrow> \<exists>g1. g' = Some g1 \<and> pre_check ?j (d + 1) est g = Inr g1" for g'
  proof (rule net_job_change)
    note N = admitted_new [OF assms(1) refl that assms(2) wf]
    show "net_ok None (Suc (ab_counter b)) (map_of (ab_jobs b)) (map_of (ab_sessions b)) (ab_spawn_guard b)"
      and "jobs_ok (Suc (ab_counter b)) ((map_of (ab_jobs b))(?j \<mapsto> ?e))"
      and "guard_ok ((map_of (ab_jobs b))(?j \<mapsto> ?e)) g'"
      using N(2-4) by simp_all
    show "serves ?e sid \<longleftrightarrow> (\<exists>e. map_of (ab_jobs b) ?j = Some e \<and> serves e sid)" for sid
      using N(1) by (simp add: serves_def)
    show "je_status ?e = Queued \<longleftrightarrow> (\<exists>e. map_of (ab_jobs b) ?j = Some e \<and> je_status e = Queued)"
      using N(1) by simp
  qed
  have keep: "bus_inv (b\<lparr>ab_counter := Suc (ab_counter b)\<rparr>)"
    using next_job_id_ok [OF assms(1)] by (simp add: next_job_id_def Let_def)
  show ?thesis
  proof (cases "ab_spawn_guard b")
    case None
    then show ?thesis
      using new [of None] keep assms(1)
      by (auto simp: submit_def next_job_id_def Let_def bus_ok_def split: list.splits option.splits)
  next
    case (Some g)
    then show ?thesis
      using new keep assms(1)
      by (auto simp: submit_def next_job_id_def Let_def bus_ok_def
          split: list.splits option.splits sum.splits)
  qed
qed

text \<open>
  A dispatch on the idle session \<open>sid\<close>, whose queue was cut to \<open>ps\<close> just before.
\<close>

lemma dispatch_ok:
  assumes "net_ok ex (ab_counter b) (map_of (ab_jobs b)) S g" and "ex \<in> {None, Some sid}"
    and "S sid = Some s" and "ss_current_job_id s = None"
    and sess: "map_of (ab_sessions b) = S(sid \<mapsto> s\<lparr>ss_pending_tasks := ps\<rparr>)"
    and entry: "\<And>e'. je_job_id e' = pt_job_id p \<Longrightarrow> job_wf e' \<Longrightarrow> je_status e' = Submitted \<Longrightarrow>
       jobs_ok (ab_counter b) ((map_of (ab_jobs b))(pt_job_id p \<mapsto> e'))
       \<and> guard_ok ((map_of (ab_jobs b))(pt_job_id p \<mapsto> e')) (ab_spawn_guard b)"
    and "map_of (ab_jobs b) (pt_job_id p) = None \<and> ps = ss_pending_tasks s
       \<or> ss_pending_tasks s = p # ps"
  shows "bus_inv (dispatch_session_task sid p b)"
proof -
  note D = net_okD [OF assms(1)]
  let ?J = "map_of (ab_jobs b)" and ?j = "pt_job_id p" and ?s = "s\<lparr>ss_pending_tasks := ps\<rparr>"
  obtain s1 n where o: "open_task (pt_task_prompt p) ?s = (s1, n)" by fastforce
  let ?s2 = "s1\<lparr>ss_current_job_id := Some ?j\<rparr>"
  let ?t = "Some (TaskWaiting (SessionRun sid n (pt_task_metadata p)))"
  let ?e = "case ?J ?j of Some e \<Rightarrow> e\<lparr>je_status := Submitted, je_task := ?t\<rparr>
     | None \<Rightarrow> \<lparr>je_job_id = ?j, je_parent_task_id = ss_task_id s, je_item = session_item ?s p,
               je_task = ?t, je_status = Submitted, je_result = None\<rparr>"
  have queued: "je_status e = Queued \<and> je_job_id e = ?j \<and> job_wf e" if "?J ?j = Some e" for e
    using that assms(7) queuesD(2) [OF D(3) assms(3), of ?j] jobs_okD [OF D(1) that]
    by (auto simp: queued_ids_def)
  have e: "je_job_id ?e = ?j" "job_wf ?e" "je_status ?e = Submitted" "serves ?e sid"
    using queued by (auto simp: job_wf_def serves_def split: option.splits)
  have "history_closed s" using D(5) [OF assms(3)] assms(4) by (simp add: session_ok_def)
  then have "history_open s1" using open_task_history [OF _ o] by simp
  moreover have "ss_pending_tasks s1 = ps" using open_task_fields(2) [OF o] by simp
  ultimately have "net_ok None (ab_counter b) (?J(?j \<mapsto> ?e)) (S(sid \<mapsto> ?s2)) (ab_spawn_guard b)"
    using entry [OF e(1-3)] e(4) assms(7)
    by (intro net_dispatch [OF assms(1-4)]) (auto simp: queued_ids_def)
  moreover have "dispatch_session_task sid p b = put_session sid ?s2 (put_job ?e b)"
    using sess o by (simp add: dispatch_session_task_def Let_def cong: option.case_cong)
  ultimately show ?thesis using e(1) sess by (simp add: bus_ok_def)
qed

lemma queue_or_dispatch_ok:
  assumes "bus_inv b" and "map_of (ab_sessions b) sid = Some s"
    and "pt_job_id p = make_job_id q (Suc (ab_counter b))" and "0 \<le> est"
    and "case ab_spawn_guard b of None \<Rightarrow> g' = None
         | Some g \<Rightarrow> \<exists>g1. g' = Some g1 \<and> pre_check (pt_job_id p) d est g = Inr g1"
  shows "bus_inv (queue_or_dispatch sid p (b\<lparr>ab_counter := Suc (ab_counter b), ab_spawn_guard := g'\<rparr>))"
    (is "bus_inv (queue_or_dispatch sid p ?b)")
proof -
  let ?J = "map_of (ab_jobs b)" and ?j = "pt_job_id p"
  note N = admitted_new [OF assms(1,3,5,4)]
  have busy: "session_busy s ?b \<longleftrightarrow> ss_current_job_id s \<noteq> None"
    using busy_iff_current [OF assms(1,2)] by (simp add: session_busy_def cong: option.case_cong)
  show ?thesis
  proof (cases "ss_current_job_id s")
    case None
    have "bus_inv (dispatch_session_task sid p ?b)"
    proof (rule dispatch_ok [where S = "map_of (ab_sessions b)" and ps = "ss_pending_tasks s"])
      let ?e = "\<lparr>je_job_id = ?j, je_parent_task_id = [], je_item = undefined,
               je_task = None, je_status = Queued, je_result = None\<rparr>"
      have "job_wf ?e" by (simp add: job_wf_def)
      note M = N [OF this]
      show "net_ok None (ab_counter ?b) (map_of (ab_jobs ?b)) (map_of (ab_sessions b)) (ab_spawn_guard b)"
        using M(4) by simp
      show "map_of (ab_sessions ?b) = (map_of (ab_sessions b))(sid \<mapsto> s\<lparr>ss_pending_tasks := ss_pending_tasks s\<rparr>)"
        using assms(2) by auto
      show "map_of (ab_jobs ?b) ?j = None \<and> ss_pending_tasks s = ss_pending_tasks s
          \<or> ss_pending_tasks s = p # ss_pending_tasks s"
        using M(1) by simp
    qed (use None assms(2) N(2,3) in simp_all)
    then show ?thesis using None busy assms(2) by (simp add: queue_or_dispatch_def)
  next
    case (Some i)
    let ?e = "\<lparr>je_job_id = ?j, je_parent_task_id = ss_task_id s, je_item = session_item s p,
               je_task = None, je_status = Queued, je_result = None\<rparr>"
    have wf: "job_wf ?e" by (simp add: job_wf_def)
    note M = N [OF wf]
    have "net_ok None (Suc (ab_counter b)) (?J(?j \<mapsto> ?e))
       ((map_of (ab_sessions b))(sid \<mapsto> s\<lparr>ss_pending_tasks := ss_pending_tasks s @ [p]\<rparr>)) g'"
      using M Some by (intro net_enqueue [OF M(4) assms(2)]) simp_all
    then show ?thesis using Some busy assms(2) by (simp add: queue_or_dispatch_def bus_ok_def)
  qed
qed

lemma submit_task_to_session_ok:
  assumes "bus_inv b" and "0 \<le> est"
  shows "bus_inv (fst (submit_task_to_session sid prompt est ctx md b))"
proof (cases "map_of (ab_sessions b) sid")
  case None
  with assms show ?thesis by (simp add: submit_task_to_session_def)
next
  case (Some s)
  let ?j = "make_job_id (ss_task_id s) (Suc (ab_counter b))"
  let ?p = "\<lparr>pt_job_id = ?j, pt_task_prompt = prompt, pt_estimated_tokens = est,
     pt_spawn_context = ctx, pt_task_metadata = md\<rparr>"
  have keep: "bus_inv (b\<lparr>ab_counter := Suc (ab_counter b)\<rparr>)"
    using next_job_id_ok [OF assms(1)] by (simp add: next_job_id_def Let_def)
  have same: "b\<lparr>ab_counter := c, ab_spawn_guard := None\<rparr> = b\<lparr>ab_counter := c\<rparr>"
    if "ab_spawn_guard b = None" for c using that by (cases b) simp
  note Q = queue_or_dispatch_ok [OF assms(1) Some, of ?p "ss_task_id s" est _ 1, simplified]
  show ?thesis
  proof (cases "ab_spawn_guard b")
    case None
    then show ?thesis
      using Q [OF assms(2), of None] same [OF None] Some
      by (simp add: submit_task_to_session_def next_job_id_def Let_def)
  next
    case g: (Some g)
    then show ?thesis
      using Q [OF assms(2)] keep Some
      by (auto simp: submit_task_to_session_def next_job_id_def Let_def split: sum.splits)
  qed
qed

section \<open>Sessions and slots\<close>

lemma create_session_ok:
  assumes "bus_inv b"
  shows "bus_inv (fst (create_session gp t n rid sp tr b))"
proof (cases "map_of (ab_sessions b) (make_session_id t n)")
  case (Some s)
  with assms show ?thesis by (simp add: create_session_def Let_def)
next
  case None
  then show ?thesis
    using net_new_session [OF assms [unfolded bus_ok_def] None]
    by (auto simp: create_session_def Let_def bus_ok_def history_closed_def all_closed_def update_conv')
qed

lemma start_job_ok:
  assumes "bus_inv b" and "start_job j b = Some b'"
  shows "bus_inv b'"
proof -
  note D = net_okD [OF assms(1) [unfolded bus_ok_def]]
  from assms(2) obtain e c where e: "map_of (ab_jobs b) j = Some e" "je_task e = Some (TaskWaiting c)"
    by (auto simp: start_job_def split: option.splits async_task.splits)
  let ?e = "e\<lparr>je_status := Running, je_task := Some (TaskRunning c)\<rparr>"
  have wf: "je_job_id e = j" "job_wf e" using jobs_okD [OF D(1) e(1)] by auto
  with e(2) have st: "je_status e = Submitted" "je_result e = None"
    by (auto simp: job_wf_def split: job_status.splits)
  then have wf': "job_wf ?e" by (simp add: job_wf_def)
  have g: "guard_ok ((map_of (ab_jobs b))(j \<mapsto> ?e)) (ab_spawn_guard b')"
  proof (cases "ab_spawn_guard b")
    case None
    with assms(2) e show ?thesis by (auto simp: start_job_def Let_def guard_ok_def)
  next
    case (Some g)
    with assms(2) e obtain g' where "acquire_slot j g = Some g'" "ab_spawn_guard b' = Some g'"
      by (auto simp: start_job_def Let_def)
    with guard_ok_start [of "map_of (ab_jobs b)" g j e g' ?e] D(4) Some e(1) st(1) show ?thesis by simp
  qed
  have "net_ok None (ab_counter b) ((map_of (ab_jobs b))(j \<mapsto> ?e)) (map_of (ab_sessions b))
      (ab_spawn_guard b')"
  proof (rule net_job_change [OF assms(1) [unfolded bus_ok_def] _ g])
    show "jobs_ok (ab_counter b) ((map_of (ab_jobs b))(j \<mapsto> ?e))"
      using jobs_ok_change [OF D(1) e(1) _ wf'] wf(1) by simp
  qed (use e st in \<open>auto simp: serves_def\<close>)
  moreover have "map_of (ab_jobs b') = (map_of (ab_jobs b))(j \<mapsto> ?e)"
    and "ab_sessions b' = ab_sessions b" and "ab_counter b' = ab_counter b"
    using assms(2) e wf(1) by (auto simp: start_job_def Let_def split: option.splits)
  ultimately show ?thesis by (simp add: bus_ok_def)
qed

section \<open>Finishing\<close>

lemma drain_ok:
  assumes "bus_ok (Some sid) b" and "map_of (ab_sessions b) sid = Some s"
    and "ss_current_job_id s = None"
  shows "bus_inv (drain_session_queue sid b)"
proof (cases "ss_pending_tasks s")
  note D = net_okD [OF assms(1) [unfolded bus_ok_def]]
  case Nil
  have "session_ok False (map_of (ab_jobs b)) k t" if "map_of (ab_sessions b) k = Some t" for k t
    using D(5) [OF that] that assms(2,3) Nil
    by (cases "k = sid") (auto simp: session_ok_def)
  then have "bus_inv b" using D(1-4) by (simp add: bus_ok_def net_ok_def)
  then show ?thesis using assms(2) Nil by (simp add: drain_session_queue_def)
next
  note D = net_okD [OF assms(1) [unfolded bus_ok_def]]
  case (Cons p ps)
  let ?b = "set_pending_tasks sid ps b" and ?j = "pt_job_id p"
  have b: "map_of (ab_sessions ?b) = (map_of (ab_sessions b))(sid \<mapsto> s\<lparr>ss_pending_tasks := ps\<rparr>)"
    "ab_jobs ?b = ab_jobs b" "ab_counter ?b = ab_counter b" "ab_spawn_guard ?b = ab_spawn_guard b"
    using assms(2) by (simp_all add: set_pending_tasks_def)
  obtain e where e: "map_of (ab_jobs b) ?j = Some e" "je_status e = Queued"
    using queuesD(2) [OF D(3) assms(2), of ?j] Cons by (auto simp: queued_ids_def)
  have "bus_inv (dispatch_session_task sid p ?b)"
  proof (rule dispatch_ok [where S = "map_of (ab_sessions b)" and ps = ps and s = s])
    show "net_ok (Some sid) (ab_counter ?b) (map_of (ab_jobs ?b)) (map_of (ab_sessions b)) (ab_spawn_guard b)"
      using assms(1) b by (simp add: bus_ok_def)
    show "jobs_ok (ab_counter ?b) ((map_of (ab_jobs ?b))(?j \<mapsto> e'))
       \<and> guard_ok ((map_of (ab_jobs ?b))(?j \<mapsto> e')) (ab_spawn_guard ?b)"
      if "je_job_id e' = ?j" "job_wf e'" "je_status e' = Submitted" for e'
      using jobs_ok_change [OF D(1) e(1) that(1,2)] guard_ok_same [OF D(4) e(1), of e'] that(3) e(2) b
      by simp
  qed (use assms b Cons in simp_all)
  moreover have "get_job_status ?j ?b = Some Queued" using e b by (simp add: get_job_status_def)
  ultimately show ?thesis using assms(2) Cons by (simp add: drain_session_queue_def Let_def)
qed

lemma status_of_result_terminal: "terminal (status_of_result r)"
  by (simp add: status_of_result_def)

lemma set_task_frames:
  "map_of (ab_jobs b) j = Some e \<Longrightarrow> je_job_id e = j \<Longrightarrow>
     map_of (ab_jobs (set_task j t b)) = (map_of (ab_jobs b))(j \<mapsto> e\<lparr>je_task := Some t\<rparr>)"
  "ab_sessions (set_task j t b) = ab_sessions b"
  "ab_spawn_guard (set_task j t b) = ab_spawn_guard b"
  "ab_counter (set_task j t b) = ab_counter b"
  by (auto simp: set_task_def split: option.splits)

text \<open>The job that a run leaves behind.\<close>

definition ended :: "JobEntry \<Rightarrow> SubAgentResult \<Rightarrow> JobEntry" where
  "ended e r = e\<lparr>je_result := Some r, je_status := status_of_result r, je_task := Some TaskDone\<rparr>"

lemma ended_wf: "job_wf (ended e r)" "je_job_id (ended e r) = je_job_id e"
    "terminal (je_status (ended e r))" "\<not> serves (ended e r) sid"
  using status_of_result_terminal [of r]
  by (auto simp: ended_def job_wf_def serves_def split: job_status.splits)

lemma finish_plain_effect:
  assumes "map_of (ab_jobs b) j = Some e" and "je_job_id e = j" and "je_task e = Some (TaskRunning PlainRun)"
  shows "\<exists>r. map_of (ab_jobs (finish_job j oc b)) = (map_of (ab_jobs b))(j \<mapsto> ended e r)"
    and "ab_sessions (finish_job j oc b) = ab_sessions b"
    and "ab_counter (finish_job j oc b) = ab_counter b"
    and "ab_spawn_guard (finish_job j oc b) = map_option (release j 0) (ab_spawn_guard b)"
proof -
  let ?b1 = "finish_record j oc b" and ?r = "run_plain_job e oc"
  have 1: "?b1 = put_job (e\<lparr>je_result := Some ?r, je_status := status_of_result ?r\<rparr>) b"
    using assms by (simp add: finish_record_def Let_def)
  have f: "finish_job j oc b = set_task j TaskDone (guard_release j ?b1)"
    using assms by (simp add: finish_job_def)
  have "map_of (ab_jobs (finish_job j oc b)) = (map_of (ab_jobs b))(j \<mapsto> ended e ?r)"
    unfolding f by (subst set_task_frames(1)) (use assms 1 in \<open>simp_all add: ended_def\<close>)
  then show "\<exists>r. map_of (ab_jobs (finish_job j oc b)) = (map_of (ab_jobs b))(j \<mapsto> ended e r)" ..
  show "ab_sessions (finish_job j oc b) = ab_sessions b"
    and "ab_counter (finish_job j oc b) = ab_counter b"
    and "ab_spawn_guard (finish_job j oc b) = map_option (release j 0) (ab_spawn_guard b)"
    using 1 by (simp_all add: f set_task_frames(2-4))
qed

lemma finish_plain_ok:
  assumes "bus_inv b" and "map_of (ab_jobs b) j = Some e" and "je_task e = Some (TaskRunning PlainRun)"
  shows "bus_inv (finish_job j oc b)"
proof -
  note D = net_okD [OF assms(1) [unfolded bus_ok_def]]
  note wf = jobs_okD [OF D(1) assms(2)]
  obtain r where J: "map_of (ab_jobs (finish_job j oc b)) = (map_of (ab_jobs b))(j \<mapsto> ended e r)"
    using finish_plain_effect(1) [OF assms(2) _ assms(3)] wf by blast
  have "net_ok None (ab_counter b) ((map_of (ab_jobs b))(j \<mapsto> ended e r)) (map_of (ab_sessions b))
      (map_option (release j 0) (ab_spawn_guard b))"
  proof (rule net_job_change [OF assms(1) [unfolded bus_ok_def]])
    show "jobs_ok (ab_counter b) ((map_of (ab_jobs b))(j \<mapsto> ended e r))"
      using jobs_ok_change [OF D(1) assms(2) _ ended_wf(1)] wf ended_wf(2) by simp
    show "guard_ok ((map_of (ab_jobs b))(j \<mapsto> ended e r)) (map_option (release j 0) (ab_spawn_guard b))"
      using guard_ok_release [OF D(4) ended_wf(3)] .
    show "serves (ended e r) sid \<longleftrightarrow> (\<exists>e. map_of (ab_jobs b) j = Some e \<and> serves e sid)" for sid
      using assms(2,3) ended_wf(4) by (auto simp: serves_def)
    have "je_status e \<noteq> Queued" using wf assms(3) by (auto simp: job_wf_def)
    then show "je_status (ended e r) = Queued \<longleftrightarrow>
        (\<exists>e. map_of (ab_jobs b) j = Some e \<and> je_status e = Queued)"
      using assms(2) ended_wf(3) [of e r] by auto
  qed
  then show ?thesis
    using J finish_plain_effect(2-4) [OF assms(2) _ assms(3)] wf by (simp add: bus_ok_def)
qed

text \<open>The state of a session task's bus just before the queue is drained.\<close>

definition before_drain :: "string \<Rightarrow> string \<Rightarrow> run_outcome \<Rightarrow> AgentBus \<Rightarrow> AgentBus" where
  "before_drain sid j oc b =
     finish_trim sid (finish_release sid j (set_task j TaskDone (finish_record j oc b)))"

lemma finish_session_unfold:
  assumes "map_of (ab_jobs b) j = Some e" and "je_task e = Some (TaskRunning (SessionRun sid n md))"
  shows "finish_job j oc b = drain_session_queue sid (before_drain sid j oc b)"
  using assms by (simp add: finish_job_def before_drain_def)

lemma before_drain_effect:
  assumes "map_of (ab_jobs b) j = Some e" and "je_job_id e = j"
    and "je_task e = Some (TaskRunning (SessionRun sid n md))"
    and "map_of (ab_sessions b) sid = Some s" and "ss_current_job_id s = Some j" and "history_open s"
  shows "\<exists>r s'. map_of (ab_jobs (before_drain sid j oc b)) = (map_of (ab_jobs b))(j \<mapsto> ended e r)
    \<and> map_of (ab_sessions (before_drain sid j oc b)) = (map_of (ab_sessions b))(sid \<mapsto> s')
    \<and> ss_current_job_id s' = None \<and> ss_pending_tasks s' = ss_pending_tasks s \<and> history_closed s'
    \<and> ab_counter (before_drain sid j oc b) = ab_counter b
    \<and> ab_spawn_guard (before_drain sid j oc b) = map_option (release j 0) (ab_spawn_guard b)"
proof -
  obtain s1 r where run: "run_session_task j n (st_question (je_item e)) oc s = (s1, r)" by fastforce
  let ?e1 = "e\<lparr>je_result := Some r, je_status := status_of_result r\<rparr>" and ?s2 = "publish_result md r s1"
  let ?s3 = "?s2\<lparr>ss_current_job_id := None\<rparr>"
  let ?b1 = "finish_record j oc b"
  have b1: "?b1 = put_session sid ?s2 (put_job ?e1 b)"
    using assms run by (simp add: finish_record_def)
  have j1: "map_of (ab_jobs ?b1) j = Some ?e1" using assms(2) by (simp add: b1)
  have s1: "ss_current_job_id ?s2 = Some j" "ss_pending_tasks ?s2 = ss_pending_tasks s" "history_closed ?s2"
    using run_session_task_fields [of j n "st_question (je_item e)" oc s]
      run_session_task_history [OF assms(6), of j n "st_question (je_item e)" oc] assms(5)
    by (simp_all add: run)
  let ?b2 = "set_task j TaskDone ?b1"
  have S2: "map_of (ab_sessions ?b2) = (map_of (ab_sessions b))(sid \<mapsto> ?s2)"
    using assms(4) by (simp add: set_task_frames b1)
  have J2: "map_of (ab_jobs ?b2) = (map_of (ab_jobs b))(j \<mapsto> ended e r)"
    by (subst set_task_frames(1) [OF j1]) (use assms(2) in \<open>simp_all add: b1 ended_def\<close>)
  let ?b3 = "finish_release sid j ?b2"
  have b3: "?b3 = put_session sid ?s3 (guard_release j ?b2)"
    using S2 s1 by (simp add: finish_release_def clear_current_def)
  have S3: "map_of (ab_sessions ?b3) = (map_of (ab_sessions b))(sid \<mapsto> ?s3)"
    using S2 by (simp add: b3)
  have b4: "before_drain sid j oc b = put_session sid (eager_trim ?s3) ?b3"
    using S3 by (simp add: before_drain_def finish_trim_def)
  have "map_of (ab_sessions (before_drain sid j oc b)) = (map_of (ab_sessions b))(sid \<mapsto> eager_trim ?s3)"
    using S3 by (simp add: b4)
  moreover have "map_of (ab_jobs (before_drain sid j oc b)) = (map_of (ab_jobs b))(j \<mapsto> ended e r)"
    using J2 by (simp add: b4 b3)
  moreover have "ab_counter (before_drain sid j oc b) = ab_counter b"
    "ab_spawn_guard (before_drain sid j oc b) = map_option (release j 0) (ab_spawn_guard b)"
    unfolding b4 b3 by (simp_all add: set_task_frames b1)
  moreover have "history_closed (eager_trim ?s3)" using eager_trim_history s1(3) by simp
  ultimately show ?thesis using s1 by (intro exI [of _ r] exI [of _ "eager_trim ?s3"]) simp
qed

lemma before_drain_ok:
  assumes "bus_inv b" and "map_of (ab_jobs b) j = Some e"
    and "je_task e = Some (TaskRunning (SessionRun sid n md))"
  obtains r s' where "bus_ok (Some sid) (before_drain sid j oc b)"
    and "map_of (ab_jobs (before_drain sid j oc b)) = (map_of (ab_jobs b))(j \<mapsto> ended e r)"
    and "map_of (ab_sessions (before_drain sid j oc b)) sid = Some s'" and "ss_current_job_id s' = None"
proof -
  note D = net_okD [OF assms(1) [unfolded bus_ok_def]]
  have sv: "serves e sid" using assms(3) by (simp add: serves_def)
  then obtain s where s: "map_of (ab_sessions b) sid = Some s" "ss_current_job_id s = Some j"
    using D(2) assms(2) unfolding links_ok_def by blast
  have "history_open s" using D(5) [OF s(1)] s(2) by (simp add: session_ok_def)
  from before_drain_effect [OF assms(2) _ assms(3) s this, of oc] jobs_okD [OF D(1) assms(2)]
  obtain r s' where J: "map_of (ab_jobs (before_drain sid j oc b)) = (map_of (ab_jobs b))(j \<mapsto> ended e r)"
    and S: "map_of (ab_sessions (before_drain sid j oc b)) = (map_of (ab_sessions b))(sid \<mapsto> s')"
    and s': "ss_current_job_id s' = None" "ss_pending_tasks s' = ss_pending_tasks s" "history_closed s'"
    and f: "ab_counter (before_drain sid j oc b) = ab_counter b"
      "ab_spawn_guard (before_drain sid j oc b) = map_option (release j 0) (ab_spawn_guard b)"
    by blast
  have "net_ok (Some sid) (ab_counter b) ((map_of (ab_jobs b))(j \<mapsto> ended e r))
      ((map_of (ab_sessions b))(sid \<mapsto> s')) (map_option (release j 0) (ab_spawn_guard b))"
  proof (rule net_finish [OF assms(1) [unfolded bus_ok_def] assms(2) sv s(1) _ _ ended_wf(3) s'])
    show "jobs_ok (ab_counter b) ((map_of (ab_jobs b))(j \<mapsto> ended e r))"
      using jobs_ok_change [OF D(1) assms(2) _ ended_wf(1)] jobs_okD [OF D(1) assms(2)] ended_wf(2) by simp
    show "guard_ok ((map_of (ab_jobs b))(j \<mapsto> ended e r)) (map_option (release j 0) (ab_spawn_guard b))"
      using guard_ok_release [OF D(4) ended_wf(3)] .
  qed
  with that J S f s'(1) show ?thesis by (simp add: bus_ok_def)
qed

lemma finish_job_ok:
  assumes "bus_inv b"
  shows "bus_inv (finish_job j oc b)"
proof (cases "\<exists>e c. map_of (ab_jobs b) j = Some e \<and> je_task e = Some (TaskRunning c)")
  case True
  then obtain e c where e: "map_of (ab_jobs b) j = Some e" "je_task e = Some (TaskRunning c)" by blast
  show ?thesis
  proof (cases c)
    case PlainRun
    then show ?thesis using finish_plain_ok [OF assms e(1)] e(2) by simp
  next
    case (SessionRun sid n md)
    then have t: "je_task e = Some (TaskRunning (SessionRun sid n md))" using e(2) by simp
    show ?thesis
      using before_drain_ok [OF assms e(1) t] drain_ok finish_session_unfold [OF e(1) t] by metis
  qed
next
  case False
  then have "finish_job j oc b = b"
    by (auto simp: finish_job_def split: option.splits async_task.splits run_closure.splits)
  with assms show ?thesis by simp
qed

end
