(* ===== verification/Bus_System.thy ===== *)
theory Bus_System
  imports Bus_Steps
begin

text \<open>
  Aborting and delivering keep the bus invariant too; the bus as a transition system; and what
  the invariant gives in every reachable state.
\<close>

section \<open>Aborting\<close>

lemma drain_keeps_terminal:
  assumes "bus_ok (Some sid) b" and "map_of (ab_jobs b) j = Some e" and "terminal (je_status e)"
  shows "map_of (ab_jobs (drain_session_queue sid b)) j = Some e"
proof (cases "map_of (ab_sessions b) sid")
  case (Some s)
  note D = net_okD [OF assms(1) [unfolded bus_ok_def]]
  show ?thesis
  proof (cases "ss_pending_tasks s")
    case (Cons p ps)
    let ?b = "set_pending_tasks sid ps b"
    have b: "ab_jobs ?b = ab_jobs b" using Some by (simp add: set_pending_tasks_def)
    obtain q where q: "map_of (ab_jobs b) (pt_job_id p) = Some q" "je_status q = Queued"
      using queuesD(2) [OF D(3) Some, of "pt_job_id p"] Cons by (auto simp: queued_ids_def)
    then have ne: "pt_job_id p \<noteq> j" using assms(2,3) by auto
    have id: "je_job_id q = pt_job_id p" using jobs_okD [OF D(1) q(1)] by simp
    have "map_of (ab_jobs (dispatch_session_task sid p ?b)) j = Some e"
      using ne id b q(1) assms(2)
      by (auto simp: dispatch_session_task_def Let_def split: option.splits prod.splits)
    moreover have "get_job_status (pt_job_id p) ?b = Some Queued"
      using q b by (simp add: get_job_status_def)
    ultimately show ?thesis using Some Cons by (simp add: drain_session_queue_def Let_def)
  qed (use Some assms(2) in \<open>simp add: drain_session_queue_def\<close>)
qed (use assms(2) in \<open>simp add: drain_session_queue_def\<close>)

lemma finish_job_terminal:
  assumes "bus_inv b" and "map_of (ab_jobs b) j = Some e" and "je_task e = Some (TaskRunning c)"
  shows "\<exists>r. map_of (ab_jobs (finish_job j oc b)) j = Some (ended e r)"
proof (cases c)
  case PlainRun
  have "je_job_id e = j"
    using jobs_okD [OF net_okD(1) [OF assms(1) [unfolded bus_ok_def]] assms(2)] by simp
  with finish_plain_effect(1) [OF assms(2) this, of oc] assms(3) PlainRun show ?thesis by auto
next
  case (SessionRun sid n md)
  then have t: "je_task e = Some (TaskRunning (SessionRun sid n md))" using assms(3) by simp
  from before_drain_ok [OF assms(1,2) t, of oc] obtain r where
    ok: "bus_ok (Some sid) (before_drain sid j oc b)" and
    J: "map_of (ab_jobs (before_drain sid j oc b)) = (map_of (ab_jobs b))(j \<mapsto> ended e r)" by blast
  from drain_keeps_terminal [OF ok, of j] J ended_wf(3) finish_session_unfold [OF assms(2) t]
  show ?thesis by auto
qed

lemma release_unbooked:
  assumes "bus_inv b" and "map_of (ab_jobs b) j = Some e" and "terminal (je_status e)"
  shows "guard_release j b = b"
proof (cases "ab_spawn_guard b")
  case (Some g)
  have "booked (map_of (ab_jobs b) j) (map_of (sg_active g) j)"
    using net_okD(4) [OF assms(1) [unfolded bus_ok_def]] Some by (simp add: guard_ok_booked)
  then have "map_of (sg_active g) j = None" using assms(2,3) by (auto simp: booked_def split: option.splits)
  with Some show ?thesis by (simp add: guard_release_def release_def)
qed (simp add: guard_release_def)

lemma put_terminal_ok:
  assumes "bus_inv b" and "map_of (ab_jobs b) j = Some e" and "terminal (je_status e)"
    and "terminal st"
  shows "bus_inv (put_job (e\<lparr>je_status := st\<rparr>) b)"
proof -
  note D = net_okD [OF assms(1) [unfolded bus_ok_def]]
  note wf = jobs_okD [OF D(1) assms(2)]
  have "job_wf (e\<lparr>je_status := st\<rparr>)"
    using wf assms(3,4) by (auto simp: job_wf_def split: job_status.splits)
  then have "jobs_ok (ab_counter b) ((map_of (ab_jobs b))(j \<mapsto> e\<lparr>je_status := st\<rparr>))"
    using jobs_ok_change [OF D(1) assms(2)] wf by simp
  moreover have "guard_ok ((map_of (ab_jobs b))(j \<mapsto> e\<lparr>je_status := st\<rparr>)) (ab_spawn_guard b)"
    by (rule guard_ok_same [OF D(4) assms(2)]) (use assms(3,4) in auto)
  ultimately have "net_ok None (ab_counter b) ((map_of (ab_jobs b))(j \<mapsto> e\<lparr>je_status := st\<rparr>))
      (map_of (ab_sessions b)) (ab_spawn_guard b)"
    using assms(2-4) by (intro net_job_change [OF assms(1) [unfolded bus_ok_def]]) auto
  then show ?thesis using wf by (simp add: bus_ok_def)
qed

lemma purge_sessions_effect:
  assumes "distinct (map fst ss)" and "map_of ss sid = Some s" and "j \<in> set (queued_ids s)"
    and "\<forall>k t. map_of ss k = Some t \<and> j \<in> set (queued_ids t) \<longrightarrow> k = sid"
  shows "snd (purge_sessions j ss) \<and> map_of (fst (purge_sessions j ss)) = (map_of ss)
    (sid \<mapsto> s\<lparr>ss_pending_tasks := filter (\<lambda>p. pt_job_id p \<noteq> j) (ss_pending_tasks s)\<rparr>)"
  using assms
proof (induction ss)
  case (Cons kt ss)
  obtain k t where kt: "kt = (k, t)" by fastforce
  have hit: "(\<exists>p \<in> set (ss_pending_tasks t). pt_job_id p = j) \<longleftrightarrow> j \<in> set (queued_ids t)" for t
    by (auto simp: queued_ids_def)
  show ?case
  proof (cases "k = sid")
    case True
    with Cons.prems(2) have "t = s" by (simp add: kt)
    with True Cons.prems(3) show ?thesis by (simp add: kt hit cong: if_cong)
  next
    case False
    with Cons.prems have out: "j \<notin> set (queued_ids t)" by (auto simp: kt)
    have uniq: "k' = sid" if a: "map_of ss k' = Some t'" "j \<in> set (queued_ids t')" for k' t'
    proof -
      have "k' \<noteq> k" using Cons.prems(1) a(1) map_of_SomeD [OF a(1)] by (force simp: kt)
      with a Cons.prems(4) [rule_format, of k' t'] show ?thesis by (simp add: kt)
    qed
    have d: "distinct (map fst ss)" and m: "map_of ss sid = Some s"
      using Cons.prems(1,2) False by (simp_all add: kt)
    have "snd (purge_sessions j ss) \<and> map_of (fst (purge_sessions j ss)) = (map_of ss)
        (sid \<mapsto> s\<lparr>ss_pending_tasks := filter (\<lambda>p. pt_job_id p \<noteq> j) (ss_pending_tasks s)\<rparr>)"
      by (rule Cons.IH [OF d m Cons.prems(3)]) (use uniq in blast)
    with out False show ?thesis
      by (cases "purge_sessions j ss") (simp add: kt hit fun_eq_iff)
  qed
qed simp

text \<open>What a job looks like once it was marked as aborted.\<close>

lemma mark_job_aborted_effect:
  assumes "map_of (ab_jobs b) j = Some e" and "je_job_id e = j" and "\<not> terminal (je_status e)"
  shows "\<exists>r. map_of (ab_jobs (mark_job_aborted j b)) =
      (map_of (ab_jobs b))(j \<mapsto> e\<lparr>je_status := Aborted, je_result := Some r\<rparr>)"
    and "ab_sessions (mark_job_aborted j b) = ab_sessions b"
    and "ab_counter (mark_job_aborted j b) = ab_counter b"
    and "ab_spawn_guard (mark_job_aborted j b) = map_option (release j 0) (ab_spawn_guard b)"
  using assms by (auto simp: mark_job_aborted_def Let_def split: option.splits)

lemma release_release: "map_option (release j 0) (map_option (release j 0) g) = map_option (release j 0) g"
  by (cases g) (auto simp: release_def Let_def split: option.splits)

lemma abort_queued_ok:
  assumes "bus_inv b" and "distinct (map fst (ab_sessions b))"
    and "map_of (ab_jobs b) j = Some e" and "je_status e = Queued"
  shows "bus_inv (mark_job_aborted j (purge_queued_job j b))"
proof -
  note D = net_okD [OF assms(1) [unfolded bus_ok_def]]
  note wf = jobs_okD [OF D(1) assms(3)] and Q = queuesD [OF D(3)]
  obtain sid s where s: "map_of (ab_sessions b) sid = Some s" "j \<in> set (queued_ids s)"
    using Q(4) [OF assms(3,4)] by blast
  let ?s' = "s\<lparr>ss_pending_tasks := filter (\<lambda>p. pt_job_id p \<noteq> j) (ss_pending_tasks s)\<rparr>"
  let ?b1 = "purge_queued_job j b"
  have "\<forall>k t. map_of (ab_sessions b) k = Some t \<and> j \<in> set (queued_ids t) \<longrightarrow> k = sid"
    using Q(3) s by blast
  from purge_sessions_effect [OF assms(2) s this]
  have b1: "map_of (ab_sessions ?b1) = (map_of (ab_sessions b))(sid \<mapsto> ?s')" "ab_jobs ?b1 = ab_jobs b"
    "ab_counter ?b1 = ab_counter b" "ab_spawn_guard ?b1 = map_option (release j 0) (ab_spawn_guard b)"
    by (auto simp: purge_queued_job_def Let_def split: prod.splits)
  obtain r where J: "map_of (ab_jobs (mark_job_aborted j ?b1)) =
      (map_of (ab_jobs b))(j \<mapsto> e\<lparr>je_status := Aborted, je_result := Some r\<rparr>)"
    using mark_job_aborted_effect(1) [of ?b1 j e] b1 assms(3,4) wf by auto
  note m = mark_job_aborted_effect(2-4) [of ?b1 j e]
  let ?e = "e\<lparr>je_status := Aborted, je_result := Some r\<rparr>"
  have "job_wf ?e" using wf assms(4) by (simp add: job_wf_def)
  then have "net_ok None (ab_counter b) ((map_of (ab_jobs b))(j \<mapsto> ?e))
      ((map_of (ab_sessions b))(sid \<mapsto> ?s')) (map_option (release j 0) (ab_spawn_guard b))"
    using wf guard_ok_release [OF D(4), of ?e j 0] jobs_ok_change [OF D(1) assms(3), of ?e]
    by (intro net_purge [OF assms(1) [unfolded bus_ok_def] assms(3,4) s]) simp_all
  then show ?thesis using J m b1 assms(3,4) wf by (simp add: bus_ok_def release_release)
qed

lemma abort_waiting_plain_ok:
  assumes "bus_inv b" and "map_of (ab_jobs b) j = Some e" and "je_task e = Some (TaskWaiting PlainRun)"
  shows "bus_inv (mark_job_aborted j (set_task j TaskCancelled b))"
proof -
  note D = net_okD [OF assms(1) [unfolded bus_ok_def]]
  note wf = jobs_okD [OF D(1) assms(2)]
  have st: "je_status e = Submitted" using wf assms(3) by (auto simp: job_wf_def split: job_status.splits)
  let ?b1 = "set_task j TaskCancelled b" and ?e1 = "e\<lparr>je_task := Some TaskCancelled\<rparr>"
  have J1: "map_of (ab_jobs ?b1) = (map_of (ab_jobs b))(j \<mapsto> ?e1)"
    using set_task_frames(1) [OF assms(2)] wf by blast
  then obtain r where J: "map_of (ab_jobs (mark_job_aborted j ?b1)) =
      (map_of (ab_jobs b))(j \<mapsto> ?e1\<lparr>je_status := Aborted, je_result := Some r\<rparr>)"
    using mark_job_aborted_effect(1) [of ?b1 j ?e1] st wf by auto
  note m = mark_job_aborted_effect(2-4) [of ?b1 j ?e1]
  let ?e = "?e1\<lparr>je_status := Aborted, je_result := Some r\<rparr>"
  have wf': "job_wf ?e" by (simp add: job_wf_def)
  have "net_ok None (ab_counter b) ((map_of (ab_jobs b))(j \<mapsto> ?e)) (map_of (ab_sessions b))
      (map_option (release j 0) (ab_spawn_guard b))"
  proof (rule net_job_change [OF assms(1) [unfolded bus_ok_def]])
    show "jobs_ok (ab_counter b) ((map_of (ab_jobs b))(j \<mapsto> ?e))"
      using jobs_ok_change [OF D(1) assms(2) _ wf'] wf by simp
    show "guard_ok ((map_of (ab_jobs b))(j \<mapsto> ?e)) (map_option (release j 0) (ab_spawn_guard b))"
      using guard_ok_release [OF D(4), of ?e j 0] by simp
  qed (use assms(2,3) st in \<open>auto simp: serves_def\<close>)
  then show ?thesis using J J1 m st wf by (simp add: bus_ok_def set_task_frames(2-4))
qed

text \<open>
  Cancelling a session task that still waits for its slot is left out here: see
  \<open>Bus_Runs\<close> for what it does.
\<close>

definition waits_in_session :: "string \<Rightarrow> AgentBus \<Rightarrow> bool" where
  "waits_in_session j b =
     (case map_of (ab_jobs b) j of
        Some e \<Rightarrow> (case je_task e of Some (TaskWaiting (SessionRun sid n md)) \<Rightarrow> True | _ \<Rightarrow> False)
      | None \<Rightarrow> False)"

lemma abort_ok:
  assumes "bus_inv b" and "distinct (map fst (ab_sessions b))" and "\<not> waits_in_session j b"
  shows "bus_inv (fst (abort j oc b))"
proof (cases "map_of (ab_jobs b) j")
  case None
  with assms(1) show ?thesis by (simp add: abort_def)
next
  case (Some e)
  note wf = jobs_okD [OF net_okD(1) [OF assms(1) [unfolded bus_ok_def]] Some]
  show ?thesis
  proof (cases "terminal (je_status e)")
    case True
    with assms(1) Some show ?thesis by (simp add: abort_def)
  next
    case live: False
    show ?thesis
    proof (cases "je_task e")
      case None
      then have q: "je_status e = Queued"
        using wf live by (auto simp: job_wf_def split: job_status.splits)
      with None abort_queued_ok [OF assms(1,2) Some q] Some show ?thesis
        by (simp add: abort_def Let_def)
    next
      case t: (Some t)
      then have nq: "je_status e \<noteq> Queued" using wf by (auto simp: job_wf_def)
      consider (wait) "t = TaskWaiting PlainRun" | (run) c where "t = TaskRunning c"
        using t wf live assms(3) Some
        by (cases t) (auto simp: job_wf_def waits_in_session_def split: job_status.splits run_closure.splits)
      then show ?thesis
      proof cases
        case wait
        then have "je_status e = Submitted" "je_result e = None"
          using wf t by (auto simp: job_wf_def split: job_status.splits)
        with wait abort_waiting_plain_ok [OF assms(1) Some] t Some nq live wf show ?thesis
          by (simp add: abort_def Let_def cancel_and_await_def set_task_frames(1))
      next
        case (run c)
        let ?b1 = "finish_job j oc b"
        obtain r where e1: "map_of (ab_jobs ?b1) j = Some (ended e r)"
          using finish_job_terminal [OF assms(1) Some] t run by blast
        have ok: "bus_inv ?b1" using finish_job_ok [OF assms(1)] .
        have "mark_job_aborted j ?b1 = ?b1"
          using release_unbooked [OF ok e1 ended_wf(3)] e1 ended_wf(3) [of e r]
          by (simp add: mark_job_aborted_def Let_def)
        then show ?thesis
          using run t Some nq live ok e1 put_terminal_ok [OF ok e1 ended_wf(3), of Completed]
          by (simp add: abort_def Let_def cancel_and_await_def split: option.splits)
      qed
    qed
  qed
qed

section \<open>Delivering\<close>

lemma bus_ok_frame:
  "bus_ok ex b \<Longrightarrow> bus_ok ex (b\<lparr>ab_delivered_jobs := x\<rparr>)"
  "bus_ok ex b \<Longrightarrow> bus_ok ex (b\<lparr>ab_task_aggregates := y\<rparr>)"
  by (simp_all add: bus_ok_def)

lemma find_map_of:
  assumes "distinct (map fst xs)" and "List.find P xs = Some (k, v)"
  shows "map_of xs k = Some v"
proof -
  from assms(2) have "(k, v) \<in> set xs" by (auto simp: find_Some_iff in_set_conv_nth)
  then show ?thesis using assms(1) by simp
qed

lemma pop_ready_result_ok:
  assumes "bus_inv b" and "distinct (map fst (ab_sessions b))"
  shows "bus_inv (fst (pop_ready_result task_id b))"
proof (cases "pop_ready_session task_id (ab_sessions b)")
  case None
  with assms show ?thesis by (simp add: pop_ready_result_def)
next
  case (Some x)
  obtain sid s where x: "x = (sid, s)" by fastforce
  have s: "map_of (ab_sessions b) sid = Some s"
    using Some find_map_of [OF assms(2)] by (simp add: pop_ready_session_def x)
  have "bus_inv (put_session sid (s\<lparr>ss_pending_results := rs\<rparr>) b)" for rs
    using net_session_change [OF assms(1) [unfolded bus_ok_def] s, of "s\<lparr>ss_pending_results := rs\<rparr>"] s
    by (simp add: bus_ok_def)
  then show ?thesis using Some x assms(1)
    by (auto simp: pop_ready_result_def mark_delivered_def bus_ok_frame split: list.splits)
qed

section \<open>The session table has one entry per id\<close>

abbreviation sessions_distinct :: "AgentBus \<Rightarrow> bool" where
  "sessions_distinct b \<equiv> distinct (map fst (ab_sessions b))"

lemma sessions_distinct_writes [simp]:
  "sessions_distinct b \<Longrightarrow> sessions_distinct (put_session sid s b)"
  "ab_sessions (set_task j t b) = ab_sessions b"
  "ab_sessions (mark_job_aborted j b) = ab_sessions b"
  "ab_sessions (mark_delivered tid j b) = ab_sessions b"
  by (auto simp: put_session_def distinct_keys_update set_task_def mark_job_aborted_def
      mark_delivered_def Let_def split: option.splits)

lemma sessions_distinct_dispatch: "sessions_distinct b \<Longrightarrow> sessions_distinct (dispatch_session_task sid p b)"
  by (auto simp: dispatch_session_task_def Let_def split: option.splits prod.splits)

lemma sessions_distinct_submit:
  "sessions_distinct b \<Longrightarrow> sessions_distinct (fst (submit gp t i d md est b))"
  "sessions_distinct b \<Longrightarrow> sessions_distinct (fst (submit_task_to_session sid pr est ctx tm b))"
  "sessions_distinct b \<Longrightarrow> sessions_distinct (fst (create_session gps t n rid sp tr b))"
proof -
  assume a: "sessions_distinct b"
  then show "sessions_distinct (fst (submit gp t i d md est b))"
    by (auto simp: submit_def next_job_id_def Let_def split: option.splits sum.splits list.splits)
  from a have "sessions_distinct (queue_or_dispatch sid p (b\<lparr>ab_counter := c\<rparr>))"
    and "sessions_distinct (queue_or_dispatch sid p (b\<lparr>ab_counter := c, ab_spawn_guard := g\<rparr>))" for p c g
    by (auto simp: queue_or_dispatch_def sessions_distinct_dispatch split: option.splits)
  with a show "sessions_distinct (fst (submit_task_to_session sid pr est ctx tm b))"
    by (auto simp: submit_task_to_session_def next_job_id_def Let_def split: option.splits sum.splits)
  from a show "sessions_distinct (fst (create_session gps t n rid sp tr b))"
    by (auto simp: create_session_def Let_def distinct_keys_update split: option.splits)
qed

lemma sessions_distinct_drain: "sessions_distinct b \<Longrightarrow> sessions_distinct (drain_session_queue sid b)"
proof -
  have "sessions_distinct b \<Longrightarrow> sessions_distinct (drain_loop sid ps b)" for ps
    by (induction ps arbitrary: b)
       (auto simp: Let_def set_pending_tasks_def sessions_distinct_dispatch split: option.splits)
  then show "sessions_distinct b \<Longrightarrow> ?thesis" by (simp add: drain_session_queue_def split: option.splits)
qed

lemma sessions_distinct_finish: "sessions_distinct b \<Longrightarrow> sessions_distinct (finish_job j oc b)"
proof -
  assume "sessions_distinct b"
  then have "sessions_distinct (finish_record j oc b)"
    by (auto simp: finish_record_def Let_def split: option.splits async_task.splits run_closure.splits
        prod.splits)
  then have "sessions_distinct (finish_trim sid (finish_release sid j (set_task j TaskDone (finish_record j oc b))))"
    for sid
    by (auto simp: finish_trim_def finish_release_def clear_current_def split: option.splits)
  with \<open>sessions_distinct (finish_record j oc b)\<close> \<open>sessions_distinct b\<close> show ?thesis
    by (auto simp: finish_job_def sessions_distinct_drain
        split: option.splits async_task.splits run_closure.splits)
qed

lemma purge_sessions_keys: "map fst (fst (purge_sessions j ss)) = map fst ss"
  by (induction j ss rule: purge_sessions.induct) (auto split: prod.splits)

lemma sessions_distinct_abort: "sessions_distinct b \<Longrightarrow> sessions_distinct (fst (abort j oc b))"
proof -
  assume a: "sessions_distinct b"
  have 1: "sessions_distinct (purge_queued_job j b)"
    using a purge_sessions_keys [of j "ab_sessions b"]
    by (auto simp: purge_queued_job_def Let_def split: prod.splits)
  have 2: "sessions_distinct (cancel_and_await j oc b)"
    using a by (auto simp: cancel_and_await_def sessions_distinct_finish
        split: option.splits async_task.splits)
  show ?thesis using a 1 2 by (auto simp: abort_def Let_def split: option.splits)
qed

lemma sessions_distinct_pop: "sessions_distinct b \<Longrightarrow> sessions_distinct (fst (pop_ready_result t b))"
  by (auto simp: pop_ready_result_def split: option.splits list.splits)

section \<open>The bus as a transition system\<close>

text \<open>
  One step is one atomic stretch.  Estimates are non-negative, and a session task is not
  cancelled while it still waits for its slot.
\<close>

inductive bus_step :: "AgentBus \<Rightarrow> AgentBus \<Rightarrow> bool" where
  create: "bus_step b (fst (create_session gp t n rid sp tr b))"
| submit: "0 \<le> est \<Longrightarrow> bus_step b (fst (submit gps t i d md est b))"
| submit_task: "0 \<le> est \<Longrightarrow> bus_step b (fst (submit_task_to_session sid pr est ctx tm b))"
| start: "start_job j b = Some b' \<Longrightarrow> bus_step b b'"
| finish: "bus_step b (finish_job j oc b)"
| abort: "\<not> waits_in_session j b \<Longrightarrow> bus_step b (fst (abort j oc b))"
| deliver: "bus_step b (fst (pop_ready_result t b))"
| accumulate: "bus_step b (accumulate_task_metadata t pl b)"
| drain: "bus_step b (fst (drain_task_metadata t b))"

definition fresh_bus :: "AgentBus \<Rightarrow> bool" where
  "fresh_bus b = (b = empty_bus None \<or> (\<exists>bg t. b = empty_bus (Some (init_SpawnGuard bg t))))"

lemma fresh_bus_inv: "fresh_bus b \<Longrightarrow> bus_inv b \<and> sessions_distinct b"
proof -
  have "sg_active (init_SpawnGuard bg t) = []" for bg t by (simp add: init_SpawnGuard_def Let_def)
  then show "fresh_bus b \<Longrightarrow> ?thesis"
    by (auto simp: fresh_bus_def empty_bus_def bus_ok_def net_ok_def jobs_ok_def links_ok_def
        queues_ok_def guard_ok_def guard_inv_init booked_def)
qed

lemma start_job_sessions: "start_job j b = Some b' \<Longrightarrow> ab_sessions b' = ab_sessions b"
  by (auto simp: start_job_def Let_def split: option.splits async_task.splits)

lemma metadata_frames:
  "bus_ok ex (accumulate_task_metadata t pl b) = bus_ok ex b"
  "bus_ok ex (fst (drain_task_metadata t b)) = bus_ok ex b"
  "ab_sessions (accumulate_task_metadata t pl b) = ab_sessions b"
  "ab_sessions (fst (drain_task_metadata t b)) = ab_sessions b"
  by (simp_all add: accumulate_task_metadata_def drain_task_metadata_def Let_def bus_ok_def)

lemma bus_step_inv:
  assumes "bus_step b b'" and "bus_inv b \<and> sessions_distinct b"
  shows "bus_inv b' \<and> sessions_distinct b'"
  using assms
proof (induction rule: bus_step.induct)
  case (start j b b')
  then show ?case using start_job_ok start_job_sessions by metis
qed (simp_all add: create_session_ok submit_ok submit_task_to_session_ok finish_job_ok abort_ok
      pop_ready_result_ok metadata_frames sessions_distinct_submit sessions_distinct_finish
      sessions_distinct_abort sessions_distinct_pop)

interpretation bussys: invariant_system fresh_bus bus_step "\<lambda>b. bus_inv b \<and> sessions_distinct b"
  by unfold_locales (use fresh_bus_inv bus_step_inv in blast)+

lemma reachable_bus: "fresh_bus b0 \<Longrightarrow> rtranclp bus_step b0 b \<Longrightarrow> bus_inv b"
  using bussys.reachable_inv by blast

section \<open>Counting\<close>

definition running_jobs :: "AgentBus \<Rightarrow> string set" where
  "running_jobs b = {j. get_job_status j b = Some Running}"

lemma slots_held_card:
  assumes "distinct (map fst act)"
  shows "slots_held act = card {k. \<exists>r. map_of act k = Some r \<and> res_acquired r}"
proof -
  have "{k. \<exists>r. map_of act k = Some r \<and> res_acquired r} = fst ` set (filter (\<lambda>(k, r). res_acquired r) act)"
    using assms by (force dest: map_of_SomeD)
  moreover have "distinct (map fst (filter (\<lambda>(k, r). res_acquired r) act))"
    using assms by (rule distinct_map_filter)
  ultimately show ?thesis
    by (metis distinct_card length_map list.set_map slots_held_def)
qed

lemma running_jobs_slots:
  assumes "bus_inv b" and "ab_spawn_guard b = Some g"
  shows "card (running_jobs b) = slots_held (sg_active g)"
proof -
  have g: "guard_ok (map_of (ab_jobs b)) (Some g)"
    using net_okD(4) [OF assms(1) [unfolded bus_ok_def]] assms(2) by simp
  have "j \<in> running_jobs b \<longleftrightarrow> (\<exists>r. map_of (sg_active g) j = Some r \<and> res_acquired r)" for j
    using guard_ok_booked [OF g, of j]
    by (auto simp: running_jobs_def get_job_status_def booked_def split: option.splits)
  then have "running_jobs b = {k. \<exists>r. map_of (sg_active g) k = Some r \<and> res_acquired r}" by blast
  with slots_held_card [of "sg_active g"] g show ?thesis by (simp add: guard_ok_def guard_inv_def)
qed

lemma all_settled_active:
  assumes "bus_inv b" and "ab_spawn_guard b = Some g"
    and "\<forall>j e. map_of (ab_jobs b) j = Some e \<longrightarrow> terminal (je_status e)"
  shows "sg_active g = []"
proof -
  have g: "guard_ok (map_of (ab_jobs b)) (Some g)"
    using net_okD(4) [OF assms(1) [unfolded bus_ok_def]] assms(2) by simp
  have "map_of (sg_active g) j = None" for j
    using guard_ok_booked [OF g, of j] assms(3) by (auto simp: booked_def split: option.splits)
  then have "fst ` set (sg_active g) = {}" by (metis equals0I map_of_eq_None_iff)
  then show ?thesis by simp
qed

section \<open>Properties\<close>




lemma purge_queued_jobs [simp]: "ab_jobs (purge_queued_job j b) = ab_jobs b"
  by (simp add: purge_queued_job_def Let_def split: prod.splits)

lemma abort_reports:
  "map_of (ab_jobs b) j = Some e \<Longrightarrow> \<not> terminal (je_status e) \<Longrightarrow>
     snd (abort j oc b) = get_job_status j (fst (abort j oc b))"
  by (simp add: abort_def Let_def)

lemma mark_job_aborted_status:
  assumes "map_of (ab_jobs b) j = Some e" and "je_job_id e = j"
  shows "\<exists>st. terminal st \<and> get_job_status j (mark_job_aborted j b) = Some st"
proof (cases "terminal (je_status e)")
  case True
  with assms show ?thesis by (simp add: mark_job_aborted_def Let_def get_job_status_def)
next
  case False
  with mark_job_aborted_effect(1) [OF assms False] show ?thesis
    by (auto simp: get_job_status_def)
qed

lemma abort_live_status:
  assumes "bus_inv b" and "map_of (ab_jobs b) j = Some e" and "\<not> terminal (je_status e)"
  shows "\<exists>st. terminal st \<and> get_job_status j (fst (abort j oc b)) = Some st"
proof -
  note wf = jobs_okD [OF net_okD(1) [OF assms(1) [unfolded bus_ok_def]] assms(2)]
  consider (queued) "je_task e = None" "je_status e = Queued"
    | (wait) c where "je_task e = Some (TaskWaiting c)" "je_status e = Submitted" "je_result e = None"
    | (run) c where "je_task e = Some (TaskRunning c)" "je_status e = Running"
    using wf assms(3) by (cases "je_status e") (auto simp: job_wf_def)
  then show ?thesis
  proof cases
    case queued
    then have "fst (abort j oc b) = mark_job_aborted j (purge_queued_job j b)"
      using assms(2) by (simp add: abort_def Let_def)
    with mark_job_aborted_status [of "purge_queued_job j b" j e] assms(2) wf show ?thesis by simp
  next
    case wait
    let ?b1 = "set_task j TaskCancelled b" and ?e1 = "e\<lparr>je_task := Some TaskCancelled\<rparr>"
    have e1: "map_of (ab_jobs ?b1) j = Some ?e1" using assms(2) wf by (simp add: set_task_frames(1))
    with wait assms(2) have "fst (abort j oc b) = mark_job_aborted j ?b1"
      by (simp add: abort_def Let_def cancel_and_await_def)
    with mark_job_aborted_status [OF e1] wf show ?thesis by simp
  next
    case run
    let ?b1 = "finish_job j oc b"
    obtain r where e1: "map_of (ab_jobs ?b1) j = Some (ended e r)"
      using finish_job_terminal [OF assms(1,2)] run by blast
    have res: "je_result (ended e r) = Some r" "je_job_id (ended e r) = j"
      using wf by (simp_all add: ended_def)
    have "fst (abort j oc b) = (if ar_success r then put_job (ended e r\<lparr>je_status := Completed\<rparr>) ?b1
        else if je_status (ended e r) \<notin> {Completed, Failed} then mark_job_aborted j ?b1 else ?b1)"
      using run e1 res assms(2) by (simp add: abort_def Let_def cancel_and_await_def)
    moreover have "get_job_status j (put_job (ended e r\<lparr>je_status := Completed\<rparr>) ?b1) = Some Completed"
      using res(2) by (simp add: get_job_status_def)
    moreover have "get_job_status j ?b1 = Some (je_status (ended e r))"
      using e1 by (simp add: get_job_status_def)
    ultimately show ?thesis
      using mark_job_aborted_status [OF e1 res(2)] ended_wf(3) [of e r] by (auto split: if_splits)
  qed
qed

text \<open>
  An abort always settles the job.  Whatever a known job was doing and however its cancelled
  run ends, \<open>abort\<close> leaves it in a terminal state, and that state is what it returns; a job that
  had already ended is left alone.
\<close>

theorem abort_settles:
  assumes "bus_inv b" and "map_of (ab_jobs b) j = Some e"
  shows "\<exists>st. terminal st \<and> snd (abort j oc b) = Some st \<and> get_job_status j (fst (abort j oc b)) = Some st
    \<and> (terminal (je_status e) \<longrightarrow> abort j oc b = (b, Some (je_status e)))"
proof (cases "terminal (je_status e)")
  case True
  with assms(2) show ?thesis by (simp add: abort_def get_job_status_def)
next
  case False
  with abort_live_status [OF assms False] abort_reports [OF assms(2) False] show ?thesis by metis
qed

lemma drain_effect:
  assumes "bus_ok (Some sid) b" and "map_of (ab_sessions b) sid = Some s"
  shows "\<exists>s'. map_of (ab_sessions (drain_session_queue sid b)) sid = Some s'
    \<and> ss_pending_tasks s' = tl (ss_pending_tasks s)
    \<and> ss_current_job_id s' =
        (case ss_pending_tasks s of [] \<Rightarrow> ss_current_job_id s | p # ps \<Rightarrow> Some (pt_job_id p))
    \<and> (\<forall>p ps. ss_pending_tasks s = p # ps \<longrightarrow>
         get_job_status (pt_job_id p) (drain_session_queue sid b) = Some Submitted)"
proof (cases "ss_pending_tasks s")
  case Nil
  then show ?thesis using assms(2) by (simp add: drain_session_queue_def)
next
  case (Cons p ps)
  note D = net_okD [OF assms(1) [unfolded bus_ok_def]]
  let ?b = "set_pending_tasks sid ps b"
  have b: "ab_jobs ?b = ab_jobs b"
    "map_of (ab_sessions ?b) sid = Some (s\<lparr>ss_pending_tasks := ps\<rparr>)"
    using assms(2) by (simp_all add: set_pending_tasks_def)
  obtain q where q: "map_of (ab_jobs b) (pt_job_id p) = Some q" "je_status q = Queued"
    using queuesD(2) [OF D(3) assms(2), of "pt_job_id p"] Cons by (auto simp: queued_ids_def)
  have id: "je_job_id q = pt_job_id p" using jobs_okD [OF D(1) q(1)] by simp
  have dr: "drain_session_queue sid b = dispatch_session_task sid p ?b"
    using assms(2) Cons q b by (simp add: drain_session_queue_def Let_def get_job_status_def)
  show ?thesis unfolding dr
    using b q id Cons
    by (simp add: dispatch_session_task_def open_task_def Let_def get_job_status_def)
qed

text \<open>
  The queue of a session is first-in first-out.  When the current task of a session ends,
  in whatever way, the oldest queued task becomes the current one, in state submitted, and the
  rest of the queue keeps its order; without a queued task the session is free.
\<close>

theorem finish_hands_over:
  assumes "bus_inv b" and "map_of (ab_jobs b) j = Some e"
    and "je_task e = Some (TaskRunning (SessionRun sid n md))"
    and "map_of (ab_sessions b) sid = Some s"
  shows "\<exists>s'. map_of (ab_sessions (finish_job j oc b)) sid = Some s'
    \<and> ss_pending_tasks s' = tl (ss_pending_tasks s)
    \<and> ss_current_job_id s' = (case ss_pending_tasks s of [] \<Rightarrow> None | p # ps \<Rightarrow> Some (pt_job_id p))
    \<and> (\<forall>p ps. ss_pending_tasks s = p # ps \<longrightarrow>
         get_job_status (pt_job_id p) (finish_job j oc b) = Some Submitted)"
proof -
  note D = net_okD [OF assms(1) [unfolded bus_ok_def]]
  have "serves e sid" using assms(3) by (simp add: serves_def)
  then have cur: "ss_current_job_id s = Some j"
    using D(2) assms(2,4) unfolding links_ok_def by fastforce
  then have "history_open s" using D(5) [OF assms(4)] by (simp add: session_ok_def)
  from before_drain_effect [OF assms(2) _ assms(3,4) cur this, of oc] jobs_okD [OF D(1) assms(2)]
  obtain s1 where s1: "map_of (ab_sessions (before_drain sid j oc b)) sid = Some s1"
    "ss_current_job_id s1 = None" "ss_pending_tasks s1 = ss_pending_tasks s" by fastforce
  have "bus_ok (Some sid) (before_drain sid j oc b)" using before_drain_ok [OF assms(1-3)] by blast
  from drain_effect [OF this s1(1), unfolded s1(2,3)] show ?thesis
    unfolding finish_session_unfold [OF assms(2,3)] .
qed

end
