(* ===== verification/Bus_Runs.thy ===== *)
theory Bus_Runs
  imports Bus_System
begin

text \<open>
  Two schedules in which the bus does not keep its session invariant, and a concrete bus on
  which the properties of \<open>Bus_System\<close> and these schedules are run.
\<close>

section \<open>A concrete bus\<close>

definition ex_fresh :: AgentBus where
  "ex_fresh = empty_bus (Some (init_SpawnGuard (Some (default_TaskBudget\<lparr>tb_max_depth := 2\<rparr>)) None))"

definition ex_session :: AgentBus where
  "ex_session = fst (create_session None ''t'' ''n'' ''r'' (Some ''sys'') (Some TaskBoundaryTrimmer) ex_fresh)"

definition ex_waiting :: AgentBus where
  "ex_waiting = fst (submit_task_to_session ''t::n'' ''hello'' 10 None [] ex_session)"

definition ex_running :: AgentBus where
  "ex_running = the (start_job ''t.job.1'' ex_waiting)"

definition ex_queued :: AgentBus where
  "ex_queued = fst (submit_task_to_session ''t::n'' ''again'' 5 None [] ex_running)"

lemma ex_states:
  "fresh_bus ex_fresh" "rtranclp bus_step ex_fresh ex_session" "rtranclp bus_step ex_fresh ex_waiting"
  "rtranclp bus_step ex_fresh ex_running" "rtranclp bus_step ex_fresh ex_queued"
proof -
  show 0: "fresh_bus ex_fresh" by (auto simp: ex_fresh_def fresh_bus_def)
  have "bus_step ex_fresh ex_session" unfolding ex_session_def by (rule bus_step.create)
  then show 1: "rtranclp bus_step ex_fresh ex_session" by blast
  have "bus_step ex_session ex_waiting" unfolding ex_waiting_def by (rule bus_step.submit_task) simp
  with 1 show 2: "rtranclp bus_step ex_fresh ex_waiting" by (rule rtranclp.rtrancl_into_rtrancl)
  have "start_job ''t.job.1'' ex_waiting \<noteq> None" by code_simp
  then have "bus_step ex_waiting ex_running"
    unfolding ex_running_def by (intro bus_step.start [of "''t.job.1''"]) auto
  with 2 show 3: "rtranclp bus_step ex_fresh ex_running" by (rule rtranclp.rtrancl_into_rtrancl)
  have "bus_step ex_running ex_queued" unfolding ex_queued_def by (rule bus_step.submit_task) simp
  with 3 show 4: "rtranclp bus_step ex_fresh ex_queued" by (rule rtranclp.rtrancl_into_rtrancl)
qed




theorem abort_settles_witness:
  "snd (abort ''t.job.2'' (RunRaised CancelledError None) ex_queued) = Some Aborted
   \<and> get_job_status ''t.job.2'' (fst (abort ''t.job.2'' (RunRaised CancelledError None) ex_queued)) = Some Aborted"
proof -
  have inv: "bus_inv ex_queued" using reachable_bus [OF ex_states(1,5)] .
  have "map_of (ab_jobs ex_queued) ''t.job.2'' \<noteq> None" by code_simp
  then obtain e where "map_of (ab_jobs ex_queued) ''t.job.2'' = Some e" by blast
  from abort_settles [OF inv this, of "RunRaised CancelledError None"]
  have "snd (abort ''t.job.2'' (RunRaised CancelledError None) ex_queued) =
      get_job_status ''t.job.2'' (fst (abort ''t.job.2'' (RunRaised CancelledError None) ex_queued))"
    by auto
  moreover have "snd (abort ''t.job.2'' (RunRaised CancelledError None) ex_queued) = Some Aborted"
    by code_simp
  ultimately show ?thesis by simp
qed

theorem finish_hands_over_witness:
  "\<exists>s'. map_of (ab_sessions (finish_job ''t.job.1'' (RunRaised TimeoutError None) ex_queued)) ''t::n'' = Some s'
     \<and> ss_current_job_id s' = Some ''t.job.2''"
proof -
  have inv: "bus_inv ex_queued" using reachable_bus [OF ex_states(1,5)] .
  have "map_option je_task (map_of (ab_jobs ex_queued) ''t.job.1'') =
      Some (Some (TaskRunning (SessionRun ''t::n'' 2 [])))" by code_simp
  then obtain e where e: "map_of (ab_jobs ex_queued) ''t.job.1'' = Some e"
    "je_task e = Some (TaskRunning (SessionRun ''t::n'' 2 []))" by auto
  have "map_option queued_ids (map_of (ab_sessions ex_queued) ''t::n'') = Some [''t.job.2'']" by code_simp
  then obtain s where s: "map_of (ab_sessions ex_queued) ''t::n'' = Some s" "queued_ids s = [''t.job.2'']"
    by auto
  then obtain p where "ss_pending_tasks s = [p]" "pt_job_id p = ''t.job.2''"
    by (auto simp: queued_ids_def)
  with finish_hands_over [OF inv e s(1), of "RunRaised TimeoutError None"] show ?thesis by auto
qed

section \<open>Cancelling a session task that waits for its slot\<close>

lemma abort_waiting_effect:
  assumes "map_of (ab_jobs b) j = Some e" and "je_job_id e = j" and "job_wf e"
    and "je_task e = Some (TaskWaiting c)"
  shows "ab_sessions (fst (abort j oc b)) = ab_sessions b"
    and "get_job_status j (fst (abort j oc b)) = Some Aborted"
proof -
  have st: "je_status e = Submitted" "je_result e = None"
    using assms(3,4) by (auto simp: job_wf_def split: job_status.splits)
  let ?b1 = "set_task j TaskCancelled b" and ?e1 = "e\<lparr>je_task := Some TaskCancelled\<rparr>"
  have j1: "map_of (ab_jobs ?b1) j = Some ?e1" using assms(1,2) by (simp add: set_task_frames(1))
  then have a: "fst (abort j oc b) = mark_job_aborted j ?b1"
    using assms st by (simp add: abort_def Let_def cancel_and_await_def)
  show "ab_sessions (fst (abort j oc b)) = ab_sessions b" by (simp add: a set_task_frames)
  show "get_job_status j (fst (abort j oc b)) = Some Aborted"
    using mark_job_aborted_effect(1) [OF j1] assms(2) st by (auto simp: a get_job_status_def)
qed

lemma submit_idle_appends:
  assumes "map_of (ab_sessions b) sid = Some s" and "\<not> session_busy s b"
    and "snd (submit_task_to_session sid pr est ctx md b) = Inr j"
  shows "\<exists>s'. map_of (ab_sessions (fst (submit_task_to_session sid pr est ctx md b))) sid = Some s'
    \<and> ss_task_boundaries s' = ss_task_boundaries s @ [(int (length (ss_messages s)), None)]"
proof -
  have q: "\<exists>s'. map_of (ab_sessions (queue_or_dispatch sid p b1)) sid = Some s'
    \<and> ss_task_boundaries s' = ss_task_boundaries s @ [(int (length (ss_messages s)), None)]"
    if "ab_sessions b1 = ab_sessions b" "ab_jobs b1 = ab_jobs b" for p b1
  proof -
    have "\<not> session_busy s b1" using assms(2) that(2) by (simp add: session_busy_def cong: option.case_cong)
    then show ?thesis using assms(1) that(1)
      by (simp add: queue_or_dispatch_def dispatch_session_task_def open_task_def Let_def)
  qed
  show ?thesis using assms(1,3) q
    by (auto simp: submit_task_to_session_def next_job_id_def Let_def split: option.splits sum.splits)
qed

text \<open>
  C39: aborting a session task that is still waiting for its concurrency slot leaves its boundary
  open.  The job is marked aborted but the session's history is not closed, so the next task of
  the session is dispatched at once and the history then has two open boundaries, which no
  reachable state of the other operations has.
\<close>

theorem abort_waiting_leaves_boundary_open:
  assumes "bus_inv b" and "map_of (ab_jobs b) j = Some e"
    and "je_task e = Some (TaskWaiting (SessionRun sid n md))"
    and "snd (submit_task_to_session sid pr est ctx md' (fst (abort j oc b))) = Inr j'"
  shows "get_job_status j (fst (abort j oc b)) = Some Aborted
    \<and> (\<exists>s bs x y. map_of (ab_sessions
             (fst (submit_task_to_session sid pr est ctx md' (fst (abort j oc b))))) sid = Some s
         \<and> ss_task_boundaries s = bs @ [(x, None), (y, None)])"
proof -
  note D = net_okD [OF assms(1) [unfolded bus_ok_def]]
  have sv: "serves e sid" using assms(3) by (simp add: serves_def)
  then obtain s where s: "map_of (ab_sessions b) sid = Some s" "ss_current_job_id s = Some j"
    using D(2) assms(2) unfolding links_ok_def by blast
  have "history_open s" using D(5) [OF s(1)] s(2) by (simp add: session_ok_def)
  then obtain bs x where bs: "ss_task_boundaries s = bs @ [(x, None)]" using history_open_split by blast
  let ?b = "fst (abort j oc b)"
  have eff: "ab_sessions ?b = ab_sessions b" "get_job_status j ?b = Some Aborted"
    using abort_waiting_effect [OF assms(2) _ _ assms(3)] jobs_okD [OF D(1) assms(2)] by simp_all
  have "\<not> session_busy s ?b"
    using eff(2) s(2) by (auto simp: session_busy_def get_job_status_def split: option.splits)
  from submit_idle_appends [OF _ this assms(4)] s(1) eff bs show ?thesis by auto
qed

theorem abort_waiting_leaves_boundary_open_witness:
  "\<exists>s bs x y. map_of (ab_sessions (fst (submit_task_to_session ''t::n'' ''next'' 5 None []
        (fst (abort ''t.job.1'' (RunRaised CancelledError None) ex_waiting))))) ''t::n'' = Some s
     \<and> ss_task_boundaries s = bs @ [(x, None), (y, None)]"
proof -
  have inv: "bus_inv ex_waiting" using reachable_bus [OF ex_states(1,3)] .
  have t: "map_option je_task (map_of (ab_jobs ex_waiting) ''t.job.1'') =
      Some (Some (TaskWaiting (SessionRun ''t::n'' 2 [])))" by code_simp
  then obtain e where e: "map_of (ab_jobs ex_waiting) ''t.job.1'' = Some e"
    "je_task e = Some (TaskWaiting (SessionRun ''t::n'' 2 []))" by auto
  have "snd (submit_task_to_session ''t::n'' ''next'' 5 None []
      (fst (abort ''t.job.1'' (RunRaised CancelledError None) ex_waiting))) = Inr ''t.job.2''"
    by code_simp
  from abort_waiting_leaves_boundary_open [OF inv e this] show ?thesis by blast
qed

section \<open>Submitting while a finished task is announced\<close>

definition live_on :: "string \<Rightarrow> string \<Rightarrow> AgentBus \<Rightarrow> bool" where
  "live_on sid j b =
     (case Option.bind (map_of (ab_jobs b) j) je_task of
        Some (TaskWaiting (SessionRun sid' n md)) \<Rightarrow> sid' = sid
      | Some (TaskRunning (SessionRun sid' n md)) \<Rightarrow> sid' = sid
      | _ \<Rightarrow> False)"

lemma live_on_serves: "live_on sid j b \<longleftrightarrow> (\<exists>e. map_of (ab_jobs b) j = Some e \<and> serves e sid)"
  by (auto simp: live_on_def serves_def bind_eq_Some_conv
      split: option.splits async_task.splits run_closure.splits)


end
