(* ===== verification/Mini_DAG.thy ===== *)
theory Mini_DAG
  imports Prelude
begin

text \<open>
  The DAG engine of \<^verbatim>\<open>agent_core/runtime/dag/minidag.py\<close>: the builder, the structural validation
  with its breadth-first reachability, and the runner.  Node functions, conditions and reducers
  are functions of the graph that may raise; the checkpointer, which the host supplies, is a
  record of functions over a store of its own.  Node functions do not write to the state they
  are given.
\<close>

type_synonym dag_state = "pyval pydict"

datatype dag_exc =
    TypeOrValueError
  | KeyError string
  | OtherError string

type_synonym node_fn = "dag_state \<Rightarrow> dag_exc + dag_state option"
type_synonym condition_fn = "dag_state \<Rightarrow> dag_exc + string"
type_synonym reducer = "pyval \<Rightarrow> pyval \<Rightarrow> dag_exc + pyval"

record MiniDAG =
  md_nodes :: "node_fn pydict"
  md_edges :: "string option pydict"
  md_conditional_edges :: "(condition_fn \<times> string option pydict) pydict"
  md_entry_point :: string
  md_reducers :: "reducer pydict"

definition new_dag :: MiniDAG where
  "new_dag = \<lparr>md_nodes = [], md_edges = [], md_conditional_edges = [], md_entry_point = [],
              md_reducers = []\<rparr>"

definition add_node :: "string \<Rightarrow> node_fn \<Rightarrow> MiniDAG \<Rightarrow> MiniDAG" where
  "add_node name f d = d\<lparr>md_nodes := AList.update name f (md_nodes d)\<rparr>"

definition add_edge :: "string \<Rightarrow> string option \<Rightarrow> MiniDAG \<Rightarrow> MiniDAG" where
  "add_edge from_node to_node d = d\<lparr>md_edges := AList.update from_node to_node (md_edges d)\<rparr>"

definition add_conditional_edges ::
  "string \<Rightarrow> condition_fn \<Rightarrow> string option pydict \<Rightarrow> MiniDAG \<Rightarrow> MiniDAG" where
  "add_conditional_edges from_node condition route_map d =
     d\<lparr>md_conditional_edges := AList.update from_node (condition, route_map) (md_conditional_edges d)\<rparr>"

definition set_entry_point :: "string \<Rightarrow> MiniDAG \<Rightarrow> MiniDAG" where
  "set_entry_point name d = d\<lparr>md_entry_point := name\<rparr>"

definition set_reducers :: "reducer pydict \<Rightarrow> MiniDAG \<Rightarrow> MiniDAG" where
  "set_reducers rs d = d\<lparr>md_reducers := rs\<rparr>"

section \<open>Validation\<close>

datatype dag_error =
    NoEntryPoint
  | EntryPointMissing string
  | EdgeFromUnknown string
  | EdgeToUnknown string
  | ConditionalFromUnknown string
  | RouteToUnknown string
  | BothEdgeKinds string
  | Unreachable string

definition has_node :: "MiniDAG \<Rightarrow> string \<Rightarrow> bool" where
  "has_node d n = (map_of (md_nodes d) n \<noteq> None)"

text \<open>The targets queued for a node: the static edge, then the routes in table order.\<close>

definition static_targets :: "MiniDAG \<Rightarrow> string \<Rightarrow> string list" where
  "static_targets d n = (case map_of (md_edges d) n of Some (Some t) \<Rightarrow> [t] | _ \<Rightarrow> [])"

definition route_targets :: "string option pydict \<Rightarrow> string list" where
  "route_targets rm = List.map_filter snd rm"

definition targets :: "MiniDAG \<Rightarrow> string \<Rightarrow> string list" where
  "targets d n = static_targets d n @
     (case map_of (md_conditional_edges d) n of
        None \<Rightarrow> [] | Some (c, rm) \<Rightarrow> route_targets rm)"

definition all_targets :: "MiniDAG \<Rightarrow> string set" where
  "all_targets d = set (List.map_filter snd (md_edges d))
     \<union> (\<Union>(n, c, rm) \<in> set (md_conditional_edges d). set (route_targets rm))"

lemma set_map_filter_snd: "set (List.map_filter snd xs) = {t. \<exists>k. (k, Some t) \<in> set xs}"
  by (force simp: List.map_filter_def)

lemma set_route_targets: "set (route_targets rm) = {t. \<exists>k. (k, Some t) \<in> set rm}"
  by (simp add: route_targets_def set_map_filter_snd)

lemma targets_cases:
  assumes "t \<in> set (targets d n)"
  obtains (static) "map_of (md_edges d) n = Some (Some t)"
    | (route) c rm where "map_of (md_conditional_edges d) n = Some (c, rm)" "t \<in> set (route_targets rm)"
  using assms
  by (cases "map_of (md_conditional_edges d) n")
     (auto simp: targets_def static_targets_def split: option.splits)

lemma targets_subset: "set (targets d n) \<subseteq> all_targets d"
proof
  fix t assume "t \<in> set (targets d n)"
  then show "t \<in> all_targets d"
  proof (cases rule: targets_cases)
    case static
    then show ?thesis by (auto simp: all_targets_def set_map_filter_snd dest: map_of_SomeD)
  next
    case (route c rm)
    then have "(n, c, rm) \<in> set (md_conditional_edges d)" by (simp add: map_of_SomeD)
    with route(2) show ?thesis unfolding all_targets_def by blast
  qed
qed

lemma finite_all_targets [simp]: "finite (all_targets d)"
  by (auto simp: all_targets_def)

text \<open>The loop of \<open>_reachable_from\<close>; the visited set is kept as the list of visits.\<close>

function bfs :: "MiniDAG \<Rightarrow> string list \<Rightarrow> string list \<Rightarrow> string list" where
  "bfs d visited [] = visited"
| "bfs d visited (n # queue) =
     (if n \<in> set visited then bfs d visited queue
      else let visited' = visited @ [n]
           in bfs d visited' (queue @ filter (\<lambda>t. t \<notin> set visited') (targets d n)))"
  by pat_completeness auto

termination
proof (relation "measures [\<lambda>(d, visited, queue). card ((all_targets d \<union> set queue) - set visited),
    \<lambda>(d, visited, queue). length queue]", goal_cases)
  case (2 d visited n queue)
  have "(all_targets d \<union> set queue) - set visited = (all_targets d \<union> set (n # queue)) - set visited"
    using 2 by auto
  then show ?case by simp
next
  case (3 d visited n queue visited')
  have "(all_targets d \<union> set (queue @ filter (\<lambda>t. t \<notin> set visited') (targets d n))) - set visited'
      \<subset> (all_targets d \<union> set (n # queue)) - set visited"
    using 3 targets_subset [of d n] by auto
  then show ?case by (auto intro: psubset_card_mono)
qed simp

definition reachable_from :: "MiniDAG \<Rightarrow> string \<Rightarrow> string list" where
  "reachable_from d start = bfs d [] [start]"

definition edge_errors :: "MiniDAG \<Rightarrow> dag_error list" where
  "edge_errors d = concat (map (\<lambda>(f, t).
     (if has_node d f then [] else [EdgeFromUnknown f]) @
     (case t of Some t' \<Rightarrow> if has_node d t' then [] else [EdgeToUnknown t'] | None \<Rightarrow> []))
     (md_edges d))"

definition conditional_errors :: "MiniDAG \<Rightarrow> dag_error list" where
  "conditional_errors d = concat (map (\<lambda>(f, c, rm).
     (if has_node d f then [] else [ConditionalFromUnknown f]) @
     map RouteToUnknown (filter (\<lambda>t. \<not> has_node d t) (route_targets rm)))
     (md_conditional_edges d))"

definition validate :: "MiniDAG \<Rightarrow> dag_error list" where
  "validate d =
     (if md_entry_point d = [] then [NoEntryPoint]
      else if has_node d (md_entry_point d) then [] else [EntryPointMissing (md_entry_point d)])
     @ edge_errors d @ conditional_errors d
     @ map BothEdgeKinds
         (filter (\<lambda>n. map_of (md_conditional_edges d) n \<noteq> None) (map fst (md_edges d)))
     @ (if md_entry_point d \<noteq> [] \<and> has_node d (md_entry_point d)
        then let reachable = reachable_from d (md_entry_point d)
             in map Unreachable (filter (\<lambda>n. n \<notin> set reachable) (map fst (md_nodes d)))
        else [])"

text \<open>\<open>compile\<close>: \<open>Inl\<close> the errors of the raised \<open>ValueError\<close>.\<close>

definition compile_dag :: "MiniDAG \<Rightarrow> dag_error list + MiniDAG" where
  "compile_dag d = (let errors = validate d in if errors \<noteq> [] then Inl errors else Inr d)"

section \<open>The runner\<close>

definition MAX_STEPS :: nat where
  "MAX_STEPS = 100"

fun merge_state :: "MiniDAG \<Rightarrow> dag_state \<Rightarrow> dag_state \<Rightarrow> dag_exc + dag_state" where
  "merge_state d merged [] = Inr merged"
| "merge_state d merged ((key, v) # delta) =
     (case (map_of (md_reducers d) key, map_of merged key) of
        (Some reduce, Some old) \<Rightarrow>
          (case reduce old v of
             Inr w \<Rightarrow> merge_state d (AList.update key w merged) delta
           | Inl TypeOrValueError \<Rightarrow> merge_state d (AList.update key v merged) delta
           | Inl e \<Rightarrow> Inl e)
      | _ \<Rightarrow> merge_state d (AList.update key v merged) delta)"

definition resolve_next :: "MiniDAG \<Rightarrow> string \<Rightarrow> dag_state \<Rightarrow> dag_exc + string option" where
  "resolve_next d current st =
     (case map_of (md_conditional_edges d) current of
        Some (condition, route_map) \<Rightarrow>
          (case condition st of
             Inl e \<Rightarrow> Inl e
           | Inr key \<Rightarrow> Inr (case map_of route_map key of None \<Rightarrow> None | Some t \<Rightarrow> t))
      | None \<Rightarrow> Inr (case map_of (md_edges d) current of None \<Rightarrow> None | Some t \<Rightarrow> t))"

text \<open>The host's checkpointer, over a store of its own.\<close>

record 'c checkpointer =
  cp_save :: "string \<Rightarrow> string \<Rightarrow> dag_state \<Rightarrow> string option \<Rightarrow> 'c \<Rightarrow> 'c"
  cp_load_latest :: "string \<Rightarrow> 'c \<Rightarrow> (dag_state \<times> string \<times> string option) option"

text \<open>
  A run of the loop: what it yielded, the state and node it stopped at, the exception if it
  raised, the checkpoint store and the runner's state cache.
\<close>

record 'c dag_run =
  dr_yields :: "(string \<times> dag_state) list"
  dr_state :: dag_state
  dr_node :: "string option"
  dr_raised :: "dag_exc option"
  dr_store :: 'c
  dr_states :: "dag_state pydict"

definition stopped ::
  "dag_state \<Rightarrow> string option \<Rightarrow> dag_exc option \<Rightarrow> 'c \<Rightarrow> dag_state pydict \<Rightarrow> 'c dag_run" where
  "stopped st node exc store states =
     \<lparr>dr_yields = [], dr_state = st, dr_node = node, dr_raised = exc, dr_store = store,
      dr_states = states\<rparr>"

text \<open>One pass through the body of the loop.\<close>

definition exec_node ::
  "MiniDAG \<Rightarrow> string \<Rightarrow> dag_state \<Rightarrow> dag_exc + dag_state \<times> dag_state \<times> string option" where
  "exec_node d current st =
     (case map_of (md_nodes d) current of
        None \<Rightarrow> Inl (KeyError current)
      | Some f \<Rightarrow>
          (case f st of
             Inl e \<Rightarrow> Inl e
           | Inr out \<Rightarrow>
               let delta = (case out of None \<Rightarrow> [] | Some x \<Rightarrow> x) in
               bind_result (merge_state d st delta) (\<lambda>st'.
                 bind_result (resolve_next d current st') (\<lambda>nx. Inr (delta, st', nx)))))"

fun run_loop ::
  "MiniDAG \<Rightarrow> 'c checkpointer option \<Rightarrow> string \<Rightarrow> nat \<Rightarrow> string option \<Rightarrow> dag_state \<Rightarrow> 'c \<Rightarrow>
   dag_state pydict \<Rightarrow> 'c dag_run" where
  "run_loop d cp thread_id 0 current st store states = stopped st current None store states"
| "run_loop d cp thread_id (Suc k) None st store states = stopped st None None store states"
| "run_loop d cp thread_id (Suc k) (Some current) st store states =
     (case exec_node d current st of
        Inl e \<Rightarrow> stopped st (Some current) (Some e) store states
      | Inr (delta, st', nx) \<Rightarrow>
          let store' = (case cp of None \<Rightarrow> store
                        | Some c \<Rightarrow> cp_save c thread_id current st' nx store);
              r = run_loop d cp thread_id k nx st' store' (AList.update thread_id st' states)
          in r\<lparr>dr_yields := (current, delta) # dr_yields r\<rparr>)"

definition load_or_init ::
  "'c checkpointer option \<Rightarrow> string \<Rightarrow> dag_state option \<Rightarrow> 'c \<Rightarrow> dag_state \<times> string option" where
  "load_or_init cp thread_id input_data store =
     (let fresh = (case input_data of None \<Rightarrow> [] | Some x \<Rightarrow> x, None) in
      case cp of
        None \<Rightarrow> fresh
      | Some c \<Rightarrow>
          (case cp_load_latest c thread_id store of
             Some (st, completed, Some (x # xs)) \<Rightarrow> (st, Some (x # xs))
           | _ \<Rightarrow> fresh))"

text \<open>
  \<open>astream_upto k\<close> is an iteration that the consumer gives up after \<open>k\<close> yields, if the loop gets
  that far; \<open>astream\<close> is the whole of it.
\<close>

definition astream_upto ::
  "nat \<Rightarrow> MiniDAG \<Rightarrow> 'c checkpointer option \<Rightarrow> string \<Rightarrow> dag_state option \<Rightarrow> 'c \<Rightarrow>
   dag_state pydict \<Rightarrow> 'c dag_run" where
  "astream_upto max_steps d cp thread_id input_data store states =
     (let (st, resume_node) = load_or_init cp thread_id input_data store;
          current = (case resume_node of None \<Rightarrow> md_entry_point d | Some n \<Rightarrow> n)
      in run_loop d cp thread_id max_steps (Some current) st store states)"

definition astream ::
  "MiniDAG \<Rightarrow> 'c checkpointer option \<Rightarrow> string \<Rightarrow> dag_state option \<Rightarrow> 'c \<Rightarrow>
   dag_state pydict \<Rightarrow> 'c dag_run" where
  "astream = astream_upto MAX_STEPS"

definition aget_state ::
  "'c checkpointer option \<Rightarrow> string \<Rightarrow> 'c \<Rightarrow> dag_state pydict \<Rightarrow> dag_state" where
  "aget_state cp thread_id store states =
     (case map_of states thread_id of
        Some st \<Rightarrow> st
      | None \<Rightarrow>
          (case cp of
             None \<Rightarrow> []
           | Some c \<Rightarrow> (case cp_load_latest c thread_id store of
                          None \<Rightarrow> [] | Some (st, node, nx) \<Rightarrow> st)))"

section \<open>Reachability\<close>

definition dag_edge :: "MiniDAG \<Rightarrow> string \<Rightarrow> string \<Rightarrow> bool" where
  "dag_edge d a b = (b \<in> set (targets d a))"

text \<open>What the loop keeps: visited nodes have their targets visited or queued.\<close>

lemma bfs_closed:
  assumes "\<forall>v \<in> set visited. set (targets d v) \<subseteq> set visited \<union> set queue"
  shows "set visited \<union> set queue \<subseteq> set (bfs d visited queue)
    \<and> (\<forall>v \<in> set (bfs d visited queue). set (targets d v) \<subseteq> set (bfs d visited queue))"
  using assms
proof (induction d visited queue rule: bfs.induct)
  case (2 d visited n queue)
  show ?case
  proof (cases "n \<in> set visited")
    case True
    then have "\<forall>v \<in> set visited. set (targets d v) \<subseteq> set visited \<union> set queue" using 2(3) by auto
    with 2(1) True show ?thesis by auto
  next
    case False
    let ?v = "visited @ [n]" and ?q = "queue @ filter (\<lambda>t. t \<notin> set (visited @ [n])) (targets d n)"
    have "\<forall>v \<in> set ?v. set (targets d v) \<subseteq> set ?v \<union> set ?q" using 2(3) by auto
    with 2(2) [OF False refl] have "set ?v \<union> set ?q \<subseteq> set (bfs d ?v ?q)
      \<and> (\<forall>v \<in> set (bfs d ?v ?q). set (targets d v) \<subseteq> set (bfs d ?v ?q))" by blast
    with False show ?thesis by (auto simp: Let_def)
  qed
qed simp

lemma bfs_sound:
  assumes "\<forall>v \<in> set visited \<union> set queue. rtranclp (dag_edge d) start v"
  shows "\<forall>v \<in> set (bfs d visited queue). rtranclp (dag_edge d) start v"
  using assms
proof (induction d visited queue rule: bfs.induct)
  case (2 d visited n queue)
  have "rtranclp (dag_edge d) start t" if "t \<in> set (targets d n)" for t
  proof -
    have "rtranclp (dag_edge d) start n" using 2(3) by simp
    moreover have "dag_edge d n t" using that by (simp add: dag_edge_def)
    ultimately show ?thesis by (rule rtranclp.rtrancl_into_rtrancl)
  qed
  with 2 show ?case by (auto simp: Let_def)
qed simp

lemma reachable_from_iff: "n \<in> set (reachable_from d start) \<longleftrightarrow> rtranclp (dag_edge d) start n"
proof
  show "n \<in> set (reachable_from d start) \<Longrightarrow> rtranclp (dag_edge d) start n"
    using bfs_sound [of "[]" "[start]" d start] by (auto simp: reachable_from_def)
  assume "rtranclp (dag_edge d) start n"
  then show "n \<in> set (reachable_from d start)"
    using bfs_closed [of "[]" d "[start]"]
    by (induction rule: rtranclp_induct) (auto simp: reachable_from_def dag_edge_def)
qed

lemma bfs_distinct: "distinct visited \<Longrightarrow> distinct (bfs d visited queue)"
  by (induction d visited queue rule: bfs.induct) (auto simp: Let_def)

section \<open>Valid graphs\<close>

lemma validate_edges:
  assumes "validate d = []" and "dag_edge d a b"
  shows "has_node d b"
proof -
  have e: "edge_errors d = []" and c: "conditional_errors d = []"
    using assms(1) by (simp_all add: validate_def)
  from assms(2) have "b \<in> set (targets d a)" by (simp add: dag_edge_def)
  then show ?thesis
  proof (cases rule: targets_cases)
    case static
    then have "(a, Some b) \<in> set (md_edges d)" by (simp add: map_of_SomeD)
    with e show ?thesis by (auto simp: edge_errors_def split: if_splits)
  next
    case (route cd rm)
    then have "(a, cd, rm) \<in> set (md_conditional_edges d)" by (simp add: map_of_SomeD)
    with c route(2) show ?thesis by (auto simp: conditional_errors_def filter_empty_conv)
  qed
qed

lemma validate_entry:
  assumes "validate d = []"
  shows "md_entry_point d \<noteq> []" "has_node d (md_entry_point d)"
  using assms by (auto simp: validate_def split: if_splits)

lemma validate_reachable:
  assumes "validate d = []" and "has_node d n"
  shows "rtranclp (dag_edge d) (md_entry_point d) n"
proof -
  have "n \<in> set (map fst (md_nodes d))"
    using assms(2) by (auto simp: has_node_def map_of_eq_None_iff)
  then have "n \<in> set (reachable_from d (md_entry_point d))"
    using assms(1) validate_entry [OF assms(1)] by (auto simp: validate_def Let_def filter_empty_conv)
  then show ?thesis by (simp add: reachable_from_iff)
qed

section \<open>Runs\<close>

lemma resolve_next_edge:
  assumes "resolve_next d cur st = Inr (Some t)"
  shows "dag_edge d cur t"
proof (cases "map_of (md_conditional_edges d) cur")
  case None
  with assms show ?thesis
    by (auto simp: resolve_next_def dag_edge_def targets_def static_targets_def split: option.splits)
next
  case (Some cr)
  with assms obtain c rm key where "cr = (c, rm)" "map_of rm key = Some (Some t)"
    by (cases cr) (auto simp: resolve_next_def split: sum.splits option.splits)
  with Some show ?thesis
    by (auto simp: dag_edge_def targets_def set_route_targets dest: map_of_SomeD)
qed

lemma exec_node_edge:
  assumes "exec_node d cur st = Inr (delta, st', nx)"
  shows "has_node d cur" and "\<And>t. nx = Some t \<Longrightarrow> dag_edge d cur t"
proof -
  obtain f out where f: "map_of (md_nodes d) cur = Some f" "f st = Inr out"
    using assms by (auto simp: exec_node_def split: option.splits sum.splits)
  then show "has_node d cur" by (simp add: has_node_def)
  have "resolve_next d cur st' = Inr nx"
    using assms f by (auto simp: exec_node_def bind_result_Inr_iff Let_def)
  then show "\<And>t. nx = Some t \<Longrightarrow> dag_edge d cur t" using resolve_next_edge by blast
qed

lemma run_loop_safe:
  assumes "\<And>a b. dag_edge d a b \<Longrightarrow> has_node d b" and "\<And>c. cur = Some c \<Longrightarrow> has_node d c"
    and "r = run_loop d cp tid k cur st store states"
  shows "length (dr_yields r) \<le> k \<and> successively (dag_edge d) (map fst (dr_yields r))
    \<and> (dr_yields r \<noteq> [] \<longrightarrow> Some (fst (hd (dr_yields r))) = cur)
    \<and> (\<forall>n. n \<in> fst ` set (dr_yields r) \<or> dr_node r = Some n \<longrightarrow> has_node d n)
    \<and> (dr_raised r = None \<and> dr_node r \<noteq> None \<longrightarrow> length (dr_yields r) = k)"
  using assms
proof (induction d cp tid k cur st store states arbitrary: r rule: run_loop.induct)
  case (3 d cp tid k cur st store states)
  show ?case
  proof (cases "exec_node d cur st")
    case (Inl e)
    then show ?thesis using 3(3,4) by (simp add: stopped_def)
  next
    case (Inr res)
    obtain delta st' nx where res: "res = (delta, st', nx)" by (cases res)
    note ex = exec_node_edge [OF Inr [unfolded res]]
    let ?store = "case cp of None \<Rightarrow> store | Some c \<Rightarrow> cp_save c tid cur st' nx store"
    let ?r = "run_loop d cp tid k nx st' ?store (AList.update tid st' states)"
    have r: "r = ?r\<lparr>dr_yields := (cur, delta) # dr_yields ?r\<rparr>"
      using 3(4) Inr res by (simp add: Let_def)
    have "\<And>c. nx = Some c \<Longrightarrow> has_node d c" using 3(2) ex(2) by blast
    from 3(1) [OF Inr [unfolded res] refl refl refl 3(2) this refl]
    have IH: "length (dr_yields ?r) \<le> k \<and> successively (dag_edge d) (map fst (dr_yields ?r))
      \<and> (dr_yields ?r \<noteq> [] \<longrightarrow> Some (fst (hd (dr_yields ?r))) = nx)
      \<and> (\<forall>n. n \<in> fst ` set (dr_yields ?r) \<or> dr_node ?r = Some n \<longrightarrow> has_node d n)
      \<and> (dr_raised ?r = None \<and> dr_node ?r \<noteq> None \<longrightarrow> length (dr_yields ?r) = k)" .
    have "successively (dag_edge d) (cur # map fst (dr_yields ?r))"
      using IH ex(2) by (cases "dr_yields ?r") auto
    with IH ex(1) show ?thesis by (auto simp: r)
  qed
qed (auto simp: stopped_def)

text \<open>A run can be cut after any number of steps and continued from where it stopped.\<close>

lemma run_loop_split:
  "run_loop d cp tid (k + m) cur st store states =
     (let r1 = run_loop d cp tid k cur st store states
      in if dr_raised r1 \<noteq> None \<or> dr_node r1 = None then r1
         else let r2 = run_loop d cp tid m (dr_node r1) (dr_state r1) (dr_store r1) (dr_states r1)
              in r2\<lparr>dr_yields := dr_yields r1 @ dr_yields r2\<rparr>)"
proof (induction d cp tid k cur st store states rule: run_loop.induct)
  case (1 d cp tid cur st store states)
  show ?case by (cases cur; cases m) (auto simp: stopped_def)
next
  case (3 d cp tid k cur st store states)
  show ?case
  proof (cases "exec_node d cur st")
    case (Inl e)
    then show ?thesis by (simp add: stopped_def)
  next
    case (Inr res)
    obtain delta st' nx where res: "res = (delta, st', nx)" by (cases res)
    from 3 [OF Inr [unfolded res] refl refl refl] Inr res show ?thesis by (simp add: Let_def)
  qed
qed (simp add: stopped_def)

lemma run_loop_finished:
  assumes "dr_raised (run_loop d cp tid k cur st store states) \<noteq> None
    \<or> dr_node (run_loop d cp tid k cur st store states) = None" and "k \<le> n"
  shows "run_loop d cp tid n cur st store states = run_loop d cp tid k cur st store states"
proof -
  from assms(2) obtain m where "n = k + m" using le_Suc_ex by blast
  then show ?thesis using run_loop_split [of d cp tid k m] assms(1) by (auto simp: Let_def)
qed

text \<open>What the checkpointer promises: the latest saved checkpoint of a thread is loaded.\<close>

definition checkpointer_ok :: "'c checkpointer \<Rightarrow> bool" where
  "checkpointer_ok c =
     (\<forall>tid node st nx store. cp_load_latest c tid (cp_save c tid node st nx store) = Some (st, node, nx))"

lemma run_loop_checkpoint:
  assumes "checkpointer_ok c" and "r = run_loop d (Some c) tid k cur st store states"
    and "dr_yields r \<noteq> []"
  shows "\<exists>node. cp_load_latest c tid (dr_store r) = Some (dr_state r, node, dr_node r)"
  using assms(2,3)
proof (induction k arbitrary: cur st store states r)
  case (Suc k)
  then obtain n where cur: "cur = Some n" by (cases cur) (auto simp: stopped_def)
  obtain delta st' nx where ex: "exec_node d n st = Inr (delta, st', nx)"
    using Suc.prems cur by (cases "exec_node d n st") (auto simp: stopped_def)
  let ?store = "cp_save c tid n st' nx store"
  let ?r = "run_loop d (Some c) tid k nx st' ?store (AList.update tid st' states)"
  have r: "r = ?r\<lparr>dr_yields := (n, delta) # dr_yields ?r\<rparr>"
    using Suc.prems(1) cur ex by (simp add: Let_def)
  have load: "cp_load_latest c tid ?store = Some (st', n, nx)"
    using assms(1) by (simp add: checkpointer_ok_def)
  show ?case
  proof (cases "dr_yields ?r = []")
    case False
    with Suc.IH [OF refl, of nx st' ?store "AList.update tid st' states"] r show ?thesis by simp
  next
    case True
    then have "dr_state ?r = st' \<and> dr_node ?r = nx \<and> dr_store ?r = ?store"
      by (cases k; cases nx; cases "exec_node d (the nx) st'") (auto simp: stopped_def Let_def)
    with load r show ?thesis by auto
  qed
qed (simp add: stopped_def)

section \<open>Properties\<close>

text \<open>
  C25: a graph passes the reachability check of \<open>validate\<close> exactly when every node can be reached
  from the entry point along static and conditional edges: the breadth-first search visits the
  reachable nodes and no others, each once.
\<close>

theorem reachability_exact:
  "set (reachable_from d start) = {n. rtranclp (dag_edge d) start n} \<and> distinct (reachable_from d start)"
  using reachable_from_iff [of _ d start] bfs_distinct [of "[]" d "[start]"]
  by (auto simp: reachable_from_def)

text \<open>
  C26: a compiled graph runs safely.  From the entry point, or from a checkpointed node that
  exists, the runner executes at most 100 nodes, each successor is an edge of the graph, every
  node it looks up exists, and if it neither ended nor raised it executed exactly 100.
\<close>

theorem compiled_run_safe:
  assumes "compile_dag d = Inr d'"
    and "\<And>n. snd (load_or_init cp tid inp store) = Some n \<Longrightarrow> has_node d n"
    and "r = astream d' cp tid inp store states"
  shows "length (dr_yields r) \<le> MAX_STEPS \<and> successively (dag_edge d) (map fst (dr_yields r))
    \<and> (\<forall>n. n \<in> fst ` set (dr_yields r) \<or> dr_node r = Some n \<longrightarrow> has_node d n)
    \<and> (dr_raised r = None \<and> dr_node r \<noteq> None \<longrightarrow> length (dr_yields r) = MAX_STEPS)"
proof -
  have d: "d' = d" and v: "validate d = []"
    using assms(1) by (auto simp: compile_dag_def Let_def split: if_splits)
  obtain st rn where l: "load_or_init cp tid inp store = (st, rn)" by fastforce
  let ?cur = "Some (case rn of None \<Rightarrow> md_entry_point d | Some n \<Rightarrow> n)"
  have r: "r = run_loop d cp tid MAX_STEPS ?cur st store states"
    using assms(3) l by (simp add: d astream_def astream_upto_def)
  have c: "has_node d n" if "?cur = Some n" for n
    using that assms(2) [of n] l validate_entry(2) [OF v] by (auto split: option.splits)
  have e: "has_node d b" if "dag_edge d a b" for a b using validate_edges [OF v that] .
  show ?thesis using run_loop_safe [of d ?cur r cp tid MAX_STEPS st store states] e c r by blast
qed

text \<open>
  Merging a node's output is last-write-wins, key by key, except that a key with a reducer
  that is already present is combined with the old value; a reducer that fails with a type or
  value error falls back to the new value, and other keys are untouched.
\<close>

theorem merge_state_spec:
  assumes "distinct (map fst delta)" and "merge_state d st delta = Inr merged"
  shows "map_of merged key =
    (case map_of delta key of
       None \<Rightarrow> map_of st key
     | Some v \<Rightarrow> Some (case (map_of (md_reducers d) key, map_of st key) of
         (Some reduce, Some old) \<Rightarrow> (case reduce old v of Inr w \<Rightarrow> w | Inl e \<Rightarrow> v)
       | _ \<Rightarrow> v))"
  using assms
proof (induction delta arbitrary: st)
  case (Cons kv delta)
  obtain k v where kv: "kv = (k, v)" by fastforce
  obtain w where w: "merge_state d (AList.update k w st) delta = Inr merged"
    "w = (case (map_of (md_reducers d) k, map_of st k) of
         (Some reduce, Some old) \<Rightarrow> (case reduce old v of Inr w \<Rightarrow> w | Inl e \<Rightarrow> v) | _ \<Rightarrow> v)"
    using Cons.prems(2) by (auto simp: kv split: option.splits sum.splits dag_exc.splits)
  have "map_of delta k = None" using Cons.prems(1) by (simp add: kv map_of_eq_None_iff)
  with Cons.IH [OF _ w(1)] Cons.prems(1) w(2) show ?case
    by (cases "key = k") (simp_all add: kv cong: option.case_cong)
qed simp

text \<open>
  C27: a run interrupted after any of its yields is resumed from its checkpoint without loss.
  With a checkpointer that loads what it last saved, the resumed run yields exactly what the
  uninterrupted run would have yielded next, and ends in the same state.
\<close>

theorem resume_continues:
  assumes "checkpointer_ok c"
    and "full = astream d (Some c) tid inp store states"
    and "part = astream_upto k d (Some c) tid inp store states"
    and "k \<le> MAX_STEPS" and "dr_raised full = None" and "dr_node full = None"
    and "dr_yields part \<noteq> []" and "dr_node part = Some n" and "n \<noteq> []"
    and resumed: "resumed = astream d (Some c) tid inp2 (dr_store part) (dr_states part)"
  shows "dr_yields part @ dr_yields resumed = dr_yields full \<and> dr_state resumed = dr_state full
    \<and> dr_raised resumed = None \<and> dr_node resumed = None"
proof -
  obtain start st where
    full: "full = run_loop d (Some c) tid MAX_STEPS (Some start) st store states" and
    part: "part = run_loop d (Some c) tid k (Some start) st store states"
    using assms(2,3) by (auto simp: astream_def astream_upto_def Let_def split: prod.splits)
  obtain m where m: "MAX_STEPS = k + m" using assms(4) le_Suc_ex by blast
  let ?rest = "\<lambda>m. run_loop d (Some c) tid m (Some n) (dr_state part) (dr_store part) (dr_states part)"
  have "dr_raised part = None"
    using run_loop_split [of d "Some c" tid k m "Some start" st store states] assms(5) full part m
    by (auto simp: Let_def split: if_splits)
  then have f: "full = (?rest m)\<lparr>dr_yields := dr_yields part @ dr_yields (?rest m)\<rparr>"
    using run_loop_split [of d "Some c" tid k m "Some start" st store states] assms(8) full part m
    by (simp add: Let_def)
  obtain x xs where n: "n = x # xs" using assms(9) by (cases n) auto
  obtain node where "cp_load_latest c tid (dr_store part) = Some (dr_state part, node, dr_node part)"
    using run_loop_checkpoint [OF assms(1) part assms(7)] by blast
  then have "resumed = ?rest MAX_STEPS"
    using resumed assms(8) by (simp add: astream_def astream_upto_def load_or_init_def n)
  also have "\<dots> = ?rest m"
    by (rule run_loop_finished) (use f assms(6) m in simp_all)
  finally show ?thesis using f assms(5,6) by simp
qed

section \<open>A graph to run\<close>

definition ex_dag :: MiniDAG where
  "ex_dag =
     set_entry_point ''a''
      (add_conditional_edges ''a'' (\<lambda>st. Inr (if map_of st ''x'' = Some (PyInt 1) then ''go'' else ''no''))
        [(''go'', Some ''b''), (''no'', None)]
      (add_edge ''b'' None
      (add_node ''b'' (\<lambda>st. Inr None)
      (add_node ''a'' (\<lambda>st. Inr (Some [(''x'', PyInt 1)])) new_dag))))"

definition ex_checkpointer :: "(dag_state \<times> string \<times> string option) pydict checkpointer" where
  "ex_checkpointer =
     \<lparr>cp_save = (\<lambda>tid node st nx store. AList.update tid (st, node, nx) store),
      cp_load_latest = (\<lambda>tid store. map_of store tid)\<rparr>"

lemma ex_checkpointer_ok: "checkpointer_ok ex_checkpointer"
  by (simp add: checkpointer_ok_def ex_checkpointer_def)

theorem compiled_run_safe_witness:
  "length (dr_yields (astream ex_dag (Some ex_checkpointer) ''t'' None [] [])) \<le> MAX_STEPS"
proof -
  have "validate ex_dag = []" by code_simp
  then have c: "compile_dag ex_dag = Inr ex_dag" by (simp add: compile_dag_def)
  have l: "snd (load_or_init (Some ex_checkpointer) ''t'' None []) = None"
    by (simp add: load_or_init_def ex_checkpointer_def)
  show ?thesis
    using compiled_run_safe [OF c _ refl, of "Some ex_checkpointer" "''t''" None "[]" "[]"] l by simp
qed

theorem merge_state_spec_witness:
  "map_of (projr (merge_state ex_dag [(''x'', PyInt 0), (''y'', PyInt 5)] [(''x'', PyInt 1)])) ''y''
     = Some (PyInt 5)"
proof -
  have m: "merge_state ex_dag [(''x'', PyInt 0), (''y'', PyInt 5)] [(''x'', PyInt 1)] =
      Inr [(''x'', PyInt 1), (''y'', PyInt 5)]" by code_simp
  from merge_state_spec [OF _ m, of "''y''"] show ?thesis unfolding m by simp
qed

theorem resume_continues_witness:
  "let part = astream_upto 1 ex_dag (Some ex_checkpointer) ''t'' None [] []
   in dr_yields part @ dr_yields (astream ex_dag (Some ex_checkpointer) ''t'' None
          (dr_store part) (dr_states part)) =
      dr_yields (astream ex_dag (Some ex_checkpointer) ''t'' None [] [])"
proof -
  let ?full = "astream ex_dag (Some ex_checkpointer) ''t'' None [] []"
  let ?part = "astream_upto 1 ex_dag (Some ex_checkpointer) ''t'' None [] []"
  have "1 \<le> MAX_STEPS" and "dr_raised ?full = None" and "dr_node ?full = None"
    and "dr_yields ?part \<noteq> []" and "dr_node ?part = Some ''b''" and "''b'' \<noteq> ([] :: string)"
    by code_simp+
  from resume_continues [OF ex_checkpointer_ok refl refl this refl, of None] show ?thesis
    by (simp add: Let_def)
qed

end
