(* ===== verification/Stop_Signal.thy ===== *)
theory Stop_Signal
  imports Prelude
begin

text \<open>
  The cooperative stop requests of \<^verbatim>\<open>components/agent_bus/stop_signal.py\<close> and the artifact pool of
  \<^verbatim>\<open>components/agent_bus/shared_pool.py\<close>.  A missing session or job id is the empty string.
\<close>

section \<open>Stop requests\<close>

text \<open>The registry: session id to the job the stop was requested against.\<close>

type_synonym stop_registry = "string pydict"

definition request_stop :: "string \<Rightarrow> string \<Rightarrow> stop_registry \<Rightarrow> stop_registry" where
  "request_stop session_id job_id reg =
     (let sid = str_strip session_id in if sid = [] then reg else AList.update sid job_id reg)"

definition consume :: "string \<Rightarrow> stop_registry \<Rightarrow> bool \<times> stop_registry" where
  "consume session_id reg =
     (let sid = str_strip session_id
      in if map_of reg sid \<noteq> None then (True, AList.delete sid reg) else (False, reg))"

definition clear_stale :: "string \<Rightarrow> string \<Rightarrow> stop_registry \<Rightarrow> bool \<times> stop_registry" where
  "clear_stale session_id current_job_id reg =
     (let sid = str_strip session_id in
      case map_of reg sid of
        Some pending \<Rightarrow>
          if pending \<noteq> current_job_id then (True, AList.delete sid reg) else (False, reg)
      | None \<Rightarrow> (False, reg))"

definition is_requested :: "string \<Rightarrow> stop_registry \<Rightarrow> bool" where
  "is_requested session_id reg = (map_of reg (str_strip session_id) \<noteq> None)"

text \<open>The operations on the registry as steps, with the answer a turn boundary gets.\<close>

datatype stop_op =
    RequestStop string string
  | Consume string
  | ClearStale string string

fun stop_exec :: "stop_op \<Rightarrow> stop_registry \<Rightarrow> stop_registry" where
  "stop_exec (RequestStop sid j) reg = request_stop sid j reg"
| "stop_exec (Consume sid) reg = snd (consume sid reg)"
| "stop_exec (ClearStale sid j) reg = snd (clear_stale sid j reg)"

text \<open>What a session's entry must be, from the history of operations on that session alone.\<close>

fun pending_stop :: "string \<Rightarrow> stop_op list \<Rightarrow> string option" where
  "pending_stop sid [] = None"
| "pending_stop sid (RequestStop s j # earlier) =
     (if str_strip s = sid \<and> sid \<noteq> [] then Some j else pending_stop sid earlier)"
| "pending_stop sid (Consume s # earlier) =
     (if str_strip s = sid then None else pending_stop sid earlier)"
| "pending_stop sid (ClearStale s j # earlier) =
     (if str_strip s = sid \<and> pending_stop sid earlier \<noteq> Some j then None else pending_stop sid earlier)"

lemma stop_exec_lookup:
  "map_of (stop_exec op reg) sid =
     (case op of
        RequestStop s j \<Rightarrow> if str_strip s = sid \<and> sid \<noteq> [] then Some j else map_of reg sid
      | Consume s \<Rightarrow> if str_strip s = sid then None else map_of reg sid
      | ClearStale s j \<Rightarrow> if str_strip s = sid \<and> map_of reg sid \<noteq> Some j then None else map_of reg sid)"
  by (cases op)
     (auto simp: request_stop_def consume_def clear_stale_def Let_def split: option.splits)

text \<open>
  The registry is exact.  After any sequence of operations, a turn boundary of a session is
  told to stop iff the latest relevant operation on that session is a request that was neither
  consumed nor dropped as stale: one request stops at most one boundary, never a task it was not
  made for when stale requests are cleared at its start, and sessions do not affect each other.
\<close>

theorem stop_registry_exact:
  "fst (consume sid (fold stop_exec ops [])) = (pending_stop (str_strip sid) (rev ops) \<noteq> None)
   \<and> map_of (fold stop_exec ops []) (str_strip sid) = pending_stop (str_strip sid) (rev ops)"
proof -
  have "map_of (fold stop_exec ops []) k = pending_stop k (rev ops)" for k
    by (induction ops rule: rev_induct) (auto simp: stop_exec_lookup split: stop_op.splits)
  then show ?thesis by (simp add: consume_def Let_def)
qed

section \<open>The shared artifact pool\<close>

text \<open>\<open>str_of\<close> is Python's \<open>str\<close> on the value under \<open>id\<close>.\<close>

record SharedArtifactPool =
  sp_items :: "pyval pydict list"
  sp_seen_ids :: "string set"

definition new_pool :: SharedArtifactPool where
  "new_pool = \<lparr>sp_items = [], sp_seen_ids = {}\<rparr>"

definition item_id :: "(pyval \<Rightarrow> string) \<Rightarrow> pyval pydict \<Rightarrow> string" where
  "item_id str_of item = str_strip (str_of (dict_get_default item ''id'' (PyStr [])))"

fun pool_add_one :: "(pyval \<Rightarrow> string) \<Rightarrow> pyval \<Rightarrow> SharedArtifactPool \<Rightarrow> SharedArtifactPool" where
  "pool_add_one str_of (PyDict item) p =
     (let i = item_id str_of item in
      if i \<noteq> [] \<and> i \<in> sp_seen_ids p then p
      else p\<lparr>sp_seen_ids := (if i \<noteq> [] then insert i (sp_seen_ids p) else sp_seen_ids p),
             sp_items := sp_items p @ [item]\<rparr>)"
| "pool_add_one str_of other p = p"

definition pool_add :: "(pyval \<Rightarrow> string) \<Rightarrow> pyval list \<Rightarrow> SharedArtifactPool \<Rightarrow> SharedArtifactPool" where
  "pool_add str_of items p = fold (pool_add_one str_of) items p"

definition pool_get_all :: "SharedArtifactPool \<Rightarrow> pyval pydict list" where
  "pool_get_all p = sp_items p"

definition pool_count :: "SharedArtifactPool \<Rightarrow> nat" where
  "pool_count p = length (sp_items p)"

text \<open>The specification: of the dictionaries offered so far, those without an id and the first
  with each id.\<close>

fun keep_first :: "('a \<Rightarrow> string) \<Rightarrow> 'a list \<Rightarrow> 'a list" where
  "keep_first key [] = []"
| "keep_first key (x # xs) =
     x # keep_first key (filter (\<lambda>y. key y = [] \<or> key y \<noteq> key x) xs)"

lemma keep_first_snoc:
  "keep_first key (xs @ [x]) =
     (if key x \<noteq> [] \<and> key x \<in> key ` set xs then keep_first key xs else keep_first key xs @ [x])"
  by (induction key xs rule: keep_first.induct) auto

lemma pool_add_state:
  "sp_items (pool_add str_of vs new_pool) = keep_first (item_id str_of) (dicts_of vs)
   \<and> sp_seen_ids (pool_add str_of vs new_pool) = item_id str_of ` set (dicts_of vs) - {[]}"
proof (induction vs rule: rev_induct)
  case Nil
  then show ?case by (simp add: pool_add_def new_pool_def)
next
  case (snoc v vs)
  then show ?case
    by (cases v) (auto simp: pool_add_def keep_first_snoc Let_def)
qed

text \<open>
  The pool is the deduplicated concatenation of what was offered.  However the artifacts are
  split into batches, the pool holds the dictionaries in the order they were offered, keeping of
  every non-empty id the first one and of the items without an id all.
\<close>

theorem pool_dedup_spec:
  "pool_get_all (fold (pool_add str_of) batches new_pool) =
     keep_first (item_id str_of) (dicts_of (concat batches))"
proof -
  have "fold (pool_add str_of) batches p = pool_add str_of (concat batches) p" for p
    by (induction batches arbitrary: p) (simp_all add: pool_add_def)
  then show ?thesis using pool_add_state by (simp add: pool_get_all_def)
qed

end
