(* ===== verification/Tool_Permission.thy ===== *)
theory Tool_Permission
  imports Prelude
begin

text \<open>
  The tool permission policy of \<^verbatim>\<open>agent_core/runtime/tool_permission.py\<close>.  The interface that
  composing code relies on is a locale: a policy answers for each name, and merging never lets
  a restriction go.
\<close>

section \<open>The interface of a composable policy\<close>

locale tool_policy =
  fixes permits :: "'p \<Rightarrow> string \<Rightarrow> bool"
    and combine :: "'p \<Rightarrow> 'p \<Rightarrow> 'p"
    and wf :: "'p \<Rightarrow> bool"
  assumes combine_wf: "wf p \<Longrightarrow> wf q \<Longrightarrow> wf (combine p q)"
    and combine_permits: "wf p \<Longrightarrow> wf q \<Longrightarrow> permits (combine p q) n \<longleftrightarrow> permits p n \<and> permits q n"
begin

lemma fold_wf: "wf p \<Longrightarrow> \<forall>q \<in> set qs. wf q \<Longrightarrow> wf (foldl combine p qs)"
  by (induction qs arbitrary: p) (auto intro: combine_wf)

lemma fold_permits:
  "wf p \<Longrightarrow> \<forall>q \<in> set qs. wf q \<Longrightarrow>
     permits (foldl combine p qs) n \<longleftrightarrow> permits p n \<and> (\<forall>q \<in> set qs. permits q n)"
  by (induction qs arbitrary: p) (auto simp: combine_permits combine_wf)

lemma combine_commute: "wf p \<Longrightarrow> wf q \<Longrightarrow> permits (combine p q) = permits (combine q p)"
  by (auto simp: combine_permits)

lemma restrict_only: "wf p \<Longrightarrow> wf q \<Longrightarrow> permits (combine p q) n \<Longrightarrow> permits p n"
  by (simp add: combine_permits)

end

section \<open>The policy\<close>

record ToolPermissionContext =
  tp_allow_names :: "string set option"
  tp_deny_names :: "string set"
  tp_deny_prefixes :: "string list"

definition normalize_names :: "string set \<Rightarrow> string set" where
  "normalize_names names = str_lower ` names"

text \<open>Construction: \<open>__post_init__\<close> lower-cases every constraint.\<close>

definition mk_context ::
  "string set option \<Rightarrow> string set \<Rightarrow> string list \<Rightarrow> ToolPermissionContext" where
  "mk_context allow deny pres =
     \<lparr>tp_allow_names = map_option normalize_names allow,
      tp_deny_names = normalize_names deny,
      tp_deny_prefixes = map str_lower pres\<rparr>"

definition blocks :: "ToolPermissionContext \<Rightarrow> string \<Rightarrow> bool" where
  "blocks c tool_name =
     (let lowered = str_lower tool_name
      in lowered \<in> tp_deny_names c \<or> (\<exists>p \<in> set (tp_deny_prefixes c). prefix p lowered))"

definition allows :: "ToolPermissionContext \<Rightarrow> string \<Rightarrow> bool" where
  "allows c tool_name =
     (let lowered = str_lower tool_name in
      if blocks c lowered then False
      else case tp_allow_names c of None \<Rightarrow> True | Some ns \<Rightarrow> lowered \<in> ns)"

definition filter_tools :: "ToolPermissionContext \<Rightarrow> string list \<Rightarrow> string set" where
  "filter_tools c tool_names = set (filter (allows c) tool_names)"

definition is_empty_context :: "ToolPermissionContext \<Rightarrow> bool" where
  "is_empty_context c =
     (tp_allow_names c = None \<and> tp_deny_names c = {} \<and> tp_deny_prefixes c = [])"

text \<open>\<open>tuple(dict.fromkeys(...))\<close> keeps the first of equal prefixes.\<close>

definition fromkeys :: "'a list \<Rightarrow> 'a list" where
  "fromkeys xs = map fst (fold (\<lambda>x d. AList.update x () d) xs [])"

definition merge_context ::
  "ToolPermissionContext \<Rightarrow> ToolPermissionContext \<Rightarrow> ToolPermissionContext" where
  "merge_context c d =
     mk_context
       (case tp_allow_names c of
          None \<Rightarrow> tp_allow_names d
        | Some a \<Rightarrow> (case tp_allow_names d of None \<Rightarrow> Some a | Some b \<Rightarrow> Some (a \<inter> b)))
       (tp_deny_names c \<union> tp_deny_names d)
       (fromkeys (tp_deny_prefixes c @ tp_deny_prefixes d))"

text \<open>Keys and values are those of the configuration; only string keys and bare booleans count.\<close>

definition from_config_map :: "(pyval \<times> pyval) list option \<Rightarrow> ToolPermissionContext" where
  "from_config_map mapping =
     (case mapping of
        None \<Rightarrow> mk_context None {} []
      | Some entries \<Rightarrow>
          let names = (\<lambda>b. set (List.map_filter
                (\<lambda>(k, v). case k of PyStr s \<Rightarrow> if v = PyBool b then Some s else None | _ \<Rightarrow> None)
                entries));
              allow = names True
          in mk_context (if allow = {} then None else Some allow) (names False) [])"

definition from_execution_policy ::
  "(string set option \<times> string set option \<times> string list option) option \<Rightarrow> ToolPermissionContext" where
  "from_execution_policy policy =
     (case policy of
        None \<Rightarrow> mk_context None {} []
      | Some (allow_tools, deny_tools, deny_tool_prefixes) \<Rightarrow>
          mk_context allow_tools (case deny_tools of None \<Rightarrow> {} | Some d \<Rightarrow> d)
            (case deny_tool_prefixes of None \<Rightarrow> [] | Some p \<Rightarrow> p))"

section \<open>Merging is the meet of policies\<close>

definition normalized :: "ToolPermissionContext \<Rightarrow> bool" where
  "normalized c = (\<exists>a d p. c = mk_context a d p)"

lemma normalize_idem [simp]: "normalize_names (normalize_names ns) = normalize_names ns"
  by (simp add: normalize_names_def image_image)

lemma normalize_fixed: "(\<forall>n \<in> ns. str_lower n = n) \<Longrightarrow> normalize_names ns = ns"
  by (force simp: normalize_names_def)

lemma normalizedD:
  assumes "normalized c"
  shows "\<forall>n \<in> tp_deny_names c. str_lower n = n" "\<forall>p \<in> set (tp_deny_prefixes c). str_lower p = p"
    "tp_allow_names c = Some a \<Longrightarrow> \<forall>n \<in> a. str_lower n = n"
  using assms by (auto simp: normalized_def mk_context_def normalize_names_def)

lemma set_fromkeys: "set (fromkeys xs) = set xs"
proof -
  have "fst ` set (fold (\<lambda>x d. AList.update x () d) xs d) = fst ` set d \<union> set xs"
    for d :: "('a \<times> unit) list"
    by (induction xs arbitrary: d) (auto simp: keys_update)
  from this [of "[]"] show ?thesis by (simp add: fromkeys_def)
qed

lemma merge_fields:
  assumes "normalized c" and "normalized d"
  shows "tp_deny_names (merge_context c d) = tp_deny_names c \<union> tp_deny_names d"
    and "set (tp_deny_prefixes (merge_context c d)) = set (tp_deny_prefixes c) \<union> set (tp_deny_prefixes d)"
    and "tp_allow_names (merge_context c d) =
      (case tp_allow_names c of
          None \<Rightarrow> tp_allow_names d
        | Some a \<Rightarrow> (case tp_allow_names d of None \<Rightarrow> Some a | Some b \<Rightarrow> Some (a \<inter> b)))"
proof -
  note N = normalizedD [OF assms(1)] normalizedD [OF assms(2)]
  show "tp_deny_names (merge_context c d) = tp_deny_names c \<union> tp_deny_names d"
    using normalize_fixed [of "tp_deny_names c \<union> tp_deny_names d"] N(1,4)
    by (auto simp: merge_context_def mk_context_def)
  show "set (tp_deny_prefixes (merge_context c d)) = set (tp_deny_prefixes c) \<union> set (tp_deny_prefixes d)"
    using N(2,5) by (force simp: merge_context_def mk_context_def set_fromkeys)
  show "tp_allow_names (merge_context c d) =
      (case tp_allow_names c of
          None \<Rightarrow> tp_allow_names d
        | Some a \<Rightarrow> (case tp_allow_names d of None \<Rightarrow> Some a | Some b \<Rightarrow> Some (a \<inter> b)))"
  proof -
    have fix_names: "normalize_names a = a" "normalize_names (a \<inter> x) = a \<inter> x"
      if "tp_allow_names c = Some a \<or> tp_allow_names d = Some a" for a x
      using that N(3) [of a] N(6) [of a] by (auto intro!: normalize_fixed)
    then show ?thesis
      by (cases "tp_allow_names c"; cases "tp_allow_names d")
         (simp_all add: merge_context_def mk_context_def)
  qed
qed

lemma allows_merge:
  assumes "normalized c" and "normalized d"
  shows "allows (merge_context c d) n \<longleftrightarrow> allows c n \<and> allows d n"
  by (auto simp: allows_def blocks_def merge_fields [OF assms] Let_def split: option.splits)

interpretation perm: tool_policy allows merge_context normalized
proof unfold_locales
  show "normalized c \<Longrightarrow> normalized d \<Longrightarrow> normalized (merge_context c d)" for c d
    by (auto simp: merge_context_def normalized_def)
qed (rule allows_merge)

section \<open>Properties\<close>

text \<open>
  Composing policies never loses a restriction.  Whatever policies are merged, in whatever
  case their constraints are written, a tool is allowed by the result exactly when every one of
  them allows it.
\<close>

theorem merge_is_meet:
  assumes "normalized c" and "\<forall>d \<in> set ds. normalized d"
  shows "allows (foldl merge_context c ds) n \<longleftrightarrow> allows c n \<and> (\<forall>d \<in> set ds. allows d n)"
  by (rule perm.fold_permits [OF assms])

theorem merge_is_meet_witness:
  "\<not> allows (foldl merge_context (mk_context (Some {''Bash'', ''Read''}) {} [])
        [mk_context None {} [''web_''], mk_context None {''BASH''} []]) ''bash''
   \<and> allows (foldl merge_context (mk_context (Some {''Bash'', ''Read''}) {} [])
        [mk_context None {} [''web_''], mk_context None {''BASH''} []]) ''READ''"
proof -
  let ?c = "mk_context (Some {''Bash'', ''Read''}) {} []"
  let ?ds = "[mk_context None {} [''web_''], mk_context None {''BASH''} []]"
  have "normalized ?c" "\<forall>d \<in> set ?ds. normalized d" by (auto simp: normalized_def)
  note m = merge_is_meet [OF this]
  show ?thesis unfolding m by code_simp
qed

text \<open>
  A configuration map is read fail-closed.  A tool is allowed iff no entry sets it to false,
  in any case, and, as soon as one entry is true, some entry sets it to true; entries whose key is
  no string or whose value is no boolean change nothing.
\<close>

theorem config_map_fail_closed:
  "allows (from_config_map (Some entries)) n \<longleftrightarrow>
     \<not> (\<exists>s. (PyStr s, PyBool False) \<in> set entries \<and> str_lower s = str_lower n)
     \<and> ({s. (PyStr s, PyBool True) \<in> set entries} = {}
        \<or> (\<exists>s. (PyStr s, PyBool True) \<in> set entries \<and> str_lower s = str_lower n))"
proof -
  have names: "set (List.map_filter
        (\<lambda>(k, v). case k of PyStr s \<Rightarrow> if v = PyBool b then Some s else None | _ \<Rightarrow> None) entries) =
      {s. (PyStr s, PyBool b) \<in> set entries}" for b
    by (force simp: List.map_filter_def split: pyval.splits if_splits)
  show ?thesis
    by (auto simp: from_config_map_def names Let_def allows_def blocks_def mk_context_def
        normalize_names_def image_iff)
qed

end
