(* ===== verification/Loop_Types.thy ===== *)
theory Loop_Types
  imports Messages
begin

text \<open>
  The contract between the loop and its observers (\<^verbatim>\<open>agent_core/loop_types.py\<close>): interventions and
  how the answers of several observers are merged, tool results, and the configuration of a run.
  Observers that raise answer nothing, and answers of observers that are not critical are dropped;
  a list of answers is what the remaining ones returned, in the order of the observers.
\<close>

section \<open>Interventions\<close>

record Intervention =
  iv_inject_messages :: "string list option"
  iv_stop_reason :: "string option"
  iv_skip_tool_execution :: bool
  iv_pop_last_message :: bool
  iv_continue_to_next_turn :: bool

definition no_intervention :: Intervention where
  "no_intervention = \<lparr>iv_inject_messages = None, iv_stop_reason = None, iv_skip_tool_execution = False,
     iv_pop_last_message = False, iv_continue_to_next_turn = False\<rparr>"

abbreviation stop_with :: "string \<Rightarrow> Intervention" where
  "stop_with reason \<equiv> no_intervention\<lparr>iv_stop_reason := Some reason\<rparr>"

abbreviation inject_only :: "string list \<Rightarrow> Intervention" where
  "inject_only msgs \<equiv> no_intervention\<lparr>iv_inject_messages := Some msgs\<rparr>"

lemma no_intervention_simps [simp]:
  "iv_inject_messages no_intervention = None" "iv_stop_reason no_intervention = None"
  "\<not> iv_skip_tool_execution no_intervention" "\<not> iv_pop_last_message no_intervention"
  "\<not> iv_continue_to_next_turn no_intervention"
  by (simp_all add: no_intervention_def)

text \<open>An absent list and an empty reason are falsy.\<close>

definition injected :: "Intervention \<Rightarrow> string list" where
  "injected iv = (case iv_inject_messages iv of None \<Rightarrow> [] | Some ms \<Rightarrow> ms)"

definition reason_of :: "Intervention \<Rightarrow> string" where
  "reason_of iv = (case iv_stop_reason iv of None \<Rightarrow> [] | Some r \<Rightarrow> r)"

text \<open>The body of the loop of \<open>merge_interventions\<close>.\<close>

definition merge_step :: "Intervention \<Rightarrow> Intervention \<Rightarrow> Intervention" where
  "merge_step merged iv =
     \<lparr>iv_inject_messages =
        (case iv_inject_messages iv of
           None \<Rightarrow> iv_inject_messages merged
         | Some ms \<Rightarrow> Some (injected merged @ ms)),
      iv_stop_reason =
        (if iv_stop_reason merged = None \<and> reason_of iv \<noteq> [] then iv_stop_reason iv
         else iv_stop_reason merged),
      iv_skip_tool_execution = (iv_skip_tool_execution merged \<or> iv_skip_tool_execution iv),
      iv_pop_last_message = (iv_pop_last_message merged \<or> iv_pop_last_message iv),
      iv_continue_to_next_turn = (iv_continue_to_next_turn merged \<or> iv_continue_to_next_turn iv)\<rparr>"

definition merge_interventions :: "Intervention list \<Rightarrow> Intervention" where
  "merge_interventions ivs = foldl merge_step no_intervention ivs"

section \<open>Tool calls and their results\<close>

type_synonym tool_call = "pyval pydict"

record ToolCallIntervention =
  tv_rewrite_args :: "pyval pydict option"
  tv_skip_with_result :: "string option"
  tv_metadata_updates :: "pyval pydict option"

text \<open>\<open>d.update(e)\<close>\<close>

definition dict_update :: "'v pydict \<Rightarrow> 'v pydict \<Rightarrow> 'v pydict" where
  "dict_update d e = fold (\<lambda>(k, v). AList.update k v) e d"

text \<open>\<open>None\<close> is an observer that answered nothing.\<close>

fun tool_call_answers ::
  "ToolCallIntervention option list \<Rightarrow> pyval pydict option \<Rightarrow> string option \<Rightarrow> pyval pydict \<Rightarrow>
   pyval pydict option \<times> string option \<times> pyval pydict" where
  "tool_call_answers [] rewrite skip upd = (rewrite, skip, upd)"
| "tool_call_answers (None # rvs) rewrite skip upd = tool_call_answers rvs rewrite skip upd"
| "tool_call_answers (Some rv # rvs) rewrite skip upd =
     tool_call_answers rvs
       (case tv_rewrite_args rv of None \<Rightarrow> rewrite | Some a \<Rightarrow> Some a)
       (if skip = None then tv_skip_with_result rv else skip)
       (case tv_metadata_updates rv of None \<Rightarrow> upd | Some m \<Rightarrow> dict_update upd m)"

definition notify_tool_call :: "ToolCallIntervention option list \<Rightarrow> ToolCallIntervention" where
  "notify_tool_call rvs =
     (let (rewrite, skip, upd) = tool_call_answers rvs None None []
      in \<lparr>tv_rewrite_args = rewrite, tv_skip_with_result = skip,
          tv_metadata_updates = (if upd = [] then None else Some upd)\<rparr>)"

record ToolResult =
  tr_name :: string
  tr_args :: "pyval pydict"
  tr_result :: string
  tr_tool_call_id :: string
  tr_is_error :: bool
  tr_interrupted :: bool
  tr_error_kind :: string
  tr_images :: "pyval pydict list"

text \<open>Each hook maps a result to a replacement, or to \<open>None\<close> when it answers nothing or raises.\<close>

definition notify_tool_result :: "(ToolResult \<Rightarrow> ToolResult option) list \<Rightarrow> ToolResult \<Rightarrow> ToolResult" where
  "notify_tool_result hooks result =
     foldl (\<lambda>current hook. case hook current of None \<Rightarrow> current | Some r \<Rightarrow> r) result hooks"

section \<open>Configuration and result of a run\<close>

record LoopPolicy =
  lp_phase_id :: string
  lp_no_tool_behavior :: string
  lp_no_tool_nudge_message :: string
  lp_terminal_tool_names :: "string list"
  lp_landing_tool_names :: "string list option"

record LoopConfig =
  lc_max_turns :: int
  lc_max_tool_calls_per_turn :: int
  lc_context_token_limit :: int
  lc_compact_after_turns :: int
  lc_keep_recent :: int
  lc_no_tool_max_retries :: int
  lc_truncation_max_continuations :: int
  lc_runaway_max_loop_recoveries :: int
  lc_role_id :: string
  lc_loop_policy :: LoopPolicy
  lc_context_overflow_guard :: bool
  lc_max_context_length :: int
  lc_max_completion_tokens :: int
  lc_summary_prompt :: string
  lc_system_addendum_per_call :: string
  lc_system_addendum_min_turn :: int
  lc_system_addendum_per_call_role :: string
  lc_tool_result_max_chars :: "int option"

definition default_LoopPolicy :: LoopPolicy where
  "default_LoopPolicy = \<lparr>lp_phase_id = [], lp_no_tool_behavior = ''nudge'', lp_no_tool_nudge_message = [],
     lp_terminal_tool_names = [], lp_landing_tool_names = None\<rparr>"

definition default_LoopConfig :: LoopConfig where
  "default_LoopConfig = \<lparr>lc_max_turns = 50, lc_max_tool_calls_per_turn = 5, lc_context_token_limit = 120000,
     lc_compact_after_turns = 12, lc_keep_recent = 16, lc_no_tool_max_retries = 2,
     lc_truncation_max_continuations = 2, lc_runaway_max_loop_recoveries = 1, lc_role_id = [],
     lc_loop_policy = default_LoopPolicy, lc_context_overflow_guard = False,
     lc_max_context_length = 262144, lc_max_completion_tokens = 32768, lc_summary_prompt = [],
     lc_system_addendum_per_call = [], lc_system_addendum_min_turn = 0,
     lc_system_addendum_per_call_role = ''system'', lc_tool_result_max_chars = None\<rparr>"

record AgentLoopResult =
  rs_messages :: "message list"
  rs_final_content :: string
  rs_turns_used :: int
  rs_tool_calls_count :: int
  rs_stopped_by :: string
  rs_metadata :: "pyval pydict"

section \<open>Merging\<close>

lemma merge_step_fields:
  "injected (merge_step m iv) = injected m @ injected iv"
  "iv_skip_tool_execution (merge_step m iv) = (iv_skip_tool_execution m \<or> iv_skip_tool_execution iv)"
  "iv_pop_last_message (merge_step m iv) = (iv_pop_last_message m \<or> iv_pop_last_message iv)"
  "iv_continue_to_next_turn (merge_step m iv) = (iv_continue_to_next_turn m \<or> iv_continue_to_next_turn iv)"
  by (auto simp: merge_step_def injected_def split: option.splits)

lemma merge_step_reason:
  "iv_stop_reason m = None \<or> reason_of m \<noteq> [] \<Longrightarrow>
   reason_of (merge_step m iv) = (if reason_of m = [] then reason_of iv else reason_of m)
   \<and> (iv_stop_reason (merge_step m iv) = None \<or> reason_of (merge_step m iv) \<noteq> [])"
  by (auto simp: merge_step_def reason_of_def split: option.splits)

lemma foldl_merge_reason:
  assumes "iv_stop_reason m = None \<or> reason_of m \<noteq> []"
  shows "reason_of (foldl merge_step m ivs) =
    (if reason_of m \<noteq> [] then reason_of m
     else case List.find (\<lambda>r. r \<noteq> []) (map reason_of ivs) of None \<Rightarrow> [] | Some r \<Rightarrow> r)"
  using assms
proof (induction ivs arbitrary: m)
  case Nil
  then show ?case by (auto simp: reason_of_def split: option.splits)
next
  case (Cons iv ivs)
  from merge_step_reason [OF Cons.prems, of iv] Cons.IH [of "merge_step m iv"] show ?case by auto
qed

lemma foldl_merge_fields:
  "injected (foldl merge_step m ivs) = injected m @ concat (map injected ivs)"
  "iv_skip_tool_execution (foldl merge_step m ivs) = (iv_skip_tool_execution m \<or> list_ex iv_skip_tool_execution ivs)"
  "iv_pop_last_message (foldl merge_step m ivs) = (iv_pop_last_message m \<or> list_ex iv_pop_last_message ivs)"
  "iv_continue_to_next_turn (foldl merge_step m ivs) =
     (iv_continue_to_next_turn m \<or> list_ex iv_continue_to_next_turn ivs)"
  by (induction ivs arbitrary: m) (auto simp: merge_step_fields)

section \<open>Properties\<close>

text \<open>
  Merging loses no answer.  The merged intervention injects the messages of all observers in
  their order, carries the first stop reason any of them gave, and sets each control flag iff
  some observer set it.
\<close>

theorem merge_interventions_spec:
  "injected (merge_interventions ivs) = concat (map injected ivs)
   \<and> reason_of (merge_interventions ivs) =
       (case List.find (\<lambda>r. r \<noteq> []) (map reason_of ivs) of None \<Rightarrow> [] | Some r \<Rightarrow> r)
   \<and> iv_skip_tool_execution (merge_interventions ivs) = list_ex iv_skip_tool_execution ivs
   \<and> iv_pop_last_message (merge_interventions ivs) = list_ex iv_pop_last_message ivs
   \<and> iv_continue_to_next_turn (merge_interventions ivs) = list_ex iv_continue_to_next_turn ivs"
  using foldl_merge_reason [of no_intervention ivs]
  by (simp add: merge_interventions_def foldl_merge_fields) (simp add: injected_def reason_of_def)

end
