(* ===== verification/Repetition_Guard.thy ===== *)
theory Repetition_Guard
  imports Loop_Types "HOL-Library.Char_ord" "HOL-Library.List_Lexorder"
begin

text \<open>
  The guard of \<^verbatim>\<open>components/observers/repetition_guard.py\<close>.  The digest of a call's arguments
  (\<open>blake2b\<close> over their JSON) is a parameter \<open>digest\<close> of the definitions.
\<close>

definition REPEATED_TOOL_CALLS_STOP_REASON :: string where
  "REPEATED_TOOL_CALLS_STOP_REASON = ''repeated_tool_calls''"

text \<open>\<open>str(tool_call.get("name") or "")\<close>; names are strings.\<close>

definition call_name :: "tool_call \<Rightarrow> string" where
  "call_name tc = (case get_or_none tc ''name'' of PyStr s \<Rightarrow> s | _ \<Rightarrow> [])"

definition call_signature :: "(pyval \<Rightarrow> string) \<Rightarrow> tool_call \<Rightarrow> string" where
  "call_signature digest tc = call_name tc @ '':'' @ digest (get_or_none tc ''args'')"

definition turn_signature :: "(pyval \<Rightarrow> string) \<Rightarrow> tool_call list \<Rightarrow> string" where
  "turn_signature digest tool_calls = str_join ''|'' (map (call_signature digest) tool_calls)"

record RepetitionGuard =
  rg_threshold :: int
  rg_stop_after :: int
  rg_last_signature :: string
  rg_streak :: int

definition init_guard :: "int \<Rightarrow> int \<Rightarrow> RepetitionGuard" where
  "init_guard threshold stop_after =
     (let th = max 2 threshold
      in \<lparr>rg_threshold = th, rg_stop_after = (if stop_after \<noteq> 0 then max (th + 1) stop_after else 0),
          rg_last_signature = [], rg_streak = 0\<rparr>)"

definition reset_guard :: "RepetitionGuard \<Rightarrow> RepetitionGuard" where
  "reset_guard g = g\<lparr>rg_last_signature := [], rg_streak := 0\<rparr>"

text \<open>\<open>", ".join(sorted({...}))\<close>\<close>

definition joined_names :: "tool_call list \<Rightarrow> string" where
  "joined_names tcs = str_join '', '' (sort (remdups (map call_name tcs)))"

definition hint_text :: "string \<Rightarrow> int \<Rightarrow> string" where
  "hint_text names streak =
     ''You have now called '' @ names @ '' '' @ str_of_int streak @ '' times in a row ''
     @ ''with identical arguments, and the results are not changing. ''
     @ ''Repeating it again will not help. Change the arguments, use a ''
     @ ''different tool, or work with what you already have.''"

definition on_turn_end ::
  "(pyval \<Rightarrow> string) \<Rightarrow> tool_call list \<Rightarrow> RepetitionGuard \<Rightarrow> RepetitionGuard \<times> Intervention option" where
  "on_turn_end digest tool_calls g =
     (if tool_calls = [] then (reset_guard g, None)
      else
        let signature = turn_signature digest tool_calls in
        if signature = rg_last_signature g then
          let g' = g\<lparr>rg_streak := rg_streak g + 1\<rparr>;
              names = joined_names tool_calls
          in if rg_stop_after g' \<noteq> 0 \<and> rg_stop_after g' \<le> rg_streak g'
             then (g', Some (stop_with REPEATED_TOOL_CALLS_STOP_REASON))
             else if rg_streak g' < rg_threshold g' \<or> rg_streak g' mod rg_threshold g' \<noteq> 0
             then (g', None)
             else (g', Some (inject_only [hint_text names (rg_streak g')]))
        else (g\<lparr>rg_last_signature := signature, rg_streak := 1\<rparr>, None))"

text \<open>A loop: the turns in order, with what the guard answered to each.\<close>

fun guard_run ::
  "(pyval \<Rightarrow> string) \<Rightarrow> RepetitionGuard \<Rightarrow> tool_call list list \<Rightarrow>
   RepetitionGuard \<times> Intervention option list" where
  "guard_run digest g [] = (g, [])"
| "guard_run digest g (t # ts) =
     (let (g1, iv) = on_turn_end digest t g; (g2, ivs) = guard_run digest g1 ts in (g2, iv # ivs))"

section \<open>The streak\<close>

text \<open>The number of turns at the end of the history that carry the same calls as the last one.\<close>

definition same_suffix :: "(pyval \<Rightarrow> string) \<Rightarrow> tool_call list list \<Rightarrow> nat" where
  "same_suffix digest turns =
     (if turns = [] \<or> last turns = [] then 0
      else length (takeWhile (\<lambda>t. t \<noteq> [] \<and> turn_signature digest t = turn_signature digest (last turns))
             (rev turns)))"

lemma turn_signature_nonempty: "tcs \<noteq> [] \<Longrightarrow> turn_signature digest tcs \<noteq> []"
  by (cases tcs; cases "tl tcs")
     (auto simp: turn_signature_def call_signature_def neq_Nil_conv)

lemma guard_run_snoc:
  "guard_run digest g (ts @ [t]) =
     (let (g1, ivs) = guard_run digest g ts; (g2, iv) = on_turn_end digest t g1 in (g2, ivs @ [iv]))"
  by (induction ts arbitrary: g) (auto split: prod.splits)

lemma on_turn_end_config:
  "rg_threshold (fst (on_turn_end digest t g)) = rg_threshold g
   \<and> rg_stop_after (fst (on_turn_end digest t g)) = rg_stop_after g"
  by (simp add: on_turn_end_def reset_guard_def Let_def)

lemma same_suffix_snoc:
  "same_suffix digest (ts @ [t]) =
     (if t = [] then 0
      else if ts \<noteq> [] \<and> last ts \<noteq> [] \<and> turn_signature digest (last ts) = turn_signature digest t
      then Suc (same_suffix digest ts) else 1)"
proof (cases "ts = []")
  case True
  then show ?thesis by (simp add: same_suffix_def)
next
  case False
  then obtain us u where "ts = us @ [u]" by (metis append_butlast_last_id)
  then show ?thesis by (auto simp: same_suffix_def)
qed

lemma guard_state:
  assumes "guard_run digest (init_guard th sa) ts = (g, ivs)"
  shows "rg_streak g = int (same_suffix digest ts)
    \<and> rg_last_signature g = (if ts = [] \<or> last ts = [] then [] else turn_signature digest (last ts))
    \<and> rg_threshold g = rg_threshold (init_guard th sa)
    \<and> rg_stop_after g = rg_stop_after (init_guard th sa) \<and> length ivs = length ts"
  using assms
proof (induction ts arbitrary: g ivs rule: rev_induct)
  case Nil
  then show ?case by (auto simp: same_suffix_def init_guard_def Let_def)
next
  case (snoc t ts)
  obtain g1 ivs1 where 1: "guard_run digest (init_guard th sa) ts = (g1, ivs1)" by fastforce
  obtain g2 iv where 2: "on_turn_end digest t g1 = (g2, iv)" by fastforce
  have g: "g = g2" "ivs = ivs1 @ [iv]" using snoc.prems 1 2 by (simp_all add: guard_run_snoc)
  have cfg: "rg_threshold g2 = rg_threshold g1" "rg_stop_after g2 = rg_stop_after g1"
    using on_turn_end_config [of digest t g1] 2 by simp_all
  note IH = snoc.IH [OF 1]
  have "rg_streak g2 = int (same_suffix digest (ts @ [t]))
      \<and> rg_last_signature g2 = (if t = [] then [] else turn_signature digest t)"
    using 2 IH turn_signature_nonempty [of t digest]
    by (auto simp: on_turn_end_def reset_guard_def same_suffix_snoc Let_def split: if_splits)
  with g cfg IH show ?case by simp
qed

text \<open>The answer to the last turn, from the streak alone.\<close>

definition expected_answer :: "int \<Rightarrow> int \<Rightarrow> int \<Rightarrow> tool_call list \<Rightarrow> Intervention option" where
  "expected_answer th sa streak t =
     (if streak < 2 then None
      else if sa \<noteq> 0 \<and> sa \<le> streak
      then Some (stop_with REPEATED_TOOL_CALLS_STOP_REASON)
      else if th \<le> streak \<and> th dvd streak
      then Some (inject_only [hint_text (joined_names t) streak])
      else None)"

lemma same_suffix_pos: "t \<noteq> [] \<Longrightarrow> same_suffix digest (ts @ [t]) \<ge> 1"
  by (simp add: same_suffix_snoc)

section \<open>Properties\<close>

text \<open>
  The guard answers exactly to the length of the repetition.  After any history of turns,
  its answer to the last one is determined by the number of consecutive turns at the end that
  carry the same calls: a stop once that number reaches \<open>stop_after\<close>, otherwise a hint at each
  multiple of the threshold, otherwise nothing.
\<close>

theorem repetition_exact:
  assumes "guard_run digest (init_guard th sa) (ts @ [t]) = (g, ivs)"
  shows "last ivs = expected_answer (rg_threshold (init_guard th sa)) (rg_stop_after (init_guard th sa))
     (int (same_suffix digest (ts @ [t]))) t"
proof -
  obtain g1 ivs1 where 1: "guard_run digest (init_guard th sa) ts = (g1, ivs1)" by fastforce
  obtain g2 iv where 2: "on_turn_end digest t g1 = (g2, iv)" by fastforce
  note S = guard_state [OF 1]
  have iv: "last ivs = iv" using assms 1 2 by (auto simp: guard_run_snoc)
  let ?th = "rg_threshold (init_guard th sa)" and ?sa = "rg_stop_after (init_guard th sa)"
  let ?same = "t \<noteq> [] \<and> turn_signature digest t = rg_last_signature g1"
  show ?thesis
  proof (cases ?same)
    case True
    with turn_signature_nonempty [of t digest] S
    have l: "ts \<noteq> [] \<and> last ts \<noteq> []" "turn_signature digest (last ts) = turn_signature digest t"
      by (auto split: if_splits)
    then have "same_suffix digest ts \<ge> 1"
      using same_suffix_pos [of "last ts" digest "butlast ts"] by simp
    with l True have len: "int (same_suffix digest (ts @ [t])) = rg_streak g1 + 1" "rg_streak g1 \<ge> 1"
      using S by (simp_all add: same_suffix_snoc)
    have "iv = (if ?sa \<noteq> 0 \<and> ?sa \<le> rg_streak g1 + 1
        then Some (stop_with REPEATED_TOOL_CALLS_STOP_REASON)
        else if rg_streak g1 + 1 < ?th \<or> (rg_streak g1 + 1) mod ?th \<noteq> 0 then None
        else Some (inject_only [hint_text (joined_names t) (rg_streak g1 + 1)]))"
      using 2 True S by (auto simp: on_turn_end_def Let_def)
    then show ?thesis unfolding iv len(1) using len(2)
      by (simp add: expected_answer_def dvd_eq_mod_eq_0 not_le)
  next
    case False
    with 2 have "iv = None" by (auto simp: on_turn_end_def Let_def split: if_splits)
    moreover have "same_suffix digest (ts @ [t]) \<le> 1"
      using False S by (auto simp: same_suffix_snoc split: if_splits)
    ultimately show ?thesis by (simp add: iv expected_answer_def)
  qed
qed

theorem repetition_exact_witness:
  "last (snd (guard_run (\<lambda>a. ''d'') (init_guard 2 0)
      ([[[(''name'', PyStr ''bash'')]]] @ [[[(''name'', PyStr ''bash'')]]])))
   = Some (inject_only [hint_text ''bash'' 2])"
proof -
  let ?t = "[[(''name'', PyStr ''bash'')]]"
  obtain g ivs where r: "guard_run (\<lambda>a. ''d'') (init_guard 2 0) ([?t] @ [?t]) = (g, ivs)" by fastforce
  have "same_suffix (\<lambda>a. ''d'') ([?t] @ [?t]) = 2" by (simp add: same_suffix_def)
  moreover have "joined_names ?t = ''bash''" by (simp add: joined_names_def call_name_def get_or_none_def)
  ultimately show ?thesis
    using repetition_exact [OF r] r by (simp add: expected_answer_def init_guard_def)
qed

lemma guard_run_take: "snd (guard_run digest g (take n ts)) = take n (snd (guard_run digest g ts))"
  by (induction ts arbitrary: g n) (auto simp: case_prod_beta take_Cons split: nat.splits)

lemma guard_run_length: "length (snd (guard_run digest g ts)) = length ts"
  by (induction ts arbitrary: g) (auto simp: case_prod_beta)

lemma answer_at:
  assumes "guard_run digest (init_guard th sa) ts = (g, ivs)" and "i < length ts"
  shows "ivs ! i = expected_answer (rg_threshold (init_guard th sa)) (rg_stop_after (init_guard th sa))
     (int (same_suffix digest (take (Suc i) ts))) (ts ! i)"
proof -
  obtain g1 ivs1 where 1: "guard_run digest (init_guard th sa) (take (Suc i) ts) = (g1, ivs1)" by fastforce
  have "ivs1 = take (Suc i) ivs" using guard_run_take [of digest "init_guard th sa" "Suc i" ts] 1 assms(1) by simp
  moreover have "length ivs = length ts" using guard_run_length [of digest "init_guard th sa" ts] assms(1) by simp
  ultimately have "last ivs1 = ivs ! i" using assms(2) by (simp add: take_Suc_conv_app_nth)
  moreover have t: "take (Suc i) ts = take i ts @ [ts ! i]" using assms(2) by (rule take_Suc_conv_app_nth)
  ultimately show ?thesis using repetition_exact [OF 1 [unfolded t]] t by simp
qed

text \<open>A repetition grew by one turn at a time.\<close>

lemma same_suffix_earlier:
  assumes "1 \<le> m" and "m \<le> same_suffix digest (take (Suc i) ts)" and "i < length ts"
  shows "\<exists>k \<le> i. i - k = same_suffix digest (take (Suc i) ts) - m
    \<and> same_suffix digest (take (Suc k) ts) = m"
  using assms
proof (induction i)
  case 0
  have "same_suffix digest (take (Suc 0) ts) \<le> 1"
    using 0(3) by (cases ts) (auto simp: same_suffix_def)
  with 0 have "m = same_suffix digest (take (Suc 0) ts)" by simp
  then show ?case by auto
next
  case (Suc i)
  show ?case
  proof (cases "m = same_suffix digest (take (Suc (Suc i)) ts)")
    case False
    then have "2 \<le> same_suffix digest (take (Suc (Suc i)) ts)" using Suc.prems(1,2) by simp
    moreover have "take (Suc (Suc i)) ts = take (Suc i) ts @ [ts ! Suc i]"
      using Suc.prems(3) by (rule take_Suc_conv_app_nth)
    ultimately have s: "same_suffix digest (take (Suc (Suc i)) ts) = Suc (same_suffix digest (take (Suc i) ts))"
      by (auto simp: same_suffix_snoc split: if_splits)
    then have "m \<le> same_suffix digest (take (Suc i) ts)" using False Suc.prems(2) by simp
    from Suc.IH [OF Suc.prems(1) this] Suc.prems(3) obtain k where
      "k \<le> i" "i - k = same_suffix digest (take (Suc i) ts) - m"
      "same_suffix digest (take (Suc k) ts) = m" by auto
    with s \<open>m \<le> same_suffix digest (take (Suc i) ts)\<close> show ?thesis
      by (intro exI [of _ k]) auto
  qed auto
qed

text \<open>
  The model is warned before it is stopped.  Whenever the guard stops a loop, it injected a
  hint on an earlier turn, and no turn without tool calls, which would have broken the
  repetition, lies in between.
\<close>

theorem hint_before_stop:
  assumes "guard_run digest (init_guard th sa) ts = (g, ivs)" and "i < length ts"
    and "ivs ! i = Some stop" and "iv_stop_reason stop \<noteq> None"
  shows "\<exists>k < i. \<exists>hint. ivs ! k = Some hint \<and> injected hint \<noteq> []
    \<and> (\<forall>l. k \<le> l \<and> l \<le> i \<longrightarrow> ts ! l \<noteq> [])"
proof -
  let ?th = "rg_threshold (init_guard th sa)" and ?sa = "rg_stop_after (init_guard th sa)"
  let ?n = "same_suffix digest (take (Suc i) ts)"
  have c: "2 \<le> ?th" "?sa \<noteq> 0 \<Longrightarrow> ?th + 1 \<le> ?sa" by (auto simp: init_guard_def Let_def)
  have "?sa \<noteq> 0" "?sa \<le> int ?n"
    using answer_at [OF assms(1,2)] assms(3,4) by (auto simp: expected_answer_def split: if_splits)
  with c have n: "nat ?th < ?n" by linarith
  have th1: "1 \<le> nat ?th" using c(1) by linarith
  then obtain k where k: "k \<le> i" "i - k = ?n - nat ?th" "same_suffix digest (take (Suc k) ts) = nat ?th"
    using same_suffix_earlier [of "nat ?th" digest i ts] n assms(2) by auto
  have "k < i" using k(1,2) n by linarith
  moreover have "ivs ! k = Some (inject_only [hint_text (joined_names (ts ! k)) ?th])"
    using answer_at [OF assms(1), of k] k(1,3) assms(2) c \<open>?sa \<noteq> 0\<close>
    by (simp add: expected_answer_def)
  moreover have "ts ! l \<noteq> []" if l: "k \<le> l" "l \<le> i" for l
  proof -
    have "1 \<le> ?n - (i - l)" using l k(1,2) n th1 by linarith
    moreover have "?n - (i - l) \<le> ?n" by simp
    ultimately obtain q where "q \<le> i" "i - q = ?n - (?n - (i - l))"
      "same_suffix digest (take (Suc q) ts) = ?n - (i - l)"
      using same_suffix_earlier [of "?n - (i - l)" digest i ts] assms(2) by auto
    moreover from this l k n have "q = l" by linarith
    ultimately have "same_suffix digest (take (Suc l) ts) \<ge> 1" using l k(1,2) n th1 by simp
    moreover have "take (Suc l) ts = take l ts @ [ts ! l]"
      using l(2) assms(2) by (intro take_Suc_conv_app_nth) simp
    ultimately show ?thesis by (auto simp: same_suffix_snoc)
  qed
  ultimately show ?thesis by (intro exI [of _ k]) (auto simp: injected_def)
qed

theorem hint_before_stop_witness:
  "\<exists>k < 2. \<exists>hint. snd (guard_run (\<lambda>a. ''d'') (init_guard 2 3) (replicate 3 [[(''name'', PyStr ''bash'')]])) ! k
      = Some hint \<and> injected hint \<noteq> []"
proof -
  let ?ts = "replicate 3 [[(''name'', PyStr ''bash'')]]"
  obtain g ivs where r: "guard_run (\<lambda>a. ''d'') (init_guard 2 3) ?ts = (g, ivs)" by fastforce
  have "snd (guard_run (\<lambda>a. ''d'') (init_guard 2 3) ?ts) ! 2 =
      Some (stop_with REPEATED_TOOL_CALLS_STOP_REASON)"
    by code_simp
  with hint_before_stop [OF r, of 2] r show ?thesis by fastforce
qed

end
