(* ===== verification/Rate_Limit.thy ===== *)
theory Rate_Limit
  imports Messages
begin

text \<open>
  The token bucket of \<^verbatim>\<open>components/middleware/rate_limit.py\<close>.  Time and the bucket levels are real
  numbers; the clock reading of a critical section is an argument.  One pass through the loop of
  \<open>acquire\<close> is \<open>try_acquire\<close>: it admits the request or says how long to sleep.
\<close>

record TokenBucket =
  tk_rpm :: real
  tk_tpm :: real
  tk_request_tokens :: real
  tk_token_tokens :: real
  tk_last_refill :: real

text \<open>\<open>None\<close> where the constructor raises.\<close>

definition init_bucket :: "int \<Rightarrow> int \<Rightarrow> real \<Rightarrow> TokenBucket option" where
  "init_bucket requests_per_min tokens_per_min now =
     (if requests_per_min \<le> 0 \<or> tokens_per_min \<le> 0 then None
      else Some \<lparr>tk_rpm = real_of_int requests_per_min, tk_tpm = real_of_int tokens_per_min,
                 tk_request_tokens = real_of_int requests_per_min,
                 tk_token_tokens = real_of_int tokens_per_min, tk_last_refill = now\<rparr>)"

definition refill :: "real \<Rightarrow> TokenBucket \<Rightarrow> TokenBucket" where
  "refill now b =
     (let elapsed_min = (now - tk_last_refill b) / 60
      in b\<lparr>tk_request_tokens := min (tk_rpm b) (tk_request_tokens b + elapsed_min * tk_rpm b),
           tk_token_tokens := min (tk_tpm b) (tk_token_tokens b + elapsed_min * tk_tpm b),
           tk_last_refill := now\<rparr>)"

definition reservation_size :: "int \<Rightarrow> TokenBucket \<Rightarrow> int" where
  "reservation_size estimated_tokens b = min (max estimated_tokens 0) \<lfloor>tk_tpm b\<rfloor>"

definition wait_time :: "int \<Rightarrow> TokenBucket \<Rightarrow> real" where
  "wait_time requested_tokens b =
     (let req_wait = (if tk_request_tokens b < 1 then ((1 - tk_request_tokens b) / tk_rpm b) * 60 else 0);
          tok_wait = (if 0 < requested_tokens \<and> tk_token_tokens b < real_of_int requested_tokens
                      then ((real_of_int requested_tokens - tk_token_tokens b) / tk_tpm b) * 60 else 0)
      in max req_wait tok_wait)"

definition take_capacity :: "int \<Rightarrow> TokenBucket \<Rightarrow> TokenBucket" where
  "take_capacity requested_tokens b =
     b\<lparr>tk_request_tokens := tk_request_tokens b - 1,
       tk_token_tokens := (if 0 < requested_tokens
                           then tk_token_tokens b - real_of_int requested_tokens
                           else tk_token_tokens b)\<rparr>"

definition try_acquire :: "int \<Rightarrow> real \<Rightarrow> TokenBucket \<Rightarrow> (real + unit) \<times> TokenBucket" where
  "try_acquire estimated_tokens now b =
     (let requested_tokens = reservation_size estimated_tokens b;
          b1 = refill now b;
          w = wait_time requested_tokens b1
      in if w \<le> 0 then (Inr (), take_capacity requested_tokens b1) else (Inl w, b1))"

definition adjust :: "int \<Rightarrow> int \<Rightarrow> TokenBucket \<Rightarrow> TokenBucket" where
  "adjust actual_tokens estimated_tokens b =
     (let diff = estimated_tokens - actual_tokens in
      if diff \<noteq> 0 then b\<lparr>tk_token_tokens := min (tk_tpm b) (tk_token_tokens b + real_of_int diff)\<rparr>
      else b)"

text \<open>The middleware's prompt estimate, four characters a token; \<open>str_of\<close> is Python's \<open>str\<close>.\<close>

definition estimate_prompt :: "(pyval \<Rightarrow> string) \<Rightarrow> message list \<Rightarrow> int" where
  "estimate_prompt str_of messages =
     int (sum_list (map (\<lambda>m. length (text_of str_of (get_or_none m ''content''))) messages) div 4)"

text \<open>\<open>after_llm\<close>: the total as reported, or the sum of the parts; nothing is corrected without it.\<close>

definition actual_total :: "int option \<Rightarrow> int option \<Rightarrow> int option \<Rightarrow> int option" where
  "actual_total tot inp out =
     (case tot of
        Some t \<Rightarrow> Some t
      | None \<Rightarrow> if inp = None \<and> out = None then None
                else Some ((case inp of None \<Rightarrow> 0 | Some i \<Rightarrow> i) + (case out of None \<Rightarrow> 0 | Some k \<Rightarrow> k)))"

definition after_llm ::
  "int option \<Rightarrow> int option \<Rightarrow> int option \<Rightarrow> int option \<Rightarrow> int option \<Rightarrow> TokenBucket \<Rightarrow> TokenBucket" where
  "after_llm tot inp out reserved legacy_estimate b =
     (case actual_total tot inp out of
        None \<Rightarrow> b
      | Some a \<Rightarrow>
          (case (case reserved of
                   Some r \<Rightarrow> Some r
                 | None \<Rightarrow> map_option (\<lambda>e. reservation_size e b) legacy_estimate) of
             None \<Rightarrow> b
           | Some r \<Rightarrow> adjust a r b))"

section \<open>The rate\<close>

datatype bucket_op =
    Attempt int
  | Correct int int

text \<open>A schedule of operations with the clock readings at which they run; the count of admitted requests.\<close>

fun bucket_run :: "(real \<times> bucket_op) list \<Rightarrow> TokenBucket \<Rightarrow> nat \<times> TokenBucket" where
  "bucket_run [] b = (0, b)"
| "bucket_run ((now, Attempt est) # ops) b =
     (let (res, b1) = try_acquire est now b; (n, b2) = bucket_run ops b1
      in (n + (case res of Inr u \<Rightarrow> 1 | Inl w \<Rightarrow> 0), b2))"
| "bucket_run ((now, Correct actual est) # ops) b = bucket_run ops (adjust actual est b)"

definition bucket_ok :: "TokenBucket \<Rightarrow> bool" where
  "bucket_ok b = (0 < tk_rpm b \<and> 1 \<le> tk_tpm b \<and> tk_tpm b = real_of_int \<lfloor>tk_tpm b\<rfloor> \<and> 1 \<le> tk_rpm b
     \<and> 0 \<le> tk_request_tokens b \<and> tk_request_tokens b \<le> tk_rpm b \<and> tk_token_tokens b \<le> tk_tpm b)"

lemma refill_ok:
  "bucket_ok b \<Longrightarrow> tk_last_refill b \<le> now \<Longrightarrow> bucket_ok (refill now b)"
  by (auto simp: bucket_ok_def refill_def Let_def)

lemma wait_nonpos:
  assumes "bucket_ok b"
  shows "wait_time r b \<le> 0 \<longleftrightarrow>
     1 \<le> tk_request_tokens b \<and> (0 < r \<longrightarrow> real_of_int r \<le> tk_token_tokens b)"
proof -
  have "((1 - x) / tk_rpm b) * 60 \<le> 0 \<longleftrightarrow> 1 \<le> x" for x
    using assms by (auto simp: bucket_ok_def mult_le_0_iff divide_le_0_iff)
  moreover have "((y - x) / tk_tpm b) * 60 \<le> 0 \<longleftrightarrow> y \<le> x" for x y
    using assms by (auto simp: bucket_ok_def mult_le_0_iff divide_le_0_iff)
  ultimately show ?thesis by (simp add: wait_time_def Let_def not_less)
qed

lemma try_acquire_ok:
  assumes "bucket_ok b" and "tk_last_refill b \<le> now" and "try_acquire est now b = (res, b')"
  shows "bucket_ok b' \<and> tk_last_refill b' = now \<and> tk_rpm b' = tk_rpm b
    \<and> tk_request_tokens b' + (case res of Inr u \<Rightarrow> 1 | Inl w \<Rightarrow> 0)
        \<le> tk_request_tokens b + (now - tk_last_refill b) / 60 * tk_rpm b"
proof -
  let ?b1 = "refill now b" and ?r = "reservation_size est b"
  have ok: "bucket_ok ?b1" using refill_ok [OF assms(1,2)] .
  have f: "tk_last_refill ?b1 = now" "tk_rpm ?b1 = tk_rpm b"
    "tk_request_tokens ?b1 \<le> tk_request_tokens b + (now - tk_last_refill b) / 60 * tk_rpm b"
    by (simp_all add: refill_def Let_def)
  show ?thesis
  proof (cases "wait_time ?r ?b1 \<le> 0")
    case True
    then have "res = Inr ()" "b' = take_capacity ?r ?b1"
      using assms(3) by (simp_all add: try_acquire_def Let_def)
    with f ok wait_nonpos [OF ok, of ?r] True show ?thesis
      by (auto simp: take_capacity_def bucket_ok_def)
  next
    case False
    then have "b' = ?b1" "\<exists>w. res = Inl w" using assms(3) by (auto simp: try_acquire_def Let_def)
    with f ok show ?thesis by auto
  qed
qed

lemma adjust_ok:
  "bucket_ok b \<Longrightarrow> bucket_ok (adjust a e b) \<and> tk_last_refill (adjust a e b) = tk_last_refill b
     \<and> tk_rpm (adjust a e b) = tk_rpm b \<and> tk_request_tokens (adjust a e b) = tk_request_tokens b"
  by (auto simp: adjust_def bucket_ok_def Let_def)

lemma bucket_run_bound:
  assumes "bucket_ok b" and "sorted (tk_last_refill b # map fst ops @ [t])"
  shows "real (fst (bucket_run ops b)) \<le> tk_request_tokens b + (t - tk_last_refill b) / 60 * tk_rpm b"
  using assms
proof (induction ops arbitrary: b)
  case Nil
  then have "0 \<le> (t - tk_last_refill b) / 60 * tk_rpm b" by (simp add: bucket_ok_def)
  with Nil(1) show ?case by (simp add: bucket_ok_def)
next
  case (Cons op ops)
  obtain now o1 where op: "op = (now, o1)" by fastforce
  show ?case
  proof (cases o1)
    case (Attempt est)
    obtain res b1 where a: "try_acquire est now b = (res, b1)" by fastforce
    have ok: "bucket_ok b1 \<and> tk_last_refill b1 = now \<and> tk_rpm b1 = tk_rpm b
        \<and> tk_request_tokens b1 + (case res of Inr u \<Rightarrow> 1 | Inl w \<Rightarrow> 0)
          \<le> tk_request_tokens b + (now - tk_last_refill b) / 60 * tk_rpm b"
      using try_acquire_ok [OF Cons.prems(1) _ a] Cons.prems(2) op by auto
    then have "real (fst (bucket_run ops b1)) \<le> tk_request_tokens b1 + (t - now) / 60 * tk_rpm b"
      using Cons.IH [of b1] Cons.prems(2) op by auto
    with ok show ?thesis
      by (cases res) (auto simp: op Attempt a split: prod.splits simp: field_simps)
  next
    case (Correct actual est)
    with adjust_ok [OF Cons.prems(1), of actual est] Cons.IH [of "adjust actual est b"] Cons.prems(2)
    show ?thesis by (auto simp: op)
  qed
qed

section \<open>Properties\<close>

text \<open>
  C28: the limiter holds its request rate.  Over any window that starts with the bucket in some
  state and lasts until \<open>t\<close>, with any interleaving of attempts and corrections at non-decreasing
  times, the requests admitted are at most what the bucket held plus the refill of the window;
  from a new bucket that is one minute's quota plus the rate times the elapsed minutes.
\<close>

theorem rate_bound:
  assumes "init_bucket rpm tpm t0 = Some b" and "sorted (t0 # map fst ops @ [t])"
  shows "real (fst (bucket_run ops b)) \<le> real_of_int rpm + (t - t0) / 60 * real_of_int rpm"
proof -
  have "bucket_ok b" "tk_last_refill b = t0" "tk_request_tokens b = real_of_int rpm"
    "tk_rpm b = real_of_int rpm"
    using assms(1) by (auto simp: init_bucket_def bucket_ok_def split: if_splits)
  with bucket_run_bound [of b ops t] assms(2) show ?thesis by simp
qed

theorem rate_bound_witness:
  "real (fst (bucket_run [(0, Attempt 10), (3, Attempt 0)] (the (init_bucket 1 100 0)))) \<le> 1 + (60 - 0) / 60 * 1"
proof -
  have i: "init_bucket 1 100 0 = Some (the (init_bucket 1 100 0))" by (simp add: init_bucket_def)
  show ?thesis
    using rate_bound [OF i, of "[(0, Attempt 10), (3, Attempt 0)]" 60] by simp
qed

text \<open>
  A waiter that sleeps as long as it was told and finds the bucket untouched is admitted:
  no request waits forever, because a reservation is capped at one minute's capacity.
\<close>

theorem wait_is_enough:
  assumes "bucket_ok b" and "tk_last_refill b \<le> now" and "try_acquire est now b = (Inl w, b1)"
    and "now + w \<le> later"
  shows "fst (try_acquire est later b1) = Inr ()"
proof -
  let ?b1 = "refill now b" and ?r = "reservation_size est b"
  have b1: "b1 = ?b1" "w = wait_time ?r ?b1" "0 < w"
    using assms(3) by (auto simp: try_acquire_def Let_def split: if_splits)
  have ok: "bucket_ok ?b1" using refill_ok [OF assms(1,2)] .
  have r: "reservation_size est b1 = ?r" by (simp add: b1 reservation_size_def refill_def Let_def)
  let ?b2 = "refill later ?b1"
  have last: "tk_last_refill ?b1 = now" by (simp add: refill_def Let_def)
  have later: "w \<le> later - now" using assms(4) by simp
  have ok2: "bucket_ok ?b2" by (rule refill_ok [OF ok]) (use last later b1(3) in simp)
  have pos: "0 < tk_rpm ?b1" "0 < tk_tpm ?b1" "1 \<le> tk_rpm ?b1" using ok by (auto simp: bucket_ok_def)
  have "1 - tk_request_tokens ?b1 \<le> (later - now) / 60 * tk_rpm ?b1"
  proof (cases "tk_request_tokens ?b1 < 1")
    case True
    then have "((1 - tk_request_tokens ?b1) / tk_rpm ?b1) * 60 \<le> w"
      by (simp add: b1(2) wait_time_def Let_def)
    with later have "((1 - tk_request_tokens ?b1) / tk_rpm ?b1) * 60 \<le> later - now" by simp
    with pos(1) show ?thesis by (simp add: field_simps)
  next
    case False
    have "0 \<le> (later - now) / 60 * tk_rpm ?b1" using later b1(3) pos(1) by simp
    with False show ?thesis by simp
  qed
  then have 1: "1 \<le> tk_request_tokens ?b2"
    using pos(3) by (simp add: refill_def [of later] last Let_def)
  have "real_of_int ?r \<le> tk_token_tokens ?b2" if "0 < ?r"
  proof -
    have "real_of_int ?r - tk_token_tokens ?b1 \<le> (later - now) / 60 * tk_tpm ?b1"
    proof (cases "tk_token_tokens ?b1 < real_of_int ?r")
      case True
      then have "((real_of_int ?r - tk_token_tokens ?b1) / tk_tpm ?b1) * 60 \<le> w"
        using that by (simp add: b1(2) wait_time_def Let_def)
      with later have "((real_of_int ?r - tk_token_tokens ?b1) / tk_tpm ?b1) * 60 \<le> later - now" by simp
      with pos(2) show ?thesis by (simp add: field_simps)
    next
      case False
      have "0 \<le> (later - now) / 60 * tk_tpm ?b1" using later b1(3) pos(2) by simp
      with False show ?thesis by simp
    qed
    moreover have "?r \<le> \<lfloor>tk_tpm b\<rfloor>" by (simp add: reservation_size_def)
    then have "real_of_int ?r \<le> tk_tpm ?b1" by (simp add: le_floor_iff refill_def Let_def)
    ultimately show ?thesis by (simp add: refill_def [of later] last Let_def)
  qed
  with 1 wait_nonpos [OF ok2, of ?r] have "wait_time ?r ?b2 \<le> 0" by blast
  then show ?thesis by (simp add: try_acquire_def b1(1) r [unfolded b1(1)] Let_def)
qed

theorem wait_is_enough_witness:
  "\<exists>w b1. try_acquire 0 0 \<lparr>tk_rpm = 1, tk_tpm = 100, tk_request_tokens = 0, tk_token_tokens = 100,
       tk_last_refill = 0\<rparr> = (Inl w, b1) \<and> fst (try_acquire 0 (0 + w) b1) = Inr ()"
proof -
  let ?b = "\<lparr>tk_rpm = 1, tk_tpm = 100, tk_request_tokens = 0, tk_token_tokens = 100,
    tk_last_refill = 0\<rparr> :: TokenBucket"
  obtain w b1 where w: "try_acquire 0 0 ?b = (Inl w, b1)"
    by (simp add: try_acquire_def wait_time_def refill_def reservation_size_def Let_def)
  have "bucket_ok ?b" by (simp add: bucket_ok_def)
  from wait_is_enough [OF this _ w, of "0 + w"] w show ?thesis by auto
qed

text \<open>
  The correction charges what was used.  After an admission the bucket is debited by the
  reservation; correcting it with the reported usage leaves it debited by that usage instead,
  capped at one minute's capacity, and unreported usage leaves the reservation in place.
\<close>

theorem correction_charges_usage:
  assumes "bucket_ok b" and "try_acquire est now b = (Inr (), b1)"
  shows "tk_token_tokens (after_llm tot inp out (Some (reservation_size est b)) legacy b1) =
     (case actual_total tot inp out of
        None \<Rightarrow> tk_token_tokens (refill now b) - real_of_int (reservation_size est b)
      | Some used \<Rightarrow> min (tk_tpm b) (tk_token_tokens (refill now b) - real_of_int used))"
proof -
  let ?r = "reservation_size est b"
  have b1: "b1 = take_capacity ?r (refill now b)"
    using assms(2) by (simp add: try_acquire_def Let_def split: if_splits)
  have r: "0 \<le> ?r" using assms(1) by (simp add: reservation_size_def bucket_ok_def)
  then have "tk_token_tokens b1 = tk_token_tokens (refill now b) - real_of_int ?r"
    "tk_tpm b1 = tk_tpm b"
    by (simp_all add: b1 take_capacity_def refill_def Let_def)
  moreover have "tk_token_tokens (refill now b) \<le> tk_tpm b" by (simp add: refill_def Let_def)
  ultimately show ?thesis using r
    by (auto simp: after_llm_def adjust_def Let_def split: option.splits)
qed

theorem correction_charges_usage_witness:
  "tk_token_tokens (after_llm (Some 30) None None (Some 10) None (snd (try_acquire 10 0
      \<lparr>tk_rpm = 1, tk_tpm = 100, tk_request_tokens = 1, tk_token_tokens = 100, tk_last_refill = 0\<rparr>))) = 70"
proof -
  let ?b = "\<lparr>tk_rpm = 1, tk_tpm = 100, tk_request_tokens = 1, tk_token_tokens = 100,
    tk_last_refill = 0\<rparr> :: TokenBucket"
  have ok: "bucket_ok ?b" by (simp add: bucket_ok_def)
  obtain b1 where b1: "try_acquire 10 0 ?b = (Inr (), b1)"
    by (simp add: try_acquire_def wait_time_def refill_def reservation_size_def Let_def)
  from correction_charges_usage [OF ok b1, of "Some 30" None None None] b1 show ?thesis
    by (simp add: reservation_size_def actual_total_def refill_def Let_def)
qed

end
