(* ===== verification/Response.thy ===== *)
theory Response
  imports Messages
begin

text \<open>
  Reading a model response (\<^verbatim>\<open>runtime/loop/_response.py\<close>): the visible text with the reasoning
  stripped, the final answer of a history, and the normalised token usage of a native response.
  \<open>str_of\<close> is Python's \<open>str\<close> on values that are not strings.
\<close>

record LLMResponse =
  ll_content :: pyval
  ll_tool_calls :: "pyval list"
  ll_reasoning_content :: string
  ll_finish_reason :: string
  ll_model :: string
  ll_usage :: "int pydict"
  ll_response_metadata :: "pyval pydict"
  ll_usage_source :: string

section \<open>Stripping inlined reasoning\<close>

text \<open>The text before and after the first occurrence of a separator.\<close>

fun split_first :: "string \<Rightarrow> string \<Rightarrow> (string \<times> string) option" where
  "split_first sep [] = None"
| "split_first sep (c # cs) =
     (if prefix sep (c # cs) then Some ([], drop (length sep) (c # cs))
      else map_option (\<lambda>(pre, post). (c # pre, post)) (split_first sep cs))"

lemma split_first_Some:
  "split_first sep s = Some (pre, post) \<Longrightarrow> s = pre @ sep @ post"
  by (induction sep s arbitrary: pre rule: split_first.induct)
     (auto split: if_splits simp: prefix_def)

lemma split_first_None_iff:
  assumes "sep \<noteq> []"
  shows "split_first sep s = None \<longleftrightarrow> \<not> sublist sep s"
  using assms by (induction s) (auto simp: sublist_Cons_right)

lemma split_first_pre:
  assumes "split_first sep s = Some (pre, post)" and "sep \<noteq> []"
  shows "\<not> sublist sep pre"
  using assms
proof (induction s arbitrary: pre)
  case (Cons c cs)
  show ?case
  proof (cases "prefix sep (c # cs)")
    case True
    with Cons.prems show ?thesis by auto
  next
    case False
    with Cons.prems(1) obtain p where p: "pre = c # p" "split_first sep cs = Some (p, post)" by auto
    then have "\<not> sublist sep p" using Cons.IH Cons.prems(2) by blast
    moreover have "\<not> prefix sep (c # p)"
    proof
      assume "prefix sep (c # p)"
      then have "prefix sep ((c # p) @ sep @ post)" by (rule prefix_prefix)
      with False split_first_Some [OF p(2)] show False by simp
    qed
    ultimately show ?thesis by (simp add: p(1) sublist_Cons_right)
  qed
qed simp

text \<open>\<open>_THINK_BLOCK_RE.sub("", text)\<close>: closed blocks and the blanks after them.\<close>

function strip_blocks :: "string \<Rightarrow> string" where
  "strip_blocks text =
     (case split_first think_open text of
        None \<Rightarrow> text
      | Some (pre, rest) \<Rightarrow>
          (case split_first think_close rest of
             None \<Rightarrow> text
           | Some (body, post) \<Rightarrow> pre @ strip_blocks (dropWhile is_space post)))"
  by pat_completeness auto

termination
proof (relation "measure length", goal_cases)
  case (2 s x2 pre rest x2a body post)
  then have "s = pre @ think_open @ rest" "rest = body @ think_close @ post"
    using split_first_Some by blast+
  then show ?case using length_dropWhile_le [of is_space post] by (simp add: think_open_def)
qed simp

declare strip_blocks.simps [simp del]

text \<open>\<open>s.rsplit(sep, 1)[-1]\<close>\<close>

definition after_last :: "string \<Rightarrow> string \<Rightarrow> string" where
  "after_last sep s =
     (case before_last sep s of None \<Rightarrow> s | Some p \<Rightarrow> drop (length p + length sep) s)"

definition strip_thinking_blocks :: "string \<Rightarrow> string" where
  "strip_thinking_blocks s =
     (let t1 = strip_blocks s;
          t2 = (case split_first think_open t1 of None \<Rightarrow> t1 | Some (pre, rest) \<Rightarrow> pre)
      in str_strip (after_last think_close t2))"

lemma before_last_final:
  "before_last sep s = Some p \<Longrightarrow> before_last sep (drop (Suc (length p)) s) = None"
  by (induction s arbitrary: p) (auto split: option.splits if_splits)

lemma drop_sublist: "sublist (drop n s) s"
  by (metis append_take_drop_id sublist_append_leftI)

lemma sublist_drop: "sublist t (drop n s) \<Longrightarrow> sublist t s"
  by (rule sublist_order.order_trans [OF _ drop_sublist])

lemma after_last_free:
  assumes "sep \<noteq> []"
  shows "\<not> sublist sep (after_last sep s)"
proof (cases "before_last sep s")
  case None
  then have "\<not> sublist sep s" using before_last_None_iff [OF assms] by blast
  with None show ?thesis by (simp add: after_last_def)
next
  case (Some p)
  obtain n where n: "length sep = Suc n" using assms by (cases sep) auto
  have "\<not> sublist sep (drop (Suc (length p)) s)"
    using before_last_final [OF Some] before_last_None_iff [OF assms] by blast
  then have "\<not> sublist sep (drop n (drop (Suc (length p)) s))" using sublist_drop by blast
  then show ?thesis using Some n by (simp add: after_last_def add.commute)
qed

lemma after_last_sublist: "sublist (after_last sep s) s"
  by (auto simp: after_last_def drop_sublist split: option.splits)

lemma dropWhile_sublist: "sublist (dropWhile P s) s"
  by (simp add: dropWhile_eq_drop drop_sublist)

lemma sublist_rev_iff: "sublist (rev s) (rev t) \<longleftrightarrow> sublist s t"
  by (metis sublist_rev)

lemma str_strip_sublist: "sublist (str_strip s) s"
proof -
  have "sublist (rev (dropWhile is_space (rev (dropWhile is_space s)))) (rev (rev (dropWhile is_space s)))"
    unfolding sublist_rev_iff by (rule dropWhile_sublist)
  then have "sublist (str_strip s) (dropWhile is_space s)" by (simp add: str_strip_def)
  then show ?thesis using dropWhile_sublist by (rule sublist_order.order_trans)
qed

section \<open>The text of a response\<close>

fun flatten_block :: "(pyval \<Rightarrow> string) \<Rightarrow> pyval \<Rightarrow> string list" where
  "flatten_block str_of (PyStr s) = [s]"
| "flatten_block str_of (PyDict d) =
     (let v = (if truthy (get_or_none d ''text'') then get_or_none d ''text''
               else get_or_none d ''content'')
      in if truthy v then [str_of v] else [])"
| "flatten_block str_of other = []"

definition flatten_message_text :: "(pyval \<Rightarrow> string) \<Rightarrow> pyval \<Rightarrow> string" where
  "flatten_message_text str_of content =
     (if \<not> truthy content then []
      else case content of
             PyStr s \<Rightarrow> s
           | PyList blocks \<Rightarrow> str_join ''\<newline>'' (concat (map (flatten_block str_of) blocks))
           | other \<Rightarrow> str_of other)"

definition visible_response_text :: "(pyval \<Rightarrow> string) \<Rightarrow> LLMResponse \<Rightarrow> string" where
  "visible_response_text str_of r = strip_thinking_blocks (flatten_message_text str_of (ll_content r))"

definition extract_final_content :: "(pyval \<Rightarrow> string) \<Rightarrow> message list \<Rightarrow> string" where
  "extract_final_content str_of messages =
     (case List.find (\<lambda>t. t \<noteq> [])
             (map (\<lambda>m. strip_thinking_blocks
                     (flatten_message_text str_of (dict_get_default m ''content'' (PyStr []))))
               (filter (\<lambda>m. map_of m ''role'' = Some (PyStr ''assistant'')) (rev messages))) of
        None \<Rightarrow> [] | Some t \<Rightarrow> t)"

section \<open>Token usage\<close>

record Usage =
  us_provider :: string
  us_model :: string
  us_prompt_tokens :: int
  us_completion_tokens :: int
  us_cache_read_tokens :: int
  us_cache_write_tokens :: int
  us_cached_tokens :: int
  us_cache_creation_tokens :: int
  us_reasoning_tokens :: int
  us_estimated :: bool

text \<open>The native path of \<open>extract_usage\<close>; the legacy response shapes are not modelled.\<close>

definition extract_usage :: "(pyval \<Rightarrow> string) \<Rightarrow> LLMResponse \<Rightarrow> Usage option" where
  "extract_usage str_of r =
     (let usage = ll_usage r;
          count = (\<lambda>k. dict_get_default usage k 0);
          inp = count ''prompt_tokens'';
          out = count ''completion_tokens'';
          rmd = ll_response_metadata r;
          p = get_or_none rmd ''provider_actually_used'';
          split = map_of usage ''cache_read_tokens'' \<noteq> None \<or> map_of usage ''cache_write_tokens'' \<noteq> None;
          cache_read = (if split then count ''cache_read_tokens'' else count ''cached_tokens'');
          cache_write = (if split then count ''cache_write_tokens'' else count ''cache_creation_tokens'')
      in if inp = 0 \<and> out = 0 then None
         else Some \<lparr>us_provider = (if truthy p then str_of p else []), us_model = ll_model r,
                    us_prompt_tokens = inp, us_completion_tokens = out,
                    us_cache_read_tokens = cache_read, us_cache_write_tokens = cache_write,
                    us_cached_tokens = cache_read + cache_write,
                    us_cache_creation_tokens = cache_write,
                    us_reasoning_tokens = count ''reasoning_tokens'',
                    us_estimated = (count ''estimated'' \<noteq> 0 \<or> ll_usage_source r = ''estimated''
                      \<or> map_of rmd ''usage_source'' = Some (PyStr ''estimated''))\<rparr>)"

section \<open>Properties\<close>

text \<open>
  Reasoning tags never reach an answer.  Whatever the model emitted, nested, unclosed,
  without an opener, or split so that removing one block forms a new tag, the visible text of a
  response and the final answer of a history contain no opening and no closing think tag.
\<close>

theorem visible_text_no_tags:
  "\<not> sublist think_open (visible_response_text str_of r)
   \<and> \<not> sublist think_close (visible_response_text str_of r)
   \<and> \<not> sublist think_open (extract_final_content str_of messages)
   \<and> \<not> sublist think_close (extract_final_content str_of messages)"
proof -
  have ne: "think_open \<noteq> []" "think_close \<noteq> []" by (simp_all add: think_open_def think_close_def)
  have free: "\<not> sublist think_open (strip_thinking_blocks t)" "\<not> sublist think_close (strip_thinking_blocks t)"
    for t
  proof -
    let ?t2 = "case split_first think_open (strip_blocks t) of None \<Rightarrow> strip_blocks t | Some (pre, rest) \<Rightarrow> pre"
    have "\<not> sublist think_open ?t2"
      using split_first_None_iff [OF ne(1)] split_first_pre [OF _ ne(1)] by (auto split: option.splits)
    then have "\<not> sublist think_open (after_last think_close ?t2)"
      using after_last_sublist sublist_order.order_trans by blast
    then show "\<not> sublist think_open (strip_thinking_blocks t)"
      unfolding strip_thinking_blocks_def Let_def
      using str_strip_sublist sublist_order.order_trans by blast
    have "\<not> sublist think_close (after_last think_close ?t2)" using after_last_free [OF ne(2)] .
    then show "\<not> sublist think_close (strip_thinking_blocks t)"
      unfolding strip_thinking_blocks_def Let_def
      using str_strip_sublist sublist_order.order_trans by blast
  qed
  have "extract_final_content str_of messages = [] \<or>
      (\<exists>t. extract_final_content str_of messages = strip_thinking_blocks t)"
    by (auto simp: extract_final_content_def find_Some_iff split: option.splits)
  then show ?thesis using free ne by (auto simp: visible_response_text_def)
qed

end
