(* ===== verification/Runaway.thy ===== *)
theory Runaway
  imports Response
begin

text \<open>
  Recovery from replies whose whole budget went to reasoning
  (\<^verbatim>\<open>runtime/loop/_runaway.py\<close>): detection, and the retry ladder of caps and thinking policies.
  A cap of unknown form (\<open>int(cap)\<close> raises) is \<open>None\<close>.  The factors 1.5 and 0.25 are applied
  exactly.  The estimated size of the messages is an argument.
\<close>

definition RUNAWAY_MIN_OUTPUT_TOKENS :: int where "RUNAWAY_MIN_OUTPUT_TOKENS = 1024"
definition RUNAWAY_RETRY_MAX_TOKENS :: int where "RUNAWAY_RETRY_MAX_TOKENS = 8192"
definition RUNAWAY_CONTEXT_RESERVE_TOKENS :: int where "RUNAWAY_CONTEXT_RESERVE_TOKENS = 1024"
definition RUNAWAY_DISABLE_THINKING_AFTER :: int where "RUNAWAY_DISABLE_THINKING_AFTER = 3"
definition RUNAWAY_THINKING_BUDGET_MAX :: int where "RUNAWAY_THINKING_BUDGET_MAX = 4096"
definition RUNAWAY_THINKING_BUDGET_MIN :: int where "RUNAWAY_THINKING_BUDGET_MIN = 512"

lemmas runaway_constants = RUNAWAY_MIN_OUTPUT_TOKENS_def RUNAWAY_RETRY_MAX_TOKENS_def
  RUNAWAY_CONTEXT_RESERVE_TOKENS_def RUNAWAY_DISABLE_THINKING_AFTER_def
  RUNAWAY_THINKING_BUDGET_MAX_def RUNAWAY_THINKING_BUDGET_MIN_def

section \<open>Environment integers\<close>

definition ENV_PREFIXES :: "string list" where
  "ENV_PREFIXES = [''AGENT_CORE_'', ''MIROHARNESS_'', ''FRONTIER_AGENT_'']"

text \<open>\<open>env\<close> is the process environment.\<close>

definition first_configured :: "(string \<Rightarrow> string option) \<Rightarrow> string \<Rightarrow> (string \<times> string) option" where
  "first_configured env suff =
     map_option (\<lambda>name. (name, str_strip (the (env name))))
       (List.find (\<lambda>name. case env name of None \<Rightarrow> False | Some raw \<Rightarrow> str_strip raw \<noteq> [])
         (map (\<lambda>p. p @ suff) ENV_PREFIXES))"

definition env_int :: "(string \<Rightarrow> string option) \<Rightarrow> string \<Rightarrow> int \<Rightarrow> int" where
  "env_int env suff dflt =
     (case first_configured env suff of
        None \<Rightarrow> dflt
      | Some (name, raw) \<Rightarrow> (case int_of_str raw of None \<Rightarrow> dflt | Some i \<Rightarrow> i))"

section \<open>Detection\<close>

text \<open>\<open>None\<close> is an object that is not an \<open>LLMResponse\<close>.\<close>

definition completion_tokens :: "(pyval \<Rightarrow> string) \<Rightarrow> LLMResponse \<Rightarrow> int" where
  "completion_tokens str_of r =
     (case extract_usage str_of r of None \<Rightarrow> 0 | Some u \<Rightarrow> us_completion_tokens u)"

definition is_runaway_response :: "(pyval \<Rightarrow> string) \<Rightarrow> LLMResponse option \<Rightarrow> bool" where
  "is_runaway_response str_of resp =
     (case resp of
        None \<Rightarrow> False
      | Some r \<Rightarrow>
          if ll_tool_calls r \<noteq> [] then False
          else if visible_response_text str_of r \<noteq> [] then False
          else if truthy (get_or_none (ll_response_metadata r) ''reasoning_runaway_early'') then True
          else if ll_finish_reason r = ''length'' then True
          else RUNAWAY_MIN_OUTPUT_TOKENS \<le> completion_tokens str_of r)"

definition is_truncated_with_text :: "(pyval \<Rightarrow> string) \<Rightarrow> LLMResponse option \<Rightarrow> bool" where
  "is_truncated_with_text str_of resp =
     (case resp of
        None \<Rightarrow> False
      | Some r \<Rightarrow>
          if ll_tool_calls r \<noteq> [] then False
          else if ll_finish_reason r \<noteq> ''length'' then False
          else visible_response_text str_of r \<noteq> [])"

section \<open>Retry caps\<close>

definition reduced_cap :: "int \<Rightarrow> int option" where
  "reduced_cap n =
     (if n \<le> 0 then None
      else if n \<le> RUNAWAY_MIN_OUTPUT_TOKENS then Some n
      else Some (max RUNAWAY_MIN_OUTPUT_TOKENS (min RUNAWAY_RETRY_MAX_TOKENS (n div 2))))"

definition runaway_retry_max_tokens :: "(pyval \<Rightarrow> string) \<Rightarrow> LLMResponse \<Rightarrow> int option" where
  "runaway_retry_max_tokens str_of r = reduced_cap (completion_tokens str_of r)"

definition runaway_retry_max_tokens_from_cap :: "int option \<Rightarrow> int option" where
  "runaway_retry_max_tokens_from_cap active_cap = Option.bind active_cap reduced_cap"

text \<open>The bound cap of a client: \<open>None\<close> leaves the existing one.\<close>

definition bind_reduced_max_tokens ::
  "(pyval \<Rightarrow> string) \<Rightarrow> int option \<Rightarrow> LLMResponse option \<Rightarrow> int option \<Rightarrow> int option" where
  "bind_reduced_max_tokens str_of bound_cap response active_cap =
     (case (case response of
              Some r \<Rightarrow> runaway_retry_max_tokens str_of r
            | None \<Rightarrow> runaway_retry_max_tokens_from_cap active_cap) of
        None \<Rightarrow> bound_cap | Some c \<Rightarrow> Some c)"

definition expanded_retry_max_tokens ::
  "int option \<Rightarrow> int \<Rightarrow> int option \<Rightarrow> int option \<Rightarrow> int option" where
  "expanded_retry_max_tokens active_cap message_tokens context_token_limit_hint max_output_tokens_limit =
     (case active_cap of
        None \<Rightarrow> None
      | Some cap \<Rightarrow>
          if cap \<le> 0 then None
          else
            let e1 = cap * 3 div 2;
                e2 = (case max_output_tokens_limit of None \<Rightarrow> e1 | Some m \<Rightarrow> min e1 m);
                e3 = (case context_token_limit_hint of
                        None \<Rightarrow> e2
                      | Some h \<Rightarrow>
                          if h = 0 then e2
                          else min e2 (max (h - message_tokens - RUNAWAY_CONTEXT_RESERVE_TOKENS) 0))
            in if cap < e3 then Some e3 else None)"

text \<open>A client: one model with a declared limit, a fallback chain of entries, or neither.\<close>

datatype client =
    PlainClient "int option"
  | FallbackChain "client option list"
  | OtherClient

text \<open>\<open>depth_left\<close> counts down from nine levels.\<close>

fun model_output_limit :: "nat \<Rightarrow> client option \<Rightarrow> int option" where
  "model_output_limit 0 c = None"
| "model_output_limit (Suc k) None = None"
| "model_output_limit (Suc k) (Some (PlainClient m)) = m"
| "model_output_limit (Suc k) (Some (FallbackChain entries)) =
     (let limits = List.map_filter (model_output_limit k) entries
      in if limits = [] then None else Some (Min (set limits)))"
| "model_output_limit (Suc k) (Some OtherClient) = None"

section \<open>Thinking policy\<close>

datatype thinking_mode = Expanded | Reduced | Disabled

record ThinkingRetryOverride =
  to_mode :: thinking_mode
  to_thinking_budget :: "int option"
  to_reasoning_effort :: string

datatype guidance = ExpandedGuidance | RecoveryGuidance | ReducedGuidance | DirectGuidance

definition runaway_retry_policy ::
  "int \<Rightarrow> int option \<Rightarrow> bool \<Rightarrow> ThinkingRetryOverride \<times> guidance \<times> string" where
  "runaway_retry_policy retry_number next_cap expanded_attempted =
     (if retry_number = 1 then
        (\<lparr>to_mode = Expanded,
          to_thinking_budget = map_option (\<lambda>c. max (max c 1 * 3 div 4) 1) next_cap,
          to_reasoning_effort = ''high''\<rparr>,
         ExpandedGuidance, ''retry_expanded_cap_and_thinking'')
      else if RUNAWAY_DISABLE_THINKING_AFTER \<le> retry_number then
        (\<lparr>to_mode = Disabled, to_thinking_budget = None, to_reasoning_effort = ''low''\<rparr>,
         DirectGuidance, ''retry_thinking_disabled'')
      else
        let cap = (case next_cap of None \<Rightarrow> RUNAWAY_THINKING_BUDGET_MAX * 2 | Some c \<Rightarrow> c);
            budget = max RUNAWAY_THINKING_BUDGET_MIN
                       (min RUNAWAY_THINKING_BUDGET_MAX (max cap 1 div 2))
        in (\<lparr>to_mode = Reduced, to_thinking_budget = Some budget, to_reasoning_effort = ''low''\<rparr>,
            if expanded_attempted then RecoveryGuidance else ReducedGuidance,
            ''retry_reduced_cap_and_thinking''))"

text \<open>The guards of the expanded phase grow with its cap; a timeout of 0 or none stays.\<close>

definition phase_reasoning_guard ::
  "int \<Rightarrow> int option \<Rightarrow> int option \<Rightarrow> real option \<Rightarrow> int option \<Rightarrow> real option \<times> int option" where
  "phase_reasoning_guard retry_number previous_cap next_cap timeout_s max_tokens =
     (if retry_number \<noteq> 1 then (timeout_s, max_tokens)
      else case (previous_cap, next_cap) of
             (Some p, Some n) \<Rightarrow>
               if p = 0 then (timeout_s, max_tokens)
               else
                 let ratio = real_of_int n / real_of_int p in
                 if ratio \<le> 1 then (timeout_s, max_tokens)
                 else (map_option (\<lambda>t. t * ratio) timeout_s,
                       map_option (\<lambda>m. if 0 \<le> real_of_int m * ratio then \<lfloor>real_of_int m * ratio\<rfloor>
                                       else \<lceil>real_of_int m * ratio\<rceil>) max_tokens)
           | _ \<Rightarrow> (timeout_s, max_tokens))"

section \<open>Properties\<close>

text \<open>
  A capped reply without tool calls is handled in exactly one way.  It is resampled as a
  runaway iff it shows no text and continued as truncated iff it does; and no reply is ever both.
\<close>

theorem capped_reply_split:
  "(ll_tool_calls r = [] \<and> ll_finish_reason r = ''length'' \<longleftrightarrow>
      ll_finish_reason r = ''length''
      \<and> (is_runaway_response str_of (Some r) \<or> is_truncated_with_text str_of (Some r)))
   \<and> \<not> (is_runaway_response str_of resp \<and> is_truncated_with_text str_of resp)"
  by (auto simp: is_runaway_response_def is_truncated_with_text_def split: option.splits)

text \<open>
  A reduced retry never gets more room than the reply it follows, and never less than the
  smallest size at which a runaway is still recognised; repeated reductions only shrink, and from
  2048 tokens on each one at least halves the cap, so that after a few retries the floor is
  reached.
\<close>

theorem reduced_cap_bounds:
  assumes "runaway_retry_max_tokens str_of r = Some c"
  shows "0 < c \<and> c \<le> completion_tokens str_of r
    \<and> min (completion_tokens str_of r) RUNAWAY_MIN_OUTPUT_TOKENS \<le> c
    \<and> c \<le> max RUNAWAY_MIN_OUTPUT_TOKENS RUNAWAY_RETRY_MAX_TOKENS
    \<and> (2 * RUNAWAY_MIN_OUTPUT_TOKENS \<le> completion_tokens str_of r \<longrightarrow> 2 * c \<le> completion_tokens str_of r)
    \<and> runaway_retry_max_tokens_from_cap (Some (completion_tokens str_of r)) = Some c"
  using assms
  by (auto simp: runaway_retry_max_tokens_def runaway_retry_max_tokens_from_cap_def reduced_cap_def
      runaway_constants split: if_splits)

definition ex_capped :: LLMResponse where
  "ex_capped = \<lparr>ll_content = PyStr [], ll_tool_calls = [], ll_reasoning_content = ''hmm'',
     ll_finish_reason = ''length'', ll_model = ''m'', ll_usage = [(''completion_tokens'', 20000)],
     ll_response_metadata = [], ll_usage_source = []\<rparr>"

theorem reduced_cap_bounds_witness:
  "0 < (8192 :: int) \<and> 2 * (8192 :: int) \<le> completion_tokens (\<lambda>v. []) ex_capped"
proof -
  have t: "completion_tokens (\<lambda>v. []) ex_capped = 20000" by code_simp
  have "runaway_retry_max_tokens (\<lambda>v. []) ex_capped = Some 8192" by code_simp
  from reduced_cap_bounds [OF this] t show ?thesis by (simp add: runaway_constants)
qed

text \<open>
  An expanded retry fits.  When the cap is raised, it grows by at most half, stays within
  the output limit of the model and leaves the reserve free in the context window; the thinking
  budget of that retry leaves at least a quarter of the cap for visible output.
\<close>

theorem expanded_cap_fits:
  assumes "expanded_retry_max_tokens (Some cap) msgs hint limit = Some e"
    and "to_thinking_budget (fst (runaway_retry_policy 1 (Some e) attempted)) = Some budget"
  shows "cap < e \<and> 2 * e \<le> 3 * cap \<and> (\<forall>m. limit = Some m \<longrightarrow> e \<le> m)
    \<and> (\<forall>h. hint = Some h \<and> h \<noteq> 0 \<longrightarrow> msgs + e + RUNAWAY_CONTEXT_RESERVE_TOKENS \<le> h)
    \<and> 4 * budget \<le> 3 * e"
proof -
  have c: "0 < cap" "cap < e" "e \<le> cap * 3 div 2"
    "\<forall>m. limit = Some m \<longrightarrow> e \<le> m"
    "\<forall>h. hint = Some h \<and> h \<noteq> 0 \<longrightarrow> e \<le> max (h - msgs - RUNAWAY_CONTEXT_RESERVE_TOKENS) 0"
    using assms(1)
    by (auto simp: expanded_retry_max_tokens_def Let_def split: if_splits option.splits)
  have b: "budget = max (max e 1 * 3 div 4) 1" using assms(2) by (simp add: runaway_retry_policy_def)
  have "2 \<le> e" using c(1,2) by linarith
  moreover have "4 * (e * 3 div 4) \<le> 3 * e" by linarith
  ultimately have "4 * budget \<le> 3 * e" unfolding b by (simp add: max_def)
  moreover have "msgs + e + RUNAWAY_CONTEXT_RESERVE_TOKENS \<le> h" if "hint = Some h" "h \<noteq> 0" for h
    using c(1,2) c(5) [rule_format, of h] that by (simp add: max_def split: if_splits)
  moreover have "2 * e \<le> 3 * cap" using c(3) by linarith
  ultimately show ?thesis using c(2,4) by blast
qed

theorem expanded_cap_fits_witness:
  "expanded_retry_max_tokens (Some 1000) 500 (Some 3000) None = Some 1476
   \<and> 500 + 1476 + RUNAWAY_CONTEXT_RESERVE_TOKENS \<le> 3000"
proof -
  have e: "expanded_retry_max_tokens (Some 1000) 500 (Some 3000) None = Some 1476" by code_simp
  have b: "to_thinking_budget (fst (runaway_retry_policy 1 (Some 1476) True)) = Some 1107" by code_simp
  from expanded_cap_fits [OF e b] e show ?thesis by simp
qed

text \<open>
  A fallback chain is bound by its smallest known leg.  The output limit found for a chain
  is declared by one of the clients behind it and is at most the limit of every leg, however the
  chains are nested.
\<close>

theorem chain_limit_smallest:
  assumes "model_output_limit (Suc k) (Some (FallbackChain entries)) = Some m"
  shows "(\<exists>c \<in> set entries. model_output_limit k c = Some m)
    \<and> (\<forall>c \<in> set entries. \<forall>l. model_output_limit k c = Some l \<longrightarrow> m \<le> l)"
proof -
  let ?ls = "List.map_filter (model_output_limit k) entries"
  have set: "set ?ls = {l. \<exists>c \<in> set entries. model_output_limit k c = Some l}"
    by (force simp: List.map_filter_def)
  have "?ls \<noteq> []" "m = Min (set ?ls)" using assms by (auto simp: Let_def split: if_splits)
  then have "m \<in> set ?ls" "\<forall>l \<in> set ?ls. m \<le> l" by (simp_all del: set_empty add: set_empty)
  then show ?thesis unfolding set by blast
qed

theorem chain_limit_smallest_witness:
  "\<exists>c \<in> {Some (PlainClient (Some 4096)), None, Some (FallbackChain [Some (PlainClient (Some 8192))])}.
     model_output_limit 8 c = Some 4096"
proof -
  have "model_output_limit (Suc 8) (Some (FallbackChain
      [Some (PlainClient (Some 4096)), None, Some (FallbackChain [Some (PlainClient (Some 8192))])])) = Some 4096"
    by code_simp
  from chain_limit_smallest [OF this] show ?thesis by simp
qed

end
