(* ===== verification/Context_Budget.thy ===== *)
theory Context_Budget
  imports Prelude
begin

text \<open>
  Token estimation and truncation (\<^verbatim>\<open>runtime/loop/context_budget.py\<close>).  The tokenizer and the
  estimator a caller injects are parameters; \<open>is_cjk\<close> is the character class of the heuristic.
\<close>

definition heuristic_tokens :: "(char \<Rightarrow> bool) \<Rightarrow> string \<Rightarrow> nat" where
  "heuristic_tokens is_cjk s =
     (let cjk_count = length (filter is_cjk s); other_count = length s - cjk_count
      in cjk_count + other_count div 4)"

text \<open>\<open>encode\<close> is the loaded encoder, if any; its result is \<open>None\<close> where it raises.\<close>

definition estimate_tokens ::
  "(string \<Rightarrow> 'tok list option) option \<Rightarrow> (char \<Rightarrow> bool) \<Rightarrow> string \<Rightarrow> nat" where
  "estimate_tokens enc is_cjk s =
     (if s = [] then 0
      else case (case enc of None \<Rightarrow> None | Some encode \<Rightarrow> encode s) of
             Some toks \<Rightarrow> length toks
           | None \<Rightarrow> heuristic_tokens is_cjk s)"

datatype keep_side = Head | Tail

definition chunk :: "keep_side \<Rightarrow> nat \<Rightarrow> string \<Rightarrow> string" where
  "chunk keep n s = (case keep of Head \<Rightarrow> take n s | Tail \<Rightarrow> drop (length s - n) s)"

text \<open>The binary search over the slice length.\<close>

function search_slice :: "(string \<Rightarrow> int) \<Rightarrow> keep_side \<Rightarrow> string \<Rightarrow> int \<Rightarrow> nat \<Rightarrow> nat \<Rightarrow> nat" where
  "search_slice estimator keep s target lo hi =
     (if lo < hi then
        let mid = (lo + hi + 1) div 2 in
        if estimator (chunk keep mid s) \<le> target
        then search_slice estimator keep s target mid hi
        else search_slice estimator keep s target lo (mid - 1)
      else lo)"
  by pat_completeness auto

termination
  by (relation "measure (\<lambda>(estimator, keep, s, target, lo, hi). hi - lo)") auto

declare search_slice.simps [simp del]

definition truncate_text_to_tokens ::
  "(string \<Rightarrow> int) \<Rightarrow> string \<Rightarrow> keep_side \<Rightarrow> string \<Rightarrow> int \<Rightarrow> string" where
  "truncate_text_to_tokens estimator marker keep s max_tokens =
     (if max_tokens \<le> 0 then []
      else if estimator s \<le> max_tokens then s
      else
        let effective_marker = (if max_tokens \<le> estimator marker then [] else marker);
            target = max 1 (max_tokens - estimator effective_marker);
            lo = search_slice estimator keep s target 0 (length s)
        in case keep of
             Head \<Rightarrow> take lo s @ effective_marker
           | Tail \<Rightarrow> if lo \<noteq> 0 then effective_marker @ drop (length s - lo) s else effective_marker)"

section \<open>The search\<close>

lemma search_slice_step:
  "\<not> lo < hi \<Longrightarrow> search_slice est keep s t lo hi = lo"
  "lo < hi \<Longrightarrow> est (chunk keep ((lo + hi + 1) div 2) s) \<le> t \<Longrightarrow>
     search_slice est keep s t lo hi = search_slice est keep s t ((lo + hi + 1) div 2) hi"
  "lo < hi \<Longrightarrow> \<not> est (chunk keep ((lo + hi + 1) div 2) s) \<le> t \<Longrightarrow>
     search_slice est keep s t lo hi = search_slice est keep s t lo ((lo + hi + 1) div 2 - 1)"
  by (simp_all add: search_slice.simps [of est keep s t lo hi] Let_def)

text \<open>
  What the search returns: it stays in range, the slice it returns fits, and with a monotone
  estimator no longer slice does.
\<close>

lemma search_slice_correct:
  assumes "lo \<le> hi" and "hi \<le> length s" and "lo = 0 \<or> est (chunk keep lo s) \<le> t"
  shows "search_slice est keep s t lo hi \<le> hi
    \<and> (search_slice est keep s t lo hi = 0 \<or> est (chunk keep (search_slice est keep s t lo hi) s) \<le> t)
    \<and> ((\<forall>m n. m \<le> n \<and> n \<le> length s \<longrightarrow> est (chunk keep m s) \<le> est (chunk keep n s)) \<and>
       (\<forall>n. hi < n \<and> n \<le> length s \<longrightarrow> t < est (chunk keep n s)) \<longrightarrow>
       (\<forall>n. search_slice est keep s t lo hi < n \<and> n \<le> length s \<longrightarrow> t < est (chunk keep n s)))"
  using assms
proof (induction est keep s t lo hi rule: search_slice.induct)
  case (1 est keep s t lo hi)
  show ?case
  proof (cases "lo < hi")
    case True
    let ?mid = "(lo + hi + 1) div 2"
    have m: "?mid \<le> hi" "lo \<le> ?mid - 1" "0 < ?mid" "?mid - 1 \<le> hi" using True by auto
    show ?thesis
    proof (cases "est (chunk keep ?mid s) \<le> t")
      case fits: True
      show ?thesis unfolding search_slice_step(2) [of lo hi est keep s t, OF True fits]
        by (rule 1(1) [OF True refl fits m(1) 1(4)]) (use fits in blast)
    next
      case over: False
      have above: "t < est (chunk keep n s)"
        if "\<forall>m n. m \<le> n \<and> n \<le> length s \<longrightarrow> est (chunk keep m s) \<le> est (chunk keep n s)"
          "?mid - 1 < n" "n \<le> length s" for n
        using that(1) [rule_format, of ?mid n] over that(2,3) m(3) by linarith
      have "?mid - 1 \<le> length s" using m(4) 1(4) by linarith
      from 1(2) [OF True refl over m(2) this 1(5)] above m(4) show ?thesis
        unfolding search_slice_step(3) [of lo hi est keep s t, OF True over] by (meson le_trans)
    qed
  next
    case False
    then have "hi = lo" using 1(3) by simp
    with 1(5) show ?thesis unfolding search_slice_step(1) [of lo hi est keep s t, OF False] by blast
  qed
qed

section \<open>The heuristic is additive up to one token\<close>

lemma heuristic_append:
  "heuristic_tokens c (xs @ ys) \<le> heuristic_tokens c xs + heuristic_tokens c ys + 1"
proof -
  have le: "length (filter c zs) \<le> length zs" for zs by (rule length_filter_le)
  have "(a + b) div 4 \<le> a div 4 + b div 4 + 1" for a b :: nat by linarith
  from this [of "length xs - length (filter c xs)" "length ys - length (filter c ys)"] show ?thesis
    using le [of xs] le [of ys] by (simp add: heuristic_tokens_def Let_def algebra_simps)
qed

lemma truncated_form:
  assumes "0 < max_tokens" and "max_tokens < estimator s"
    and "m = (if max_tokens \<le> estimator marker then [] else marker)"
    and "n = search_slice estimator keep s (max 1 (max_tokens - estimator m)) 0 (length s)"
  shows "truncate_text_to_tokens estimator marker keep s max_tokens =
      (case keep of Head \<Rightarrow> chunk keep n s @ m | Tail \<Rightarrow> m @ chunk keep n s)"
  using assms(1,2) unfolding assms(4) unfolding assms(3)
  by (simp add: truncate_text_to_tokens_def chunk_def Let_def split: keep_side.splits)

section \<open>Properties\<close>

text \<open>
  A truncated text is a slice of the original with the marker, and the slice fits the
  budget that is left for it; with an estimator that grows with the slice, it is the longest such
  slice.
\<close>

theorem truncate_keeps_longest_fit:
  assumes "0 < max_tokens" and "max_tokens < estimator s"
    and mono: "\<forall>m n. m \<le> n \<and> n \<le> length s \<longrightarrow> estimator (chunk keep m s) \<le> estimator (chunk keep n s)"
  shows "\<exists>n m. n \<le> length s \<and> m = (if max_tokens \<le> estimator marker then [] else marker)
    \<and> truncate_text_to_tokens estimator marker keep s max_tokens =
        (case keep of Head \<Rightarrow> chunk keep n s @ m | Tail \<Rightarrow> m @ chunk keep n s)
    \<and> (n = 0 \<or> estimator (chunk keep n s) \<le> max 1 (max_tokens - estimator m))
    \<and> (\<forall>k. n < k \<and> k \<le> length s \<longrightarrow> max 1 (max_tokens - estimator m) < estimator (chunk keep k s))"
proof -
  let ?m = "if max_tokens \<le> estimator marker then [] else marker"
  let ?t = "max 1 (max_tokens - estimator ?m)"
  let ?n = "search_slice estimator keep s ?t 0 (length s)"
  have "\<forall>k. ?n < k \<and> k \<le> length s \<longrightarrow> ?t < estimator (chunk keep k s)"
    and "?n \<le> length s" and "?n = 0 \<or> estimator (chunk keep ?n s) \<le> ?t"
    using search_slice_correct [of 0 "length s" s estimator keep ?t] mono by auto
  moreover have "truncate_text_to_tokens estimator marker keep s max_tokens =
      (case keep of Head \<Rightarrow> chunk keep ?n s @ ?m | Tail \<Rightarrow> ?m @ chunk keep ?n s)"
    by (rule truncated_form) (use assms(1,2) in simp_all)
  ultimately show ?thesis by blast
qed

theorem truncate_keeps_longest_fit_witness:
  "truncate_text_to_tokens (\<lambda>s. int (length s)) ''..'' Tail ''abcdefgh'' 5 = ''..fgh''
   \<and> (\<exists>n. n \<le> 8 \<and> (\<forall>k. n < k \<and> k \<le> 8 \<longrightarrow> 3 < int (length (chunk Tail k ''abcdefgh''))))"
proof -
  have "truncate_text_to_tokens (\<lambda>s. int (length s)) ''..'' Tail ''abcdefgh'' 5 = ''..fgh''" by code_simp
  moreover have "\<forall>m n. m \<le> n \<and> n \<le> length ''abcdefgh'' \<longrightarrow>
      int (length (chunk Tail m ''abcdefgh'')) \<le> int (length (chunk Tail n ''abcdefgh''))"
    by (auto simp: chunk_def)
  ultimately show ?thesis
    using truncate_keeps_longest_fit [of 5 "\<lambda>s. int (length s)" "''abcdefgh''" Tail "''..''"] by auto
qed

text \<open>
  With the heuristic estimator, truncation overshoots the budget by at most one token, as
  documented, whatever the marker and whichever end is kept.
\<close>

theorem truncate_overshoot:
  "int (heuristic_tokens c
      (truncate_text_to_tokens (\<lambda>s. int (heuristic_tokens c s)) marker keep s max_tokens)) \<le> max 0 max_tokens + 1"
proof (cases "0 < max_tokens \<and> max_tokens < int (heuristic_tokens c s)")
  case False
  then consider (none) "max_tokens \<le> 0" | (fits) "0 < max_tokens" "int (heuristic_tokens c s) \<le> max_tokens"
    by linarith
  then show ?thesis
  proof cases
    case none
    then show ?thesis by (simp add: truncate_text_to_tokens_def heuristic_tokens_def)
  next
    case fits
    then show ?thesis by (simp add: truncate_text_to_tokens_def)
  qed
next
  case True
  let ?est = "\<lambda>s. int (heuristic_tokens c s)"
  let ?m = "if max_tokens \<le> ?est marker then [] else marker"
  let ?t = "max 1 (max_tokens - ?est ?m)"
  let ?n = "search_slice ?est keep s ?t 0 (length s)"
  have zero: "?est [] = 0" by (simp add: heuristic_tokens_def)
  have "?n = 0 \<or> ?est (chunk keep ?n s) \<le> ?t"
    using search_slice_correct [of 0 "length s" s ?est keep ?t] by blast
  then have slice: "?est (chunk keep ?n s) \<le> ?t" by (auto simp: zero chunk_def split: keep_side.splits)
  have "?est ?m < max_tokens" using True zero by auto
  then have sum: "?est (chunk keep ?n s) + ?est ?m \<le> max_tokens" using slice by linarith
  define sl mk where "sl = chunk keep ?n s" and "mk = ?m"
  have "?est (xs @ ys) \<le> ?est xs + ?est ys + 1" for xs ys
    using heuristic_append [of c xs ys] by linarith
  from this [of sl mk] this [of mk sl] sum
  have over: "?est (sl @ mk) \<le> max_tokens + 1" "?est (mk @ sl) \<le> max_tokens + 1"
    unfolding sl_def mk_def by linarith+
  have "truncate_text_to_tokens ?est marker keep s max_tokens =
      (case keep of Head \<Rightarrow> sl @ mk | Tail \<Rightarrow> mk @ sl)"
    unfolding sl_def mk_def by (rule truncated_form) (use True in simp_all)
  with over True show ?thesis by (cases keep) auto
qed

end
