(* ===== verification/Wall_Time.thy ===== *)
theory Wall_Time
  imports Prelude
begin

text \<open>
  Wall-clock control: the renewable lease of \<^verbatim>\<open>runtime/wall_time_lease.py\<close> and the split of a task's
  wall time in \<^verbatim>\<open>components/finalization/budget.py\<close>.  Clock readings are arguments; the environment
  is a function \<open>env\<close>; \<open>to_float\<close> is Python's \<open>float\<close>, \<open>None\<close> where it raises.
\<close>

section \<open>The lease\<close>

record RenewableWallTimeLease =
  wl_sequence :: nat
  wl_created :: real
  wl_latest_renewal :: "real option"

definition new_lease :: "real \<Rightarrow> RenewableWallTimeLease" where
  "new_lease now = \<lparr>wl_sequence = 0, wl_created = now, wl_latest_renewal = None\<rparr>"

definition renew :: "real \<Rightarrow> RenewableWallTimeLease \<Rightarrow> RenewableWallTimeLease \<times> nat" where
  "renew now l =
     (l\<lparr>wl_sequence := wl_sequence l + 1, wl_latest_renewal := Some now\<rparr>, wl_sequence l + 1)"

definition lease_anchor :: "real option \<Rightarrow> RenewableWallTimeLease \<Rightarrow> real" where
  "lease_anchor started l =
     (let start = (case started of None \<Rightarrow> wl_created l | Some t \<Rightarrow> t)
      in case wl_latest_renewal l of None \<Rightarrow> start | Some r \<Rightarrow> max start r)"

definition remaining_s_for :: "real \<Rightarrow> real option \<Rightarrow> real \<Rightarrow> RenewableWallTimeLease \<Rightarrow> real" where
  "remaining_s_for duration_s started now l = max 0 duration_s - (now - lease_anchor started l)"

definition elapsed_s :: "real option \<Rightarrow> real \<Rightarrow> RenewableWallTimeLease \<Rightarrow> real" where
  "elapsed_s started now l = max 0 (now - lease_anchor started l)"

record RenewableWallTimeDeadline =
  wd_duration_s :: real
  wd_started :: real

definition bind_duration :: "real \<Rightarrow> real \<Rightarrow> RenewableWallTimeDeadline" where
  "bind_duration duration_s now = \<lparr>wd_duration_s = max 0 duration_s, wd_started = now\<rparr>"

definition deadline_remaining :: "RenewableWallTimeDeadline \<Rightarrow> real \<Rightarrow> RenewableWallTimeLease \<Rightarrow> real" where
  "deadline_remaining d now l = remaining_s_for (wd_duration_s d) (Some (wd_started d)) now l"

text \<open>
  One turn of the loop of \<open>run_with_renewable_wall_time\<close>: the task is done, the window is over
  (with which ceiling), or it waits, at most as long as the answer says.  The turn reads the
  clock twice, for the lease and for the absolute ceiling; a renewal may fall between turns, so
  each turn sees its own state of the lease.  \<open>wo_grace\<close> says whether the task ends in the grace
  period that follows an expiry.
\<close>

datatype wall_limit = MaxSession | LeaseWindow

datatype wall_decision =
    TaskFinished
  | Expired wall_limit
  | WaitAtMost real

record wall_turn =
  wo_finished :: bool
  wo_lease :: RenewableWallTimeLease
  wo_lease_now :: real
  wo_now :: real
  wo_grace :: bool

definition watch_wall :: "real \<Rightarrow> real option \<Rightarrow> real \<Rightarrow> wall_turn \<Rightarrow> wall_decision" where
  "watch_wall duration_s max_session_s started ob =
     (if wo_finished ob then TaskFinished
      else
        let lease_remaining = remaining_s_for (max 0 duration_s) (Some started) (wo_lease_now ob) (wo_lease ob);
            absolute_remaining = map_option (\<lambda>m. max 0 m - (wo_now ob - started)) max_session_s;
            remaining = (case absolute_remaining of
                           None \<Rightarrow> lease_remaining | Some a \<Rightarrow> min lease_remaining a)
        in if remaining \<le> 0
           then (case absolute_remaining of
                   Some a \<Rightarrow> if a \<le> 0 then Expired MaxSession else Expired LeaseWindow
                 | None \<Rightarrow> Expired LeaseWindow)
           else WaitAtMost remaining)"

datatype wall_outcome =
    TaskResult
  | RenewableWallTimeExceeded wall_limit
  | StillWaiting

fun run_with_renewable_wall_time ::
  "real \<Rightarrow> real option \<Rightarrow> real \<Rightarrow> real \<Rightarrow> wall_turn list \<Rightarrow> wall_outcome" where
  "run_with_renewable_wall_time duration_s max_session_s grace_s started [] = StillWaiting"
| "run_with_renewable_wall_time duration_s max_session_s grace_s started (ob # obs) =
     (case watch_wall duration_s max_session_s started ob of
        TaskFinished \<Rightarrow> TaskResult
      | WaitAtMost remaining \<Rightarrow>
          run_with_renewable_wall_time duration_s max_session_s grace_s started obs
      | Expired limit \<Rightarrow>
          if 0 < max 0 grace_s \<and> wo_grace ob then TaskResult else RenewableWallTimeExceeded limit)"

definition lease_over :: "real \<Rightarrow> real \<Rightarrow> wall_turn \<Rightarrow> bool" where
  "lease_over duration_s started ob \<longleftrightarrow>
     lease_anchor (Some started) (wo_lease ob) + max 0 duration_s \<le> wo_lease_now ob"

definition session_over :: "real option \<Rightarrow> real \<Rightarrow> wall_turn \<Rightarrow> bool" where
  "session_over max_session_s started ob \<longleftrightarrow> (\<exists>m. max_session_s = Some m \<and> started + max 0 m \<le> wo_now ob)"

section \<open>Splitting the wall time\<close>

datatype py_float = Finite real | NonFinite

definition positive_seconds :: "(pyval \<Rightarrow> py_float option) \<Rightarrow> pyval \<Rightarrow> real option" where
  "positive_seconds to_float raw =
     (if raw = PyNone \<or> raw = PyStr [] then None
      else case to_float raw of
             Some (Finite v) \<Rightarrow> if 0 < v then Some v else None
           | _ \<Rightarrow> None)"

definition nonnegative_seconds :: "(pyval \<Rightarrow> py_float option) \<Rightarrow> real \<Rightarrow> pyval \<Rightarrow> real" where
  "nonnegative_seconds to_float dflt raw =
     (if raw = PyNone \<or> raw = PyStr [] then dflt
      else case to_float raw of
             Some (Finite v) \<Rightarrow> if v < 0 then dflt else v
           | _ \<Rightarrow> dflt)"

definition env_value :: "(string \<Rightarrow> string option) \<Rightarrow> string \<Rightarrow> pyval" where
  "env_value env name = (case env name of None \<Rightarrow> PyNone | Some s \<Rightarrow> PyStr s)"

definition resolve_report_wall_time ::
  "(pyval \<Rightarrow> py_float option) \<Rightarrow> (string \<Rightarrow> string option) \<Rightarrow> pyval pydict \<Rightarrow> real \<Rightarrow> string \<Rightarrow> real" where
  "resolve_report_wall_time to_float env agent_cfg dflt env_var =
     (let profile_s = nonnegative_seconds to_float dflt (get_or_none agent_cfg ''wall_deadline_reserve_s'');
          raw_env = env_value env env_var
      in if raw_env = PyNone \<or> raw_env = PyStr [] then profile_s
         else nonnegative_seconds to_float profile_s raw_env)"

definition soft_wall_deadline_s :: "real \<Rightarrow> real \<Rightarrow> real" where
  "soft_wall_deadline_s total_s reserve_s = max (total_s - reserve_s) (total_s / 2)"

record ResearchWall =
  rw_research_deadline_s :: real
  rw_hard_total_s :: real

definition TASK_WALL_TIME_ENV :: string where
  "TASK_WALL_TIME_ENV = ''AGENT_CORE_TASK_WALL_TIME_S''"

definition LEGACY_TASK_WALL_TIME_ENVS :: "string list" where
  "LEGACY_TASK_WALL_TIME_ENVS = [''MIROHARNESS_TASK_WALL_TIME_S'', ''FRONTIER_AGENT_TASK_WALL_TIME_S'']"

definition env_set :: "(string \<Rightarrow> string option) \<Rightarrow> string \<Rightarrow> bool" where
  "env_set env name = (case env name of None \<Rightarrow> False | Some s \<Rightarrow> s \<noteq> [])"

definition resolve_research_wall ::
  "(pyval \<Rightarrow> py_float option) \<Rightarrow> (string \<Rightarrow> string option) \<Rightarrow> pyval pydict \<Rightarrow> real \<Rightarrow> string \<Rightarrow>
   ResearchWall" where
  "resolve_research_wall to_float env agent_cfg reserve_s env_var =
     (let profile_research_s = positive_seconds to_float (get_or_none agent_cfg ''research_wall_time_s'');
          profile_total_s = positive_seconds to_float (get_or_none agent_cfg ''wall_deadline_s'');
          research_env_s = positive_seconds to_float (env_value env ''RESEARCH_WALL_TIME'');
          research_s = (case research_env_s of None \<Rightarrow> profile_research_s | Some r \<Rightarrow> Some r);
          resolved_env =
            (if env_var = TASK_WALL_TIME_ENV \<and> \<not> env_set env env_var
             then (case List.find (env_set env) LEGACY_TASK_WALL_TIME_ENVS of
                     None \<Rightarrow> env_var | Some n \<Rightarrow> n)
             else env_var);
          env_total_s = positive_seconds to_float (env_value env resolved_env);
          total_candidates = List.map_filter id [profile_total_s, env_total_s];
          candidates = List.map_filter id
            (research_s # map (\<lambda>t. Some (soft_wall_deadline_s t reserve_s)) total_candidates)
      in \<lparr>rw_research_deadline_s = (if candidates = [] then 0 else Min (set candidates)),
          rw_hard_total_s = (if total_candidates = [] then 0 else Min (set total_candidates))\<rparr>)"

definition remaining_phase_budget_s :: "real \<Rightarrow> real option \<Rightarrow> real \<Rightarrow> real \<Rightarrow> real" where
  "remaining_phase_budget_s requested_s deadline_monotonic_s minimum_s now =
     (case deadline_monotonic_s of
        None \<Rightarrow> requested_s
      | Some d \<Rightarrow> max (min requested_s (d - now)) minimum_s)"

definition check_wall_feasibility :: "real \<Rightarrow> real \<Rightarrow> real \<Rightarrow> bool" where
  "check_wall_feasibility hard_total_s research_deadline_s tool_timeout_s =
     (if hard_total_s \<le> 0 \<or> research_deadline_s \<le> 0 then True
      else research_deadline_s + max tool_timeout_s 0 \<le> hard_total_s)"

section \<open>The candidates of a research deadline\<close>

lemma positive_seconds_pos: "positive_seconds f v = Some t \<Longrightarrow> 0 < t"
  by (auto simp: positive_seconds_def split: if_splits option.splits py_float.splits)

lemma set_somes: "set (List.map_filter id xs) = {x. Some x \<in> set xs}"
  by (force simp: List.map_filter_def)

text \<open>The deadline chosen from a research budget and a non-empty list of ceilings.\<close>

lemma chosen_deadline:
  assumes "cs = List.map_filter id (research # map (\<lambda>t. Some (soft_wall_deadline_s t reserve_s)) ts)"
    and "ts \<noteq> []" and "\<forall>t \<in> set ts. 0 < t" and "\<forall>r. research = Some r \<longrightarrow> 0 < r" and "0 \<le> reserve_s"
  shows "cs \<noteq> [] \<and> 0 < Min (set cs) \<and> Min (set cs) \<le> Min (set ts)
    \<and> (Min (set ts) / 2 \<le> Min (set cs) \<or> research = Some (Min (set cs)))"
proof -
  have cs: "set cs = {r. research = Some r} \<union> (\<lambda>t. soft_wall_deadline_s t reserve_s) ` set ts"
    unfolding assms(1) set_somes by auto
  have m: "Min (set ts) \<in> set ts" using assms(2) by simp
  then have in_cs: "soft_wall_deadline_s (Min (set ts)) reserve_s \<in> set cs" by (simp add: cs)
  have "soft_wall_deadline_s (Min (set ts)) reserve_s \<le> Min (set ts)"
    using m assms(3,5) by (simp add: soft_wall_deadline_s_def)
  moreover have "Min (set cs) \<le> soft_wall_deadline_s (Min (set ts)) reserve_s"
    using in_cs by simp
  moreover have "0 < c" if "c \<in> set cs" for c
    using that assms(3,4) by (auto simp: cs soft_wall_deadline_s_def less_max_iff_disj)
  moreover have "Min (set ts) / 2 \<le> c \<or> research = Some c" if "c \<in> set cs" for c
  proof -
    have "Min (set ts) / 2 \<le> soft_wall_deadline_s t reserve_s" if "t \<in> set ts" for t
      using that by (auto simp: soft_wall_deadline_s_def le_max_iff_disj)
    with that show ?thesis by (auto simp: cs)
  qed
  moreover have "Min (set cs) \<in> set cs" "cs \<noteq> []" using in_cs by (auto intro!: Min_in)
  ultimately show ?thesis by (meson order_trans)
qed

section \<open>Properties\<close>

lemma watch_wall_cases:
  "watch_wall duration_s max_session_s started ob = TaskFinished \<longleftrightarrow> wo_finished ob"
  "watch_wall duration_s max_session_s started ob = Expired MaxSession \<longleftrightarrow>
     \<not> wo_finished ob \<and> session_over max_session_s started ob"
  "watch_wall duration_s max_session_s started ob = Expired LeaseWindow \<longleftrightarrow>
     \<not> wo_finished ob \<and> lease_over duration_s started ob \<and> \<not> session_over max_session_s started ob"
  by (auto simp: watch_wall_def remaining_s_for_def lease_over_def session_over_def Let_def min_def
      split: option.splits)

lemma watch_wall_waits:
  assumes "watch_wall duration_s max_session_s started ob = WaitAtMost w"
  shows "\<not> wo_finished ob \<and> \<not> lease_over duration_s started ob \<and> \<not> session_over max_session_s started ob"
  using assms
  by (auto simp: watch_wall_def remaining_s_for_def lease_over_def session_over_def Let_def min_def
      split: option.splits if_splits)

text \<open>
  The wall-time watch is exact.  Over any sequence of turns, renewals between them
  included, the run is still waiting only if at no turn the task was done, its current lease
  window over or the absolute session ceiling reached; it raises at a turn where the limit it
  names is over (the lease only when the ceiling is not), and it returns a result only when the
  task ended by itself or in the grace period.  So renewals extend the lease, never the session.
\<close>

theorem wall_run_exact:
  "(case run_with_renewable_wall_time duration_s max_session_s grace_s started obs of
      StillWaiting \<Rightarrow> list_all (\<lambda>ob. \<not> wo_finished ob \<and> \<not> lease_over duration_s started ob
        \<and> \<not> session_over max_session_s started ob) obs
    | RenewableWallTimeExceeded MaxSession \<Rightarrow>
        list_ex (\<lambda>ob. \<not> wo_finished ob \<and> session_over max_session_s started ob) obs
    | RenewableWallTimeExceeded LeaseWindow \<Rightarrow>
        list_ex (\<lambda>ob. \<not> wo_finished ob \<and> lease_over duration_s started ob
          \<and> \<not> session_over max_session_s started ob) obs
    | TaskResult \<Rightarrow>
        list_ex (\<lambda>ob. wo_finished ob \<or> 0 < grace_s \<and> wo_grace ob
          \<and> (lease_over duration_s started ob \<or> session_over max_session_s started ob)) obs)"
proof (induction obs)
  case (Cons ob obs)
  show ?case
  proof (cases "watch_wall duration_s max_session_s started ob")
    case (WaitAtMost w)
    then show ?thesis using Cons watch_wall_waits [OF WaitAtMost]
      by (auto split: wall_outcome.splits wall_limit.splits)
  next
    case (Expired limit)
    then show ?thesis
      using watch_wall_cases(2,3) [of duration_s max_session_s started ob] by (cases limit) auto
  next
    case TaskFinished
    then have "wo_finished ob" by (simp only: watch_wall_cases(1))
    with TaskFinished show ?thesis by simp
  qed
qed simp

text \<open>
  A renewal never shortens a window.  At non-decreasing clock readings every accepted
  renewal leaves each consumer, whatever its own start and duration, at least the time it had,
  and gives it a whole window from the renewal on.
\<close>

theorem renewal_only_extends:
  assumes "\<forall>r. wl_latest_renewal l = Some r \<longrightarrow> r \<le> now"
  shows "remaining_s_for duration_s started later l \<le> remaining_s_for duration_s started later (fst (renew now l))
    \<and> max 0 duration_s - (later - now) \<le> remaining_s_for duration_s started later (fst (renew now l))
    \<and> snd (renew now l) = wl_sequence (fst (renew now l)) \<and> wl_sequence l < wl_sequence (fst (renew now l))"
  using assms
  by (auto simp: remaining_s_for_def lease_anchor_def renew_def Let_def max_def split: option.splits)

theorem renewal_only_extends_witness:
  "remaining_s_for 10 None 12 (new_lease 0) \<le> remaining_s_for 10 None 12 (fst (renew 8 (new_lease 0)))"
  using renewal_only_extends [of "new_lease 0" 8 10 None 12] by (simp add: new_lease_def)

text \<open>
  Finalization always has time.  When a total-task ceiling is known and the reserve is not
  negative, research is told to stop by that ceiling at the latest, no known ceiling is
  exceeded, and research keeps at least half of the tightest ceiling unless its own budget asks
  for less.
\<close>

theorem research_wall_within_ceiling:
  assumes "w = resolve_research_wall to_float env cfg reserve_s env_var" and "0 \<le> reserve_s"
    and "0 < rw_hard_total_s w"
  shows "0 < rw_research_deadline_s w \<and> rw_research_deadline_s w \<le> rw_hard_total_s w
    \<and> (\<forall>t. positive_seconds to_float (get_or_none cfg ''wall_deadline_s'') = Some t \<longrightarrow> rw_hard_total_s w \<le> t)
    \<and> (rw_hard_total_s w / 2 \<le> rw_research_deadline_s w
       \<or> positive_seconds to_float (env_value env ''RESEARCH_WALL_TIME'') = Some (rw_research_deadline_s w)
       \<or> positive_seconds to_float (get_or_none cfg ''research_wall_time_s'') = Some (rw_research_deadline_s w))"
proof -
  let ?profile = "positive_seconds to_float (get_or_none cfg ''wall_deadline_s'')"
  define research where "research = (case positive_seconds to_float (env_value env ''RESEARCH_WALL_TIME'') of
      None \<Rightarrow> positive_seconds to_float (get_or_none cfg ''research_wall_time_s'') | Some r \<Rightarrow> Some r)"
  define envt where "envt = positive_seconds to_float (env_value env
      (if env_var = TASK_WALL_TIME_ENV \<and> \<not> env_set env env_var
       then (case List.find (env_set env) LEGACY_TASK_WALL_TIME_ENVS of None \<Rightarrow> env_var | Some n \<Rightarrow> n)
       else env_var))"
  have pos: "\<forall>t. envt = Some t \<longrightarrow> 0 < t" "\<forall>r. research = Some r \<longrightarrow> 0 < r"
    by (auto simp: envt_def research_def split: option.splits dest: positive_seconds_pos)
  define ts where "ts = List.map_filter id [?profile, envt]"
  have ts: "\<forall>t \<in> set ts. 0 < t" using pos(1) unfolding ts_def set_somes by (auto dest: positive_seconds_pos positive_seconds_pos [OF sym])
  define cs where "cs = List.map_filter id (research # map (\<lambda>t. Some (soft_wall_deadline_s t reserve_s)) ts)"
  have hard: "rw_hard_total_s w = (if ts = [] then 0 else Min (set ts))"
    and soft: "rw_research_deadline_s w = (if cs = [] then 0 else Min (set cs))"
    unfolding assms(1) resolve_research_wall_def Let_def cs_def ts_def research_def envt_def
    by (simp_all only: ResearchWall.select_convs)
  then have ne: "ts \<noteq> []" using assms(3) by auto
  note chosen = chosen_deadline [OF cs_def ne ts pos(2) assms(2)]
  have "Min (set ts) \<le> t" if "?profile = Some t" for t
    by (rule Min_le, rule finite_set) (simp only: ts_def set_somes that, simp)
  with chosen show ?thesis using hard soft ne by (auto simp: research_def split: option.splits)
qed

theorem research_wall_within_ceiling_witness:
  "\<exists>w. w = resolve_research_wall (\<lambda>v. case v of PyInt i \<Rightarrow> Some (Finite (real_of_int i)) | _ \<Rightarrow> None)
        (\<lambda>n. None) [(''wall_deadline_s'', PyInt 100)] 80 TASK_WALL_TIME_ENV
     \<and> 0 < rw_research_deadline_s w \<and> rw_research_deadline_s w \<le> rw_hard_total_s w"
proof -
  let ?f = "\<lambda>v. case v of PyInt i \<Rightarrow> Some (Finite (real_of_int i)) | _ \<Rightarrow> None"
  define w where "w = resolve_research_wall ?f (\<lambda>n. None) [(''wall_deadline_s'', PyInt 100)] 80 TASK_WALL_TIME_ENV"
  have "rw_hard_total_s w = 100"
    by (simp add: w_def resolve_research_wall_def positive_seconds_def env_value_def env_set_def
        get_or_none_def List.map_filter_def Let_def)
  with research_wall_within_ceiling [OF w_def] w_def show ?thesis by (intro exI [of _ w]) simp
qed

end
