(* ===== verification/Loop_History.thy ===== *)
theory Loop_History
  imports Loop_Types
begin

text \<open>
  The conversation history of the loop and the operations of \<^verbatim>\<open>runtime/loop/agent_loop.py\<close> that
  repair, roll back and rewrite it.  A provider rejects a request in which an assistant message
  announces a call that no tool message answers, or in which a tool message does not follow the
  assistant message it answers; \<open>wire_ok\<close> is that condition, and each operation is shown to keep
  or to restore it.

  The calls of a message are dictionaries, as its type says.
\<close>

section \<open>Calls and answers\<close>

definition recorded_calls :: "message \<Rightarrow> tool_call list" where
  "recorded_calls m = (case get_or_none m ''tool_calls'' of PyList cs \<Rightarrow> dicts_of cs | _ \<Rightarrow> [])"

definition call_id :: "tool_call \<Rightarrow> pyval" where
  "call_id c = get_or_none c ''id''"

definition answer_id :: "message \<Rightarrow> pyval" where
  "answer_id m = get_or_none m ''tool_call_id''"

definition answered_ids :: "message list \<Rightarrow> pyval list" where
  "answered_ids ms = map answer_id (filter is_tool_msg ms)"

text \<open>\<open>tool_msg\<close> with an id that is handed through unchanged.\<close>

definition tool_reply :: "string \<Rightarrow> pyval \<Rightarrow> message" where
  "tool_reply content i = [(''content'', PyStr content), (''role'', PyStr ''tool''), (''tool_call_id'', i)]"

section \<open>Operations\<close>

text \<open>
  \<open>_assign_unique_tool_call_ids\<close>; \<open>rnd\<close> is the random suffix.  Ids are strings, so \<open>str\<close> of
  an id is the id.
\<close>

definition native_ids :: "message \<Rightarrow> pyval list" where
  "native_ids m = filter truthy (map call_id (recorded_calls m))"

definition fresh_id :: "int \<Rightarrow> nat \<Rightarrow> string \<Rightarrow> pyval" where
  "fresh_id turn idx rnd =
     PyStr (''call_'' @ str_of_int turn @ ''_'' @ str_of_nat idx @ ''_'' @ rnd)"

definition assign_unique_tool_call_ids ::
  "string \<Rightarrow> tool_call list \<Rightarrow> message \<Rightarrow> int \<Rightarrow> tool_call list" where
  "assign_unique_tool_call_ids rnd parsed_calls history_msg turn =
     (let nids = native_ids history_msg in
      if list_all (\<lambda>c. call_id c \<in> set nids) parsed_calls then parsed_calls
      else map (\<lambda>(idx, c). if call_id c \<in> set nids then c
                            else AList.update ''id'' (fresh_id turn idx rnd) c)
             (List.enumerate 0 parsed_calls))"

text \<open>The calls a loop over \<open>recorded\<close> answers: those with an id not answered so far.\<close>

fun unanswered :: "tool_call list \<Rightarrow> pyval list \<Rightarrow> tool_call list" where
  "unanswered [] answered = []"
| "unanswered (c # cs) answered =
     (if \<not> truthy (call_id c) \<or> call_id c \<in> set answered then unanswered cs answered
      else c # unanswered cs (call_id c # answered))"

definition call_name_of :: "(pyval \<Rightarrow> string) \<Rightarrow> tool_call \<Rightarrow> string" where
  "call_name_of str_of c =
     (let f = (case get_or_none c ''function'' of PyDict d \<Rightarrow> get_or_none d ''name'' | _ \<Rightarrow> PyNone);
          v = (if truthy f then f else get_or_none c ''name'')
      in if truthy v then py_format str_of v else [])"

definition dropped_detail :: "(pyval \<Rightarrow> string) \<Rightarrow> string list \<Rightarrow> tool_call \<Rightarrow> string" where
  "dropped_detail str_of tool_names c =
     (let name = call_name_of str_of c in
      if name \<noteq> [] \<and> name \<notin> set tool_names
      then ''unknown tool '' @ [CHR 0x27] @ name @ [CHR 0x27] @ '' is not available. It was not run; the ''
           @ ''other tool calls in this turn were. Use only the listed tools.''
      else ''this tool call was not dispatched; re-issue it if still needed.'')"

definition not_executed :: "string \<Rightarrow> string" where
  "not_executed detail = ''[tool call not executed] '' @ detail"

definition answer_dropped_tool_calls ::
  "(pyval \<Rightarrow> string) \<Rightarrow> message list \<Rightarrow> message \<Rightarrow> tool_call list \<Rightarrow> string list \<Rightarrow> message list" where
  "answer_dropped_tool_calls str_of messages history_msg parsed_calls tool_names =
     messages @ map (\<lambda>c. tool_reply (not_executed (dropped_detail str_of tool_names c)) (call_id c))
       (unanswered (recorded_calls history_msg) (answered_ids messages @ map call_id parsed_calls))"

text \<open>The history split at its last assistant message.\<close>

definition split_last_assistant :: "message list \<Rightarrow> (message list \<times> message \<times> message list) option" where
  "split_last_assistant ms =
     (case dropWhile (\<lambda>m. \<not> is_assistant_msg m) (rev ms) of
        [] \<Rightarrow> None
      | a # rpre \<Rightarrow> Some (rev rpre, a, rev (takeWhile (\<lambda>m. \<not> is_assistant_msg m) (rev ms))))"

definition answer_unexecuted_tool_calls :: "message list \<Rightarrow> string \<Rightarrow> message list" where
  "answer_unexecuted_tool_calls messages detail =
     (case split_last_assistant messages of
        None \<Rightarrow> messages
      | Some (pre, a, post) \<Rightarrow>
          pre @ [a] @ takeWhile is_tool_msg post
          @ map (\<lambda>c. tool_reply (not_executed detail) (call_id c))
              (unanswered (recorded_calls a) (answered_ids post))
          @ dropWhile is_tool_msg post)"

definition pop_last_assistant_turn :: "message list \<Rightarrow> message list option \<times> message list" where
  "pop_last_assistant_turn messages =
     (case split_last_assistant messages of
        None \<Rightarrow> (None, messages)
      | Some (pre, a, post) \<Rightarrow>
          (Some (a # takeWhile is_tool_msg post), pre @ dropWhile is_tool_msg post))"

text \<open>\<open>_reset_signed_thinking_history\<close>: \<open>None\<close> is a message that is dropped.\<close>

definition is_thinking_block :: "pyval \<Rightarrow> bool" where
  "is_thinking_block b =
     (case b of PyDict d \<Rightarrow> get_or_none d ''type'' \<in> {PyStr ''thinking'', PyStr ''redacted_thinking''}
              | _ \<Rightarrow> False)"

definition reset_signed_message :: "message \<Rightarrow> message option" where
  "reset_signed_message m =
     (case get_or_none m ''content'' of
        PyList blocks \<Rightarrow>
          if get_or_none m ''role'' \<noteq> PyStr ''assistant'' then Some m
          else
            let kept = filter (\<lambda>b. \<not> is_thinking_block b) blocks in
            if length kept = length blocks then Some m
            else if kept \<noteq> [] \<or> truthy (get_or_none m ''tool_calls'')
            then Some (AList.update ''content'' (PyList kept) m)
            else None
      | _ \<Rightarrow> Some m)"

definition reset_signed_thinking_history :: "message list \<Rightarrow> message list" where
  "reset_signed_thinking_history messages = List.map_filter reset_signed_message messages"

text \<open>The pops of \<open>_handle_context_overflow\<close>.\<close>

definition drop_trailing_tools :: "message list \<Rightarrow> message list" where
  "drop_trailing_tools ms = rev (dropWhile is_tool_msg (rev ms))"

definition overflow_pop :: "message list \<Rightarrow> message list" where
  "overflow_pop ms =
     (let ms1 = drop_trailing_tools ms in
      if ms1 \<noteq> [] \<and> is_assistant_msg (last ms1) then butlast ms1 else ms1)"

section \<open>What a provider accepts\<close>

text \<open>Every announced call is answered directly beneath its assistant message.\<close>

fun paired :: "message list \<Rightarrow> bool" where
  "paired [] = True"
| "paired (m # ms) =
     ((is_assistant_msg m \<longrightarrow> set (native_ids m) \<subseteq> set (answered_ids (takeWhile is_tool_msg ms))) \<and> paired ms)"

text \<open>Every tool message is reached from an assistant message through tool messages only.\<close>

fun placed_from :: "bool \<Rightarrow> message list \<Rightarrow> bool" where
  "placed_from open_call [] = True"
| "placed_from open_call (m # ms) =
     (if is_tool_msg m then open_call \<and> placed_from open_call ms
      else placed_from (is_assistant_msg m) ms)"

definition wire_ok :: "message list \<Rightarrow> bool" where
  "wire_ok ms = (paired ms \<and> placed_from False ms)"

lemma tool_not_assistant [simp]: "is_tool_msg m \<Longrightarrow> \<not> is_assistant_msg m"
  by (simp add: is_tool_msg_def is_assistant_msg_def)

lemma assistant_not_tool: "is_assistant_msg m \<Longrightarrow> \<not> is_tool_msg m"
  using tool_not_assistant by blast

lemma tool_reply_simps [simp]:
  "is_tool_msg (tool_reply c i)" "answer_id (tool_reply c i) = i" "\<not> is_assistant_msg (tool_reply c i)"
  by (simp_all add: is_tool_msg_def is_assistant_msg_def answer_id_def tool_reply_def get_or_none_def)

lemma user_msg_simps [simp]: "\<not> is_tool_msg (user_msg s)"
  by (simp add: is_tool_msg_def user_msg_def get_or_none_def)

lemma system_msg_simps [simp]: "\<not> is_tool_msg (system_msg s)" "\<not> is_assistant_msg (system_msg s)"
  by (simp_all add: is_tool_msg_def is_assistant_msg_def system_msg_def get_or_none_def)

lemma answered_ids_simps [simp]:
  "answered_ids [] = []" "answered_ids (xs @ ys) = answered_ids xs @ answered_ids ys"
  "answered_ids (m # ms) = (if is_tool_msg m then answer_id m # answered_ids ms else answered_ids ms)"
  by (simp_all add: answered_ids_def)

lemma answered_ids_replies [simp]:
  "answered_ids (map (\<lambda>c. tool_reply (f c) (call_id c)) cs) = map call_id cs"
  by (induction cs) auto

lemma unanswered_ids:
  "set (map call_id (unanswered cs answered)) = set (filter truthy (map call_id cs)) - set answered"
  by (induction cs answered rule: unanswered.induct) auto

subsection \<open>Appending\<close>

lemma takeWhile_append_mono: "set (answered_ids (takeWhile P xs)) \<subseteq> set (answered_ids (takeWhile P (xs @ ys)))"
  by (cases "\<forall>x \<in> set xs. P x") (auto simp: takeWhile_append takeWhile_eq_all_conv [THEN iffD2])

lemma paired_append: "paired xs \<Longrightarrow> paired ys \<Longrightarrow> paired (xs @ ys)"
proof (induction xs)
  case (Cons x xs)
  with takeWhile_append_mono [of is_tool_msg xs ys] show ?case by auto
qed simp

lemma paired_no_assistant: "\<forall>m \<in> set ms. \<not> is_assistant_msg m \<Longrightarrow> paired ms"
  by (induction ms) auto

lemma paired_append_right: "paired (xs @ ys) \<Longrightarrow> paired ys"
  by (induction xs) auto

lemma paired_append_left:
  "paired (xs @ ys) \<Longrightarrow> ys = [] \<or> \<not> is_tool_msg (hd ys) \<Longrightarrow> paired xs"
proof (induction xs)
  case (Cons x xs)
  have "takeWhile is_tool_msg (xs @ ys) = takeWhile is_tool_msg xs"
    using Cons.prems(2) by (cases "\<forall>m \<in> set xs. is_tool_msg m"; cases ys) (auto simp: takeWhile_append takeWhile_eq_all_conv [THEN iffD2])
  with Cons show ?case by auto
qed simp

text \<open>An assistant message with the tool messages beneath it.\<close>

lemma paired_turn:
  assumes "\<forall>m \<in> set tools. is_tool_msg m" and "set (native_ids a) \<subseteq> set (answered_ids tools)"
  shows "paired (a # tools)"
  using assms paired_no_assistant [of tools] by (auto simp: takeWhile_eq_all_conv [THEN iffD2])

lemma placed_append:
  "placed_from b (xs @ ys) \<longleftrightarrow> placed_from b xs \<and> placed_from (foldl (\<lambda>b m. if is_tool_msg m then b else is_assistant_msg m) b xs) ys"
  by (induction xs arbitrary: b) auto

lemma placed_tools:
  "\<forall>m \<in> set tools. is_tool_msg m \<Longrightarrow> placed_from True tools"
  by (induction tools) auto

lemma placed_no_tools:
  "\<forall>m \<in> set ms. \<not> is_tool_msg m \<Longrightarrow> placed_from b ms"
  by (induction ms arbitrary: b) auto

lemma placed_mono: "placed_from False ms \<Longrightarrow> placed_from b ms"
  by (cases ms) (auto split: if_splits)

lemma wire_ok_append: "wire_ok xs \<Longrightarrow> wire_ok ys \<Longrightarrow> wire_ok (xs @ ys)"
  by (auto simp: wire_ok_def placed_append intro: paired_append placed_mono)

lemma wire_ok_users [simp]: "wire_ok (map user_msg ts)"
  by (auto simp: wire_ok_def intro!: paired_no_assistant placed_no_tools)

lemma wire_ok_turn:
  assumes "is_assistant_msg a" "\<forall>m \<in> set tools. is_tool_msg m" "set (native_ids a) \<subseteq> set (answered_ids tools)"
  shows "wire_ok (a # tools)"
  using assms paired_turn [OF assms(2,3)] placed_tools [OF assms(2)]
  by (auto simp: wire_ok_def)

text \<open>
  The condition reads only the kind of a message, the ids an assistant message announces and a
  proper id a tool message answers.
\<close>

definition shape :: "message \<Rightarrow> bool \<times> bool \<times> pyval list \<times> pyval" where
  "shape m = (is_tool_msg m, is_assistant_msg m, if is_assistant_msg m then native_ids m else [],
     if is_tool_msg m \<and> truthy (answer_id m) then answer_id m else PyNone)"

lemma shape_cong:
  assumes "shape m = shape m'"
  shows "is_tool_msg m = is_tool_msg m'" "is_assistant_msg m = is_assistant_msg m'"
    "is_assistant_msg m' \<Longrightarrow> native_ids m = native_ids m'"
    "is_tool_msg m' \<Longrightarrow> truthy (answer_id m) \<or> truthy (answer_id m') \<Longrightarrow> answer_id m = answer_id m'"
  using assms by (auto simp: shape_def split: if_splits)

lemma shapeI:
  assumes "get_or_none m ''role'' = get_or_none m' ''role''" "get_or_none m ''tool_calls'' = get_or_none m' ''tool_calls''"
    "get_or_none m ''tool_call_id'' = get_or_none m' ''tool_call_id''"
  shows "shape m = shape m'"
  using assms
  by (simp add: shape_def is_tool_msg_def is_assistant_msg_def native_ids_def recorded_calls_def answer_id_def)

abbreviation proper_answers :: "message list \<Rightarrow> pyval list" where
  "proper_answers ms \<equiv> filter truthy (answered_ids (takeWhile is_tool_msg ms))"

lemma answered_ids_shape: "map shape ms = map shape ms' \<Longrightarrow> proper_answers ms = proper_answers ms'"
proof (induction ms arbitrary: ms')
  case (Cons m ms)
  then obtain m' ns where "ms' = m' # ns" "shape m = shape m'" "map shape ms = map shape ns" by auto
  with Cons.IH [of ns] shape_cong [of m m'] show ?case by auto
qed simp

lemma native_answered:
  "set (native_ids m) \<subseteq> set (answered_ids ts) \<longleftrightarrow> set (native_ids m) \<subseteq> set (filter truthy (answered_ids ts))"
  by (auto simp: native_ids_def)

lemma wire_ok_shape:
  assumes "map shape ms = map shape ms'"
  shows "wire_ok ms = wire_ok ms'"
proof -
  have "paired ms = paired ms'" using assms
  proof (induction ms arbitrary: ms')
    case (Cons m ms)
    then obtain m' ns where n: "ms' = m' # ns" "shape m = shape m'" "map shape ms = map shape ns" by auto
    have "is_assistant_msg m \<longrightarrow> native_ids m = native_ids m'" using shape_cong [OF n(2)] by blast
    with Cons.IH [OF n(3)] shape_cong(2) [OF n(2)] answered_ids_shape [OF n(3)] n(1) show ?case
      by (auto simp: native_answered)
  qed simp
  moreover have "placed_from b ms = placed_from b ms'" for b using assms
  proof (induction ms arbitrary: ms' b)
    case (Cons m ms)
    then obtain m' ns where "ms' = m' # ns" "shape m = shape m'" "map shape ms = map shape ns" by auto
    with Cons.IH [of ns] shape_cong [of m m'] show ?case by simp
  qed simp
  ultimately show ?thesis by (simp add: wire_ok_def)
qed

lemma shape_rewriter: "(\<And>ms. map shape (f ms) = map shape ms) \<Longrightarrow> wire_ok ms \<Longrightarrow> wire_ok (f ms)"
  using wire_ok_shape by blast

subsection \<open>The last assistant message\<close>

lemma split_last_assistant_Some:
  assumes "split_last_assistant ms = Some (pre, a, post)"
  shows "ms = pre @ a # post" "is_assistant_msg a" "\<forall>m \<in> set post. \<not> is_assistant_msg m"
proof -
  let ?P = "\<lambda>m. \<not> is_assistant_msg m"
  from assms obtain rpre where d: "dropWhile ?P (rev ms) = a # rpre"
    and pre: "pre = rev rpre" and post: "post = rev (takeWhile ?P (rev ms))"
    by (auto simp: split_last_assistant_def split: list.splits)
  have "rev ms = takeWhile ?P (rev ms) @ a # rpre" by (metis d takeWhile_dropWhile_id)
  then have "rev ms = rev post @ a # rev pre" by (simp add: pre post)
  then show "ms = pre @ a # post" by (metis rev_rev_ident rev_append rev.simps(2) append_assoc append_Cons append_Nil)
  show "is_assistant_msg a" using hd_dropWhile [of ?P "rev ms"] d by simp
  show "\<forall>m \<in> set post. \<not> is_assistant_msg m" by (auto simp: post dest: set_takeWhileD)
qed

lemma split_last_assistant_None:
  "split_last_assistant ms = None \<longleftrightarrow> (\<forall>m \<in> set ms. \<not> is_assistant_msg m)"
proof (cases "dropWhile (\<lambda>m. \<not> is_assistant_msg m) (rev ms)")
  case Nil
  then have "\<forall>m \<in> set ms. \<not> is_assistant_msg m" by simp
  with Nil show ?thesis unfolding split_last_assistant_def Nil by simp
next
  case (Cons a rpre)
  then have "is_assistant_msg a" "a \<in> set ms"
    using hd_dropWhile [of "\<lambda>m. \<not> is_assistant_msg m" "rev ms"] set_dropWhileD [of a "\<lambda>m. \<not> is_assistant_msg m" "rev ms"] by auto
  then show ?thesis unfolding split_last_assistant_def Cons by auto
qed

lemma split_last_assistant_eq:
  assumes "is_assistant_msg a" and "\<forall>m \<in> set post. \<not> is_assistant_msg m"
  shows "split_last_assistant (pre @ a # post) = Some (pre, a, post)"
proof -
  let ?P = "\<lambda>m. \<not> is_assistant_msg m"
  have "dropWhile ?P (rev post @ a # rev pre) = a # rev pre"
    using assms by (simp add: dropWhile_append3 dropWhile_eq_Nil_conv)
  moreover have "takeWhile ?P (rev post @ a # rev pre) = rev post"
    using assms by (subst takeWhile_append2) auto
  ultimately show ?thesis by (simp add: split_last_assistant_def)
qed

text \<open>All is well except that the last assistant message may still have unanswered calls.\<close>

definition wire_ok_but_last :: "message list \<Rightarrow> bool" where
  "wire_ok_but_last ms =
     (placed_from False ms \<and>
      (case split_last_assistant ms of None \<Rightarrow> True | Some (pre, a, post) \<Rightarrow> paired pre))"

lemma wire_ok_but_lastI: "wire_ok ms \<Longrightarrow> wire_ok_but_last ms"
proof -
  assume ok: "wire_ok ms"
  have "paired pre" if "split_last_assistant ms = Some (pre, a, post)" for pre a post
    using split_last_assistant_Some [OF that] ok paired_append_left [of pre "a # post"]
    by (auto simp: wire_ok_def assistant_not_tool)
  then show ?thesis using ok by (auto simp: wire_ok_but_last_def wire_ok_def split: option.splits)
qed

text \<open>Beneath a placed last assistant message there are tool messages, then none.\<close>

lemma placed_False_no_tools:
  "\<forall>m \<in> set ms. \<not> is_assistant_msg m \<Longrightarrow> placed_from False ms \<longleftrightarrow> (\<forall>m \<in> set ms. \<not> is_tool_msg m)"
  by (induction ms) auto

lemma placed_after_call:
  assumes "\<forall>m \<in> set post. \<not> is_assistant_msg m" and "placed_from True post"
  shows "\<forall>m \<in> set (dropWhile is_tool_msg post). \<not> is_tool_msg m"
  using assms
proof (induction post)
  case (Cons m post)
  then show ?case using placed_False_no_tools [of post] by (auto split: if_splits)
qed simp

lemma last_turn_shape:
  assumes "wire_ok_but_last ms" and "split_last_assistant ms = Some (pre, a, post)"
  shows "wire_ok pre" "\<forall>m \<in> set (dropWhile is_tool_msg post). \<not> is_tool_msg m"
    "answered_ids post = answered_ids (takeWhile is_tool_msg post)"
    "wire_ok (dropWhile is_tool_msg post)"
proof -
  note s = split_last_assistant_Some [OF assms(2)]
  have nt: "\<not> is_tool_msg a" using s(2) by (rule assistant_not_tool)
  from assms s(1,2) nt have p: "paired pre" "placed_from False pre" "placed_from True post"
    by (auto simp: wire_ok_but_last_def placed_append)
  then show "wire_ok pre" by (simp add: wire_ok_def)
  show rest: "\<forall>m \<in> set (dropWhile is_tool_msg post). \<not> is_tool_msg m"
    using placed_after_call s(3) p(3) by blast
  have "answered_ids (takeWhile is_tool_msg post @ dropWhile is_tool_msg post) =
      answered_ids (takeWhile is_tool_msg post)"
    using rest by (simp add: answered_ids_def filter_empty_conv del: takeWhile_dropWhile_id)
  then show "answered_ids post = answered_ids (takeWhile is_tool_msg post)" by simp
  have "\<forall>m \<in> set (dropWhile is_tool_msg post). \<not> is_assistant_msg m"
    using s(3) set_dropWhileD by fastforce
  then show "wire_ok (dropWhile is_tool_msg post)"
    using rest by (simp add: wire_ok_def paired_no_assistant placed_no_tools)
qed

section \<open>The contracts of the operations\<close>

text \<open>
  A rewriting of the history keeps it acceptable; a repair also makes a history acceptable whose
  last assistant turn was cut short.
\<close>

locale history_rewriter =
  fixes rewrite :: "message list \<Rightarrow> message list"
  assumes keeps: "wire_ok ms \<Longrightarrow> wire_ok (rewrite ms)"
begin

lemma keeps_then_users: "wire_ok ms \<Longrightarrow> wire_ok (rewrite ms @ map user_msg ts)"
  by (simp add: keeps wire_ok_append)

end

locale history_repair =
  fixes repair :: "message list \<Rightarrow> message list"
  assumes repairs: "wire_ok_but_last ms \<Longrightarrow> wire_ok (repair ms)"

sublocale history_repair \<subseteq> history_rewriter repair
  by unfold_locales (simp add: repairs wire_ok_but_lastI)

lemma answer_unexecuted_repairs:
  assumes "wire_ok_but_last ms"
  shows "wire_ok (answer_unexecuted_tool_calls ms detail)"
proof (cases "split_last_assistant ms")
  case None
  then have "paired ms" using split_last_assistant_None paired_no_assistant by blast
  with None assms show ?thesis
    by (simp add: answer_unexecuted_tool_calls_def wire_ok_def wire_ok_but_last_def)
next
  case (Some s)
  then obtain pre a post where s: "split_last_assistant ms = Some (pre, a, post)" by (cases s) auto
  note shape = last_turn_shape [OF assms s]
  define answers where "answers = map (\<lambda>c. tool_reply (not_executed detail) (call_id c))
      (unanswered (recorded_calls a) (answered_ids post))"
  let ?tools = "takeWhile is_tool_msg post @ answers"
  have "\<forall>m \<in> set ?tools. is_tool_msg m" by (auto simp: answers_def dest: set_takeWhileD)
  moreover have "set (native_ids a) \<subseteq> set (answered_ids ?tools)"
    using unanswered_ids [of "recorded_calls a" "answered_ids post"] shape(3)
    by (auto simp: answers_def native_ids_def)
  ultimately have "wire_ok (a # ?tools)" by (rule wire_ok_turn [OF split_last_assistant_Some(2) [OF s]])
  with shape(1,4) have "wire_ok (pre @ (a # ?tools) @ dropWhile is_tool_msg post)"
    by (intro wire_ok_append)
  then show ?thesis by (simp add: answer_unexecuted_tool_calls_def s answers_def)
qed

lemma pop_last_repairs:
  assumes "wire_ok_but_last ms"
  shows "wire_ok (snd (pop_last_assistant_turn ms))"
proof (cases "split_last_assistant ms")
  case None
  then have "paired ms" using split_last_assistant_None paired_no_assistant by blast
  with None assms show ?thesis
    by (simp add: pop_last_assistant_turn_def wire_ok_def wire_ok_but_last_def)
next
  case (Some s)
  then obtain pre a post where s: "split_last_assistant ms = Some (pre, a, post)" by (cases s) auto
  from last_turn_shape(1,4) [OF assms s] show ?thesis
    by (simp add: pop_last_assistant_turn_def s wire_ok_append)
qed

interpretation unexecuted: history_repair "\<lambda>ms. answer_unexecuted_tool_calls ms detail" for detail
  by unfold_locales (rule answer_unexecuted_repairs)

interpretation rollback: history_repair "\<lambda>ms. snd (pop_last_assistant_turn ms)"
  by unfold_locales (rule pop_last_repairs)

section \<open>Answering dropped calls\<close>

text \<open>What the appended replies answer.\<close>

lemma answer_dropped_shape:
  "\<exists>replies. answer_dropped_tool_calls str_of messages history_msg parsed_calls tool_names = messages @ replies
    \<and> (\<forall>m \<in> set replies. is_tool_msg m)
    \<and> set (answered_ids replies) =
        set (native_ids history_msg) - set (answered_ids messages) - set (map call_id parsed_calls)"
  using unanswered_ids [of "recorded_calls history_msg" "answered_ids messages @ map call_id parsed_calls"]
  by (intro exI [of _ "map (\<lambda>c. tool_reply (not_executed (dropped_detail str_of tool_names c)) (call_id c))
        (unanswered (recorded_calls history_msg) (answered_ids messages @ map call_id parsed_calls))"])
     (auto simp: answer_dropped_tool_calls_def native_ids_def)

end
