(* ===== verification/Compact.thy ===== *)
theory Compact
  imports Loop_History
begin

text \<open>
  Compaction of the message history (\<^verbatim>\<open>runtime/loop/compact.py\<close>): the squashing of the middle
  (\<open>compact_messages\<close>), the condensing of tool results (\<open>compress_tool_results\<close>) and the cards of
  \<open>KeepLastNToolResultsCompactor\<close>.  The spill callback of the host is a parameter; it answers
  \<open>None\<close> when it declines or raises.  Spill references are strings.  The ellipsis character of the
  sources is one character here too.
\<close>

definition OMITTED_TOOL_RESULT_PLACEHOLDER :: string where
  "OMITTED_TOOL_RESULT_PLACEHOLDER = ''Tool result dropped to save tokens. You already read it; re-running the ''
     @ ''same call will not restore it. Rely on your notes and later messages.''"

definition LEGACY_OMITTED_TOOL_RESULT_PLACEHOLDERS :: "string list" where
  "LEGACY_OMITTED_TOOL_RESULT_PLACEHOLDERS = [''Tool result is omitted to save tokens.'']"

definition SPILL_MANIFEST_HEADER :: string where
  "SPILL_MANIFEST_HEADER = ''[Read-only recovery index; use only for missing older detail. Never write here.]''"

definition ELLIPSIS :: char where
  "ELLIPSIS = CHR 0x85"

abbreviation newline :: string where
  "newline \<equiv> [CHR 0x0A]"

definition default_recovery_footer :: "string \<Rightarrow> string" where
  "default_recovery_footer spill_path = ''[Full text] '' @ spill_path"

section \<open>Source URLs\<close>

definition url_char :: "char \<Rightarrow> bool" where
  "url_char c = (\<not> is_space c \<and> c \<notin> {CHR '')'', CHR ''>'', CHR 0x22, CHR 0x27, CHR ''<''})"

text \<open>The match of \<open>URL_RE\<close> at the start of a string.\<close>

definition url_at :: "string \<Rightarrow> string option" where
  "url_at s =
     (let n = (if prefix ''https://'' s then 8 else if prefix ''http://'' s then 7 else 0);
          body = takeWhile url_char (drop n s)
      in if n = 0 \<or> body = [] then None else Some (take n s @ body))"

text \<open>\<open>URL_RE.findall(s)\<close>\<close>

fun find_urls :: "string \<Rightarrow> string list" where
  "find_urls [] = []"
| "find_urls (c # cs) =
     (case url_at (c # cs) of
        Some u \<Rightarrow> u # find_urls (drop (length u - 1) cs)
      | None \<Rightarrow> find_urls cs)"

text \<open>\<open>dict.fromkeys(xs)\<close> as a sequence.\<close>

definition unique :: "'a list \<Rightarrow> 'a list" where
  "unique xs = rev (remdups (rev xs))"

section \<open>The calls behind a result\<close>

definition fn_get :: "tool_call \<Rightarrow> string \<Rightarrow> pyval" where
  "fn_get c k = (case get_or_none c ''function'' of PyDict d \<Rightarrow> get_or_none d k | _ \<Rightarrow> PyNone)"

definition py_or :: "pyval \<Rightarrow> pyval \<Rightarrow> pyval" where
  "py_or a b = (if truthy a then a else b)"

definition assistant_calls :: "message list \<Rightarrow> tool_call list" where
  "assistant_calls ms = concat (map recorded_calls (filter is_assistant_msg ms))"

definition call_key :: "tool_call \<Rightarrow> pyval" where
  "call_key c = py_or (get_or_none c ''id'') (fn_get c ''id'')"

definition tool_names_by_call_id :: "message list \<Rightarrow> string pydict" where
  "tool_names_by_call_id ms =
     foldl (\<lambda>out c.
       case (call_key c, py_or (fn_get c ''name'') (get_or_none c ''name'')) of
         (PyStr tid, PyStr name) \<Rightarrow> if tid \<noteq> [] \<and> name \<noteq> [] then AList.update tid name out else out
       | _ \<Rightarrow> out) [] (assistant_calls ms)"

definition MINI_CARD_ARGS_MAX_CHARS :: nat where
  "MINI_CARD_ARGS_MAX_CHARS = 120"

definition MINI_CARD_BODY_MAX_CHARS :: nat where
  "MINI_CARD_BODY_MAX_CHARS = 400"

definition MINI_CARD_MAX_URLS :: int where
  "MINI_CARD_MAX_URLS = 1"

text \<open>\<open>_WHITESPACE_RE.sub(" ", s)\<close>\<close>

function collapse_spaces :: "string \<Rightarrow> string" where
  "collapse_spaces [] = []"
| "collapse_spaces (c # cs) =
     (if is_space c then CHR '' '' # collapse_spaces (dropWhile is_space cs) else c # collapse_spaces cs)"
  by pat_completeness auto
termination
  by (relation "measure length") (auto simp: le_imp_less_Suc length_dropWhile_le)

definition rendered_args :: "(pyval \<Rightarrow> string) \<Rightarrow> pyval \<Rightarrow> string" where
  "rendered_args str_of raw =
     (case raw of PyStr s \<Rightarrow> s | _ \<Rightarrow> if truthy raw then py_format str_of raw else [])"

definition args_preview :: "(pyval \<Rightarrow> string) \<Rightarrow> pyval \<Rightarrow> string" where
  "args_preview str_of raw =
     (let collapsed = str_strip (collapse_spaces (rendered_args str_of raw))
      in if length collapsed \<le> MINI_CARD_ARGS_MAX_CHARS then collapsed
         else take (MINI_CARD_ARGS_MAX_CHARS - 1) collapsed @ [ELLIPSIS])"

definition call_arguments :: "tool_call \<Rightarrow> pyval" where
  "call_arguments c =
     (let args = dict_get_default c ''args'' (PyStr []) in
      case get_or_none c ''function'' of
        PyDict d \<Rightarrow> dict_get_default d ''arguments'' args
      | _ \<Rightarrow> dict_get_default c ''arguments'' args)"

definition tool_args_by_call_id ::
  "(pyval \<Rightarrow> string) \<Rightarrow> message list \<Rightarrow> string pydict \<times> string pydict" where
  "tool_args_by_call_id str_of ms =
     foldl (\<lambda>(previews, source_urls) c.
       case call_key c of
         PyStr tid \<Rightarrow>
           if tid = [] then (previews, source_urls)
           else
             let preview = args_preview str_of (call_arguments c);
                 urls = find_urls (rendered_args str_of (call_arguments c))
             in (if preview \<noteq> [] then AList.update tid preview previews else previews,
                 if urls \<noteq> [] then AList.update tid (hd urls) source_urls else source_urls)
       | _ \<Rightarrow> (previews, source_urls)) ([], []) (assistant_calls ms)"

section \<open>The card of an elided result\<close>

definition source_line :: "string list \<Rightarrow> string" where
  "source_line urls = ''[Source URLs] '' @ str_join '' | '' urls"

fun card_urls :: "int \<Rightarrow> string \<Rightarrow> string list \<Rightarrow> string list \<Rightarrow> string list \<Rightarrow> string list" where
  "card_urls max_urls preview lines urls [] = urls"
| "card_urls max_urls preview lines urls (u # us) =
     (if max_urls \<le> int (length urls) then urls
      else if sublist u preview then card_urls max_urls preview lines urls us
      else if MINI_CARD_BODY_MAX_CHARS < length (str_join newline (lines @ [source_line (urls @ [u])])) then urls
      else card_urls max_urls preview lines (urls @ [u]) us)"

definition elided_tool_card :: "string \<Rightarrow> string \<Rightarrow> string \<Rightarrow> string \<Rightarrow> int \<Rightarrow> string" where
  "elided_tool_card tool_name preview args_source_url content max_urls =
     (if find_urls content = [] \<and> args_source_url = []
      then (if tool_name \<noteq> [] then ''[Called: '' @ tool_name @ '']'' else [])
      else
        let call_line = (if preview \<noteq> [] then ''[Called: '' @ tool_name @ ''('' @ preview @ '')]''
                         else ''[Called: '' @ tool_name @ '']'');
            clipped = (if MINI_CARD_BODY_MAX_CHARS < length call_line
                       then take (MINI_CARD_BODY_MAX_CHARS - 1) call_line @ [ELLIPSIS] else call_line);
            lines = (if tool_name \<noteq> [] \<or> preview \<noteq> [] then [clipped] else []);
            urls = card_urls max_urls preview lines [] (unique (find_urls content));
            with_args = lines @ [''[Source URLs] '' @ args_source_url];
            lines2 = (if urls \<noteq> [] then lines @ [source_line urls]
                      else if args_source_url \<noteq> [] \<and> \<not> sublist args_source_url preview
                              \<and> length (str_join newline with_args) \<le> MINI_CARD_BODY_MAX_CHARS
                      then with_args else lines)
        in str_join newline lines2)"

fun strings_of :: "pyval list \<Rightarrow> string list" where
  "strings_of [] = []"
| "strings_of (PyStr s # vs) = s # strings_of vs"
| "strings_of (v # vs) = strings_of vs"

definition message_recovery_ref :: "(pyval \<Rightarrow> string) \<Rightarrow> message \<Rightarrow> string" where
  "message_recovery_ref str_of m =
     (let refs = (case get_or_none m ''spill_refs'' of PyList vs \<Rightarrow> filter (\<lambda>r. r \<noteq> []) (strings_of vs) | _ \<Rightarrow> []);
          stored = get_or_none m ''result_store_ref'';
          canonical = (if truthy stored then py_format str_of stored else []);
          refs2 = (if canonical \<noteq> [] \<and> canonical \<notin> set refs then refs @ [canonical] else refs)
      in if refs2 \<noteq> [] then hd refs2 else [])"

section \<open>Condensing results\<close>

definition middle_marker :: string where
  "middle_marker = newline @ [ELLIPSIS] @ '' [middle omitted] '' @ [ELLIPSIS] @ newline"

definition url_section :: "string list \<Rightarrow> string" where
  "url_section urls = newline @ ''[Source URLs]'' @ newline @ str_join newline urls"

fun condense_urls :: "int \<Rightarrow> string list \<Rightarrow> string list \<Rightarrow> string list" where
  "condense_urls budget urls [] = urls"
| "condense_urls budget urls (u # us) =
     (if budget < int (length (url_section (urls @ [u]))) then urls else condense_urls budget (urls @ [u]) us)"

definition condense_prefix :: "nat \<Rightarrow> string" where
  "condense_prefix n = ''[Compressed tool result: '' @ with_commas n @ '' characters]'' @ newline"

definition condense_summary :: "string \<Rightarrow> int \<Rightarrow> string" where
  "condense_summary content max_chars =
     (let url_lines = condense_urls (max_chars div 2) [] (unique (find_urls content));
          urls = (if url_lines \<noteq> [] then url_section url_lines else []);
          remaining = max_chars - int (length (condense_prefix (length content))) - int (length middle_marker)
                      - int (length urls);
          head_size = max 0 (remaining * 7 div 10);
          tail_size = max 0 (remaining - head_size)
      in condense_prefix (length content) @ take (nat head_size) content @ middle_marker
         @ drop (length content - nat tail_size) content @ urls)"

definition condense :: "string \<Rightarrow> int \<Rightarrow> string" where
  "condense content max_chars =
     (let summary = condense_summary content max_chars
      in if length summary < length content then summary else content)"

text \<open>Dropping old reasoning.\<close>

definition has_reasoning :: "message \<Rightarrow> bool" where
  "has_reasoning m = (is_assistant_msg m \<and> truthy (get_or_none m ''reasoning_content''))"

definition indices :: "('a \<Rightarrow> bool) \<Rightarrow> 'a list \<Rightarrow> nat list" where
  "indices P xs = map fst (filter (\<lambda>(i, x). P x) (List.enumerate 0 xs))"

definition strip_stale_reasoning :: "message list \<Rightarrow> int \<Rightarrow> message list" where
  "strip_stale_reasoning ms keep_last =
     (if keep_last < 0 then ms
      else
        let idx = indices has_reasoning ms;
            stale = take (length idx - nat keep_last) idx
        in map (\<lambda>(i, m). if i \<in> set stale then AList.delete ''reasoning_content'' m else m) (List.enumerate 0 ms))"

definition result_tool_name :: "string pydict \<Rightarrow> message \<Rightarrow> string option" where
  "result_tool_name names m =
     (case dict_get_default m ''tool_call_id'' (PyStr []) of PyStr tid \<Rightarrow> map_of names tid | _ \<Rightarrow> None)"

definition protected :: "string pydict \<Rightarrow> string list \<Rightarrow> message \<Rightarrow> bool" where
  "protected names protect m = (case result_tool_name names m of None \<Rightarrow> False | Some n \<Rightarrow> n \<in> set protect)"

definition compress_one ::
  "(pyval \<Rightarrow> string) \<Rightarrow> string pydict \<Rightarrow> int \<Rightarrow> string list \<Rightarrow> int option \<Rightarrow> string list \<Rightarrow> message \<Rightarrow> message" where
  "compress_one str_of names max_chars protect protect_max_chars preserve_ids m =
     (let tid = get_or_none m ''tool_call_id'' in
      if \<not> is_tool_msg m then m
      else if (if truthy tid then py_format str_of tid else []) \<in> set preserve_ids then m
      else
        let budget = (if protected names protect m then protect_max_chars else Some max_chars);
            content = text_of str_of (get_or_none m ''content'')
        in case budget of
             None \<Rightarrow> m
           | Some b \<Rightarrow> if int (length content) \<le> b then m
                       else AList.update ''content'' (PyStr (condense content b)) m)"

definition compress_tool_results ::
  "(pyval \<Rightarrow> string) \<Rightarrow> message list \<Rightarrow> int \<Rightarrow> string list \<Rightarrow> int option \<Rightarrow> string list \<Rightarrow> string + message list" where
  "compress_tool_results str_of ms max_chars protect protect_max_chars preserve_ids =
     (if max_chars < 200 then Inl ''max_chars must be at least 200''
      else if (case protect_max_chars of None \<Rightarrow> False | Some p \<Rightarrow> p < 200)
      then Inl ''protect_max_chars must be at least 200''
      else
        let names = (if protect \<noteq> [] then tool_names_by_call_id ms else [])
        in Inr (strip_stale_reasoning
                 (map (compress_one str_of names max_chars protect protect_max_chars preserve_ids) ms) 1))"

text \<open>\<open>estimate_tokens\<close> of a history; \<open>est\<close> is the estimator of a text.\<close>

definition estimate_history :: "(string \<Rightarrow> nat) \<Rightarrow> (pyval \<Rightarrow> string) \<Rightarrow> message list \<Rightarrow> nat" where
  "estimate_history est str_of ms =
     sum_list (map (\<lambda>m. est (text_of str_of (get_or_none m ''content'')) + 4
       + est (let r = get_or_none m ''reasoning_content'' in if truthy r then py_format str_of r else [])) ms)"

section \<open>Squashing the middle\<close>

fun back_split :: "message list \<Rightarrow> nat \<Rightarrow> nat" where
  "back_split rest 0 = 0"
| "back_split rest (Suc i) = (if is_tool_msg (rest ! Suc i) then back_split rest i else Suc i)"

definition is_system_msg :: "message \<Rightarrow> bool" where
  "is_system_msg m = (get_or_none m ''role'' = PyStr ''system'')"

definition is_user_msg :: "message \<Rightarrow> bool" where
  "is_user_msg m = (get_or_none m ''role'' = PyStr ''user'')"

definition is_compacted :: "(pyval \<Rightarrow> string) \<Rightarrow> message \<Rightarrow> bool" where
  "is_compacted str_of m = prefix ''[Compacted'' (text_of str_of (get_or_none m ''content''))"

definition split_index :: "message list \<Rightarrow> int \<Rightarrow> nat" where
  "split_index rest keep_recent =
     (let split = nat (int (length rest) - keep_recent);
          forward = split + length (takeWhile is_tool_msg (drop split rest))
      in if forward < length rest then forward
         else if split < length rest then back_split rest split
         else split)"

definition partition_for_compaction ::
  "(pyval \<Rightarrow> string) \<Rightarrow> message list \<Rightarrow> int \<Rightarrow> message list \<times> message list \<times> message list" where
  "partition_for_compaction str_of ms keep_recent =
     (let pre0 = takeWhile is_system_msg ms; rest0 = dropWhile is_system_msg ms in
      if int (length rest0) \<le> keep_recent then (pre0, [], rest0)
      else
        let pins = (0 < keep_recent \<and> rest0 \<noteq> [] \<and> is_user_msg (hd rest0) \<and> \<not> is_compacted str_of (hd rest0));
            pre = (if pins then pre0 @ [hd rest0] else pre0);
            rest = (if pins then tl rest0 else rest0)
        in if int (length rest) \<le> keep_recent then (pre, [], rest)
           else (pre, take (split_index rest keep_recent) rest, drop (split_index rest keep_recent) rest))"

definition call_snippet :: "(pyval \<Rightarrow> string) \<Rightarrow> pyval \<Rightarrow> string" where
  "call_snippet str_of v =
     (let (name, args) =
        (case v of
           PyDict c \<Rightarrow>
             (case get_or_none c ''function'' of
                PyDict f \<Rightarrow> (dict_get_default f ''name'' (PyStr ''?''), dict_get_default f ''arguments'' (PyDict []))
              | _ \<Rightarrow> (dict_get_default c ''name'' (PyStr ''?''), dict_get_default c ''args'' (PyDict [])))
         | _ \<Rightarrow> (PyStr ''?'', PyDict []))
      in py_format str_of name @ ''('' @ take 120 (py_format str_of args) @ '')'')"

definition summary_part :: "(pyval \<Rightarrow> string) \<Rightarrow> message \<Rightarrow> string option" where
  "summary_part str_of m =
     (let content = str_strip (text_of str_of (get_or_none m ''content'')) in
      if prefix ''[Compacted'' content then None
      else if truthy (get_or_none m ''spill_refs'') \<or> sublist SPILL_MANIFEST_HEADER content then None
      else if is_user_msg m
      then (if content \<noteq> [] then Some (''[User: '' @ take 400 content @ '']'') else None)
      else if is_assistant_msg m
      then (let tcs = (case get_or_none m ''tool_calls'' of PyList cs \<Rightarrow> cs | _ \<Rightarrow> []);
                tc_line = str_join ''; '' (map (call_snippet str_of) (take 3 tcs))
            in if tcs \<noteq> []
               then Some (if content \<noteq> [] then ''[Agent: '' @ take 200 content @ '' | called: '' @ tc_line @ '']''
                          else ''[Agent called: '' @ tc_line @ '']'')
               else if content \<noteq> [] then Some (''[Agent: '' @ take 300 content @ '']'') else None)
      else if is_tool_msg m
      then (let tool_name = py_format str_of (py_or (get_or_none m ''name'') (PyStr ''tool''));
                urls = find_urls content;
                url_tag = (if urls \<noteq> [] then '' url='' @ hd urls else [])
            in if content \<noteq> [] then Some (''[Tool '' @ tool_name @ url_tag @ '': '' @ take 300 content @ '']'') else None)
      else None)"

definition compact_summary :: "(pyval \<Rightarrow> string) \<Rightarrow> message list \<Rightarrow> message" where
  "compact_summary str_of middle =
     (let parts = List.map_filter (summary_part str_of) middle;
          body = str_join newline (drop (length parts - 20) parts);
          head = ''[Compacted '' @ str_of_nat (length middle) @ '' earlier messages]''
      in user_msg (if body \<noteq> [] then head @ newline @ body else head))"

definition compact_messages :: "(pyval \<Rightarrow> string) \<Rightarrow> message list \<Rightarrow> int \<Rightarrow> message list" where
  "compact_messages str_of ms keep_recent =
     (case partition_for_compaction str_of ms keep_recent of (pre, middle, recent) \<Rightarrow>
        if middle = [] then ms else pre @ [compact_summary str_of middle] @ recent)"

text \<open>\<open>DefaultCompactionPolicy.should_compact\<close>\<close>

definition default_should_compact :: "int \<Rightarrow> int \<Rightarrow> int \<Rightarrow> int \<Rightarrow> bool" where
  "default_should_compact compact_after_turns context_token_limit turn estimated_tokens =
     (compact_after_turns < turn \<or> context_token_limit < estimated_tokens)"

section \<open>Keeping the last results\<close>

record KeepLastN =
  kl_keep :: int
  kl_protect :: "string list"
  kl_spill :: "(string \<Rightarrow> string \<Rightarrow> string option) option"
  kl_footer :: "string \<Rightarrow> string"
  kl_max_card_urls :: int

definition init_KeepLastN ::
  "int \<Rightarrow> string list \<Rightarrow> (string \<Rightarrow> string \<Rightarrow> string option) option \<Rightarrow> (string \<Rightarrow> string) \<Rightarrow> int \<Rightarrow> string + KeepLastN" where
  "init_KeepLastN keep protect spill footer max_card_urls =
     (if keep < - 1 then Inl (''keep_tool_result must be >= -1 (got '' @ str_of_int keep @ '')'')
      else if max_card_urls < 0 then Inl (''max_card_urls must be >= 0 (got '' @ str_of_int max_card_urls @ '')'')
      else Inr \<lparr>kl_keep = keep, kl_protect = protect, kl_spill = spill, kl_footer = footer,
                kl_max_card_urls = max_card_urls\<rparr>)"

definition is_placeheld :: "string \<Rightarrow> bool" where
  "is_placeheld content =
     (prefix OMITTED_TOOL_RESULT_PLACEHOLDER content
      \<or> list_ex (\<lambda>p. prefix p content) LEGACY_OMITTED_TOOL_RESULT_PLACEHOLDERS)"

definition str_lookup :: "string pydict \<Rightarrow> pyval \<Rightarrow> string \<Rightarrow> string" where
  "str_lookup d k v = (case k of PyStr s \<Rightarrow> dict_get_default d s v | _ \<Rightarrow> v)"

definition elide_result ::
  "(pyval \<Rightarrow> string) \<Rightarrow> KeepLastN \<Rightarrow> string pydict \<Rightarrow> string pydict \<Rightarrow> string pydict \<Rightarrow> message \<Rightarrow> message" where
  "elide_result str_of kl id_to_name id_to_args id_to_arg_url m =
     (let content = text_of str_of (get_or_none m ''content'') in
      if kl_protect kl \<noteq> [] \<and> protected id_to_name (kl_protect kl) m then m
      else if is_placeheld content then m
      else
        let call = dict_get_default m ''tool_call_id'' (PyStr []);
            ref = message_recovery_ref str_of m;
            spill_path =
              (if ref \<noteq> [] then ref
               else case kl_spill kl of
                      None \<Rightarrow> []
                    | Some spill \<Rightarrow> (case spill (str_lookup id_to_name call ''tool'') content of None \<Rightarrow> [] | Some p \<Rightarrow> p))
        in if kl_spill kl \<noteq> None \<and> spill_path = [] then m
           else
             let card = elided_tool_card (str_lookup id_to_name call []) (str_lookup id_to_args call [])
                          (str_lookup id_to_arg_url call []) content (kl_max_card_urls kl);
                 placeholder = OMITTED_TOOL_RESULT_PLACEHOLDER
                   @ (if card \<noteq> [] then newline @ card else [])
                   @ (if spill_path \<noteq> [] then newline @ kl_footer kl spill_path else [])
             in if spill_path = [] \<and> length content \<le> length placeholder then m
                else if spill_path \<noteq> []
                then AList.update ''spill_refs'' (PyList [PyStr spill_path]) (tool_reply placeholder call)
                else tool_reply placeholder call)"

text \<open>The loop over the history: the results outside \<open>keep_set\<close> are elided.\<close>

definition elide_old :: "(pyval \<Rightarrow> string) \<Rightarrow> KeepLastN \<Rightarrow> nat list \<Rightarrow> message list \<Rightarrow> message list" where
  "elide_old str_of kl keep_set ms =
     (let id_to_name = tool_names_by_call_id ms;
          (id_to_args, id_to_arg_url) = tool_args_by_call_id str_of ms
      in map (\<lambda>(i, m). if \<not> is_tool_msg m \<or> i \<in> set keep_set then m
                       else elide_result str_of kl id_to_name id_to_args id_to_arg_url m) (List.enumerate 0 ms))"

definition keep_last_compact :: "(pyval \<Rightarrow> string) \<Rightarrow> KeepLastN \<Rightarrow> message list \<Rightarrow> message list" where
  "keep_last_compact str_of kl ms0 =
     (if kl_keep kl = - 1 then ms0
      else
        let ms = strip_stale_reasoning ms0 (max (kl_keep kl) 1);
            tool_indices = indices is_tool_msg ms;
            keep_count = min (kl_keep kl) (int (length tool_indices));
            keep_set = drop (length tool_indices - nat keep_count) tool_indices
        in if tool_indices = [] then ms
           else if length keep_set = length tool_indices then ms
           else elide_old str_of kl keep_set ms)"

section \<open>Rewriting without touching the pairing\<close>

lemma get_delete [simp]: "k \<noteq> k' \<Longrightarrow> get_or_none (AList.delete k' m) k = get_or_none m k"
  by (simp add: get_or_none_def)

lemma get_update [simp]: "get_or_none (AList.update k v m) k' = (if k = k' then v else get_or_none m k')"
  by (simp add: get_or_none_def update_conv')

lemma map_enumerate_shape:
  assumes "\<And>i m. shape (f (i, m)) = shape m"
  shows "map shape (map f (List.enumerate n ms)) = map shape ms"
  using assms by (induction ms arbitrary: n) simp_all

lemma strip_shape: "map shape (strip_stale_reasoning ms k) = map shape ms"
proof (cases "k < 0")
  case False
  show ?thesis
    unfolding strip_stale_reasoning_def Let_def if_not_P [OF False]
    by (rule map_enumerate_shape) (auto intro: shapeI)
qed (simp add: strip_stale_reasoning_def)

lemma compress_one_shape: "shape (compress_one str_of names mc protect pmc ids m) = shape m"
  by (auto simp: compress_one_def Let_def split: option.splits intro: shapeI)

lemma compress_shape:
  "compress_tool_results str_of ms mc protect pmc ids = Inr out \<Longrightarrow> map shape out = map shape ms"
  by (auto simp: compress_tool_results_def Let_def strip_shape comp_def compress_one_shape split: if_splits)

lemma tool_reply_shape:
  assumes "is_tool_msg m"
  shows "shape (tool_reply c (dict_get_default m ''tool_call_id'' (PyStr []))) = shape m"
    "shape (AList.update ''spill_refs'' v (tool_reply c (dict_get_default m ''tool_call_id'' (PyStr [])))) = shape m"
proof -
  have "truthy (answer_id m) \<Longrightarrow> dict_get_default m ''tool_call_id'' (PyStr []) = answer_id m"
    "\<not> truthy (answer_id m) \<Longrightarrow> \<not> truthy (dict_get_default m ''tool_call_id'' (PyStr []))"
    by (auto simp: answer_id_def get_or_none_def dict_get_default_def split: option.splits)
  then have s: "shape (tool_reply c (dict_get_default m ''tool_call_id'' (PyStr []))) = shape m" for c
    using assms by (auto simp: shape_def)
  then show "shape (tool_reply c (dict_get_default m ''tool_call_id'' (PyStr []))) = shape m" .
  have "shape (AList.update ''spill_refs'' v x) = shape x" for x by (rule shapeI) simp_all
  with s show "shape (AList.update ''spill_refs'' v (tool_reply c (dict_get_default m ''tool_call_id'' (PyStr [])))) = shape m"
    by simp
qed

lemma elide_shape: "is_tool_msg m \<Longrightarrow> shape (elide_result str_of kl names args urls m) = shape m"
  by (auto simp: elide_result_def Let_def tool_reply_shape)

lemma elide_old_shape: "map shape (elide_old str_of kl S ms) = map shape ms"
  unfolding elide_old_def Let_def case_prod_beta
  by (rule map_enumerate_shape) (simp add: elide_shape)

lemma keep_last_shape: "map shape (keep_last_compact str_of kl ms) = map shape ms"
  by (simp add: keep_last_compact_def Let_def elide_old_shape strip_shape)

interpretation stripping: history_rewriter "\<lambda>ms. strip_stale_reasoning ms k" for k
  by unfold_locales (metis strip_shape wire_ok_shape)

interpretation keep_last: history_rewriter "keep_last_compact str_of kl" for str_of kl
  by unfold_locales (metis keep_last_shape wire_ok_shape)

section \<open>Where the middle is taken out\<close>

lemma back_split_le: "back_split rest i \<le> i"
  by (induction i) auto

lemma back_split_no_tool: "back_split rest i \<noteq> 0 \<Longrightarrow> \<not> is_tool_msg (rest ! back_split rest i)"
  by (induction i) auto

lemma drop_takeWhile_no_tool:
  assumes "i + length (takeWhile P (drop i xs)) < length xs"
  shows "\<not> P (hd (drop (i + length (takeWhile P (drop i xs))) xs))"
proof -
  have "drop (i + length (takeWhile P (drop i xs))) xs = dropWhile P (drop i xs)"
    by (simp add: add.commute [of i] dropWhile_eq_drop)
  with assms show ?thesis by (metis drop_eq_Nil hd_dropWhile not_le)
qed

lemma split_index_no_tool:
  assumes "split_index rest k \<noteq> 0" and "drop (split_index rest k) rest \<noteq> []"
  shows "\<not> is_tool_msg (hd (drop (split_index rest k) rest))"
proof -
  define i where "i = nat (int (length rest) - k)"
  have "split_index rest k = (if i + length (takeWhile is_tool_msg (drop i rest)) < length rest
      then i + length (takeWhile is_tool_msg (drop i rest)) else if i < length rest then back_split rest i else i)"
    by (simp add: split_index_def Let_def i_def)
  then consider (f) "i + length (takeWhile is_tool_msg (drop i rest)) < length rest"
      "split_index rest k = i + length (takeWhile is_tool_msg (drop i rest))"
    | (b) "i < length rest" "split_index rest k = back_split rest i" | (e) "length rest \<le> split_index rest k"
    by (cases "i + length (takeWhile is_tool_msg (drop i rest)) < length rest"; cases "i < length rest") auto
  then show ?thesis
  proof cases
    case f
    then show ?thesis using drop_takeWhile_no_tool by simp
  next
    case b
    then have "hd (drop (split_index rest k) rest) = rest ! back_split rest i"
      using back_split_le [of rest i] by (simp add: hd_drop_conv_nth)
    with assms(1) b show ?thesis using back_split_no_tool by simp
  next
    case e
    with assms(2) show ?thesis by simp
  qed
qed

lemma partition_shape:
  assumes "partition_for_compaction str_of ms k = (pre, middle, recent)"
  shows "ms = pre @ middle @ recent" "\<forall>m \<in> set pre. is_system_msg m \<or> is_user_msg m"
    "prefix (takeWhile is_system_msg ms) pre"
    "middle \<noteq> [] \<Longrightarrow> recent = [] \<or> \<not> is_tool_msg (hd recent)"
proof -
  have sys: "\<forall>m \<in> set (takeWhile is_system_msg ms). is_system_msg m" by (auto dest: set_takeWhileD)
  define rest0 where "rest0 = dropWhile is_system_msg ms"
  define pre0 where "pre0 = takeWhile is_system_msg ms"
  have ms0: "pre0 @ rest0 = ms" by (simp add: pre0_def rest0_def)
  define pins where "pins = (0 < k \<and> rest0 \<noteq> [] \<and> is_user_msg (hd rest0) \<and> \<not> is_compacted str_of (hd rest0))"
  define rest where "rest = (if pins then tl rest0 else rest0)"
  define pre1 where "pre1 = pre0 @ (if pins then [hd rest0] else [])"
  have cut_at: "pre1 @ rest = ms" using ms0 by (cases rest0) (auto simp: pre1_def rest_def pins_def)
  have pre1: "\<forall>m \<in> set pre1. is_system_msg m \<or> is_user_msg m" "prefix (takeWhile is_system_msg ms) pre1"
    using sys by (auto simp: pre1_def pins_def pre0_def)
  have "(pre, middle, recent) = (if int (length rest0) \<le> k then (takeWhile is_system_msg ms, [], rest0)
      else if int (length rest) \<le> k then (pre1, [], rest)
      else (pre1, take (split_index rest k) rest, drop (split_index rest k) rest))"
    unfolding assms [symmetric] partition_for_compaction_def Let_def rest_def pre1_def pins_def rest0_def pre0_def by simp
  then consider (all) "pre = takeWhile is_system_msg ms" "middle = []" "recent = rest0"
    | (few) "pre = pre1" "middle = []" "recent = rest"
    | (split) "pre = pre1" "middle = take (split_index rest k) rest" "recent = drop (split_index rest k) rest"
    by (metis prod.inject)
  then have "ms = pre @ middle @ recent \<and> (\<forall>m \<in> set pre. is_system_msg m \<or> is_user_msg m)
      \<and> prefix (takeWhile is_system_msg ms) pre \<and> (middle \<noteq> [] \<longrightarrow> recent = [] \<or> \<not> is_tool_msg (hd recent))"
  proof cases
    case all
    with ms0 sys show ?thesis by (simp add: pre0_def)
  next
    case few
    with cut_at pre1 show ?thesis by simp
  next
    case split
    with cut_at pre1 split_index_no_tool [of rest k] show ?thesis by auto
  qed
  then show "ms = pre @ middle @ recent" "\<forall>m \<in> set pre. is_system_msg m \<or> is_user_msg m"
    "prefix (takeWhile is_system_msg ms) pre"
    "middle \<noteq> [] \<Longrightarrow> recent = [] \<or> \<not> is_tool_msg (hd recent)" by auto
qed

lemma head_messages:
  "is_system_msg m \<or> is_user_msg m \<Longrightarrow> \<not> is_tool_msg m \<and> \<not> is_assistant_msg m"
  by (auto simp: is_system_msg_def is_user_msg_def is_tool_msg_def is_assistant_msg_def)

lemma wire_ok_drop_left:
  assumes "wire_ok (xs @ ys)" and "ys = [] \<or> \<not> is_tool_msg (hd ys)"
  shows "wire_ok ys"
proof -
  have "placed_from b ys \<Longrightarrow> placed_from False ys" for b using assms(2) by (cases ys) auto
  with assms(1) show ?thesis using paired_append_right by (auto simp: wire_ok_def placed_append)
qed

lemma compact_messages_wire:
  assumes "wire_ok ms"
  shows "wire_ok (compact_messages str_of ms k)"
proof -
  obtain pre middle recent where p: "partition_for_compaction str_of ms k = (pre, middle, recent)" by (rule prod_cases3)
  note s = partition_shape [OF p]
  show ?thesis
  proof (cases "middle = []")
    case True
    with p assms show ?thesis by (simp add: compact_messages_def)
  next
    case False
    have "wire_ok recent" using wire_ok_drop_left [of "pre @ middle" recent] s(1,4) False assms by simp
    moreover have "wire_ok pre" using s(2) head_messages
      by (auto simp: wire_ok_def intro!: paired_no_assistant placed_no_tools)
    moreover have "wire_ok [compact_summary str_of middle]"
      using wire_ok_users [of "[x]" for x] by (simp add: compact_summary_def Let_def)
    ultimately have "wire_ok (pre @ [compact_summary str_of middle] @ recent)" by (intro wire_ok_append)
    with p False show ?thesis by (simp add: compact_messages_def)
  qed
qed

interpretation squash: history_rewriter "\<lambda>ms. compact_messages str_of ms k" for str_of k
  by unfold_locales (rule compact_messages_wire)

section \<open>The bound of condensing\<close>

lemma condense_urls_bound:
  assumes "urls \<noteq> [] \<Longrightarrow> int (length (url_section urls)) \<le> budget"
  shows "condense_urls budget urls us \<noteq> [] \<Longrightarrow> int (length (url_section (condense_urls budget urls us))) \<le> budget"
  using assms
proof (induction us arbitrary: urls)
  case (Cons u us)
  show ?case
  proof (cases "budget < int (length (url_section (urls @ [u])))")
    case True
    with Cons.prems show ?thesis by simp
  next
    case False
    then have "condense_urls budget urls (u # us) = condense_urls budget (urls @ [u]) us" by simp
    with Cons.IH [of "urls @ [u]"] Cons.prems(1) False show ?thesis by simp
  qed
qed simp

lemma condense_shorter: "length (condense content mc) \<le> length content"
  by (simp add: condense_def Let_def)

lemma head_tail_length: "length (p @ take h c @ m @ drop (length c - k) c @ u) \<le> length p + h + length m + k + length u"
  by simp

lemma head_tail_split:
  fixes n :: int
  assumes "0 \<le> n"
  shows "int (nat (max 0 (n * 7 div 10)) + nat (max 0 (n - max 0 (n * 7 div 10)))) = n"
proof -
  have "0 \<le> n * 7 div 10" "n * 7 div 10 \<le> n" using assms by simp_all
  then show ?thesis by simp
qed

lemma condense_bound:
  assumes "200 \<le> mc" and "mc < int (length content)" and "length (with_commas (length content)) \<le> 40"
  shows "int (length (condense content mc)) \<le> mc"
proof -
  define urls where "urls = (let lines = condense_urls (mc div 2) [] (unique (find_urls content))
      in if lines \<noteq> [] then url_section lines else [])"
  let ?p = "condense_prefix (length content)"
  define n where "n = mc - int (length ?p) - int (length middle_marker) - int (length urls)"
  have "int (length urls) \<le> mc div 2"
    using condense_urls_bound [of "[]" "mc div 2"] assms(1) by (auto simp: urls_def Let_def)
  moreover have "length ?p \<le> 78" "length middle_marker = 22"
    using assms(3) by (simp_all add: condense_prefix_def middle_marker_def)
  ultimately have n: "0 \<le> n" using assms(1) by (simp add: n_def)
  have "condense_summary content mc = ?p @ take (nat (max 0 (n * 7 div 10))) content @ middle_marker
      @ drop (length content - nat (max 0 (n - max 0 (n * 7 div 10)))) content @ urls"
    unfolding condense_summary_def Let_def n_def urls_def by (rule refl)
  then have "length (condense_summary content mc) \<le> length ?p + nat (max 0 (n * 7 div 10)) + length middle_marker
      + nat (max 0 (n - max 0 (n * 7 div 10))) + length urls"
    using head_tail_length by metis
  then have "int (length (condense_summary content mc)) \<le> mc"
    using head_tail_split [OF n] n_def by linarith
  with assms(2) show ?thesis by (simp add: condense_def Let_def)
qed

section \<open>Compacting twice\<close>

lemma enumerate_upt: "List.enumerate 0 xs = map (\<lambda>i. (i, xs ! i)) [0..<length xs]"
  by (rule nth_equalityI) (simp_all add: nth_enumerate_eq)

lemma indices_upt: "indices P xs = filter (\<lambda>i. P (xs ! i)) [0..<length xs]"
  by (simp add: indices_def enumerate_upt filter_map comp_def)

lemma indices_cong:
  "length xs = length ys \<Longrightarrow> (\<And>i. i < length ys \<Longrightarrow> P (xs ! i) = P (ys ! i)) \<Longrightarrow> indices P xs = indices P ys"
  by (auto simp: indices_upt intro: filter_cong)

definition stale_indices :: "message list \<Rightarrow> int \<Rightarrow> nat list" where
  "stale_indices ms k = (let idx = indices has_reasoning ms in take (length idx - nat k) idx)"

lemma strip_nth:
  assumes "0 \<le> k" and "i < length ms"
  shows "strip_stale_reasoning ms k ! i =
    (if i \<in> set (stale_indices ms k) then AList.delete ''reasoning_content'' (ms ! i) else ms ! i)"
  using assms by (simp add: strip_stale_reasoning_def stale_indices_def Let_def nth_enumerate_eq)

lemma length_strip [simp]: "length (strip_stale_reasoning ms k) = length ms"
  by (simp add: strip_stale_reasoning_def Let_def)

lemma no_stale: "0 \<le> k \<Longrightarrow> stale_indices ms k = [] \<Longrightarrow> strip_stale_reasoning ms k = ms"
  by (rule nth_equalityI) (simp_all add: strip_nth)

lemma not_reasoning_deleted [simp]: "\<not> has_reasoning (AList.delete ''reasoning_content'' m)"
  by (simp add: has_reasoning_def get_or_none_def)

lemma filter_notin_take: "distinct xs \<Longrightarrow> filter (\<lambda>x. x \<notin> set (take n xs)) xs = drop n xs"
proof -
  assume d: "distinct xs"
  have "filter (\<lambda>x. x \<notin> set (take n xs)) (take n xs @ drop n xs) = drop n xs"
    using set_take_disj_set_drop_if_distinct [OF d, of n n] by (auto simp: filter_empty_conv filter_id_conv simp del: append_take_drop_id)
  then show ?thesis by simp
qed

lemma strip_reasoning_left:
  assumes "0 \<le> k"
  shows "stale_indices (strip_stale_reasoning ms k) k = []"
proof -
  let ?idx = "indices has_reasoning ms"
  have d: "distinct ?idx" by (simp add: indices_upt)
  have "indices has_reasoning (strip_stale_reasoning ms k) = filter (\<lambda>i. i \<notin> set (stale_indices ms k)) ?idx"
    by (simp add: indices_upt, rule filter_cong) (auto simp: strip_nth [OF assms])
  also have "\<dots> = drop (length ?idx - nat k) ?idx"
    using filter_notin_take [OF d] by (simp add: stale_indices_def Let_def)
  finally show ?thesis by (simp add: stale_indices_def Let_def)
qed

lemma elide_old_nth:
  assumes "i < length ms"
  shows "elide_old str_of kl S ms ! i = (if \<not> is_tool_msg (ms ! i) \<or> i \<in> set S then ms ! i
     else elide_result str_of kl (tool_names_by_call_id ms) (fst (tool_args_by_call_id str_of ms))
       (snd (tool_args_by_call_id str_of ms)) (ms ! i))"
  using assms by (simp add: elide_old_def Let_def case_prod_beta nth_enumerate_eq)

lemma length_elide_old [simp]: "length (elide_old str_of kl S ms) = length ms"
  by (simp add: elide_old_def Let_def case_prod_beta)

text \<open>Tool messages stay tool messages, all others stay as they are.\<close>

lemma elide_tool: "is_tool_msg m \<Longrightarrow> is_tool_msg (elide_result str_of kl names args urls m)"
  using shape_cong(1) [OF elide_shape] by blast

lemma elide_old_kind:
  assumes "i < length ms"
  shows "is_tool_msg (elide_old str_of kl S ms ! i) = is_tool_msg (ms ! i)"
    "has_reasoning (elide_old str_of kl S ms ! i) = has_reasoning (ms ! i)"
  using assms by (auto simp: elide_old_nth elide_tool has_reasoning_def)

lemma filter_map_same:
  assumes "length xs = length ys" and "\<And>i. i < length ys \<Longrightarrow> P (xs ! i) = P (ys ! i)"
    and "\<And>i. i < length ys \<Longrightarrow> P (ys ! i) \<Longrightarrow> xs ! i = ys ! i"
  shows "filter P xs = filter P ys"
  using assms
proof (induction xs ys rule: list_induct2)
  case (Cons x xs y ys)
  from Cons.prems(1) [of 0] Cons.prems(2) [of 0] have "P x = P y" "P y \<Longrightarrow> x = y" by auto
  moreover have "filter P xs = filter P ys"
    using Cons.prems(1) [of "Suc i" for i] Cons.prems(2) [of "Suc i" for i] by (intro Cons.IH) auto
  ultimately show ?case by simp
qed simp

lemma elide_old_calls: "assistant_calls (elide_old str_of kl S ms) = assistant_calls ms"
proof -
  have "filter is_assistant_msg (elide_old str_of kl S ms) = filter is_assistant_msg ms"
  proof (rule filter_map_same)
    fix i assume i: "i < length ms"
    show "is_assistant_msg (elide_old str_of kl S ms ! i) = is_assistant_msg (ms ! i)"
      using i by (auto simp: elide_old_nth elide_tool)
    show "elide_old str_of kl S ms ! i = ms ! i" if "is_assistant_msg (ms ! i)"
      using i that assistant_not_tool by (simp add: elide_old_nth)
  qed simp
  then show ?thesis by (simp add: assistant_calls_def)
qed

lemma if_chain:
  "(if a then m else if b then m else if c then m else if d then m else if e then x else y) = z \<Longrightarrow> z = m \<or> z = x \<or> z = y"
  by (auto split: if_splits)

lemma elide_result_cases:
  "elide_result str_of kl names args urls m = m
   \<or> (\<exists>rest. get_or_none (elide_result str_of kl names args urls m) ''content'' = PyStr (OMITTED_TOOL_RESULT_PLACEHOLDER @ rest))"
proof -
  have c: "get_or_none (tool_reply c i) ''content'' = PyStr c" for c i by (simp add: tool_reply_def get_or_none_def)
  from if_chain [OF elide_result_def [unfolded Let_def, symmetric], of str_of kl names args urls m]
  show ?thesis by (elim disjE) (simp_all add: c)
qed

lemma elide_result_twice:
  "elide_result str_of kl names args urls (elide_result str_of kl names args urls m) = elide_result str_of kl names args urls m"
  using elide_result_cases [of str_of kl names args urls m]
proof
  assume "\<exists>rest. get_or_none (elide_result str_of kl names args urls m) ''content'' = PyStr (OMITTED_TOOL_RESULT_PLACEHOLDER @ rest)"
  then have "is_placeheld (text_of str_of (get_or_none (elide_result str_of kl names args urls m) ''content''))"
    by (auto simp: is_placeheld_def)
  moreover have "elide_result str_of kl names args urls x = x" if "is_placeheld (text_of str_of (get_or_none x ''content''))" for x
    using that by (simp add: elide_result_def Let_def)
  ultimately show ?thesis by blast
qed simp

lemma elide_old_twice: "elide_old str_of kl S (elide_old str_of kl S ms) = elide_old str_of kl S ms"
proof (rule nth_equalityI)
  fix i assume "i < length (elide_old str_of kl S (elide_old str_of kl S ms))"
  then show "elide_old str_of kl S (elide_old str_of kl S ms) ! i = elide_old str_of kl S ms ! i"
    using elide_old_calls [of str_of kl S ms] elide_result_twice
    by (auto simp: elide_old_nth elide_tool tool_names_by_call_id_def tool_args_by_call_id_def)
qed simp

text \<open>What a pass leaves is a fixed point of both stages.\<close>

definition keep_set :: "KeepLastN \<Rightarrow> message list \<Rightarrow> nat list" where
  "keep_set kl ms =
     (let idx = indices is_tool_msg ms in drop (length idx - nat (min (kl_keep kl) (int (length idx)))) idx)"

lemma keep_last_eq:
  "kl_keep kl \<noteq> - 1 \<Longrightarrow> keep_last_compact str_of kl ms =
     (let xs = strip_stale_reasoning ms (max (kl_keep kl) 1)
      in if indices is_tool_msg xs = [] \<or> length (keep_set kl xs) = length (indices is_tool_msg xs) then xs
         else elide_old str_of kl (keep_set kl xs) xs)"
  by (simp add: keep_last_compact_def keep_set_def Let_def)

section \<open>Properties\<close>

text \<open>
  Squashing the middle is safe.  The history falls into a head, a middle and a recent part;
  the head keeps the leading system messages and holds nothing but system messages and the
  pinned task; only the middle is replaced, by one summary; and an acceptable history stays
  acceptable, so no tool message is separated from its call.
\<close>

theorem compact_messages_spec:
  "\<exists>pre middle recent. ms = pre @ middle @ recent
     \<and> compact_messages str_of ms keep_recent = (if middle = [] then ms else pre @ [compact_summary str_of middle] @ recent)
     \<and> prefix (takeWhile is_system_msg ms) pre \<and> (\<forall>m \<in> set pre. is_system_msg m \<or> is_user_msg m)
     \<and> (wire_ok ms \<longrightarrow> wire_ok (compact_messages str_of ms keep_recent))"
proof -
  obtain pre middle recent where p: "partition_for_compaction str_of ms keep_recent = (pre, middle, recent)"
    by (rule prod_cases3)
  then have "compact_messages str_of ms keep_recent = (if middle = [] then ms else pre @ [compact_summary str_of middle] @ recent)"
    by (simp add: compact_messages_def)
  with partition_shape [OF p] squash.keeps show ?thesis by blast
qed

theorem compact_messages_spec_witness:
  "\<exists>pre middle recent. [user_msg ''task'', user_msg ''more'', user_msg ''last''] = pre @ middle @ recent
     \<and> wire_ok (compact_messages (\<lambda>v. []) [user_msg ''task'', user_msg ''more'', user_msg ''last''] 1)"
proof -
  have "wire_ok [user_msg ''task'', user_msg ''more'', user_msg ''last'']"
    using wire_ok_users [of "[''task'', ''more'', ''last'']"] by simp
  with compact_messages_spec [of "[user_msg ''task'', user_msg ''more'', user_msg ''last'']" "\<lambda>v. []" 1]
  show ?thesis by blast
qed

text \<open>
  Condensing keeps its cap.  Every tool result that is neither protected nor preserved
  comes out with at most \<open>max_chars\<close> characters (for any text of fewer than \<open>10\<^sup>3\<^sup>0\<close> characters,
  whose printed length fits the header), no result grows, and the pairing of the history is
  untouched.
\<close>

theorem compress_tool_results_cap:
  assumes "compress_tool_results str_of ms max_chars protect None preserve_ids = Inr out"
    and "i < length ms" and "is_tool_msg (ms ! i)"
    and "\<not> protected (tool_names_by_call_id ms) protect (ms ! i)"
    and "get_or_none (ms ! i) ''tool_call_id'' = PyStr tid" and "tid \<notin> set preserve_ids"
    and "length (with_commas (length (text_of str_of (get_or_none (ms ! i) ''content'')))) \<le> 40"
  shows "length out = length ms \<and> (wire_ok ms \<longleftrightarrow> wire_ok out)
    \<and> int (length (text_of str_of (get_or_none (out ! i) ''content''))) \<le> max_chars
    \<and> length (text_of str_of (get_or_none (out ! i) ''content'')) \<le> length (text_of str_of (get_or_none (ms ! i) ''content''))"
proof -
  define names where "names = (if protect \<noteq> [] then tool_names_by_call_id ms else [])"
  let ?f = "compress_one str_of names max_chars protect None preserve_ids"
  from assms(1) have out: "out = strip_stale_reasoning (map ?f ms) 1" and cap: "200 \<le> max_chars"
    by (auto simp: compress_tool_results_def names_def Let_def split: if_splits)
  have np: "\<not> protected names protect (ms ! i)"
    using assms(4) by (auto simp: names_def protected_def split: option.splits)
  have c: "get_or_none (out ! i) ''content'' = get_or_none (?f (ms ! i)) ''content''"
    using strip_nth [of 1 i "map ?f ms"] assms(2) by (simp add: out)
  have one: "?f (ms ! i) = (let content = text_of str_of (get_or_none (ms ! i) ''content'') in
      if int (length content) \<le> max_chars then ms ! i else AList.update ''content'' (PyStr (condense content max_chars)) (ms ! i))"
    using assms(3,5,6) np by (auto simp: compress_one_def py_format_def Let_def)
  have len: "length out = length ms" by (simp add: out)
  have "wire_ok ms = wire_ok out" using wire_ok_shape [OF compress_shape [OF assms(1)]] by simp
  with len show ?thesis
    using c one condense_bound [OF cap _ assms(7)] condense_shorter by (auto simp: Let_def)
qed

theorem compress_tool_results_cap_witness:
  "\<exists>out. compress_tool_results (\<lambda>v. []) [tool_reply ''ok'' (PyStr ''a'')] 200 [] None [] = Inr out
     \<and> length out = 1 \<and> length (text_of (\<lambda>v. []) (get_or_none (out ! 0) ''content'')) \<le> 2"
proof -
  obtain out where o: "compress_tool_results (\<lambda>v. []) [tool_reply ''ok'' (PyStr ''a'')] 200 [] None [] = Inr out"
    by (simp add: compress_tool_results_def)
  have g: "get_or_none (tool_reply ''ok'' (PyStr ''a'')) ''content'' = PyStr ''ok''"
    "get_or_none (tool_reply ''ok'' (PyStr ''a'')) ''tool_call_id'' = PyStr ''a''"
    by (simp_all add: tool_reply_def get_or_none_def)
  have "\<not> protected names [] m" for names m by (simp add: protected_def split: option.splits)
  with compress_tool_results_cap [OF o, of 0 "''a''"] o show ?thesis
    by (auto simp: g with_commas_def str_of_nat.simps [of "Suc (Suc 0)"])
qed

text \<open>
  Keeping the last results is idempotent.  However the host spills, a second pass over a
  compacted history changes nothing, so the compactor can run on every turn.
\<close>

theorem keep_last_idempotent:
  "keep_last_compact str_of kl (keep_last_compact str_of kl ms) = keep_last_compact str_of kl ms"
proof (cases "kl_keep kl = - 1")
  case True
  then show ?thesis by (simp add: keep_last_compact_def)
next
  case False
  define k where "k = max (kl_keep kl) 1"
  define xs where "xs = strip_stale_reasoning ms k"
  define S where "S = keep_set kl xs"
  have k: "0 \<le> k" by (simp add: k_def)
  have again: "strip_stale_reasoning xs k = xs" using no_stale [OF k strip_reasoning_left [OF k]] by (simp add: xs_def)
  show ?thesis
  proof (cases "indices is_tool_msg xs = [] \<or> length S = length (indices is_tool_msg xs)")
    case True
    then have "keep_last_compact str_of kl ms = xs"
      by (simp add: keep_last_eq [OF False] Let_def xs_def [symmetric] k_def [symmetric] S_def [symmetric])
    with True again show ?thesis
      by (simp add: keep_last_eq [OF False] Let_def xs_def [symmetric] k_def [symmetric] S_def [symmetric])
  next
    case notall: False
    let ?ys = "elide_old str_of kl S xs"
    have ys: "keep_last_compact str_of kl ms = ?ys"
      using notall by (simp add: keep_last_eq [OF False] Let_def xs_def [symmetric] k_def [symmetric] S_def [symmetric])
    have idx: "indices is_tool_msg ?ys = indices is_tool_msg xs" "indices has_reasoning ?ys = indices has_reasoning xs"
      by (auto intro!: indices_cong simp: elide_old_kind)
    have "stale_indices ?ys k = []"
      using idx(2) strip_reasoning_left [OF k, of ms] by (simp add: stale_indices_def xs_def)
    then have "strip_stale_reasoning ?ys k = ?ys" by (rule no_stale [OF k])
    moreover have "keep_set kl ?ys = S" using idx(1) by (simp add: keep_set_def S_def)
    ultimately show ?thesis
      using notall idx(1)
      by (simp add: ys keep_last_eq [OF False, of _ ?ys] Let_def k_def [symmetric] elide_old_twice)
  qed
qed

end
