(* ===== verification/Tiered_Compact.thy ===== *)
theory Tiered_Compact
  imports Compact
begin

text \<open>
  Summarising compaction (\<^verbatim>\<open>runtime/loop/compact_llm.py\<close>) and the tiers around it
  (\<^verbatim>\<open>runtime/loop/tiered_compact.py\<close>).  A call of the summariser is described by its outcome and
  the clock readings around it; the spill callback is a function of the tool and the body, since
  spilled bodies are content-addressed; quotients of token counts are exact; a dash in a message
  of the sources is written as a hyphen.
\<close>

section \<open>Which failures are retried\<close>

text \<open>
  What the classification reads of an exception: whether it is a timeout or connection error,
  what the shared predicates say of it, the values of its status attributes, and its lower-cased
  text.
\<close>

record summary_exc =
  se_timeout :: bool
  se_context_length :: bool
  se_transient_network :: bool
  se_status_values :: "pyval list"
  se_text :: string
  se_message :: string

definition DETERMINISTIC_ERROR_MARKERS :: "string list" where
  "DETERMINISTIC_ERROR_MARKERS = [''context length'', ''context_length'', ''maximum context'', ''too many tokens'',
     ''too large'', ''invalid_request'', ''invalid request'', ''bad request'', ''unauthorized'', ''forbidden'',
     ''not found'', ''model_not_found'']"

definition TRANSIENT_ERROR_MARKERS :: "string list" where
  "TRANSIENT_ERROR_MARKERS = [''timeout'', ''timed out'', ''connection'', ''temporarily'', ''unavailable'', ''overloaded'',
     ''rate limit'', ''rate_limit'', ''too many requests'']"

definition DETERMINISTIC_STATUS_CODES :: "int list" where
  "DETERMINISTIC_STATUS_CODES = [400, 401, 403, 404, 413, 422]"

definition TRANSIENT_STATUS_CODES :: "int list" where
  "TRANSIENT_STATUS_CODES = [408, 425, 429, 500, 502, 503, 504, 529]"

definition status_value :: "pyval \<Rightarrow> int option" where
  "status_value v =
     (let n = (case v of
                 PyInt i \<Rightarrow> Some i
               | PyStr s \<Rightarrow> (let t = str_strip s in if t \<noteq> [] \<and> list_all is_digit t then int_of_str t else None)
               | _ \<Rightarrow> None)
      in case n of Some i \<Rightarrow> if 100 \<le> i \<and> i \<le> 599 then Some i else None | None \<Rightarrow> None)"

definition status_code :: "summary_exc \<Rightarrow> int option" where
  "status_code e =
     (case List.map_filter status_value (se_status_values e) of [] \<Rightarrow> None | i # _ \<Rightarrow> Some i)"

definition word_char :: "char \<Rightarrow> bool" where
  "word_char c = (is_digit c \<or> c = CHR ''_'' \<or> (65 \<le> (of_char c :: nat) \<and> (of_char c :: nat) \<le> 90)
     \<or> (97 \<le> (of_char c :: nat) \<and> (of_char c :: nat) \<le> 122))"

text \<open>A search of \<open>(?<![\w.])code(?![\w.%])\<close>; \<open>ok\<close> says that the preceding character allows a match.\<close>

fun search_code :: "string \<Rightarrow> bool \<Rightarrow> string \<Rightarrow> bool" where
  "search_code code ok [] = False"
| "search_code code ok (c # cs) =
     ((ok \<and> prefix code (c # cs)
        \<and> (case drop (length code) (c # cs) of [] \<Rightarrow> True
           | d # _ \<Rightarrow> \<not> word_char d \<and> d \<noteq> CHR ''.'' \<and> d \<noteq> CHR ''%''))
      \<or> search_code code (\<not> word_char c \<and> c \<noteq> CHR ''.'') cs)"

definition mentions_status :: "string \<Rightarrow> int list \<Rightarrow> bool" where
  "mentions_status s codes = list_ex (\<lambda>code. search_code (str_of_int code) True s) codes"

definition is_transient_summary_error :: "summary_exc \<Rightarrow> bool" where
  "is_transient_summary_error e =
     (if se_timeout e then True
      else if se_context_length e then False
      else if se_transient_network e then True
      else
        let by_text =
          (if list_ex (\<lambda>m. sublist m (se_text e)) DETERMINISTIC_ERROR_MARKERS then False
           else if list_ex (\<lambda>m. sublist m (se_text e)) TRANSIENT_ERROR_MARKERS then True
           else if mentions_status (se_text e) TRANSIENT_STATUS_CODES then True
           else \<not> mentions_status (se_text e) DETERMINISTIC_STATUS_CODES)
        in case status_code e of
             None \<Rightarrow> by_text
           | Some s \<Rightarrow> if s \<in> set TRANSIENT_STATUS_CODES then True
                       else if s \<in> set DETERMINISTIC_STATUS_CODES then False else by_text)"

section \<open>Summarising with retries\<close>

text \<open>One attempt: the clock before it, its outcome, and the clock after a failure.\<close>

record summary_attempt =
  at_before :: real
  at_outcome :: "summary_exc + string"
  at_after :: real

definition RETRY_BACKOFF_BASE_S :: real where
  "RETRY_BACKOFF_BASE_S = 2"

definition RETRY_BACKOFF_CAP_S :: real where
  "RETRY_BACKOFF_CAP_S = 5"

record LLMSummaryCompactor =
  ls_has_llm :: bool
  ls_failure_fallback :: string
  ls_max_transient_retries :: int
  ls_retry_total_timeout_s :: "real option"

definition init_LLMSummaryCompactor :: "bool \<Rightarrow> string \<Rightarrow> int \<Rightarrow> real option \<Rightarrow> LLMSummaryCompactor" where
  "init_LLMSummaryCompactor has_llm failure_fallback max_transient_retries retry_total_timeout_s =
     \<lparr>ls_has_llm = has_llm, ls_failure_fallback = failure_fallback,
      ls_max_transient_retries = max 0 max_transient_retries, ls_retry_total_timeout_s = retry_total_timeout_s\<rparr>"

definition retry_deadline :: "LLMSummaryCompactor \<Rightarrow> real \<Rightarrow> real option" where
  "retry_deadline ls now =
     (case ls_retry_total_timeout_s ls of
        Some t \<Rightarrow> if 0 < t then Some (now + t) else None | None \<Rightarrow> None)"

text \<open>At most \<open>margin\<close> seconds are left.\<close>

definition expired :: "real option \<Rightarrow> real \<Rightarrow> real \<Rightarrow> bool" where
  "expired deadline now margin = (case deadline of None \<Rightarrow> False | Some d \<Rightarrow> d - now \<le> margin)"

definition backoff :: "nat \<Rightarrow> real" where
  "backoff attempts = min (RETRY_BACKOFF_BASE_S * real attempts) RETRY_BACKOFF_CAP_S"

text \<open>
  The loop of \<open>_generate_summary_with_retry\<close>; \<open>env n\<close> is what the attempt after \<open>n\<close> attempts
  meets.  The result is the text, the number of attempts, and the reason and error of a failure.
\<close>

function retry_loop ::
  "LLMSummaryCompactor \<Rightarrow> real option \<Rightarrow> (nat \<Rightarrow> summary_attempt) \<Rightarrow> nat \<Rightarrow> string \<Rightarrow>
   string \<times> nat \<times> string \<times> string" where
  "retry_loop ls deadline env attempts last_error =
     (let a = env attempts
      in if expired deadline (at_before a) 0
         then ([], attempts, ''llm_error'', if last_error \<noteq> [] then last_error else ''summary retry deadline exceeded'')
         else
           case at_outcome a of
             Inr summary \<Rightarrow> (summary, attempts + 1, [], [])
           | Inl e \<Rightarrow>
               if \<not> is_transient_summary_error e then ([], attempts + 1, ''llm_error_permanent'', se_message e)
               else if ls_max_transient_retries ls < int (attempts + 1) \<or> expired deadline (at_after a) 0
               then ([], attempts + 1, ''llm_error'', se_message e)
               else if expired deadline (at_after a) (backoff (attempts + 1))
               then ([], attempts + 1, ''llm_error'', se_message e)
               else retry_loop ls deadline env (attempts + 1) (se_message e))"
  by pat_completeness auto
termination
  by (relation "measure (\<lambda>(ls, d, env, n, e). nat (ls_max_transient_retries ls + 1 - int n))") auto

declare retry_loop.simps [simp del]

definition generate_summary_with_retry ::
  "LLMSummaryCompactor \<Rightarrow> real \<Rightarrow> (nat \<Rightarrow> summary_attempt) \<Rightarrow> string \<times> nat \<times> string \<times> string" where
  "generate_summary_with_retry ls now env = retry_loop ls (retry_deadline ls now) env 0 []"

section \<open>The summarising compactor\<close>

definition last_human_message :: "message list \<Rightarrow> message option" where
  "last_human_message ms = List.find is_user_msg (rev ms)"

text \<open>The panic layout or the deterministic squash.\<close>

definition failed_note :: "nat \<Rightarrow> string \<Rightarrow> message" where
  "failed_note dropped reason = user_msg (''[Compaction failed - '' @ str_of_nat dropped
     @ '' earlier turns dropped. Reason: '' @ reason @ ''.]'')"

definition rollback ::
  "(pyval \<Rightarrow> string) \<Rightarrow> LLMSummaryCompactor \<Rightarrow> message list \<Rightarrow> message list \<Rightarrow> nat \<Rightarrow> int \<Rightarrow> string \<Rightarrow> message list" where
  "rollback str_of ls ms sys_msgs dropped keep_recent reason =
     (if ls_failure_fallback ls = ''deterministic'' then compact_messages str_of ms keep_recent
      else sys_msgs @ [failed_note dropped reason]
           @ (case last_human_message ms of
                Some u \<Rightarrow> if u \<notin> set sys_msgs then [u] else [] | None \<Rightarrow> []))"

definition summary_message :: "string \<Rightarrow> message" where
  "summary_message summary = user_msg (''[Compacted summary of earlier turns - older raw messages ''
     @ ''have been replaced by this rollup. Continue from here.]'' @ newline @ newline @ summary)"

text \<open>
  Without a summariser: the squash, with the original task put back when it was squashed.  Whether
  it is still there is decided by identity, that is by its position.
\<close>

definition insert_after_system :: "message \<Rightarrow> message list \<Rightarrow> message list" where
  "insert_after_system m ms = takeWhile is_system_msg ms @ [m] @ dropWhile is_system_msg ms"

definition string_slice :: "(pyval \<Rightarrow> string) \<Rightarrow> message list \<Rightarrow> int \<Rightarrow> message list" where
  "string_slice str_of ms keep_recent =
     (let new_messages = compact_messages str_of ms keep_recent;
          (pre, middle, recent) = partition_for_compaction str_of ms keep_recent
      in if keep_recent \<le> 0 then new_messages
         else case indices (\<lambda>m. is_user_msg m \<and> \<not> is_compacted str_of m) ms of
                [] \<Rightarrow> new_messages
              | i # _ \<Rightarrow>
                  if length pre \<le> i \<and> i < length pre + length middle
                  then insert_after_system (ms ! i) new_messages else new_messages)"

definition llm_compact ::
  "(pyval \<Rightarrow> string) \<Rightarrow> LLMSummaryCompactor \<Rightarrow> real \<Rightarrow> (nat \<Rightarrow> summary_attempt) \<Rightarrow> message list \<Rightarrow> int \<Rightarrow> message list" where
  "llm_compact str_of ls now env ms keep_recent =
     (if \<not> ls_has_llm ls then string_slice str_of ms keep_recent
      else
        let (sys_msgs, middle, recent) = partition_for_compaction str_of ms keep_recent in
        if middle = [] then ms
        else
          let (summary, attempts, reason, error) = generate_summary_with_retry ls now env in
          if reason \<noteq> [] then rollback str_of ls ms sys_msgs (length middle) keep_recent reason
          else if summary = [] then rollback str_of ls ms sys_msgs (length middle) keep_recent ''empty_summary''
          else sys_msgs @ [summary_message summary] @ recent)"

section \<open>The trigger\<close>

record InputTokenGauge =
  ig_tokens :: nat
  ig_estimate :: nat

definition real_to_estimate_scale :: "InputTokenGauge \<Rightarrow> real" where
  "real_to_estimate_scale g =
     (if 0 < ig_tokens g \<and> 0 < ig_estimate g then real (ig_tokens g) / real (ig_estimate g) else 1)"

definition threshold_should_compact :: "InputTokenGauge \<Rightarrow> int \<Rightarrow> nat \<Rightarrow> bool" where
  "threshold_should_compact g limit estimated_tokens =
     (let scale = min (max (real_to_estimate_scale g) 1) 3;
          projected = \<lfloor>real estimated_tokens * scale\<rfloor>
      in limit < max (int (ig_tokens g)) projected)"

section \<open>The recovery index\<close>

definition FULL_TEXT_PREFIX :: string where
  "FULL_TEXT_PREFIX = ''[Full text] ''"

text \<open>\<open>s.split("\n")\<close> of a text without other line breaks.\<close>

fun split_lines :: "string \<Rightarrow> string list" where
  "split_lines [] = [[]]"
| "split_lines (c # cs) =
     (if c = CHR 0x0A then [] # split_lines cs
      else case split_lines cs of [] \<Rightarrow> [[c]] | l # ls \<Rightarrow> (c # l) # ls)"

definition add_refs :: "string list \<Rightarrow> string list \<Rightarrow> string list" where
  "add_refs refs new = foldl (\<lambda>rs p. if p \<noteq> [] \<and> p \<notin> set rs then rs @ [p] else rs) refs new"

definition carried_refs :: "(pyval \<Rightarrow> string) \<Rightarrow> message \<Rightarrow> string list" where
  "carried_refs str_of m =
     (case get_or_none m ''spill_refs'' of
        PyList vs \<Rightarrow> strings_of vs
      | _ \<Rightarrow>
          let content = text_of str_of (get_or_none m ''content'') in
          if \<not> is_tool_msg m \<or> \<not> sublist FULL_TEXT_PREFIX content then []
          else map (\<lambda>l. str_strip (drop (length FULL_TEXT_PREFIX) l))
                 (filter (prefix FULL_TEXT_PREFIX) (split_lines content)))"

definition spill_refs :: "(pyval \<Rightarrow> string) \<Rightarrow> message list \<Rightarrow> string list" where
  "spill_refs str_of ms = add_refs [] (concat (map (carried_refs str_of) ms))"

type_synonym spill = "string \<Rightarrow> string \<Rightarrow> string option"

definition spilled :: "spill \<Rightarrow> string \<Rightarrow> string \<Rightarrow> string" where
  "spilled spill name body = (case spill name body of None \<Rightarrow> [] | Some p \<Rightarrow> p)"

definition spill_protected_results ::
  "(pyval \<Rightarrow> string) \<Rightarrow> spill option \<Rightarrow> string list \<Rightarrow> message list \<Rightarrow> string list" where
  "spill_protected_results str_of spill protect ms =
     (case spill of
        None \<Rightarrow> []
      | Some sp \<Rightarrow>
          if protect = [] then []
          else
            let names = tool_names_by_call_id ms in
            add_refs [] (map (\<lambda>m. spilled sp (str_lookup names (dict_get_default m ''tool_call_id'' (PyStr [])) [])
                                (text_of str_of (get_or_none m ''content'')))
              (filter (\<lambda>m. is_tool_msg m
                 \<and> str_lookup names (dict_get_default m ''tool_call_id'' (PyStr [])) [] \<in> set protect) ms)))"

definition latest_tool_result_ids :: "(pyval \<Rightarrow> string) \<Rightarrow> message list \<Rightarrow> string list" where
  "latest_tool_result_ids str_of ms =
     (case filter (\<lambda>m. is_assistant_msg m \<and> native_ids m \<noteq> []) (rev ms) of
        [] \<Rightarrow> [] | m # _ \<Rightarrow> map (py_format str_of) (native_ids m))"

definition spill_changed_tool_results ::
  "(pyval \<Rightarrow> string) \<Rightarrow> spill option \<Rightarrow> message list \<Rightarrow> message list \<Rightarrow> string list" where
  "spill_changed_tool_results str_of spill source transformed =
     (case spill of
        None \<Rightarrow> []
      | Some sp \<Rightarrow>
          let names = tool_names_by_call_id source;
              body = (\<lambda>m. text_of str_of (get_or_none m ''content''))
          in add_refs [] (map (\<lambda>(original, replacement).
                 spilled sp (str_lookup names (dict_get_default original ''tool_call_id'' (PyStr [])) ''tool'') (body original))
               (filter (\<lambda>(original, replacement). is_tool_msg original \<and> is_tool_msg replacement
                  \<and> body original \<noteq> body replacement) (zip source transformed))))"

text \<open>The newest references that fit, in order; the loop walks them backwards.\<close>

fun select_refs :: "int option \<Rightarrow> int option \<Rightarrow> string list \<Rightarrow> int \<Rightarrow> string list \<Rightarrow> string list" where
  "select_refs max_paths max_chars selected used [] = selected"
| "select_refs max_paths max_chars selected used (p # ps) =
     (if (case max_paths of None \<Rightarrow> False | Some n \<Rightarrow> n \<le> int (length selected)) then selected
      else if (case max_chars of None \<Rightarrow> False | Some n \<Rightarrow> n < used + (int (length p) + 3)) then selected
      else select_refs max_paths max_chars (p # selected) (used + (int (length p) + 3)) ps)"

definition manifest_text :: "string list \<Rightarrow> string" where
  "manifest_text selected = SPILL_MANIFEST_HEADER @ newline @ str_join newline (map (\<lambda>p. ''- '' @ p) selected)"

definition manifest_message :: "string list \<Rightarrow> message" where
  "manifest_message selected = AList.update ''spill_refs'' (PyList (map PyStr selected)) (user_msg (manifest_text selected))"

definition is_index :: "(pyval \<Rightarrow> string) \<Rightarrow> message \<Rightarrow> bool" where
  "is_index str_of m = (is_user_msg m \<and> (map_of m ''spill_refs'' \<noteq> None
     \<or> prefix SPILL_MANIFEST_HEADER (text_of str_of (get_or_none m ''content''))))"

fun replace_index :: "(pyval \<Rightarrow> string) \<Rightarrow> message option \<Rightarrow> message list \<Rightarrow> message list" where
  "replace_index str_of index [] = []"
| "replace_index str_of index (m # ms) =
     (if is_index str_of m
      then (case index of Some i \<Rightarrow> [i] | None \<Rightarrow> []) @ filter (\<lambda>m. \<not> is_index str_of m) ms
      else m # replace_index str_of index ms)"

definition with_spill_manifest ::
  "(pyval \<Rightarrow> string) \<Rightarrow> int option \<Rightarrow> int option \<Rightarrow> message list \<Rightarrow> string list \<Rightarrow> message list" where
  "with_spill_manifest str_of max_paths max_chars ms refs =
     (if refs = [] then ms
      else
        let selected = select_refs max_paths max_chars [] (int (length SPILL_MANIFEST_HEADER)) (rev refs);
            index = (if selected \<noteq> [] then Some (manifest_message selected) else None)
        in if list_ex (is_index str_of) ms then replace_index str_of index ms
           else
             case index of
               None \<Rightarrow> ms
             | Some m \<Rightarrow>
                 let pre = takeWhile is_system_msg ms; rest = dropWhile is_system_msg ms in
                 if rest \<noteq> [] \<and> is_user_msg (hd rest) \<and> \<not> truthy (get_or_none (hd rest) ''spill_refs'')
                    \<and> \<not> is_compacted str_of (hd rest)
                 then pre @ [hd rest, m] @ tl rest
                 else pre @ [m] @ rest)"

section \<open>The tiers\<close>

record TieredCompactor =
  tc_tier1 :: KeepLastN
  tc_tier2 :: LLMSummaryCompactor
  tc_protect :: "string list"
  tc_spill :: "spill option"
  tc_spill_recoverable :: bool
  tc_manifest_max_paths :: "int option"
  tc_manifest_max_chars :: "int option"
  tc_relief_target :: int
  tc_gauge :: "InputTokenGauge option"
  tc_last_no_relief_estimate :: int

definition SPILL_MANIFEST_MIN_CHARS :: int where
  "SPILL_MANIFEST_MIN_CHARS = int (length SPILL_MANIFEST_HEADER) + 4"

text \<open>\<open>TieredCompactor.__init__\<close>; \<open>recoverable\<close> is what \<open>_spill_can_recover\<close> finds of the store.\<close>

definition init_TieredCompactor ::
  "int \<Rightarrow> bool \<Rightarrow> int \<Rightarrow> string list \<Rightarrow> InputTokenGauge option \<Rightarrow> spill option \<Rightarrow> spill option \<Rightarrow> bool \<Rightarrow> int \<Rightarrow>
   real option \<Rightarrow> (string \<Rightarrow> string) \<Rightarrow> int option \<Rightarrow> int option \<Rightarrow> string + TieredCompactor" where
  "init_TieredCompactor keep_tool_result has_llm relief_target protect gauge spill spill_store recoverable
       summary_retries summary_retry_timeout_s footer max_paths max_chars =
     (if spill \<noteq> None \<and> spill_store \<noteq> None then Inl ''pass spill or spill_store, not both''
      else if (case max_paths of None \<Rightarrow> False | Some n \<Rightarrow> n < 1) then Inl ''manifest_max_paths must be >= 1 or None''
      else if (case max_chars of None \<Rightarrow> False | Some n \<Rightarrow> n < SPILL_MANIFEST_MIN_CHARS)
      then Inl (''manifest_max_chars must fit the manifest header and one handle (>= ''
             @ str_of_int SPILL_MANIFEST_MIN_CHARS @ '') or be None'')
      else
        let callback = (case spill of None \<Rightarrow> spill_store | Some s \<Rightarrow> Some s);
            retries = (case summary_retry_timeout_s of Some t \<Rightarrow> if 0 < t then summary_retries else 0 | None \<Rightarrow> 0)
        in case init_KeepLastN keep_tool_result protect callback footer MINI_CARD_MAX_URLS of
             Inl e \<Rightarrow> Inl e
           | Inr tier1 \<Rightarrow>
               Inr \<lparr>tc_tier1 = tier1,
                    tc_tier2 = init_LLMSummaryCompactor has_llm ''deterministic'' retries summary_retry_timeout_s,
                    tc_protect = protect, tc_spill = callback, tc_spill_recoverable = (callback \<noteq> None \<and> recoverable),
                    tc_manifest_max_paths = max_paths, tc_manifest_max_chars = max_chars, tc_relief_target = relief_target,
                    tc_gauge = gauge, tc_last_no_relief_estimate = 0\<rparr>)"

definition real_token_scale :: "TieredCompactor \<Rightarrow> real" where
  "real_token_scale tc = (case tc_gauge tc of None \<Rightarrow> 1 | Some g \<Rightarrow> real_to_estimate_scale g)"

text \<open>\<open>compress_tool_results\<close> at one of the fixed widths, all of which are large enough not to raise.\<close>

definition compressed ::
  "(pyval \<Rightarrow> string) \<Rightarrow> TieredCompactor \<Rightarrow> string list \<Rightarrow> int \<Rightarrow> message list \<Rightarrow> message list" where
  "compressed str_of tc latest width ms =
     (case compress_tool_results str_of ms width (tc_protect tc) None latest of Inr out \<Rightarrow> out | Inl _ \<Rightarrow> ms)"

definition best_candidate :: "(string \<times> message list \<times> nat) list \<Rightarrow> string \<times> message list \<times> nat" where
  "best_candidate cs = arg_min_list (\<lambda>(l, ms, n). n) cs"

definition add_candidate ::
  "(message list \<Rightarrow> nat) \<Rightarrow> (int \<Rightarrow> message list) \<Rightarrow> (string \<times> message list \<times> nat) list \<Rightarrow> int \<Rightarrow>
   (string \<times> message list \<times> nat) list" where
  "add_candidate est squeeze cs width =
     (let c = squeeze width; n = est c
      in if n < (case best_candidate cs of (l, ms, k) \<Rightarrow> k)
         then cs @ [(''tool_compression_'' @ str_of_int width, c, n)] else cs)"

text \<open>The selected history, its label, and the estimate remembered when nothing gave relief.\<close>

definition tiered_compact ::
  "(string \<Rightarrow> nat) \<Rightarrow> (pyval \<Rightarrow> string) \<Rightarrow> TieredCompactor \<Rightarrow> real \<Rightarrow> (nat \<Rightarrow> summary_attempt) \<Rightarrow>
   message list \<Rightarrow> int \<Rightarrow> message list \<times> string \<times> TieredCompactor" where
  "tiered_compact est str_of tc now env ms keep_recent =
     (let size = estimate_history est str_of;
          scale = real_token_scale tc;
          fits = (\<lambda>n. scale * real n \<le> real_of_int (tc_relief_target tc));
          source_estimate = int (size ms);
          tier1 = keep_last_compact str_of (tc_tier1 tc) ms;
          refs = spill_refs str_of tier1;
          manifest = with_spill_manifest str_of (tc_manifest_max_paths tc) (tc_manifest_max_chars tc);
          latest = (if tc_spill_recoverable tc then [] else latest_tool_result_ids str_of ms)
      in if fits (size tier1) then (tier1, ''tier1'', tc\<lparr>tc_last_no_relief_estimate := 0\<rparr>)
         else
           let cs = foldl (add_candidate size (\<lambda>w. compressed str_of tc latest w ms))
                      [(''tier1'', tier1, size tier1)] [1200, 600, 300];
               (label, best, best_tokens) = best_candidate cs;
               indexed = (if label = ''tier1'' then best
                          else manifest best (unique (refs @ spill_changed_tool_results str_of (tc_spill tc) ms best)))
           in if fits best_tokens then (indexed, label, tc\<lparr>tc_last_no_relief_estimate := 0\<rparr>)
              else if tc_last_no_relief_estimate tc \<noteq> 0
                      \<and> source_estimate \<le> tc_last_no_relief_estimate tc * 11 div 10
              then (indexed, label @ ''_cached'', tc)
              else
                let tier2_input = compressed str_of tc latest 1200 ms;
                    tier2 = llm_compact str_of (tc_tier2 tc) now env tier2_input keep_recent;
                    all_refs = unique (refs @ spill_protected_results str_of (tc_spill tc) (tc_protect tc) ms
                                 @ spill_changed_tool_results str_of (tc_spill tc) ms tier2_input);
                    wins = size tier2 < best_tokens;
                    final = (if wins then manifest tier2 all_refs else indexed);
                    final_tokens = (if wins then size tier2 else best_tokens)
                in (final, if wins then ''tier2'' else label,
                    tc\<lparr>tc_last_no_relief_estimate := (if size tier1 \<le> final_tokens then source_estimate else 0)\<rparr>))"

section \<open>The retries\<close>

lemma retry_loop_attempts:
  assumes "retry_loop ls deadline env n e = (summary, m, reason, err)"
  shows "int m \<le> max (int n) (ls_max_transient_retries ls + 1) + (if ls_max_transient_retries ls < int n then 1 else 0)
    \<and> (reason = [] \<or> summary = []) \<and> reason \<in> {[], ''llm_error'', ''llm_error_permanent''}
    \<and> (\<forall>i. n \<le> i \<and> Suc i < m \<longrightarrow> (\<exists>x. at_outcome (env i) = Inl x \<and> is_transient_summary_error x))
    \<and> (reason = [] \<longrightarrow> n < m \<and> at_outcome (env (m - 1)) = Inr summary)"
  using assms
proof (induction ls deadline env n e rule: retry_loop.induct)
  case (1 ls deadline env n e)
  let ?a = "env n"
  let ?late = "expired deadline (at_before ?a) 0"
  note unf = retry_loop.simps [of ls deadline env n e]
  show ?case
  proof (cases ?late)
    case True
    with "1.prems" show ?thesis by (auto simp: unf Let_def)
  next
    case ontime: False
    show ?thesis
    proof (cases "at_outcome ?a")
      case (Inr s)
      with ontime "1.prems" show ?thesis by (auto simp: unf Let_def less_Suc_eq)
    next
      case (Inl x)
      let ?stop = "ls_max_transient_retries ls < int (n + 1) \<or> expired deadline (at_after ?a) 0"
      let ?wait = "expired deadline (at_after ?a) (backoff (n + 1))"
      show ?thesis
      proof (cases "is_transient_summary_error x \<and> \<not> ?stop \<and> \<not> ?wait")
        case False
        with ontime Inl "1.prems" show ?thesis by (auto simp: unf Let_def less_Suc_eq split: if_splits)
      next
        case True
        then have r: "retry_loop ls deadline env (n + 1) (se_message x) = (summary, m, reason, err)"
          using ontime Inl "1.prems" by (simp add: unf Let_def)
        have ih: "int m \<le> max (int (n + 1)) (ls_max_transient_retries ls + 1) + (if ls_max_transient_retries ls < int (n + 1) then 1 else 0)
            \<and> (reason = [] \<or> summary = []) \<and> reason \<in> {[], ''llm_error'', ''llm_error_permanent''}
            \<and> (\<forall>i. n + 1 \<le> i \<and> Suc i < m \<longrightarrow> (\<exists>x. at_outcome (env i) = Inl x \<and> is_transient_summary_error x))
            \<and> (reason = [] \<longrightarrow> n + 1 < m \<and> at_outcome (env (m - 1)) = Inr summary)"
          using "1.IH" [OF refl ontime Inl _ _ _ r] True by blast
        have "\<exists>x. at_outcome (env i) = Inl x \<and> is_transient_summary_error x" if "n \<le> i" "Suc i < m" for i
        proof (cases "i = n")
          case True
          with Inl \<open>is_transient_summary_error x \<and> \<not> ?stop \<and> \<not> ?wait\<close> show ?thesis by blast
        next
          case False
          with that ih show ?thesis by auto
        qed
        with ih True show ?thesis by (auto split: if_splits)
      qed
    qed
  qed
qed

section \<open>The pairing through the tiers\<close>

lemma wire_ok_after_head:
  assumes "wire_ok (pre @ rest)" and "\<forall>m \<in> set pre. \<not> is_tool_msg m \<and> \<not> is_assistant_msg m"
  shows "wire_ok rest" "wire_ok pre"
proof -
  have "foldl (\<lambda>b m. if is_tool_msg m then b else is_assistant_msg m) False pre = False"
    using assms(2) by (induction pre) auto
  with assms(1) paired_append_right show "wire_ok rest" by (auto simp: wire_ok_def placed_append)
  from assms(2) show "wire_ok pre" by (simp add: wire_ok_def paired_no_assistant placed_no_tools)
qed

lemma wire_ok_single: "\<not> is_tool_msg m \<Longrightarrow> \<not> is_assistant_msg m \<Longrightarrow> wire_ok [m]"
  by (simp add: wire_ok_def)

lemma user_kind: "is_user_msg m \<Longrightarrow> \<not> is_tool_msg m" "is_user_msg m \<Longrightarrow> \<not> is_assistant_msg m"
  using head_messages by blast+

lemma user_msg_is_user [simp]: "is_user_msg (user_msg s)"
  by (simp add: is_user_msg_def user_msg_def get_or_none_def)

lemma wire_ok_insert:
  assumes "wire_ok (pre @ rest)" and "\<forall>m \<in> set pre. is_system_msg m \<or> is_user_msg m" and "is_user_msg u"
  shows "wire_ok (pre @ u # rest)"
proof -
  from assms(2) head_messages have "\<forall>m \<in> set pre. \<not> is_tool_msg m \<and> \<not> is_assistant_msg m" by blast
  from wire_ok_after_head [OF assms(1) this] wire_ok_single [OF user_kind(1) [OF assms(3)] user_kind(2) [OF assms(3)]]
  have "wire_ok (pre @ [u] @ rest)" by (intro wire_ok_append)
  then show ?thesis by simp
qed

lemma system_prefix: "\<forall>m \<in> set (takeWhile is_system_msg ms). is_system_msg m \<or> is_user_msg m"
  by (auto dest: set_takeWhileD)

lemma insert_after_system_wire: "wire_ok ms \<Longrightarrow> is_user_msg u \<Longrightarrow> wire_ok (insert_after_system u ms)"
  using wire_ok_insert [OF _ system_prefix, of ms "dropWhile is_system_msg ms" u] by (simp add: insert_after_system_def)

lemma string_slice_wire: "wire_ok ms \<Longrightarrow> wire_ok (string_slice str_of ms k)"
proof -
  assume "wire_ok ms"
  then have c: "wire_ok (compact_messages str_of ms k)" by (rule squash.keeps)
  have "is_user_msg (ms ! i)" if "indices (\<lambda>m. is_user_msg m \<and> \<not> is_compacted str_of m) ms = i # is" for i "is"
  proof -
    from that have "i \<in> set (indices (\<lambda>m. is_user_msg m \<and> \<not> is_compacted str_of m) ms)" by simp
    then show ?thesis by (auto simp: indices_upt)
  qed
  with c insert_after_system_wire [OF c] show ?thesis
    by (auto simp: string_slice_def Let_def split: list.split prod.split)
qed

lemma partition_wire:
  assumes "wire_ok ms" and "partition_for_compaction str_of ms k = (pre, middle, recent)" and "middle \<noteq> []"
  shows "wire_ok pre" "wire_ok recent"
proof -
  note s = partition_shape [OF assms(2)]
  from s(2) head_messages have "\<forall>m \<in> set pre. \<not> is_tool_msg m \<and> \<not> is_assistant_msg m" by blast
  with wire_ok_after_head(2) [of pre "middle @ recent"] assms(1) s(1) show "wire_ok pre" by simp
  show "wire_ok recent" using wire_ok_drop_left [of "pre @ middle" recent] s(1,4) assms(1,3) by simp
qed

lemma find_user: "last_human_message ms = Some u \<Longrightarrow> is_user_msg u"
  by (simp add: last_human_message_def find_Some_iff) blast

lemma rollback_wire:
  assumes "wire_ok ms" and "partition_for_compaction str_of ms k = (pre, middle, recent)" and "middle \<noteq> []"
  shows "wire_ok (rollback str_of ls ms pre n k reason)"
proof -
  have "wire_ok [failed_note n reason]" using wire_ok_users [of "[x]" for x] by (simp add: failed_note_def)
  moreover have "wire_ok (case last_human_message ms of Some u \<Rightarrow> if u \<notin> set pre then [u] else [] | None \<Rightarrow> [])"
    using find_user wire_ok_single user_kind wire_ok_users [of "[]"] by (auto split: option.split)
  ultimately show ?thesis
    using partition_wire(1) [OF assms] squash.keeps [OF assms(1)]
      wire_ok_append [OF \<open>wire_ok [failed_note n reason]\<close>]
    by (auto simp: rollback_def intro!: wire_ok_append [of pre])
qed

lemma llm_compact_wire:
  assumes "wire_ok ms"
  shows "wire_ok (llm_compact str_of ls now env ms k)"
proof -
  obtain pre middle recent where p: "partition_for_compaction str_of ms k = (pre, middle, recent)" by (rule prod_cases3)
  obtain s n r e where g: "generate_summary_with_retry ls now env = (s, n, r, e)" by (rule prod_cases4)
  have "wire_ok (pre @ [summary_message s] @ recent)" if "middle \<noteq> []"
    using partition_wire [OF assms p that] wire_ok_users [of "[x]" for x]
    by (intro wire_ok_append) (simp_all add: summary_message_def)
  with rollback_wire [OF assms p] string_slice_wire [OF assms] assms show ?thesis
    by (simp add: llm_compact_def p g)
qed

interpretation summarised: history_rewriter "\<lambda>ms. llm_compact str_of ls now env ms k" for str_of ls now env k
  by unfold_locales (rule llm_compact_wire)

subsection \<open>The index\<close>

lemma paired_filter:
  assumes "\<And>m. is_tool_msg m \<Longrightarrow> P m" and "\<And>m. is_assistant_msg m \<Longrightarrow> P m"
  shows "set (answered_ids (takeWhile is_tool_msg ms)) \<subseteq> set (answered_ids (takeWhile is_tool_msg (filter P ms)))"
    "paired ms \<Longrightarrow> paired (filter P ms)" "placed_from b ms \<Longrightarrow> placed_from b (filter P ms)"
proof -
  show sub: "set (answered_ids (takeWhile is_tool_msg ms)) \<subseteq> set (answered_ids (takeWhile is_tool_msg (filter P ms)))" for ms
    using assms(1) by (induction ms) auto
  show "paired ms \<Longrightarrow> paired (filter P ms)"
  proof (induction ms)
    case (Cons m ms)
    with sub [of ms] show ?case by auto
  qed simp
  show "placed_from b ms \<Longrightarrow> placed_from b (filter P ms)"
  proof (induction ms arbitrary: b)
    case (Cons m ms)
    show ?case
    proof (cases "P m")
      case True
      with Cons show ?thesis by (auto split: if_splits)
    next
      case False
      with assms have "\<not> is_tool_msg m" "\<not> is_assistant_msg m" by blast+
      with Cons.prems Cons.IH [of False] False show ?thesis by (simp add: placed_mono)
    qed
  qed simp
qed

lemma index_kind: "is_index str_of m \<Longrightarrow> \<not> is_tool_msg m \<and> \<not> is_assistant_msg m"
  using user_kind by (auto simp: is_index_def)

lemma filter_index_wire: "wire_ok ms \<Longrightarrow> wire_ok (filter (\<lambda>m. \<not> is_index str_of m) ms)"
  using paired_filter(2,3) [where P = "\<lambda>m. \<not> is_index str_of m" and ms = ms] index_kind by (auto simp: wire_ok_def)

lemma replace_index_wire:
  assumes "\<And>i. index = Some i \<Longrightarrow> is_user_msg i"
  shows "set (answered_ids (takeWhile is_tool_msg ms)) \<subseteq> set (answered_ids (takeWhile is_tool_msg (replace_index str_of index ms)))"
    "paired ms \<Longrightarrow> paired (replace_index str_of index ms)"
    "placed_from b ms \<Longrightarrow> placed_from b (replace_index str_of index ms)"
proof -
  let ?new = "case index of Some i \<Rightarrow> [i] | None \<Rightarrow> []"
  have new: "\<forall>m \<in> set ?new. \<not> is_tool_msg m \<and> \<not> is_assistant_msg m"
    using assms user_kind by (auto split: option.split)
  show sub: "set (answered_ids (takeWhile is_tool_msg ms)) \<subseteq> set (answered_ids (takeWhile is_tool_msg (replace_index str_of index ms)))" for ms
    using index_kind by (induction ms) auto
  show "paired ms \<Longrightarrow> paired (replace_index str_of index ms)"
  proof (induction ms)
    case (Cons m ms)
    show ?case
    proof (cases "is_index str_of m")
      case True
      have "paired (filter (\<lambda>m. \<not> is_index str_of m) ms)"
        using Cons.prems index_kind by (intro paired_filter(2)) auto
      with True new show ?thesis by (simp add: paired_append paired_no_assistant)
    next
      case False
      with Cons sub [of ms] show ?thesis by auto
    qed
  qed simp
  show "placed_from b ms \<Longrightarrow> placed_from b (replace_index str_of index ms)"
  proof (induction ms arbitrary: b)
    case (Cons m ms)
    show ?case
    proof (cases "is_index str_of m")
      case True
      have "placed_from False (filter (\<lambda>m. \<not> is_index str_of m) ms)"
        using Cons.prems index_kind True by (intro paired_filter(3)) auto
      with True new show ?thesis
        by (auto simp: placed_append placed_no_tools placed_mono split: option.split)
    next
      case False
      with Cons show ?thesis by (auto split: if_splits)
    qed
  qed simp
qed

lemma manifest_is_user: "is_user_msg (manifest_message s)"
  by (simp add: manifest_message_def is_user_msg_def) (simp add: user_msg_def get_or_none_def)

lemma manifest_wire:
  assumes "wire_ok ms"
  shows "wire_ok (with_spill_manifest str_of mp mc ms refs)"
proof -
  define index where "index = (let s = select_refs mp mc [] (int (length SPILL_MANIFEST_HEADER)) (rev refs)
      in if s \<noteq> [] then Some (manifest_message s) else None)"
  have u: "is_user_msg i" if "index = Some i" for i
    using that by (auto simp: index_def Let_def manifest_is_user split: if_splits)
  have "wire_ok (replace_index str_of index ms)"
    using replace_index_wire(2,3) [where index = index and ms = ms and str_of = str_of] u assms by (simp add: wire_ok_def)
  moreover have "wire_ok (takeWhile is_system_msg ms @ i # dropWhile is_system_msg ms)" if "index = Some i" for i
    using wire_ok_insert [OF _ system_prefix u [OF that]] assms by simp
  moreover have "wire_ok (takeWhile is_system_msg ms @ a # i # rest)"
    if "index = Some i" "dropWhile is_system_msg ms = a # rest" "is_user_msg a" for i a rest
  proof -
    have "wire_ok ((takeWhile is_system_msg ms @ [a]) @ rest)"
      using assms that(2) by (metis append_Cons append_assoc append_Nil takeWhile_dropWhile_id)
    from wire_ok_insert [OF this _ u [OF that(1)]] system_prefix that(3) show ?thesis by auto
  qed
  ultimately show ?thesis
    using assms unfolding with_spill_manifest_def
    by (cases "dropWhile is_system_msg ms") (auto simp: Let_def index_def simp del: dropWhile_eq_Nil_conv split: if_splits)
qed

lemma compressed_wire: "wire_ok ms \<Longrightarrow> wire_ok (compressed str_of tc latest w ms)"
  using wire_ok_shape [OF compress_shape, of str_of ms w "tc_protect tc" None latest]
  by (auto simp: compressed_def split: sum.split)

lemma arg_min_mem: "cs \<noteq> [] \<Longrightarrow> best_candidate cs \<in> set cs"
  by (simp add: best_candidate_def arg_min_list_in)

lemma candidates_wire:
  assumes "wire_ok ms" and "\<forall>(l, c, n) \<in> set cs. wire_ok c" and "cs \<noteq> []"
  shows "\<forall>(l, c, n) \<in> set (foldl (add_candidate est (\<lambda>w. compressed str_of tc latest w ms)) cs ws). wire_ok c"
    "foldl (add_candidate est (\<lambda>w. compressed str_of tc latest w ms)) cs ws \<noteq> []"
proof -
  have "(\<forall>(l, c, n) \<in> set (foldl (add_candidate est (\<lambda>w. compressed str_of tc latest w ms)) cs ws). wire_ok c)
      \<and> foldl (add_candidate est (\<lambda>w. compressed str_of tc latest w ms)) cs ws \<noteq> []"
    using assms(2,3)
  proof (induction ws arbitrary: cs)
    case (Cons w ws)
    have "\<forall>(l, c, n) \<in> set (add_candidate est (\<lambda>w. compressed str_of tc latest w ms) cs w). wire_ok c"
      "add_candidate est (\<lambda>w. compressed str_of tc latest w ms) cs w \<noteq> []"
      using Cons.prems compressed_wire [OF assms(1)] by (auto simp: add_candidate_def Let_def)
    with Cons.IH show ?case by simp
  qed simp
  then show "\<forall>(l, c, n) \<in> set (foldl (add_candidate est (\<lambda>w. compressed str_of tc latest w ms)) cs ws). wire_ok c"
    "foldl (add_candidate est (\<lambda>w. compressed str_of tc latest w ms)) cs ws \<noteq> []" by auto
qed

lemma tiered_compact_wire:
  assumes "wire_ok ms"
  shows "wire_ok (fst (tiered_compact est str_of tc now env ms k))"
proof -
  let ?size = "estimate_history est str_of"
  define tier1 where "tier1 = keep_last_compact str_of (tc_tier1 tc) ms"
  define latest where "latest = (if tc_spill_recoverable tc then [] else latest_tool_result_ids str_of ms)"
  define cs where "cs = foldl (add_candidate ?size (\<lambda>w. compressed str_of tc latest w ms))
      [(''tier1'', tier1, ?size tier1)] [1200, 600, 300]"
  obtain label best n where b: "best_candidate cs = (label, best, n)" by (rule prod_cases3)
  have t1: "wire_ok tier1" using keep_last.keeps [OF assms] by (simp add: tier1_def)
  then have "\<forall>(l, c, n) \<in> set [(''tier1'', tier1, ?size tier1)]. wire_ok c" by simp
  note w = candidates_wire [OF assms this, of ?size str_of tc latest "[1200, 600, 300]", folded cs_def]
  have wb: "wire_ok best" using w(1) arg_min_mem [OF w(2)] b by (auto simp del: best_candidate_def)
  have w2: "wire_ok (llm_compact str_of (tc_tier2 tc) now env (compressed str_of tc latest 1200 ms) k)"
    using summarised.keeps [OF compressed_wire [OF assms]] .
  show ?thesis
    unfolding tiered_compact_def Let_def tier1_def [symmetric] latest_def [symmetric] cs_def [symmetric] b prod.case
    using t1 wb w2 manifest_wire by simp
qed

interpretation tiered: history_rewriter "\<lambda>ms. fst (tiered_compact est str_of tc now env ms k)" for est str_of tc now env k
  by unfold_locales (rule tiered_compact_wire)

subsection \<open>The bounds of the index\<close>

lemma str_join_length: "xs \<noteq> [] \<Longrightarrow> length (str_join newline xs) + 1 = sum_list (map length xs) + length xs"
  by (induction "newline" xs rule: str_join.induct) auto

lemma manifest_length:
  assumes "selected \<noteq> []"
  shows "int (length (manifest_text selected)) = int (length SPILL_MANIFEST_HEADER) + (\<Sum>p\<leftarrow>selected. int (length p) + 3)"
proof -
  have "sum_list (map length (map (\<lambda>p. ''- '' @ p) ps)) + length ps = sum_list (map (\<lambda>p. length p + 3) ps)" for ps :: "string list"
    by (induction ps) auto
  with str_join_length [of "map (\<lambda>p. ''- '' @ p) selected"] assms
  have "length (str_join newline (map (\<lambda>p. ''- '' @ p) selected)) + 1 = sum_list (map (\<lambda>p. length p + 3) selected)" by simp
  moreover have "int (sum_list (map (\<lambda>p. length p + 3) ps)) = (\<Sum>p\<leftarrow>ps. int (length p) + 3)" for ps :: "string list"
    by (induction ps) auto
  ultimately show ?thesis by (simp add: manifest_text_def)
qed

lemma select_refs_spec:
  assumes "select_refs mp mc sel used ps = out" and "used = int (length SPILL_MANIFEST_HEADER) + (\<Sum>p\<leftarrow>sel. int (length p) + 3)"
    and "\<And>n. mp = Some n \<Longrightarrow> int (length sel) \<le> n" and "\<And>n. mc = Some n \<Longrightarrow> used \<le> n"
  shows "(\<exists>k. out = rev (take k ps) @ sel)
    \<and> (\<forall>n. mp = Some n \<longrightarrow> int (length out) \<le> n)
    \<and> (\<forall>n. mc = Some n \<longrightarrow> int (length SPILL_MANIFEST_HEADER) + (\<Sum>p\<leftarrow>out. int (length p) + 3) \<le> n)"
  using assms
proof (induction ps arbitrary: sel used)
  case (Cons p ps)
  let ?full = "case mp of None \<Rightarrow> False | Some n \<Rightarrow> n \<le> int (length sel)"
  let ?over = "case mc of None \<Rightarrow> False | Some n \<Rightarrow> n < used + (int (length p) + 3)"
  show ?case
  proof (cases "?full \<or> ?over")
    case True
    then have "out = sel" using Cons.prems(1) by auto
    with Cons.prems show ?thesis by (auto intro: exI [of _ 0])
  next
    case False
    then have "select_refs mp mc (p # sel) (used + (int (length p) + 3)) ps = out" using Cons.prems(1) by simp
    from Cons.IH [OF this] Cons.prems(2-4) False
    have "(\<exists>k. out = rev (take k ps) @ p # sel) \<and> (\<forall>n. mp = Some n \<longrightarrow> int (length out) \<le> n)
        \<and> (\<forall>n. mc = Some n \<longrightarrow> int (length SPILL_MANIFEST_HEADER) + (\<Sum>p\<leftarrow>out. int (length p) + 3) \<le> n)"
      by (auto split: option.splits)
    then show ?thesis by (metis append_Cons append_assoc append_Nil rev.simps(2) take_Suc_Cons)
  qed
qed (auto intro: exI [of _ 0])

section \<open>Properties\<close>

text \<open>
  C14: every compactor the loop can be given keeps the history acceptable to a provider: the
  summarising compactor whatever its model answers (a summary, nothing, or failures that end in
  either rollback), and the tiered compactor whichever candidate it selects, with the recovery
  index inserted or replaced.
\<close>

theorem compactors_keep_pairing:
  assumes "wire_ok ms"
  shows "wire_ok (llm_compact str_of ls now env ms keep_recent)
    \<and> wire_ok (fst (tiered_compact est str_of tc now env ms keep_recent))"
  using summarised.keeps [OF assms] tiered.keeps [OF assms] by blast

theorem compactors_keep_pairing_witness:
  "\<exists>ls. ls_has_llm ls \<and> wire_ok (llm_compact (\<lambda>v. []) ls 0
     (\<lambda>n. \<lparr>at_before = 0, at_outcome = Inr ''so far'', at_after = 0\<rparr>) [user_msg ''a'', user_msg ''b''] 1)"
proof -
  have "wire_ok [user_msg ''a'', user_msg ''b'']" using wire_ok_users [of "[''a'', ''b'']"] by simp
  from compactors_keep_pairing [OF this] show ?thesis
    by (intro exI [of _ "init_LLMSummaryCompactor True ''panic'' 0 None"]) (simp add: init_LLMSummaryCompactor_def)
qed

text \<open>
  The recovery index stays within its bounds: it lists the newest references, at most
  \<open>manifest_max_paths\<close> of them, and its rendered text has at most \<open>manifest_max_chars\<close> characters,
  header and bullets included.
\<close>

theorem manifest_bounded:
  assumes "selected = select_refs max_paths max_chars [] (int (length SPILL_MANIFEST_HEADER)) (rev refs)" and "selected \<noteq> []"
    and "\<forall>n. max_paths = Some n \<longrightarrow> 1 \<le> n" and "\<forall>n. max_chars = Some n \<longrightarrow> int (length SPILL_MANIFEST_HEADER) \<le> n"
  shows "suffix selected refs \<and> (\<forall>n. max_paths = Some n \<longrightarrow> int (length selected) \<le> n)
    \<and> (\<forall>n. max_chars = Some n \<longrightarrow> int (length (manifest_text selected)) \<le> n)"
proof -
  from select_refs_spec [OF assms(1) [symmetric]] assms(3,4)
  have s: "\<exists>k. selected = rev (take k (rev refs))" "\<forall>n. max_paths = Some n \<longrightarrow> int (length selected) \<le> n"
    "\<forall>n. max_chars = Some n \<longrightarrow> int (length SPILL_MANIFEST_HEADER) + (\<Sum>p\<leftarrow>selected. int (length p) + 3) \<le> n"
    by fastforce+
  from s(1) have "suffix selected refs" by (metis rev_rev_ident suffix_to_prefix take_is_prefix)
  with s(2,3) manifest_length [OF assms(2)] show ?thesis by simp
qed

theorem manifest_bounded_witness:
  "\<exists>selected. selected = select_refs (Some 1) None [] (int (length SPILL_MANIFEST_HEADER)) (rev [''/a'', ''/b''])
     \<and> suffix selected [''/a'', ''/b''] \<and> int (length selected) \<le> 1"
proof -
  define selected where "selected = select_refs (Some 1) None [] (int (length SPILL_MANIFEST_HEADER)) (rev [''/a'', ''/b''])"
  have "selected \<noteq> []" by (simp add: selected_def)
  from manifest_bounded [OF selected_def this] selected_def show ?thesis by auto
qed

text \<open>
  The summariser is retried only while that can help.  The sequence ends after at most
  \<open>max_transient_retries + 1\<close> attempts; every attempt but the last failed with a transient error;
  it reports success exactly with the text of its last attempt, and otherwise one of the two
  failure reasons and no text.
\<close>

theorem summary_retries_bounded:
  assumes "generate_summary_with_retry (init_LLMSummaryCompactor has_llm fallback retries timeout) now env = (summary, n, reason, err)"
  shows "int n \<le> max 0 retries + 1
    \<and> (\<forall>i. Suc i < n \<longrightarrow> (\<exists>e. at_outcome (env i) = Inl e \<and> is_transient_summary_error e))
    \<and> (reason = [] \<longrightarrow> 0 < n \<and> at_outcome (env (n - 1)) = Inr summary)
    \<and> (reason \<noteq> [] \<longrightarrow> summary = [] \<and> reason \<in> {''llm_error'', ''llm_error_permanent''})"
  using retry_loop_attempts [OF assms [unfolded generate_summary_with_retry_def]]
  by (auto simp: init_LLMSummaryCompactor_def)

theorem summary_retries_bounded_witness:
  "\<exists>summary n reason err.
     generate_summary_with_retry (init_LLMSummaryCompactor True ''panic'' 2 None) 0
       (\<lambda>i. \<lparr>at_before = 0, at_outcome = Inl \<lparr>se_timeout = True, se_context_length = False, se_transient_network = False,
          se_status_values = [], se_text = [], se_message = ''timeout''\<rparr>, at_after = 0\<rparr>) = (summary, n, reason, err)
     \<and> n \<le> 3"
proof -
  obtain summary n reason err where g: "generate_summary_with_retry (init_LLMSummaryCompactor True ''panic'' 2 None) 0
       (\<lambda>i. \<lparr>at_before = 0, at_outcome = Inl \<lparr>se_timeout = True, se_context_length = False, se_transient_network = False,
          se_status_values = [], se_text = [], se_message = ''timeout''\<rparr>, at_after = 0\<rparr>) = (summary, n, reason, err)"
    by (rule prod_cases4)
  from summary_retries_bounded [OF g] g show ?thesis by auto
qed

end
