(* ===== verification/Image_Attach.thy ===== *)
theory Image_Attach
  imports Loop_History
begin

text \<open>
  The image attachments of tool messages (\<^verbatim>\<open>runtime/loop/image_attach.py\<close>): attaching them to the
  message a provider sees, and evicting the oldest ones from the history.  Images are validated
  dictionaries with the keys \<open>mime_type\<close> and \<open>data\<close>; their token price \<open>price\<close>
  (\<open>image_tokens\<close> of \<^verbatim>\<open>tool_content.py\<close>, which reads image headers) is a parameter, and so is
  \<open>str_of\<close>, Python's \<open>str\<close>.
\<close>

definition INLINE_IMAGE_PROTOCOLS :: "string list" where
  "INLINE_IMAGE_PROTOCOLS = [''chat_completions'']"

definition is_image :: "pyval \<Rightarrow> bool" where
  "is_image b = (case b of PyDict d \<Rightarrow> get_or_none d ''type'' = PyStr ''image_url'' | _ \<Rightarrow> False)"

definition message_image_meta :: "message \<Rightarrow> pyval pydict list" where
  "message_image_meta m = (case get_or_none m ''image_meta'' of PyList es \<Rightarrow> dicts_of es | _ \<Rightarrow> [])"

text \<open>\<open>str(v or "")\<close>\<close>

definition str_or_empty :: "(pyval \<Rightarrow> string) \<Rightarrow> pyval \<Rightarrow> string" where
  "str_or_empty str_of v = (if truthy v then py_format str_of v else [])"

definition text_content :: "(pyval \<Rightarrow> string) \<Rightarrow> message \<Rightarrow> string" where
  "text_content str_of m =
     (case get_or_none m ''content'' of
        PyStr s \<Rightarrow> s
      | PyList bs \<Rightarrow>
          str_join ''\<newline>'' (filter (\<lambda>p. p \<noteq> [])
            (map (\<lambda>d. str_or_empty str_of (get_or_none d ''text''))
              (filter (\<lambda>d. get_or_none d ''type'' = PyStr ''text'') (dicts_of bs))))
      | PyNone \<Rightarrow> []
      | v \<Rightarrow> str_of v)"

definition withheld_note :: "(pyval \<Rightarrow> string) \<Rightarrow> pyval pydict list \<Rightarrow> string \<Rightarrow> string" where
  "withheld_note str_of images why =
     (let named = str_join '', '' (filter (\<lambda>l. l \<noteq> [])
            (map (\<lambda>i. str_or_empty str_of (get_or_none i ''label'')) images));
          subject = (if length images = 1 then ''1 image'' else str_of_nat (length images) @ '' images'');
          where' = (if named \<noteq> [] then '' ('' @ named @ '')'' else [])
      in ''['' @ subject @ where' @ '' could not be shown to you: '' @ why @ ''. You have NOT ''
         @ ''seen this image. Do not describe, transcribe, or draw any conclusion ''
         @ ''from its contents.]'')"

definition evicted_note :: "(pyval \<Rightarrow> string) \<Rightarrow> pyval pydict \<Rightarrow> string" where
  "evicted_note str_of entry =
     (let label = str_or_empty str_of (get_or_none entry ''label'');
          where' = (if label \<noteq> [] then '' '' @ label else [])
      in ''[An image'' @ where' @ '' was here and has been dropped from context to make ''
         @ ''room. You can no longer see it. Read it again if you still need it, ''
         @ ''and do not rely on remembering what it showed.]'')"

definition text_block :: "string \<Rightarrow> pyval" where
  "text_block t = PyDict [(''type'', PyStr ''text''), (''text'', PyStr t)]"

definition image_block :: "(pyval \<Rightarrow> string) \<Rightarrow> pyval pydict \<Rightarrow> pyval" where
  "image_block str_of img =
     PyDict [(''type'', PyStr ''image_url''),
             (''image_url'', PyDict [(''url'', PyStr (''data:'' @ py_format str_of (get_or_none img ''mime_type'')
                @ '';base64,'' @ py_format str_of (get_or_none img ''data'')))])]"

record ImageProfile =
  ip_supports_images :: bool
  ip_model_id :: string
  ip_protocol :: string

definition attach_images ::
  "(pyval \<Rightarrow> string) \<Rightarrow> (pyval pydict \<Rightarrow> int) \<Rightarrow> ImageProfile \<Rightarrow> message \<Rightarrow> pyval pydict list \<Rightarrow> message" where
  "attach_images str_of price profile m images =
     (if images = [] then m
      else
        let why = (if \<not> ip_supports_images profile
                   then ''the model in use ('' @ ip_model_id profile @ '') cannot accept images''
                   else if ip_protocol profile \<notin> set INLINE_IMAGE_PROTOCOLS
                   then ''inline images are not implemented for the '' @ ip_protocol profile @ '' wire protocol''
                   else []);
            txt = text_content str_of m
        in if why \<noteq> [] then
             let note = withheld_note str_of images why
             in AList.update ''content'' (PyStr (if txt \<noteq> [] then txt @ ''\<newline>\<newline>'' @ note else note)) m
           else
             AList.update ''image_meta''
               (PyList (map (\<lambda>i. PyDict [(''label'', PyStr (str_or_empty str_of (get_or_none i ''label''))),
                                         (''tokens'', PyInt (price i))]) images))
               (AList.update ''content''
                 (PyList ((if txt \<noteq> [] then [text_block txt] else []) @ map (image_block str_of) images)) m))"

section \<open>Eviction\<close>

text \<open>The positions to drop, from the image positions newest first, and the new count of kept images.\<close>

fun choose_drops :: "int \<Rightarrow> nat list \<Rightarrow> int \<Rightarrow> nat list \<times> int" where
  "choose_drops max_images [] kept = ([], kept)"
| "choose_drops max_images (i # ps) kept =
     (if kept < max_images then choose_drops max_images ps (kept + 1)
      else let (drops, k) = choose_drops max_images ps kept in (i # drops, k))"

definition image_positions :: "pyval list \<Rightarrow> nat list" where
  "image_positions blocks = map fst (filter (\<lambda>(i, b). is_image b) (List.enumerate 0 blocks))"

text \<open>The rebuilt blocks and the entries of the surviving images; \<open>meta\<close> are the entries not yet seen.\<close>

fun rebuild_blocks ::
  "(pyval \<Rightarrow> string) \<Rightarrow> nat list \<Rightarrow> (nat \<times> pyval) list \<Rightarrow> pyval pydict list \<Rightarrow>
   pyval list \<times> pyval pydict list" where
  "rebuild_blocks str_of drop_at [] meta = ([], [])"
| "rebuild_blocks str_of drop_at ((i, b) # bs) meta =
     (if \<not> is_image b then
        let (rebuilt, surviving) = rebuild_blocks str_of drop_at bs meta in (b # rebuilt, surviving)
      else
        let entry = (case meta of [] \<Rightarrow> [] | e # es \<Rightarrow> e);
            (rebuilt, surviving) = rebuild_blocks str_of drop_at bs (tl meta)
        in if i \<in> set drop_at then (text_block (evicted_note str_of entry) # rebuilt, surviving)
           else (b # rebuilt, entry # surviving))"

definition evict_message ::
  "(pyval \<Rightarrow> string) \<Rightarrow> int \<Rightarrow> int \<Rightarrow> message \<Rightarrow> message \<times> int" where
  "evict_message str_of max_images kept m =
     (case get_or_none m ''content'' of
        PyList blocks \<Rightarrow>
          let ps = image_positions blocks in
          if ps = [] then (m, kept)
          else
            let (drop_at, kept') = choose_drops max_images (rev ps) kept in
            if drop_at = [] then (m, kept')
            else
              let (rebuilt, surviving) =
                    rebuild_blocks str_of drop_at (List.enumerate 0 blocks) (message_image_meta m)
              in if surviving \<noteq> []
                 then (AList.update ''image_meta'' (PyList (map PyDict surviving))
                         (AList.update ''content'' (PyList rebuilt) m), kept')
                 else (AList.delete ''image_meta''
                         (AList.update ''content''
                           (PyStr (str_join ''\<newline>''
                             (map (\<lambda>d. str_or_empty str_of (get_or_none d ''text''))
                               (filter (\<lambda>d. truthy (get_or_none d ''text'')) (dicts_of rebuilt))))) m), kept')
      | _ \<Rightarrow> (m, kept))"

text \<open>The walk over the history, newest message first.\<close>

fun evict_walk :: "(pyval \<Rightarrow> string) \<Rightarrow> int \<Rightarrow> int \<Rightarrow> message list \<Rightarrow> message list" where
  "evict_walk str_of max_images kept [] = []"
| "evict_walk str_of max_images kept (m # ms) =
     (let (m', kept') = evict_message str_of max_images kept m
      in m' # evict_walk str_of max_images kept' ms)"

definition evict_old_images :: "(pyval \<Rightarrow> string) \<Rightarrow> message list \<Rightarrow> int \<Rightarrow> message list" where
  "evict_old_images str_of messages max_images =
     (if max_images < 0 then messages else rev (evict_walk str_of max_images 0 (rev messages)))"

definition content_blocks :: "message \<Rightarrow> pyval list" where
  "content_blocks m = (case get_or_none m ''content'' of PyList bs \<Rightarrow> bs | _ \<Rightarrow> [])"

definition images_in :: "message \<Rightarrow> pyval list" where
  "images_in m = filter is_image (content_blocks m)"

definition image_blocks_in :: "message \<Rightarrow> nat" where
  "image_blocks_in m = length (images_in m)"

section \<open>What eviction keeps\<close>

text \<open>Only the content and the image bookkeeping of a message are touched.\<close>

lemma evict_message_keys:
  "k \<noteq> ''content'' \<Longrightarrow> k \<noteq> ''image_meta'' \<Longrightarrow> map_of (fst (evict_message str_of mx kept m)) k = map_of m k"
  by (auto simp: evict_message_def Let_def split: pyval.splits prod.splits)

lemma attach_images_keys:
  "k \<noteq> ''content'' \<Longrightarrow> k \<noteq> ''image_meta'' \<Longrightarrow> map_of (attach_images str_of price profile m images) k = map_of m k"
  by (auto simp: attach_images_def Let_def)

text \<open>Choosing drops among the newest-first positions keeps the first ones while there is room.\<close>

lemma choose_drops_spec:
  "choose_drops mx ps kept =
     (drop (nat (mx - kept)) ps, if mx \<le> kept then kept else kept + min (int (length ps)) (mx - kept))"
proof (induction mx ps kept rule: choose_drops.induct)
  case (2 mx i ps kept)
  show ?case
  proof (cases "kept < mx")
    case True
    then have "nat (mx - kept) = Suc (nat (mx - (kept + 1)))" by simp
    moreover have "(if mx \<le> kept + 1 then kept + 1 else kept + 1 + min (int (length ps)) (mx - (kept + 1))) =
        kept + min (int (length (i # ps))) (mx - kept)" using True by auto
    ultimately show ?thesis using True 2(1) by simp
  qed (use 2(2) in auto)
qed auto

lemma rebuild_images:
  "filter is_image (fst (rebuild_blocks str_of drop_at ibs meta)) =
     map snd (filter (\<lambda>(i, b). is_image b \<and> i \<notin> set drop_at) ibs)"
  "length (snd (rebuild_blocks str_of drop_at ibs meta)) =
     length (filter (\<lambda>(i, b). is_image b \<and> i \<notin> set drop_at) ibs)"
  by (induction str_of drop_at ibs meta rule: rebuild_blocks.induct)
     (auto simp: Let_def text_block_def is_image_def get_or_none_def split: prod.splits)

text \<open>Dropping the entries at the first positions leaves the later ones.\<close>

lemma filter_not_in_take:
  assumes "distinct (map fst ps)"
  shows "filter (\<lambda>p. fst p \<notin> set (take j (map fst ps))) ps = drop j ps"
  using assms
proof (induction ps arbitrary: j)
  case (Cons p ps)
  show ?case
  proof (cases j)
    case 0
    then show ?thesis by simp
  next
    case (Suc i)
    have "filter (\<lambda>q. fst q \<notin> set (take (Suc i) (map fst (p # ps)))) ps =
        filter (\<lambda>q. fst q \<notin> set (take i (map fst ps))) ps"
      using Cons.prems by (intro filter_cong) (auto simp: image_iff)
    with Cons Suc show ?thesis by simp
  qed
qed simp

lemma image_positions_filter:
  "image_positions blocks = map fst (filter (\<lambda>(i, b). is_image b) (List.enumerate 0 blocks))"
  "map snd (filter (\<lambda>(i, b). is_image b) (List.enumerate n blocks)) = filter is_image blocks"
  "distinct (map fst (filter (\<lambda>(i, b). is_image b) (List.enumerate n blocks)))"
proof -
  show "map snd (filter (\<lambda>(i, b). is_image b) (List.enumerate n blocks)) = filter is_image blocks"
    by (induction blocks arbitrary: n) auto
  show "distinct (map fst (filter (\<lambda>(i, b). is_image b) (List.enumerate n blocks)))"
    by (rule distinct_map_filter) simp
qed (simp add: image_positions_def)

lemma rebuilt_images:
  assumes "ps = image_positions blocks"
  shows "filter is_image (fst (rebuild_blocks str_of (rev (take j ps)) (List.enumerate 0 blocks) meta)) =
      drop j (filter is_image blocks)"
    and "length (snd (rebuild_blocks str_of (rev (take j ps)) (List.enumerate 0 blocks) meta)) =
      length (drop j (filter is_image blocks))"
proof -
  let ?I = "filter (\<lambda>(i, b). is_image b) (List.enumerate 0 blocks)"
  have "filter (\<lambda>(i, b). is_image b \<and> i \<notin> set (rev (take j ps))) (List.enumerate 0 blocks) =
      filter (\<lambda>p. fst p \<notin> set (take j (map fst ?I))) ?I"
    unfolding filter_filter assms image_positions_filter(1) by (intro filter_cong) auto
  also have "\<dots> = drop j ?I" by (rule filter_not_in_take) (rule image_positions_filter(3))
  finally have f: "filter (\<lambda>(i, b). is_image b \<and> i \<notin> set (rev (take j ps))) (List.enumerate 0 blocks) = drop j ?I" .
  show "filter is_image (fst (rebuild_blocks str_of (rev (take j ps)) (List.enumerate 0 blocks) meta)) =
      drop j (filter is_image blocks)"
    unfolding rebuild_images(1) f by (simp add: drop_map [symmetric] image_positions_filter(2))
  have "length ?I = length (filter is_image blocks)"
    by (metis image_positions_filter(2) length_map)
  then show "length (snd (rebuild_blocks str_of (rev (take j ps)) (List.enumerate 0 blocks) meta)) =
      length (drop j (filter is_image blocks))"
    unfolding rebuild_images(2) f by simp
qed

text \<open>One message keeps its newest images, as many as there is room for.\<close>

lemma evict_message_spec:
  assumes "kept \<le> mx"
  shows "images_in (fst (evict_message str_of mx kept m)) =
      drop (image_blocks_in m - nat (mx - kept)) (images_in m)"
    and "snd (evict_message str_of mx kept m) = kept + min (int (image_blocks_in m)) (mx - kept)"
proof -
  have "images_in (fst (evict_message str_of mx kept m)) = drop (image_blocks_in m - nat (mx - kept)) (images_in m)
    \<and> snd (evict_message str_of mx kept m) = kept + min (int (image_blocks_in m)) (mx - kept)"
  proof (cases "get_or_none m ''content''")
    case (PyList blocks)
    define ps where "ps = image_positions blocks"
    let ?j = "length ps - nat (mx - kept)"
    have n: "length ps = length (filter is_image blocks)"
      by (metis ps_def image_positions_filter(1,2) length_map)
    have im: "images_in m = filter is_image blocks" by (simp add: images_in_def content_blocks_def PyList)
    have ch: "choose_drops mx (rev ps) kept = (rev (take ?j ps), kept + min (int (length ps)) (mx - kept))"
      using assms by (auto simp: choose_drops_spec drop_rev)
    obtain rebuilt surviving where rb:
      "rebuild_blocks str_of (rev (take ?j ps)) (List.enumerate 0 blocks) (message_image_meta m) = (rebuilt, surviving)"
      by fastforce
    have r1: "filter is_image rebuilt = drop ?j (filter is_image blocks)"
      and r2: "length surviving = length (drop ?j (filter is_image blocks))"
      using rebuilt_images [OF ps_def, of str_of ?j "message_image_meta m"] rb by simp_all
    show ?thesis
    proof (cases "ps = [] \<or> take ?j ps = []")
      case True
      then have "?j = 0" by auto
      with True show ?thesis
        using ch n im assms by (auto simp: evict_message_def PyList ps_def [symmetric] image_blocks_in_def Let_def)
    next
      case False
      then have ev: "evict_message str_of mx kept m =
          (if surviving \<noteq> []
           then AList.update ''image_meta'' (PyList (map PyDict surviving)) (AList.update ''content'' (PyList rebuilt) m)
           else AList.delete ''image_meta'' (AList.update ''content''
                 (PyStr (str_join ''\<newline>'' (map (\<lambda>d. str_or_empty str_of (get_or_none d ''text''))
                   (filter (\<lambda>d. truthy (get_or_none d ''text'')) (dicts_of rebuilt))))) m),
           kept + min (int (length ps)) (mx - kept))"
        by (simp add: evict_message_def PyList ps_def [symmetric] ch rb Let_def)
      have "images_in (fst (evict_message str_of mx kept m)) = drop ?j (filter is_image blocks)"
        using r1 r2 unfolding ev
        by (auto simp: images_in_def content_blocks_def get_or_none_def)
      with ev n im show ?thesis by (simp add: image_blocks_in_def)
    qed
  qed (auto simp: evict_message_def images_in_def content_blocks_def image_blocks_in_def assms)
  then show "images_in (fst (evict_message str_of mx kept m)) = drop (image_blocks_in m - nat (mx - kept)) (images_in m)"
    and "snd (evict_message str_of mx kept m) = kept + min (int (image_blocks_in m)) (mx - kept)" by blast+
qed

lemma evict_walk_spec:
  "kept \<le> mx \<Longrightarrow> concat (map (rev \<circ> images_in) (evict_walk str_of mx kept ms)) =
     take (nat (mx - kept)) (concat (map (rev \<circ> images_in) ms))"
proof (induction ms arbitrary: kept)
  case (Cons m ms)
  obtain m' kept' where e: "evict_message str_of mx kept m = (m', kept')" by fastforce
  have m': "images_in m' = drop (image_blocks_in m - nat (mx - kept)) (images_in m)"
    and k: "kept' = kept + min (int (image_blocks_in m)) (mx - kept)"
    using evict_message_spec [OF Cons.prems, of str_of m] e by simp_all
  have "rev (images_in m') = take (nat (mx - kept)) (rev (images_in m))"
    unfolding m' rev_drop image_blocks_in_def
    by (cases "nat (mx - kept) \<le> length (images_in m)") simp_all
  moreover have "nat (mx - kept') = nat (mx - kept) - image_blocks_in m" "kept' \<le> mx"
    using Cons.prems by (auto simp: k min_def)
  ultimately show ?case using Cons.IH [of kept'] e by (simp add: image_blocks_in_def)
qed simp

text \<open>Eviction does not change what a provider checks.\<close>

lemma evict_walk_shape: "map shape (evict_walk str_of mx kept ms) = map shape ms"
proof (induction ms arbitrary: kept)
  case (Cons m ms)
  have "shape (fst (evict_message str_of mx kept m)) = shape m"
    by (rule shapeI) (simp_all add: get_or_none_def evict_message_keys)
  with Cons show ?case by (simp add: case_prod_beta Let_def)
qed simp

lemma evict_shape: "map shape (evict_old_images str_of messages mx) = map shape messages"
  by (simp add: evict_old_images_def rev_map [symmetric] evict_walk_shape)

interpretation eviction: history_rewriter "\<lambda>ms. evict_old_images str_of ms max_images" for str_of max_images
  by unfold_locales (metis evict_shape wire_ok_shape)

section \<open>Properties\<close>

text \<open>
  Eviction keeps exactly the newest images.  Reading the inline images of the history from
  the oldest to the newest, what remains after an eviction is the last \<open>max_images\<close> of them, also
  inside a message that returned several; in particular never more than \<open>max_images\<close> remain.
\<close>

theorem evict_keeps_newest:
  assumes "0 \<le> max_images"
  shows "concat (map images_in (evict_old_images str_of messages max_images)) =
    drop (length (concat (map images_in messages)) - nat max_images) (concat (map images_in messages))"
proof -
  have "concat (map images_in (evict_old_images str_of messages max_images)) =
      rev (concat (map (rev \<circ> images_in) (evict_walk str_of max_images 0 (rev messages))))"
    using assms by (simp add: evict_old_images_def rev_concat rev_map [symmetric] comp_def)
  also have "\<dots> = rev (take (nat max_images) (concat (map (rev \<circ> images_in) (rev messages))))"
    using assms by (simp add: evict_walk_spec)
  also have "concat (map (rev \<circ> images_in) (rev messages)) = rev (concat (map images_in messages))"
    by (simp add: rev_concat rev_map comp_def)
  finally show ?thesis by (simp add: rev_take)
qed

theorem evict_keeps_newest_witness:
  "let two = [(''role'', PyStr ''tool''), (''content'', PyList [image_block (\<lambda>v. []) [(''data'', PyStr ''a'')],
                image_block (\<lambda>v. []) [(''data'', PyStr ''b'')]])]
   in concat (map images_in (evict_old_images (\<lambda>v. []) [two] 1)) = [image_block (\<lambda>v. []) [(''data'', PyStr ''b'')]]"
  unfolding Let_def
  by (subst evict_keeps_newest) (simp_all add: images_in_def content_blocks_def get_or_none_def image_block_def is_image_def)

end
