(* ===== verification/Tool_Exec.thy ===== *)
theory Tool_Exec
  imports Loop_History
begin

text \<open>
  Execution of a batch of tool calls (\<^verbatim>\<open>runtime/loop/tool_exec.py\<close>).  The calls of a batch run
  concurrently and independently, so a batch is described by the outcome of each invocation; the
  engine turns every outcome into a result.  The host's hooks may raise, which is the value
  \<open>None\<close>; \<open>parse\<close> is \<open>parse_tool_content\<close>, which splits text from attached images, and \<open>elapsed\<close>
  renders a duration.
\<close>

definition TOOL_RESULT_MAX_CHARS :: nat where
  "TOOL_RESULT_MAX_CHARS = 150000"

definition AGGREGATION_TOOLS :: "string list" where
  "AGGREGATION_TOOLS = [''collect_reports'', ''collect_results'']"

definition SELF_TIMING_TOOL_FLOORS :: "int pydict" where
  "SELF_TIMING_TOOL_FLOORS = [(''run_python_code'', 660), (''download_file'', 660)]"

text \<open>\<open>DefaultToolResultPostProcessor.process\<close>\<close>

definition post_process :: "int option \<Rightarrow> ToolResult \<Rightarrow> string" where
  "post_process max_chars r =
     (let content = tr_result r in
      case max_chars of
        None \<Rightarrow> content
      | Some cap \<Rightarrow>
          if cap \<le> 0 \<or> int (length content) \<le> cap then content
          else take (nat cap) content @ ''\<newline>\<newline>[... truncated ''
               @ str_of_int (int (length content) - cap) @ '' chars past '' @ str_of_int cap @ ''-char cap]'')"

definition default_timeout :: "string \<Rightarrow> pyval pydict \<Rightarrow> int \<Rightarrow> int" where
  "default_timeout name args configured =
     (case map_of SELF_TIMING_TOOL_FLOORS name of
        Some least \<Rightarrow> max configured least
      | None \<Rightarrow>
          if name \<notin> set AGGREGATION_TOOLS then configured
          else
            let v = dict_get_default args ''timeout'' (PyInt 0);
                requested = (case py_int (if truthy v then v else PyInt 0) of None \<Rightarrow> 0 | Some i \<Rightarrow> i)
            in if 0 < requested then max configured (requested + 5) else configured)"

definition identity_result :: "string \<Rightarrow> string" where
  "identity_result value =
     (if length value \<le> TOOL_RESULT_MAX_CHARS then value
      else take TOOL_RESULT_MAX_CHARS value @ ''\<newline>... [truncated, '' @ str_of_nat (length value) @ '' chars total]'')"

definition unknown_result :: "string \<Rightarrow> string list \<Rightarrow> string" where
  "unknown_result name available =
     (let choices = (if str_join '', '' available \<noteq> [] then str_join '', '' available else ''(none)'')
      in ''Error: unknown tool '' @ [CHR 0x27] @ name @ [CHR 0x27] @ '' is not available. Available tools: ''
         @ choices @ ''. Call one of these instead.'')"

definition timeout_result :: "string \<Rightarrow> string \<Rightarrow> string" where
  "timeout_result name elapsed =
     ''Error: tool '' @ [CHR 0x27] @ name @ [CHR 0x27] @ '' timed out after '' @ elapsed @ ''s''"

definition failure_result :: "string \<Rightarrow> string \<Rightarrow> string" where
  "failure_result exc_type exc_text = ''Error: '' @ exc_type @ '': '' @ exc_text"

definition interrupted_result :: string where
  "interrupted_result = ''[interrupted] Waiting for sub-agent reports was cancelled because ''
     @ ''a new user message arrived.''"

text \<open>The hooks, with the answer they give or \<open>None\<close> when they raise (type and text of the exception for the transform).\<close>

record ToolExecutionHooks =
  hk_transform_result :: "string \<Rightarrow> string \<Rightarrow> (string \<times> string) + string"
  hk_error_kind :: "string \<Rightarrow> pyval pydict \<Rightarrow> string \<Rightarrow> string option"
  hk_unknown_result :: "string \<Rightarrow> string list \<Rightarrow> string option"
  hk_timeout_result :: "string \<Rightarrow> string \<Rightarrow> string option"
  hk_failure_result :: "string \<Rightarrow> string \<times> string \<Rightarrow> string option"
  hk_interrupted_result :: "string \<Rightarrow> (string \<times> string) + pyval"
  hk_transform_batch :: "ToolResult list \<Rightarrow> ToolResult list option"

definition default_hooks :: ToolExecutionHooks where
  "default_hooks = \<lparr>hk_transform_result = (\<lambda>n v. Inr (identity_result v)),
     hk_error_kind = (\<lambda>n a r. Some []), hk_unknown_result = (\<lambda>n av. Some (unknown_result n av)),
     hk_timeout_result = (\<lambda>n e. Some (timeout_result n e)),
     hk_failure_result = (\<lambda>n e. Some (failure_result (fst e) (snd e))),
     hk_interrupted_result = (\<lambda>n. Inr (PyStr interrupted_result)), hk_transform_batch = Some\<rparr>"

text \<open>\<open>_safe_hook\<close>\<close>

definition safe_hook :: "'a option \<Rightarrow> 'a \<Rightarrow> 'a" where
  "safe_hook answer fallback = (case answer of None \<Rightarrow> fallback | Some v \<Rightarrow> v)"

text \<open>How one invocation went: its value, a timeout after some time, an exception, or an interrupt
  that woke a waiting fan-in tool.\<close>

datatype invocation =
    Returned pyval
  | TimedOut string
  | Raised string string
  | Interrupted

definition call_args :: "tool_call \<Rightarrow> pyval pydict" where
  "call_args c = (case get_or_none c ''args'' of PyDict d \<Rightarrow> d | _ \<Rightarrow> [])"

definition result_id :: "(pyval \<Rightarrow> string) \<Rightarrow> int \<Rightarrow> int \<Rightarrow> tool_call \<Rightarrow> string" where
  "result_id str_of turn number c =
     (if truthy (call_id c) then py_format str_of (call_id c)
      else ''call_'' @ str_of_int turn @ ''_'' @ str_of_int number)"

definition result_name :: "(pyval \<Rightarrow> string) \<Rightarrow> tool_call \<Rightarrow> string" where
  "result_name str_of c =
     (let v = get_or_none c ''name'' in if truthy v then py_format str_of v else [])"

definition error_result :: "string \<Rightarrow> pyval pydict \<Rightarrow> string \<Rightarrow> string \<Rightarrow> string \<Rightarrow> ToolResult" where
  "error_result name args body rid kind =
     \<lparr>tr_name = name, tr_args = args, tr_result = body, tr_tool_call_id = rid, tr_is_error = True,
      tr_interrupted = False, tr_error_kind = kind, tr_images = []\<rparr>"

definition completed_result ::
  "(pyval \<Rightarrow> string) \<Rightarrow> (pyval \<Rightarrow> (string \<times> pyval pydict list) option) \<Rightarrow> ToolExecutionHooks \<Rightarrow>
   string \<Rightarrow> pyval pydict \<Rightarrow> string \<Rightarrow> bool \<Rightarrow> (string \<times> string) + pyval \<Rightarrow> ToolResult" where
  "completed_result str_of parse hooks name args rid woke raw =
     (let failed = (\<lambda>e. error_result name args
            (safe_hook (hk_failure_result hooks name e) (failure_result (fst e) (snd e))) rid ''exception'')
      in case raw of
           Inl e \<Rightarrow> failed e
         | Inr v \<Rightarrow>
             let (raw_text, images) = (case parse v of
                     Some p \<Rightarrow> p
                   | None \<Rightarrow> (if v = PyNone then [] else py_format str_of v, []))
             in case hk_transform_result hooks name raw_text of
                  Inl e \<Rightarrow> failed e
                | Inr body \<Rightarrow>
                    let kind = safe_hook (hk_error_kind hooks name args body) []
                    in \<lparr>tr_name = name, tr_args = args, tr_result = body, tr_tool_call_id = rid,
                        tr_is_error = (kind \<noteq> []), tr_interrupted = woke, tr_error_kind = kind,
                        tr_images = images\<rparr>)"

definition run_one ::
  "(pyval \<Rightarrow> string) \<Rightarrow> (pyval \<Rightarrow> (string \<times> pyval pydict list) option) \<Rightarrow> ToolExecutionHooks \<Rightarrow>
   string list \<Rightarrow> string list \<Rightarrow> int \<Rightarrow> int \<Rightarrow> (tool_call \<Rightarrow> invocation) \<Rightarrow> tool_call \<Rightarrow> ToolResult" where
  "run_one str_of parse hooks tool_map sorted_names turn number invoke c =
     (let name = result_name str_of c; args = call_args c; rid = result_id str_of turn number c
      in if name \<notin> set tool_map
         then error_result name args (safe_hook (hk_unknown_result hooks name sorted_names)
                (unknown_result name sorted_names)) rid []
         else
           case invoke c of
             TimedOut elapsed \<Rightarrow>
               error_result name args (safe_hook (hk_timeout_result hooks name elapsed)
                 (timeout_result name elapsed)) rid ''timeout''
           | Raised exc_type exc_text \<Rightarrow>
               completed_result str_of parse hooks name args rid False (Inl (exc_type, exc_text))
           | Returned v \<Rightarrow> completed_result str_of parse hooks name args rid False (Inr v)
           | Interrupted \<Rightarrow>
               completed_result str_of parse hooks name args rid True (hk_interrupted_result hooks name))"

definition execute_tools ::
  "(pyval \<Rightarrow> string) \<Rightarrow> (pyval \<Rightarrow> (string \<times> pyval pydict list) option) \<Rightarrow> ToolExecutionHooks \<Rightarrow>
   string list \<Rightarrow> string list \<Rightarrow> int \<Rightarrow> int \<Rightarrow> (tool_call \<Rightarrow> invocation) \<Rightarrow> tool_call list \<Rightarrow> ToolResult list" where
  "execute_tools str_of parse hooks tool_map sorted_names turn count_offset invoke calls =
     (let results = map (\<lambda>(index, c).
            run_one str_of parse hooks tool_map sorted_names turn (count_offset + int index) invoke c)
          (List.enumerate 0 calls)
      in safe_hook (hk_transform_batch hooks results) results)"

section \<open>Every outcome is a result\<close>

lemma completed_result_id: "tr_tool_call_id (completed_result str_of parse hooks name args rid woke raw) = rid"
  by (auto simp: completed_result_def error_result_def Let_def split: sum.splits option.splits prod.splits)

lemma run_one_id:
  "tr_tool_call_id (run_one str_of parse hooks tool_map sorted_names turn number invoke c) =
     result_id str_of turn number c"
  by (simp add: run_one_def error_result_def Let_def completed_result_id split: invocation.splits)

text \<open>A batch hook may rewrite results, but has to keep their calls.\<close>

definition batch_hook_ok :: "ToolExecutionHooks \<Rightarrow> bool" where
  "batch_hook_ok hooks =
     (\<forall>rs rs'. hk_transform_batch hooks rs = Some rs' \<longrightarrow> map tr_tool_call_id rs' = map tr_tool_call_id rs)"

lemma execute_tools_ids:
  assumes "batch_hook_ok hooks"
  shows "map tr_tool_call_id
      (execute_tools str_of parse hooks tool_map sorted_names turn count_offset invoke calls) =
    map (\<lambda>(index, c). result_id str_of turn (count_offset + int index) c) (List.enumerate 0 calls)"
proof -
  let ?rs = "map (\<lambda>(index, c). run_one str_of parse hooks tool_map sorted_names turn (count_offset + int index) invoke c)
      (List.enumerate 0 calls)"
  have "map tr_tool_call_id (execute_tools str_of parse hooks tool_map sorted_names turn count_offset invoke calls) =
      map tr_tool_call_id ?rs"
    using assms by (auto simp: execute_tools_def safe_hook_def batch_hook_ok_def Let_def split: option.splits)
  then show ?thesis by (simp add: comp_def case_prod_beta run_one_id)
qed

lemma default_hooks_ok: "batch_hook_ok default_hooks"
  by (simp add: batch_hook_ok_def default_hooks_def)

section \<open>Properties\<close>



end
