(* ===== verification/Agent_Loop.thy ===== *)
theory Agent_Loop
  imports Image_Attach Tool_Exec Runaway "HOL-Library.Char_ord" "HOL-Library.List_Lexorder"
begin

text \<open>
  The ReAct loop of \<^verbatim>\<open>runtime/loop/agent_loop.py\<close>: one function per stage of a turn
  (\<open>prepare_llm_request\<close>, \<open>call_llm_with_callbacks\<close>, \<open>process_llm_response\<close>, \<open>execute_tool_calls\<close>,
  \<open>handle_context_overflow\<close>, \<open>handle_turn_end\<close>, \<open>finalize_loop\<close>), composed by \<open>loop_turn\<close> and
  iterated by \<open>run_loop_inner\<close>.

  What a run is given from outside is in two records.  \<open>loop_host\<close> holds what is fixed for a run:
  token estimators, hooks, the profile of the model.  \<open>turn_input\<close> holds what one turn meets: the
  reply of the model, the history message and the calls its parsers make of that reply, the
  answers of the observers and the values they write into the shared metadata, and the outcomes
  of the tools.  Timing and call identities, which are only reported, are left out of the metadata.
\<close>

definition EXTRA_ATTEMPTS_BUFFER :: int where
  "EXTRA_ATTEMPTS_BUFFER = 200"

section \<open>State\<close>

record BoundLLM =
  bd_tools :: "string list"
  bd_temperature :: pyval

record loop_state =
  al_messages :: "message list"
  al_metadata :: "pyval pydict"
  al_tools :: "string list"
  al_turn :: int
  al_attempts :: int
  al_total_tool_calls :: int
  al_no_tool_retries :: int
  al_truncation_continuations :: int
  al_runaway_recoveries :: int
  al_truncated_text_parts :: "string list"
  al_last_input_tokens :: int
  al_last_output_tokens :: int
  al_requests :: "(BoundLLM \<times> message list) list"
  al_checkpoints :: "(int \<times> message list \<times> pyval pydict) list"

record loop_host =
  lh_str_of :: "pyval \<Rightarrow> string"
  lh_parse_content :: "pyval \<Rightarrow> (string \<times> pyval pydict list) option"
  lh_hooks :: ToolExecutionHooks
  lh_price :: "pyval pydict \<Rightarrow> int"
  lh_profile :: ImageProfile
  lh_max_images :: int
  lh_estimate_message :: "message \<Rightarrow> int"
  lh_estimate_text :: "string \<Rightarrow> int"
  lh_estimate :: "message list \<Rightarrow> int"
  lh_has_spill :: "string \<Rightarrow> bool"
  lh_recovery_note :: "message list \<Rightarrow> message option"
  lh_persists :: bool

datatype llm_outcome =
    Completed LLMResponse
  | NoResponse
  | CallExhausted string string

record turn_input =
  ti_tools :: "(string list \<times> string list option) option"
  ti_before_llm :: "Intervention list"
  ti_before_meta :: "pyval pydict \<Rightarrow> pyval pydict"
  ti_addendum :: "string option"
  ti_llm :: llm_outcome
  ti_chain_fallback :: bool
  ti_thinking :: string
  ti_visible :: string
  ti_tag_format :: bool
  ti_history_msg :: message
  ti_parse :: "string list \<Rightarrow> tool_call list"
  ti_parse_text :: "string list \<Rightarrow> tool_call list"
  ti_rnd :: string
  ti_llm_response :: "Intervention list"
  ti_response_meta :: "pyval pydict \<Rightarrow> pyval pydict"
  ti_tool_call :: "tool_call \<Rightarrow> ToolCallIntervention option list"
  ti_invalid :: "string \<Rightarrow> (string \<times> pyval) option"
  ti_invoke :: "tool_call \<Rightarrow> invocation"
  ti_render :: "ToolResult \<Rightarrow> ToolResult \<times> string \<times> pyval pydict"
  ti_wait_interrupted :: "Intervention list"
  ti_turn_end :: "Intervention list"
  ti_turn_end_meta :: "pyval pydict \<Rightarrow> pyval pydict"
  ti_should_compact :: bool
  ti_compact :: "message list \<Rightarrow> message list"
  ti_persist_ok :: bool
  ti_pause :: bool

section \<open>Preparing the request\<close>

definition inject :: "Intervention \<Rightarrow> message list" where
  "inject iv = map user_msg (injected iv)"

text \<open>The per-turn rebinding of the tools.\<close>

definition resolve_tools :: "turn_input \<Rightarrow> loop_state \<Rightarrow> loop_state" where
  "resolve_tools ti st =
     (case ti_tools ti of
        None \<Rightarrow> st
      | Some (names, visible) \<Rightarrow>
          st\<lparr>al_tools := remdups names,
             al_metadata := (case visible of
                None \<Rightarrow> al_metadata st
              | Some vs \<Rightarrow> AList.update ''_llm_allowed_tools'' (PyList (map PyStr (sort vs))) (al_metadata st))\<rparr>)"

definition allowed_names :: "loop_host \<Rightarrow> loop_state \<Rightarrow> string list option" where
  "allowed_names h st =
     (case get_or_none (al_metadata st) ''_llm_allowed_tools'' of
        PyList vs \<Rightarrow> Some (sort (remdups (filter (\<lambda>n. n \<in> set (al_tools st)) (map (py_format (lh_str_of h)) vs))))
      | _ \<Rightarrow> None)"

definition addendum_msg :: "LoopConfig \<Rightarrow> string \<Rightarrow> message" where
  "addendum_msg cfg text =
     AList.update ''transient'' (PyBool True)
       ((if str_lower (str_strip (lc_system_addendum_per_call_role cfg)) = ''user'' then user_msg else system_msg) text)"

record request =
  rq_llm :: BoundLLM
  rq_messages :: "message list"
  rq_strip_tools :: bool
  rq_allowed :: "string list option"
  rq_stop :: string

definition prepare_llm_request ::
  "loop_host \<Rightarrow> LoopConfig \<Rightarrow> turn_input \<Rightarrow> loop_state \<Rightarrow> loop_state \<times> request" where
  "prepare_llm_request h cfg ti st =
     (let meta = al_metadata st;
          temp = get_or_none meta ''_llm_temp_override'';
          strip = dict_get_default meta ''_llm_strip_tools'' (PyBool False);
          meta1 = AList.update ''_llm_tools_stripped'' strip
                    (AList.delete ''_llm_strip_tools'' (AList.delete ''_llm_temp_override'' meta));
          allowed = allowed_names h st;
          tools = (if truthy strip then [] else case allowed of Some ns \<Rightarrow> ns | None \<Rightarrow> al_tools st);
          merged = merge_interventions (ti_before_llm ti);
          messages = al_messages st @ inject merged;
          text = (case ti_addendum ti of None \<Rightarrow> lc_system_addendum_per_call cfg | Some s \<Rightarrow> s);
          for_call = (if lc_system_addendum_per_call cfg \<noteq> [] \<and> lc_system_addendum_min_turn cfg < al_turn st \<and> text \<noteq> []
                      then messages @ [addendum_msg cfg text] else messages)
      in (st\<lparr>al_messages := messages,
             al_metadata := AList.update ''_input_token_estimate'' (PyInt (lh_estimate h for_call)) (ti_before_meta ti meta1)\<rparr>,
          \<lparr>rq_llm = \<lparr>bd_tools = tools, bd_temperature = temp\<rparr>, rq_messages = for_call, rq_strip_tools = truthy strip,
           rq_allowed = allowed, rq_stop = reason_of merged\<rparr>))"

section \<open>Calling the model\<close>

datatype call_result =
    Raises string
  | Stops string loop_state
  | Replies LLMResponse loop_state

definition call_llm_with_callbacks ::
  "turn_input \<Rightarrow> request \<Rightarrow> loop_state \<Rightarrow> call_result" where
  "call_llm_with_callbacks ti rq st0 =
     (let st = st0\<lparr>al_requests := al_requests st0 @ [(rq_llm rq, rq_messages rq)]\<rparr>;
          failed = (\<lambda>reason detail. st\<lparr>al_metadata := AList.update ''llm_error_reason'' (PyStr reason)
                      (AList.update ''llm_error'' (PyStr detail) (al_metadata st))\<rparr>)
      in case ti_llm ti of
           Completed r \<Rightarrow> Replies r st
         | NoResponse \<Rightarrow>
             Stops ''llm_error'' (if map_of (al_metadata st) ''llm_error'' \<noteq> None then st
               else st\<lparr>al_metadata := AList.update ''llm_error'' (PyStr ''LLM returned no response'') (al_metadata st)\<rparr>)
         | CallExhausted reason detail \<Rightarrow>
             if reason = ''empty_completion'' then Stops ''empty_completion'' (failed reason detail)
             else if reason = ''wall_deadline'' then Stops ''wall_deadline'' st
             else if al_turn st = 1 \<and> ti_chain_fallback ti then Raises detail
             else Stops ''llm_error'' (failed reason detail))"

section \<open>Processing the reply\<close>

text \<open>\<open>metadata.setdefault(key, [])\<close>, extended when it is a list.\<close>

definition extend_list :: "string \<Rightarrow> pyval list \<Rightarrow> pyval pydict \<Rightarrow> pyval pydict" where
  "extend_list key vs meta =
     (case map_of meta key of
        None \<Rightarrow> AList.update key (PyList vs) meta
      | Some (PyList ws) \<Rightarrow> AList.update key (PyList (ws @ vs)) meta
      | Some other \<Rightarrow> meta)"

definition response_native_ids :: "LLMResponse \<Rightarrow> pyval list" where
  "response_native_ids r = filter truthy (map call_id (dicts_of (ll_tool_calls r)))"

text \<open>Calls outside a set of names are taken out, recorded, and answered when they are native.\<close>

definition block_calls ::
  "(pyval \<Rightarrow> string) \<Rightarrow> string \<Rightarrow> string \<Rightarrow> string list \<Rightarrow> LLMResponse \<Rightarrow> tool_call list \<Rightarrow>
   message list \<Rightarrow> pyval pydict \<Rightarrow> tool_call list \<times> tool_call list \<times> message list \<times> pyval pydict" where
  "block_calls str_of key note names response parsed messages meta =
     (let allowed = filter (\<lambda>c. result_name str_of c \<in> set names) parsed;
          blocked = filter (\<lambda>c. result_name str_of c \<notin> set names) parsed;
          recorded = map (\<lambda>c. PyStr (let n = result_name str_of c in if n = [] then ''unknown'' else n)) blocked;
          answered = filter (\<lambda>c. truthy (call_id c) \<and> call_id c \<in> set (response_native_ids response)) blocked
      in if blocked = [] then (allowed, [], messages, meta)
         else (allowed, blocked, messages @ map (\<lambda>c. tool_reply note (call_id c)) answered,
               extend_list key recorded meta))"

definition delivery_note :: "string list \<Rightarrow> string" where
  "delivery_note allowed = ''[tool call blocked] Delivery mode permits only: '' @ str_join '', '' allowed
     @ ''. Save and validate required artifacts now.''"

definition landing_note :: string where
  "landing_note = ''[tool call blocked] final turn accepts only workflow-approved landing tools; report current progress.''"

definition cap_note :: "int \<Rightarrow> string" where
  "cap_note cap = ''[tool call skipped] exceeded the per-turn tool-call cap of '' @ str_of_int cap
     @ ''; re-issue it in a later turn if still needed.''"

definition landing_names :: "LoopConfig \<Rightarrow> string list \<Rightarrow> string list" where
  "landing_names cfg tool_names =
     filter (\<lambda>n. n \<in> set tool_names)
       (case lp_landing_tool_names (lc_loop_policy cfg) of
          Some ns \<Rightarrow> ns | None \<Rightarrow> lp_terminal_tool_names (lc_loop_policy cfg))"

definition cap_calls :: "int \<Rightarrow> tool_call list \<Rightarrow> message list \<Rightarrow> tool_call list \<times> message list" where
  "cap_calls cap parsed messages =
     (if 0 < cap \<and> cap < int (length parsed)
      then (take (nat cap) parsed,
            messages @ map (\<lambda>c. tool_reply (cap_note cap) (call_id c))
              (filter (\<lambda>c. truthy (call_id c)) (drop (nat cap) parsed)))
      else (parsed, messages))"

record processed =
  pr_parsed :: "tool_call list"
  pr_response :: LLMResponse
  pr_ai_text :: string
  pr_stop :: string
  pr_continue :: bool
  pr_skip :: bool

text \<open>The calls the turn may dispatch, those it blocks, and the history and metadata after the blocking.\<close>

definition select_calls ::
  "loop_host \<Rightarrow> LoopConfig \<Rightarrow> request \<Rightarrow> LLMResponse \<Rightarrow> string list \<Rightarrow> tool_call list \<Rightarrow> message list \<Rightarrow>
   pyval pydict \<Rightarrow> tool_call list \<times> tool_call list \<times> message list \<times> pyval pydict" where
  "select_calls h cfg rq response tool_names parsed messages meta =
     (let (parsed2, blocked, messages2, meta2) =
            (case rq_allowed rq of
               Some names \<Rightarrow>
                 if \<not> rq_strip_tools rq \<and> parsed \<noteq> []
                 then block_calls (lh_str_of h) ''blocked_delivery_tool_calls'' (delivery_note names) names
                        response parsed messages meta
                 else (parsed, [], messages, meta)
             | None \<Rightarrow> (parsed, [], messages, meta));
          (parsed3, blocked3, messages3, meta3) =
            (if rq_strip_tools rq \<and> parsed2 \<noteq> []
             then block_calls (lh_str_of h) ''blocked_final_turn_tool_calls'' landing_note (landing_names cfg tool_names)
                    response parsed2 messages2 meta2
             else (parsed2, blocked, messages2, meta2));
          (parsed4, messages4) = cap_calls (lc_max_tool_calls_per_turn cfg) parsed3 messages3
      in (parsed4, blocked3, messages4, meta3))"

definition copy_key :: "string \<Rightarrow> string \<Rightarrow> pyval pydict \<Rightarrow> pyval pydict \<Rightarrow> pyval pydict" where
  "copy_key source target rmd meta =
     (case map_of rmd source of None \<Rightarrow> AList.delete target meta | Some v \<Rightarrow> AList.update target v (AList.delete target meta))"

definition restarted_detail :: string where
  "restarted_detail = ''the turn was restarted before this call ran; re-issue it if still needed.''"

text \<open>What the observers of the response make of the history.\<close>

definition apply_response_interventions ::
  "Intervention \<Rightarrow> message list \<Rightarrow> message list" where
  "apply_response_interventions merged messages =
     (let ms = (if iv_pop_last_message merged then snd (pop_last_assistant_turn messages) else messages);
          ms = ms @ inject merged
      in if iv_continue_to_next_turn merged then answer_unexecuted_tool_calls ms restarted_detail else ms)"

definition process_llm_response ::
  "loop_host \<Rightarrow> LoopConfig \<Rightarrow> turn_input \<Rightarrow> request \<Rightarrow> LLMResponse \<Rightarrow> loop_state \<Rightarrow> loop_state \<times> processed" where
  "process_llm_response h cfg ti rq response0 st =
     (let rmd = ll_response_metadata response0;
          history = ti_history_msg ti;
          messages0 = (if truthy (get_or_none rmd ''thinking_history_reset'')
                       then reset_signed_thinking_history (al_messages st) else al_messages st);
          messages1 = messages0 @ [history];
          response = (if ti_thinking ti \<noteq> [] \<and> ti_tag_format ti
                      then response0\<lparr>ll_content := PyStr (ti_visible ti)\<rparr> else response0);
          names = (if rq_strip_tools rq then al_tools st
                   else case rq_allowed rq of None \<Rightarrow> al_tools st | Some ns \<Rightarrow> ns);
          parsed0 = (let p = ti_parse ti names in
                     if p = [] \<and> ti_thinking ti \<noteq> [] then ti_parse_text ti names else p);
          parsed1 = assign_unique_tool_call_ids (ti_rnd ti) parsed0 history (al_turn st);
          (parsed, blocked, messages2, meta2) =
            select_calls h cfg rq response (al_tools st) parsed1 messages1 (al_metadata st);
          messages3 = answer_dropped_tool_calls (lh_str_of h) messages2 history parsed (al_tools st);
          usage = extract_usage (lh_str_of h) response;
          (inp, out) = (case usage of
                          None \<Rightarrow> (al_last_input_tokens st, al_last_output_tokens st)
                        | Some u \<Rightarrow>
                            if us_prompt_tokens u \<noteq> 0 \<or> us_completion_tokens u \<noteq> 0
                            then (us_prompt_tokens u, us_completion_tokens u)
                            else (al_last_input_tokens st, al_last_output_tokens st));
          meta3 = AList.update ''finish_reason'' (PyStr (ll_finish_reason response))
                    (copy_key ''model_actually_used'' ''llm_model_actually_used'' rmd
                      (copy_key ''fallback_used'' ''llm_fallback_used'' rmd meta2));
          ai_text = (case ll_content response of PyStr s \<Rightarrow> s | _ \<Rightarrow> ti_visible ti);
          merged = merge_interventions (ti_llm_response ti);
          stop = reason_of merged
      in (st\<lparr>al_messages := apply_response_interventions merged messages3,
             al_metadata := ti_response_meta ti meta3,
             al_last_input_tokens := inp, al_last_output_tokens := out\<rparr>,
          \<lparr>pr_parsed = parsed, pr_response = response, pr_ai_text = ai_text,
           pr_stop = (if \<not> iv_continue_to_next_turn merged \<and> stop = [] \<and> blocked \<noteq> [] \<and> parsed = []
                      then ''max_turns'' else stop),
           pr_continue = iv_continue_to_next_turn merged,
           pr_skip = iv_skip_tool_execution merged\<rparr>))"

text \<open>\<open>response_rejection_reason\<close> (\<^verbatim>\<open>completion.py\<close>) of a native response.\<close>

definition response_rejection_reason :: "LLMResponse \<Rightarrow> string" where
  "response_rejection_reason r =
     (let rmd = ll_response_metadata r;
          details = (case get_or_none rmd ''stop_details'' of PyDict d \<Rightarrow> d | _ \<Rightarrow> []);
          refused_block = (case ll_content r of
             PyList bs \<Rightarrow> list_ex (\<lambda>d. get_or_none d ''type'' = PyStr ''refusal'') (dicts_of bs) | _ \<Rightarrow> False);
          reason = str_lower (str_strip (ll_finish_reason r));
          stop = (case get_or_none rmd ''stop_reason'' of PyStr s \<Rightarrow> str_lower (str_strip s) | _ \<Rightarrow> [])
      in if truthy (get_or_none rmd ''refusal'') \<or> get_or_none details ''type'' = PyStr ''refusal'' then ''refusal''
         else if refused_block then ''refusal''
         else if reason \<in> {''refusal'', ''content_filter''} then reason
         else if stop \<in> {''refusal'', ''content_filter''} then stop
         else [])"

section \<open>Executing the calls\<close>

definition invalid_body :: "string \<Rightarrow> string" where
  "invalid_body reason = ''[invalid tool call] '' @ reason @ ''; re-issue the call with valid arguments.''"

text \<open>What is done with one call: it is executed, or answered without execution.\<close>

definition dispatch_one ::
  "loop_host \<Rightarrow> turn_input \<Rightarrow> int \<Rightarrow> int \<Rightarrow> nat \<Rightarrow> tool_call \<Rightarrow> pyval pydict \<Rightarrow> (tool_call + ToolResult) \<times> pyval pydict" where
  "dispatch_one h ti turn total_calls idx c0 meta =
     (let str_of = lh_str_of h;
          c1 = (if truthy (call_id c0) then c0
                else AList.update ''id'' (PyStr (''call_'' @ str_of_int turn @ ''_'' @ str_of_int (total_calls + int idx))) c0);
          tcv = notify_tool_call (ti_tool_call ti c1);
          meta1 = (case tv_metadata_updates tcv of None \<Rightarrow> meta | Some u \<Rightarrow> dict_update meta u);
          c = (case tv_rewrite_args tcv of None \<Rightarrow> c1 | Some a \<Rightarrow> AList.update ''args'' (PyDict a) c1);
          rid = py_format str_of (call_id c);
          reason = (if tv_rewrite_args tcv \<noteq> None then None else ti_invalid ti rid)
      in case reason of
           Some (why, raw) \<Rightarrow>
             (Inr (error_result (result_name str_of c) (call_args c) (invalid_body why) rid ''invalid_arguments''),
              extend_list ''invalid_tool_calls''
                [PyDict [(''id'', call_id c), (''name'', get_or_none c ''name''),
                         (''raw_arguments'', raw), (''reason'', PyStr why)]] meta1)
         | None \<Rightarrow>
             (case tv_skip_with_result tcv of
                Some body \<Rightarrow>
                  Inr \<lparr>tr_name = result_name str_of c, tr_args = call_args c, tr_result = body,
                       tr_tool_call_id = rid, tr_is_error = False, tr_interrupted = False,
                       tr_error_kind = [], tr_images = []\<rparr>
              | None \<Rightarrow> Inl c, meta1))"

text \<open>The dispatch loop: the calls to execute, the answers without execution, and the metadata.\<close>

fun dispatch_calls ::
  "loop_host \<Rightarrow> turn_input \<Rightarrow> int \<Rightarrow> int \<Rightarrow> (nat \<times> tool_call) list \<Rightarrow> pyval pydict \<Rightarrow>
   (nat \<times> tool_call) list \<times> (nat \<times> ToolResult) list \<times> pyval pydict" where
  "dispatch_calls h ti turn total_calls [] meta = ([], [], meta)"
| "dispatch_calls h ti turn total_calls ((idx, c) # cs) meta =
     (let (decision, meta1) = dispatch_one h ti turn total_calls idx c meta;
          (executable, synthetic, meta2) = dispatch_calls h ti turn total_calls cs meta1
      in case decision of
           Inl c' \<Rightarrow> ((idx, c') # executable, synthetic, meta2)
         | Inr r \<Rightarrow> (executable, (idx, r) # synthetic, meta2))"

text \<open>The slots of the batch in the order of the calls; unfilled ones are dropped.\<close>

definition order_results ::
  "nat \<Rightarrow> (nat \<times> tool_call) list \<Rightarrow> ToolResult list \<Rightarrow> (nat \<times> ToolResult) list \<Rightarrow> ToolResult list" where
  "order_results n executable executed synthetic =
     List.map_filter
       (\<lambda>i. case map_of synthetic i of
               Some r \<Rightarrow> Some r | None \<Rightarrow> map_of (zip (map fst executable) executed) i) [0..<n]"

definition with_recovery_handle ::
  "loop_host \<Rightarrow> string \<Rightarrow> ToolResult \<Rightarrow> int \<Rightarrow> bool \<Rightarrow> string" where
  "with_recovery_handle h body r turn enabled =
     (if \<not> enabled then body
      else if length (tr_result r) \<le> length body then body
      else if tr_tool_call_id r = [] then body
      else if lh_has_spill h body then body
      else body @ ''\<newline>\<newline>['' @ with_commas (length (tr_result r) - length body)
           @ '' more chars were cut here. Use the recover_result tool (a tool call, not a shell command) with turn ''
           @ str_of_int turn @ '' and call id '' @ tr_tool_call_id r @ ''.]'')"

text \<open>\<open>_default_render_tool_result\<close>: the observers' hooks, then the processor.\<close>

definition default_render ::
  "(ToolResult \<Rightarrow> ToolResult option) list \<Rightarrow> int option \<Rightarrow> ToolResult \<Rightarrow> ToolResult \<times> string \<times> pyval pydict" where
  "default_render hooks cap r = (let observed = notify_tool_result hooks r in (observed, post_process cap observed, []))"

definition effective_tool_result_cap :: "LoopConfig \<Rightarrow> int option option \<Rightarrow> int option" where
  "effective_tool_result_cap cfg policy_cap =
     (case lc_tool_result_max_chars cfg of
        Some c \<Rightarrow> Some c
      | None \<Rightarrow> (case policy_cap of
                   Some (Some c) \<Rightarrow> if 0 < c then Some c else None | _ \<Rightarrow> None))"

definition result_message :: "loop_host \<Rightarrow> turn_input \<Rightarrow> loop_state \<Rightarrow> ToolResult \<Rightarrow> message" where
  "result_message h ti st r0 =
     (let (r, body, message_metadata) = ti_render ti r0
      in attach_images (lh_str_of h) (lh_price h) (lh_profile h)
           (dict_update
             (tool_reply (with_recovery_handle h body r (al_turn st) (''recover_result'' \<in> set (al_tools st)))
               (PyStr (tr_tool_call_id r)))
             message_metadata)
           (tr_images r))"

definition execute_tool_calls ::
  "loop_host \<Rightarrow> turn_input \<Rightarrow> tool_call list \<Rightarrow> loop_state \<Rightarrow> loop_state \<times> string" where
  "execute_tool_calls h ti parsed st =
     (let (executable, synthetic, meta) =
            dispatch_calls h ti (al_turn st) (al_total_tool_calls st) (List.enumerate 0 parsed) (al_metadata st);
          executed = (if executable = [] then []
                      else execute_tools (lh_str_of h) (lh_parse_content h) (lh_hooks h) (al_tools st)
                             (sort (al_tools st)) (al_turn st) (al_total_tool_calls st) (ti_invoke ti)
                             (map snd executable));
          results = order_results (length parsed) executable executed synthetic;
          messages1 = al_messages st @ map (result_message h ti st) results;
          messages2 = evict_old_images (lh_str_of h) messages1 (lh_max_images h);
          woken = list_ex tr_interrupted results;
          merged = (if woken then merge_interventions (ti_wait_interrupted ti) else no_intervention)
      in (st\<lparr>al_messages := messages2 @ inject merged, al_metadata := meta,
             al_total_tool_calls := al_total_tool_calls st + int (length parsed)\<rparr>, reason_of merged))"

section \<open>The end of a turn\<close>

definition trailing_tools :: "message list \<Rightarrow> message list" where
  "trailing_tools ms = rev (takeWhile is_tool_msg (rev ms))"

definition estimated_total :: "loop_host \<Rightarrow> LoopConfig \<Rightarrow> loop_state \<Rightarrow> int" where
  "estimated_total h cfg st =
     al_last_input_tokens st + al_last_output_tokens st
     + sum_list (map (\<lambda>m. lh_estimate_message h m * 3 div 2) (trailing_tools (al_messages st)))
     + lh_estimate_text h (lc_summary_prompt cfg) * 3 div 2 + lc_max_completion_tokens cfg + 1000"

definition handle_context_overflow ::
  "loop_host \<Rightarrow> LoopConfig \<Rightarrow> loop_state \<Rightarrow> loop_state \<times> string" where
  "handle_context_overflow h cfg st =
     (if \<not> lc_context_overflow_guard cfg \<or> al_messages st = [] then (st, [])
      else if lc_max_context_length cfg \<le> estimated_total h cfg st
      then (st\<lparr>al_messages := overflow_pop (al_messages st)
                @ (case lh_recovery_note h (trailing_tools (al_messages st)) of None \<Rightarrow> [] | Some n \<Rightarrow> [n])\<rparr>,
            ''context_limit_reached'')
      else (st, []))"

definition handle_turn_end ::
  "loop_host \<Rightarrow> turn_input \<Rightarrow> loop_state \<Rightarrow> loop_state \<times> string \<times> bool" where
  "handle_turn_end h ti st0 =
     (let st = st0\<lparr>al_metadata := ti_turn_end_meta ti (al_metadata st0)\<rparr>;
          merged = merge_interventions (ti_turn_end ti)
      in if reason_of merged \<noteq> []
         then (st\<lparr>al_messages := al_messages st @ inject merged\<rparr>, reason_of merged, False)
         else
           let messages1 = (if iv_pop_last_message merged then snd (pop_last_assistant_turn (al_messages st))
                            else al_messages st) @ inject merged
           in if iv_continue_to_next_turn merged then (st\<lparr>al_messages := messages1\<rparr>, [], True)
              else
                let forced = truthy (dict_get_default (al_metadata st) ''_force_compaction'' (PyBool False));
                    meta1 = AList.delete ''_force_compaction'' (al_metadata st);
                    compacts = (forced \<or> ti_should_compact ti);
                    seq = (case py_int (get_or_none meta1 ''_compaction_seq'') of None \<Rightarrow> 0 | Some i \<Rightarrow> i);
                    st1 = (if compacts
                           then st\<lparr>al_messages := ti_compact ti messages1,
                                   al_metadata := AList.update ''_compaction_seq'' (PyInt (seq + 1)) meta1\<rparr>
                           else st\<lparr>al_messages := messages1, al_metadata := meta1\<rparr>);
                    st2 = (if lh_persists h \<and> ti_persist_ok ti
                           then st1\<lparr>al_checkpoints := al_checkpoints st1 @ [(al_turn st1, al_messages st1, al_metadata st1)]\<rparr>
                           else st1)
                in if ti_pause ti then (st2, ''paused'', False) else (st2, [], False))"

definition build_no_tool_nudge :: "LoopPolicy \<Rightarrow> string" where
  "build_no_tool_nudge policy =
     (if str_strip (lp_no_tool_nudge_message policy) \<noteq> [] then str_strip (lp_no_tool_nudge_message policy)
      else
        let terminals = str_join '', '' (map (\<lambda>n. [CHR 0x60] @ n @ [CHR 0x60]) (lp_terminal_tool_names policy));
            hint = (if lp_terminal_tool_names policy = []
                    then ''If your workflow defines a terminal action, use it now. ''
                    else if length (lp_terminal_tool_names policy) = 1
                    then ''If you are done, call '' @ terminals @ ''. ''
                    else ''If you are done, call one of the terminal tools: '' @ terminals @ ''. '')
        in ''This loop requires a structured tool call to continue. '' @ hint
           @ ''Otherwise, call an appropriate tool instead of replying in plain text.'')"

definition finalize_loop :: "loop_host \<Rightarrow> string \<Rightarrow> loop_state \<Rightarrow> AgentLoopResult" where
  "finalize_loop h stop_reason st =
     (let latched = get_or_none (al_metadata st) ''final_answer'';
          continued = dict_get_default (al_metadata st) ''_truncation_final_content'' (PyStr []);
          meta = AList.delete ''_truncation_final_content'' (al_metadata st);
          content = (case latched of
                       PyStr s \<Rightarrow> if str_strip s \<noteq> [] then Some s else None | _ \<Rightarrow> None);
          content2 = (case continued of
                       PyStr s \<Rightarrow> if str_strip s \<noteq> [] then Some s else None | _ \<Rightarrow> None)
      in \<lparr>rs_messages = al_messages st,
          rs_final_content = (case content of Some s \<Rightarrow> s | None \<Rightarrow>
             (case content2 of Some s \<Rightarrow> s | None \<Rightarrow> extract_final_content (lh_str_of h) (al_messages st))),
          rs_turns_used = al_turn st, rs_tool_calls_count = al_total_tool_calls st,
          rs_stopped_by = stop_reason, rs_metadata = meta\<rparr>)"

section \<open>The loop\<close>

definition rejected_detail :: string where
  "rejected_detail = ''the provider rejected this turn; this tool call was not executed.''"

definition suppressed_detail :: string where
  "suppressed_detail = ''tool execution was suppressed for this turn; re-issue it if still needed.''"

definition TRUNCATION_CONTINUATION_GUIDANCE :: string where
  "TRUNCATION_CONTINUATION_GUIDANCE = ''[system reminder] Your previous reply hit the output token limit and was ''
     @ ''cut off mid-sentence. The partial text is above. Continue from exactly ''
     @ ''where it stopped - do not repeat what you already wrote, and do not start ''
     @ ''over. Be brief and reach a tool call or a complete answer this time.''"

definition RUNAWAY_LOOP_RECOVERY_GUIDANCE :: string where
  "RUNAWAY_LOOP_RECOVERY_GUIDANCE = ''[system reminder] Your last several replies spent the entire output budget ''
     @ ''on private reasoning and produced no visible text or tool call. Do not ''
     @ ''try to reconstruct large amounts of external data (prices, listings, ''
     @ ''constituents, product catalogues) from memory. Act now: either make one ''
     @ ''tool call that advances the task, or write the deliverable with what you ''
     @ ''can support and clearly mark what could not be verified.''"

text \<open>A turn ends the loop with a reason, or the loop goes on.\<close>

datatype turn_flow = BreakLoop string | NextTurn

definition set_final_parts :: "string list \<Rightarrow> loop_state \<Rightarrow> loop_state" where
  "set_final_parts parts st =
     st\<lparr>al_metadata := AList.update ''_truncation_final_content'' (PyStr (concat parts)) (al_metadata st)\<rparr>"

text \<open>The reply was cut off by the output cap after some visible text.\<close>

definition handle_truncation :: "LoopConfig \<Rightarrow> processed \<Rightarrow> loop_state \<Rightarrow> loop_state \<times> turn_flow" where
  "handle_truncation cfg pr st =
     (let st1 = st\<lparr>al_truncation_continuations := al_truncation_continuations st + 1,
                   al_truncated_text_parts := al_truncated_text_parts st @ [pr_ai_text pr]\<rparr>
      in if al_truncation_continuations st1 \<le> lc_truncation_max_continuations cfg
         then (st1\<lparr>al_messages := al_messages st1 @ [user_msg TRUNCATION_CONTINUATION_GUIDANCE],
                   al_turn := al_turn st1 - 1\<rparr>, NextTurn)
         else (set_final_parts (al_truncated_text_parts st1) st1, BreakLoop ''response_truncated''))"

text \<open>The reply was nothing but reasoning.\<close>

definition handle_runaway :: "LoopConfig \<Rightarrow> loop_state \<Rightarrow> loop_state \<times> turn_flow" where
  "handle_runaway cfg st =
     (let st1 = st\<lparr>al_runaway_recoveries := al_runaway_recoveries st + 1\<rparr>
      in if al_runaway_recoveries st1 \<le> lc_runaway_max_loop_recoveries cfg
         then (st1\<lparr>al_messages := al_messages st1 @ [user_msg RUNAWAY_LOOP_RECOVERY_GUIDANCE],
                   al_turn := al_turn st1 - 1\<rparr>, NextTurn)
         else (st1, BreakLoop ''reasoning_runaway''))"

text \<open>The reply is plain text.\<close>

definition handle_no_tool :: "LoopConfig \<Rightarrow> processed \<Rightarrow> loop_state \<Rightarrow> loop_state \<times> turn_flow" where
  "handle_no_tool cfg pr st =
     (let st1 = st\<lparr>al_no_tool_retries := al_no_tool_retries st + 1\<rparr>;
          stops = (lp_no_tool_behavior (lc_loop_policy cfg) \<noteq> ''nudge''
                   \<or> lc_no_tool_max_retries cfg \<le> al_no_tool_retries st1);
          parts = al_truncated_text_parts st1;
          st2 = (if parts = [] then st1
                 else (if stops then set_final_parts (parts @ [pr_ai_text pr]) st1 else st1)\<lparr>al_truncated_text_parts := []\<rparr>)
      in if stops then (st2, BreakLoop ''no_tool'')
         else (st2\<lparr>al_messages := al_messages st2 @ [user_msg (build_no_tool_nudge (lc_loop_policy cfg))]\<rparr>, NextTurn))"

text \<open>The reply has calls to dispatch: execution, the overflow guard, the end of the turn.\<close>

definition handle_calls ::
  "loop_host \<Rightarrow> LoopConfig \<Rightarrow> turn_input \<Rightarrow> processed \<Rightarrow> loop_state \<Rightarrow> loop_state \<times> turn_flow" where
  "handle_calls h cfg ti pr st0 =
     (let st = st0\<lparr>al_no_tool_retries := 0, al_truncation_continuations := 0, al_runaway_recoveries := 0,
                   al_truncated_text_parts := []\<rparr>;
          (st1, stop1) = (if pr_skip pr
             then (st\<lparr>al_messages := answer_unexecuted_tool_calls (al_messages st) suppressed_detail\<rparr>, [])
             else execute_tool_calls h ti (pr_parsed pr) st)
      in if stop1 \<noteq> [] then (st1, BreakLoop stop1)
         else
           let (st2, stop2) = handle_context_overflow h cfg st1 in
           if stop2 \<noteq> [] then (st2, BreakLoop stop2)
           else
             let (st3, stop3, again) = handle_turn_end h ti st2 in
             if stop3 \<noteq> [] then (st3, BreakLoop stop3)
             else if again then (st3\<lparr>al_turn := al_turn st3 - 1\<rparr>, NextTurn)
             else (st3, NextTurn))"

definition after_response ::
  "loop_host \<Rightarrow> LoopConfig \<Rightarrow> turn_input \<Rightarrow> processed \<Rightarrow> loop_state \<Rightarrow> loop_state \<times> turn_flow" where
  "after_response h cfg ti pr st =
     (let response = pr_response pr in
      if pr_stop pr \<noteq> [] then (st, BreakLoop (pr_stop pr))
      else if pr_continue pr then (st\<lparr>al_turn := al_turn st - 1\<rparr>, NextTurn)
      else if response_rejection_reason response \<noteq> []
      then (st\<lparr>al_messages := answer_unexecuted_tool_calls (al_messages st) rejected_detail\<rparr>,
            BreakLoop (response_rejection_reason response))
      else if pr_parsed pr = [] \<and> is_truncated_with_text (lh_str_of h) (Some response)
      then handle_truncation cfg pr st
      else if pr_parsed pr = [] \<and> is_runaway_response (lh_str_of h) (Some response)
      then handle_runaway cfg st
      else if pr_parsed pr = [] then handle_no_tool cfg pr st
      else handle_calls h cfg ti pr st)"

definition loop_turn ::
  "loop_host \<Rightarrow> LoopConfig \<Rightarrow> turn_input \<Rightarrow> loop_state \<Rightarrow> string + loop_state \<times> turn_flow" where
  "loop_turn h cfg ti st0 =
     (let st1 = resolve_tools ti (st0\<lparr>al_turn := al_turn st0 + 1, al_attempts := al_attempts st0 + 1\<rparr>);
          (st2, rq) = prepare_llm_request h cfg ti st1
      in if rq_stop rq \<noteq> [] then Inr (st2, BreakLoop (rq_stop rq))
         else
           case call_llm_with_callbacks ti rq st2 of
             Raises e \<Rightarrow> Inl e
           | Stops reason st3 \<Rightarrow> Inr (st3, BreakLoop reason)
           | Replies response st3 \<Rightarrow>
               let (st4, pr) = process_llm_response h cfg ti rq response st3
               in Inr (after_response h cfg ti pr st4))"

subsection \<open>Termination\<close>

text \<open>The counters of the loop, which only \<open>loop_turn\<close> and the retry branches move, and the trace of requests.\<close>

definition clock :: "loop_state \<Rightarrow> int \<times> int \<times> (BoundLLM \<times> message list) list" where
  "clock st = (al_turn st, al_attempts st, al_requests st)"

lemma clock_resolve: "clock (resolve_tools ti st) = clock st"
  by (simp add: clock_def resolve_tools_def split: option.splits)

lemma clock_prepare: "clock (fst (prepare_llm_request h cfg ti st)) = clock st"
  by (simp add: clock_def prepare_llm_request_def Let_def)

lemma clock_process: "clock (fst (process_llm_response h cfg ti rq response st)) = clock st"
  by (simp add: clock_def process_llm_response_def Let_def case_prod_beta)

lemma clock_execute: "clock (fst (execute_tool_calls h ti parsed st)) = clock st"
  by (simp add: clock_def execute_tool_calls_def Let_def case_prod_beta)

lemma clock_overflow: "clock (fst (handle_context_overflow h cfg st)) = clock st"
  by (simp add: clock_def handle_context_overflow_def)

lemma clock_turn_end: "clock (fst (handle_turn_end h ti st)) = clock st"
  by (simp add: clock_def handle_turn_end_def Let_def)

lemma clock_call:
  "call_llm_with_callbacks ti rq st = Replies r st' \<Longrightarrow> clock st' = (al_turn st, al_attempts st, al_requests st @ [(rq_llm rq, rq_messages rq)])"
  "call_llm_with_callbacks ti rq st = Stops reason st' \<Longrightarrow>
     clock st' = (al_turn st, al_attempts st, al_requests st @ [(rq_llm rq, rq_messages rq)]) \<and> reason \<noteq> []"
  by (auto simp: call_llm_with_callbacks_def clock_def Let_def split: llm_outcome.splits if_splits)

text \<open>After a turn: it may have been given back, and a loop that ends has a reason.\<close>

definition clock_after :: "loop_state \<Rightarrow> loop_state \<times> turn_flow \<Rightarrow> bool" where
  "clock_after st res =
     (case res of (st', flow) \<Rightarrow>
        al_attempts st' = al_attempts st \<and> al_requests st' = al_requests st
        \<and> (case flow of NextTurn \<Rightarrow> al_turn st' = al_turn st \<or> al_turn st' = al_turn st - 1
           | BreakLoop r \<Rightarrow> r \<noteq> [] \<and> al_turn st' = al_turn st))"

lemma handle_calls_clock: "clock_after st (handle_calls h cfg ti pr st)"
proof -
  define s0 where "s0 = st\<lparr>al_no_tool_retries := 0, al_truncation_continuations := 0, al_runaway_recoveries := 0,
      al_truncated_text_parts := []\<rparr>"
  obtain st1 stop1 where e: "(if pr_skip pr
      then (s0\<lparr>al_messages := answer_unexecuted_tool_calls (al_messages s0) suppressed_detail\<rparr>, [])
      else execute_tool_calls h ti (pr_parsed pr) s0) = (st1, stop1)" by fastforce
  obtain st2 stop2 where o: "handle_context_overflow h cfg st1 = (st2, stop2)" by fastforce
  obtain st3 stop3 again where t: "handle_turn_end h ti st2 = (st3, stop3, again)" by (metis prod_cases3)
  have c1: "clock st1 = clock st"
  proof (cases "pr_skip pr")
    case True
    with e show ?thesis by (auto simp: clock_def s0_def)
  next
    case False
    with e clock_execute [of h ti "pr_parsed pr" s0] show ?thesis by (simp add: clock_def s0_def)
  qed
  have c2: "clock st2 = clock st" using clock_overflow [of h cfg st1] o c1 by simp
  have c3: "clock st3 = clock st" using clock_turn_end [of h ti st2] t c2 by simp
  show ?thesis
    using c1 c2 c3
    by (simp add: handle_calls_def Let_def s0_def [symmetric] e o t clock_after_def clock_def)
qed

lemma after_response_clock: "clock_after st (after_response h cfg ti pr st)"
  using handle_calls_clock [of st h cfg ti pr]
  by (auto simp: after_response_def clock_after_def handle_truncation_def handle_runaway_def handle_no_tool_def
      set_final_parts_def Let_def)

lemma loop_turn_clock:
  assumes "loop_turn h cfg ti st = Inr (st', flow)"
  shows "al_attempts st' = al_attempts st + 1" "length (al_requests st') \<le> Suc (length (al_requests st))"
    "al_turn st' = al_turn st + 1 \<or> (al_turn st' = al_turn st \<and> flow = NextTurn)" "flow \<noteq> BreakLoop []"
proof -
  let ?s = "st\<lparr>al_turn := al_turn st + 1, al_attempts := al_attempts st + 1\<rparr>"
  obtain st2 rq where p: "prepare_llm_request h cfg ti (resolve_tools ti ?s) = (st2, rq)" by fastforce
  have c2: "clock st2 = (al_turn st + 1, al_attempts st + 1, al_requests st)"
    using clock_prepare [of h cfg ti "resolve_tools ti ?s"] clock_resolve [of ti ?s] p by (simp add: clock_def)
  have "al_attempts st' = al_attempts st + 1 \<and> length (al_requests st') \<le> Suc (length (al_requests st))
    \<and> (al_turn st' = al_turn st + 1 \<or> (al_turn st' = al_turn st \<and> flow = NextTurn)) \<and> flow \<noteq> BreakLoop []"
  proof (cases "rq_stop rq \<noteq> []")
    case True
    with assms p c2 show ?thesis by (auto simp: loop_turn_def clock_def)
  next
    case False
    show ?thesis
    proof (cases "call_llm_with_callbacks ti rq st2")
      case (Raises e)
      with False assms p show ?thesis by (simp add: loop_turn_def)
    next
      case (Stops reason st3)
      with False assms p c2 clock_call(2) [OF Stops] show ?thesis by (auto simp: loop_turn_def clock_def)
    next
      case (Replies response st3)
      obtain st4 pr where pr: "process_llm_response h cfg ti rq response st3 = (st4, pr)" by fastforce
      have c4: "clock st4 = (al_turn st + 1, al_attempts st + 1, al_requests st @ [(rq_llm rq, rq_messages rq)])"
        using clock_process [of h cfg ti rq response st3] clock_call(1) [OF Replies] pr c2 by (simp add: clock_def)
      from False assms p Replies pr have "after_response h cfg ti pr st4 = (st', flow)" by (simp add: loop_turn_def)
      with after_response_clock [of st4 h cfg ti pr] c4 show ?thesis
        by (auto simp: clock_after_def clock_def split: turn_flow.splits)
    qed
  qed
  then show "al_attempts st' = al_attempts st + 1" "length (al_requests st') \<le> Suc (length (al_requests st))"
    "al_turn st' = al_turn st + 1 \<or> (al_turn st' = al_turn st \<and> flow = NextTurn)" "flow \<noteq> BreakLoop []" by auto
qed

text \<open>The loop; \<open>env\<close> gives the input of each attempt.\<close>

definition max_attempts :: "LoopConfig \<Rightarrow> int" where
  "max_attempts cfg = lc_max_turns cfg + EXTRA_ATTEMPTS_BUFFER"

function run_loop ::
  "loop_host \<Rightarrow> LoopConfig \<Rightarrow> (int \<Rightarrow> turn_input) \<Rightarrow> loop_state \<Rightarrow> string + loop_state \<times> string" where
  "run_loop h cfg env st =
     (if al_turn st < lc_max_turns cfg \<and> al_attempts st < max_attempts cfg
      then (case loop_turn h cfg (env (al_attempts st)) st of
              Inl e \<Rightarrow> Inl e
            | Inr (st', BreakLoop reason) \<Rightarrow> Inr (st', reason)
            | Inr (st', NextTurn) \<Rightarrow> run_loop h cfg env st')
      else Inr (st, if max_attempts cfg \<le> al_attempts st \<and> al_turn st < lc_max_turns cfg
                    then ''max_attempts'' else ''max_turns''))"
  by pat_completeness auto
termination
  by (relation "measure (\<lambda>(h, cfg, env, st). nat (max_attempts cfg - al_attempts st))")
     (auto dest!: loop_turn_clock(1))

declare run_loop.simps [simp del]

definition start_state ::
  "LoopConfig \<Rightarrow> string \<Rightarrow> string \<Rightarrow> message list option \<Rightarrow> string list \<Rightarrow> loop_state" where
  "start_state cfg system_prompt user_message initial_messages tools =
     \<lparr>al_messages = (case initial_messages of
        Some ms \<Rightarrow> ms @ (if user_message \<noteq> [] then [user_msg user_message] else [])
      | None \<Rightarrow> [system_msg system_prompt, user_msg user_message]),
      al_metadata = [(''role_id'', PyStr (lc_role_id cfg))], al_tools = remdups tools, al_turn = 0, al_attempts = 0,
      al_total_tool_calls = 0, al_no_tool_retries = 0, al_truncation_continuations = 0, al_runaway_recoveries = 0,
      al_truncated_text_parts = [], al_last_input_tokens = 0, al_last_output_tokens = 0, al_requests = [],
      al_checkpoints = []\<rparr>"

text \<open>A run: its result, together with the final state, whose trace says what was sent and persisted.\<close>

definition run_agent_loop ::
  "loop_host \<Rightarrow> LoopConfig \<Rightarrow> (int \<Rightarrow> turn_input) \<Rightarrow> string \<Rightarrow> string \<Rightarrow> message list option \<Rightarrow> string list \<Rightarrow>
   string + AgentLoopResult \<times> loop_state" where
  "run_agent_loop h cfg env system_prompt user_message initial_messages tools =
     (case run_loop h cfg env (start_state cfg system_prompt user_message initial_messages tools) of
        Inl e \<Rightarrow> Inl e
      | Inr (st, reason) \<Rightarrow> Inr (finalize_loop h reason st, st))"

lemma run_loop_bounds:
  assumes "run_loop h cfg env st = Inr (st', reason)" and "al_turn st \<le> max 0 (lc_max_turns cfg)"
    and "0 \<le> al_turn st" and "int (length (al_requests st)) \<le> al_attempts st"
    and "al_attempts st \<le> max 0 (max_attempts cfg)"
  shows "reason \<noteq> [] \<and> 0 \<le> al_turn st' \<and> al_turn st' \<le> max 0 (lc_max_turns cfg)
    \<and> int (length (al_requests st')) \<le> max 0 (max_attempts cfg)"
  using assms
proof (induction h cfg env st rule: run_loop.induct)
  case (1 h cfg env st)
  show ?case
  proof (cases "al_turn st < lc_max_turns cfg \<and> al_attempts st < max_attempts cfg")
    case False
    with "1.prems" show ?thesis by (auto simp: run_loop.simps [of h cfg env st] split: if_splits)
  next
    case True
    with "1.prems"(1) obtain s flow where turn: "loop_turn h cfg (env (al_attempts st)) st = Inr (s, flow)"
      by (auto simp: run_loop.simps [of h cfg env st] split: sum.splits)
    note c = loop_turn_clock [OF turn]
    have b: "al_turn s \<le> max 0 (lc_max_turns cfg)" "0 \<le> al_turn s" "int (length (al_requests s)) \<le> al_attempts s"
      "al_attempts s \<le> max 0 (max_attempts cfg)"
      using c True "1.prems" by auto
    show ?thesis
    proof (cases flow)
      case (BreakLoop r)
      with True turn "1.prems"(1) c(4) b show ?thesis
        by (auto simp: run_loop.simps [of h cfg env st])
    next
      case NextTurn
      with True turn "1.prems"(1) have "run_loop h cfg env s = Inr (st', reason)"
        by (simp add: run_loop.simps [of h cfg env st])
      with "1.IH" [OF True turn refl NextTurn] b show ?thesis by simp
    qed
  qed
qed

end
