(* ===== verification/Loop_Inv.thy ===== *)
theory Loop_Inv
  imports Agent_Loop
begin

text \<open>
  The invariant of the loop: between turns the history is acceptable to a provider, and so was
  every request sent.  \<open>turn_ok\<close> collects what is assumed of a turn's input: the model's call ids
  are fresh strings, hooks and the compactor keep the pairing of calls and answers, and an
  observer that injects messages or rolls back a reply also skips its calls or restarts the turn.
\<close>

section \<open>An assistant turn whose calls are being answered\<close>

definition open_turn :: "message list \<Rightarrow> pyval set \<Rightarrow> bool" where
  "open_turn ms ids =
     (\<exists>pre a tools. ms = pre @ a # tools \<and> wire_ok pre \<and> is_assistant_msg a \<and> (\<forall>m \<in> set tools. is_tool_msg m)
        \<and> set (native_ids a) \<subseteq> set (answered_ids tools) \<union> ids)"

lemma open_turn_close:
  assumes "open_turn ms ids" and "\<forall>m \<in> set rest. is_tool_msg m" and "ids \<subseteq> set (answered_ids rest)"
  shows "wire_ok (ms @ rest)"
proof -
  from assms(1) obtain pre a tools where o: "ms = pre @ a # tools" "wire_ok pre" "is_assistant_msg a"
    "\<forall>m \<in> set tools. is_tool_msg m" "set (native_ids a) \<subseteq> set (answered_ids tools) \<union> ids"
    by (auto simp: open_turn_def)
  have "wire_ok (a # tools @ rest)"
    using o(3-5) assms(2,3) by (intro wire_ok_turn) auto
  with o(1,2) show ?thesis using wire_ok_append by fastforce
qed

lemma open_turn_but_last:
  assumes "open_turn ms ids"
  shows "wire_ok_but_last (ms @ map user_msg ts)"
proof -
  from assms obtain pre a tools where o: "ms = pre @ a # tools" "wire_ok pre" "is_assistant_msg a"
    "\<forall>m \<in> set tools. is_tool_msg m" by (auto simp: open_turn_def)
  have "split_last_assistant (pre @ a # tools @ map user_msg ts) = Some (pre, a, tools @ map user_msg ts)"
    using o(3,4) by (intro split_last_assistant_eq) auto
  moreover have "placed_from True (tools @ map user_msg ts)"
    using placed_tools [OF o(4)] placed_no_tools [of "map user_msg ts"] by (simp add: placed_append)
  ultimately show ?thesis
    using o assistant_not_tool [OF o(3)] by (simp add: wire_ok_but_last_def wire_ok_def placed_append)
qed

lemma wire_ok_inject: "wire_ok ms \<Longrightarrow> wire_ok (ms @ inject iv)"
  by (simp add: inject_def wire_ok_append)

lemma wire_ok_user: "wire_ok ms \<Longrightarrow> wire_ok (ms @ [user_msg t])"
  using wire_ok_append [OF _ wire_ok_users [of "[t]"]] by simp

section \<open>What a turn relies on\<close>

definition keeps_result :: "turn_input \<Rightarrow> bool" where
  "keeps_result ti =
     (\<forall>r. tr_tool_call_id (fst (ti_render ti r)) = tr_tool_call_id r
        \<and> (\<forall>k \<in> {''role'', ''tool_call_id''}. map_of (snd (snd (ti_render ti r))) k = None))"

definition no_calls :: "turn_input \<Rightarrow> bool" where
  "no_calls ti = (\<forall>names. ti_parse ti names = [] \<and> ti_parse_text ti names = [])"

text \<open>An intervention on the response that changes the history leaves no call to be executed after it.\<close>

definition disciplined :: "turn_input \<Rightarrow> bool" where
  "disciplined ti =
     (let iv = merge_interventions (ti_llm_response ti) in
      injected iv = [] \<and> \<not> iv_pop_last_message iv \<or> iv_continue_to_next_turn iv \<or> iv_skip_tool_execution iv \<or> no_calls ti)"

definition fresh_calls :: "turn_input \<Rightarrow> message list \<Rightarrow> bool" where
  "fresh_calls ti ms =
     (is_assistant_msg (ti_history_msg ti)
      \<and> (\<forall>i \<in> set (native_ids (ti_history_msg ti)). (\<exists>s. i = PyStr s) \<and> i \<notin> set (answered_ids ms)))"

definition reset_ok :: "turn_input \<Rightarrow> message list \<Rightarrow> bool" where
  "reset_ok ti ms =
     (case ti_llm ti of
        Completed r \<Rightarrow>
          truthy (get_or_none (ll_response_metadata r) ''thinking_history_reset'') \<longrightarrow>
          wire_ok (reset_signed_thinking_history ms)
      | _ \<Rightarrow> True)"

definition turn_ok :: "loop_host \<Rightarrow> turn_input \<Rightarrow> message list \<Rightarrow> bool" where
  "turn_ok h ti ms =
     (batch_hook_ok (lh_hooks h) \<and> keeps_result ti \<and> disciplined ti \<and> fresh_calls ti ms \<and> reset_ok ti ms
      \<and> history_rewriter (ti_compact ti))"

section \<open>The stages\<close>

lemma reset_users: "reset_signed_thinking_history (ms @ map user_msg ts) = reset_signed_thinking_history ms @ map user_msg ts"
proof -
  have "reset_signed_message (user_msg t) = Some (user_msg t)" for t
    by (simp add: reset_signed_message_def user_msg_def get_or_none_def)
  then have "List.map_filter reset_signed_message (map user_msg ts) = map user_msg ts"
    by (induction ts) simp_all
  then show ?thesis by (simp add: reset_signed_thinking_history_def map_filter_def)
qed

lemma reset_role: "reset_signed_message m = Some m' \<Longrightarrow> map_of m' ''role'' = map_of m ''role''"
  by (cases "get_or_none m ''content''") (auto simp: reset_signed_message_def Let_def split: if_splits)

lemma reset_tool: "is_tool_msg m \<Longrightarrow> reset_signed_message m = Some m"
  by (cases "get_or_none m ''content''") (simp_all add: reset_signed_message_def is_tool_msg_def)

lemma reset_answers: "set (answered_ids (reset_signed_thinking_history ms)) \<subseteq> set (answered_ids ms)"
proof (induction ms)
  case (Cons m ms)
  have r: "reset_signed_thinking_history (m # ms) =
      (case reset_signed_message m of None \<Rightarrow> reset_signed_thinking_history ms
       | Some m' \<Rightarrow> m' # reset_signed_thinking_history ms)"
    by (simp add: reset_signed_thinking_history_def cong: option.case_cong)
  show ?case
  proof (cases "is_tool_msg m")
    case True
    with Cons r show ?thesis by (simp add: reset_tool) blast
  next
    case False
    then have "\<not> is_tool_msg m'" if "reset_signed_message m = Some m'" for m'
      using reset_role [OF that] by (simp add: is_tool_msg_def get_or_none_def)
    with Cons False r show ?thesis by (cases "reset_signed_message m") simp_all
  qed
qed (simp add: reset_signed_thinking_history_def)

text \<open>Parsed calls carry a string id.\<close>

definition string_id :: "tool_call \<Rightarrow> bool" where
  "string_id c = (\<exists>s. call_id c = PyStr s \<and> s \<noteq> [])"

lemma assign_ids:
  assumes "\<forall>i \<in> set (native_ids hist). \<exists>s. i = PyStr s"
  shows "\<forall>c \<in> set (assign_unique_tool_call_ids rnd parsed hist turn). string_id c"
proof -
  have native: "string_id c" if "call_id c \<in> set (native_ids hist)" for c
  proof -
    from that assms obtain s where "call_id c = PyStr s" by blast
    moreover have "truthy (call_id c)" using that by (simp add: native_ids_def)
    ultimately show ?thesis by (simp add: string_id_def)
  qed
  have "string_id (AList.update ''id'' (fresh_id turn n rnd) c)" for n c
    by (simp add: string_id_def call_id_def get_or_none_def fresh_id_def)
  with native show ?thesis
    by (auto simp: assign_unique_tool_call_ids_def Let_def list_all_iff)
qed

definition tool_extension :: "message list \<Rightarrow> message list \<Rightarrow> bool" where
  "tool_extension ms ms' = (\<exists>ts. ms' = ms @ ts \<and> (\<forall>m \<in> set ts. is_tool_msg m))"

lemma tool_extension_trans: "tool_extension a b \<Longrightarrow> tool_extension b c \<Longrightarrow> tool_extension a c"
  by (auto simp: tool_extension_def)

lemma tool_extension_refl [simp]: "tool_extension a a"
  by (simp add: tool_extension_def)

lemma block_calls_shape:
  assumes "block_calls str_of key note names response parsed messages meta = (p, b, ms, m)"
  shows "set p \<subseteq> set parsed" "tool_extension messages ms"
  using assms by (auto simp: block_calls_def Let_def tool_extension_def split: if_splits)

lemma cap_calls_shape:
  assumes "cap_calls cap parsed messages = (p, ms)"
  shows "set p \<subseteq> set parsed" "tool_extension messages ms"
  using assms by (auto simp: cap_calls_def tool_extension_def split: if_splits dest: in_set_takeD)

lemma select_calls_shape:
  assumes "select_calls h cfg rq response tool_names parsed messages meta = (p, b, ms, m)"
  shows "set p \<subseteq> set parsed" "tool_extension messages ms"
proof -
  obtain p2 b2 ms2 m2 where s2: "(case rq_allowed rq of
               Some names \<Rightarrow>
                 if \<not> rq_strip_tools rq \<and> parsed \<noteq> []
                 then block_calls (lh_str_of h) ''blocked_delivery_tool_calls'' (delivery_note names) names
                        response parsed messages meta
                 else (parsed, [], messages, meta)
             | None \<Rightarrow> (parsed, [], messages, meta)) = (p2, b2, ms2, m2)" by (rule prod_cases4)
  obtain p3 b3 ms3 m3 where s3: "(if rq_strip_tools rq \<and> p2 \<noteq> []
             then block_calls (lh_str_of h) ''blocked_final_turn_tool_calls'' landing_note (landing_names cfg tool_names)
                    response p2 ms2 m2
             else (p2, b2, ms2, m2)) = (p3, b3, ms3, m3)" by (rule prod_cases4)
  obtain p4 ms4 where s4: "cap_calls (lc_max_tool_calls_per_turn cfg) p3 ms3 = (p4, ms4)" by fastforce
  from assms s2 s3 s4 have r: "p = p4" "ms = ms4" by (simp_all add: select_calls_def)
  have "set p2 \<subseteq> set parsed \<and> tool_extension messages ms2"
    using s2 block_calls_shape by (fastforce split: option.splits if_splits)
  moreover have "set p3 \<subseteq> set p2 \<and> tool_extension ms2 ms3"
    using s3 block_calls_shape by (fastforce split: if_splits)
  moreover have "set p4 \<subseteq> set p3 \<and> tool_extension ms3 ms4" using cap_calls_shape [OF s4] by blast
  ultimately show "set p \<subseteq> set parsed" "tool_extension messages ms"
    unfolding r using tool_extension_trans by blast+
qed

subsection \<open>The reply\<close>

lemma answered_opens:
  assumes "wire_ok pre" and "is_assistant_msg hist" and "tool_extension (pre @ [hist]) ms"
    and "set (native_ids hist) \<inter> set (answered_ids pre) = {}"
  shows "open_turn (answer_dropped_tool_calls str_of ms hist parsed names) (set (map call_id parsed))"
proof -
  from assms(3) obtain ts where ts: "ms = pre @ hist # ts" "\<forall>m \<in> set ts. is_tool_msg m"
    by (auto simp: tool_extension_def)
  from answer_dropped_shape [of str_of ms hist parsed names] obtain replies where
    rep: "answer_dropped_tool_calls str_of ms hist parsed names = ms @ replies" "\<forall>m \<in> set replies. is_tool_msg m"
      "set (answered_ids replies) = set (native_ids hist) - set (answered_ids ms) - set (map call_id parsed)" by blast
  have "set (native_ids hist) \<subseteq> set (answered_ids (ts @ replies)) \<union> set (map call_id parsed)"
    using rep(3) ts(1) assms(4) assistant_not_tool [OF assms(2)] by auto
  moreover have "answer_dropped_tool_calls str_of ms hist parsed names = pre @ hist # (ts @ replies)"
    using rep(1) ts(1) by simp
  moreover have "\<forall>m \<in> set (ts @ replies). is_tool_msg m" using ts(2) rep(2) by auto
  ultimately show ?thesis unfolding open_turn_def using assms(1,2) by blast
qed

lemma apply_interventions_cases:
  assumes "open_turn ms ids"
  shows "iv_continue_to_next_turn iv \<Longrightarrow> wire_ok (apply_response_interventions iv ms)"
    and "ids = {} \<Longrightarrow> wire_ok (apply_response_interventions iv ms)"
    and "\<not> iv_continue_to_next_turn iv \<Longrightarrow> wire_ok_but_last (apply_response_interventions iv ms)"
    and "\<not> iv_continue_to_next_turn iv \<Longrightarrow> injected iv = [] \<Longrightarrow> \<not> iv_pop_last_message iv \<Longrightarrow>
      apply_response_interventions iv ms = ms"
proof -
  have bl: "wire_ok_but_last ms" using open_turn_but_last [OF assms, of "[]"] by simp
  let ?ms = "(if iv_pop_last_message iv then snd (pop_last_assistant_turn ms) else ms) @ inject iv"
  have but_last: "wire_ok_but_last ?ms"
    using rollback.repairs [OF bl] open_turn_but_last [OF assms] wire_ok_inject wire_ok_but_lastI
    by (auto simp: inject_def)
  show "wire_ok (apply_response_interventions iv ms)" if "iv_continue_to_next_turn iv"
    using unexecuted.repairs [OF but_last] that by (simp add: apply_response_interventions_def Let_def)
  show "wire_ok_but_last (apply_response_interventions iv ms)" if "\<not> iv_continue_to_next_turn iv"
    using but_last that by (simp add: apply_response_interventions_def Let_def)
  show "apply_response_interventions iv ms = ms"
    if "\<not> iv_continue_to_next_turn iv" "injected iv = []" "\<not> iv_pop_last_message iv"
    using that by (simp add: apply_response_interventions_def inject_def)
  show "wire_ok (apply_response_interventions iv ms)" if "ids = {}"
  proof -
    have "wire_ok ms" using open_turn_close [OF assms, of "[]"] that by simp
    then have "wire_ok ?ms" using rollback.repairs [OF bl] wire_ok_inject by auto
    then show ?thesis
      using unexecuted.keeps by (simp add: apply_response_interventions_def Let_def)
  qed
qed

lemma process_turn:
  assumes "process_llm_response h cfg ti rq r st = (st', pr)" and "ti_llm ti = Completed r"
    and "al_messages st = ms @ inject iv0" and "wire_ok ms" and "turn_ok h ti ms"
  shows "\<forall>c \<in> set (pr_parsed pr). string_id c"
    and "pr_continue pr \<or> pr_parsed pr = [] \<Longrightarrow> wire_ok (al_messages st')"
    and "\<not> pr_continue pr \<Longrightarrow> pr_skip pr \<Longrightarrow> wire_ok_but_last (al_messages st')"
    and "\<not> pr_continue pr \<Longrightarrow> \<not> pr_skip pr \<Longrightarrow> pr_parsed pr \<noteq> [] \<Longrightarrow>
      open_turn (al_messages st') (set (map call_id (pr_parsed pr)))"
proof -
  define hist where "hist = ti_history_msg ti"
  define iv where "iv = merge_interventions (ti_llm_response ti)"
  define names where "names = (if rq_strip_tools rq then al_tools st
      else case rq_allowed rq of None \<Rightarrow> al_tools st | Some ns \<Rightarrow> ns)"
  define parsed0 where "parsed0 = (if ti_parse ti names = [] \<and> ti_thinking ti \<noteq> [] then ti_parse_text ti names
      else ti_parse ti names)"
  define parsed1 where "parsed1 = assign_unique_tool_call_ids (ti_rnd ti) parsed0 hist (al_turn st)"
  define response where "response = (if ti_thinking ti \<noteq> [] \<and> ti_tag_format ti
      then r\<lparr>ll_content := PyStr (ti_visible ti)\<rparr> else r)"
  define pre where "pre = (if truthy (get_or_none (ll_response_metadata r) ''thinking_history_reset'')
      then reset_signed_thinking_history (al_messages st) else al_messages st)"
  obtain parsed blocked ms2 meta2 where sel: "select_calls h cfg rq response (al_tools st) parsed1 (pre @ [hist])
      (al_metadata st) = (parsed, blocked, ms2, meta2)" by (rule prod_cases4)
  define ms3 where "ms3 = answer_dropped_tool_calls (lh_str_of h) ms2 hist parsed (al_tools st)"
  have st': "al_messages st' = apply_response_interventions iv ms3"
    and pr: "pr_parsed pr = parsed" "pr_continue pr = iv_continue_to_next_turn iv" "pr_skip pr = iv_skip_tool_execution iv"
    using assms(1) sel
    by (auto simp: process_llm_response_def Let_def hist_def [symmetric] names_def [symmetric] pre_def [symmetric]
        parsed0_def [symmetric] parsed1_def [symmetric] response_def [symmetric] ms3_def iv_def case_prod_beta)
  have ok: "fresh_calls ti ms" "reset_ok ti ms" "disciplined ti" using assms(5) by (auto simp: turn_ok_def)
  have pre_ok: "wire_ok pre"
    using ok(2) assms(2-4) wire_ok_inject [of ms iv0] wire_ok_inject [of "reset_signed_thinking_history ms" iv0]
    by (auto simp: pre_def reset_ok_def inject_def reset_users)
  have "set (answered_ids pre) \<subseteq> set (answered_ids ms)"
    using reset_answers [of "al_messages st"] assms(3) by (auto simp: pre_def inject_def answered_ids_def)
  then have fresh: "set (native_ids hist) \<inter> set (answered_ids pre) = {}"
    using ok(1) by (auto simp: fresh_calls_def hist_def)
  have asst: "is_assistant_msg hist" using ok(1) by (simp add: fresh_calls_def hist_def)
  have op: "open_turn ms3 (set (map call_id parsed))"
    unfolding ms3_def by (rule answered_opens [OF pre_ok asst select_calls_shape(2) [OF sel] fresh])
  show ids: "\<forall>c \<in> set (pr_parsed pr). string_id c"
    using assign_ids [of hist "ti_rnd ti" parsed0 "al_turn st"] ok(1) select_calls_shape(1) [OF sel]
    by (auto simp: pr(1) parsed1_def fresh_calls_def hist_def)
  note cases = apply_interventions_cases [OF op, of iv]
  show "wire_ok (al_messages st')" if "pr_continue pr \<or> pr_parsed pr = []"
    using that cases(1,2) by (auto simp: st' pr)
  show "wire_ok_but_last (al_messages st')" if "\<not> pr_continue pr" "pr_skip pr"
    using that cases(3) by (simp add: st' pr)
  show "open_turn (al_messages st') (set (map call_id (pr_parsed pr)))"
    if "\<not> pr_continue pr" "\<not> pr_skip pr" "pr_parsed pr \<noteq> []"
  proof -
    have "parsed0 \<noteq> []"
    proof
      assume "parsed0 = []"
      then have "parsed1 = []" by (simp add: parsed1_def assign_unique_tool_call_ids_def)
      with that(3) select_calls_shape(1) [OF sel] pr(1) show False by simp
    qed
    then have "\<not> no_calls ti" by (auto simp: no_calls_def parsed0_def split: if_splits)
    with ok(3) that pr have "injected iv = []" "\<not> iv_pop_last_message iv"
      by (auto simp: disciplined_def iv_def Let_def)
    with cases(4) that pr op show ?thesis by (simp add: st')
  qed
qed

subsection \<open>Execution\<close>

lemma map_filter_mem: "x \<in> set xs \<Longrightarrow> f x = Some y \<Longrightarrow> y \<in> set (List.map_filter f xs)"
  by (induction xs) (auto split: option.splits)

lemma dict_update_lookup:
  "map_of (dict_update d e) k = (case map_of (rev e) k of Some v \<Rightarrow> Some v | None \<Rightarrow> map_of d k)"
  using pd.lookup_assign_all [of e d k] by (simp add: dict_update_def pd.assign_all_def)

lemma result_message_shape:
  assumes "keeps_result ti"
  shows "is_tool_msg (result_message h ti st r)" "answer_id (result_message h ti st r) = PyStr (tr_tool_call_id r)"
proof -
  obtain r' body mm where e: "ti_render ti r = (r', body, mm)" by (metis prod_cases3)
  have "tr_tool_call_id (fst (ti_render ti r)) = tr_tool_call_id r"
    "map_of (snd (snd (ti_render ti r))) ''role'' = None" "map_of (snd (snd (ti_render ti r))) ''tool_call_id'' = None"
    using assms unfolding keeps_result_def by blast+
  then have k: "tr_tool_call_id r' = tr_tool_call_id r" "map_of (rev mm) ''role'' = None" "map_of (rev mm) ''tool_call_id'' = None"
    by (simp_all add: e map_of_eq_None_iff)
  then show "is_tool_msg (result_message h ti st r)" "answer_id (result_message h ti st r) = PyStr (tr_tool_call_id r)"
    by (simp_all add: result_message_def e is_tool_msg_def answer_id_def get_or_none_def attach_images_keys
        dict_update_lookup tool_reply_def)
qed

lemma dispatch_one_id:
  assumes "string_id c" and "dispatch_one h ti turn n idx c meta = (decision, meta')"
  shows "case decision of Inl c' \<Rightarrow> call_id c' = call_id c | Inr r \<Rightarrow> PyStr (tr_tool_call_id r) = call_id c"
proof -
  obtain s where s: "call_id c = PyStr s" "s \<noteq> []" using assms(1) by (auto simp: string_id_def)
  have u: "call_id (AList.update ''args'' v c) = call_id c" for v by (simp add: call_id_def get_or_none_def)
  from assms(2) show ?thesis
    by (auto simp: dispatch_one_def Let_def s u py_format_def error_result_def split: option.splits)
qed

lemma dispatch_covers:
  assumes "dispatch_calls h ti turn n ics meta = (exe, syn, meta')" and "(i, c) \<in> set ics" and "string_id c"
  shows "(\<exists>c'. (i, c') \<in> set exe \<and> call_id c' = call_id c) \<or> (\<exists>r. (i, r) \<in> set syn \<and> PyStr (tr_tool_call_id r) = call_id c)"
  using assms(1,2)
proof (induction ics arbitrary: meta exe syn meta')
  case (Cons ic ics)
  obtain idx c0 where ic: "ic = (idx, c0)" by fastforce
  obtain d meta1 where d: "dispatch_one h ti turn n idx c0 meta = (d, meta1)" by fastforce
  obtain exe1 syn1 meta2 where r: "dispatch_calls h ti turn n ics meta1 = (exe1, syn1, meta2)" by (rule prod_cases3)
  have res: "exe = (case d of Inl c' \<Rightarrow> (idx, c') # exe1 | Inr rr \<Rightarrow> exe1)"
    "syn = (case d of Inl c' \<Rightarrow> syn1 | Inr rr \<Rightarrow> (idx, rr) # syn1)"
    using Cons.prems(1) by (auto simp: ic d r split: sum.splits)
  show ?case
  proof (cases "(i, c) = (idx, c0)")
    case True
    then have "case d of Inl c' \<Rightarrow> call_id c' = call_id c | Inr r \<Rightarrow> PyStr (tr_tool_call_id r) = call_id c"
      using dispatch_one_id [OF assms(3), of h ti turn n idx meta d meta1] d by simp
    with True res show ?thesis by (cases d) auto
  next
    case False
    then have "(i, c) \<in> set ics" using Cons.prems(2) ic by auto
    from Cons.IH [OF r this] res show ?thesis by (cases d) auto
  qed
qed simp

lemma dispatch_indices:
  assumes "dispatch_calls h ti turn n ics meta = (exe, syn, meta')" and "distinct (map fst ics)"
  shows "fst ` set exe \<union> fst ` set syn \<subseteq> fst ` set ics \<and> distinct (map fst exe) \<and> distinct (map fst syn)
    \<and> fst ` set exe \<inter> fst ` set syn = {}"
  using assms
proof (induction ics arbitrary: meta exe syn meta')
  case (Cons ic ics)
  obtain idx c0 where ic: "ic = (idx, c0)" by fastforce
  obtain d meta1 where d: "dispatch_one h ti turn n idx c0 meta = (d, meta1)" by fastforce
  obtain exe1 syn1 meta2 where r: "dispatch_calls h ti turn n ics meta1 = (exe1, syn1, meta2)" by (rule prod_cases3)
  have res: "exe = (case d of Inl c' \<Rightarrow> (idx, c') # exe1 | Inr rr \<Rightarrow> exe1)"
    "syn = (case d of Inl c' \<Rightarrow> syn1 | Inr rr \<Rightarrow> (idx, rr) # syn1)"
    using Cons.prems(1) by (auto simp: ic d r split: sum.splits)
  from Cons.prems(2) have "idx \<notin> fst ` set ics" "distinct (map fst ics)" by (auto simp: ic)
  with Cons.IH [OF r this(2)] res show ?case by (cases d) (auto simp: ic)
qed simp

text \<open>Every parsed call gets a result under its id.\<close>

lemma execute_answers:
  assumes "batch_hook_ok (lh_hooks h)" and "dispatch_calls h ti turn n (List.enumerate 0 parsed) meta = (exe, syn, meta')"
    and "executed = (if exe = [] then [] else execute_tools (lh_str_of h) (lh_parse_content h) (lh_hooks h) names
       (sort names) turn n (ti_invoke ti) (map snd exe))"
    and "c \<in> set parsed" and "string_id c"
  shows "\<exists>r \<in> set (order_results (length parsed) exe executed syn). PyStr (tr_tool_call_id r) = call_id c"
proof -
  from assms(4) obtain i where i: "i < length parsed" "parsed ! i = c" by (auto simp: in_set_conv_nth)
  then have ic: "(i, c) \<in> set (List.enumerate 0 parsed)" by (auto simp: in_set_enumerate_eq)
  have "distinct (map fst (List.enumerate 0 parsed))" by simp
  note ind = dispatch_indices [OF assms(2) this]
  have len: "length executed = length exe"
    and ids: "map tr_tool_call_id executed = map (\<lambda>(k, x). result_id (lh_str_of h) turn (n + int k) x) (List.enumerate 0 (map snd exe))"
    using execute_tools_ids [OF assms(1), of "lh_str_of h" "lh_parse_content h" names "sort names" turn n "ti_invoke ti" "map snd exe"]
    by (auto simp: assms(3) dest: arg_cong [of _ _ length])
  have "\<exists>r. (case map_of syn i of Some r \<Rightarrow> Some r | None \<Rightarrow> map_of (zip (map fst exe) executed) i) = Some r
      \<and> PyStr (tr_tool_call_id r) = call_id c"
    using dispatch_covers [OF assms(2) ic assms(5)]
  proof
    assume "\<exists>r. (i, r) \<in> set syn \<and> PyStr (tr_tool_call_id r) = call_id c"
    then obtain r where "(i, r) \<in> set syn" "PyStr (tr_tool_call_id r) = call_id c" by blast
    moreover have "map_of syn i = Some r" using calculation ind by (simp add: map_of_is_SomeI)
    ultimately show ?thesis by simp
  next
    assume "\<exists>c'. (i, c') \<in> set exe \<and> call_id c' = call_id c"
    then obtain c' k where k: "k < length exe" "exe ! k = (i, c')" "call_id c' = call_id c"
      by (auto simp: in_set_conv_nth)
    have "i \<in> fst ` set exe" using k by (metis fst_conv imageI nth_mem)
    then have "map_of syn i = None" using ind by (auto simp: map_of_eq_None_iff)
    moreover have "map_of (zip (map fst exe) executed) i = Some (executed ! k)"
    proof (rule map_of_is_SomeI)
      show "distinct (map fst (zip (map fst exe) executed))" using ind len by simp
      have "zip (map fst exe) executed ! k = (i, executed ! k)" "k < length (zip (map fst exe) executed)"
        using k len by simp_all
      then show "(i, executed ! k) \<in> set (zip (map fst exe) executed)" by (metis nth_mem)
    qed
    moreover have "tr_tool_call_id (executed ! k) = result_id (lh_str_of h) turn (n + int k) c'"
      using arg_cong [OF ids, of "\<lambda>xs. xs ! k"] k len by (simp add: nth_enumerate_eq)
    moreover have "PyStr (result_id (lh_str_of h) turn (n + int k) c') = call_id c"
      using k(3) assms(5) by (auto simp: result_id_def string_id_def py_format_def)
    ultimately show ?thesis by simp
  qed
  then obtain r where "(case map_of syn i of Some r \<Rightarrow> Some r | None \<Rightarrow> map_of (zip (map fst exe) executed) i) = Some r"
    "PyStr (tr_tool_call_id r) = call_id c" by blast
  moreover from this i(1) have "r \<in> set (order_results (length parsed) exe executed syn)"
    unfolding order_results_def by (intro map_filter_mem [of i]) auto
  ultimately show ?thesis by blast
qed

lemma execute_keeps:
  assumes "open_turn (al_messages st) (set (map call_id parsed))" and "\<forall>c \<in> set parsed. string_id c"
    and "batch_hook_ok (lh_hooks h)" and "keeps_result ti"
    and "execute_tool_calls h ti parsed st = (st', stop)"
  shows "wire_ok (al_messages st')"
proof -
  obtain exe syn meta where d: "dispatch_calls h ti (al_turn st) (al_total_tool_calls st) (List.enumerate 0 parsed)
      (al_metadata st) = (exe, syn, meta)" by (rule prod_cases3)
  define executed where "executed = (if exe = [] then [] else execute_tools (lh_str_of h) (lh_parse_content h) (lh_hooks h)
      (al_tools st) (sort (al_tools st)) (al_turn st) (al_total_tool_calls st) (ti_invoke ti) (map snd exe))"
  define results where "results = order_results (length parsed) exe executed syn"
  let ?new = "map (result_message h ti st) results"
  have tools: "\<forall>m \<in> set ?new. is_tool_msg m" using result_message_shape(1) [OF assms(4)] by auto
  have "answered_ids ?new = map (\<lambda>r. PyStr (tr_tool_call_id r)) results"
    using result_message_shape [OF assms(4)] by (induction results) auto
  moreover have "\<exists>r \<in> set results. PyStr (tr_tool_call_id r) = call_id c" if "c \<in> set parsed" for c
    using execute_answers [OF assms(3) d executed_def that] assms(2) that by (simp add: results_def)
  ultimately have "call_id c \<in> set (answered_ids ?new)" if "c \<in> set parsed" for c
    using that by (metis (mono_tags, lifting) image_eqI list.set_map)
  then have "set (map call_id parsed) \<subseteq> set (answered_ids ?new)" by auto
  from open_turn_close [OF assms(1) tools this]
  have "wire_ok (evict_old_images (lh_str_of h) (al_messages st @ ?new) (lh_max_images h))" by (rule eviction.keeps)
  with assms(5) show ?thesis
    by (auto simp: execute_tool_calls_def Let_def d executed_def [symmetric] results_def [symmetric] intro!: wire_ok_inject)
qed

subsection \<open>The rest of the turn\<close>

lemma overflow_goes_on:
  "handle_context_overflow h cfg st = (st', []) \<Longrightarrow> st' = st"
  by (auto simp: handle_context_overflow_def split: if_splits)

lemma turn_end_keeps:
  assumes "handle_turn_end h ti st = (st', [], again)" and "wire_ok (al_messages st)" and "history_rewriter (ti_compact ti)"
  shows "wire_ok (al_messages st')"
proof -
  define iv where "iv = merge_interventions (ti_turn_end ti)"
  let ?ms = "(if iv_pop_last_message iv then snd (pop_last_assistant_turn (al_messages st)) else al_messages st) @ inject iv"
  have ok: "wire_ok ?ms" using assms(2) rollback.keeps wire_ok_inject by auto
  then have "wire_ok (ti_compact ti ?ms)" using history_rewriter.keeps [OF assms(3)] by blast
  with ok assms(1) show ?thesis
    by (auto simp: handle_turn_end_def iv_def [symmetric] Let_def split: if_splits)
qed

lemma handle_calls_keeps:
  assumes "handle_calls h cfg ti pr st = (st', NextTurn)"
    and "pr_skip pr \<Longrightarrow> wire_ok_but_last (al_messages st)"
    and "\<not> pr_skip pr \<Longrightarrow> open_turn (al_messages st) (set (map call_id (pr_parsed pr)))"
    and "\<forall>c \<in> set (pr_parsed pr). string_id c" and "turn_ok h ti ms"
  shows "wire_ok (al_messages st')"
proof -
  define s0 where "s0 = st\<lparr>al_no_tool_retries := 0, al_truncation_continuations := 0, al_runaway_recoveries := 0,
      al_truncated_text_parts := []\<rparr>"
  have s0: "al_messages s0 = al_messages st" by (simp add: s0_def)
  obtain st1 stop1 where e: "(if pr_skip pr
      then (s0\<lparr>al_messages := answer_unexecuted_tool_calls (al_messages s0) suppressed_detail\<rparr>, [])
      else execute_tool_calls h ti (pr_parsed pr) s0) = (st1, stop1)" by fastforce
  obtain st2 stop2 where o: "handle_context_overflow h cfg st1 = (st2, stop2)" by fastforce
  obtain st3 stop3 again where t: "handle_turn_end h ti st2 = (st3, stop3, again)" by (rule prod_cases3)
  have ok: "batch_hook_ok (lh_hooks h)" "keeps_result ti" "history_rewriter (ti_compact ti)"
    using assms(5) by (auto simp: turn_ok_def)
  have w1: "wire_ok (al_messages st1)"
  proof (cases "pr_skip pr")
    case True
    with e unexecuted.repairs [OF assms(2), of suppressed_detail] s0 show ?thesis by auto
  next
    case False
    then have "open_turn (al_messages s0) (set (map call_id (pr_parsed pr)))" using assms(3) s0 by simp
    with False e show ?thesis using execute_keeps [OF _ assms(4) ok(1,2)] by simp
  qed
  from assms(1) have go: "stop1 = []" "stop2 = []" "stop3 = []" "al_messages st' = al_messages st3"
    by (auto simp: handle_calls_def Let_def s0_def [symmetric] e o t split: if_splits)
  have "st2 = st1" using overflow_goes_on o go(2) by blast
  with turn_end_keeps [of h ti st2 st3 again] t go w1 ok(3) show ?thesis by simp
qed

lemma after_response_keeps:
  assumes "after_response h cfg ti pr st = (st', NextTurn)"
    and "pr_continue pr \<or> pr_parsed pr = [] \<Longrightarrow> wire_ok (al_messages st)"
    and "\<not> pr_continue pr \<Longrightarrow> pr_skip pr \<Longrightarrow> wire_ok_but_last (al_messages st)"
    and "\<not> pr_continue pr \<Longrightarrow> \<not> pr_skip pr \<Longrightarrow> pr_parsed pr \<noteq> [] \<Longrightarrow>
      open_turn (al_messages st) (set (map call_id (pr_parsed pr)))"
    and "\<forall>c \<in> set (pr_parsed pr). string_id c" and "turn_ok h ti ms"
  shows "wire_ok (al_messages st')"
proof (cases "pr_continue pr \<or> pr_parsed pr = []")
  case True
  then have w: "wire_ok (al_messages st)" by (rule assms(2))
  from True assms(1) w show ?thesis
    by (auto simp: after_response_def handle_truncation_def handle_runaway_def handle_no_tool_def set_final_parts_def
        Let_def wire_ok_user split: if_splits)
next
  case False
  with assms(1) have "handle_calls h cfg ti pr st = (st', NextTurn)"
    by (auto simp: after_response_def Let_def split: if_splits)
  from handle_calls_keeps [OF this _ _ assms(5,6)] False assms(3,4) show ?thesis by blast
qed

section \<open>The invariant\<close>

definition loop_inv :: "loop_state \<Rightarrow> bool" where
  "loop_inv st = (wire_ok (al_messages st) \<and> list_all (\<lambda>(llm, ms). wire_ok ms) (al_requests st))"

lemma request_ok:
  assumes "prepare_llm_request h cfg ti st = (st2, rq)" and "wire_ok (al_messages st)"
  shows "wire_ok (rq_messages rq)" "\<exists>iv. al_messages st2 = al_messages st @ inject iv"
proof -
  have m: "wire_ok (al_messages st @ inject (merge_interventions (ti_before_llm ti)))"
    using assms(2) by (rule wire_ok_inject)
  have "is_tool_msg (addendum_msg cfg t) = False" "is_assistant_msg (addendum_msg cfg t) = False" for t
    by (simp_all add: addendum_msg_def is_tool_msg_def is_assistant_msg_def get_or_none_def user_msg_def system_msg_def)
  then have "wire_ok [addendum_msg cfg t]" for t by (simp add: wire_ok_def)
  then have a: "wire_ok ((al_messages st @ inject (merge_interventions (ti_before_llm ti))) @ [addendum_msg cfg t])" for t
    using m by (rule_tac wire_ok_append) auto
  from assms(1) have "rq = snd (prepare_llm_request h cfg ti st)" by simp
  then have "rq_messages rq = al_messages st @ inject (merge_interventions (ti_before_llm ti))
    \<or> (\<exists>t. rq_messages rq = (al_messages st @ inject (merge_interventions (ti_before_llm ti))) @ [addendum_msg cfg t])"
    by (simp add: prepare_llm_request_def Let_def) blast
  with m a show "wire_ok (rq_messages rq)" by metis
  from assms(1) show "\<exists>iv. al_messages st2 = al_messages st @ inject iv"
    by (auto simp: prepare_llm_request_def Let_def)
qed

lemma messages_call:
  "call_llm_with_callbacks ti rq st = Replies r st' \<Longrightarrow> al_messages st' = al_messages st \<and> ti_llm ti = Completed r"
  by (auto simp: call_llm_with_callbacks_def Let_def split: llm_outcome.splits if_splits)

lemma resolve_messages: "al_messages (resolve_tools ti st) = al_messages st" "al_requests (resolve_tools ti st) = al_requests st"
  by (simp_all add: resolve_tools_def split: option.splits)

lemma loop_turn_keeps:
  assumes "loop_turn h cfg ti st = Inr (st', flow)" and "loop_inv st" and "turn_ok h ti (al_messages st)"
  shows "list_all (\<lambda>(llm, ms). wire_ok ms) (al_requests st')" "flow = NextTurn \<Longrightarrow> wire_ok (al_messages st')"
proof -
  let ?s = "resolve_tools ti (st\<lparr>al_turn := al_turn st + 1, al_attempts := al_attempts st + 1\<rparr>)"
  have s: "al_messages ?s = al_messages st" "al_requests ?s = al_requests st" by (simp_all add: resolve_messages)
  obtain st2 rq where p: "prepare_llm_request h cfg ti ?s = (st2, rq)" by fastforce
  have r2: "al_requests st2 = al_requests st" using clock_prepare [of h cfg ti ?s] p s by (simp add: clock_def)
  have inv: "wire_ok (al_messages st)" "list_all (\<lambda>(llm, ms). wire_ok ms) (al_requests st)"
    using assms(2) by (auto simp: loop_inv_def)
  note rq = request_ok [OF p, unfolded s, OF inv(1)]
  have "list_all (\<lambda>(llm, ms). wire_ok ms) (al_requests st') \<and> (flow = NextTurn \<longrightarrow> wire_ok (al_messages st'))"
  proof (cases "rq_stop rq \<noteq> []")
    case True
    with assms(1) p r2 inv(2) show ?thesis by (auto simp: loop_turn_def)
  next
    case False
    show ?thesis
    proof (cases "call_llm_with_callbacks ti rq st2")
      case (Raises e)
      with False assms(1) p show ?thesis by (simp add: loop_turn_def)
    next
      case (Stops reason st3)
      with False assms(1) p clock_call(2) [OF Stops] r2 rq(1) inv(2) show ?thesis
        by (auto simp: loop_turn_def clock_def)
    next
      case (Replies response st3)
      obtain st4 pr where pr: "process_llm_response h cfg ti rq response st3 = (st4, pr)" by fastforce
      from False assms(1) p Replies pr have a: "after_response h cfg ti pr st4 = (st', flow)" by (simp add: loop_turn_def)
      have "al_requests st4 = al_requests st @ [(rq_llm rq, rq_messages rq)]"
        using clock_process [of h cfg ti rq response st3] clock_call(1) [OF Replies] pr r2 by (simp add: clock_def)
      then have "list_all (\<lambda>(llm, ms). wire_ok ms) (al_requests st')"
        using after_response_clock [of st4 h cfg ti pr] a rq(1) inv(2) by (simp add: clock_after_def)
      moreover obtain iv where "al_messages st3 = al_messages st @ inject iv"
        using rq(2) messages_call [OF Replies] by auto
      note pt = process_turn [OF pr conjunct2 [OF messages_call [OF Replies]] this inv(1) assms(3)]
      have "wire_ok (al_messages st')" if "flow = NextTurn"
        using after_response_keeps [OF a [unfolded that] pt(2-4) pt(1) assms(3)] by blast
      ultimately show ?thesis by blast
    qed
  qed
  then show "list_all (\<lambda>(llm, ms). wire_ok ms) (al_requests st')" "flow = NextTurn \<Longrightarrow> wire_ok (al_messages st')" by auto
qed

end
