(* ===== verification/Loop_Runs.thy ===== *)
theory Loop_Runs
  imports Loop_Inv Compact
begin

text \<open>
  Whole runs of the agent loop: the steps of \<open>run_loop\<close> as a relation, the states it visits, and
  the properties of a run from its start to its result.
\<close>

section \<open>The steps of a run\<close>

inductive run_step ::
  "loop_host \<Rightarrow> LoopConfig \<Rightarrow> (int \<Rightarrow> turn_input) \<Rightarrow> loop_state \<Rightarrow> loop_state \<Rightarrow> bool"
  for h cfg env where
  goes_on: "al_turn st < lc_max_turns cfg \<Longrightarrow> al_attempts st < max_attempts cfg \<Longrightarrow>
     loop_turn h cfg (env (al_attempts st)) st = Inr (st', NextTurn) \<Longrightarrow> run_step h cfg env st st'"

inductive_simps run_step_simps: "run_step h cfg env st st'"

text \<open>The last state a run visits: the loop is over there, or its turn ends the run.\<close>

definition run_ends ::
  "loop_host \<Rightarrow> LoopConfig \<Rightarrow> (int \<Rightarrow> turn_input) \<Rightarrow> loop_state \<Rightarrow> loop_state \<Rightarrow> string \<Rightarrow> bool" where
  "run_ends h cfg env st st' reason =
     (if al_turn st < lc_max_turns cfg \<and> al_attempts st < max_attempts cfg
      then loop_turn h cfg (env (al_attempts st)) st = Inr (st', BreakLoop reason)
      else st' = st \<and> reason = (if max_attempts cfg \<le> al_attempts st \<and> al_turn st < lc_max_turns cfg
                                 then ''max_attempts'' else ''max_turns''))"

lemma run_loop_steps:
  assumes "run_loop h cfg env st = Inr (st', reason)"
  shows "\<exists>s. (run_step h cfg env)\<^sup>*\<^sup>* st s \<and> run_ends h cfg env s st' reason"
  using assms
proof (induction h cfg env st rule: run_loop.induct)
  case (1 h cfg env st)
  show ?case
  proof (cases "al_turn st < lc_max_turns cfg \<and> al_attempts st < max_attempts cfg")
    case False
    with "1.prems" have "run_ends h cfg env st st' reason"
      by (auto simp: run_loop.simps [of h cfg env st] run_ends_def)
    then show ?thesis by blast
  next
    case True
    with "1.prems" obtain s flow where turn: "loop_turn h cfg (env (al_attempts st)) st = Inr (s, flow)"
      by (auto simp: run_loop.simps [of h cfg env st] split: sum.splits)
    show ?thesis
    proof (cases flow)
      case (BreakLoop r)
      with True turn "1.prems" have "run_ends h cfg env st st' reason"
        by (simp add: run_loop.simps [of h cfg env st] run_ends_def)
      then show ?thesis by blast
    next
      case NextTurn
      with True turn "1.prems" have "run_loop h cfg env s = Inr (st', reason)"
        by (simp add: run_loop.simps [of h cfg env st])
      from "1.IH" [OF True turn refl NextTurn this] obtain u where
        "(run_step h cfg env)\<^sup>*\<^sup>* s u" "run_ends h cfg env u st' reason" by blast
      moreover have "run_step h cfg env st s" using True turn NextTurn by (simp add: run_step_simps)
      ultimately show ?thesis by (meson converse_rtranclp_into_rtranclp)
    qed
  qed
qed

text \<open>The runs whose turns all meet \<open>turn_ok\<close>, as an invariant system.\<close>

definition ok_step :: "loop_host \<Rightarrow> LoopConfig \<Rightarrow> (int \<Rightarrow> turn_input) \<Rightarrow> loop_state \<Rightarrow> loop_state \<Rightarrow> bool" where
  "ok_step h cfg env st st' = (run_step h cfg env st st' \<and> turn_ok h (env (al_attempts st)) (al_messages st))"

definition loop_start :: "loop_state \<Rightarrow> bool" where
  "loop_start st = (wire_ok (al_messages st) \<and> al_requests st = [])"

interpretation loop_system: invariant_system loop_start "ok_step h cfg env" loop_inv for h cfg env
proof unfold_locales
  show "loop_inv s" if "loop_start s" for s using that by (simp add: loop_start_def loop_inv_def)
  show "loop_inv t" if "ok_step h cfg env s t" "loop_inv s" for s t
    using loop_turn_keeps [OF _ that(2)] that(1) by (auto simp: ok_step_def run_step_simps loop_inv_def)
qed

lemma ok_steps:
  assumes "(run_step h cfg env)\<^sup>*\<^sup>* s t" and "\<And>u. (run_step h cfg env)\<^sup>*\<^sup>* s u \<Longrightarrow> turn_ok h (env (al_attempts u)) (al_messages u)"
  shows "(ok_step h cfg env)\<^sup>*\<^sup>* s t"
  using assms(1)
proof (induction rule: rtranclp_induct)
  case (step t u)
  then have "ok_step h cfg env t u" using assms(2) by (simp add: ok_step_def)
  with step.IH show ?case by (rule rtranclp.rtrancl_into_rtrancl)
qed simp

lemma start_state_trace [simp]: "al_requests (start_state cfg sp um im tools) = []"
  "al_turn (start_state cfg sp um im tools) = 0" "al_attempts (start_state cfg sp um im tools) = 0"
  by (simp_all add: start_state_def)

section \<open>An example run\<close>

text \<open>A first reply that calls a tool, which times out, and plain replies after it; the compactor is the default one.\<close>

definition demo_host :: loop_host where
  "demo_host = \<lparr>lh_str_of = (\<lambda>v. []), lh_parse_content = (\<lambda>v. None), lh_hooks = default_hooks, lh_price = (\<lambda>d. 0),
     lh_profile = \<lparr>ip_supports_images = False, ip_model_id = [], ip_protocol = []\<rparr>, lh_max_images = 4,
     lh_estimate_message = (\<lambda>m. 0), lh_estimate_text = (\<lambda>s. 0), lh_estimate = (\<lambda>ms. 0), lh_has_spill = (\<lambda>s. False),
     lh_recovery_note = (\<lambda>ms. None), lh_persists = True\<rparr>"

definition demo_reply :: LLMResponse where
  "demo_reply = \<lparr>ll_content = PyStr ''ok'', ll_tool_calls = [], ll_reasoning_content = [], ll_finish_reason = ''stop'',
     ll_model = [], ll_usage = [], ll_response_metadata = [], ll_usage_source = []\<rparr>"

definition demo_turn :: "message \<Rightarrow> tool_call list \<Rightarrow> turn_input" where
  "demo_turn m calls = \<lparr>ti_tools = None, ti_before_llm = [], ti_before_meta = id, ti_addendum = None,
     ti_llm = Completed demo_reply, ti_chain_fallback = False, ti_thinking = [], ti_visible = ''ok'', ti_tag_format = False,
     ti_history_msg = m, ti_parse = (\<lambda>ns. calls), ti_parse_text = (\<lambda>ns. []), ti_rnd = ''r'', ti_llm_response = [],
     ti_response_meta = id, ti_tool_call = (\<lambda>c. []), ti_invalid = (\<lambda>c. None), ti_invoke = (\<lambda>c. TimedOut ''3.0''),
     ti_render = default_render [] None, ti_wait_interrupted = [], ti_turn_end = [], ti_turn_end_meta = id,
     ti_should_compact = False, ti_compact = (\<lambda>ms. compact_messages (\<lambda>v. []) ms 16), ti_persist_ok = True, ti_pause = False\<rparr>"

definition demo_call :: tool_call where
  "demo_call = [(''id'', PyStr ''c1''), (''name'', PyStr ''bash'')]"

definition demo_env :: "int \<Rightarrow> turn_input" where
  "demo_env i = (if i = 0
     then demo_turn [(''role'', PyStr ''assistant''), (''content'', PyStr ''ok''), (''tool_calls'', PyList [PyDict demo_call])] [demo_call]
     else demo_turn [(''role'', PyStr ''assistant''), (''content'', PyStr ''ok'')] [])"

definition demo_config :: LoopConfig where
  "demo_config = default_LoopConfig\<lparr>lc_max_turns := 3, lc_no_tool_max_retries := 1\<rparr>"

text \<open>Without a fallback chain to raise to, a run returns.\<close>

lemma loop_turn_returns: "\<not> ti_chain_fallback ti \<Longrightarrow> \<exists>r. loop_turn h cfg ti st = Inr r"
  by (auto simp: loop_turn_def call_llm_with_callbacks_def Let_def split: prod.splits llm_outcome.splits)

lemma run_loop_returns:
  assumes "\<And>i. \<not> ti_chain_fallback (env i)"
  shows "\<exists>st' reason. run_loop h cfg env st = Inr (st', reason)"
  using assms
proof (induction h cfg env st rule: run_loop.induct)
  case (1 h cfg env st)
  obtain s flow where turn: "loop_turn h cfg (env (al_attempts st)) st = Inr (s, flow)"
    using loop_turn_returns [OF "1.prems"] by (metis surj_pair)
  show ?case
  proof (cases "(al_turn st < lc_max_turns cfg \<and> al_attempts st < max_attempts cfg) \<and> flow = NextTurn")
    case True
    with "1.IH" [OF _ turn refl _ "1.prems"] turn show ?thesis by (simp add: run_loop.simps [of h cfg env st])
  next
    case False
    with turn show ?thesis by (cases flow) (auto simp: run_loop.simps [of h cfg env st])
  qed
qed

lemma demo_turn_ok:
  assumes "is_assistant_msg m" and "\<forall>i \<in> set (native_ids m). (\<exists>s. i = PyStr s) \<and> i \<notin> set (answered_ids ms)"
  shows "turn_ok demo_host (demo_turn m calls) ms"
proof -
  show ?thesis
    using assms default_hooks_ok squash.history_rewriter_axioms
    by (simp add: turn_ok_def demo_host_def demo_turn_def keeps_result_def default_render_def notify_tool_result_def
        disciplined_def fresh_calls_def reset_ok_def demo_reply_def get_or_none_def merge_interventions_def)
       (simp add: injected_def no_intervention_def)
qed

lemma attempts_grow: "(run_step h cfg env)\<^sup>*\<^sup>* s t \<Longrightarrow> t = s \<or> al_attempts s < al_attempts t"
  by (induction rule: rtranclp_induct) (auto simp: run_step_simps dest!: loop_turn_clock(1))

lemma demo_turns_ok:
  assumes "(run_step demo_host demo_config demo_env)\<^sup>*\<^sup>* (start_state demo_config ''sys'' ''hi'' None [''bash'']) st"
  shows "turn_ok demo_host (demo_env (al_attempts st)) (al_messages st)"
proof (cases "al_attempts st = 0")
  case True
  with attempts_grow [OF assms] have "answered_ids (al_messages st) = []"
    by (auto simp: start_state_def)
  with True show ?thesis
    by (auto simp: demo_env_def is_assistant_msg_def get_or_none_def native_ids_def recorded_calls_def demo_call_def
        call_id_def intro!: demo_turn_ok)
next
  case False
  then show ?thesis
    by (auto simp: demo_env_def is_assistant_msg_def get_or_none_def native_ids_def recorded_calls_def intro!: demo_turn_ok)
qed

section \<open>Which calls are dispatched\<close>

lemma block_calls_names:
  "block_calls str_of key note names response parsed messages meta = (p, b, ms, m) \<Longrightarrow>
   \<forall>c \<in> set p. result_name str_of c \<in> set names"
  by (auto simp: block_calls_def Let_def split: if_splits)

lemma cap_calls_length: "cap_calls cap parsed messages = (p, ms) \<Longrightarrow> 0 < cap \<Longrightarrow> int (length p) \<le> cap"
  by (auto simp: cap_calls_def split: if_splits)

lemma select_calls_permitted:
  assumes "select_calls h cfg rq response tool_names parsed messages meta = (p, b, ms, m)"
  shows "\<forall>c \<in> set p. (if rq_strip_tools rq then result_name (lh_str_of h) c \<in> set (landing_names cfg tool_names)
      else case rq_allowed rq of None \<Rightarrow> True | Some names \<Rightarrow> result_name (lh_str_of h) c \<in> set names)"
    and "0 < lc_max_tool_calls_per_turn cfg \<Longrightarrow> int (length p) \<le> lc_max_tool_calls_per_turn cfg"
proof -
  obtain p2 b2 ms2 m2 where s2: "(case rq_allowed rq of
               Some names \<Rightarrow>
                 if \<not> rq_strip_tools rq \<and> parsed \<noteq> []
                 then block_calls (lh_str_of h) ''blocked_delivery_tool_calls'' (delivery_note names) names
                        response parsed messages meta
                 else (parsed, [], messages, meta)
             | None \<Rightarrow> (parsed, [], messages, meta)) = (p2, b2, ms2, m2)" by (rule prod_cases4)
  obtain p3 b3 ms3 m3 where s3: "(if rq_strip_tools rq \<and> p2 \<noteq> []
             then block_calls (lh_str_of h) ''blocked_final_turn_tool_calls'' landing_note (landing_names cfg tool_names)
                    response p2 ms2 m2
             else (p2, b2, ms2, m2)) = (p3, b3, ms3, m3)" by (rule prod_cases4)
  obtain p4 ms4 where s4: "cap_calls (lc_max_tool_calls_per_turn cfg) p3 ms3 = (p4, ms4)" by fastforce
  from assms s2 s3 s4 have r: "p = p4" by (simp add: select_calls_def)
  have "\<forall>c \<in> set p3. (if rq_strip_tools rq then result_name (lh_str_of h) c \<in> set (landing_names cfg tool_names)
      else case rq_allowed rq of None \<Rightarrow> True | Some names \<Rightarrow> result_name (lh_str_of h) c \<in> set names)"
  proof (cases "rq_strip_tools rq")
    case True
    with s3 block_calls_names show ?thesis by (fastforce split: if_splits)
  next
    case False
    with s2 s3 block_calls_names show ?thesis by (fastforce split: option.splits if_splits)
  qed
  then show "\<forall>c \<in> set p. (if rq_strip_tools rq then result_name (lh_str_of h) c \<in> set (landing_names cfg tool_names)
      else case rq_allowed rq of None \<Rightarrow> True | Some names \<Rightarrow> result_name (lh_str_of h) c \<in> set names)"
    using cap_calls_shape(1) [OF s4] r by blast
  show "int (length p) \<le> lc_max_tool_calls_per_turn cfg" if "0 < lc_max_tool_calls_per_turn cfg"
    using cap_calls_length [OF s4 that] r by simp
qed

lemma process_selects:
  "\<exists>parsed messages. pr_parsed (snd (process_llm_response h cfg ti rq response st)) =
     fst (select_calls h cfg rq (pr_response (snd (process_llm_response h cfg ti rq response st))) (al_tools st)
       parsed messages (al_metadata st))"
  by (simp add: process_llm_response_def Let_def case_prod_beta) blast

section \<open>Interventions that split a turn\<close>

lemma tool_after_user: "\<not> wire_ok (xs @ [user_msg u] @ [m] @ ys)" if "is_tool_msg m"
  using that by (simp add: wire_ok_def placed_append)

lemma execute_after_user:
  assumes "al_messages st = ms @ [user_msg u]" and "parsed \<noteq> []" and "\<forall>c \<in> set parsed. string_id c"
    and "batch_hook_ok (lh_hooks h)" and "keeps_result ti"
  shows "\<not> wire_ok (al_messages (fst (execute_tool_calls h ti parsed st)))"
proof -
  obtain exe syn meta where d: "dispatch_calls h ti (al_turn st) (al_total_tool_calls st) (List.enumerate 0 parsed)
      (al_metadata st) = (exe, syn, meta)" by (rule prod_cases3)
  define executed where "executed = (if exe = [] then [] else execute_tools (lh_str_of h) (lh_parse_content h) (lh_hooks h)
      (al_tools st) (sort (al_tools st)) (al_turn st) (al_total_tool_calls st) (ti_invoke ti) (map snd exe))"
  define results where "results = order_results (length parsed) exe executed syn"
  from assms(2) have "hd parsed \<in> set parsed" by simp
  with execute_answers [OF assms(4) d executed_def this] assms(3) obtain r rs where rs: "results = r # rs"
    unfolding results_def [symmetric] by (cases results) auto
  let ?new = "al_messages st @ map (result_message h ti st) results"
  have "\<not> wire_ok ?new"
    using tool_after_user [OF result_message_shape(1) [OF assms(5)]] by (simp add: assms(1) rs)
  then have "\<not> wire_ok (evict_old_images (lh_str_of h) ?new (lh_max_images h))"
    using wire_ok_shape [OF evict_shape] by blast
  moreover have "wire_ok (xs @ map user_msg ts) \<Longrightarrow> wire_ok xs" for xs ts
    using paired_append_left [of xs "map user_msg ts"] by (cases ts) (auto simp: wire_ok_def placed_append)
  ultimately show ?thesis
    by (auto simp: execute_tool_calls_def Let_def d executed_def [symmetric] results_def [symmetric] inject_def)
qed

lemma process_injects:
  assumes "process_llm_response h cfg ti rq r st = (st', pr)" and "\<not> pr_continue pr"
  shows "\<exists>ms. al_messages st' = ms @ inject (merge_interventions (ti_llm_response ti))"
  using assms
  by (auto simp: process_llm_response_def Let_def case_prod_beta apply_response_interventions_def)

section \<open>Properties\<close>




text \<open>
  C12: only permitted calls are dispatched.  On a turn whose tools were stripped every dispatched
  call names a landing tool of the workflow that is bound; otherwise, with an allow-list in force,
  every dispatched call names an allowed tool; and a positive per-turn cap bounds their number.
\<close>

theorem dispatched_calls_permitted:
  assumes "pr = snd (process_llm_response h cfg ti rq response st)"
  shows "(\<forall>c \<in> set (pr_parsed pr).
       (if rq_strip_tools rq then result_name (lh_str_of h) c \<in> set (landing_names cfg (al_tools st))
        else case rq_allowed rq of None \<Rightarrow> True | Some names \<Rightarrow> result_name (lh_str_of h) c \<in> set names))
     \<and> (0 < lc_max_tool_calls_per_turn cfg \<longrightarrow> int (length (pr_parsed pr)) \<le> lc_max_tool_calls_per_turn cfg)"
proof -
  from process_selects [of h cfg ti rq response st] assms obtain parsed messages where
    p: "pr_parsed pr = fst (select_calls h cfg rq (pr_response pr) (al_tools st) parsed messages (al_metadata st))" by auto
  obtain p' b ms m where s: "select_calls h cfg rq (pr_response pr) (al_tools st) parsed messages (al_metadata st) = (p', b, ms, m)"
    by (rule prod_cases4)
  from select_calls_permitted [OF s] p s show ?thesis by simp
qed

theorem dispatched_calls_permitted_witness:
  "\<exists>pr. pr = snd (process_llm_response demo_host demo_config (demo_env 0)
        \<lparr>rq_llm = \<lparr>bd_tools = [], bd_temperature = PyNone\<rparr>, rq_messages = [], rq_strip_tools = True, rq_allowed = None,
         rq_stop = []\<rparr> demo_reply (start_state demo_config ''sys'' ''hi'' None [''bash'']))
     \<and> pr_parsed pr = []"
proof -
  define pr where "pr = snd (process_llm_response demo_host demo_config (demo_env 0)
        \<lparr>rq_llm = \<lparr>bd_tools = [], bd_temperature = PyNone\<rparr>, rq_messages = [], rq_strip_tools = True, rq_allowed = None,
         rq_stop = []\<rparr> demo_reply (start_state demo_config ''sys'' ''hi'' None [''bash'']))"
  have "landing_names demo_config ns = []" for ns
    by (simp add: landing_names_def demo_config_def default_LoopConfig_def default_LoopPolicy_def)
  with dispatched_calls_permitted [OF pr_def] have "pr_parsed pr = []" by (cases "pr_parsed pr") auto
  with pr_def show ?thesis by blast
qed

text \<open>
  C38: an observer of the response that injects a message without skipping or restarting the turn
  breaks the history: the results of the turn's calls are appended after the injected user
  message, so the assistant message and its answers are split and a provider rejects the next
  request.
\<close>

theorem injection_splits_calls:
  assumes "process_llm_response h cfg ti rq r st = (st', pr)"
    and "injected (merge_interventions (ti_llm_response ti)) \<noteq> []" and "\<not> pr_continue pr"
    and "pr_parsed pr \<noteq> []" and "\<forall>c \<in> set (pr_parsed pr). string_id c"
    and "batch_hook_ok (lh_hooks h)" and "keeps_result ti"
  shows "\<not> wire_ok (al_messages (fst (execute_tool_calls h ti (pr_parsed pr) st')))"
proof -
  from assms(2) obtain ts t where "injected (merge_interventions (ti_llm_response ti)) = ts @ [t]"
    by (metis rev_exhaust)
  with process_injects [OF assms(1,3)] obtain ms where "al_messages st' = ms @ [user_msg t]"
    by (auto simp: inject_def)
  from execute_after_user [OF this assms(4-7)] show ?thesis .
qed

theorem injection_splits_calls_witness:
  "\<exists>st' pr. process_llm_response demo_host demo_config (demo_env 0\<lparr>ti_llm_response := [inject_only [''hint'']]\<rparr>)
        \<lparr>rq_llm = \<lparr>bd_tools = [''bash''], bd_temperature = PyNone\<rparr>, rq_messages = [], rq_strip_tools = False,
         rq_allowed = None, rq_stop = []\<rparr> demo_reply (start_state demo_config ''sys'' ''hi'' None [''bash'']) = (st', pr)
     \<and> \<not> wire_ok (al_messages (fst (execute_tool_calls demo_host (demo_env 0\<lparr>ti_llm_response := [inject_only [''hint'']]\<rparr>)
          (pr_parsed pr) st')))"
proof -
  let ?ti = "demo_env 0\<lparr>ti_llm_response := [inject_only [''hint'']]\<rparr>"
  obtain st' pr where p: "process_llm_response demo_host demo_config ?ti
        \<lparr>rq_llm = \<lparr>bd_tools = [''bash''], bd_temperature = PyNone\<rparr>, rq_messages = [], rq_strip_tools = False,
         rq_allowed = None, rq_stop = []\<rparr> demo_reply (start_state demo_config ''sys'' ''hi'' None [''bash'']) = (st', pr)"
    by fastforce
  have iv: "injected (merge_interventions (ti_llm_response ?ti)) \<noteq> []"
    "\<not> iv_continue_to_next_turn (merge_interventions (ti_llm_response ?ti))"
    by (simp_all add: merge_interventions_def merge_step_def injected_def no_intervention_def)
  have "pr_parsed pr = [demo_call]" "\<not> pr_continue pr"
    using p iv
    by (auto simp: process_llm_response_def Let_def case_prod_beta demo_env_def demo_turn_def select_calls_def cap_calls_def
        assign_unique_tool_call_ids_def native_ids_def recorded_calls_def get_or_none_def demo_call_def call_id_def
        demo_config_def default_LoopConfig_def)
  moreover have "string_id demo_call" by (simp add: string_id_def demo_call_def call_id_def get_or_none_def)
  moreover have "batch_hook_ok (lh_hooks demo_host)" "keeps_result ?ti"
    using default_hooks_ok by (simp_all add: demo_host_def keeps_result_def demo_env_def demo_turn_def default_render_def notify_tool_result_def)
  ultimately show ?thesis using injection_splits_calls [OF p iv(1)] p by auto
qed

end
