(* ===== verification/Llm_Errors.thy ===== *)
theory Llm_Errors
  imports Messages "HOL-Library.Sublist"
begin

text \<open>
  The errors of model calls (\<^verbatim>\<open>errors.py\<close>), the patterns that classify them
  (\<^verbatim>\<open>runtime/retriable.py\<close>) and the older keyword policy (\<^verbatim>\<open>retry_policy.py\<close>).  An exception is
  the record of what these modules read of it; its regular expressions are sequences of the few
  elements they use, with a matcher of their own.  Word characters and case are those of ASCII.
\<close>

section \<open>Exceptions\<close>

text \<open>
  \<open>ex_type\<close> is \<open>type(err).__name__\<close>, \<open>ex_message\<close> is \<open>str(err)\<close>; \<open>ex_attrs\<close> has the attributes that
  \<open>getattr\<close> reads; \<open>ex_deadline\<close> is the reason of an \<open>LLMDeadlineExceeded\<close>.
\<close>

record llm_exc =
  ex_type :: string
  ex_message :: string
  ex_attrs :: "pyval pydict"
  ex_is_timeout :: bool
  ex_is_empty :: bool
  ex_is_attribute_error :: bool
  ex_deadline :: "string option"

definition plain_exc :: "string \<Rightarrow> string \<Rightarrow> llm_exc" where
  "plain_exc name msg = \<lparr>ex_type = name, ex_message = msg, ex_attrs = [], ex_is_timeout = False, ex_is_empty = False,
     ex_is_attribute_error = False, ex_deadline = None\<rparr>"

text \<open>The arguments named \<open>\<dots>_s\<close> are the seconds as the message prints them.\<close>

definition LLMEmptyCompletion :: "nat \<Rightarrow> string \<Rightarrow> llm_exc" where
  "LLMEmptyCompletion chunks_seen elapsed_s =
     (plain_exc ''LLMEmptyCompletion''
        (''empty completion: response returned no content, no tool call and no reported usage (chunks_seen=''
         @ str_of_nat chunks_seen @ '', elapsed='' @ elapsed_s @ ''s)''))\<lparr>ex_is_empty := True\<rparr>"

definition LLMTruncatedStream :: "string \<Rightarrow> int \<Rightarrow> bool \<Rightarrow> string list \<Rightarrow> string \<Rightarrow> llm_exc" where
  "LLMTruncatedStream last_event events_seen saw_message_delta block_types elapsed_s =
     plain_exc ''LLMTruncatedStream''
       (''truncated stream: ended without message_stop (last_event=''
        @ (if last_event = [] then ''none'' else last_event) @ '', events_seen='' @ str_of_int events_seen
        @ '', message_delta='' @ (if saw_message_delta then ''yes'' else ''no'')
        @ '', blocks=['' @ str_join '','' block_types @ ''], elapsed='' @ elapsed_s @ ''s)'')"

definition LLMOpenAITruncatedStream :: "string \<Rightarrow> string \<Rightarrow> int \<Rightarrow> string \<Rightarrow> string \<Rightarrow> llm_exc" where
  "LLMOpenAITruncatedStream protocol last_event events_seen expected elapsed_s =
     plain_exc ''LLMOpenAITruncatedStream''
       (''truncated stream: '' @ protocol @ '' ended without '' @ expected @ '' (last_event=''
        @ (if last_event = [] then ''none'' else last_event) @ '', events_seen='' @ str_of_int events_seen
        @ '', elapsed='' @ elapsed_s @ ''s)'')"

definition LLMStreamStalled :: "string \<Rightarrow> int \<Rightarrow> string \<Rightarrow> llm_exc" where
  "LLMStreamStalled stall_s chunks_seen elapsed_s =
     (plain_exc ''LLMStreamStalled''
        (''stream stalled: no chunks for '' @ stall_s @ ''s (chunks_seen='' @ str_of_int chunks_seen
         @ '', elapsed='' @ elapsed_s @ ''s)''))\<lparr>ex_is_timeout := True\<rparr>"

definition LLMDeadlineExceeded :: "string \<Rightarrow> string \<Rightarrow> llm_exc" where
  "LLMDeadlineExceeded reason detail =
     (plain_exc ''LLMDeadlineExceeded'' (reason @ '': '' @ detail))\<lparr>ex_is_timeout := True, ex_deadline := Some reason\<rparr>"

section \<open>Patterns\<close>

text \<open>A character, \<open>[_\s]*\<close>, \<open>[_\s-]*\<close> and \<open>\b\<close>.\<close>

datatype rx = Chr char | Gap | DashGap | Bound

definition is_word_char :: "char \<Rightarrow> bool" where
  "is_word_char c = (let n = (of_char c :: nat) in
     (48 \<le> n \<and> n \<le> 57) \<or> (65 \<le> n \<and> n \<le> 90) \<or> (97 \<le> n \<and> n \<le> 122) \<or> n = 95)"

definition gap_char :: "char \<Rightarrow> bool" where
  "gap_char c = (c = CHR ''_'' \<or> is_space c)"

definition word_at :: "char option \<Rightarrow> bool" where
  "word_at co = (case co of None \<Rightarrow> False | Some c \<Rightarrow> is_word_char c)"

definition first_char :: "string \<Rightarrow> char option" where
  "first_char s = (case s of [] \<Rightarrow> None | c # t \<Rightarrow> Some c)"

text \<open>Whether the pattern matches a prefix of the text; the second argument is the character before it.\<close>

function match_at :: "rx list \<Rightarrow> char option \<Rightarrow> string \<Rightarrow> bool" where
  "match_at [] before s = True"
| "match_at (Chr c # ps) before [] = False"
| "match_at (Chr c # ps) before (d # s) = (c = d \<and> match_at ps (Some d) s)"
| "match_at (Bound # ps) before s = (word_at before \<noteq> word_at (first_char s) \<and> match_at ps before s)"
| "match_at (Gap # ps) before [] = match_at ps before []"
| "match_at (Gap # ps) before (d # s) =
     (match_at ps before (d # s) \<or> gap_char d \<and> match_at (Gap # ps) (Some d) s)"
| "match_at (DashGap # ps) before [] = match_at ps before []"
| "match_at (DashGap # ps) before (d # s) =
     (match_at ps before (d # s) \<or> (gap_char d \<or> d = CHR ''-'') \<and> match_at (DashGap # ps) (Some d) s)"
  by pat_completeness auto
termination
  by (relation "measures [\<lambda>(ps, b, s). length ps, \<lambda>(ps, b, s). length s]") auto

fun search_from :: "rx list \<Rightarrow> char option \<Rightarrow> string \<Rightarrow> bool" where
  "search_from ps before [] = match_at ps before []"
| "search_from ps before (c # s) = (match_at ps before (c # s) \<or> search_from ps (Some c) s)"

text \<open>A compiled pattern: whether it ignores the case, and its elements.\<close>

type_synonym pattern = "bool \<times> rx list"

definition search_in :: "string \<Rightarrow> pattern \<Rightarrow> bool" where
  "search_in blob p = (case p of (icase, ps) \<Rightarrow> search_from ps None (if icase then str_lower blob else blob))"

definition lit :: "string \<Rightarrow> rx list" where
  "lit s = map Chr s"

text \<open>Words with \<open>[_\s]*\<close> between them.\<close>

fun gapped :: "string list \<Rightarrow> rx list" where
  "gapped [] = []"
| "gapped [w] = lit w"
| "gapped (w # v # ws) = lit w @ Gap # gapped (v # ws)"

definition word_pat :: "string \<Rightarrow> rx list" where
  "word_pat w = Bound # lit w @ [Bound]"

definition any_case :: "rx list list \<Rightarrow> pattern list" where
  "any_case = map (Pair True)"

definition exact_case :: "rx list list \<Rightarrow> pattern list" where
  "exact_case = map (Pair False)"

definition OVERLOAD_PATTERNS :: "pattern list" where
  "OVERLOAD_PATTERNS = any_case [lit ''overload'', lit ''capacity'', lit ''529'', lit ''overloaded_error'']"

definition CREDIT_PATTERNS :: "pattern list" where
  "CREDIT_PATTERNS =
     any_case [lit ''credit'', gapped [''insufficient'', ''quota''], gapped [''insufficient'', ''balance''],
               lit ''billing'', gapped [''payment'', ''required'']]
     @ exact_case [word_pat ''402'']"

definition RATE_LIMIT_PATTERNS :: "pattern list" where
  "RATE_LIMIT_PATTERNS = any_case [gapped [''rate'', ''limit'']] @ exact_case [word_pat ''429'']"

definition CONTEXT_LENGTH_PATTERNS :: "pattern list" where
  "CONTEXT_LENGTH_PATTERNS =
     any_case [gapped [''context'', ''length''], lit ''context_length_exceeded'', lit ''longer than the model'',
               lit ''maximum context'']"

definition TRANSIENT_NETWORK_PATTERNS :: "pattern list" where
  "TRANSIENT_NETWORK_PATTERNS =
     any_case ([word_pat ''timeout'', gapped [''timed'', ''out'']]
       @ map (\<lambda>w. gapped [''connection'', w]) [''reset'', ''refused'', ''aborted'', ''error'', ''closed'']
       @ [lit ''bad_response_status_code'', lit ''new_api_error'', gapped [''gateway'', ''time'', ''out'']]
       @ map (\<lambda>w. gapped [''upstream'', w]) [''timeout'', ''error''])"

definition TRUNCATED_STREAM_PATTERNS :: "pattern list" where
  "TRUNCATED_STREAM_PATTERNS =
     exact_case [word_pat ''LLMTruncatedStream'', word_pat ''LLMOpenAITruncatedStream'']
     @ any_case [gapped [''truncated'', ''stream'']]"

definition STREAM_STALL_PATTERNS :: "pattern list" where
  "STREAM_STALL_PATTERNS =
     exact_case [word_pat ''LLMStreamStalled'']
     @ any_case [lit ''stream'' @ DashGap # lit ''stalled'', lit ''no chunks for'']"

definition SAFETY_FILTER_PATTERNS :: "pattern list" where
  "SAFETY_FILTER_PATTERNS =
     any_case (map gapped
       [[''data'', ''inspection'', ''failed''], [''content'', ''policy'', ''violation''],
        [''content'', ''filter''], [''content'', ''filtered''], [''input'', ''filtered''], [''output'', ''filtered''],
        [''inappropriate'', ''content''], [''prompt'', ''blocked''],
        [''limited'', ''access'', ''to'', ''this'', ''content'', ''for'', ''safety''],
        [''may'', ''be'', ''used'', ''to'', ''benefit'', ''or'', ''to'', ''harm''],
        [''violates'', ''our'', ''usage'', ''policies''], [''your'', ''request'', ''was'', ''blocked''],
        [''content'', ''moderation''], [''moderation'', ''policy''], [''request'', ''blocked''], [''safety'', ''system'']])"

definition MODEL_UNAVAILABLE_PATTERNS :: "pattern list" where
  "MODEL_UNAVAILABLE_PATTERNS =
     any_case (map gapped
       [[''model'', ''not'', ''found''], [''no'', ''such'', ''model''], [''model'', ''not'', ''supported''],
        [''no'', ''available'', ''channel''], [''unsupported'', ''model'']])
     @ exact_case [lit ''not_found_error'', word_pat ''NotFoundError'']
     @ any_case [gapped [''not'', ''a'', ''valid'', ''model'', ''id''],
                 Bound # gapped [''invalid'', ''model'', ''id''] @ [Bound], Bound # gapped [''unknown'', ''model''] @ [Bound]]"

definition AUTH_FAILURE_PATTERNS :: "pattern list" where
  "AUTH_FAILURE_PATTERNS =
     exact_case [word_pat ''AuthenticationError'']
     @ any_case [Bound # gapped [''authentication'', ''failed''], Bound # gapped [''invalid'', ''api'', ''key''],
                 Bound # gapped [''invalid'', ''authentication''], Bound # gapped [''missing'', ''authentication''],
                 word_pat ''unauthorized'', word_pat ''unauthenticated'']
     @ exact_case [word_pat ''401'']"

definition EMPTY_COMPLETION_PATTERNS :: "pattern list" where
  "EMPTY_COMPLETION_PATTERNS =
     any_case (map gapped
       [[''no'', ''generation'', ''chunk'', ''returned''], [''no'', ''generation'', ''chunks'', ''returned''],
        [''no'', ''generation'', ''chunk'', ''were'', ''returned''], [''no'', ''generation'', ''chunks'', ''were'', ''returned''],
        [''no'', ''completion'', ''token'', ''returned''], [''no'', ''completion'', ''tokens'', ''returned''],
        [''no'', ''completion'', ''content'', ''returned''], [''empty'', ''completion'']])"

section \<open>Classification\<close>

text \<open>\<open>str_of\<close> renders the attributes that are not strings.\<close>

definition stringify :: "(pyval \<Rightarrow> string) \<Rightarrow> llm_exc \<Rightarrow> string" where
  "stringify str_of e =
     str_join '' | '' ([ex_type e, ex_message e]
       @ map (py_format str_of)
           (filter (\<lambda>v. v \<noteq> PyNone) (map (get_or_none (ex_attrs e)) [''status_code'', ''response'', ''body'', ''message''])))"

fun int_value :: "pyval \<Rightarrow> int option" where
  "int_value (PyInt n) = Some n"
| "int_value (PyBool b) = Some (if b then 1 else 0)"
| "int_value v = None"

fun first_some :: "'a option list \<Rightarrow> 'a option" where
  "first_some [] = None"
| "first_some (Some x # xs) = Some x"
| "first_some (None # xs) = first_some xs"

definition get_status_code :: "llm_exc \<Rightarrow> int option" where
  "get_status_code e = first_some (map (int_value \<circ> get_or_none (ex_attrs e)) [''status_code'', ''status'', ''code''])"

definition found_in :: "pattern list \<Rightarrow> (pyval \<Rightarrow> string) \<Rightarrow> llm_exc \<Rightarrow> bool" where
  "found_in pats str_of e = list_ex (search_in (stringify str_of e)) pats"

definition is_overloaded_error :: "(pyval \<Rightarrow> string) \<Rightarrow> llm_exc \<Rightarrow> bool" where
  "is_overloaded_error = found_in OVERLOAD_PATTERNS"

definition is_credit_exhausted :: "(pyval \<Rightarrow> string) \<Rightarrow> llm_exc \<Rightarrow> bool" where
  "is_credit_exhausted = found_in CREDIT_PATTERNS"

definition is_rate_limited :: "(pyval \<Rightarrow> string) \<Rightarrow> llm_exc \<Rightarrow> bool" where
  "is_rate_limited = found_in RATE_LIMIT_PATTERNS"

definition is_context_length_error :: "(pyval \<Rightarrow> string) \<Rightarrow> llm_exc \<Rightarrow> bool" where
  "is_context_length_error = found_in CONTEXT_LENGTH_PATTERNS"

definition is_stream_stall :: "(pyval \<Rightarrow> string) \<Rightarrow> llm_exc \<Rightarrow> bool" where
  "is_stream_stall = found_in STREAM_STALL_PATTERNS"

definition is_safety_filter :: "(pyval \<Rightarrow> string) \<Rightarrow> llm_exc \<Rightarrow> bool" where
  "is_safety_filter = found_in SAFETY_FILTER_PATTERNS"

definition is_model_unavailable :: "(pyval \<Rightarrow> string) \<Rightarrow> llm_exc \<Rightarrow> bool" where
  "is_model_unavailable = found_in MODEL_UNAVAILABLE_PATTERNS"

definition is_auth_failure :: "(pyval \<Rightarrow> string) \<Rightarrow> llm_exc \<Rightarrow> bool" where
  "is_auth_failure = found_in AUTH_FAILURE_PATTERNS"

definition is_empty_completion :: "(pyval \<Rightarrow> string) \<Rightarrow> llm_exc \<Rightarrow> bool" where
  "is_empty_completion = found_in EMPTY_COMPLETION_PATTERNS"

definition is_truncated_stream :: "(pyval \<Rightarrow> string) \<Rightarrow> llm_exc \<Rightarrow> bool" where
  "is_truncated_stream = found_in TRUNCATED_STREAM_PATTERNS"

definition is_transient_network :: "(pyval \<Rightarrow> string) \<Rightarrow> llm_exc \<Rightarrow> bool" where
  "is_transient_network str_of e =
     (if ex_deadline e \<noteq> None then False
      else if is_stream_stall str_of e then False
      else if is_truncated_stream str_of e then False
      else if is_overloaded_error str_of e then False
      else if is_model_unavailable str_of e then False
      else if (case get_status_code e of Some s \<Rightarrow> 500 \<le> s \<and> s < 600 | None \<Rightarrow> False) then True
      else found_in TRANSIENT_NETWORK_PATTERNS str_of e)"

definition is_retriable_with_fallback :: "(pyval \<Rightarrow> string) \<Rightarrow> llm_exc \<Rightarrow> bool" where
  "is_retriable_with_fallback str_of e =
     (is_overloaded_error str_of e \<or> is_credit_exhausted str_of e \<or> is_safety_filter str_of e
      \<or> is_model_unavailable str_of e \<or> is_auth_failure str_of e \<or> is_empty_completion str_of e
      \<or> is_truncated_stream str_of e \<or> is_stream_stall str_of e)"

definition classify_error :: "(pyval \<Rightarrow> string) \<Rightarrow> llm_exc \<Rightarrow> string" where
  "classify_error str_of e =
     (case ex_deadline e of
        Some reason \<Rightarrow> reason
      | None \<Rightarrow>
          if is_context_length_error str_of e then ''context_length''
          else if is_safety_filter str_of e then ''safety_filter''
          else if is_model_unavailable str_of e then ''model_unavailable''
          else if is_auth_failure str_of e then ''auth_failure''
          else if is_empty_completion str_of e then ''empty_completion''
          else if is_truncated_stream str_of e then ''truncated_stream''
          else if is_overloaded_error str_of e then ''overloaded''
          else if is_credit_exhausted str_of e then ''credit_exhausted''
          else if is_stream_stall str_of e then ''stream_stall''
          else if is_rate_limited str_of e then ''rate_limited''
          else if is_transient_network str_of e then ''transient_network''
          else ''other'')"

section \<open>The keyword policy\<close>

definition mentions :: "string list \<Rightarrow> string \<Rightarrow> bool" where
  "mentions phrases msg = list_ex (\<lambda>p. sublist p msg) phrases"

definition LEGACY_RETRYABLE_KEYWORDS :: "string list" where
  "LEGACY_RETRYABLE_KEYWORDS = [''timeout'', ''timed out'', ''429'', ''500'', ''502'', ''503'', ''504'', ''529'',
     ''overloaded'', ''rate limit'', ''rate_limit'', ''server error'', ''connection reset'', ''connection error'',
     ''econnreset'', ''gateway timeout'', ''model_dump'', ''model_not_found'', ''truncated stream'']"

definition legacy_retryable :: "llm_exc \<Rightarrow> bool" where
  "legacy_retryable e = (ex_is_attribute_error e \<or> mentions LEGACY_RETRYABLE_KEYWORDS (str_lower (ex_message e)))"

section \<open>Matching\<close>

text \<open>A pattern is found behind any text that precedes it, and the elements of a literal are its characters.\<close>

lemma search_from_prefix: "search_from ps (if u = [] then before else Some (last u)) s \<Longrightarrow> search_from ps before (u @ s)"
  by (induction u arbitrary: before) (auto split: if_splits)

lemma match_at_lit_append:
  "match_at (lit w @ ps) before (w @ s) = match_at ps (if w = [] then before else Some (last w)) s"
  by (induction w arbitrary: before) (auto simp: lit_def)

lemma search_from_match: "match_at ps before s \<Longrightarrow> search_from ps before s"
  by (cases s) auto

declare str_lower_append [simp]

lemma str_lower_Cons: "str_lower (c # t) = char_lower c # str_lower t"
  by (simp add: str_lower_def)

lemma word_pat_at_start:
  assumes "is_word_char (hd w)" "is_word_char (last w)" "w \<noteq> []" "\<not> word_at (first_char s)"
  shows "search_from (word_pat w) None (w @ s)"
proof (rule search_from_match)
  have "first_char (w @ s) = Some (hd w)" using assms(3) by (cases w) (auto simp: first_char_def)
  then show "match_at (word_pat w) None (w @ s)"
    using assms by (simp add: word_pat_def match_at_lit_append word_at_def)
qed

lemma str_join_two: "str_join d (a # b # xs) = a @ d @ str_join d (b # xs)"
  by simp

text \<open>The type name stands at the start of the searched text, so a pattern for it is found.\<close>

lemma stringify_type: "\<exists>rest. stringify str_of e = ex_type e @ '' | '' @ rest"
  unfolding stringify_def append_Cons append_Nil str_join_two by blast

lemma found_by_type:
  assumes "(False, word_pat (ex_type e)) \<in> set pats" "ex_type e \<noteq> []" "is_word_char (hd (ex_type e))" "is_word_char (last (ex_type e))"
  shows "found_in pats str_of e"
proof -
  obtain rest where "stringify str_of e = ex_type e @ '' | '' @ rest" using stringify_type by blast
  then have "search_in (stringify str_of e) (False, word_pat (ex_type e))"
    using word_pat_at_start [of "ex_type e" "'' | '' @ rest"] assms
    by (simp add: search_in_def first_char_def word_at_def is_word_char_def)
  then show ?thesis using assms(1) by (auto simp: found_in_def list_ex_iff)
qed

lemma not_transient_when_truncated: "is_truncated_stream str_of e \<Longrightarrow> \<not> is_transient_network str_of e"
  by (simp add: is_transient_network_def)

lemma not_transient_when_stalled: "is_stream_stall str_of e \<Longrightarrow> \<not> is_transient_network str_of e"
  by (simp add: is_transient_network_def)

lemma truncated_is_truncated:
  "is_truncated_stream str_of (LLMTruncatedStream le n d bs s)"
  "is_truncated_stream str_of (LLMOpenAITruncatedStream p le n x s)"
  unfolding is_truncated_stream_def
  by (rule found_by_type; simp add: LLMTruncatedStream_def LLMOpenAITruncatedStream_def plain_exc_def
        TRUNCATED_STREAM_PATTERNS_def exact_case_def is_word_char_def)+

lemma stalled_is_stalled: "is_stream_stall str_of (LLMStreamStalled st n s)"
  unfolding is_stream_stall_def
  by (rule found_by_type; simp add: LLMStreamStalled_def plain_exc_def STREAM_STALL_PATTERNS_def exact_case_def is_word_char_def)

text \<open>
  The package's own errors are routed by their type, whatever text, counts and times they carry: a
  truncated or stalled stream advances the fallback chain and is never taken for a transient
  network failure, although the stall is a \<open>TimeoutError\<close>; a truncated stream is also retried by the
  keyword policy; an exceeded deadline keeps its reason as label and is never transient.
\<close>

theorem own_errors_routed:
  "is_truncated_stream str_of (LLMTruncatedStream le n d bs s) \<and> is_retriable_with_fallback str_of (LLMTruncatedStream le n d bs s)
   \<and> \<not> is_transient_network str_of (LLMTruncatedStream le n d bs s) \<and> legacy_retryable (LLMTruncatedStream le n d bs s)
   \<and> is_truncated_stream str_of (LLMOpenAITruncatedStream p le n x s)
   \<and> is_retriable_with_fallback str_of (LLMOpenAITruncatedStream p le n x s)
   \<and> \<not> is_transient_network str_of (LLMOpenAITruncatedStream p le n x s) \<and> legacy_retryable (LLMOpenAITruncatedStream p le n x s)
   \<and> is_retriable_with_fallback str_of (LLMStreamStalled st n s) \<and> \<not> is_transient_network str_of (LLMStreamStalled st n s)
   \<and> classify_error str_of (LLMDeadlineExceeded reason detail) = reason
   \<and> \<not> is_transient_network str_of (LLMDeadlineExceeded reason detail)"
proof -
  have low: "str_lower ''truncated stream: '' = ''truncated stream: ''" by code_simp
  have "sublist ''truncated stream'' (str_lower (''truncated stream: '' @ t))" for t
    unfolding str_lower_append low sublist_def by (rule exI [of _ "[]"], rule exI [of _ "'': '' @ str_lower t"]) simp
  moreover have "''truncated stream'' \<in> set LEGACY_RETRYABLE_KEYWORDS" by (simp add: LEGACY_RETRYABLE_KEYWORDS_def)
  ultimately have pol: "ex_message e = ''truncated stream: '' @ t \<Longrightarrow> legacy_retryable e" for e t
    unfolding legacy_retryable_def mentions_def list_ex_iff by metis
  have "legacy_retryable (LLMTruncatedStream le n d bs s)" "legacy_retryable (LLMOpenAITruncatedStream p le n x s)"
    by (rule pol, simp add: LLMTruncatedStream_def LLMOpenAITruncatedStream_def plain_exc_def)+
  moreover have "classify_error str_of (LLMDeadlineExceeded reason detail) = reason"
    "\<not> is_transient_network str_of (LLMDeadlineExceeded reason detail)"
    by (simp_all add: classify_error_def is_transient_network_def LLMDeadlineExceeded_def)
  ultimately show ?thesis
    by (simp add: truncated_is_truncated stalled_is_stalled not_transient_when_truncated not_transient_when_stalled
          is_retriable_with_fallback_def)
qed

text \<open>
  The label of an error and the decision to advance the chain agree: outside the two cases the
  label puts first (a deadline, an input beyond the context), an error advances the chain exactly
  when its label is one of the escalating ones, and is left to a same-key retry or surfaced exactly
  when its label is \<open>rate_limited\<close>, \<open>transient_network\<close> or \<open>other\<close>.
\<close>

definition escalating_labels :: "string set" where
  "escalating_labels = {''safety_filter'', ''model_unavailable'', ''auth_failure'', ''empty_completion'',
     ''truncated_stream'', ''overloaded'', ''credit_exhausted'', ''stream_stall''}"

theorem label_decides_escalation:
  assumes "ex_deadline e = None" "\<not> is_context_length_error str_of e"
  shows "is_retriable_with_fallback str_of e = (classify_error str_of e \<in> escalating_labels)
    \<and> (is_retriable_with_fallback str_of e
       \<or> classify_error str_of e = (if is_rate_limited str_of e then ''rate_limited''
            else if is_transient_network str_of e then ''transient_network'' else ''other''))"
  using assms by (auto simp: classify_error_def is_retriable_with_fallback_def escalating_labels_def)

theorem label_decides_escalation_witness:
  "ex_deadline (plain_exc ''E'' ''busy'') = None \<and> \<not> is_context_length_error (\<lambda>v. []) (plain_exc ''E'' ''busy'')
   \<and> is_retriable_with_fallback (\<lambda>v. []) (plain_exc ''E'' ''busy'')
     = (classify_error (\<lambda>v. []) (plain_exc ''E'' ''busy'') \<in> escalating_labels)"
proof -
  have d: "ex_deadline (plain_exc ''E'' ''busy'') = None" by (simp add: plain_exc_def)
  have c: "\<not> is_context_length_error (\<lambda>v. []) (plain_exc ''E'' ''busy'')" by code_simp
  show ?thesis using label_decides_escalation [OF d c] d c by simp
qed

text \<open>A standalone word inside the text is found.\<close>

lemma word_pat_inside:
  assumes "is_word_char (hd w)" "is_word_char (last w)" "w \<noteq> []" "u \<noteq> []" "\<not> is_word_char (last u)" "\<not> word_at (first_char s)"
  shows "search_from (word_pat w) None (u @ w @ s)"
proof (rule search_from_prefix)
  have "first_char (w @ s) = Some (hd w)" using assms(3) by (cases w) (auto simp: first_char_def)
  then have "match_at (word_pat w) (Some (last u)) (w @ s)"
    using assms by (simp add: word_pat_def match_at_lit_append word_at_def)
  then show "search_from (word_pat w) (if u = [] then None else Some (last u)) (w @ s)"
    using assms(4) by (simp add: search_from_match)
qed

text \<open>
  C36: the counts in a message are searched too: a stream cut after 401 events is taken for an
  authentication failure, so it is never labelled as a truncated stream.
\<close>

theorem truncated_after_401_events:
  "is_auth_failure str_of (LLMTruncatedStream le 401 d bs s)
   \<and> classify_error str_of (LLMTruncatedStream le 401 d bs s) \<noteq> ''truncated_stream''"
proof -
  define u where "u = ''LLMTruncatedStream | truncated stream: ended without message_stop (last_event=''
    @ (if le = [] then ''none'' else le) @ '', events_seen=''"
  define v where "v = '', message_delta='' @ (if d then ''yes'' else ''no'') @ '', blocks=['' @ str_join '','' bs @ ''], elapsed='' @ s @ ''s)''"
  have n: "str_of_int 401 = ''401''" by code_simp
  have "stringify str_of (LLMTruncatedStream le 401 d bs s) = u @ ''401'' @ v"
    unfolding LLMTruncatedStream_def stringify_def u_def v_def n by (simp add: plain_exc_def get_or_none_def)
  moreover have "search_from (word_pat ''401'') None (u @ ''401'' @ v)"
    by (rule word_pat_inside) (simp_all add: u_def v_def is_word_char_def word_at_def first_char_def)
  ultimately have auth: "is_auth_failure str_of (LLMTruncatedStream le 401 d bs s)"
    by (simp add: is_auth_failure_def found_in_def list_ex_iff AUTH_FAILURE_PATTERNS_def exact_case_def search_in_def)
  then show ?thesis by (simp add: classify_error_def LLMTruncatedStream_def plain_exc_def)
qed

end
