(* ===== verification/Fallback.thy ===== *)
theory Fallback
  imports Agent_Loop Llm_Errors
begin

text \<open>
  Failover between model clients (\<^verbatim>\<open>providers/fallback.py\<close>) with the classification of empty
  completions (\<^verbatim>\<open>completion.py\<close>) it relies on.  The clients are not code of the package's core: a
  call of one is its outcome, a response or an exception; a stream is the deltas it yields and
  the exception that ends it, if any.  Clients nested inside an entry answer for themselves.
\<close>

section \<open>Exceptions and triggers\<close>

datatype FallbackTrigger = OnTimeout | OnRateLimit | On5xx | OnAnyError | OnEmptyCompletion

fun trigger_matches :: "FallbackTrigger \<Rightarrow> llm_exc \<Rightarrow> bool" where
  "trigger_matches OnAnyError e = True"
| "trigger_matches OnEmptyCompletion e = ex_is_empty e"
| "trigger_matches OnTimeout e =
     (ex_is_timeout e \<or> sublist ''timeout'' (str_lower (ex_type e))
      \<or> mentions [''timeout'', ''timed out''] (str_lower (ex_message e)))"
| "trigger_matches OnRateLimit e =
     (get_or_none (ex_attrs e) ''status_code'' = PyInt 429
      \<or> mentions [''rate limit'', ''rate_limit'', ''quota'', ''too many requests''] (str_lower (ex_message e)))"
| "trigger_matches On5xx e =
     ((case int_value (get_or_none (ex_attrs e) ''status_code'') of Some s \<Rightarrow> 500 \<le> s \<and> s \<le> 599 | None \<Rightarrow> False)
      \<or> mentions [''internal server error'', ''bad gateway'', ''service unavailable'', ''gateway timeout'',
                 ''503'', ''502'', ''500'', ''504''] (str_lower (ex_message e)))"

record FallbackEntry =
  fe_model_id :: string
  fe_triggers :: "FallbackTrigger list option"
  fe_provider :: string

definition entry_matches :: "FallbackEntry \<Rightarrow> llm_exc \<Rightarrow> bool" where
  "entry_matches en e =
     (case fe_triggers en of None \<Rightarrow> trigger_matches OnAnyError e | Some ts \<Rightarrow> list_ex (\<lambda>t. trigger_matches t e) ts)"

section \<open>Empty completions\<close>

text \<open>Whether a usage mapping is there and not an estimate.\<close>

definition reported_mapping :: "pyval \<Rightarrow> bool" where
  "reported_mapping v = (truthy v \<and> (case v of PyDict d \<Rightarrow> \<not> truthy (get_or_none d ''estimated'') | _ \<Rightarrow> True))"

definition has_reported_usage :: "LLMResponse \<Rightarrow> bool" where
  "has_reported_usage r =
     (let rmd = ll_response_metadata r;
          source = (if ll_usage_source r \<noteq> [] then PyStr (ll_usage_source r) else dict_get_default rmd ''usage_source'' (PyStr []))
      in if source = PyStr ''estimated'' then False
         else reported_mapping (PyDict (map (\<lambda>(k, v). (k, PyInt v)) (ll_usage r)))
              \<or> reported_mapping (get_or_none rmd ''token_usage'') \<or> reported_mapping (get_or_none rmd ''usage''))"

definition blank_block :: "(pyval \<Rightarrow> string) \<Rightarrow> pyval \<Rightarrow> bool" where
  "blank_block str_of b =
     (case b of
        PyStr s \<Rightarrow> str_strip s = []
      | PyDict d \<Rightarrow>
          (let v = (if truthy (get_or_none d ''text'') then get_or_none d ''text'' else get_or_none d ''content'') in
           str_strip (if truthy v then py_format str_of v else []) = []
           \<and> get_or_none d ''type'' \<in> {PyStr ''text'', PyStr []})
      | PyNone \<Rightarrow> True
      | _ \<Rightarrow> False)"

definition is_wholly_empty_response :: "(pyval \<Rightarrow> string) \<Rightarrow> LLMResponse \<Rightarrow> bool" where
  "is_wholly_empty_response str_of r =
     (if ll_tool_calls r \<noteq> [] \<or> response_rejection_reason r \<noteq> [] then False
      else if str_strip (ll_reasoning_content r) \<noteq> [] then False
      else if has_reported_usage r then False
      else if truthy (get_or_none (ll_response_metadata r) ''stop_details'') then False
      else case ll_content r of
             PyStr s \<Rightarrow> str_strip s = []
           | PyList bs \<Rightarrow> list_all (blank_block str_of) bs
           | PyNone \<Rightarrow> True
           | _ \<Rightarrow> False)"

record StreamDelta =
  dl_content :: string
  dl_reasoning_content :: string
  dl_tool_call_deltas :: "pyval pydict list"
  dl_usage :: "int pydict"
  dl_finish_reason :: string
  dl_model :: string
  dl_provider :: string
  dl_reasoning_blocks :: "pyval list"
  dl_stop_details :: "pyval pydict"
  dl_stop_reason :: string
  dl_thinking_history_reset :: bool
  dl_transport_activity :: bool
  dl_usage_source :: string
  dl_refusal :: string
  dl_final_tool_calls :: "pyval list option"

definition stream_delta_has_completion_signal :: "(pyval \<Rightarrow> string) \<Rightarrow> StreamDelta \<Rightarrow> bool" where
  "stream_delta_has_completion_signal str_of d =
     (list_ex (\<lambda>c. truthy (get_or_none c ''name'')) (dl_tool_call_deltas d)
      \<or> \<not> is_wholly_empty_response str_of
           \<lparr>ll_content = (if dl_reasoning_blocks d \<noteq> [] then PyList (dl_reasoning_blocks d) else PyStr (dl_content d)),
            ll_tool_calls = [], ll_reasoning_content = dl_reasoning_content d, ll_finish_reason = dl_finish_reason d,
            ll_model = [], ll_usage = dl_usage d,
            ll_response_metadata = [(''stop_details'', PyDict (dl_stop_details d)), (''stop_reason'', PyStr (dl_stop_reason d)),
              (''refusal'', PyStr (dl_refusal d))], ll_usage_source = dl_usage_source d\<rparr>)"

type_synonym stream = "StreamDelta list \<times> llm_exc option"

text \<open>A stream of a client, with the seconds it took as a message prints them.\<close>

type_synonym client_stream = "stream \<times> string"

text \<open>\<open>_nonempty_stream\<close>: deltas without a signal are held back until one with a signal commits the stream.\<close>

fun nonempty_from ::
  "(pyval \<Rightarrow> string) \<Rightarrow> bool \<Rightarrow> StreamDelta list \<Rightarrow> nat \<Rightarrow> StreamDelta list \<Rightarrow> llm_exc option \<Rightarrow> string \<Rightarrow> stream" where
  "nonempty_from str_of committed pending chunks_seen [] (Some e) elapsed = ([], Some e)"
| "nonempty_from str_of committed pending chunks_seen [] None elapsed =
     ([], if committed then None else Some (LLMEmptyCompletion chunks_seen elapsed))"
| "nonempty_from str_of committed pending chunks_seen (d # ds) err elapsed =
     (if dl_transport_activity d
      then (case nonempty_from str_of committed pending chunks_seen ds err elapsed of (out, e) \<Rightarrow> (d # out, e))
      else if committed
      then (case nonempty_from str_of True pending (chunks_seen + 1) ds err elapsed of (out, e) \<Rightarrow> (d # out, e))
      else if stream_delta_has_completion_signal str_of d
      then (case nonempty_from str_of True [] (chunks_seen + 1) ds err elapsed of (out, e) \<Rightarrow> (pending @ d # out, e))
      else nonempty_from str_of False (pending @ [d]) (chunks_seen + 1) ds err elapsed)"

definition nonempty_stream :: "(pyval \<Rightarrow> string) \<Rightarrow> client_stream \<Rightarrow> stream" where
  "nonempty_stream str_of s = (case s of ((ds, err), elapsed) \<Rightarrow> nonempty_from str_of False [] 0 ds err elapsed)"

text \<open>The deltas that carry output.\<close>

definition output_deltas :: "StreamDelta list \<Rightarrow> StreamDelta list" where
  "output_deltas ds = filter (\<lambda>d. \<not> dl_transport_activity d) ds"

section \<open>The fallback chain\<close>

record LLMFallbackChain =
  ch_entries :: "FallbackEntry list"
  ch_managed :: bool
  ch_start_index :: nat
  ch_serving_index :: nat

definition init_chain :: "FallbackEntry list \<Rightarrow> FallbackTrigger list \<Rightarrow> string + LLMFallbackChain" where
  "init_chain entries default_triggers =
     (if entries = [] then Inl ''LLMFallbackChain requires at least one entry''
      else Inr \<lparr>ch_entries = map (\<lambda>en. if fe_triggers en = None then en\<lparr>fe_triggers := Some default_triggers\<rparr> else en) entries,
                ch_managed = False, ch_start_index = 0, ch_serving_index = 0\<rparr>)"

definition for_logical_call :: "LLMFallbackChain \<Rightarrow> LLMFallbackChain" where
  "for_logical_call ch = ch\<lparr>ch_managed := True, ch_start_index := 0, ch_serving_index := 0\<rparr>"

text \<open>\<open>nested\<close> says whether the serving client could advance itself.\<close>

definition advance_empty_completion :: "LLMFallbackChain \<Rightarrow> bool \<Rightarrow> llm_exc \<Rightarrow> LLMFallbackChain \<times> bool" where
  "advance_empty_completion ch nested e =
     (let i = ch_serving_index ch in
      if ch_managed ch \<and> nested then (ch, True)
      else if \<not> ch_managed ch \<or> length (ch_entries ch) \<le> i + 1 \<or> \<not> entry_matches (ch_entries ch ! i) e then (ch, False)
      else (ch\<lparr>ch_start_index := i + 1\<rparr>, True))"

definition stamp_metadata :: "LLMResponse \<Rightarrow> nat \<Rightarrow> FallbackEntry \<Rightarrow> LLMResponse" where
  "stamp_metadata r idx en =
     (let m = AList.update ''model_actually_used'' (PyStr (fe_model_id en))
                (AList.update ''fallback_used'' (PyInt (int idx)) (ll_response_metadata r))
      in r\<lparr>ll_response_metadata :=
             (if fe_provider en \<noteq> [] then AList.update ''provider_actually_used'' (PyStr (fe_provider en)) m else m)\<rparr>)"

definition serve :: "nat \<Rightarrow> LLMFallbackChain \<Rightarrow> LLMFallbackChain" where
  "serve idx ch = ch\<lparr>ch_serving_index := idx, ch_start_index := (if ch_managed ch then idx else ch_start_index ch)\<rparr>"

definition exhausted :: llm_exc where
  "exhausted = plain_exc ''RuntimeError'' ''LLMFallbackChain exhausted''"

text \<open>The outcome of an entry's call as the chain sees it; an unmanaged chain rejects blanks.\<close>

definition entry_chat ::
  "(pyval \<Rightarrow> string) \<Rightarrow> LLMFallbackChain \<Rightarrow> (nat \<Rightarrow> llm_exc + LLMResponse) \<Rightarrow> nat \<Rightarrow> llm_exc + LLMResponse" where
  "entry_chat str_of ch env i =
     (case env i of
        Inl e \<Rightarrow> Inl e
      | Inr r \<Rightarrow> if \<not> ch_managed ch \<and> is_wholly_empty_response str_of r then Inl (LLMEmptyCompletion 0 ''0.0'') else Inr r)"

function chat_from ::
  "(pyval \<Rightarrow> string) \<Rightarrow> (nat \<Rightarrow> llm_exc + LLMResponse) \<Rightarrow> nat \<Rightarrow> LLMFallbackChain \<Rightarrow>
   (llm_exc + LLMResponse) \<times> LLMFallbackChain" where
  "chat_from str_of env i ch =
     (if length (ch_entries ch) \<le> i then (Inl exhausted, ch)
      else
        let en = ch_entries ch ! i; ch1 = serve i ch in
        case entry_chat str_of ch1 env i of
          Inr r \<Rightarrow> (Inr (stamp_metadata r i en), ch1)
        | Inl e \<Rightarrow> if i = length (ch_entries ch) - 1 \<or> \<not> entry_matches en e then (Inl e, ch1)
                   else chat_from str_of env (i + 1) ch1)"
  by pat_completeness auto
termination
  by (relation "measure (\<lambda>(s, env, i, ch). length (ch_entries ch) - i)") (auto simp: serve_def)

declare chat_from.simps [simp del]

definition chain_chat ::
  "(pyval \<Rightarrow> string) \<Rightarrow> (nat \<Rightarrow> llm_exc + LLMResponse) \<Rightarrow> LLMFallbackChain \<Rightarrow> (llm_exc + LLMResponse) \<times> LLMFallbackChain" where
  "chain_chat str_of env ch = chat_from str_of env (ch_start_index ch) ch"

definition stamp_delta :: "FallbackEntry \<Rightarrow> StreamDelta \<Rightarrow> StreamDelta" where
  "stamp_delta en d = (if fe_provider en \<noteq> [] \<and> \<not> dl_transport_activity d then d\<lparr>dl_provider := fe_provider en\<rparr> else d)"

definition entry_stream :: "(pyval \<Rightarrow> string) \<Rightarrow> LLMFallbackChain \<Rightarrow> (nat \<Rightarrow> client_stream) \<Rightarrow> nat \<Rightarrow> stream" where
  "entry_stream str_of ch env i =
     (case (if ch_managed ch then fst (env i) else nonempty_stream str_of (env i)) of
        (ds, e) \<Rightarrow> (map (stamp_delta (ch_entries ch ! i)) ds, e))"

function stream_from ::
  "(pyval \<Rightarrow> string) \<Rightarrow> (nat \<Rightarrow> client_stream) \<Rightarrow> nat \<Rightarrow> LLMFallbackChain \<Rightarrow> stream \<times> LLMFallbackChain" where
  "stream_from str_of env i ch =
     (if length (ch_entries ch) \<le> i then (([], Some exhausted), ch)
      else
        let ch1 = serve i ch; (ds, err) = entry_stream str_of ch1 env i in
        case err of
          None \<Rightarrow> ((ds, None), ch1)
        | Some e \<Rightarrow>
            if output_deltas ds \<noteq> [] \<or> i = length (ch_entries ch) - 1 \<or> \<not> entry_matches (ch_entries ch ! i) e
            then ((ds, Some e), ch1)
            else case stream_from str_of env (i + 1) ch1 of ((rest, r), ch2) \<Rightarrow> ((ds @ rest, r), ch2))"
  by pat_completeness auto
termination
  by (relation "measure (\<lambda>(s, env, i, ch). length (ch_entries ch) - i)") (auto simp: serve_def)

declare stream_from.simps [simp del]

definition chain_stream ::
  "(pyval \<Rightarrow> string) \<Rightarrow> (nat \<Rightarrow> client_stream) \<Rightarrow> LLMFallbackChain \<Rightarrow> stream \<times> LLMFallbackChain" where
  "chain_stream str_of env ch = stream_from str_of env (ch_start_index ch) ch"

section \<open>The cooldown wrapper\<close>

record CooldownFallbackLLM =
  cd_max_retries :: int
  cd_cooldown_seconds :: real
  cd_retryable :: "llm_exc \<Rightarrow> bool"
  cd_replay_partial_stream :: bool
  cd_cooldown_until :: real

definition init_cooldown :: "int \<Rightarrow> real \<Rightarrow> (llm_exc \<Rightarrow> bool) \<Rightarrow> bool \<Rightarrow> CooldownFallbackLLM" where
  "init_cooldown max_retries cooldown_seconds retryable replay =
     \<lparr>cd_max_retries = max_retries, cd_cooldown_seconds = cooldown_seconds, cd_retryable = retryable,
      cd_replay_partial_stream = replay, cd_cooldown_until = 0\<rparr>"

text \<open>What a call did, in order: the calls of the primary, the pauses between them, the call of the fallback.\<close>

datatype leg = Primary nat | Slept real | FallbackLeg

definition retry_delay :: "nat \<Rightarrow> real \<Rightarrow> real" where
  "retry_delay attempt jitter = min (1 / 2 * 2 ^ attempt) 8 + jitter * (1 / 4)"

definition primary_chat :: "(pyval \<Rightarrow> string) \<Rightarrow> llm_exc + LLMResponse \<Rightarrow> llm_exc + LLMResponse" where
  "primary_chat str_of outcome =
     (case outcome of Inl e \<Rightarrow> Inl e | Inr r \<Rightarrow> if is_wholly_empty_response str_of r then Inl (LLMEmptyCompletion 0 ''0.0'') else Inr r)"

text \<open>The attempts on the primary: its response, or its last error if any.\<close>

function primary_attempts ::
  "(pyval \<Rightarrow> string) \<Rightarrow> CooldownFallbackLLM \<Rightarrow> (nat \<Rightarrow> real) \<Rightarrow> (nat \<Rightarrow> llm_exc + LLMResponse) \<Rightarrow> nat \<Rightarrow> llm_exc option \<Rightarrow>
   (llm_exc option + LLMResponse) \<times> leg list" where
  "primary_attempts str_of cd jitter env attempt last_error =
     (if cd_max_retries cd \<le> int attempt then (Inl last_error, [])
      else case primary_chat str_of (env attempt) of
             Inr r \<Rightarrow> (Inr r, [Primary attempt])
           | Inl e \<Rightarrow>
               if \<not> cd_retryable cd e \<and> \<not> ex_is_empty e then (Inl (Some e), [Primary attempt])
               else if cd_max_retries cd \<le> int attempt + 1 then (Inl (Some e), [Primary attempt])
               else case primary_attempts str_of cd jitter env (attempt + 1) (Some e) of
                      (res, legs) \<Rightarrow> (res, Primary attempt # Slept (retry_delay attempt (jitter attempt)) # legs))"
  by pat_completeness auto
termination
  by (relation "measure (\<lambda>(s, cd, jt, env, n, e). nat (cd_max_retries cd - int n))") auto

declare primary_attempts.simps [simp del]

text \<open>
  \<open>now\<close> is the clock at the call, \<open>later\<close> the clock when the primary is given up, \<open>jitter\<close> the
  random number drawn after each failed attempt.
\<close>

definition cooldown_chat ::
  "(pyval \<Rightarrow> string) \<Rightarrow> CooldownFallbackLLM \<Rightarrow> real \<Rightarrow> real \<Rightarrow> (nat \<Rightarrow> real) \<Rightarrow> (nat \<Rightarrow> llm_exc + LLMResponse) \<Rightarrow>
   llm_exc + LLMResponse \<Rightarrow> (llm_exc + LLMResponse) \<times> leg list \<times> CooldownFallbackLLM" where
  "cooldown_chat str_of cd now later jitter env fallback =
     (if now < cd_cooldown_until cd then (fallback, [FallbackLeg], cd)
      else
        case primary_attempts str_of cd jitter env 0 None of
          (Inr r, legs) \<Rightarrow> (Inr r, legs, cd)
        | (Inl last_error, legs) \<Rightarrow>
            (case fallback of
               Inr r \<Rightarrow> Inr r
             | Inl e \<Rightarrow> (case last_error of None \<Rightarrow> Inl e | Some e0 \<Rightarrow> Inl e0),
             legs @ [FallbackLeg], cd\<lparr>cd_cooldown_until := later + cd_cooldown_seconds cd\<rparr>))"

text \<open>
  Streaming: how the attempts on the primary end: with its stream complete, with an error that is
  raised to the consumer, or given up.
\<close>

datatype stream_end = Finished | RaisedToConsumer llm_exc | GivenUp "llm_exc option"

function primary_streams ::
  "(pyval \<Rightarrow> string) \<Rightarrow> CooldownFallbackLLM \<Rightarrow> (nat \<Rightarrow> client_stream) \<Rightarrow> nat \<Rightarrow> llm_exc option \<Rightarrow> StreamDelta list \<times> stream_end" where
  "primary_streams str_of cd env attempt last_error =
     (if cd_max_retries cd \<le> int attempt then ([], GivenUp last_error)
      else
        let (ds, err) = nonempty_stream str_of (env attempt); yielded = (output_deltas ds \<noteq> []) in
        case err of
          None \<Rightarrow> (ds, Finished)
        | Some e \<Rightarrow>
            if \<not> cd_retryable cd e \<and> \<not> ex_is_empty e then (ds, GivenUp (Some e))
            else if yielded \<and> is_truncated_stream str_of e then (ds, RaisedToConsumer e)
            else if yielded \<and> \<not> cd_replay_partial_stream cd then (ds, GivenUp (Some e))
            else if cd_max_retries cd \<le> int attempt + 1 then (ds, GivenUp (Some e))
            else case primary_streams str_of cd env (attempt + 1) (Some e) of (rest, r) \<Rightarrow> (ds @ rest, r))"
  by pat_completeness auto
termination
  by (relation "measure (\<lambda>(s, cd, env, n, e). nat (cd_max_retries cd - int n))") auto

declare primary_streams.simps [simp del]

definition cooldown_stream ::
  "(pyval \<Rightarrow> string) \<Rightarrow> CooldownFallbackLLM \<Rightarrow> real \<Rightarrow> real \<Rightarrow> (nat \<Rightarrow> client_stream) \<Rightarrow> client_stream \<Rightarrow> stream \<times> CooldownFallbackLLM" where
  "cooldown_stream str_of cd now later env fallback =
     (if now < cd_cooldown_until cd then (nonempty_stream str_of fallback, cd)
      else
        case primary_streams str_of cd env 0 None of
          (ds, Finished) \<Rightarrow> ((ds, None), cd)
        | (ds, RaisedToConsumer e) \<Rightarrow> ((ds, Some e), cd)
        | (ds, GivenUp last_error) \<Rightarrow>
            let (fds, ferr) = nonempty_stream str_of fallback in
            ((ds @ fds, case ferr of None \<Rightarrow> None | Some e \<Rightarrow> (case last_error of None \<Rightarrow> Some e | Some e0 \<Rightarrow> Some e0)),
             cd\<lparr>cd_cooldown_until := later + cd_cooldown_seconds cd\<rparr>))"

text \<open>\<open>with_provider_stamp\<close> of a client that has \<open>chat\<close> and \<open>stream\<close>; without a label the client is left alone.\<close>

definition with_provider_stamp :: "string \<Rightarrow> string \<Rightarrow> LLMFallbackChain option" where
  "with_provider_stamp model_id provider =
     (if provider = [] then None
      else case init_chain [\<lparr>fe_model_id = model_id, fe_triggers = Some [], fe_provider = provider\<rparr>] [OnAnyError] of
             Inl e \<Rightarrow> None
           | Inr ch \<Rightarrow> Some ch)"

section \<open>Properties\<close>

lemma serve_simps [simp]:
  "ch_entries (serve i ch) = ch_entries ch" "ch_managed (serve i ch) = ch_managed ch"
  "serve j (serve i ch) = serve j ch"
  by (simp_all add: serve_def)

lemma entry_chat_serve [simp]: "entry_chat str_of (serve i ch) env j = entry_chat str_of ch env j"
  by (simp add: entry_chat_def split: sum.split)

lemma entry_stream_serve [simp]: "entry_stream str_of (serve i ch) env j = entry_stream str_of ch env j"
  by (simp add: entry_stream_def)

text \<open>What the entries before the serving one did: failed in a way their triggers accept.\<close>

definition passed_over :: "(nat \<Rightarrow> llm_exc + 'r) \<Rightarrow> LLMFallbackChain \<Rightarrow> nat \<Rightarrow> bool" where
  "passed_over outcome ch j = (\<exists>e. outcome j = Inl e \<and> entry_matches (ch_entries ch ! j) e)"

lemma passed_over_serve [simp]: "passed_over outcome (serve i ch) j = passed_over outcome ch j"
  by (simp add: passed_over_def)

lemma passed_over_trigger: "passed_over outcome ch j \<Longrightarrow> fe_triggers (ch_entries ch ! j) \<noteq> Some []"
  by (auto simp: passed_over_def entry_matches_def)

text \<open>How a call ends at entry \<open>k\<close>: with its stamped response, or with an error that goes no further.\<close>

definition chat_ends :: "(nat \<Rightarrow> llm_exc + LLMResponse) \<Rightarrow> LLMFallbackChain \<Rightarrow> nat \<Rightarrow> llm_exc + LLMResponse \<Rightarrow> bool" where
  "chat_ends outcome ch k res =
     (case outcome k of
        Inr r \<Rightarrow> res = Inr (stamp_metadata r k (ch_entries ch ! k))
      | Inl e \<Rightarrow> res = Inl e \<and> (Suc k = length (ch_entries ch) \<or> \<not> entry_matches (ch_entries ch ! k) e))"

lemma chat_ends_serve [simp]: "chat_ends outcome (serve i ch) k res = chat_ends outcome ch k res"
  by (simp add: chat_ends_def split: sum.split)

lemma interval_Suc: "i \<le> (k::nat) \<Longrightarrow> P i \<Longrightarrow> (\<forall>j\<in>{Suc i..<k}. P j) \<Longrightarrow> (\<forall>j\<in>{i..<k}. P j)"
  using Suc_leI le_neq_implies_less by (metis atLeastLessThan_iff)

lemma chat_from_spec:
  assumes "i < length (ch_entries ch)"
  shows "\<exists>k. i \<le> k \<and> k < length (ch_entries ch) \<and> (\<forall>j\<in>{i..<k}. passed_over (entry_chat str_of ch env) ch j)
    \<and> snd (chat_from str_of env i ch) = serve k ch \<and> chat_ends (entry_chat str_of ch env) ch k (fst (chat_from str_of env i ch))"
  using assms
proof (induction "length (ch_entries ch) - i" arbitrary: i ch)
  case (Suc m)
  let ?out = "entry_chat str_of ch env"
  have ex: "entry_chat str_of (serve i ch) env = ?out" by (rule ext) simp
  show ?case
  proof (cases "passed_over ?out ch i \<and> Suc i < length (ch_entries ch)")
    case True
    then have step: "chat_from str_of env i ch = chat_from str_of env (Suc i) (serve i ch)"
      using Suc.prems by (subst chat_from.simps) (auto simp: Let_def passed_over_def)
    have "m = length (ch_entries (serve i ch)) - Suc i" "Suc i < length (ch_entries (serve i ch))"
      using Suc.hyps(2) True by auto
    from Suc.hyps(1) [OF this] obtain k where k: "Suc i \<le> k" "k < length (ch_entries ch)"
      "\<forall>j\<in>{Suc i..<k}. passed_over ?out ch j" "snd (chat_from str_of env i ch) = serve k ch"
      "chat_ends ?out ch k (fst (chat_from str_of env i ch))"
      unfolding step ex serve_simps passed_over_serve chat_ends_serve by blast
    then show ?thesis using True interval_Suc [of i k "passed_over ?out ch"] by (intro exI [of _ k]) auto
  next
    case False
    then have "Suc i = length (ch_entries ch) \<or> \<not> passed_over ?out ch i" using Suc.prems by linarith
    then have "snd (chat_from str_of env i ch) = serve i ch \<and> chat_ends ?out ch i (fst (chat_from str_of env i ch))"
      using Suc.prems
      by (subst (1 2) chat_from.simps) (auto simp: Let_def passed_over_def chat_ends_def split: sum.splits)
    then show ?thesis using Suc.prems by (intro exI [of _ i]) auto
  qed
qed simp

text \<open>
  C15: a call of the chain ends at one entry \<open>k\<close>: every entry from the start index to \<open>k\<close> failed with an
  error its own triggers accept, so an entry with no trigger is never passed; the result is the
  response of \<open>k\<close>, stamped, or its error, which is raised exactly when \<open>k\<close> is the last entry or does
  not match it.  The chain never ends as exhausted, and the serving index names \<open>k\<close>.
\<close>

theorem chain_chat_exact:
  assumes "ch_start_index ch < length (ch_entries ch)"
  shows "\<exists>k. ch_start_index ch \<le> k \<and> k < length (ch_entries ch)
    \<and> (\<forall>j\<in>{ch_start_index ch..<k}. passed_over (entry_chat str_of ch env) ch j \<and> fe_triggers (ch_entries ch ! j) \<noteq> Some [])
    \<and> snd (chain_chat str_of env ch) = serve k ch
    \<and> chat_ends (entry_chat str_of ch env) ch k (fst (chain_chat str_of env ch))"
  using chat_from_spec [OF assms, of str_of env] passed_over_trigger unfolding chain_chat_def by blast

definition two_entries :: LLMFallbackChain where
  "two_entries = \<lparr>ch_entries = [\<lparr>fe_model_id = ''a'', fe_triggers = Some [OnTimeout], fe_provider = []\<rparr>,
     \<lparr>fe_model_id = ''b'', fe_triggers = Some [], fe_provider = ''p''\<rparr>], ch_managed = False, ch_start_index = 0, ch_serving_index = 0\<rparr>"

theorem chain_chat_exact_witness:
  "ch_start_index two_entries < length (ch_entries two_entries)
   \<and> (\<exists>k<2. snd (chain_chat (\<lambda>v. []) (\<lambda>i. Inl (plain_exc ''E'' ''timeout'')) two_entries) = serve k two_entries
        \<and> chat_ends (entry_chat (\<lambda>v. []) two_entries (\<lambda>i. Inl (plain_exc ''E'' ''timeout''))) two_entries k
            (fst (chain_chat (\<lambda>v. []) (\<lambda>i. Inl (plain_exc ''E'' ''timeout'')) two_entries)))"
proof -
  have s: "ch_start_index two_entries < length (ch_entries two_entries)" "length (ch_entries two_entries) = 2"
    by (simp_all add: two_entries_def)
  show ?thesis
    using chain_chat_exact [OF s(1), of "\<lambda>v. []" "\<lambda>i. Inl (plain_exc ''E'' ''timeout'')"] s by auto
qed

lemma output_deltas_simps [simp]:
  "output_deltas [] = []" "output_deltas (ds @ es) = output_deltas ds @ output_deltas es"
  "output_deltas (d # ds) = (if dl_transport_activity d then output_deltas ds else d # output_deltas ds)"
  by (simp_all add: output_deltas_def)

text \<open>An entry of a stream is passed over only before any output.\<close>

definition stream_passed_over :: "(nat \<Rightarrow> stream) \<Rightarrow> LLMFallbackChain \<Rightarrow> nat \<Rightarrow> bool" where
  "stream_passed_over outcome ch j =
     (\<exists>e. snd (outcome j) = Some e \<and> entry_matches (ch_entries ch ! j) e \<and> output_deltas (fst (outcome j)) = [])"

lemma stream_passed_over_serve [simp]: "stream_passed_over outcome (serve i ch) j = stream_passed_over outcome ch j"
  by (simp add: stream_passed_over_def)

text \<open>How a stream ends at entry \<open>k\<close>: with its output and its end, and an error there goes no further.\<close>

definition stream_ends :: "(nat \<Rightarrow> stream) \<Rightarrow> LLMFallbackChain \<Rightarrow> nat \<Rightarrow> stream \<Rightarrow> bool" where
  "stream_ends outcome ch k res =
     (output_deltas (fst res) = output_deltas (fst (outcome k)) \<and> snd res = snd (outcome k)
      \<and> (Suc k = length (ch_entries ch) \<or> \<not> stream_passed_over outcome ch k))"

lemma stream_ends_serve [simp]: "stream_ends outcome (serve i ch) k res = stream_ends outcome ch k res"
  by (simp add: stream_ends_def)

lemma stream_from_spec:
  assumes "i < length (ch_entries ch)"
  shows "\<exists>k. i \<le> k \<and> k < length (ch_entries ch) \<and> (\<forall>j\<in>{i..<k}. stream_passed_over (entry_stream str_of ch env) ch j)
    \<and> snd (stream_from str_of env i ch) = serve k ch
    \<and> stream_ends (entry_stream str_of ch env) ch k (fst (stream_from str_of env i ch))"
  using assms
proof (induction "length (ch_entries ch) - i" arbitrary: i ch)
  case (Suc m)
  let ?out = "entry_stream str_of ch env"
  have ex: "entry_stream str_of (serve i ch) env = ?out" by (rule ext) simp
  obtain ds err where en: "?out i = (ds, err)" by (cases "?out i")
  show ?case
  proof (cases "stream_passed_over ?out ch i \<and> Suc i < length (ch_entries ch)")
    case True
    then obtain e where e: "err = Some e" "entry_matches (ch_entries ch ! i) e" "output_deltas ds = []"
      using en by (auto simp: stream_passed_over_def)
    obtain rest x ch2 where rec: "stream_from str_of env (Suc i) (serve i ch) = ((rest, x), ch2)"
      by (cases "stream_from str_of env (Suc i) (serve i ch)") auto
    then have step: "stream_from str_of env i ch = ((ds @ rest, x), ch2)"
      using Suc.prems True e en by (subst stream_from.simps) (auto simp: Let_def)
    have "m = length (ch_entries (serve i ch)) - Suc i" "Suc i < length (ch_entries (serve i ch))"
      using Suc.hyps(2) True by auto
    from Suc.hyps(1) [OF this] obtain k where k: "Suc i \<le> k" "k < length (ch_entries ch)"
      "\<forall>j\<in>{Suc i..<k}. stream_passed_over ?out ch j" "ch2 = serve k ch" "stream_ends ?out ch k (rest, x)"
      unfolding rec ex serve_simps stream_passed_over_serve stream_ends_serve fst_conv snd_conv by blast
    have "stream_ends ?out ch k (ds @ rest, x)" using k(5) e(3) by (simp add: stream_ends_def)
    then show ?thesis using k True interval_Suc [of i k "stream_passed_over ?out ch"] by (intro exI [of _ k]) (auto simp: step)
  next
    case False
    then have "stream_from str_of env i ch = ((ds, err), serve i ch)"
      using Suc.prems en by (subst stream_from.simps) (auto simp: Let_def stream_passed_over_def split: option.split)
    moreover have "stream_ends ?out ch i (ds, err)" using False en Suc.prems by (auto simp: stream_ends_def)
    ultimately show ?thesis using Suc.prems by (intro exI [of _ i]) auto
  qed
qed simp

text \<open>
  C16: a stream of the chain carries the output of one entry only: the entries before it failed with an
  accepted error and without any output, and once an entry gave output its end, complete or not,
  is the end of the stream.
\<close>

theorem chain_stream_single_entry:
  assumes "ch_start_index ch < length (ch_entries ch)"
  shows "\<exists>k. ch_start_index ch \<le> k \<and> k < length (ch_entries ch)
    \<and> (\<forall>j\<in>{ch_start_index ch..<k}. stream_passed_over (entry_stream str_of ch env) ch j)
    \<and> output_deltas (fst (fst (chain_stream str_of env ch))) = output_deltas (fst (entry_stream str_of ch env k))
    \<and> snd (fst (chain_stream str_of env ch)) = snd (entry_stream str_of ch env k)
    \<and> snd (chain_stream str_of env ch) = serve k ch"
  using stream_from_spec [OF assms, of str_of env] unfolding chain_stream_def stream_ends_def by blast

theorem chain_stream_single_entry_witness:
  "ch_start_index two_entries < length (ch_entries two_entries)
   \<and> (\<exists>k<2. snd (chain_stream (\<lambda>v. []) (\<lambda>i. (([], Some (plain_exc ''E'' ''timeout'')), ''1.0'')) two_entries) = serve k two_entries)"
proof -
  have s: "ch_start_index two_entries < length (ch_entries two_entries)" "length (ch_entries two_entries) = 2"
    by (simp_all add: two_entries_def)
  show ?thesis
    using chain_stream_single_entry [OF s(1), of "\<lambda>v. []" "\<lambda>i. (([], Some (plain_exc ''E'' ''timeout'')), ''1.0'')"] s by auto
qed

text \<open>
  The filter of blank streams, exactly: a stream with a completion signal passes with all its
  output and its own end, one without passes no output and ends as an empty completion that counts
  the held-back deltas, unless it ends with an error of its own.
\<close>

definition signals :: "(pyval \<Rightarrow> string) \<Rightarrow> StreamDelta list \<Rightarrow> bool" where
  "signals str_of ds = list_ex (stream_delta_has_completion_signal str_of) (output_deltas ds)"

lemma nonempty_committed:
  "nonempty_from str_of True pending n ds err elapsed = (ds, err)"
  by (induction ds arbitrary: n pending) (cases err; simp)+

lemma nonempty_from_spec:
  assumes "output_deltas pending = pending"
  shows "output_deltas (fst (nonempty_from str_of False pending n ds err elapsed))
           = (if signals str_of ds then pending @ output_deltas ds else [])
       \<and> snd (nonempty_from str_of False pending n ds err elapsed)
           = (if signals str_of ds \<or> err \<noteq> None then err
              else Some (LLMEmptyCompletion (n + length (output_deltas ds)) elapsed))"
  using assms
proof (induction ds arbitrary: pending n)
  case (Cons d ds)
  have held: "output_deltas (pending @ [d]) = pending @ [d]" if "\<not> dl_transport_activity d"
    using Cons.prems that by simp
  show ?case
    using Cons.IH [OF Cons.prems, of n] Cons.IH [OF held, of "n + 1"] Cons.prems
    by (cases "dl_transport_activity d"; cases "stream_delta_has_completion_signal str_of d")
      (simp_all add: signals_def nonempty_committed case_prod_beta)
qed (cases err; simp add: signals_def)

theorem nonempty_stream_exact:
  "output_deltas (fst (nonempty_stream str_of ((ds, err), elapsed))) = (if signals str_of ds then output_deltas ds else [])
   \<and> snd (nonempty_stream str_of ((ds, err), elapsed))
     = (if signals str_of ds \<or> err \<noteq> None then err
        else Some (LLMEmptyCompletion (length (output_deltas ds)) elapsed))"
  using nonempty_from_spec [of "[]" str_of 0 ds err elapsed] by (simp add: nonempty_stream_def)

definition is_primary :: "leg \<Rightarrow> bool" where
  "is_primary l = (case l of Primary j \<Rightarrow> True | _ \<Rightarrow> False)"

text \<open>What the wrapper retries.\<close>

definition retried :: "CooldownFallbackLLM \<Rightarrow> llm_exc \<Rightarrow> bool" where
  "retried cd e = (cd_retryable cd e \<or> ex_is_empty e)"

lemma primary_attempts_spec:
  assumes "primary_attempts str_of cd jitter env a le = (res, legs)"
  shows "\<exists>n\<ge>a. int n \<le> max (int a) (cd_max_retries cd) \<and> filter is_primary legs = map Primary [a..<n]
    \<and> FallbackLeg \<notin> set legs \<and> (\<forall>j\<in>{a..<n - 1}. \<exists>e. primary_chat str_of (env j) = Inl e \<and> retried cd e)
    \<and> (case res of Inr r \<Rightarrow> a < n \<and> primary_chat str_of (env (n - 1)) = Inr r
       | Inl lo \<Rightarrow> n = a \<and> lo = le \<or> a < n \<and> (\<exists>e. primary_chat str_of (env (n - 1)) = Inl e \<and> lo = Some e))"
  using assms
proof (induction str_of cd jitter env a le arbitrary: res legs rule: primary_attempts.induct)
  case (1 str_of cd jitter env a le)
  consider (out) "cd_max_retries cd \<le> int a"
    | (more) e where "int a + 1 < cd_max_retries cd" "primary_chat str_of (env a) = Inl e" "retried cd e"
    | (stop) e where "int a < cd_max_retries cd" "primary_chat str_of (env a) = Inl e"
        "\<not> retried cd e \<or> cd_max_retries cd \<le> int a + 1"
    | (ok) r where "int a < cd_max_retries cd" "primary_chat str_of (env a) = Inr r"
    by (cases "cd_max_retries cd \<le> int a"; cases "cd_max_retries cd \<le> int a + 1"; cases "primary_chat str_of (env a)")
      (force simp: not_le)+
  then show ?case
  proof cases
    case out
    then show ?thesis using "1.prems" by (subst (asm) primary_attempts.simps) (auto intro!: exI [of _ a])
  next
    case (more e)
    obtain res' legs' where rec: "primary_attempts str_of cd jitter env (a + 1) (Some e) = (res', legs')"
      by (cases "primary_attempts str_of cd jitter env (a + 1) (Some e)")
    have eq: "res = res'" "legs = Primary a # Slept (retry_delay a (jitter a)) # legs'"
      using "1.prems" more rec by (subst (asm) primary_attempts.simps; auto simp: retried_def)+
    from "1.IH" [OF _ more(2) _ _ rec] more obtain n where n: "a + 1 \<le> n" "int n \<le> max (int (a + 1)) (cd_max_retries cd)"
      "filter is_primary legs' = map Primary [a + 1..<n]" "FallbackLeg \<notin> set legs'"
      "\<forall>j\<in>{a + 1..<n - 1}. \<exists>e. primary_chat str_of (env j) = Inl e \<and> retried cd e"
      "case res' of Inr r \<Rightarrow> a + 1 < n \<and> primary_chat str_of (env (n - 1)) = Inr r
       | Inl lo \<Rightarrow> n = a + 1 \<and> lo = Some e \<or> a + 1 < n \<and> (\<exists>e. primary_chat str_of (env (n - 1)) = Inl e \<and> lo = Some e)"
      by (auto simp: retried_def)
    have "filter is_primary legs = map Primary [a..<n]" using n eq by (simp add: is_primary_def upt_conv_Cons)
    moreover have "\<forall>j\<in>{a..<n - 1}. \<exists>e. primary_chat str_of (env j) = Inl e \<and> retried cd e"
      using n(1,5) more by (intro interval_Suc [of a "n - 1"]; simp)
    ultimately show ?thesis using n more unfolding eq
      by (intro exI [of _ n]) (auto split: sum.splits)
  next
    case (stop e)
    then show ?thesis using "1.prems"
      by (subst (asm) primary_attempts.simps) (auto simp: retried_def is_primary_def intro!: exI [of _ "a + 1"] split: if_splits)
  next
    case (ok r)
    then show ?thesis using "1.prems"
      by (subst (asm) primary_attempts.simps) (auto simp: is_primary_def intro!: exI [of _ "a + 1"])
  qed
qed


lemma one_failure:
  "cooldown_chat (\<lambda>v. []) (init_cooldown 1 60 legacy_retryable False) 5 6 (\<lambda>i. 0) (\<lambda>i. Inl (plain_exc ''E'' ''x'')) (Inl (plain_exc ''F'' ''y''))
   = (Inl (plain_exc ''E'' ''x''), [Primary 0, FallbackLeg], (init_cooldown 1 60 legacy_retryable False)\<lparr>cd_cooldown_until := 66\<rparr>)"
  by (simp add: cooldown_chat_def init_cooldown_def primary_attempts.simps primary_chat_def)


lemma cooldown_chat_cooling:
  "now < cd_cooldown_until cd \<Longrightarrow> cooldown_chat str_of cd now later jitter env fallback = (fallback, [FallbackLeg], cd)"
  by (simp add: cooldown_chat_def)

text \<open>The pauses are between half a second and eight and a quarter.\<close>

lemma retry_delay_bounds: "0 \<le> jitter \<Longrightarrow> jitter < 1 \<Longrightarrow> 1 / 2 \<le> retry_delay k jitter \<and> retry_delay k jitter < 33 / 4"
proof -
  assume "0 \<le> jitter" "jitter < 1"
  moreover define x where "x = (2::real) ^ k"
  moreover have "1 \<le> x" by (simp add: x_def)
  ultimately show ?thesis by (auto simp: retry_delay_def min_def x_def [symmetric])
qed

text \<open>Streams: without replaying, all attempts but the last one gave no output.\<close>

definition attempt_stream :: "(pyval \<Rightarrow> string) \<Rightarrow> (nat \<Rightarrow> client_stream) \<Rightarrow> nat \<Rightarrow> stream" where
  "attempt_stream str_of env n = nonempty_stream str_of (env n)"

definition ends_attempt :: "(pyval \<Rightarrow> string) \<Rightarrow> CooldownFallbackLLM \<Rightarrow> stream \<Rightarrow> stream_end \<Rightarrow> bool" where
  "ends_attempt str_of cd s e =
     (case e of
        Finished \<Rightarrow> snd s = None
      | RaisedToConsumer x \<Rightarrow> snd s = Some x \<and> is_truncated_stream str_of x \<and> output_deltas (fst s) \<noteq> []
      | GivenUp x \<Rightarrow> x = snd s \<and> x \<noteq> None
          \<and> (output_deltas (fst s) = [] \<or> \<not> is_truncated_stream str_of (the x) \<or> \<not> retried cd (the x)))"

lemma primary_streams_spec:
  assumes "primary_streams str_of cd env a le = (ds, e)" "\<not> cd_replay_partial_stream cd"
  shows "(ds = [] \<and> e = GivenUp le) \<or>
    (\<exists>n\<ge>a. int n < cd_max_retries cd \<and> output_deltas ds = output_deltas (fst (attempt_stream str_of env n))
       \<and> ends_attempt str_of cd (attempt_stream str_of env n) e)"
  using assms
proof (induction str_of cd env a le arbitrary: ds e rule: primary_streams.induct)
  case (1 str_of cd env a le)
  obtain os err where s: "nonempty_stream str_of (env a) = (os, err)" by (cases "nonempty_stream str_of (env a)")
  show ?case
  proof (cases "\<exists>x. err = Some x \<and> retried cd x \<and> output_deltas os = [] \<and> int a + 1 < cd_max_retries cd")
    case True
    then obtain x where x: "err = Some x" "retried cd x" "output_deltas os = []" "int a + 1 < cd_max_retries cd" by blast
    obtain rs e' where rec: "primary_streams str_of cd env (a + 1) (Some x) = (rs, e')"
      by (cases "primary_streams str_of cd env (a + 1) (Some x)")
    have eq: "ds = os @ rs" "e = e'"
      using "1.prems" x rec s by (subst (asm) primary_streams.simps; auto simp: retried_def)+
    have ih: "(rs = [] \<and> e' = GivenUp (Some x)) \<or>
      (\<exists>n\<ge>a + 1. int n < cd_max_retries cd \<and> output_deltas rs = output_deltas (fst (attempt_stream str_of env n))
       \<and> ends_attempt str_of cd (attempt_stream str_of env n) e')"
      using "1.IH" [OF _ s [symmetric] _ _ x(1) _ _ _ _ rec] x "1.prems"(2) by (auto simp: retried_def)
    then show ?thesis
    proof
      assume "rs = [] \<and> e' = GivenUp (Some x)"
      then show ?thesis using x s unfolding eq
        by (intro disjI2 exI [of _ a]) (auto simp: attempt_stream_def ends_attempt_def)
    qed (auto simp: eq x intro: Suc_leD)
  next
    case False
    then show ?thesis using "1.prems" s
      by (subst (asm) primary_streams.simps)
        (auto simp: attempt_stream_def ends_attempt_def retried_def Let_def split: option.splits if_splits intro!: exI [of _ a])
  qed
qed

text \<open>
  A stream of the cooldown wrapper that does not replay: its output is that of at most one attempt
  on the primary, followed, when the primary was given up, by that of the fallback.  A retried
  truncation after output is raised to the consumer and no output of the fallback follows it.
\<close>

theorem cooldown_stream_one_attempt:
  assumes "cooldown_stream str_of cd now later env fallback = ((ds, err), cd')"
    "cd_cooldown_until cd \<le> now" "\<not> cd_replay_partial_stream cd"
  shows "(\<exists>n. int n < cd_max_retries cd \<and> cd' = cd \<and> output_deltas ds = output_deltas (fst (attempt_stream str_of env n))
            \<and> err = snd (attempt_stream str_of env n) \<and> (err = None \<or> is_truncated_stream str_of (the err)))
       \<or> (cd' = cd\<lparr>cd_cooldown_until := later + cd_cooldown_seconds cd\<rparr>
          \<and> (\<exists>out. output_deltas ds = out @ output_deltas (fst (nonempty_stream str_of fallback))
               \<and> (out = [] \<or> (\<exists>n x. int n < cd_max_retries cd \<and> out = output_deltas (fst (attempt_stream str_of env n))
                      \<and> snd (attempt_stream str_of env n) = Some x \<and> \<not> (is_truncated_stream str_of x \<and> retried cd x))))
          \<and> (err = None) = (snd (nonempty_stream str_of fallback) = None))"
proof -
  obtain ps e where p: "primary_streams str_of cd env 0 None = (ps, e)" by (cases "primary_streams str_of cd env 0 None")
  obtain fs fe where f: "nonempty_stream str_of fallback = (fs, fe)" by (cases "nonempty_stream str_of fallback")
  note spec = primary_streams_spec [OF p assms(3)]
  show ?thesis
  proof (cases e)
    case (GivenUp le)
    then have "ds = ps @ fs" "cd' = cd\<lparr>cd_cooldown_until := later + cd_cooldown_seconds cd\<rparr>" "(err = None) = (fe = None)"
      using assms(1,2) p f by (auto simp: cooldown_stream_def split: option.splits)
    moreover have "output_deltas ps = [] \<or> (\<exists>n x. int n < cd_max_retries cd
      \<and> output_deltas ps = output_deltas (fst (attempt_stream str_of env n))
      \<and> snd (attempt_stream str_of env n) = Some x \<and> \<not> (is_truncated_stream str_of x \<and> retried cd x))"
      using spec GivenUp by (fastforce simp: ends_attempt_def)
    ultimately show ?thesis using f by simp
  qed (use assms(1,2) p spec in \<open>auto simp: cooldown_stream_def ends_attempt_def\<close>)
qed

lemma one_blank_stream:
  "cooldown_stream (\<lambda>v. []) (init_cooldown 1 60 legacy_retryable False) 5 6 (\<lambda>i. (([], None), ''1.0'')) (([], None), ''2.0'')
   = (([], Some (LLMEmptyCompletion 0 ''1.0'')), (init_cooldown 1 60 legacy_retryable False)\<lparr>cd_cooldown_until := 66\<rparr>)"
  by (simp add: cooldown_stream_def init_cooldown_def primary_streams.simps nonempty_stream_def)

theorem cooldown_stream_one_attempt_witness:
  "cd_cooldown_until (init_cooldown 1 60 legacy_retryable False) \<le> 5
   \<and> \<not> cd_replay_partial_stream (init_cooldown 1 60 legacy_retryable False)
   \<and> (\<exists>out. output_deltas [] = out @ output_deltas (fst (nonempty_stream (\<lambda>v. []) (([], None), ''2.0''))))"
proof -
  have h: "cd_cooldown_until (init_cooldown 1 60 legacy_retryable False) \<le> 5"
    "\<not> cd_replay_partial_stream (init_cooldown 1 60 legacy_retryable False)" by (simp_all add: init_cooldown_def)
  from cooldown_stream_one_attempt [OF one_blank_stream h] show ?thesis
    using h by (auto simp: init_cooldown_def)
qed

end
