(* ===== verification/Observers.thy ===== *)
theory Observers
  imports Loop_Types Stop_Signal Wall_Time
begin

text \<open>
  The observers of \<^verbatim>\<open>components/observers/\<close> that watch budgets, turns and the wall clock.  An observer
  is its state; a hook takes the context of the turn and gives its answer, the new state and the
  shared metadata.  Strings are written with ASCII dashes.
\<close>

section \<open>The context of a turn\<close>

text \<open>The fields the observers read; of a usage mapping, its counts.\<close>

record TurnContext =
  tc_turn :: int
  tc_max_turns :: int
  tc_ai_text :: string
  tc_usage :: "int pydict option"
  tc_metadata :: "pyval pydict"

type_synonym 's answer = "Intervention option \<times> 's \<times> pyval pydict"

definition first_count :: "int pydict \<Rightarrow> string \<Rightarrow> string \<Rightarrow> int" where
  "first_count usage k k' =
     (let a = dict_get_default usage k 0 in if a \<noteq> 0 then a else dict_get_default usage k' 0)"

definition usage_input_tokens :: "int pydict option \<Rightarrow> int" where
  "usage_input_tokens usage = (case usage of None \<Rightarrow> 0 | Some u \<Rightarrow> first_count u ''prompt_tokens'' ''input_tokens'')"

definition usage_output_tokens :: "int pydict option \<Rightarrow> int" where
  "usage_output_tokens usage = (case usage of None \<Rightarrow> 0 | Some u \<Rightarrow> first_count u ''completion_tokens'' ''output_tokens'')"

text \<open>\<open>f"{n:,}"\<close> and \<open>int(x)\<close> of a float.\<close>

definition int_commas :: "int \<Rightarrow> string" where
  "int_commas i = (if i < 0 then CHR ''-'' # with_commas (nat (- i)) else with_commas (nat i))"

definition py_trunc :: "real \<Rightarrow> int" where
  "py_trunc x = (if x < 0 then \<lceil>x\<rceil> else \<lfloor>x\<rfloor>)"

section \<open>Token budget\<close>

record BudgetObserver =
  bo_max_tokens :: int
  bo_warn_ratio :: real
  bo_tokens_used :: int
  bo_warned :: bool

definition init_budget_observer :: "int \<Rightarrow> real \<Rightarrow> BudgetObserver" where
  "init_budget_observer max_tokens warn_ratio =
     \<lparr>bo_max_tokens = max_tokens, bo_warn_ratio = warn_ratio, bo_tokens_used = 0, bo_warned = False\<rparr>"

definition budget_loop_start :: "BudgetObserver \<Rightarrow> BudgetObserver" where
  "budget_loop_start b = b\<lparr>bo_tokens_used := 0, bo_warned := False\<rparr>"

definition budget_llm_response :: "TurnContext \<Rightarrow> BudgetObserver \<Rightarrow> BudgetObserver answer" where
  "budget_llm_response ctx b =
     (if tc_usage ctx = None then (None, b, tc_metadata ctx)
      else
        let used = bo_tokens_used b + (usage_input_tokens (tc_usage ctx) + usage_output_tokens (tc_usage ctx)) in
        (None, b\<lparr>bo_tokens_used := used\<rparr>,
         AList.update ''budget_tokens_limit'' (PyInt (bo_max_tokens b))
           (AList.update ''budget_tokens_used'' (PyInt used) (tc_metadata ctx))))"

definition budget_ratio :: "BudgetObserver \<Rightarrow> real" where
  "budget_ratio b = (if 0 < bo_max_tokens b then of_int (bo_tokens_used b) / of_int (bo_max_tokens b) else 0)"

definition budget_turn_end :: "TurnContext \<Rightarrow> BudgetObserver \<Rightarrow> BudgetObserver answer" where
  "budget_turn_end ctx b =
     (let ratio = budget_ratio b in
      if 1 \<le> ratio then
        (Some (no_intervention\<lparr>iv_stop_reason := Some ''budget_exhausted'', iv_inject_messages := Some
           [''Token budget exhausted ('' @ int_commas (bo_tokens_used b) @ '' / '' @ int_commas (bo_max_tokens b)
            @ '' tokens). Stopping the loop to avoid exceeding limits.'']\<rparr>), b, tc_metadata ctx)
      else if bo_warn_ratio b \<le> ratio \<and> \<not> bo_warned b then
        (Some (inject_only
           [''Warning: '' @ str_of_int (py_trunc (ratio * 100)) @ ''% of token budget used (''
            @ int_commas (bo_tokens_used b) @ '' / '' @ int_commas (bo_max_tokens b) @ ''). Consider wrapping up soon.'']),
         b\<lparr>bo_warned := True\<rparr>, tc_metadata ctx)
      else (None, b, tc_metadata ctx))"

section \<open>Instructions given once\<close>

text \<open>\<open>ConcludePhaseObserver\<close>\<close>

record ConcludePhaseObserver =
  cp_ratio :: real
  cp_message :: string
  cp_fired :: bool

definition conclude_default_message :: string where
  "conclude_default_message = ''[conclude phase] You are nearing the turn budget for this task. Stop further investigation and emit your final structured output now (the JSON block your task requires). Use only the information you already have. Further tool calls will be cut off.''"

definition init_conclude :: "real \<Rightarrow> string option \<Rightarrow> ConcludePhaseObserver option" where
  "init_conclude ratio message =
     (if \<not> (0 < ratio \<and> ratio \<le> 1) then None
      else Some \<lparr>cp_ratio = ratio, cp_message = (case message of None \<Rightarrow> conclude_default_message | Some m \<Rightarrow> m),
                 cp_fired = False\<rparr>)"

definition conclude_turn_end :: "TurnContext \<Rightarrow> ConcludePhaseObserver \<Rightarrow> ConcludePhaseObserver answer" where
  "conclude_turn_end ctx o1 =
     (if cp_fired o1 then (None, o1, tc_metadata ctx)
      else if tc_max_turns ctx \<le> 0 then (None, o1, tc_metadata ctx)
      else if of_int (tc_turn ctx) / of_int (tc_max_turns ctx) < cp_ratio o1 then (None, o1, tc_metadata ctx)
      else (Some (inject_only [cp_message o1]), o1\<lparr>cp_fired := True\<rparr>, tc_metadata ctx))"

text \<open>\<open>FinalizationReserveObserver\<close>\<close>

record FinalizationReserveObserver =
  fr_reserve_turns :: int
  fr_message :: string
  fr_fired :: bool

definition DEFAULT_FINALIZATION_MESSAGE :: string where
  "DEFAULT_FINALIZATION_MESSAGE = ''The execution budget is entering its finalization reserve. Stop starting new exploration. Use the remaining tool-enabled turns to finish and save the best currently achievable deliverables, run only essential checks, and then provide a complete plain-text answer. If some requested work cannot be completed, still preserve the existing artifacts and answer with the best supported result instead of returning no answer.''"

definition init_reserve :: "int \<Rightarrow> string \<Rightarrow> FinalizationReserveObserver" where
  "init_reserve reserve_turns message =
     \<lparr>fr_reserve_turns = max 1 reserve_turns,
      fr_message = (if str_strip message \<noteq> [] then str_strip message else DEFAULT_FINALIZATION_MESSAGE), fr_fired = False\<rparr>"

definition reserve_turn_end :: "TurnContext \<Rightarrow> FinalizationReserveObserver \<Rightarrow> FinalizationReserveObserver answer" where
  "reserve_turn_end ctx o1 =
     (let trigger_turn = max 2 (tc_max_turns ctx - fr_reserve_turns o1) in
      if tc_max_turns ctx - 1 \<le> trigger_turn then (None, o1, tc_metadata ctx)
      else if fr_fired o1 \<or> tc_turn ctx < trigger_turn then (None, o1, tc_metadata ctx)
      else (Some (inject_only [fr_message o1]), o1\<lparr>fr_fired := True\<rparr>,
            AList.update ''finalization_reserve_turns'' (PyInt (max 0 (tc_max_turns ctx - tc_turn ctx)))
              (AList.update ''finalization_phase'' (PyBool True) (tc_metadata ctx))))"

text \<open>\<open>LastTurnForcer\<close>\<close>

record LastTurnForcer =
  lt_terminal :: string
  lt_fired :: bool

definition init_forcer :: "string \<Rightarrow> LastTurnForcer" where
  "init_forcer terminal_tool = \<lparr>lt_terminal = terminal_tool, lt_fired = False\<rparr>"

definition forcer_turn_end :: "TurnContext \<Rightarrow> LastTurnForcer \<Rightarrow> LastTurnForcer answer" where
  "forcer_turn_end ctx o1 =
     (if lt_fired o1 \<or> tc_turn ctx \<noteq> tc_max_turns ctx - 1 then (None, o1, tc_metadata ctx)
      else
        let instruction = (if lt_terminal o1 \<noteq> [] then ''Call `'' @ lt_terminal o1 @ ''` now with your complete answer''
                           else ''Deliver your COMPLETE answer as plain text now (no tool call)'') in
        (Some (inject_only [''This is your penultimate turn. '' @ instruction @ '' -- no more search rounds will be accepted. The next turn will run without tools, so any remaining work must land in this response.'']),
         o1\<lparr>lt_fired := True\<rparr>, AList.update ''_llm_strip_tools'' (PyBool True) (tc_metadata ctx)))"

section \<open>Context size\<close>

record ContextSizeGuard =
  cg_limit :: int
  cg_tripped :: bool
  cg_force_compaction_first :: bool
  cg_requested_at_seq :: "int option"
  cg_rearms_left :: int

definition init_size_guard :: "int \<Rightarrow> bool \<Rightarrow> ContextSizeGuard option" where
  "init_size_guard max_input_tokens force_first =
     (if max_input_tokens \<le> 0 then None
      else Some \<lparr>cg_limit = max_input_tokens, cg_tripped = False, cg_force_compaction_first = force_first,
                 cg_requested_at_seq = None, cg_rearms_left = 0\<rparr>)"

definition size_loop_start :: "ContextSizeGuard \<Rightarrow> ContextSizeGuard" where
  "size_loop_start g = g\<lparr>cg_tripped := False, cg_requested_at_seq := None, cg_rearms_left := 0\<rparr>"

text \<open>\<open>int(ctx.metadata.get(COMPACTION_SEQ_KEY, 0) or 0)\<close>; \<open>None\<close> where it raises.\<close>

definition compaction_seq :: "pyval pydict \<Rightarrow> int option" where
  "compaction_seq md =
     (let v = dict_get_default md ''_compaction_seq'' (PyInt 0) in if truthy v then py_int v else Some 0)"

definition size_stop :: "int \<Rightarrow> int \<Rightarrow> Intervention" where
  "size_stop used limit =
     no_intervention\<lparr>iv_stop_reason := Some ''budget_exhausted'', iv_inject_messages := Some
       [''Context approaching the model's limit ('' @ int_commas used @ '' > '' @ int_commas limit
        @ '' tokens). Stopping now to deliver the answer based on information gathered so far.'']\<rparr>"

text \<open>An answer that raises is no answer and leaves the state as it is.\<close>

definition size_llm_response :: "TurnContext \<Rightarrow> ContextSizeGuard \<Rightarrow> ContextSizeGuard answer" where
  "size_llm_response ctx g =
     (if cg_tripped g \<or> tc_usage ctx = None then (None, g, tc_metadata ctx)
      else
        let used = usage_input_tokens (tc_usage ctx);
            force = AList.update ''_force_compaction'' (PyBool True) (tc_metadata ctx);
            stop = (Some (size_stop used (cg_limit g)), g\<lparr>cg_tripped := True\<rparr>, tc_metadata ctx)
        in if used \<le> cg_limit g then (None, g\<lparr>cg_requested_at_seq := None\<rparr>, tc_metadata ctx)
           else if \<not> cg_force_compaction_first g then stop
           else
             case compaction_seq (tc_metadata ctx) of
               None \<Rightarrow> (None, g, tc_metadata ctx)
             | Some seq \<Rightarrow>
                 (case cg_requested_at_seq g of
                    None \<Rightarrow> (None, g\<lparr>cg_requested_at_seq := Some seq, cg_rearms_left := 1\<rparr>, force)
                  | Some asked \<Rightarrow>
                      if seq \<le> asked \<and> 0 < cg_rearms_left g
                      then (None, g\<lparr>cg_rearms_left := cg_rearms_left g - 1\<rparr>, force)
                      else stop))"

section \<open>Stop signal\<close>

definition STOP_SIGNAL_PROMPT :: string where
  "STOP_SIGNAL_PROMPT = ''[stop signal] The coordinator has asked you to STOP immediately. Do not start any new searches, fetches, code runs, or other exploration. If you already have genuinely valuable findings, call `submit_report` now with a brief report of what you have so far. If you have nothing worth reporting, do NOT call submit_report -- just stop here.''"

definition stop_llm_response :: "string \<Rightarrow> stop_registry \<Rightarrow> Intervention option \<times> stop_registry" where
  "stop_llm_response session_id reg =
     (case consume session_id reg of
        (False, reg1) \<Rightarrow> (None, reg1)
      | (True, reg1) \<Rightarrow>
          (Some (no_intervention\<lparr>iv_inject_messages := Some [STOP_SIGNAL_PROMPT], iv_pop_last_message := True,
             iv_continue_to_next_turn := True\<rparr>), reg1))"

section \<open>Wall clock\<close>

text \<open>The two templates of a class, as functions of the seconds they print.\<close>

record wall_templates =
  wt_stop :: "int \<Rightarrow> int \<Rightarrow> string"
  wt_warn :: "int \<Rightarrow> string"

definition coordinator_templates :: wall_templates where
  "coordinator_templates =
     \<lparr>wt_stop = (\<lambda>elapsed budget. ''Time budget nearly exhausted ('' @ str_of_int elapsed @ ''s / '' @ str_of_int budget @ ''s wall-clock). Stop spawning, searching, or waiting on sub-agents now. Preserve any existing artifacts and finalize a best-effort answer immediately from the work already completed.''),
      wt_warn = (\<lambda>remaining. ''Warning: ~'' @ str_of_int remaining @ ''s of usable time left before the wall-clock deadline. Enter finalization now: stop new exploration, finish and publish the best available deliverables while tools are still available, run only essential checks, and prepare the final answer.'')\<rparr>"

definition guard_templates :: wall_templates where
  "guard_templates =
     \<lparr>wt_stop = (\<lambda>elapsed budget. ''Wall-clock budget nearly exhausted ('' @ str_of_int elapsed @ ''s of '' @ str_of_int budget @ ''s used). Stop gathering and deliver your report now, based on the information you already have.''),
      wt_warn = (\<lambda>remaining. ''Warning: ~'' @ str_of_int remaining @ ''s of usable time left on your wall-clock budget. Start consolidating what you have into your report rather than opening new lines of investigation.'')\<rparr>"

record WallClockDeadlineObserver =
  wo_deadline_s :: real
  wo_reserve_s :: real
  wo_warn_ratio :: real
  wo_soft_deadline_s :: real
  wo_start :: "real option"
  wo_warned :: bool
  wo_renewable :: "RenewableWallTimeDeadline option"
  wo_lease_sequence :: nat

definition init_wall :: "real \<Rightarrow> real \<Rightarrow> real \<Rightarrow> WallClockDeadlineObserver" where
  "init_wall deadline_s reserve_s warn_ratio =
     \<lparr>wo_deadline_s = deadline_s, wo_reserve_s = reserve_s, wo_warn_ratio = warn_ratio,
      wo_soft_deadline_s = max (deadline_s - reserve_s) (deadline_s * (1 / 2)), wo_start = None, wo_warned = False,
      wo_renewable = None, wo_lease_sequence = 0\<rparr>"

text \<open>What is published into the execution scope; the lease of the scope, if it carries one, is renewable.\<close>

datatype wall_deadline = Renewable RenewableWallTimeDeadline | Absolute real

definition wall_loop_start ::
  "real \<Rightarrow> RenewableWallTimeLease option option \<Rightarrow> WallClockDeadlineObserver \<Rightarrow> WallClockDeadlineObserver \<times> wall_deadline option" where
  "wall_loop_start now scope o1 =
     (let o2 = o1\<lparr>wo_start := Some now, wo_warned := False, wo_renewable := None\<rparr> in
      case scope of
        None \<Rightarrow> (o2, None)
      | Some None \<Rightarrow> (o2, Some (Absolute (now + wo_soft_deadline_s o2)))
      | Some (Some lease) \<Rightarrow>
          let d = bind_duration (wo_soft_deadline_s o2) now in
          (o2\<lparr>wo_renewable := Some d, wo_lease_sequence := wl_sequence lease\<rparr>, Some (Renewable d)))"

text \<open>The elapsed time and the observer after reading the lease.\<close>

definition read_clock :: "real \<Rightarrow> RenewableWallTimeLease \<Rightarrow> real \<Rightarrow> WallClockDeadlineObserver \<Rightarrow> real \<times> WallClockDeadlineObserver" where
  "read_clock now lease start o1 =
     (case wo_renewable o1 of
        None \<Rightarrow> (now - start, o1)
      | Some d \<Rightarrow>
          (elapsed_s (Some (wd_started d)) now lease,
           if wl_sequence lease \<noteq> wo_lease_sequence o1
           then o1\<lparr>wo_lease_sequence := wl_sequence lease, wo_warned := False\<rparr> else o1))"

definition wall_turn_end ::
  "wall_templates \<Rightarrow> real \<Rightarrow> RenewableWallTimeLease \<Rightarrow> TurnContext \<Rightarrow> WallClockDeadlineObserver \<Rightarrow> WallClockDeadlineObserver answer" where
  "wall_turn_end tpl now lease ctx o1 =
     (case wo_start o1 of
        None \<Rightarrow> (None, o1, tc_metadata ctx)
      | Some start \<Rightarrow>
          let (elapsed, o2) = read_clock now lease start o1;
              md0 = (if wo_renewable o1 \<noteq> None
                     then AList.update ''walltime_reset_seq'' (PyInt (int (wl_sequence lease))) (tc_metadata ctx) else tc_metadata ctx);
              md = AList.update ''wall_soft_deadline_s'' (PyInt (py_trunc (wo_soft_deadline_s o2)))
                     (AList.update ''wall_elapsed_s'' (PyInt (py_trunc elapsed)) md0)
          in if wo_soft_deadline_s o2 \<le> elapsed then
               (Some (no_intervention\<lparr>iv_stop_reason := Some ''wall_deadline'',
                  iv_inject_messages := Some [wt_stop tpl (py_trunc elapsed) (py_trunc (wo_deadline_s o2))]\<rparr>), o2, md)
             else if 0 < wo_soft_deadline_s o2 \<and> wo_soft_deadline_s o2 * wo_warn_ratio o2 \<le> elapsed \<and> \<not> wo_warned o2 then
               (Some (inject_only [wt_warn tpl (py_trunc (wo_soft_deadline_s o2 - elapsed))]), o2\<lparr>wo_warned := True\<rparr>, md)
             else (None, o2, md))"

text \<open>\<open>WallClockGuard\<close>: its reserve covers one worst-case turn.\<close>

record WallClockGuard =
  wg_observer :: WallClockDeadlineObserver
  wg_requested_reserve_s :: real

definition init_wall_guard :: "real \<Rightarrow> real \<Rightarrow> WallClockGuard option" where
  "init_wall_guard budget_s reserve_s =
     (if budget_s \<le> 0 then None
      else Some \<lparr>wg_observer = init_wall budget_s reserve_s (4 / 5), wg_requested_reserve_s = reserve_s\<rparr>)"

definition guard_loop_start ::
  "real \<Rightarrow> real \<Rightarrow> real \<Rightarrow> RenewableWallTimeLease option option \<Rightarrow> WallClockGuard \<Rightarrow> WallClockGuard \<times> wall_deadline option" where
  "guard_loop_start llm_timeout tool_timeout now scope g =
     (let reserve = max (wg_requested_reserve_s g) (llm_timeout + tool_timeout + 60);
          o1 = wg_observer g;
          (o2, pub) = wall_loop_start now scope
            (o1\<lparr>wo_reserve_s := reserve,
                wo_soft_deadline_s := max (wo_deadline_s o1 - reserve) (wo_deadline_s o1 * (1 / 2))\<rparr>)
      in (g\<lparr>wg_observer := o2\<rparr>, pub))"

section \<open>Observers that speak once\<close>

text \<open>The answers of a hook on a sequence of turns.\<close>

fun run_hook :: "(TurnContext \<Rightarrow> 's \<Rightarrow> 's answer) \<Rightarrow> TurnContext list \<Rightarrow> 's \<Rightarrow> Intervention option list" where
  "run_hook hook [] s = []"
| "run_hook hook (c # cs) s = (case hook c s of (a, s1, md) \<Rightarrow> a # run_hook hook cs s1)"

fun run_state :: "(TurnContext \<Rightarrow> 's \<Rightarrow> 's answer) \<Rightarrow> TurnContext list \<Rightarrow> 's \<Rightarrow> 's" where
  "run_state hook [] s = s"
| "run_state hook (c # cs) s = run_state hook cs (fst (snd (hook c s)))"

lemma run_hook_append [simp]: "run_hook hook (cs @ ds) s = run_hook hook cs s @ run_hook hook ds (run_state hook cs s)"
  by (induction cs arbitrary: s) (auto split: prod.split)

lemma run_state_append [simp]: "run_state hook (cs @ ds) s = run_state hook ds (run_state hook cs s)"
  by (induction cs arbitrary: s) auto

text \<open>
  The contract the one-shot observers share: silent once fired, latched by speaking, untouched by
  silence, and they only inject: they neither stop the loop nor touch the turn.
\<close>

locale one_shot =
  fixes fired :: "'s \<Rightarrow> bool"
    and hook :: "TurnContext \<Rightarrow> 's \<Rightarrow> 's answer"
  assumes silent: "fired s \<Longrightarrow> fst (hook c s) = None"
    and latches: "fst (hook c s) \<noteq> None \<Longrightarrow> fired (fst (snd (hook c s)))"
    and untouched: "fst (hook c s) = None \<Longrightarrow> fst (snd (hook c s)) = s"
    and only_injects: "fst (hook c s) = Some i \<Longrightarrow> \<exists>m. i = inject_only [m]"
begin

lemma fired_run: "fired s \<Longrightarrow> run_hook hook cs s = replicate (length cs) None"
proof (induction cs)
  case (Cons c cs)
  then show ?case using silent [of s c] untouched [of c s] by (auto split: prod.split)
qed simp

text \<open>The run is silent up to the first turn whose hook speaks, and silent after it.\<close>

lemma run_once:
  "run_hook hook cs s =
     (let n = length (takeWhile (\<lambda>c. fst (hook c s) = None) cs) in
      if n = length cs then replicate (length cs) None
      else replicate n None @ fst (hook (cs ! n) s) # replicate (length cs - n - 1) None)"
proof (induction cs)
  case (Cons c cs)
  show ?case
  proof (cases "fst (hook c s)")
    case None
    then show ?thesis using Cons untouched [of c s] by (auto simp: Let_def split: prod.split)
  next
    case (Some i)
    then have "fired (fst (snd (hook c s)))" using latches [of c s] by simp
    then show ?thesis using Some fired_run by (auto simp: Let_def split: prod.splits)
  qed
qed (simp add: Let_def)

lemma run_length [simp]: "length (run_hook hook cs s) = length cs"
  by (induction cs arbitrary: s) (auto split: prod.split)

lemma run_nth:
  "k < length cs \<Longrightarrow>
   (run_hook hook cs s ! k \<noteq> None) = (fst (hook (cs ! k) s) \<noteq> None \<and> (\<forall>j<k. fst (hook (cs ! j) s) = None))"
proof (induction cs arbitrary: k s)
  case (Cons c cs)
  show ?case
  proof (cases k)
    case (Suc k')
    show ?thesis
    proof (cases "fst (hook c s)")
      case None
      then show ?thesis using Cons Suc untouched [of c s] by (auto simp: less_Suc_eq_0_disj split: prod.split)
    next
      case (Some i)
      then have "fired (fst (snd (hook c s)))" using latches [of c s] by simp
      then show ?thesis using Some Suc Cons.prems fired_run by (auto split: prod.split)
    qed
  qed (auto split: prod.split)
qed simp

lemma speaks_at_most_once: "length (filter (\<lambda>a. a \<noteq> None) (run_hook hook cs s)) \<le> 1"
  unfolding run_once by (auto simp: Let_def)

end

interpretation conclude: one_shot cp_fired conclude_turn_end
  by unfold_locales (auto simp: conclude_turn_end_def split: if_splits)

interpretation reserve: one_shot fr_fired reserve_turn_end
  by unfold_locales (auto simp: reserve_turn_end_def Let_def split: if_splits)

interpretation forcer: one_shot lt_fired forcer_turn_end
  by unfold_locales (auto simp: forcer_turn_end_def Let_def split: if_splits)

text \<open>A run whose turns all end, and what the two turn-counting observers say on them.\<close>

definition turns_of :: "int \<Rightarrow> TurnContext list \<Rightarrow> bool" where
  "turns_of max_turns cs = (\<forall>k<length cs. tc_turn (cs ! k) = int k + 1 \<and> tc_max_turns (cs ! k) = max_turns)"

text \<open>
  When every turn of a run ends with its observers, the finalization reserve speaks once, on its
  trigger turn, and only when a turn with tools is left between it and the last-turn forcer, which
  speaks once, on the turn before the last: the two never speak on the same turn.
\<close>

theorem reserve_before_forcer:
  assumes "turns_of max_turns cs" "k < length cs"
  shows "(run_hook reserve_turn_end cs (init_reserve r m) ! k \<noteq> None)
           = (int k + 1 = max 2 (max_turns - max 1 r) \<and> int k + 1 < max_turns - 1)
       \<and> (run_hook forcer_turn_end cs (init_forcer t) ! k \<noteq> None) = (int k + 1 = max_turns - 1)"
proof -
  let ?R = "init_reserve r m"
  define T where "T = max 2 (max_turns - max 1 r)"
  have t: "tc_turn (cs ! j) = int j + 1" "tc_max_turns (cs ! j) = max_turns" if "j \<le> k" for j
    using assms that by (auto simp: turns_of_def)
  have R: "(fst (reserve_turn_end (cs ! j) ?R) = None) = (\<not> (T < max_turns - 1 \<and> T \<le> int j + 1))" if "j \<le> k" for j
    using t [OF that] by (auto simp: reserve_turn_end_def init_reserve_def Let_def T_def)
  have F: "(fst (forcer_turn_end (cs ! j) (init_forcer t)) = None) = (int j + 1 \<noteq> max_turns - 1)" if "j \<le> k" for j
    using t [OF that] by (auto simp: forcer_turn_end_def init_forcer_def Let_def)
  have "(\<forall>j<k. fst (reserve_turn_end (cs ! j) ?R) = None) = (\<forall>j<k. \<not> (T < max_turns - 1 \<and> T \<le> int j + 1))"
    using R by (meson less_imp_le)
  then have "(run_hook reserve_turn_end cs ?R ! k \<noteq> None) = (T < max_turns - 1 \<and> T \<le> int k + 1 \<and> (\<forall>j<k. \<not> T \<le> int j + 1))"
    using reserve.run_nth [OF assms(2), of ?R] R [of k] by auto
  also have "\<dots> = (int k + 1 = T \<and> int k + 1 < max_turns - 1)"
  proof -
    have "2 \<le> T" by (simp add: T_def)
    then have "T \<le> int k \<longleftrightarrow> (\<exists>j<k. T \<le> int j + 1)"
      by (cases k) (auto intro: exI [of _ "k - 1"])
    then show ?thesis by auto
  qed
  finally have reserve: "(run_hook reserve_turn_end cs ?R ! k \<noteq> None) = (int k + 1 = T \<and> int k + 1 < max_turns - 1)" .
  have "\<forall>j<k. int k + 1 = max_turns - 1 \<longrightarrow> fst (forcer_turn_end (cs ! j) (init_forcer t)) = None" using F by auto
  then have "(run_hook forcer_turn_end cs (init_forcer t) ! k \<noteq> None) = (int k + 1 = max_turns - 1)"
    using forcer.run_nth [OF assms(2), of "init_forcer t"] F [of k] by auto
  with reserve show ?thesis by (simp add: T_def)
qed

theorem reserve_before_forcer_witness:
  "let c = (\<lambda>i. \<lparr>tc_turn = i, tc_max_turns = 6, tc_ai_text = [], tc_usage = None, tc_metadata = []\<rparr>); cs = map c [1, 2, 3, 4, 5] in
   turns_of 6 cs \<and> run_hook reserve_turn_end cs (init_reserve 3 []) ! 2 \<noteq> None
   \<and> run_hook forcer_turn_end cs (init_forcer []) ! 4 \<noteq> None"
proof -
  define c where "c = (\<lambda>i. \<lparr>tc_turn = i, tc_max_turns = 6, tc_ai_text = [], tc_usage = None, tc_metadata = []\<rparr> :: TurnContext)"
  define cs where "cs = map c [1, 2, 3, 4, 5]"
  have ok: "turns_of 6 cs"
    by (auto simp: turns_of_def cs_def c_def less_Suc_eq_0_disj)
  have len: "length cs = 5" by (simp add: cs_def)
  have "run_hook reserve_turn_end cs (init_reserve 3 []) ! 2 \<noteq> None"
    using reserve_before_forcer [OF ok, of 2 3 "[]" "[]"] len by simp
  moreover have "run_hook forcer_turn_end cs (init_forcer []) ! 4 \<noteq> None"
    using reserve_before_forcer [OF ok, of 4 3 "[]" "[]"] len by simp
  ultimately show ?thesis using ok unfolding Let_def cs_def c_def by blast
qed

text \<open>When the ends of the earlier turns were skipped, both speak on the same turn.\<close>

lemma reserve_competes_after_skips:
  "let c = \<lparr>tc_turn = 9, tc_max_turns = 10, tc_ai_text = [], tc_usage = None, tc_metadata = []\<rparr> in
   fst (reserve_turn_end c (init_reserve 8 [])) \<noteq> None \<and> fst (forcer_turn_end c (init_forcer [])) \<noteq> None"
  by (simp add: Let_def reserve_turn_end_def forcer_turn_end_def init_reserve_def init_forcer_def)

section \<open>The size guard\<close>

text \<open>The requests above the limit since the last one within it; turns without usage do not count.\<close>

definition overs :: "int \<Rightarrow> TurnContext list \<Rightarrow> TurnContext list" where
  "overs limit cs =
     rev (takeWhile (\<lambda>c. limit < usage_input_tokens (tc_usage c)) (rev (filter (\<lambda>c. tc_usage c \<noteq> None) cs)))"

lemma overs_snoc:
  "overs limit (cs @ [c]) =
     (if tc_usage c = None then overs limit cs
      else if limit < usage_input_tokens (tc_usage c) then overs limit cs @ [c] else [])"
  by (simp add: overs_def)

abbreviation seq_of :: "TurnContext \<Rightarrow> int option" where
  "seq_of c \<equiv> compaction_seq (tc_metadata c)"

text \<open>What the guard remembers, from the requests alone.\<close>

definition guard_remembers :: "int \<Rightarrow> TurnContext list \<Rightarrow> ContextSizeGuard \<Rightarrow> bool" where
  "guard_remembers limit cs g =
     (\<not> cg_tripped g \<and> cg_limit g = limit \<and> cg_force_compaction_first g
      \<and> (case overs limit cs of
           [] \<Rightarrow> cg_requested_at_seq g = None
         | [c] \<Rightarrow> cg_requested_at_seq g = seq_of c \<and> cg_rearms_left g = 1
         | [c, d] \<Rightarrow> cg_requested_at_seq g = seq_of c \<and> cg_rearms_left g = 0
         | _ \<Rightarrow> False))"

text \<open>
  The specification: a request above the limit stops the run when two such requests precede it, or
  one precedes it and a compaction ran in between.
\<close>

definition stop_due :: "int \<Rightarrow> TurnContext list \<Rightarrow> TurnContext \<Rightarrow> bool" where
  "stop_due limit cs c =
     (tc_usage c \<noteq> None \<and> limit < usage_input_tokens (tc_usage c)
      \<and> (length (overs limit cs) = 2
         \<or> length (overs limit cs) = 1 \<and> the (seq_of (hd (overs limit cs))) < the (seq_of c)))"

lemma overs_subset: "set (overs limit cs) \<subseteq> set cs"
  by (auto simp: overs_def dest: set_takeWhileD)

lemma guard_step:
  assumes "guard_remembers limit cs g" "seq_of c = Some n" "\<forall>d\<in>set (overs limit cs). seq_of d \<noteq> None"
  shows "fst (size_llm_response c g) =
      (if stop_due limit cs c then Some (size_stop (usage_input_tokens (tc_usage c)) limit) else None)"
    and "fst (size_llm_response c g) = None \<Longrightarrow> guard_remembers limit (cs @ [c]) (fst (snd (size_llm_response c g)))"
proof -
  consider (none) "overs limit cs = []" | (one) d where "overs limit cs = [d]" | (two) d e where "overs limit cs = [d, e]"
    using assms(1) by (auto simp: guard_remembers_def split: list.splits)
  then have "fst (size_llm_response c g) =
      (if stop_due limit cs c then Some (size_stop (usage_input_tokens (tc_usage c)) limit) else None)
    \<and> (fst (size_llm_response c g) = None \<longrightarrow> guard_remembers limit (cs @ [c]) (fst (snd (size_llm_response c g))))"
  proof cases
    case none
    then show ?thesis using assms by (simp add: stop_due_def guard_remembers_def overs_snoc size_llm_response_def Let_def)
  next
    case (one d)
    then obtain m where "seq_of d = Some m" using assms(3) by auto
    then show ?thesis using assms one by (simp add: stop_due_def guard_remembers_def overs_snoc size_llm_response_def Let_def)
  next
    case (two d e)
    then obtain m where "seq_of d = Some m" using assms(3) by auto
    then show ?thesis using assms two by (simp add: stop_due_def guard_remembers_def overs_snoc size_llm_response_def Let_def)
  qed
  then show "fst (size_llm_response c g) =
      (if stop_due limit cs c then Some (size_stop (usage_input_tokens (tc_usage c)) limit) else None)"
    and "fst (size_llm_response c g) = None \<Longrightarrow> guard_remembers limit (cs @ [c]) (fst (snd (size_llm_response c g)))"
    by blast+
qed

lemma guard_run:
  assumes "guard_remembers limit [] g" "\<forall>c\<in>set cs. seq_of c \<noteq> None" "\<forall>a\<in>set (run_hook size_llm_response cs g). a = None"
  shows "guard_remembers limit cs (run_state size_llm_response cs g)"
  using assms(2,3)
proof (induction cs rule: rev_induct)
  case (snoc c cs)
  have d: "\<forall>d\<in>set (overs limit cs). seq_of d \<noteq> None" using snoc.prems(1) overs_subset by fastforce
  obtain n where "seq_of c = Some n" using snoc.prems(1) by auto
  moreover have "fst (size_llm_response c (run_state size_llm_response cs g)) = None"
    using snoc.prems(2) by (cases "size_llm_response c (run_state size_llm_response cs g)") auto
  ultimately show ?case using guard_step(2) [OF snoc.IH _ d] snoc.prems by auto
qed (use assms(1) in simp)


definition big_request :: TurnContext where
  "big_request = \<lparr>tc_turn = 1, tc_max_turns = 9, tc_ai_text = [], tc_usage = Some [(''prompt_tokens'', 20)], tc_metadata = []\<rparr>"


section \<open>Budget, stop signal and wall clock\<close>

text \<open>The tokens of a run are the sum over its responses.\<close>

definition tokens_of :: "TurnContext \<Rightarrow> int" where
  "tokens_of c = (if tc_usage c = None then 0 else usage_input_tokens (tc_usage c) + usage_output_tokens (tc_usage c))"

definition budget_turn :: "TurnContext \<Rightarrow> BudgetObserver \<Rightarrow> BudgetObserver answer" where
  "budget_turn c b = budget_turn_end c (fst (snd (budget_llm_response c b)))"

lemma budget_turn_state:
  "bo_max_tokens (fst (snd (budget_turn c b))) = bo_max_tokens b"
  "bo_tokens_used (fst (snd (budget_turn c b))) = bo_tokens_used b + tokens_of c"
  by (auto simp: budget_turn_def budget_turn_end_def budget_llm_response_def tokens_of_def Let_def)

lemma budget_run_state:
  "bo_max_tokens (run_state budget_turn cs b) = bo_max_tokens b
   \<and> bo_tokens_used (run_state budget_turn cs b) = bo_tokens_used b + (\<Sum>c\<leftarrow>cs. tokens_of c)"
  by (induction cs arbitrary: b) (simp_all add: budget_turn_state)

lemma ratio_one: "(1 \<le> budget_ratio b) = (0 < bo_max_tokens b \<and> bo_max_tokens b \<le> bo_tokens_used b)"
  by (auto simp: budget_ratio_def)

text \<open>
  The budget observer stops the loop on the end of exactly those turns where a positive budget is
  used up by the tokens of all responses so far.
\<close>

lemma budget_stops_exactly:
  "(\<exists>i. last (run_hook budget_turn (cs @ [c]) (init_budget_observer max_tokens ratio)) = Some i \<and> iv_stop_reason i \<noteq> None)
   = (0 < max_tokens \<and> max_tokens \<le> (\<Sum>d\<leftarrow>cs @ [c]. tokens_of d))"
proof -
  define b where "b = run_state budget_turn cs (init_budget_observer max_tokens ratio)"
  have b: "bo_max_tokens b = max_tokens" "bo_tokens_used b = (\<Sum>d\<leftarrow>cs. tokens_of d)"
    using budget_run_state [of cs "init_budget_observer max_tokens ratio"] by (simp_all add: b_def init_budget_observer_def)
  define b1 where "b1 = fst (snd (budget_llm_response c b))"
  have "bo_max_tokens b1 = max_tokens" "bo_tokens_used b1 = (\<Sum>d\<leftarrow>cs @ [c]. tokens_of d)"
    using b by (auto simp: b1_def budget_llm_response_def tokens_of_def Let_def)
  moreover have "(\<exists>i. fst (budget_turn c b) = Some i \<and> iv_stop_reason i \<noteq> None) = (1 \<le> budget_ratio b1)"
    by (auto simp: budget_turn_def budget_turn_end_def b1_def [symmetric] Let_def)
  ultimately show ?thesis by (auto simp: ratio_one b_def [symmetric] split: prod.split)
qed

text \<open>
  A stop request interrupts the response it meets, once: the turn's response is popped, the prompt
  injected and the turn left before any tool runs; the request is used up and those of other
  sessions stay.
\<close>

lemma stop_interrupts_once:
  "stop_llm_response sid reg =
     (if is_requested sid reg
      then (Some (no_intervention\<lparr>iv_inject_messages := Some [STOP_SIGNAL_PROMPT], iv_pop_last_message := True,
              iv_continue_to_next_turn := True\<rparr>), AList.delete (str_strip sid) reg)
      else (None, reg))"
  "fst (stop_llm_response sid (snd (stop_llm_response sid reg))) = None"
  by (auto simp: stop_llm_response_def consume_def is_requested_def Let_def delete_conv')

text \<open>
  The wall guard of a sub-agent: the soft deadline it publishes is between half the budget and the
  budget, and when half the budget covers the reserve, a turn that begins before the soft deadline
  and takes no longer than one model call, one tool call and a minute ends within the budget.
\<close>

theorem wall_guard_covers_a_turn:
  assumes "init_wall_guard budget_s reserve_s = Some g" "guard_loop_start llm_timeout tool_timeout now scope g = (g', pub)"
    "0 \<le> llm_timeout" "0 \<le> tool_timeout"
  shows "budget_s / 2 \<le> wo_soft_deadline_s (wg_observer g') \<and> wo_soft_deadline_s (wg_observer g') < budget_s
    \<and> (pub = Some (Absolute t) \<longrightarrow> t = now + wo_soft_deadline_s (wg_observer g'))
    \<and> (2 * max reserve_s (llm_timeout + tool_timeout + 60) \<le> budget_s
       \<longrightarrow> elapsed < wo_soft_deadline_s (wg_observer g')
       \<longrightarrow> elapsed + (llm_timeout + tool_timeout + 60) < budget_s)"
proof -
  define r where "r = max reserve_s (llm_timeout + tool_timeout + 60)"
  have r: "0 < r" "llm_timeout + tool_timeout + 60 \<le> r" using assms(3,4) by (auto simp: r_def)
  have b: "0 < budget_s" using assms(1) by (auto simp: init_wall_guard_def split: if_splits)
  have soft: "wo_soft_deadline_s (wg_observer g') = max (budget_s - r) (budget_s * (1 / 2))"
    and p: "pub = Some (Absolute t) \<longrightarrow> t = now + wo_soft_deadline_s (wg_observer g')"
    using assms(1,2)
    by (auto simp: init_wall_guard_def guard_loop_start_def wall_loop_start_def init_wall_def r_def Let_def
          split: if_splits option.splits)
  from soft b r have "budget_s / 2 \<le> wo_soft_deadline_s (wg_observer g')" "wo_soft_deadline_s (wg_observer g') < budget_s" by auto
  moreover have "elapsed + (llm_timeout + tool_timeout + 60) < budget_s"
    if "2 * r \<le> budget_s" "elapsed < wo_soft_deadline_s (wg_observer g')" using that soft r by auto
  ultimately show ?thesis using p by (auto simp: r_def)
qed

theorem wall_guard_covers_a_turn_witness:
  "\<exists>g. init_wall_guard 1000 300 = Some g
     \<and> 500 \<le> wo_soft_deadline_s (wg_observer (fst (guard_loop_start 100 40 0 (Some None) g)))
     \<and> wo_soft_deadline_s (wg_observer (fst (guard_loop_start 100 40 0 (Some None) g))) < 1000"
proof -
  obtain g where g: "init_wall_guard 1000 300 = Some g" by (simp add: init_wall_guard_def)
  from wall_guard_covers_a_turn [OF g, of 100 40 0 "Some None" "fst (guard_loop_start 100 40 0 (Some None) g)"
      "snd (guard_loop_start 100 40 0 (Some None) g)"] g
  show ?thesis by simp
qed

text \<open>A started wall-clock observer stops the loop on the end of exactly the turns past its soft deadline.\<close>

lemma wall_stops_exactly:
  assumes "wo_start o1 = Some start"
  shows "(\<exists>i. fst (wall_turn_end tpl now lease ctx o1) = Some i \<and> iv_stop_reason i \<noteq> None)
    = (wo_soft_deadline_s o1 \<le> fst (read_clock now lease start o1))"
proof -
  obtain el o2 where rc: "read_clock now lease start o1 = (el, o2)" by (cases "read_clock now lease start o1")
  then have "wo_soft_deadline_s o2 = wo_soft_deadline_s o1" by (auto simp: read_clock_def split: option.splits if_splits)
  then show ?thesis using assms rc by (auto simp: wall_turn_end_def Let_def)
qed

end
