(* ===== verification/Text_Repetition.thy ===== *)
theory Text_Repetition
  imports Observers
begin

text \<open>
  Near-verbatim repetition across turns (\<^verbatim>\<open>components/observers/text_repetition_guard.py\<close>).  The hint in
  the language of the text comes from templates chosen by a detector of scripts outside ASCII: it
  is the parameter \<open>localised_hint\<close>, a function of the text, the threshold and the streak.
\<close>

section \<open>Similarity\<close>

text \<open>\<open>s.split()\<close>\<close>

fun split_ws :: "string \<Rightarrow> string \<Rightarrow> string list" where
  "split_ws word [] = (if word = [] then [] else [word])"
| "split_ws word (c # cs) =
     (if is_space c then (if word = [] then split_ws [] cs else word # split_ws [] cs) else split_ws (word @ [c]) cs)"

text \<open>\<open>re.sub(r"\s+", " ", s)\<close>; \<open>True\<close> says that a blank was just written.\<close>

fun collapse_ws :: "bool \<Rightarrow> string \<Rightarrow> string" where
  "collapse_ws b [] = []"
| "collapse_ws b (c # cs) =
     (if is_space c then (if b then collapse_ws True cs else CHR '' '' # collapse_ws True cs) else c # collapse_ws False cs)"

definition normalise :: "string \<Rightarrow> string" where
  "normalise s = collapse_ws False (str_lower (str_strip s))"

definition is_punct :: "char \<Rightarrow> bool" where
  "is_punct c = (let n = (of_char c :: nat) in
     (33 \<le> n \<and> n \<le> 47) \<or> (58 \<le> n \<and> n \<le> 64) \<or> (91 \<le> n \<and> n \<le> 96) \<or> (123 \<le> n \<and> n \<le> 126))"

text \<open>A run of punctuation becomes one blank; the split that follows reads several as one.\<close>

definition blank_punct :: "string \<Rightarrow> string" where
  "blank_punct s = map (\<lambda>c. if is_punct c then CHR '' '' else c) s"

definition shingles :: "string \<Rightarrow> int \<Rightarrow> string set" where
  "shingles s n =
     (let tokens = split_ws [] (blank_punct s) in
      if tokens = [] then {}
      else if n \<le> 1 \<or> int (length tokens) < n then set tokens
      else set (map (\<lambda>i. str_join '' '' (take (nat n) (drop i tokens))) [0..<length tokens - nat n + 1]))"

definition jaccard :: "string set \<Rightarrow> string set \<Rightarrow> real" where
  "jaccard a b =
     (if a = {} \<and> b = {} then 1
      else if a = {} \<or> b = {} then 0
      else let inter = card (a \<inter> b); union = card a + card b - inter in
           if union \<noteq> 0 then real inter / real union else 0)"

section \<open>The guard\<close>

record TextRepetitionGuard =
  tr_window_size :: nat
  tr_similarity_threshold :: real
  tr_min_chars :: nat
  tr_shingle_size :: int
  tr_inject_after :: nat
  tr_stop_after :: nat
  tr_enable_stop :: bool
  tr_hint_message :: string
  tr_history :: "string set list"
  tr_consecutive_matches :: nat
  tr_hint_injected :: bool

definition init_text_guard ::
  "nat \<Rightarrow> real \<Rightarrow> nat \<Rightarrow> int \<Rightarrow> nat \<Rightarrow> nat \<Rightarrow> bool \<Rightarrow> string \<Rightarrow> TextRepetitionGuard option" where
  "init_text_guard window_size threshold min_chars shingle_size inject_after stop_after enable_stop hint_message =
     (if inject_after < 2 \<or> stop_after < inject_after then None
      else Some \<lparr>tr_window_size = window_size, tr_similarity_threshold = threshold, tr_min_chars = min_chars,
                 tr_shingle_size = shingle_size, tr_inject_after = inject_after, tr_stop_after = stop_after,
                 tr_enable_stop = enable_stop, tr_hint_message = str_strip hint_message, tr_history = [],
                 tr_consecutive_matches = 0, tr_hint_injected = False\<rparr>)"

definition text_loop_start :: "TextRepetitionGuard \<Rightarrow> TextRepetitionGuard" where
  "text_loop_start g = g\<lparr>tr_history := [], tr_consecutive_matches := 0, tr_hint_injected := False\<rparr>"

text \<open>\<open>deque.append\<close> with a maximal length.\<close>

definition push_window :: "nat \<Rightarrow> 'a \<Rightarrow> 'a list \<Rightarrow> 'a list" where
  "push_window n x xs = (let ys = xs @ [x] in drop (length ys - n) ys)"

definition text_turn_end ::
  "(string \<Rightarrow> real \<Rightarrow> nat \<Rightarrow> string) \<Rightarrow> TurnContext \<Rightarrow> TextRepetitionGuard \<Rightarrow> TextRepetitionGuard answer" where
  "text_turn_end localised_hint ctx g =
     (let txt1 = normalise (tc_ai_text ctx) in
      if length txt1 < tr_min_chars g then (None, g, tc_metadata ctx)
      else
        let current = shingles txt1 (tr_shingle_size g);
            matched = list_ex (\<lambda>prior. tr_similarity_threshold g \<le> jaccard current prior) (tr_history g);
            g1 = g\<lparr>tr_history := push_window (tr_window_size g) current (tr_history g)\<rparr>
        in if \<not> matched then (None, g1\<lparr>tr_consecutive_matches := 1, tr_hint_injected := False\<rparr>, tc_metadata ctx)
           else
             let streak = tr_consecutive_matches g + 1; g2 = g1\<lparr>tr_consecutive_matches := streak\<rparr> in
             if tr_enable_stop g \<and> tr_stop_after g \<le> streak then (Some (stop_with ''cross_turn_repetition''), g2, tc_metadata ctx)
             else if tr_inject_after g \<le> streak \<and> \<not> tr_hint_injected g then
               (Some (inject_only [if tr_hint_message g \<noteq> [] then tr_hint_message g
                  else localised_hint (tc_ai_text ctx) (tr_similarity_threshold g) streak]),
                g2\<lparr>tr_hint_injected := True\<rparr>, tc_metadata ctx)
             else (None, g2, tc_metadata ctx))"

section \<open>Properties\<close>

lemma finite_shingles [simp]: "finite (shingles s n)"
  by (simp add: shingles_def Let_def)

text \<open>The similarity is symmetric, between 0 and 1, and 1 exactly for equal sets.\<close>

lemma jaccard_sym: "jaccard a b = jaccard b a"
  by (auto simp: jaccard_def Let_def Int_commute add.commute)

lemma jaccard_union:
  assumes "finite a" "finite b" "a \<noteq> {}" "b \<noteq> {}"
  shows "jaccard a b = real (card (a \<inter> b)) / real (card (a \<union> b))"
proof -
  have "card (a \<union> b) = card a + card b - card (a \<inter> b)" using card_Un_Int [OF assms(1,2)] by simp
  moreover have "card (a \<union> b) \<noteq> 0" using assms by auto
  ultimately show ?thesis using assms by (simp add: jaccard_def Let_def)
qed

lemma jaccard_bounds: "finite a \<Longrightarrow> finite b \<Longrightarrow> 0 \<le> jaccard a b \<and> jaccard a b \<le> 1"
proof (cases "a = {} \<or> b = {}")
  case False
  assume fin: "finite a" "finite b"
  then have "card (a \<inter> b) \<le> card (a \<union> b)" by (intro card_mono) auto
  then show ?thesis using False fin by (auto simp: jaccard_union divide_le_eq_1 card_gt_0_iff)
qed (auto simp: jaccard_def)

lemma jaccard_one_iff: "finite a \<Longrightarrow> finite b \<Longrightarrow> (jaccard a b = 1) = (a = b)"
proof (cases "a = {} \<or> b = {}")
  case False
  assume fin: "finite a" "finite b"
  have "(card (a \<union> b) = card (a \<inter> b)) = (a = b)"
  proof
    assume "card (a \<union> b) = card (a \<inter> b)"
    then have "a \<inter> b = a \<union> b" using fin by (intro card_subset_eq) auto
    then show "a = b" by blast
  qed simp
  moreover have "card (a \<union> b) \<noteq> 0" using False fin by auto
  ultimately show ?thesis using False fin by (auto simp: jaccard_union divide_eq_1_iff)
qed (auto simp: jaccard_def)

text \<open>The guard after the same text was given \<open>k\<close> times.\<close>

definition after_same :: "string set \<Rightarrow> nat \<Rightarrow> TextRepetitionGuard \<Rightarrow> TextRepetitionGuard" where
  "after_same S k g =
     g\<lparr>tr_history := replicate (min k (tr_window_size g)) S, tr_consecutive_matches := k,
       tr_hint_injected := (tr_inject_after g \<le> k \<and> \<not> (tr_enable_stop g \<and> tr_stop_after g \<le> tr_inject_after g))\<rparr>"

definition same_answer :: "(string \<Rightarrow> real \<Rightarrow> nat \<Rightarrow> string) \<Rightarrow> string \<Rightarrow> nat \<Rightarrow> TextRepetitionGuard \<Rightarrow> Intervention option" where
  "same_answer localised_hint s k g =
     (if tr_enable_stop g \<and> tr_stop_after g \<le> k then Some (stop_with ''cross_turn_repetition'')
      else if k = tr_inject_after g then
        Some (inject_only [if tr_hint_message g \<noteq> [] then tr_hint_message g
          else localised_hint s (tr_similarity_threshold g) k])
      else None)"

lemma push_replicate: "push_window n x (replicate (min k n) x) = replicate (min (Suc k) n) x"
proof -
  have "replicate (min k n) x @ [x] = replicate (Suc (min k n)) x" by (simp add: replicate_append_same)
  moreover have "Suc (min k n) - (Suc (min k n) - n) = min (Suc k) n" by (simp add: min_def)
  ultimately show ?thesis unfolding push_window_def Let_def by (simp only: drop_replicate length_replicate)
qed

lemma after_same_simps [simp]:
  "tr_window_size (after_same S k g) = tr_window_size g" "tr_similarity_threshold (after_same S k g) = tr_similarity_threshold g"
  "tr_min_chars (after_same S k g) = tr_min_chars g" "tr_shingle_size (after_same S k g) = tr_shingle_size g"
  "tr_inject_after (after_same S k g) = tr_inject_after g" "tr_stop_after (after_same S k g) = tr_stop_after g"
  "tr_enable_stop (after_same S k g) = tr_enable_stop g" "tr_hint_message (after_same S k g) = tr_hint_message g"
  "tr_history (after_same S k g) = replicate (min k (tr_window_size g)) S" "tr_consecutive_matches (after_same S k g) = k"
  "tr_hint_injected (after_same S k g) =
     (tr_inject_after g \<le> k \<and> \<not> (tr_enable_stop g \<and> tr_stop_after g \<le> tr_inject_after g))"
  by (simp_all add: after_same_def)

text \<open>Whether a text is like one of the window.\<close>

definition seen_before :: "TextRepetitionGuard \<Rightarrow> string set \<Rightarrow> bool" where
  "seen_before g S = list_ex (\<lambda>prior. tr_similarity_threshold g \<le> jaccard S prior) (tr_history g)"

lemma seen_again:
  assumes "1 \<le> tr_window_size g" "tr_similarity_threshold g \<le> 1" "finite S"
  shows "seen_before (after_same S k g) S = (k \<noteq> 0)"
  using assms jaccard_one_iff [of S S] by (auto simp: seen_before_def list_ex_iff)

text \<open>One turn with a text long enough, by whether it was seen before.\<close>

lemma text_turn_end_long:
  assumes "tr_min_chars g \<le> length (normalise (tc_ai_text c))" "S = shingles (normalise (tc_ai_text c)) (tr_shingle_size g)"
  defines "h \<equiv> push_window (tr_window_size g) S (tr_history g)" and "k \<equiv> Suc (tr_consecutive_matches g)"
  shows "\<not> seen_before g S \<Longrightarrow>
      text_turn_end lh c g = (None, g\<lparr>tr_history := h, tr_consecutive_matches := 1, tr_hint_injected := False\<rparr>, tc_metadata c)"
    and "seen_before g S \<Longrightarrow> tr_enable_stop g \<Longrightarrow> tr_stop_after g \<le> k \<Longrightarrow>
      text_turn_end lh c g = (Some (stop_with ''cross_turn_repetition''), g\<lparr>tr_history := h, tr_consecutive_matches := k\<rparr>, tc_metadata c)"
    and "seen_before g S \<Longrightarrow> \<not> (tr_enable_stop g \<and> tr_stop_after g \<le> k) \<Longrightarrow> tr_inject_after g \<le> k \<Longrightarrow> \<not> tr_hint_injected g \<Longrightarrow>
      text_turn_end lh c g = (Some (inject_only [if tr_hint_message g \<noteq> [] then tr_hint_message g
          else lh (tc_ai_text c) (tr_similarity_threshold g) k]),
        g\<lparr>tr_history := h, tr_consecutive_matches := k, tr_hint_injected := True\<rparr>, tc_metadata c)"
    and "seen_before g S \<Longrightarrow> \<not> (tr_enable_stop g \<and> tr_stop_after g \<le> k) \<Longrightarrow> \<not> (tr_inject_after g \<le> k \<and> \<not> tr_hint_injected g) \<Longrightarrow>
      text_turn_end lh c g = (None, g\<lparr>tr_history := h, tr_consecutive_matches := k\<rparr>, tc_metadata c)"
  using assms(1) unfolding text_turn_end_def Let_def assms(2) [symmetric] seen_before_def [symmetric] h_def k_def
  by (simp, simp, auto)

lemma after_same_Suc:
  assumes "hint = (tr_inject_after g \<le> Suc k \<and> \<not> (tr_enable_stop g \<and> tr_stop_after g \<le> tr_inject_after g))"
  shows "(after_same S k g)\<lparr>tr_history := replicate (min (Suc k) (tr_window_size g)) S, tr_consecutive_matches := Suc k,
      tr_hint_injected := hint\<rparr> = after_same S (Suc k) g"
    and "hint = tr_hint_injected (after_same S k g) \<Longrightarrow>
      (after_same S k g)\<lparr>tr_history := replicate (min (Suc k) (tr_window_size g)) S, tr_consecutive_matches := Suc k\<rparr>
      = after_same S (Suc k) g"
  using assms by (auto intro!: TextRepetitionGuard.equality simp del: after_same_simps simp: after_same_def)

lemma same_step:
  assumes "2 \<le> tr_inject_after g" "tr_inject_after g \<le> tr_stop_after g" "1 \<le> tr_window_size g" "tr_similarity_threshold g \<le> 1"
    "tr_min_chars g \<le> length (normalise (tc_ai_text c))" "S = shingles (normalise (tc_ai_text c)) (tr_shingle_size g)"
  shows "text_turn_end lh c (after_same S k g) = (same_answer lh (tc_ai_text c) (Suc k) g, after_same S (Suc k) g, tc_metadata c)"
proof -
  let ?g = "after_same S k g"
  define hint where "hint = (tr_inject_after g \<le> Suc k \<and> \<not> (tr_enable_stop g \<and> tr_stop_after g \<le> tr_inject_after g))"
  note nxt = after_same_Suc [OF hint_def]
  have fin: "finite S" using assms(6) by simp
  note seen = seen_again [OF assms(3,4) fin, of k]
  note turn = text_turn_end_long [of ?g c S lh, unfolded after_same_simps push_replicate, OF assms(5,6), unfolded seen]
  consider (first) "k = 0" | (stop) "k \<noteq> 0" "tr_enable_stop g" "tr_stop_after g \<le> Suc k"
    | (hint) "k \<noteq> 0" "\<not> (tr_enable_stop g \<and> tr_stop_after g \<le> Suc k)" "Suc k = tr_inject_after g"
    | (quiet) "k \<noteq> 0" "\<not> (tr_enable_stop g \<and> tr_stop_after g \<le> Suc k)" "Suc k \<noteq> tr_inject_after g"
    by blast
  then show ?thesis
  proof cases
    case first
    then have "hint = False" using assms(1) by (simp add: hint_def)
    then show ?thesis using first turn(1) nxt(1) assms(1,2) by (simp add: same_answer_def)
  next
    case stop
    then have "hint = tr_hint_injected ?g" using assms(2) by (auto simp: hint_def)
    then show ?thesis using stop turn(2) nxt(2) by (simp add: same_answer_def)
  next
    case hint
    then have "hint = True" by (auto simp: hint_def)
    then show ?thesis using turn(3) hint nxt(1) by (auto simp: same_answer_def)
  next
    case quiet
    then have "hint = tr_hint_injected ?g" by (auto simp: hint_def)
    moreover from this quiet have "\<not> (tr_inject_after g \<le> Suc k \<and> \<not> tr_hint_injected ?g)" by (auto simp: hint_def)
    ultimately show ?thesis using turn(4) quiet nxt(2) by (simp add: same_answer_def)
  qed
qed

lemma same_run:
  assumes "2 \<le> tr_inject_after g" "tr_inject_after g \<le> tr_stop_after g" "1 \<le> tr_window_size g" "tr_similarity_threshold g \<le> 1"
    "tr_min_chars g \<le> length (normalise s)" "\<forall>c\<in>set cs. tc_ai_text c = s" "S = shingles (normalise s) (tr_shingle_size g)"
  shows "run_hook (text_turn_end lh) cs (after_same S k g) = map (\<lambda>j. same_answer lh s (Suc k + j) g) [0..<length cs]"
  using assms(6)
proof (induction cs arbitrary: k)
  case (Cons c cs)
  have "run_hook (text_turn_end lh) (c # cs) (after_same S k g) = same_answer lh s (Suc k) g # run_hook (text_turn_end lh) cs (after_same S (Suc k) g)"
    using same_step [OF assms(1-4), of c S lh k] assms(5,7) Cons.prems by simp
  also have "\<dots> = map (\<lambda>j. same_answer lh s (Suc k + j) g) (0 # map Suc [0..<length cs])"
    using Cons by simp
  finally show ?case by (simp only: list.size add_Suc_right add_0_right map_Suc_upt upt_conv_Cons [of 0 "Suc (length cs)"])
qed simp

text \<open>
  A model that gives the same text turn after turn is answered as configured: with the hint on the
  turn that makes \<open>inject_after\<close> in a row, once, and, when stopping is enabled, with the stop from
  \<open>stop_after\<close> on; on no other turn.
\<close>

theorem same_text_answers:
  assumes "init_text_guard window threshold min_chars n inject_after stop_after enable_stop hint = Some g"
    "1 \<le> window" "threshold \<le> 1" "min_chars \<le> length (normalise s)" "\<forall>c\<in>set cs. tc_ai_text c = s" "k < length cs"
  shows "run_hook (text_turn_end lh) cs g ! k =
    (if enable_stop \<and> stop_after \<le> k + 1 then Some (stop_with ''cross_turn_repetition'')
     else if k + 1 = inject_after then
       Some (inject_only [if str_strip hint \<noteq> [] then str_strip hint else lh s threshold inject_after])
     else None)"
proof -
  define S where "S = shingles (normalise s) (tr_shingle_size g)"
  have g: "2 \<le> tr_inject_after g" "tr_inject_after g \<le> tr_stop_after g" "tr_window_size g = window"
    "tr_similarity_threshold g = threshold" "tr_min_chars g = min_chars" "tr_inject_after g = inject_after"
    "tr_stop_after g = stop_after" "tr_enable_stop g = enable_stop" "tr_hint_message g = str_strip hint"
    "tr_history g = []" "tr_consecutive_matches g = 0" "\<not> tr_hint_injected g"
    using assms(1) by (auto simp: init_text_guard_def split: if_splits)
  have start: "after_same S 0 g = g" using g by (auto intro!: TextRepetitionGuard.equality simp: after_same_def)
  have "run_hook (text_turn_end lh) cs g = map (\<lambda>j. same_answer lh s (Suc 0 + j) g) [0..<length cs]"
    using same_run [OF g(1,2) _ _ _ assms(5) S_def, of lh 0, unfolded start] g assms(2-4) by simp
  then show ?thesis using assms(6) g by (simp add: same_answer_def)
qed

theorem same_text_answers_witness:
  "\<exists>g. init_text_guard 4 (17/20) 3 2 2 6 False ''wait'' = Some g
     \<and> run_hook (text_turn_end (\<lambda>s t n. [])) [big_request\<lparr>tc_ai_text := ''same words''\<rparr>, big_request\<lparr>tc_ai_text := ''same words''\<rparr>] g ! 1
       = Some (inject_only [''wait''])"
proof -
  obtain g where g: "init_text_guard 4 (17/20) 3 2 2 6 False ''wait'' = Some g" by (simp add: init_text_guard_def)
  have n: "normalise ''same words'' = ''same words''" "str_strip ''wait'' = ''wait''" by code_simp+
  show ?thesis
    using same_text_answers [OF g, of "''same words''"
        "[big_request\<lparr>tc_ai_text := ''same words''\<rparr>, big_request\<lparr>tc_ai_text := ''same words''\<rparr>]" 1 "\<lambda>s t n. []"] g n
    by simp
qed

end
