(* ===== verification/Stuck_Target.thy ===== *)
theory Stuck_Target
  imports Text_Repetition
begin

text \<open>
  The guard against repeatedly failing network targets (\<^verbatim>\<open>components/observers/stuck_target_guard.py\<close>):
  verdicts on tool results, their attribution to hosts, and the state machine that nudges and then
  quarantines a host.  The regular expressions over page text and the extraction of hosts from
  arguments are parameters (\<open>page_patterns\<close>); of several hosts with the same count
  \<open>Counter.most_common\<close> lists first the one that iteration over a set met first, so the choice is
  the parameter \<open>pick\<close>.
\<close>

section \<open>Verdicts\<close>

record page_patterns =
  pp_hosts_for_tool :: "string \<Rightarrow> pyval pydict \<Rightarrow> string set"
  pp_soft_failure_line :: "string \<Rightarrow> bool"
  pp_no_result :: "string \<Rightarrow> bool"
  pp_failure_line :: "string \<Rightarrow> bool"
  pp_http_failure :: "string \<Rightarrow> bool"
  pp_markup_dump :: "string \<Rightarrow> bool"
  pp_numbered_blocks :: "string \<Rightarrow> (string set \<times> string) list"

datatype verdict = Failed | SoftFailed | Succeeded | Neutral

definition tool_key :: "string \<Rightarrow> string" where
  "tool_key name = str_lower (str_strip name)"

definition is_network_tool :: "string \<Rightarrow> bool" where
  "is_network_tool name =
     (let lowered = tool_key name in
      lowered \<in> {''web_fetch'', ''web_search'', ''scholar_search'', ''download_file'', ''bash''}
      \<or> sublist ''web_fetch'' lowered \<or> sublist ''web_search'' lowered \<or> sublist ''download'' lowered)"

definition is_shell_tool :: "string \<Rightarrow> bool" where
  "is_shell_tool name = (tool_key name \<in> {''bash'', ''shell'', ''run_command''})"

definition may_vouch :: "string \<Rightarrow> bool" where
  "may_vouch name = list_ex (\<lambda>hint. sublist hint (tool_key name)) [''web_fetch'', ''download'']"

definition is_search_tool :: "string \<Rightarrow> bool" where
  "is_search_tool name = sublist ''search'' (tool_key name)"

definition is_fetch_tool :: "string \<Rightarrow> bool" where
  "is_fetch_tool name = sublist ''web_fetch'' (tool_key name)"

text \<open>\<open>_result_verdict\<close> of the name, the error flag and the text of a result.\<close>

definition result_verdict :: "page_patterns \<Rightarrow> string \<Rightarrow> bool \<Rightarrow> string \<Rightarrow> verdict" where
  "result_verdict pp name is_error result =
     (let weak = (if is_search_tool name then SoftFailed else Failed);
          page = str_strip result
      in if is_error then weak
         else if page = [] \<or> page = ''(no output)'' then weak
         else if pp_soft_failure_line pp page then SoftFailed
         else if pp_no_result pp page then weak
         else if pp_failure_line pp page then weak
         else if is_shell_tool name \<and> pp_http_failure pp page then Failed
         else if is_shell_tool name \<and> pp_markup_dump pp page then Neutral
         else if may_vouch name then Succeeded else Neutral)"

fun verdict_rank :: "verdict \<Rightarrow> nat" where
  "verdict_rank Neutral = 0"
| "verdict_rank SoftFailed = 1"
| "verdict_rank Failed = 2"
| "verdict_rank Succeeded = 3"

text \<open>\<open>_merge_verdict\<close>; a success never reaches its table of ranks.\<close>

definition merge_verdict :: "verdict option \<Rightarrow> verdict \<Rightarrow> verdict" where
  "merge_verdict current new =
     (case current of
        None \<Rightarrow> new
      | Some cur \<Rightarrow>
          if new = Succeeded then new
          else if cur = Succeeded then cur
          else if verdict_rank cur < verdict_rank new then new else cur)"

type_synonym host_map = "string \<Rightarrow> verdict option"

text \<open>\<open>_numbered_fetch_verdicts\<close>: the loop over the blocks.\<close>

definition numbered_fetch_verdicts :: "page_patterns \<Rightarrow> string \<Rightarrow> string \<Rightarrow> host_map" where
  "numbered_fetch_verdicts pp name result =
     fold (\<lambda>(hosts, info) vs h. if h \<in> hosts then Some (merge_verdict (vs h) (result_verdict pp name False info)) else vs h)
       (pp_numbered_blocks pp result) (\<lambda>h. None)"

definition host_verdicts :: "page_patterns \<Rightarrow> ToolResult \<Rightarrow> string set \<Rightarrow> host_map" where
  "host_verdicts pp r hosts =
     (let v = result_verdict pp (tr_name r) (tr_is_error r) (tr_result r) in
      if card hosts \<le> 1 then (\<lambda>h. if h \<in> hosts then Some v else None)
      else if is_fetch_tool (tr_name r) then
        (\<lambda>h. if h \<in> hosts then numbered_fetch_verdicts pp (tr_name r) (tr_result r) h else None)
      else (\<lambda>h. if h \<in> hosts then Some (if v = Failed then SoftFailed else v) else None))"

section \<open>The guard\<close>

datatype fire_kind = Hint | Block

record StuckTargetGuard =
  sg_hint_after :: nat
  sg_escalate_after :: nat
  sg_window :: nat
  sg_recent :: "(string set \<times> string set) list"
  sg_fired :: "(string \<times> fire_kind) set"
  sg_blocked_hosts :: "string set"
  sg_network_turns :: "int set"
  sg_failed_by_turn :: "int \<Rightarrow> string set"
  sg_soft_failed_by_turn :: "int \<Rightarrow> string set"
  sg_succeeded_by_turn :: "int \<Rightarrow> string set"

text \<open>In the maps by turn, a turn that is absent has the empty set.\<close>

definition init_stuck :: "int \<Rightarrow> int \<Rightarrow> int \<Rightarrow> StuckTargetGuard" where
  "init_stuck hint_after escalate_after window =
     (let h = max 2 hint_after; e = max (h + 1) escalate_after; w = max e window in
      \<lparr>sg_hint_after = nat h, sg_escalate_after = nat e, sg_window = nat w, sg_recent = [], sg_fired = {},
       sg_blocked_hosts = {}, sg_network_turns = {}, sg_failed_by_turn = (\<lambda>n. {}), sg_soft_failed_by_turn = (\<lambda>n. {}),
       sg_succeeded_by_turn = (\<lambda>n. {})\<rparr>)"

definition stuck_loop_start :: "StuckTargetGuard \<Rightarrow> StuckTargetGuard" where
  "stuck_loop_start g =
     g\<lparr>sg_recent := [], sg_fired := {}, sg_blocked_hosts := {}, sg_network_turns := {}, sg_failed_by_turn := (\<lambda>n. {}),
       sg_soft_failed_by_turn := (\<lambda>n. {}), sg_succeeded_by_turn := (\<lambda>n. {})\<rparr>"

text \<open>The blocked hosts a call targets are listed by \<open>sorted\<close>, a parameter here as hosts are not ordered in HOL.\<close>

definition stuck_tool_call ::
  "page_patterns \<Rightarrow> (string set \<Rightarrow> string list) \<Rightarrow> string \<Rightarrow> pyval pydict \<Rightarrow> StuckTargetGuard \<Rightarrow> ToolCallIntervention option" where
  "stuck_tool_call pp sort_hosts name args g =
     (let blocked = sort_hosts (pp_hosts_for_tool pp name args \<inter> sg_blocked_hosts g) in
      if blocked = [] then None
      else Some \<lparr>tv_rewrite_args = None,
        tv_skip_with_result = Some (''[STUCK TARGET BLOCKED] Further calls targeting ''
          @ str_join '', '' (map (\<lambda>h. ''`'' @ h @ ''`'') blocked)
          @ '' are disabled for this run after repeated confirmed failures. Use a different source or finish with an explicit limitation.''),
        tv_metadata_updates = None\<rparr>)"

definition note_hosts :: "verdict \<Rightarrow> host_map \<Rightarrow> string set \<Rightarrow> int \<Rightarrow> (int \<Rightarrow> string set) \<Rightarrow> int \<Rightarrow> string set" where
  "note_hosts v vs hosts n m = m(n := m n \<union> {h \<in> hosts. vs h = Some v})"

definition stuck_tool_result :: "page_patterns \<Rightarrow> int \<Rightarrow> ToolResult \<Rightarrow> StuckTargetGuard \<Rightarrow> StuckTargetGuard" where
  "stuck_tool_result pp n r g =
     (if \<not> is_network_tool (tr_name r) then g
      else
        let hosts = pp_hosts_for_tool pp (tr_name r) (tr_args r) in
        if tool_key (tr_name r) = ''bash'' \<and> hosts = {} then g
        else
          let g1 = g\<lparr>sg_network_turns := insert n (sg_network_turns g)\<rparr>; vs = host_verdicts pp r hosts in
          if hosts = {} then g1
          else g1\<lparr>sg_failed_by_turn := note_hosts Failed vs hosts n (sg_failed_by_turn g1),
                  sg_soft_failed_by_turn := note_hosts SoftFailed vs hosts n (sg_soft_failed_by_turn g1),
                  sg_succeeded_by_turn := note_hosts Succeeded vs hosts n (sg_succeeded_by_turn g1)\<rparr>)"

text \<open>\<open>_reset_host\<close> of every host that succeeded.\<close>

definition reset_hosts :: "string set \<Rightarrow> StuckTargetGuard \<Rightarrow> StuckTargetGuard" where
  "reset_hosts ok g =
     g\<lparr>sg_recent := map (\<lambda>(hard, soft). (hard - ok, soft - ok)) (sg_recent g),
       sg_fired := {(h, k) \<in> sg_fired g. h \<notin> ok}, sg_blocked_hosts := sg_blocked_hosts g - ok\<rparr>"

definition hard_count :: "StuckTargetGuard \<Rightarrow> string \<Rightarrow> nat" where
  "hard_count g h = length (filter (\<lambda>(hard, soft). h \<in> hard) (sg_recent g))"

definition all_count :: "StuckTargetGuard \<Rightarrow> string \<Rightarrow> nat" where
  "all_count g h = length (filter (\<lambda>(hard, soft). h \<in> hard \<union> soft) (sg_recent g))"

definition count_for :: "fire_kind \<Rightarrow> string \<Rightarrow> StuckTargetGuard \<Rightarrow> nat" where
  "count_for k h g = (case k of Block \<Rightarrow> hard_count g h | Hint \<Rightarrow> all_count g h)"

definition threshold_for :: "fire_kind \<Rightarrow> StuckTargetGuard \<Rightarrow> nat" where
  "threshold_for k g = (case k of Block \<Rightarrow> sg_escalate_after g | Hint \<Rightarrow> sg_hint_after g)"

definition guard_message :: "string \<Rightarrow> nat \<Rightarrow> fire_kind \<Rightarrow> StuckTargetGuard \<Rightarrow> string" where
  "guard_message h seen k g =
     ''[guard] '' @ str_of_nat seen @ '' of your last '' @ str_of_nat (length (sg_recent g)) @ '' network steps targeting `'' @ h
     @ (case k of
          Block \<Rightarrow> ''` produced confirmed failures. Further calls to this host are now blocked for this run. Use another source, or answer with what you have and state plainly which material could not be retrieved.''
        | Hint \<Rightarrow> ''` failed. Change route now: use a different source, search for the page title, find an official PDF/API/archive, or accept that the material is unavailable and state the limitation. Do not keep retrying `''
            @ h @ ''` with cosmetic variations.'')"

text \<open>The hosts over a threshold that did not fire yet, with the highest count of them.\<close>

definition counted_hosts :: "fire_kind \<Rightarrow> StuckTargetGuard \<Rightarrow> string set" where
  "counted_hosts k g = \<Union> (set (map (\<lambda>(hard, soft). case k of Block \<Rightarrow> hard | Hint \<Rightarrow> hard \<union> soft) (sg_recent g)))"

definition due_hosts :: "fire_kind \<Rightarrow> StuckTargetGuard \<Rightarrow> string set" where
  "due_hosts k g = {h \<in> counted_hosts k g. threshold_for k g \<le> count_for k h g \<and> (h, k) \<notin> sg_fired g}"

definition top_hosts :: "fire_kind \<Rightarrow> StuckTargetGuard \<Rightarrow> string set" where
  "top_hosts k g = {h \<in> due_hosts k g. \<forall>h' \<in> due_hosts k g. count_for k h' g \<le> count_for k h g}"

text \<open>The end of a network turn, from the point where the verdicts of the turn have been read.\<close>

definition age_window :: "string set \<Rightarrow> string set \<Rightarrow> string set \<Rightarrow> StuckTargetGuard \<Rightarrow> StuckTargetGuard" where
  "age_window hard soft ok g =
     (let g1 = reset_hosts ok g;
          g2 = g1\<lparr>sg_recent := push_window (sg_window g1) (hard - ok, soft - (ok \<union> (hard - ok))) (sg_recent g1)\<rparr>
      in g2\<lparr>sg_fired := {(h, k) \<in> sg_fired g2. h \<in> sg_blocked_hosts g2 \<or> threshold_for k g2 \<le> count_for k h g2}\<rparr>)"

definition fire :: "(string set \<Rightarrow> string) \<Rightarrow> StuckTargetGuard \<Rightarrow> Intervention option \<times> StuckTargetGuard" where
  "fire pick g =
     (if due_hosts Block g \<noteq> {} then
        let h = pick (top_hosts Block g) in
        (Some (inject_only [guard_message h (hard_count g h) Block g]),
         g\<lparr>sg_fired := insert (h, Block) (sg_fired g), sg_blocked_hosts := insert h (sg_blocked_hosts g)\<rparr>)
      else if due_hosts Hint g \<noteq> {} then
        let h = pick (top_hosts Hint g) in
        (Some (inject_only [guard_message h (all_count g h) Hint g]), g\<lparr>sg_fired := insert (h, Hint) (sg_fired g)\<rparr>)
      else (None, g))"

definition stuck_turn_end ::
  "(string set \<Rightarrow> string) \<Rightarrow> int \<Rightarrow> StuckTargetGuard \<Rightarrow> Intervention option \<times> StuckTargetGuard" where
  "stuck_turn_end pick n g =
     (let g1 = g\<lparr>sg_network_turns := sg_network_turns g - {n}, sg_failed_by_turn := (sg_failed_by_turn g)(n := {}),
                 sg_soft_failed_by_turn := (sg_soft_failed_by_turn g)(n := {}),
                 sg_succeeded_by_turn := (sg_succeeded_by_turn g)(n := {})\<rparr>
      in if n \<notin> sg_network_turns g then (None, g1)
         else fire pick (age_window (sg_failed_by_turn g n) (sg_soft_failed_by_turn g n) (sg_succeeded_by_turn g n) g1))"

section \<open>Properties\<close>

text \<open>
  The specification of the count: the hard failures of a host among the last network turns, the
  most recent first, up to the window and back to the last success of the host.
\<close>

type_synonym network_turn = "string set \<times> string set \<times> string set"

fun hard_seen :: "nat \<Rightarrow> string \<Rightarrow> network_turn list \<Rightarrow> nat" where
  "hard_seen 0 h ts = 0"
| "hard_seen n h [] = 0"
| "hard_seen (Suc n) h ((hard, soft, ok) # older) =
     (if h \<in> ok then 0 else (if h \<in> hard then 1 else 0) + hard_seen n h older)"

definition run_turns :: "(string set \<Rightarrow> string) \<Rightarrow> network_turn list \<Rightarrow> StuckTargetGuard \<Rightarrow> StuckTargetGuard" where
  "run_turns pick ts g = fold (\<lambda>(hard, soft, ok) g. snd (fire pick (age_window hard soft ok g))) ts g"

lemma fire_simps [simp]:
  "sg_recent (snd (fire pick g)) = sg_recent g" "sg_window (snd (fire pick g)) = sg_window g"
  "sg_escalate_after (snd (fire pick g)) = sg_escalate_after g" "sg_hint_after (snd (fire pick g)) = sg_hint_after g"
  by (simp_all add: fire_def Let_def)

lemma age_window_simps [simp]:
  "sg_window (age_window hard soft ok g) = sg_window g" "sg_escalate_after (age_window hard soft ok g) = sg_escalate_after g"
  "sg_blocked_hosts (age_window hard soft ok g) = sg_blocked_hosts g - ok"
  "sg_recent (age_window hard soft ok g) =
     push_window (sg_window g) (hard - ok, soft - (ok \<union> (hard - ok))) (map (\<lambda>(a, b). (a - ok, b - ok)) (sg_recent g))"
  by (simp_all add: age_window_def reset_hosts_def Let_def)

text \<open>The window, newest entry first, against the history, newest turn first.\<close>

definition window_agrees :: "StuckTargetGuard \<Rightarrow> network_turn list \<Rightarrow> bool" where
  "window_agrees g past =
     (length (sg_recent g) \<le> sg_window g
      \<and> (\<forall>m\<le>sg_window g. \<forall>h. length (filter (\<lambda>(hard, soft). h \<in> hard) (take m (rev (sg_recent g)))) = hard_seen m h past))"

lemma rev_push_window: "rev (push_window n x xs) = take n (x # rev xs)"
  unfolding push_window_def Let_def by (simp only: rev_drop rev_append rev.simps append_Nil append_Cons length_append)
    (cases "n \<le> Suc (length xs)"; simp add: rev_drop)

lemma filter_without: "filter (\<lambda>(hard, soft). h \<in> hard) (map (\<lambda>(a, b). (a - ok, b - ok)) xs)
    = (if h \<in> ok then [] else map (\<lambda>(a, b). (a - ok, b - ok)) (filter (\<lambda>(hard, soft). h \<in> hard) xs))"
  by (induction xs) auto

lemma window_agrees_step:
  assumes "window_agrees g past" "sg_window g \<noteq> 0"
  shows "window_agrees (age_window hard soft ok g) ((hard, soft, ok) # past)"
proof -
  have "length (filter (\<lambda>(a, b). h \<in> a) (take m (rev (sg_recent (age_window hard soft ok g))))) = hard_seen m h ((hard, soft, ok) # past)"
    if "m \<le> sg_window g" for m h
  proof (cases m)
    case (Suc n)
    then have "take m (rev (sg_recent (age_window hard soft ok g)))
        = (hard - ok, soft - (ok \<union> (hard - ok))) # map (\<lambda>(a, b). (a - ok, b - ok)) (take n (rev (sg_recent g)))"
      using that by (simp add: rev_push_window rev_map take_map min_def)
    moreover have "length (filter (\<lambda>(a, b). h \<in> a) (take n (rev (sg_recent g)))) = hard_seen n h past"
      using assms(1) that Suc by (simp add: window_agrees_def)
    ultimately show ?thesis using Suc by (simp add: filter_without)
  qed simp
  moreover have "length (sg_recent (age_window hard soft ok g)) \<le> sg_window g"
    by (simp add: push_window_def Let_def)
  ultimately show ?thesis by (simp add: window_agrees_def)
qed

text \<open>The latches of quarantine are the quarantined hosts, and the window is that of the history.\<close>

definition stuck_inv :: "network_turn list \<Rightarrow> StuckTargetGuard \<Rightarrow> bool" where
  "stuck_inv past g =
     (window_agrees g past \<and> 0 < sg_escalate_after g \<and> sg_window g \<noteq> 0
      \<and> (\<forall>h. ((h, Block) \<in> sg_fired g) = (h \<in> sg_blocked_hosts g)))"

lemma stuck_inv_init: "stuck_inv [] (init_stuck a b c)"
  by (auto simp: stuck_inv_def init_stuck_def Let_def window_agrees_def neq0_conv [symmetric] simp del: neq0_conv)
    (metis hard_seen.simps(1,2) not0_implies_Suc)

lemma stuck_inv_age: "stuck_inv past g \<Longrightarrow> stuck_inv ((hard, soft, ok) # past) (age_window hard soft ok g)"
  using window_agrees_step by (auto simp: stuck_inv_def) (auto simp: age_window_def reset_hosts_def Let_def)

lemma fire_blocked:
  "sg_blocked_hosts (snd (fire pick g)) =
     (if due_hosts Block g \<noteq> {} then insert (pick (top_hosts Block g)) (sg_blocked_hosts g) else sg_blocked_hosts g)"
  by (auto simp: fire_def Let_def)

lemma stuck_inv_fire: "stuck_inv past g \<Longrightarrow> stuck_inv past (snd (fire pick g))"
  unfolding stuck_inv_def window_agrees_def by (auto simp: fire_def Let_def)

lemma stuck_inv_run: "stuck_inv (rev ts) (run_turns pick ts (init_stuck a b c))"
proof (induction ts rule: rev_induct)
  case (snoc t ts)
  obtain hard soft ok where "t = (hard, soft, ok)" by (cases t)
  then show ?case using stuck_inv_fire [OF stuck_inv_age [OF snoc]] by (simp add: run_turns_def)
qed (simp add: run_turns_def stuck_inv_init)

lemma hard_count_seen: "window_agrees g past \<Longrightarrow> hard_count g h = hard_seen (sg_window g) h past"
proof -
  assume "window_agrees g past"
  then have "length (filter (\<lambda>(hard, soft). h \<in> hard) (take (sg_window g) (rev (sg_recent g)))) = hard_seen (sg_window g) h past"
    "length (sg_recent g) \<le> sg_window g" by (auto simp: window_agrees_def)
  then show ?thesis by (simp add: hard_count_def rev_filter [symmetric])
qed

lemma counted_pos: "0 < hard_count g h \<Longrightarrow> h \<in> counted_hosts Block g"
  by (force simp: hard_count_def counted_hosts_def length_greater_0_conv filter_empty_conv)

text \<open>The hosts due for quarantine: over the threshold by the history and not quarantined.\<close>

lemma due_block_iff:
  "stuck_inv past g \<Longrightarrow> (h \<in> due_hosts Block g) = (sg_escalate_after g \<le> hard_seen (sg_window g) h past \<and> h \<notin> sg_blocked_hosts g)"
  using counted_pos [of g h] hard_count_seen [of g past h]
  by (auto simp: due_hosts_def stuck_inv_def threshold_for_def count_for_def)

lemma top_hosts_nonempty:
  assumes "due_hosts k g \<noteq> {}"
  shows "top_hosts k g \<noteq> {}"
proof -
  have "count_for k h g < Suc (length (sg_recent g))" for h
    by (simp add: count_for_def hard_count_def all_count_def less_Suc_eq_le split: fire_kind.split)
  moreover obtain h0 where "h0 \<in> due_hosts k g" using assms by blast
  ultimately obtain h where "h \<in> due_hosts k g" "\<forall>h' \<in> due_hosts k g. count_for k h' g \<le> count_for k h g"
    using ex_has_greatest_nat [of "\<lambda>h. h \<in> due_hosts k g" h0 "\<lambda>h. count_for k h g" "Suc (length (sg_recent g))"] by auto
  then show ?thesis by (auto simp: top_hosts_def)
qed


abbreviation any_host :: "string set \<Rightarrow> string" where
  "any_host \<equiv> (\<lambda>S. SOME h. h \<in> S)"

lemma quarantine_demo:
  "\<not> 3 \<le> hard_seen 3 h [({''x''}, {}, {})]"
  "\<not> 3 \<le> hard_seen 3 h [({''x''}, {}, {}), ({''x''}, {}, {})]"
  "(3 \<le> hard_seen 3 h [({''x''}, {}, {}), ({''x''}, {}, {}), ({''x''}, {}, {})]) = (h = ''x'')"
  "sg_escalate_after (init_stuck 2 3 3) = 3" "sg_window (init_stuck 2 3 3) = 3"
  by (simp_all add: numeral_3_eq_3 init_stuck_def Let_def)


text \<open>A call is answered by the guard exactly when it targets a quarantined host.\<close>

lemma blocked_calls_skipped:
  assumes "set (sort_hosts (pp_hosts_for_tool pp name args \<inter> sg_blocked_hosts g)) = pp_hosts_for_tool pp name args \<inter> sg_blocked_hosts g"
  shows "(stuck_tool_call pp sort_hosts name args g \<noteq> None) = (pp_hosts_for_tool pp name args \<inter> sg_blocked_hosts g \<noteq> {})"
  using assms
  by (auto simp: stuck_tool_call_def Let_def)

text \<open>On merging, a success wins and otherwise the stronger failure; the order of the blocks of a host does not matter.\<close>

lemma merge_verdict_max: "verdict_rank (merge_verdict (Some a) b) = max (verdict_rank a) (verdict_rank b)"
  by (cases a; cases b) (auto simp: merge_verdict_def)

lemma merge_verdict_commute: "merge_verdict (Some a) b = merge_verdict (Some b) a"
  by (cases a; cases b) (auto simp: merge_verdict_def)

end
