(* ===== verification/Tool_Validation.thy ===== *)
theory Tool_Validation
  imports Response
begin

text \<open>
  The checks between a model's tool calls and their execution: argument validation
  (\<^verbatim>\<open>runtime/loop/tool_call_validation.py\<close>), recovery of calls that lost their arguments in a stream
  (\<^verbatim>\<open>tool_call_recovery.py\<close>) and the repair of common mistakes (\<^verbatim>\<open>tool_call_repair.py\<close>).  The decoder
  of JSON and the third-party schema validator are parameters: \<open>loads\<close> gives \<open>None\<close> where
  \<open>json.loads\<close> raises, \<open>best_error\<close> is the best error of a validator, its path and message, \<open>None\<close> also
  for a schema that cannot be used; \<open>repr_of\<close> quotes a string, \<open>str_of\<close> prints a value.
\<close>

type_synonym json_schema = "pyval pydict"

section \<open>Validation\<close>

fun dict_of :: "pyval \<Rightarrow> pyval pydict option" where
  "dict_of (PyDict d) = Some d"
| "dict_of v = None"

definition normalize_mode :: "string option \<Rightarrow> string" where
  "normalize_mode mode =
     (case mode of
        Some m \<Rightarrow> if m \<in> {''structural'', ''strict'', ''off''} then m else ''structural''
      | None \<Rightarrow> ''structural'')"

text \<open>The name and the parameters of one bound tool, if it has the shape of one.\<close>

definition tool_parameters :: "pyval \<Rightarrow> (string \<times> json_schema) option" where
  "tool_parameters tool =
     (case tool of
        PyDict t \<Rightarrow>
          (case get_or_none t ''function'' of
             PyDict f \<Rightarrow>
               (case (get_or_none f ''name'', get_or_none f ''parameters'') of
                  (PyStr name, PyDict ps) \<Rightarrow> Some (name, ps)
                | _ \<Rightarrow> None)
           | _ \<Rightarrow> None)
      | _ \<Rightarrow> None)"

definition bound_tool_parameters :: "pyval list \<Rightarrow> json_schema pydict" where
  "bound_tool_parameters tools =
     fold (\<lambda>t m. case tool_parameters t of None \<Rightarrow> m | Some (name, ps) \<Rightarrow> AList.update name ps m) tools []"

text \<open>The strings among the elements of a list.\<close>

fun strings_of :: "pyval list \<Rightarrow> string list" where
  "strings_of [] = []"
| "strings_of (PyStr s # vs) = s # strings_of vs"
| "strings_of (v # vs) = strings_of vs"

definition required_fields :: "json_schema \<Rightarrow> string list" where
  "required_fields schema = (case get_or_none schema ''required'' of PyList fs \<Rightarrow> strings_of fs | _ \<Rightarrow> [])"

definition missing_required :: "(string \<Rightarrow> string) \<Rightarrow> pyval pydict \<Rightarrow> json_schema \<Rightarrow> string option" where
  "missing_required repr_of args schema =
     (case filter (\<lambda>f. map_of args f = None) (required_fields schema) of
        [] \<Rightarrow> None
      | [f] \<Rightarrow> Some (''arguments: '' @ [CHR 0x27] @ f @ [CHR 0x27] @ '' is a required property'')
      | fs \<Rightarrow> Some (''arguments: required properties missing: '' @ str_join '', '' (map repr_of fs)))"

type_synonym validator = "json_schema \<Rightarrow> pyval pydict \<Rightarrow> (string list \<times> string) option"

definition validate_arguments :: "validator \<Rightarrow> pyval pydict \<Rightarrow> json_schema \<Rightarrow> string \<Rightarrow> string option" where
  "validate_arguments best_error args schema path =
     (case best_error schema args of
        None \<Rightarrow> None
      | Some (parts, message) \<Rightarrow>
          let location = str_join ''.'' parts in
          Some (path @ (if location \<noteq> [] then ''.'' @ location else []) @ '': '' @ message))"

text \<open>The arguments a native call carries: a dictionary, or the reason why there is none.\<close>

definition decode_arguments :: "(string \<Rightarrow> pyval option) \<Rightarrow> pyval \<Rightarrow> string + pyval pydict" where
  "decode_arguments loads raw =
     (case raw of
        PyNone \<Rightarrow> Inr []
      | PyStr s \<Rightarrow>
          (if str_strip s = [] then Inr []
           else case loads s of
                  None \<Rightarrow> Inl ''arguments are invalid JSON''
                | Some (PyDict d) \<Rightarrow> Inr d
                | Some v \<Rightarrow> Inl ''arguments must be a JSON object'')
      | PyDict d \<Rightarrow> Inr d
      | _ \<Rightarrow> Inl ''arguments must be a JSON object'')"

definition argument_issue ::
  "(string \<Rightarrow> pyval option) \<Rightarrow> (string \<Rightarrow> string) \<Rightarrow> validator \<Rightarrow>
   pyval \<Rightarrow> json_schema option \<Rightarrow> string option \<Rightarrow> string option" where
  "argument_issue loads repr_of best_error raw schema mode =
     (let m = normalize_mode mode in
      if m = ''off'' then None
      else
        case decode_arguments loads raw of
          Inl reason \<Rightarrow> Some reason
        | Inr args \<Rightarrow>
            (case schema of
               None \<Rightarrow> None
             | Some sc \<Rightarrow>
                 (case missing_required repr_of args sc of
                    Some reason \<Rightarrow> Some reason
                  | None \<Rightarrow> if m = ''strict'' then validate_arguments best_error args sc ''arguments'' else None)))"

record call_issue =
  ci_index :: nat
  ci_id :: pyval
  ci_name :: pyval
  ci_raw_arguments :: pyval
  ci_reason :: string

definition MISSING_NAME :: string where "MISSING_NAME = ''missing tool name''"

definition MISSING_ID :: string where "MISSING_ID = ''missing tool call id''"

definition IDENTITY_REASONS :: "string set" where
  "IDENTITY_REASONS = {MISSING_NAME, MISSING_ID}"

text \<open>The reason for one call; \<open>None\<close> for a call in order and for what is not a call at all.\<close>

definition call_reason ::
  "(pyval \<Rightarrow> json_schema option \<Rightarrow> string option) \<Rightarrow> (string \<Rightarrow> json_schema option) \<Rightarrow> pyval pydict \<Rightarrow> pyval pydict \<Rightarrow> string option" where
  "call_reason issue lookup call fn =
     (case get_or_none fn ''name'' of
        PyStr name \<Rightarrow>
          if name = [] then Some MISSING_NAME
          else (case get_or_none call ''id'' of
                  PyStr cid \<Rightarrow> if cid = [] then Some MISSING_ID else issue (get_or_none fn ''arguments'') (lookup name)
                | _ \<Rightarrow> Some MISSING_ID)
      | _ \<Rightarrow> Some MISSING_NAME)"

definition native_call :: "pyval \<Rightarrow> (pyval pydict \<times> pyval pydict) option" where
  "native_call v = (case v of PyDict call \<Rightarrow> map_option (Pair call) (dict_of (get_or_none call ''function'')) | _ \<Rightarrow> None)"

definition issue_at ::
  "(pyval \<Rightarrow> json_schema option \<Rightarrow> string option) \<Rightarrow> (string \<Rightarrow> json_schema option) \<Rightarrow> nat \<Rightarrow> pyval \<Rightarrow> call_issue option" where
  "issue_at issue lookup i v =
     (case native_call v of
        None \<Rightarrow> None
      | Some (call, fn) \<Rightarrow>
          (case call_reason issue lookup call fn of
             None \<Rightarrow> None
           | Some reason \<Rightarrow>
               if reason = [] then None
               else Some \<lparr>ci_index = i, ci_id = get_or_none call ''id'', ci_name = get_or_none fn ''name'',
                          ci_raw_arguments = get_or_none fn ''arguments'', ci_reason = reason\<rparr>))"

definition native_tool_call_issues ::
  "(pyval \<Rightarrow> json_schema option \<Rightarrow> string option) \<Rightarrow> (string \<Rightarrow> json_schema option) \<Rightarrow> pyval list \<Rightarrow> call_issue list" where
  "native_tool_call_issues issue lookup tool_calls =
     List.map_filter (\<lambda>p. issue_at issue lookup (fst p) (snd p)) (enumerate 0 tool_calls)"

definition invalid_native_tool_calls ::
  "(pyval \<Rightarrow> json_schema option \<Rightarrow> string option) \<Rightarrow> pyval list \<Rightarrow> pyval list \<Rightarrow> call_issue list" where
  "invalid_native_tool_calls issue tools tool_calls =
     filter (\<lambda>i. ci_reason i \<notin> IDENTITY_REASONS)
       (native_tool_call_issues issue (map_of (bound_tool_parameters tools)) tool_calls)"

text \<open>\<open>ensure_tool_call_ids\<close>; \<open>fresh\<close> gives the identifier for the call at an index.\<close>

definition call_name :: "pyval pydict \<Rightarrow> pyval" where
  "call_name call = (case get_or_none call ''function'' of PyDict f \<Rightarrow> get_or_none f ''name'' | _ \<Rightarrow> get_or_none call ''name'')"

definition has_id :: "pyval pydict \<Rightarrow> bool" where
  "has_id call = (case get_or_none call ''id'' of PyStr s \<Rightarrow> s \<noteq> [] | _ \<Rightarrow> False)"

definition needs_id :: "pyval \<Rightarrow> bool" where
  "needs_id v = (case v of PyDict call \<Rightarrow> truthy (call_name call) \<and> \<not> has_id call | _ \<Rightarrow> False)"

definition ensure_id :: "(nat \<Rightarrow> string) \<Rightarrow> nat \<times> pyval \<Rightarrow> pyval" where
  "ensure_id fresh iv =
     (case iv of
        (i, PyDict call) \<Rightarrow>
          if needs_id (PyDict call) then PyDict (AList.update ''id'' (PyStr (''call_'' @ fresh i)) call) else PyDict call
      | (i, v) \<Rightarrow> v)"

definition ensure_tool_call_ids :: "(nat \<Rightarrow> string) \<Rightarrow> pyval list \<Rightarrow> pyval list \<times> nat list" where
  "ensure_tool_call_ids fresh tool_calls =
     (map (ensure_id fresh) (enumerate 0 tool_calls),
      map fst (filter (\<lambda>iv. needs_id (snd iv)) (enumerate 0 tool_calls)))"

section \<open>Calls that lost their arguments\<close>

definition required_tool_arguments :: "pyval \<Rightarrow> string list pydict" where
  "required_tool_arguments tools =
     (case tools of
        PyList ts \<Rightarrow>
          fold (\<lambda>t m. case tool_parameters t of
                        None \<Rightarrow> m
                      | Some (name, ps) \<Rightarrow> if required_fields ps \<noteq> [] then AList.update name (required_fields ps) m else m) ts []
      | _ \<Rightarrow> [])"

definition lost_required_tool_arguments :: "(string \<Rightarrow> pyval option) \<Rightarrow> pyval \<Rightarrow> string list \<Rightarrow> bool" where
  "lost_required_tool_arguments loads raw required =
     (case raw of
        PyNone \<Rightarrow> True
      | PyStr s \<Rightarrow>
          if str_strip s = [] then True
          else (case loads s of
                  None \<Rightarrow> True
                | Some (PyDict d) \<Rightarrow> list_ex (\<lambda>f. map_of d f = None) required
                | Some v \<Rightarrow> False)
      | _ \<Rightarrow> False)"

definition stream_tool_calls_missing_required_arguments ::
  "(string \<Rightarrow> pyval option) \<Rightarrow> pyval \<Rightarrow> pyval list \<Rightarrow> string list" where
  "stream_tool_calls_missing_required_arguments loads tools tool_calls =
     (let required_by_name = required_tool_arguments tools in
      List.map_filter (\<lambda>v.
        case native_call v of
          None \<Rightarrow> None
        | Some (call, fn) \<Rightarrow>
            (case get_or_none fn ''name'' of
               PyStr name \<Rightarrow>
                 (case map_of required_by_name name of
                    None \<Rightarrow> None
                  | Some req \<Rightarrow>
                      if req \<noteq> [] \<and> lost_required_tool_arguments loads (get_or_none fn ''arguments'') req then Some name else None)
             | _ \<Rightarrow> None)) tool_calls)"

section \<open>Repair\<close>

text \<open>\<open>re.sub(r",\s*([}\]])", r"\1", raw)\<close> and \<open>re.sub(r",\s*$", "", text)\<close>\<close>

function drop_commas :: "string \<Rightarrow> string" where
  "drop_commas [] = []"
| "drop_commas (c # cs) =
     (if c = CHR '','' then
        (case dropWhile is_space cs of
           d # ds \<Rightarrow> if d = CHR ''}'' \<or> d = CHR '']'' then d # drop_commas ds else c # drop_commas cs
         | [] \<Rightarrow> c # drop_commas cs)
      else c # drop_commas cs)"
  by pat_completeness auto
termination
proof (relation "measure length")
  fix c cs d ds assume "dropWhile is_space cs = d # (ds :: string)"
  then have "length ds < length (dropWhile is_space cs)" by simp
  also have "\<dots> \<le> length cs" by (rule length_dropWhile_le)
  finally show "(ds, c # cs) \<in> measure length" by simp
qed auto

definition drop_last_comma :: "string \<Rightarrow> string" where
  "drop_last_comma s = (case dropWhile is_space (rev s) of c # cs \<Rightarrow> if c = CHR '','' then rev cs else s | [] \<Rightarrow> s)"

text \<open>A quote toggles unless a backslash stands before it; the first argument is the character before.\<close>

definition quote_at :: "char option \<Rightarrow> char \<Rightarrow> bool" where
  "quote_at before c = (c = CHR 0x22 \<and> before \<noteq> Some CHR 0x5C)"

fun ends_in_string :: "bool \<Rightarrow> char option \<Rightarrow> string \<Rightarrow> bool" where
  "ends_in_string q before [] = q"
| "ends_in_string q before (c # cs) = ends_in_string (if quote_at before c then \<not> q else q) (Some c) cs"

text \<open>The stack of closers, innermost first.\<close>

fun open_brackets :: "bool \<Rightarrow> char option \<Rightarrow> string \<Rightarrow> string \<Rightarrow> string" where
  "open_brackets q before stack [] = stack"
| "open_brackets q before stack (c # cs) =
     (if quote_at before c then open_brackets (\<not> q) (Some c) stack cs
      else if \<not> q \<and> c = CHR ''{'' then open_brackets q (Some c) (CHR ''}'' # stack) cs
      else if \<not> q \<and> c = CHR ''['' then open_brackets q (Some c) (CHR '']'' # stack) cs
      else if \<not> q \<and> (c = CHR ''}'' \<or> c = CHR '']'') \<and> stack \<noteq> [] \<and> hd stack = c then open_brackets q (Some c) (tl stack) cs
      else open_brackets q (Some c) stack cs)"

definition repair_truncated_json :: "(string \<Rightarrow> pyval option) \<Rightarrow> string \<Rightarrow> string option" where
  "repair_truncated_json loads s =
     (let raw = str_strip s in
      if raw = [] then None
      else if loads raw \<noteq> None then Some raw
      else
        let t1 = drop_last_comma (drop_commas raw) in
        if loads t1 \<noteq> None then Some t1
        else
          let t2 = drop_last_comma (if ends_in_string False None t1 then t1 @ [CHR 0x22] else t1);
              t3 = t2 @ open_brackets False None [] t2
          in if loads t3 \<noteq> None then Some t3 else None)"

definition DEFAULT_KEY_ALIASES :: "string pydict pydict" where
  "DEFAULT_KEY_ALIASES =
     [(''web_search'', [(''search_query'', ''query''), (''q'', ''query''), (''text'', ''query''),
        (''results'', ''num_results''), (''count'', ''num_results''), (''n'', ''num_results'')]),
      (''web_fetch'', [(''link'', ''url''), (''page'', ''url''), (''site'', ''url'')]),
      (''read_file'', [(''filename'', ''path''), (''file'', ''path''), (''file_path'', ''path'')]),
      (''read_text'', [(''filename'', ''path''), (''file'', ''path''), (''file_path'', ''path'')]),
      (''write_file'', [(''filename'', ''path''), (''file'', ''path''), (''file_path'', ''path''),
        (''text'', ''content''), (''body'', ''content'')]),
      (''bash'', [(''cmd'', ''command''), (''shell'', ''command''), (''run'', ''command'')]),
      (''grep_search'', [(''regex'', ''pattern''), (''search'', ''pattern''), (''query'', ''pattern''),
        (''directory'', ''path''), (''glob'', ''glob_filter''), (''lines'', ''context_lines'')]),
      (''glob_search'', [(''glob'', ''pattern''), (''file_pattern'', ''pattern''), (''directory'', ''path'')]),
      (''delegate_subtask'', [(''tasks'', ''subtasks''), (''questions'', ''subtasks'')]),
      (''file_editor_str_replace'', [(''file'', ''path''), (''file_path'', ''path''), (''before'', ''old_string''),
        (''old'', ''old_string''), (''after'', ''new_string''), (''new'', ''new_string'')]),
      (''file_editor_view'', [(''file'', ''path''), (''file_path'', ''path'')]),
      (''file_editor_create'', [(''file'', ''path''), (''file_path'', ''path''), (''file_text'', ''content'')]),
      (''view_image'', [(''file'', ''path''), (''file_path'', ''path''), (''image'', ''path'')])]"

text \<open>The only coercion of the defaults is to \<open>int\<close>; the keys it applies to.\<close>

definition DEFAULT_TYPE_COERCIONS :: "string list pydict" where
  "DEFAULT_TYPE_COERCIONS = [(''web_search'', [''num_results'']), (''grep_search'', [''context_lines'', ''max_results''])]"

definition LITERAL_CONTENT_KEYS :: "string set" where
  "LITERAL_CONTENT_KEYS = {''content'', ''file_text'', ''new_str'', ''new_string'', ''old_str'', ''old_string'', ''patch'',
     ''replacement'', ''text''}"

text \<open>
  \<open>re.match(r"^```(?:bash|sh|shell)?\s*\n(.*?)```\s*$", s, re.DOTALL)\<close>, the group stripped: a blank run
  with a line break must follow the opening fence, and the closing fence ends the text.
\<close>

definition fence :: string where "fence = ''```''"

definition fenced_with :: "string \<Rightarrow> string \<Rightarrow> string option" where
  "fenced_with lang s =
     (if prefix (fence @ lang) s then
        let rest = drop (length (fence @ lang)) s;
            body = rev (dropWhile is_space (rev (dropWhile is_space rest)))
        in if CHR 0x0A \<in> set (takeWhile is_space rest) \<and> suffix fence body
           then Some (str_strip (take (length body - 3) body)) else None
      else None)"

definition unfence :: "string \<Rightarrow> string option" where
  "unfence s =
     (case List.find (\<lambda>l. fenced_with l s \<noteq> None) [''bash'', ''sh'', ''shell'', []] of
        None \<Rightarrow> None | Some l \<Rightarrow> fenced_with l s)"

text \<open>\<open>args[key] = w\<close> for a value that asks for it.\<close>

definition repair_field :: "string \<Rightarrow> (pyval \<Rightarrow> pyval option) \<Rightarrow> pyval pydict \<Rightarrow> pyval pydict" where
  "repair_field key f args = (case f (get_or_none args key) of Some w \<Rightarrow> AList.update key w args | None \<Rightarrow> args)"

definition join_items :: "(pyval \<Rightarrow> string) \<Rightarrow> string \<Rightarrow> pyval \<Rightarrow> pyval option" where
  "join_items str_of sep v = (case v of PyList items \<Rightarrow> Some (PyStr (str_join sep (map (py_format str_of) items))) | _ \<Rightarrow> None)"

definition default_tool_repair ::
  "(pyval \<Rightarrow> string) \<Rightarrow> (string \<Rightarrow> pyval option) \<Rightarrow> string \<Rightarrow> pyval pydict \<Rightarrow> pyval pydict" where
  "default_tool_repair str_of loads tool_name args =
     (if tool_name = ''web_search'' then repair_field ''query'' (join_items str_of '' '') args
      else if tool_name = ''web_fetch'' then
        repair_field ''url'' (\<lambda>v. case v of
             PyStr url \<Rightarrow> if prefix ''<'' url \<and> suffix ''>'' url then Some (PyStr (butlast (tl url))) else None
           | _ \<Rightarrow> None) args
      else if tool_name = ''bash'' then
        repair_field ''command'' (\<lambda>v. case v of PyStr cmd \<Rightarrow> map_option PyStr (unfence cmd) | _ \<Rightarrow> None) args
      else if tool_name = ''delegate_subtask'' then
        repair_field ''subtasks'' (\<lambda>v. case v of
             PyStr raw \<Rightarrow>
               Some (case loads raw of
                       Some (PyList l) \<Rightarrow> PyList l
                     | Some w \<Rightarrow> PyStr raw
                     | None \<Rightarrow> PyList [PyDict [(''question'', PyStr raw)]])
           | _ \<Rightarrow> None) args
      else if tool_name = ''grep_search'' then repair_field ''pattern'' (join_items str_of ''|'') args
      else args)"

record repair_stats =
  rs_key_renames :: nat
  rs_type_coercions :: nat
  rs_whitespace_strips :: nat
  rs_total_calls :: nat

type_synonym repairing = "pyval pydict \<times> repair_stats"

definition rename_key :: "string \<times> string \<Rightarrow> repairing \<Rightarrow> repairing" where
  "rename_key alias st =
     (case (alias, st) of
        ((old, new), (args, stats)) \<Rightarrow>
          (case map_of args old of
             Some v \<Rightarrow>
               if map_of args new = None
               then (AList.update new v (AList.delete old args), stats\<lparr>rs_key_renames := rs_key_renames stats + 1\<rparr>)
               else st
           | None \<Rightarrow> st))"

text \<open>\<open>isinstance(v, int)\<close> holds of booleans too.\<close>

fun is_int_value :: "pyval \<Rightarrow> bool" where
  "is_int_value (PyInt i) = True"
| "is_int_value (PyBool b) = True"
| "is_int_value v = False"

definition coerce_key :: "string \<Rightarrow> repairing \<Rightarrow> repairing" where
  "coerce_key key st =
     (case st of
        (args, stats) \<Rightarrow>
          (case map_of args key of
             Some v \<Rightarrow>
               if is_int_value v then st
               else (case py_int v of
                       Some i \<Rightarrow> (AList.update key (PyInt i) args, stats\<lparr>rs_type_coercions := rs_type_coercions stats + 1\<rparr>)
                     | None \<Rightarrow> st)
           | None \<Rightarrow> st))"

definition strip_value :: "string set \<Rightarrow> string \<times> pyval \<Rightarrow> string \<times> pyval" where
  "strip_value literal kv = (case kv of (k, PyStr s) \<Rightarrow> (k, PyStr (if k \<in> literal then s else str_strip s)) | _ \<Rightarrow> kv)"

definition strip_values :: "string set \<Rightarrow> repairing \<Rightarrow> repairing" where
  "strip_values literal st =
     (case st of
        (args, stats) \<Rightarrow>
          (map (strip_value literal) args,
           stats\<lparr>rs_whitespace_strips := rs_whitespace_strips stats + length (filter (\<lambda>kv. strip_value literal kv \<noteq> kv) args)\<rparr>))"

definition before_tool_call ::
  "string pydict pydict \<Rightarrow> string list pydict \<Rightarrow> string set \<Rightarrow> (string \<Rightarrow> pyval pydict \<Rightarrow> pyval pydict) \<Rightarrow>
   string \<Rightarrow> repairing \<Rightarrow> repairing" where
  "before_tool_call aliases coercions literal tool_repair tool_name st =
     (let (args, stats) = st;
          (args1, stats1) =
            strip_values literal
              (fold coerce_key (dict_get_default coercions tool_name [])
                (fold rename_key (dict_get_default aliases tool_name []) (args, stats\<lparr>rs_total_calls := rs_total_calls stats + 1\<rparr>)))
      in (tool_repair tool_name args1, stats1))"

section \<open>Properties\<close>

text \<open>What a call must be for the executor: a name, an identifier, and arguments that decode to a dictionary with every required field.\<close>

definition well_typed_call :: "(string \<Rightarrow> pyval option) \<Rightarrow> (string \<Rightarrow> json_schema option) \<Rightarrow> pyval pydict \<Rightarrow> pyval pydict \<Rightarrow> bool" where
  "well_typed_call loads lookup call fn =
     (\<exists>name cid args. get_or_none fn ''name'' = PyStr name \<and> name \<noteq> [] \<and> get_or_none call ''id'' = PyStr cid \<and> cid \<noteq> []
        \<and> decode_arguments loads (get_or_none fn ''arguments'') = Inr args
        \<and> (\<forall>sc. lookup name = Some sc \<longrightarrow> set (required_fields sc) \<subseteq> dom (map_of args)))"

lemma map_filter_Nil: "List.map_filter f xs = [] \<longleftrightarrow> (\<forall>x\<in>set xs. f x = None)"
  by (induction xs) (auto simp: List.map_filter_simps split: option.split)

lemma ball_enumerate: "(\<forall>p\<in>set (enumerate n xs). P (snd p)) \<longleftrightarrow> (\<forall>x\<in>set xs. P x)"
  by (induction xs arbitrary: n) (auto simp: enumerate_simps)

lemma missing_required_None: "missing_required repr_of args sc = None \<longleftrightarrow> set (required_fields sc) \<subseteq> dom (map_of args)"
proof -
  have "missing_required repr_of args sc = None \<longleftrightarrow> filter (\<lambda>f. map_of args f = None) (required_fields sc) = []"
    by (auto simp: missing_required_def split: list.splits)
  then show ?thesis by (auto simp: filter_empty_conv dom_def)
qed

lemma missing_required_text: "missing_required repr_of args sc \<noteq> Some []"
  by (auto simp: missing_required_def split: list.splits)

lemma decode_arguments_text: "decode_arguments loads raw \<noteq> Inl []"
  by (auto simp: decode_arguments_def split: pyval.splits option.splits)

lemma call_reason_structural:
  fixes loads :: "string \<Rightarrow> pyval option" and repr_of :: "string \<Rightarrow> string" and best_error :: validator
  defines "issue \<equiv> (\<lambda>raw sc. argument_issue loads repr_of best_error raw sc (Some ''structural''))"
  shows "call_reason issue lookup call fn = None \<longleftrightarrow> well_typed_call loads lookup call fn"
    and "call_reason issue lookup call fn \<noteq> Some []"
proof -
  have i: "issue raw sc = (case decode_arguments loads raw of Inl reason \<Rightarrow> Some reason
      | Inr args \<Rightarrow> (case sc of None \<Rightarrow> None | Some s \<Rightarrow> missing_required repr_of args s))" for raw sc
    by (auto simp: issue_def argument_issue_def normalize_mode_def split: sum.split option.split)
  show "call_reason issue lookup call fn = None \<longleftrightarrow> well_typed_call loads lookup call fn"
    by (auto simp: call_reason_def well_typed_call_def i missing_required_None split: pyval.splits sum.splits option.splits)
  show "call_reason issue lookup call fn \<noteq> Some []"
    using decode_arguments_text missing_required_text
    by (auto simp: call_reason_def i MISSING_NAME_def MISSING_ID_def split: pyval.splits sum.splits option.splits)
qed

text \<open>
  C21: structural validation is exactly the type of a call: it reports nothing on a reply if and only if
  every native call of it has a name, an identifier and arguments that decode to a dictionary with
  every field its tool requires.
\<close>

theorem accepted_calls_well_typed:
  "native_tool_call_issues (\<lambda>raw sc. argument_issue loads repr_of best_error raw sc (Some ''structural'')) lookup tool_calls = []
   \<longleftrightarrow> (\<forall>v\<in>set tool_calls. \<forall>call fn. native_call v = Some (call, fn) \<longrightarrow> well_typed_call loads lookup call fn)"
proof -
  let ?issue = "\<lambda>raw sc. argument_issue loads repr_of best_error raw sc (Some ''structural'')"
  have "issue_at ?issue lookup i v = None \<longleftrightarrow> (\<forall>call fn. native_call v = Some (call, fn) \<longrightarrow> call_reason ?issue lookup call fn = None)" for i v
    using call_reason_structural(2) [of loads repr_of best_error lookup]
    by (cases "native_call v") (auto simp: issue_at_def split: option.split prod.split)
  then have "(native_tool_call_issues ?issue lookup tool_calls = []) =
      (\<forall>p\<in>set (enumerate 0 tool_calls). \<forall>call fn. native_call (snd p) = Some (call, fn) \<longrightarrow> call_reason ?issue lookup call fn = None)"
    unfolding native_tool_call_issues_def map_filter_Nil by simp
  also have "\<dots> = (\<forall>v\<in>set tool_calls. \<forall>call fn. native_call v = Some (call, fn) \<longrightarrow> call_reason ?issue lookup call fn = None)"
    by (rule ball_enumerate)
  finally show ?thesis unfolding call_reason_structural(1) .
qed

theorem accepted_calls_well_typed_witness:
  "native_tool_call_issues (\<lambda>raw sc. argument_issue (\<lambda>s. Some (PyDict [])) (\<lambda>s. s) (\<lambda>sc a. None) raw sc (Some ''structural'')) (\<lambda>n. None)
     [PyDict [(''id'', PyStr ''c1''), (''function'', PyDict [(''name'', PyStr ''ls''), (''arguments'', PyStr ''x'')])]] = []"
  unfolding accepted_calls_well_typed
  by (auto simp: native_call_def get_or_none_def well_typed_call_def decode_arguments_def)

text \<open>Identifiers: after \<open>ensure_tool_call_ids\<close> every named call has one; a call that had one keeps it.\<close>

lemma ensure_id_done: "\<not> needs_id (ensure_id fresh (i, v))"
proof (cases v)
  case (PyDict call)
  have "has_id (AList.update ''id'' (PyStr (''call_'' @ fresh i)) call)" by (simp add: has_id_def get_or_none_def update_conv')
  then show ?thesis using PyDict by (simp add: ensure_id_def needs_id_def)
qed (simp_all add: ensure_id_def needs_id_def)

lemma ensure_id_keeps: "\<not> needs_id v \<Longrightarrow> ensure_id fresh (i, v) = v"
  by (cases v) (simp_all add: ensure_id_def)

lemma ensure_ids:
  "length (fst (ensure_tool_call_ids fresh calls)) = length calls"
  "i < length calls \<Longrightarrow> \<not> needs_id (fst (ensure_tool_call_ids fresh calls) ! i)"
  "i < length calls \<Longrightarrow> \<not> needs_id (calls ! i) \<Longrightarrow> fst (ensure_tool_call_ids fresh calls) ! i = calls ! i"
  by (simp_all add: ensure_tool_call_ids_def nth_enumerate_eq ensure_id_done ensure_id_keeps)

text \<open>
  The two checks of lost arguments agree: a payload counts as lost in a stream exactly when
  structural validation rejects it, except for a payload that decodes to something other than an
  object, which a replay would not bring back.
\<close>

theorem lost_iff_rejected:
  assumes "required_fields sc \<noteq> []" "\<forall>d. raw \<noteq> PyDict d"
  shows "lost_required_tool_arguments loads raw (required_fields sc) \<longleftrightarrow>
    (\<exists>reason. argument_issue loads repr_of best_error raw (Some sc) (Some ''structural'') = Some reason
       \<and> reason \<noteq> ''arguments must be a JSON object'')"
proof -
  have m: "(\<exists>r. missing_required repr_of args sc = Some r \<and> r \<noteq> ''arguments must be a JSON object'') \<longleftrightarrow>
      list_ex (\<lambda>f. map_of args f = None) (required_fields sc)" for args
  proof -
    have "missing_required repr_of args sc \<noteq> Some ''arguments must be a JSON object''"
      by (auto simp: missing_required_def split: list.splits)
    then show ?thesis using missing_required_None [of repr_of args sc]
      by (auto simp: list_ex_iff dom_def subset_iff)
  qed
  have "lost_required_tool_arguments loads raw (required_fields sc) =
      (case decode_arguments loads raw of
         Inl reason \<Rightarrow> reason \<noteq> ''arguments must be a JSON object''
       | Inr args \<Rightarrow> list_ex (\<lambda>f. map_of args f = None) (required_fields sc))"
    using assms by (cases "required_fields sc")
      (auto simp: lost_required_tool_arguments_def decode_arguments_def split: pyval.splits option.splits)
  moreover have "argument_issue loads repr_of best_error raw (Some sc) (Some ''structural'') =
      (case decode_arguments loads raw of Inl reason \<Rightarrow> Some reason | Inr args \<Rightarrow> missing_required repr_of args sc)"
    by (auto simp: argument_issue_def normalize_mode_def split: sum.split option.split)
  ultimately show ?thesis using m by (cases "decode_arguments loads raw") simp_all
qed

theorem lost_iff_rejected_witness:
  "required_fields [(''required'', PyList [PyStr ''q''])] \<noteq> []
   \<and> lost_required_tool_arguments (\<lambda>s. None) (PyStr ''{'') (required_fields [(''required'', PyList [PyStr ''q''])])
   \<and> (\<exists>reason. argument_issue (\<lambda>s. None) (\<lambda>s. s) (\<lambda>a b. None) (PyStr ''{'') (Some [(''required'', PyList [PyStr ''q''])]) (Some ''structural'') = Some reason)"
proof -
  have h: "required_fields [(''required'', PyList [PyStr ''q''])] \<noteq> []" by code_simp
  have "lost_required_tool_arguments (\<lambda>s. None) (PyStr ''{'') (required_fields [(''required'', PyList [PyStr ''q''])])" by code_simp
  then show ?thesis
    using lost_iff_rejected [OF h, of "PyStr ''{''" "\<lambda>s. None" "\<lambda>s. s" "\<lambda>a b. None"] h by auto
qed

text \<open>The repair of a cut-off payload gives text that decodes, and leaves text that already decodes alone.\<close>

lemma repair_decodes:
  "repair_truncated_json loads s = Some t \<Longrightarrow> loads t \<noteq> None"
  "loads (str_strip s) \<noteq> None \<Longrightarrow> str_strip s \<noteq> [] \<Longrightarrow> repair_truncated_json loads s = Some (str_strip s)"
  by (auto simp: repair_truncated_json_def Let_def split: if_splits)

lemma rename_keeps:
  "k \<notin> fst ` set aliases \<Longrightarrow> map_of args k = Some v \<Longrightarrow> map_of (fst (fold rename_key aliases (args, stats))) k = Some v"
proof (induction aliases arbitrary: args stats)
  case (Cons a as)
  obtain old new where a: "a = (old, new)" by (cases a)
  obtain args1 stats1 where step: "rename_key a (args, stats) = (args1, stats1)" by (cases "rename_key a (args, stats)")
  have "map_of args1 k = Some v"
    using step Cons.prems a by (auto simp: rename_key_def update_conv' delete_conv' split: option.splits if_splits)
  then show ?case using Cons step by simp
qed simp

lemma coerce_keeps:
  "k \<notin> set keys \<Longrightarrow> map_of (fst (fold coerce_key keys (args, stats))) k = map_of args k"
proof (induction keys arbitrary: args stats)
  case (Cons a as)
  obtain args1 stats1 where step: "coerce_key a (args, stats) = (args1, stats1)" by (cases "coerce_key a (args, stats)")
  have "map_of args1 k = map_of args k"
    using step Cons.prems by (auto simp: coerce_key_def update_conv' split: option.splits if_splits)
  then show ?case using Cons step by simp
qed simp

lemma strip_keeps: "k \<in> literal \<Longrightarrow> map_of (map (strip_value literal) args) k = map_of args k"
  by (induction args) (auto simp: strip_value_def split: prod.split pyval.split)

lemma repair_field_keeps: "k \<noteq> key \<Longrightarrow> map_of (repair_field key f args) k = map_of args k"
  by (simp add: repair_field_def update_conv' split: option.split)

lemma default_repair_keeps:
  "k \<notin> {''query'', ''url'', ''command'', ''subtasks'', ''pattern''} \<Longrightarrow>
   map_of (default_tool_repair str_of loads tool args) k = map_of args k"
  by (simp add: default_tool_repair_def repair_field_keeps)

text \<open>
  Literal content is left alone: text for a file or an exact-match edit reaches the tool as the
  model wrote it, with its indentation and line ends, for every tool whose aliases do not rename
  that argument.
\<close>

theorem literal_content_untouched:
  assumes "k \<in> LITERAL_CONTENT_KEYS" "map_of args k = Some v" "k \<notin> fst ` set (dict_get_default DEFAULT_KEY_ALIASES tool [])"
  shows "map_of (fst (before_tool_call DEFAULT_KEY_ALIASES DEFAULT_TYPE_COERCIONS LITERAL_CONTENT_KEYS
      (default_tool_repair str_of loads) tool (args, stats))) k = Some v"
proof -
  let ?s = "stats\<lparr>rs_total_calls := rs_total_calls stats + 1\<rparr>"
  let ?al = "dict_get_default DEFAULT_KEY_ALIASES tool []" and ?co = "dict_get_default DEFAULT_TYPE_COERCIONS tool []"
  obtain a1 s1 where 1: "fold rename_key ?al (args, ?s) = (a1, s1)" by (cases "fold rename_key ?al (args, ?s)")
  obtain a2 s2 where 2: "fold coerce_key ?co (a1, s1) = (a2, s2)" by (cases "fold coerce_key ?co (a1, s1)")
  have "k \<notin> set ?co" using assms(1)
    by (auto simp: DEFAULT_TYPE_COERCIONS_def LITERAL_CONTENT_KEYS_def dict_get_default_def split: option.splits if_splits)
  then have "map_of a2 k = map_of a1 k" using coerce_keeps [of k ?co a1 s1] 2 by simp
  moreover have "map_of a1 k = Some v" using rename_keeps [OF assms(3,2), of ?s] 1 by simp
  moreover have "k \<notin> {''query'', ''url'', ''command'', ''subtasks'', ''pattern''}"
    using assms(1) by (auto simp: LITERAL_CONTENT_KEYS_def)
  ultimately show ?thesis using default_repair_keeps strip_keeps [OF assms(1)] 1 2
    by (simp add: before_tool_call_def strip_values_def)
qed

theorem literal_content_untouched_witness:
  "map_of (fst (before_tool_call DEFAULT_KEY_ALIASES DEFAULT_TYPE_COERCIONS LITERAL_CONTENT_KEYS
      (default_tool_repair (\<lambda>v. []) (\<lambda>s. None)) ''write_file'' ([(''content'', PyStr ''  x '')],
        \<lparr>rs_key_renames = 0, rs_type_coercions = 0, rs_whitespace_strips = 0, rs_total_calls = 0\<rparr>))) ''content'' = Some (PyStr ''  x '')"
proof -
  have k: "''content'' \<in> LITERAL_CONTENT_KEYS" by (simp add: LITERAL_CONTENT_KEYS_def)
  have a: "''content'' \<notin> fst ` set (dict_get_default DEFAULT_KEY_ALIASES ''write_file'' [])"
    by (simp add: DEFAULT_KEY_ALIASES_def dict_get_default_def)
  show ?thesis using literal_content_untouched [OF k _ a, of "[(''content'', PyStr ''  x '')]" "PyStr ''  x ''"] by simp
qed

end
