(* ===== verification/Fan_In.thy ===== *)
theory Fan_In
  imports Bus_Runs Response
begin

text \<open>
  Fan-in of sub-agent reports (\<open>components/agent_bus/fan_in.py\<close>): how a finished sub-agent result is
  labelled (\<open>classify_completion\<close>), rendered as a \<open><report>\<close> block, harvested for evidence into the
  bus (\<open>process_collected\<close>), and how the state of a task's sessions is summarised for the main agent
  (\<open>session_state\<close>, \<open>format_status_line\<close>).

  A raise in the middle of a batch leaves the bus as the results before it left it, so
  \<open>process_collected\<close> hands back the bus in every case and the batch only when nothing raised
  (\<open>None\<close> is the \<open>AttributeError\<close> or \<open>TypeError\<close> of a metadata value of the wrong type).
  \<open>repr_of\<close> is Python's \<open>repr\<close>.
\<close>

section \<open>Stop reasons\<close>

definition COMPLETE_STOP_REASONS :: "string set" where
  "COMPLETE_STOP_REASONS = {[], ''completed'', ''final_answer'', ''submit_report''}"

definition INCOMPLETE_STOP_REASONS :: "string set" where
  "INCOMPLETE_STOP_REASONS =
     {''max_turns'', ''max_attempts'', ''llm_error'', ''no_tool'', ''budget_exhausted'', ''wall_deadline'',
      ''context_limit_reached'', ''cross_turn_repetition'', ''repeated_tool_calls'', ''response_truncated'',
      ''reasoning_runaway'', ''exception'', ''thrash_no_progress''}"

definition INCOMPLETE_NOTES :: "string pydict" where
  "INCOMPLETE_NOTES =
     [(''max_turns'', ''agent reached the max_turns budget; report is partial''),
      (''max_attempts'', ''agent exceeded the per-turn LLM retry budget; report is partial''),
      (''llm_error'', ''sub-agent's LLM call failed; report is partial''),
      (''no_tool'', ''agent stopped without producing a final answer''),
      (''response_truncated'', ''agent's replies kept hitting the output token limit; report is partial''),
      (''reasoning_runaway'', ''agent's replies kept spending the whole output budget on reasoning without a visible answer; report is partial''),
      (''budget_exhausted'', ''agent exhausted its token budget; report is partial''),
      (''wall_deadline'', ''agent ran out of wall-clock time; report is partial''),
      (''context_limit_reached'', ''agent ran out of model context window mid-task; report is partial''),
      (''cross_turn_repetition'', ''agent stopped after repeating itself across turns; report is a best-effort partial''),
      (''repeated_tool_calls'', ''agent stopped after re-issuing the same tool call with identical arguments; report is a best-effort partial''),
      (''exception'', ''agent terminated with an unhandled exception; report is partial''),
      (''thrash_no_progress'', ''coordinator was spinning on sub-agent create/assign without new information; stopped and synthesised from collected reports'')]"

datatype CompletionStatus = Complete | Incomplete | FailedReport | PausedReport

fun status_text :: "CompletionStatus \<Rightarrow> string" where
  "status_text Complete = ''complete''"
| "status_text Incomplete = ''incomplete''"
| "status_text FailedReport = ''failed''"
| "status_text PausedReport = ''paused''"

datatype SessionState = NoSubagents | ReadyToCollect | RunningSessions | NoWorkQueued | AllCollected

record CompletionPolicy =
  cp_complete_reasons :: "string set"
  cp_incomplete_notes :: "string pydict"
  cp_include_error_class :: bool

definition DEFAULT_COMPLETION_POLICY :: CompletionPolicy where
  "DEFAULT_COMPLETION_POLICY =
     \<lparr>cp_complete_reasons = COMPLETE_STOP_REASONS, cp_incomplete_notes = INCOMPLETE_NOTES, cp_include_error_class = True\<rparr>"

section \<open>The reason attribute\<close>

text \<open>The characters \<open>[a-z0-9_.-]\<close>, and \<open>_ATTR_TOKEN_RE.sub("_", token)\<close>: each run of others becomes one underscore.\<close>

definition token_char :: "char \<Rightarrow> bool" where
  "token_char c = (let n = (of_char c :: nat) in (97 \<le> n \<and> n \<le> 122) \<or> is_digit c \<or> c = CHR ''_'' \<or> c = CHR ''.'' \<or> c = CHR ''-'')"

function token_sub :: "string \<Rightarrow> string" where
  "token_sub [] = []"
| "token_sub (c # cs) =
     (if token_char c then c # token_sub cs else CHR ''_'' # token_sub (dropWhile (\<lambda>d. \<not> token_char d) cs))"
  by pat_completeness auto
termination
  by (relation "measure length") (auto simp: le_imp_less_Suc length_dropWhile_le)

definition strip_underscores :: "string \<Rightarrow> string" where
  "strip_underscores s = rev (dropWhile (\<lambda>c. c = CHR ''_'') (rev (dropWhile (\<lambda>c. c = CHR ''_'') s)))"

definition safe_reason :: "string \<Rightarrow> string" where
  "safe_reason v =
     (let token = str_lower (str_strip (if v = [] then ''unknown'' else v));
          token' = take 80 (strip_underscores (token_sub token))
      in if token' = [] then ''unknown'' else token')"

section \<open>Labelling a result\<close>

record CompletionInfo =
  ci_status :: CompletionStatus
  ci_reason :: string
  ci_note :: string

text \<open>\<open>(md.get("stopped_by") or "").strip()\<close>; \<open>None\<close> where the value has no \<open>strip\<close>.\<close>

definition stopped_by_of :: "pyval pydict \<Rightarrow> string option" where
  "stopped_by_of md =
     (case get_or_none md ''stopped_by'' of
        PyStr s \<Rightarrow> Some (str_strip s)
      | v \<Rightarrow> if truthy v then None else Some [])"

definition or_text :: "string option \<Rightarrow> string \<Rightarrow> string" where
  "or_text v d = (case v of None \<Rightarrow> d | Some s \<Rightarrow> if s = [] then d else s)"

definition failed_info :: "CompletionPolicy \<Rightarrow> SubAgentResult \<Rightarrow> CompletionInfo" where
  "failed_info policy r =
     (let err = str_strip (or_text (ar_error r) ''unknown error'');
          cls = (if cp_include_error_class policy then str_strip (or_text (ar_error_class r) []) else []);
          display = (if cls \<noteq> [] then cls @ '': '' @ err else err)
      in \<lparr>ci_status = FailedReport, ci_reason = safe_reason err,
          ci_note = ''agent failed mid-task ('' @ display @ ''); output is partial''\<rparr>)"

definition stopped_info :: "CompletionPolicy \<Rightarrow> string \<Rightarrow> CompletionInfo" where
  "stopped_info policy stopped_by =
     (if stopped_by = ''paused'' then
        \<lparr>ci_status = PausedReport, ci_reason = ''paused'', ci_note = ''agent paused (resumable from checkpoint)''\<rparr>
      else case map_of (cp_incomplete_notes policy) stopped_by of
        Some note \<Rightarrow> \<lparr>ci_status = Incomplete, ci_reason = stopped_by, ci_note = note\<rparr>
      | None \<Rightarrow>
          if stopped_by \<in> cp_complete_reasons policy then \<lparr>ci_status = Complete, ci_reason = [], ci_note = []\<rparr>
          else \<lparr>ci_status = Incomplete, ci_reason = safe_reason stopped_by,
                ci_note = ''agent stopped by observer reason `'' @ stopped_by @ ''`; report may be partial''\<rparr>)"

definition classify_completion :: "CompletionPolicy \<Rightarrow> SubAgentResult \<Rightarrow> CompletionInfo option" where
  "classify_completion policy r =
     (case stopped_by_of (ar_metadata r) of
        None \<Rightarrow> None
      | Some stopped_by \<Rightarrow> Some (if \<not> ar_success r then failed_info policy r else stopped_info policy stopped_by))"

section \<open>Rendering\<close>

definition report_body :: "SubAgentResult \<Rightarrow> CompletionInfo \<Rightarrow> string" where
  "report_body r info =
     (let body = str_strip (if ar_final_content r = [] then ''(empty report)'' else ar_final_content r)
      in if ci_note info \<noteq> [] then ''[NOTE: '' @ ci_note info @ ''.]'' @ [CHR 0x0A] @ body else body)"

definition report_open :: "string \<Rightarrow> CompletionInfo \<Rightarrow> string" where
  "report_open name info =
     ''<report agent=\"'' @ name @ ''\" status=\"'' @ status_text (ci_status info) @ ''\"''
     @ (if ci_reason info \<noteq> [] then '' reason=\"'' @ ci_reason info @ ''\"'' else []) @ ''>''"

definition format_report_block :: "string \<Rightarrow> SubAgentResult \<Rightarrow> CompletionInfo \<Rightarrow> string" where
  "format_report_block name r info =
     report_open name info @ [CHR 0x0A] @ report_body r info @ [CHR 0x0A] @ ''</report>''"

definition ORCHESTRATOR_AGENT_NAME :: string where
  "ORCHESTRATOR_AGENT_NAME = ''orchestrator''"

definition format_status_report_block :: "string \<Rightarrow> string \<Rightarrow> string" where
  "format_status_report_block reason body =
     ''<report agent=\"'' @ ORCHESTRATOR_AGENT_NAME @ ''\" status=\"complete\" reason=\"'' @ safe_reason reason @ ''\">''
     @ [CHR 0x0A] @ str_strip body @ [CHR 0x0A] @ ''</report>''"

section \<open>A batch of results\<close>

record FanInBatch =
  fb_blocks :: "string list"
  fb_paused_names :: "string set"
  fb_incomplete_count :: nat
  fb_evidence_count :: nat
  fb_assertion_count :: nat

definition empty_batch :: FanInBatch where
  "empty_batch = \<lparr>fb_blocks = [], fb_paused_names = {}, fb_incomplete_count = 0, fb_evidence_count = 0, fb_assertion_count = 0\<rparr>"

text \<open>\<open>session_id.split("::", 1)[-1]\<close>, and \<open>list(v)\<close> of a value.\<close>

definition session_name :: "string \<Rightarrow> string" where
  "session_name sid = (case split_first ''::'' sid of None \<Rightarrow> sid | Some (_, post) \<Rightarrow> post)"

fun py_list :: "pyval \<Rightarrow> pyval list option" where
  "py_list (PyList vs) = Some vs"
| "py_list (PyStr s) = Some (map (\<lambda>c. PyStr [c]) s)"
| "py_list (PyDict d) = Some (map (\<lambda>p. PyStr (fst p)) d)"
| "py_list _ = None"

definition metadata_list :: "SubAgentResult \<Rightarrow> string \<Rightarrow> pyval list option" where
  "metadata_list r key = py_list (dict_get_default (ar_metadata r) key (PyList []))"

definition count_report :: "string \<Rightarrow> SubAgentResult \<Rightarrow> CompletionInfo \<Rightarrow> FanInBatch \<Rightarrow> FanInBatch" where
  "count_report name r info batch = batch
     \<lparr>fb_paused_names := (if ci_status info = PausedReport then insert name (fb_paused_names batch) else fb_paused_names batch),
      fb_incomplete_count := fb_incomplete_count batch + (if ci_status info \<in> {Incomplete, FailedReport} then 1 else 0),
      fb_blocks := fb_blocks batch @ [format_report_block name r info]\<rparr>"

definition process_one ::
  "CompletionPolicy \<Rightarrow> string \<Rightarrow> string \<times> SubAgentResult \<Rightarrow> AgentBus \<times> FanInBatch \<Rightarrow> (AgentBus \<times> FanInBatch) option" where
  "process_one policy task_id item st =
     (case classify_completion policy (snd item) of
        None \<Rightarrow> None
      | Some info \<Rightarrow>
          (case (metadata_list (snd item) ''evidence_cards'', metadata_list (snd item) ''assertions'') of
             (Some ev, Some asserts) \<Rightarrow>
               let batch = count_report (session_name (fst item)) (snd item) info (snd st) in
               if ev \<noteq> [] \<or> asserts \<noteq> [] then
                 Some (accumulate_task_metadata task_id [(''evidence_cards'', ev), (''assertions'', asserts)] (fst st),
                       batch\<lparr>fb_evidence_count := fb_evidence_count batch + length ev,
                             fb_assertion_count := fb_assertion_count batch + length asserts\<rparr>)
               else Some (fst st, batch)
           | _ \<Rightarrow> None))"

fun process_from ::
  "CompletionPolicy \<Rightarrow> string \<Rightarrow> (string \<times> SubAgentResult) list \<Rightarrow> AgentBus \<times> FanInBatch \<Rightarrow> AgentBus \<times> FanInBatch option" where
  "process_from policy task_id [] st = (fst st, Some (snd st))"
| "process_from policy task_id (item # items) st =
     (case process_one policy task_id item st of
        None \<Rightarrow> (fst st, None)
      | Some st' \<Rightarrow> process_from policy task_id items st')"

definition process_collected ::
  "CompletionPolicy \<Rightarrow> string \<Rightarrow> (string \<times> SubAgentResult) list \<Rightarrow> AgentBus \<Rightarrow> AgentBus \<times> FanInBatch option" where
  "process_collected policy task_id collected b = process_from policy task_id collected (b, empty_batch)"

section \<open>The state of a task's sessions\<close>

definition list_sessions_for_task :: "string \<Rightarrow> AgentBus \<Rightarrow> SubAgentSession list" where
  "list_sessions_for_task task_id b = filter (\<lambda>s. ss_task_id s = task_id) (map snd (ab_sessions b))"

definition has_work :: "SubAgentSession \<Rightarrow> bool" where
  "has_work s = (ss_current_job_id s \<noteq> None \<or> ss_pending_tasks s \<noteq> [])"

definition session_state :: "SubAgentSession list \<Rightarrow> SessionState" where
  "session_state sessions =
     (if sessions = [] then NoSubagents
      else if \<exists>s\<in>set sessions. ss_pending_results s \<noteq> [] then ReadyToCollect
      else if \<exists>s\<in>set sessions. has_work s then RunningSessions
      else if \<forall>s\<in>set sessions. ss_total_task_count s = 0 \<and> ss_last_report s = [] then NoWorkQueued
      else AllCollected)"

definition running_label :: "SubAgentSession \<Rightarrow> string" where
  "running_label s = (if ss_pending_tasks s \<noteq> [] then ss_name s @ ''+'' @ str_of_nat (length (ss_pending_tasks s)) @ ''q'' else ss_name s)"

definition paused_sessions :: "string set \<Rightarrow> SubAgentSession list \<Rightarrow> SubAgentSession list" where
  "paused_sessions paused_names = filter (\<lambda>s. ss_name s \<in> paused_names)"

definition running_sessions :: "string set \<Rightarrow> SubAgentSession list \<Rightarrow> SubAgentSession list" where
  "running_sessions paused_names = filter (\<lambda>s. ss_name s \<notin> paused_names \<and> has_work s)"

definition ready_sessions :: "string set \<Rightarrow> SubAgentSession list \<Rightarrow> SubAgentSession list" where
  "ready_sessions paused_names = filter (\<lambda>s. ss_name s \<notin> paused_names \<and> \<not> has_work s \<and> ss_pending_results s \<noteq> [])"

definition status_bits :: "(pyval \<Rightarrow> string) \<Rightarrow> string set \<Rightarrow> SubAgentSession list \<Rightarrow> string list" where
  "status_bits repr_of paused_names sessions =
     (let names = (\<lambda>xs. repr_of (PyList (map PyStr xs)));
          running = map running_label (running_sessions paused_names sessions);
          ready = map ss_name (ready_sessions paused_names sessions);
          paused = map ss_name (paused_sessions paused_names sessions)
      in (if running \<noteq> [] then [''running='' @ names running] else [])
         @ (if ready \<noteq> [] then [''ready_to_collect='' @ names ready] else [])
         @ (if paused \<noteq> [] then [''paused='' @ names paused] else []))"

definition idle_bit :: "SubAgentSession list \<Rightarrow> string" where
  "idle_bit sessions =
     (if sum_list (map ss_total_task_count sessions) = 0 \<and> \<not> (\<exists>s\<in>set sessions. ss_last_report s \<noteq> [])
      then ''no_work_queued'' else ''all_collected'')"

definition format_status_line :: "(pyval \<Rightarrow> string) \<Rightarrow> AgentBus \<Rightarrow> string \<Rightarrow> string set \<Rightarrow> nat \<Rightarrow> string" where
  "format_status_line repr_of b task_id paused_names incomplete_count =
     (let sessions = list_sessions_for_task task_id b in
      if sessions = [] then ''[status] no sub-agents''
      else
        let bits = status_bits repr_of paused_names sessions;
            bits' = (if bits = [] then [idle_bit sessions] else bits);
            bits'' = (if incomplete_count \<noteq> 0 then bits' @ [''incomplete_this_batch='' @ str_of_nat incomplete_count] else bits')
        in ''[status] '' @ str_join '' '' bits'')"

section \<open>Lemmas\<close>

lemma token_sub_chars: "\<forall>c\<in>set (token_sub s). token_char c"
proof (induction s rule: token_sub.induct)
  case (2 c cs)
  have u: "token_char (CHR ''_'')" by code_simp
  show ?case using "2.IH" u unfolding token_sub.simps(2) by (cases "token_char c") (simp_all only: if_True if_False list.set ball_simps insert_iff, blast+)
qed simp

lemma token_sub_clean: "\<forall>c\<in>set s. token_char c \<Longrightarrow> token_sub s = s"
  by (induction s) auto

lemma set_strip_underscores: "set (strip_underscores s) \<subseteq> set s"
  unfolding strip_underscores_def by (auto dest!: set_dropWhileD)

lemma safe_reason_token:
  "\<forall>c\<in>set (safe_reason v). token_char c" "safe_reason v \<noteq> []" "length (safe_reason v) \<le> 80"
proof -
  let ?t = "take 80 (strip_underscores (token_sub (str_lower (str_strip (if v = [] then ''unknown'' else v)))))"
  have "\<forall>c\<in>set ?t. token_char c"
    using token_sub_chars set_strip_underscores by (meson in_set_takeD subsetD)
  moreover have "\<forall>c\<in>set ''unknown''. token_char c" by code_simp
  moreover have "safe_reason v = (if ?t = [] then ''unknown'' else ?t)"
    by (simp add: safe_reason_def Let_def)
  ultimately show "\<forall>c\<in>set (safe_reason v). token_char c" "safe_reason v \<noteq> []" "length (safe_reason v) \<le> 80"
    by simp_all
qed

text \<open>The note table and the two sets of stop reasons fit together.\<close>

lemma incomplete_notes_dom: "dom (map_of INCOMPLETE_NOTES) = INCOMPLETE_STOP_REASONS"
proof -
  have "set (map fst INCOMPLETE_NOTES) = INCOMPLETE_STOP_REASONS" by code_simp
  then show ?thesis by (simp add: dom_map_of_conv_image_fst)
qed

lemma reasons_disjoint: "r \<in> COMPLETE_STOP_REASONS \<Longrightarrow> map_of INCOMPLETE_NOTES r = None"
proof -
  have "COMPLETE_STOP_REASONS \<inter> INCOMPLETE_STOP_REASONS = {}" by code_simp
  then show "r \<in> COMPLETE_STOP_REASONS \<Longrightarrow> map_of INCOMPLETE_NOTES r = None"
    using incomplete_notes_dom by blast
qed

lemma incomplete_reasons_tokens:
  assumes "r \<in> INCOMPLETE_STOP_REASONS"
  shows "r \<noteq> [] \<and> (\<forall>c\<in>set r. token_char c)"
proof -
  have "\<forall>r\<in>INCOMPLETE_STOP_REASONS. r \<noteq> [] \<and> (\<forall>c\<in>set r. token_char c)" by code_simp
  then show ?thesis using assms by blast
qed

lemma stopped_info_cases:
  "ci_status (stopped_info DEFAULT_COMPLETION_POLICY r) =
     (if r = ''paused'' then PausedReport else if r \<in> COMPLETE_STOP_REASONS then Complete else Incomplete)"
  using reasons_disjoint [of r]
  by (auto simp: stopped_info_def DEFAULT_COMPLETION_POLICY_def split: option.split)

text \<open>The pool of a task's harvested lists, and what one result and a batch add to it.\<close>

definition pool :: "AgentBus \<Rightarrow> string \<Rightarrow> string \<Rightarrow> pyval list" where
  "pool b task_id key = dict_get_default (dict_get_default (ab_task_aggregates b) task_id []) key []"

definition harvest :: "string \<Rightarrow> string \<times> SubAgentResult \<Rightarrow> pyval list" where
  "harvest key item = (case metadata_list (snd item) key of None \<Rightarrow> [] | Some vs \<Rightarrow> vs)"

definition partial_report :: "CompletionPolicy \<Rightarrow> string \<times> SubAgentResult \<Rightarrow> bool" where
  "partial_report policy item =
     (case classify_completion policy (snd item) of None \<Rightarrow> False | Some info \<Rightarrow> ci_status info \<in> {Incomplete, FailedReport})"

definition block_of :: "CompletionPolicy \<Rightarrow> string \<times> SubAgentResult \<Rightarrow> string" where
  "block_of policy item =
     (case classify_completion policy (snd item) of
        None \<Rightarrow> [] | Some info \<Rightarrow> format_report_block (session_name (fst item)) (snd item) info)"

lemma pool_accumulate:
  "pool (accumulate_task_metadata t [(''evidence_cards'', ev), (''assertions'', asr)] b) t ''evidence_cards'' = pool b t ''evidence_cards'' @ ev"
  "pool (accumulate_task_metadata t [(''evidence_cards'', ev), (''assertions'', asr)] b) t ''assertions'' = pool b t ''assertions'' @ asr"
  by (auto simp: pool_def accumulate_task_metadata_def Let_def dict_get_default_def update_conv' split: option.splits)

lemma process_one_effect:
  assumes "process_one policy t item (b, batch) = Some (b', batch')"
  shows "pool b' t ''evidence_cards'' = pool b t ''evidence_cards'' @ harvest ''evidence_cards'' item"
    "pool b' t ''assertions'' = pool b t ''assertions'' @ harvest ''assertions'' item"
    "\<exists>agg. b' = b\<lparr>ab_task_aggregates := agg\<rparr>"
    "fb_blocks batch' = fb_blocks batch @ [block_of policy item]"
    "fb_incomplete_count batch' = fb_incomplete_count batch + (if partial_report policy item then 1 else 0)"
    "fb_evidence_count batch' = fb_evidence_count batch + length (harvest ''evidence_cards'' item)"
    "fb_assertion_count batch' = fb_assertion_count batch + length (harvest ''assertions'' item)"
proof -
  obtain info ev asr where c: "classify_completion policy (snd item) = Some info"
    "metadata_list (snd item) ''evidence_cards'' = Some ev" "metadata_list (snd item) ''assertions'' = Some asr"
    using assms by (auto simp: process_one_def split: option.splits)
  note E = assms [unfolded process_one_def c option.case prod.case Let_def fst_conv snd_conv]
  note D = harvest_def partial_report_def block_of_def c count_report_def
  have frame: "\<exists>agg. accumulate_task_metadata t pl b = b\<lparr>ab_task_aggregates := agg\<rparr>" for pl
    by (auto simp: accumulate_task_metadata_def Let_def intro: exI [of _ "ab_task_aggregates b"])
  show "pool b' t ''evidence_cards'' = pool b t ''evidence_cards'' @ harvest ''evidence_cards'' item"
    "pool b' t ''assertions'' = pool b t ''assertions'' @ harvest ''assertions'' item"
    using E by (auto simp: D pool_accumulate split: if_splits)
  show "\<exists>agg. b' = b\<lparr>ab_task_aggregates := agg\<rparr>"
    using E frame by (auto split: if_splits intro: exI [of _ "ab_task_aggregates b"])
  show "fb_blocks batch' = fb_blocks batch @ [block_of policy item]"
    "fb_incomplete_count batch' = fb_incomplete_count batch + (if partial_report policy item then 1 else 0)"
    "fb_evidence_count batch' = fb_evidence_count batch + length (harvest ''evidence_cards'' item)"
    "fb_assertion_count batch' = fb_assertion_count batch + length (harvest ''assertions'' item)"
    using E by (auto simp: D split: if_splits)
qed

lemma process_from_effect:
  assumes "process_from policy t items (b, batch) = (b', Some batch')"
  shows "pool b' t ''evidence_cards'' = pool b t ''evidence_cards'' @ concat (map (harvest ''evidence_cards'') items)
    \<and> pool b' t ''assertions'' = pool b t ''assertions'' @ concat (map (harvest ''assertions'') items)
    \<and> (\<exists>agg. b' = b\<lparr>ab_task_aggregates := agg\<rparr>)
    \<and> fb_blocks batch' = fb_blocks batch @ map (block_of policy) items
    \<and> fb_incomplete_count batch' = fb_incomplete_count batch + length (filter (partial_report policy) items)
    \<and> fb_evidence_count batch' = fb_evidence_count batch + length (concat (map (harvest ''evidence_cards'') items))
    \<and> fb_assertion_count batch' = fb_assertion_count batch + length (concat (map (harvest ''assertions'') items))"
  using assms
proof (induction items arbitrary: b batch)
  case Nil
  then show ?case by (auto intro: exI [of _ "ab_task_aggregates b'"])
next
  case (Cons item items)
  then obtain b1 batch1 where one: "process_one policy t item (b, batch) = Some (b1, batch1)"
    and tail: "process_from policy t items (b1, batch1) = (b', Some batch')"
    by (auto split: option.splits)
  show ?case using Cons.IH [OF tail] process_one_effect [OF one] by auto
qed

section \<open>Properties\<close>

text \<open>
  A report is labelled complete exactly when the sub-agent succeeded and stopped for one of the clean
  reasons; only then are reason and note left out, and a reason is always a token that can stand in
  an attribute.
\<close>

theorem complete_only_when_finished:
  assumes "classify_completion DEFAULT_COMPLETION_POLICY r = Some info"
  shows "(ci_status info = Complete \<longleftrightarrow>
          ar_success r \<and> (\<exists>s. stopped_by_of (ar_metadata r) = Some s \<and> s \<in> COMPLETE_STOP_REASONS))
    \<and> (ci_reason info = [] \<longleftrightarrow> ci_status info = Complete)
    \<and> (ci_note info = [] \<longleftrightarrow> ci_status info = Complete)
    \<and> (\<forall>c\<in>set (ci_reason info). token_char c)"
proof -
  obtain s where s: "stopped_by_of (ar_metadata r) = Some s"
    "info = (if \<not> ar_success r then failed_info DEFAULT_COMPLETION_POLICY r else stopped_info DEFAULT_COMPLETION_POLICY s)"
    using assms by (auto simp: classify_completion_def split: option.splits)
  have paused: "''paused'' \<notin> COMPLETE_STOP_REASONS" "\<forall>c\<in>set ''paused''. token_char c" by code_simp+
  have table: "\<forall>p\<in>set INCOMPLETE_NOTES. snd p \<noteq> []" by code_simp
  have listed: "s \<noteq> [] \<and> nt \<noteq> [] \<and> (\<forall>c\<in>set s. token_char c)" if "map_of INCOMPLETE_NOTES s = Some nt" for nt
    using that incomplete_notes_dom incomplete_reasons_tokens table map_of_SomeD [OF that] by fastforce
  let ?i = "stopped_info DEFAULT_COMPLETION_POLICY s"
  have "(ci_reason ?i = [] \<longleftrightarrow> ci_status ?i = Complete) \<and> (ci_note ?i = [] \<longleftrightarrow> ci_status ?i = Complete)
      \<and> (\<forall>c\<in>set (ci_reason ?i). token_char c)"
    using listed paused(2) safe_reason_token reasons_disjoint [of s]
    by (auto simp: stopped_info_def DEFAULT_COMPLETION_POLICY_def split: option.split)
  moreover have "ci_reason (failed_info p r) \<noteq> [] \<and> ci_note (failed_info p r) \<noteq> [] \<and> ci_status (failed_info p r) = FailedReport
      \<and> (\<forall>c\<in>set (ci_reason (failed_info p r)). token_char c)" for p
    using safe_reason_token by (simp add: failed_info_def Let_def)
  ultimately show ?thesis using paused(1) by (auto simp: s stopped_info_cases)
qed

definition demo_report :: SubAgentResult where
  "demo_report =
     \<lparr>ar_question = ''q'', ar_role_id = ''r'', ar_final_content = ''found it'', ar_success = False, ar_error = Some ''boom'',
      ar_error_class = None, ar_job_id = ''j'',
      ar_metadata = [(''stopped_by'', PyStr ''exception''), (''evidence_cards'', PyList [PyInt 1, PyInt 2])]\<rparr>"

theorem complete_only_when_finished_witness:
  "\<exists>info. classify_completion DEFAULT_COMPLETION_POLICY demo_report = Some info \<and> ci_status info \<noteq> Complete \<and> ci_reason info \<noteq> []"
proof -
  have "classify_completion DEFAULT_COMPLETION_POLICY demo_report \<noteq> None" by code_simp
  then obtain info where i: "classify_completion DEFAULT_COMPLETION_POLICY demo_report = Some info" by blast
  moreover have "\<not> ar_success demo_report" by (simp add: demo_report_def)
  ultimately show ?thesis using complete_only_when_finished [OF i] by blast
qed

text \<open>
  C31: fan-in loses and invents nothing: when a batch is processed, every result gets one block, in order,
  the partial ones are counted, and the task's pool on the bus grows by exactly the evidence and the
  assertions of the results, of the failed ones too, which the counts report; nothing else on the bus changes.
\<close>

theorem harvest_exact:
  assumes "process_collected policy t items b = (b', Some batch)"
  shows "fb_blocks batch = map (block_of policy) items
    \<and> fb_incomplete_count batch = length (filter (partial_report policy) items)
    \<and> pool b' t ''evidence_cards'' = pool b t ''evidence_cards'' @ concat (map (harvest ''evidence_cards'') items)
    \<and> pool b' t ''assertions'' = pool b t ''assertions'' @ concat (map (harvest ''assertions'') items)
    \<and> fb_evidence_count batch = length (pool b' t ''evidence_cards'') - length (pool b t ''evidence_cards'')
    \<and> fb_assertion_count batch = length (pool b' t ''assertions'') - length (pool b t ''assertions'')
    \<and> (\<exists>agg. b' = b\<lparr>ab_task_aggregates := agg\<rparr>)"
  using process_from_effect [OF assms [unfolded process_collected_def]] by (simp add: empty_batch_def)

theorem harvest_exact_witness:
  "\<exists>b' batch. process_collected DEFAULT_COMPLETION_POLICY ''t'' [(''t::a'', demo_report)] (empty_bus None) = (b', Some batch)
     \<and> pool b' ''t'' ''evidence_cards'' = [PyInt 1, PyInt 2] \<and> length (fb_blocks batch) = 1"
proof -
  let ?p = "process_collected DEFAULT_COMPLETION_POLICY ''t'' [(''t::a'', demo_report)] (empty_bus None)"
  have "snd ?p \<noteq> None" by code_simp
  then obtain b' batch where p: "?p = (b', Some batch)" by (cases ?p) auto
  have "pool (empty_bus None) ''t'' ''evidence_cards'' = []" "harvest ''evidence_cards'' (''t::a'', demo_report) = [PyInt 1, PyInt 2]"
    by code_simp+
  with p harvest_exact [OF p] show ?thesis by simp
qed

text \<open>
  The status line and \<open>session_state\<close> agree: without paused sessions the line names neither a
  running nor a ready session exactly when the state is one of the two idle ones, and then names it.
\<close>

theorem status_line_agrees:
  assumes "sessions \<noteq> []"
  shows "(status_bits repr_of {} sessions = [] \<longleftrightarrow> session_state sessions \<in> {NoWorkQueued, AllCollected})
    \<and> (session_state sessions = NoWorkQueued \<longrightarrow> idle_bit sessions = ''no_work_queued'')
    \<and> (session_state sessions = AllCollected \<longrightarrow> idle_bit sessions = ''all_collected'')"
  using assms
  by (auto simp: status_bits_def Let_def running_sessions_def ready_sessions_def paused_sessions_def filter_empty_conv
      session_state_def idle_bit_def has_work_def split: if_splits)

theorem status_line_agrees_witness:
  "session_state (list_sessions_for_task ''t'' ex_session) = NoWorkQueued
   \<and> idle_bit (list_sessions_for_task ''t'' ex_session) = ''no_work_queued''"
proof -
  have "list_sessions_for_task ''t'' ex_session \<noteq> []" "session_state (list_sessions_for_task ''t'' ex_session) = NoWorkQueued"
    by code_simp+
  with status_line_agrees show ?thesis by blast
qed

text \<open>
  Waiting is never in vain: whenever, in a reachable state of the bus, \<open>session_state\<close> tells the main
  agent that sub-agents are running, some session of the task has a current job with a live task.
\<close>

theorem running_state_has_live_job:
  assumes "fresh_bus b0" and "rtranclp bus_step b0 b"
    and "session_state (list_sessions_for_task task_id b) = RunningSessions"
  shows "\<exists>sid s j e. map_of (ab_sessions b) sid = Some s \<and> ss_task_id s = task_id \<and> ss_current_job_id s = Some j
    \<and> map_of (ab_jobs b) j = Some e \<and> serves e sid"
proof -
  have inv: "bus_ok None b" and d: "distinct (map fst (ab_sessions b))"
    using bussys.reachable_inv [OF assms(1,2)] by auto
  note D = net_okD [OF inv [unfolded bus_ok_def]]
  obtain sid s where s: "(sid, s) \<in> set (ab_sessions b)" "ss_task_id s = task_id" "has_work s"
    using assms(3) by (auto simp: session_state_def list_sessions_for_task_def split: if_splits)
  then have m: "map_of (ab_sessions b) sid = Some s" using d by simp
  then show ?thesis using D(5) [OF m] s(2,3) by (auto simp: session_ok_def has_work_def queued_ids_def split: option.splits)
qed

theorem running_state_has_live_job_witness:
  "\<exists>sid s j e. map_of (ab_sessions ex_queued) sid = Some s \<and> ss_task_id s = ''t'' \<and> ss_current_job_id s = Some j
    \<and> map_of (ab_jobs ex_queued) j = Some e \<and> serves e sid"
proof -
  have "session_state (list_sessions_for_task ''t'' ex_queued) = RunningSessions" by code_simp
  then show ?thesis by (rule running_state_has_live_job [OF ex_states(1,5)])
qed

end
