(* ===== verification/Cycle_Types.thy ===== *)
theory Cycle_Types
  imports Bus_Models Response
begin

text \<open>
  Data of the write/audit cycle (\<open>components/cycle/types.py\<close>) and the feedback renderer
  (\<open>components/cycle/default_renderer.py\<close>).

  The data classes check nothing: \<open>from_dict\<close> stores whatever value the parsed JSON holds under a
  key, so the fields that it does not convert are \<open>json\<close> values here, and an operation that needs
  a string (\<open>summary.strip()\<close>) can raise.  \<open>to_dict\<close> and \<open>from_dict\<close> are modelled on values; the JSON
  text of \<open>to_json\<close> and \<open>from_json\<close> is the standard library's.  Floats are reals (no infinities or
  NaN), \<open>float_of\<close> reads a float literal, \<open>fmt\<close> is \<open>str(v)\<close>, \<open>fmt2\<close> the format \<open>:.2f\<close>, \<open>dumps\<close> is
  \<open>json.dumps\<close> with indent 2.  A pair list given to \<open>dict()\<close> is accepted when its keys are strings.
\<close>

section \<open>JSON values\<close>

datatype json =
    JNull
  | JBool bool
  | JInt int
  | JFloat real
  | JStr string
  | JList "json list"
  | JDict "(string \<times> json) list"

type_synonym jdict = "(string \<times> json) list"

datatype py_error = KeyError string | TypeError | ValueError | AttributeError

fun j_truthy :: "json \<Rightarrow> bool" where
  "j_truthy JNull = False"
| "j_truthy (JBool b) = b"
| "j_truthy (JInt i) = (i \<noteq> 0)"
| "j_truthy (JFloat r) = (r \<noteq> 0)"
| "j_truthy (JStr s) = (s \<noteq> [])"
| "j_truthy (JList vs) = (vs \<noteq> [])"
| "j_truthy (JDict d) = (d \<noteq> [])"

text \<open>\<open>d[k]\<close>, \<open>d.get(k)\<close>, \<open>d.get(k, v)\<close>; indexing something that is no dictionary with a string is a \<open>TypeError\<close>.\<close>

definition j_index :: "jdict \<Rightarrow> string \<Rightarrow> py_error + json" where
  "j_index d k = (case map_of d k of None \<Rightarrow> Inl (KeyError k) | Some v \<Rightarrow> Inr v)"

definition j_get :: "jdict \<Rightarrow> string \<Rightarrow> json \<Rightarrow> json" where
  "j_get d k v = dict_get_default d k v"

fun as_dict :: "json \<Rightarrow> py_error + jdict" where
  "as_dict (JDict d) = Inr d"
| "as_dict _ = Inl TypeError"

text \<open>The elements an iteration over a value yields.\<close>

fun j_iter :: "json \<Rightarrow> py_error + json list" where
  "j_iter (JList vs) = Inr vs"
| "j_iter (JStr s) = Inr (map (\<lambda>c. JStr [c]) s)"
| "j_iter (JDict d) = Inr (map (\<lambda>p. JStr (fst p)) d)"
| "j_iter _ = Inl TypeError"

text \<open>\<open>dict(v or {})\<close>, \<open>list(v or [])\<close>, \<open>float(v)\<close>, \<open>int(v)\<close>.\<close>

fun add_pair :: "json \<Rightarrow> jdict \<Rightarrow> py_error + jdict" where
  "add_pair item d =
     bind_result (j_iter item) (\<lambda>vs. case vs of [JStr k, v] \<Rightarrow> Inr (AList.update k v d) | [_, _] \<Rightarrow> Inl TypeError | _ \<Rightarrow> Inl ValueError)"

fun add_pairs :: "json list \<Rightarrow> jdict \<Rightarrow> py_error + jdict" where
  "add_pairs [] d = Inr d"
| "add_pairs (v # vs) d = bind_result (add_pair v d) (add_pairs vs)"

definition dict_or_empty :: "json \<Rightarrow> py_error + jdict" where
  "dict_or_empty v =
     (if \<not> j_truthy v then Inr []
      else case v of JDict d \<Rightarrow> Inr d | _ \<Rightarrow> bind_result (j_iter v) (\<lambda>vs. add_pairs vs []))"

definition list_or_empty :: "json \<Rightarrow> py_error + json list" where
  "list_or_empty v = (if j_truthy v then j_iter v else Inr [])"

fun float_value :: "(string \<Rightarrow> real option) \<Rightarrow> json \<Rightarrow> py_error + real" where
  "float_value float_of (JFloat r) = Inr r"
| "float_value float_of (JInt i) = Inr (of_int i)"
| "float_value float_of (JBool b) = Inr (if b then 1 else 0)"
| "float_value float_of (JStr s) = (case float_of s of None \<Rightarrow> Inl ValueError | Some r \<Rightarrow> Inr r)"
| "float_value float_of _ = Inl TypeError"

definition truncate_real :: "real \<Rightarrow> int" where
  "truncate_real r = (if r < 0 then - \<lfloor>- r\<rfloor> else \<lfloor>r\<rfloor>)"

fun j_int :: "json \<Rightarrow> py_error + int" where
  "j_int (JInt i) = Inr i"
| "j_int (JBool b) = Inr (if b then 1 else 0)"
| "j_int (JFloat r) = Inr (truncate_real r)"
| "j_int (JStr s) = (case int_of_str s of None \<Rightarrow> Inl ValueError | Some i \<Rightarrow> Inr i)"
| "j_int _ = Inl TypeError"

text \<open>\<open>v in frozenset_of_strings\<close>: an unhashable value raises.\<close>

fun in_strings :: "json \<Rightarrow> string set \<Rightarrow> py_error + bool" where
  "in_strings (JStr s) S = Inr (s \<in> S)"
| "in_strings (JList vs) S = Inl TypeError"
| "in_strings (JDict d) S = Inl TypeError"
| "in_strings _ S = Inr False"

text \<open>A value of a sub-agent's metadata as a JSON value.\<close>

fun json_of :: "pyval \<Rightarrow> json" where
  "json_of PyNone = JNull"
| "json_of (PyBool b) = JBool b"
| "json_of (PyInt i) = JInt i"
| "json_of (PyStr s) = JStr s"
| "json_of (PyList vs) = JList (map json_of vs)"
| "json_of (PyDict d) = JDict (map (\<lambda>(k, v). (k, json_of v)) d)"

fun map_results :: "('a \<Rightarrow> 'e + 'b) \<Rightarrow> 'a list \<Rightarrow> 'e + 'b list" where
  "map_results f [] = Inr []"
| "map_results f (x # xs) = bind_result (f x) (\<lambda>y. bind_result (map_results f xs) (\<lambda>ys. Inr (y # ys)))"

section \<open>AuditFinding\<close>

record AuditFinding =
  af_category :: json
  af_severity :: json
  af_short_message :: json
  af_detailed_message :: json
  af_file :: json
  af_line :: json
  af_snippet :: json
  af_suggested_action :: json
  af_target_role :: json
  af_metadata :: jdict

definition new_finding :: "string \<Rightarrow> string \<Rightarrow> string \<Rightarrow> AuditFinding" where
  "new_finding category severity short_message =
     \<lparr>af_category = JStr category, af_severity = JStr severity, af_short_message = JStr short_message,
      af_detailed_message = JStr [], af_file = JNull, af_line = JNull, af_snippet = JStr [],
      af_suggested_action = JStr [], af_target_role = JNull, af_metadata = []\<rparr>"

definition finding_to_dict :: "AuditFinding \<Rightarrow> jdict" where
  "finding_to_dict f =
     [(''category'', af_category f), (''severity'', af_severity f), (''short_message'', af_short_message f),
      (''detailed_message'', af_detailed_message f), (''file'', af_file f), (''line'', af_line f),
      (''snippet'', af_snippet f), (''suggested_action'', af_suggested_action f),
      (''target_role'', af_target_role f), (''metadata'', JDict (af_metadata f))]"

definition finding_from_dict :: "jdict \<Rightarrow> py_error + AuditFinding" where
  "finding_from_dict data =
     bind_result (j_index data ''category'') (\<lambda>category.
     bind_result (j_index data ''severity'') (\<lambda>severity.
     bind_result (j_index data ''short_message'') (\<lambda>short_message.
     bind_result (dict_or_empty (j_get data ''metadata'' JNull)) (\<lambda>metadata.
     Inr \<lparr>af_category = category, af_severity = severity, af_short_message = short_message,
          af_detailed_message = j_get data ''detailed_message'' (JStr []),
          af_file = j_get data ''file'' JNull, af_line = j_get data ''line'' JNull,
          af_snippet = j_get data ''snippet'' (JStr []),
          af_suggested_action = j_get data ''suggested_action'' (JStr []),
          af_target_role = j_get data ''target_role'' JNull, af_metadata = metadata\<rparr>))))"

section \<open>AuditReport\<close>

record AuditReport =
  ad_verdict :: json
  ad_findings :: "AuditFinding list"
  ad_summary :: json
  ad_confidence :: real
  ad_raw_text :: json
  ad_metadata :: jdict

definition report_to_dict :: "AuditReport \<Rightarrow> jdict" where
  "report_to_dict r =
     [(''verdict'', ad_verdict r), (''findings'', JList (map (\<lambda>f. JDict (finding_to_dict f)) (ad_findings r))),
      (''summary'', ad_summary r), (''confidence'', JFloat (ad_confidence r)), (''raw_text'', ad_raw_text r),
      (''metadata'', JDict (ad_metadata r))]"

definition report_from_dict :: "(string \<Rightarrow> real option) \<Rightarrow> jdict \<Rightarrow> py_error + AuditReport" where
  "report_from_dict float_of data =
     bind_result (j_index data ''verdict'') (\<lambda>verdict.
     bind_result (list_or_empty (j_get data ''findings'' JNull)) (\<lambda>raw_findings.
     bind_result (map_results (\<lambda>f. bind_result (as_dict f) finding_from_dict) raw_findings) (\<lambda>findings.
     bind_result (float_value float_of (j_get data ''confidence'' (JFloat 0))) (\<lambda>confidence.
     bind_result (dict_or_empty (j_get data ''metadata'' JNull)) (\<lambda>metadata.
     Inr \<lparr>ad_verdict = verdict, ad_findings = findings, ad_summary = j_get data ''summary'' (JStr []),
          ad_confidence = confidence, ad_raw_text = j_get data ''raw_text'' (JStr []), ad_metadata = metadata\<rparr>)))))"

section \<open>WriterOutput\<close>

record WriterOutput =
  wo_content :: json
  wo_files :: "json list"
  wo_message_count :: int
  wo_metadata :: jdict
  wo_loop_result :: "SubAgentResult option"

definition new_writer_output :: "string \<Rightarrow> WriterOutput" where
  "new_writer_output content =
     \<lparr>wo_content = JStr content, wo_files = [], wo_message_count = 0, wo_metadata = [], wo_loop_result = None\<rparr>"

definition writer_to_dict :: "WriterOutput \<Rightarrow> jdict" where
  "writer_to_dict w =
     [(''content'', wo_content w), (''files'', JList (wo_files w)), (''message_count'', JInt (wo_message_count w)),
      (''metadata'', JDict (wo_metadata w))]"

definition writer_from_dict :: "jdict \<Rightarrow> py_error + WriterOutput" where
  "writer_from_dict data =
     bind_result (j_index data ''content'') (\<lambda>content.
     bind_result (list_or_empty (j_get data ''files'' JNull)) (\<lambda>files.
     bind_result (j_int (j_get data ''message_count'' (JInt 0))) (\<lambda>message_count.
     bind_result (dict_or_empty (j_get data ''metadata'' JNull)) (\<lambda>metadata.
     Inr \<lparr>wo_content = content, wo_files = files, wo_message_count = message_count, wo_metadata = metadata,
          wo_loop_result = None\<rparr>))))"

section \<open>CycleOutput\<close>

record CycleOutput =
  co_success :: bool
  co_rounds_used :: int
  co_final_writer_output :: "WriterOutput option"
  co_final_audit :: "AuditReport option"
  co_history :: "(WriterOutput \<times> AuditReport) list"
  co_reason :: json

definition dict_or_null :: "('a \<Rightarrow> jdict) \<Rightarrow> 'a option \<Rightarrow> json" where
  "dict_or_null f v = (case v of None \<Rightarrow> JNull | Some x \<Rightarrow> JDict (f x))"

definition cycle_to_dict :: "CycleOutput \<Rightarrow> jdict" where
  "cycle_to_dict c =
     [(''success'', JBool (co_success c)), (''rounds_used'', JInt (co_rounds_used c)),
      (''final_writer_output'', dict_or_null writer_to_dict (co_final_writer_output c)),
      (''final_audit'', dict_or_null report_to_dict (co_final_audit c)),
      (''history'', JList (map (\<lambda>(w, a). JDict [(''writer'', JDict (writer_to_dict w)), (''audit'', JDict (report_to_dict a))]) (co_history c))),
      (''reason'', co_reason c)]"

definition when_truthy :: "(jdict \<Rightarrow> py_error + 'a) \<Rightarrow> json \<Rightarrow> py_error + 'a option" where
  "when_truthy f v = (if j_truthy v then bind_result (bind_result (as_dict v) f) (\<lambda>x. Inr (Some x)) else Inr None)"

definition history_item :: "(string \<Rightarrow> real option) \<Rightarrow> json \<Rightarrow> py_error + (WriterOutput \<times> AuditReport)" where
  "history_item float_of v =
     bind_result (as_dict v) (\<lambda>item.
     bind_result (bind_result (bind_result (j_index item ''writer'') as_dict) writer_from_dict) (\<lambda>w.
     bind_result (bind_result (bind_result (j_index item ''audit'') as_dict) (report_from_dict float_of)) (\<lambda>a.
     Inr (w, a))))"

definition cycle_from_dict :: "(string \<Rightarrow> real option) \<Rightarrow> jdict \<Rightarrow> py_error + CycleOutput" where
  "cycle_from_dict float_of data =
     bind_result (j_index data ''success'') (\<lambda>success.
     bind_result (bind_result (j_index data ''rounds_used'') j_int) (\<lambda>rounds_used.
     bind_result (when_truthy writer_from_dict (j_get data ''final_writer_output'' JNull)) (\<lambda>fwo.
     bind_result (when_truthy (report_from_dict float_of) (j_get data ''final_audit'' JNull)) (\<lambda>fa.
     bind_result (bind_result (list_or_empty (j_get data ''history'' JNull)) (map_results (history_item float_of))) (\<lambda>history.
     Inr \<lparr>co_success = j_truthy success, co_rounds_used = rounds_used, co_final_writer_output = fwo,
          co_final_audit = fa, co_history = history, co_reason = j_get data ''reason'' (JStr [])\<rparr>)))))"

section \<open>The feedback renderer\<close>

definition HEADER :: string where
  "HEADER = ''## Audit feedback for the previous round'' @ [CHR 0x0A]"

definition REATTEMPT_MESSAGE :: "string \<Rightarrow> string" where
  "REATTEMPT_MESSAGE verdict =
     ''**Audit verdict**: `'' @ verdict @ ''`. The auditor did not list specific findings, which means the artifact is not yet acceptable but the auditor could not pinpoint a single issue. Re-attempt the task in full - review the requirements, do not assume the prior draft is salvageable.''"

definition TABLE_HEADER :: string where
  "TABLE_HEADER =
     ''| # | Severity | Category | Where | Short message | Suggested action |'' @ [CHR 0x0A] @ ''|---|---|---|---|---|---|'' @ [CHR 0x0A]"

text \<open>\<open>_md_cell\<close>: a falsy value is an empty cell; a truthy one that is no string has no \<open>replace\<close>.\<close>

definition escape_cell :: "string \<Rightarrow> string" where
  "escape_cell s = str_replace [CHR 0x0A] '' '' (str_replace ''|'' [CHR 0x5C, CHR ''|''] s)"

fun md_cell :: "json \<Rightarrow> py_error + string" where
  "md_cell (JStr s) = Inr (escape_cell s)"
| "md_cell v = (if j_truthy v then Inl AttributeError else Inr [])"

definition where_cell :: "(json \<Rightarrow> string) \<Rightarrow> AuditFinding \<Rightarrow> json" where
  "where_cell fmt f =
     (if \<not> j_truthy (af_file f) then JStr []
      else if af_line f \<noteq> JNull then JStr (fmt (af_file f) @ '':'' @ fmt (af_line f))
      else af_file f)"

definition render_table_row :: "(json \<Rightarrow> string) \<Rightarrow> nat \<Rightarrow> AuditFinding \<Rightarrow> py_error + string" where
  "render_table_row fmt idx f =
     bind_result (map_results md_cell [af_severity f, af_category f, where_cell fmt f, af_short_message f, af_suggested_action f])
       (\<lambda>cells. Inr (''| '' @ str_join '' | '' (str_of_nat idx # cells) @ '' |'' @ [CHR 0x0A]))"

fun j_strip :: "json \<Rightarrow> py_error + string" where
  "j_strip (JStr s) = Inr (str_strip s)"
| "j_strip _ = Inl AttributeError"

definition render_head :: "(json \<Rightarrow> string) \<Rightarrow> (real \<Rightarrow> string) \<Rightarrow> AuditReport \<Rightarrow> string \<Rightarrow> string" where
  "render_head fmt fmt2 audit summary =
     HEADER @ ''**Verdict**: `'' @ fmt (ad_verdict audit) @ ''`''
     @ (if ad_confidence audit \<noteq> 0 then '' (auditor confidence: '' @ fmt2 (ad_confidence audit) @ '')'' else [])
     @ [CHR 0x0A, CHR 0x0A]
     @ (if summary \<noteq> [] then ''**Auditor summary**:'' @ [CHR 0x0A, CHR 0x0A] @ summary @ [CHR 0x0A, CHR 0x0A] else [])"

definition render_findings :: "(json \<Rightarrow> string) \<Rightarrow> (json \<Rightarrow> string) \<Rightarrow> AuditFinding list \<Rightarrow> py_error + string" where
  "render_findings fmt dumps fs =
     bind_result (map_results (\<lambda>(i, f). render_table_row fmt i f) (enumerate 1 fs)) (\<lambda>rows.
       Inr (''**Findings**:'' @ [CHR 0x0A, CHR 0x0A] @ TABLE_HEADER @ concat rows @ [CHR 0x0A]
            @ ''**Findings (structured)**:'' @ [CHR 0x0A, CHR 0x0A] @ ''```json'' @ [CHR 0x0A]
            @ dumps (JList (map (\<lambda>f. JDict (finding_to_dict f)) fs)) @ [CHR 0x0A] @ ''```'' @ [CHR 0x0A]))"

definition render ::
  "(json \<Rightarrow> string) \<Rightarrow> (real \<Rightarrow> string) \<Rightarrow> (json \<Rightarrow> string) \<Rightarrow> string set \<Rightarrow> AuditReport \<Rightarrow> py_error + string" where
  "render fmt fmt2 dumps success_verdicts audit =
     bind_result (j_strip (ad_summary audit)) (\<lambda>summary.
     bind_result (in_strings (ad_verdict audit) success_verdicts) (\<lambda>is_terminal_success.
       let head = render_head fmt fmt2 audit summary in
       if ad_findings audit = [] then
         Inr (if is_terminal_success then head else head @ REATTEMPT_MESSAGE (fmt (ad_verdict audit)) @ [CHR 0x0A])
       else bind_result (render_findings fmt dumps (ad_findings audit)) (\<lambda>body. Inr (head @ body))))"

section \<open>Lemmas\<close>

lemma bind_Inr [simp]: "bind_result r Inr = r"
  by (cases r) simp_all

lemma map_results_Inr: "(\<And>x. x \<in> set xs \<Longrightarrow> f x = Inr (g x)) \<Longrightarrow> map_results f xs = Inr (map g xs)"
  by (induction xs) simp_all

lemma map_results_inverse: "(\<And>x. x \<in> set xs \<Longrightarrow> f (g x) = Inr (h x)) \<Longrightarrow> map_results f (map g xs) = Inr (map h xs)"
  by (induction xs) simp_all

lemma dict_or_empty_dict [simp]: "dict_or_empty (JDict d) = Inr d"
  by (simp add: dict_or_empty_def)

lemma list_or_empty_list [simp]: "list_or_empty (JList vs) = Inr vs"
  by (simp add: list_or_empty_def)

lemma finding_dict_inverse: "finding_from_dict (finding_to_dict f) = Inr f"
  by (simp add: finding_from_dict_def finding_to_dict_def j_index_def j_get_def dict_get_default_def)

lemma report_dict_inverse: "report_from_dict float_of (report_to_dict r) = Inr r"
proof -
  have "map_results (\<lambda>f. bind_result (as_dict f) finding_from_dict) (map (\<lambda>f. JDict (finding_to_dict f)) fs) = Inr fs" for fs
    by (induction fs) (simp_all add: finding_dict_inverse)
  then show ?thesis
    by (simp add: report_from_dict_def report_to_dict_def j_index_def j_get_def dict_get_default_def)
qed

lemma writer_dict_inverse: "writer_from_dict (writer_to_dict w) = Inr (w\<lparr>wo_loop_result := None\<rparr>)"
  by (simp add: writer_from_dict_def writer_to_dict_def j_index_def j_get_def dict_get_default_def)

definition forget_loop_results :: "CycleOutput \<Rightarrow> CycleOutput" where
  "forget_loop_results c = c
     \<lparr>co_final_writer_output := map_option (\<lambda>w. w\<lparr>wo_loop_result := None\<rparr>) (co_final_writer_output c),
      co_history := map (\<lambda>(w, a). (w\<lparr>wo_loop_result := None\<rparr>, a)) (co_history c)\<rparr>"

text \<open>One pass over the characters does both replacements.\<close>

definition escaped :: "char \<Rightarrow> string" where
  "escaped c = (if c = CHR ''|'' then [CHR 0x5C, CHR ''|''] else if c = CHR 0x0A then '' '' else [c])"

lemma str_replace_char: "str_replace [a] new s = concat (map (\<lambda>c. if c = a then new else [c]) s)"
  by (induction s) auto

lemma escape_cell_concat: "escape_cell s = concat (map escaped s)"
  unfolding escape_cell_def str_replace_char by (induction s) (auto simp: escaped_def)

lemma escape_cell_one_line: "CHR 0x0A \<notin> set (escape_cell s)"
  by (auto simp: escape_cell_concat escaped_def split: if_splits)

text \<open>Every pipe of a rendered cell follows a backslash.\<close>

lemma escape_cell_pipes: "escape_cell s = xs @ CHR ''|'' # ys \<Longrightarrow> xs \<noteq> [] \<and> last xs = CHR 0x5C"
  unfolding escape_cell_concat
proof (induction s arbitrary: xs)
  case (Cons c s)
  have "(\<exists>zs. xs = escaped c @ zs \<and> concat (map escaped s) = zs @ CHR ''|'' # ys)
      \<or> (\<exists>us. escaped c = xs @ us \<and> us \<noteq> [] \<and> us @ concat (map escaped s) = CHR ''|'' # ys)"
    using Cons.prems by (auto simp: append_eq_append_conv2)
  then show ?case
  proof
    assume "\<exists>zs. xs = escaped c @ zs \<and> concat (map escaped s) = zs @ CHR ''|'' # ys"
    then show ?thesis using Cons.IH by fastforce
  next
    assume "\<exists>us. escaped c = xs @ us \<and> us \<noteq> [] \<and> us @ concat (map escaped s) = CHR ''|'' # ys"
    then show ?thesis by (cases xs) (auto simp: escaped_def Cons_eq_append_conv split: if_splits)
  qed
qed simp

section \<open>Properties\<close>

text \<open>
  The audit trail can be read back: every audit report survives \<open>to_dict\<close> and \<open>from_dict\<close> unchanged,
  and so does the whole result of a cycle, its history and final audit included, but for the
  \<open>loop_result\<close> of the writer outputs, which is dropped.
\<close>

theorem trail_roundtrip:
  "report_from_dict float_of (report_to_dict r) = Inr r
   \<and> cycle_from_dict float_of (cycle_to_dict c) = Inr (forget_loop_results c)"
proof
  show "report_from_dict float_of (report_to_dict r) = Inr r" by (rule report_dict_inverse)
  have "map_results (history_item float_of)
      (map (\<lambda>(w, a). JDict [(''writer'', JDict (writer_to_dict w)), (''audit'', JDict (report_to_dict a))]) hs)
      = Inr (map (\<lambda>(w, a). (w\<lparr>wo_loop_result := None\<rparr>, a)) hs)" for hs
    by (rule map_results_inverse) (auto simp: history_item_def j_index_def writer_dict_inverse report_dict_inverse)
  moreover have "when_truthy writer_from_dict (dict_or_null writer_to_dict v) = Inr (map_option (\<lambda>w. w\<lparr>wo_loop_result := None\<rparr>) v)" for v
    by (cases v) (simp_all add: when_truthy_def dict_or_null_def writer_dict_inverse, simp add: writer_to_dict_def)
  moreover have "when_truthy (report_from_dict float_of) (dict_or_null report_to_dict v) = Inr v" for v
    by (cases v) (simp_all add: when_truthy_def dict_or_null_def report_dict_inverse, simp add: report_to_dict_def)
  ultimately show "cycle_from_dict float_of (cycle_to_dict c) = Inr (forget_loop_results c)"
    by (simp add: cycle_from_dict_def cycle_to_dict_def j_index_def j_get_def dict_get_default_def forget_loop_results_def)
qed

end
