(* ===== verification/Write_Audit.thy ===== *)
theory Write_Audit
  imports Cycle_Types
begin

text \<open>
  The iterate-until-pass loop over a writer and an auditor
  (\<open>components/cycle/write_audit_cycle.py\<close>) and its observers (\<open>components/cycle/observers.py\<close>).

  Writer, auditor, output check, clock, file writes and observer hooks are supplied by the caller:
  they are functions on a world \<open>'w\<close>, of any type, which each of them may change.  A raise is \<open>Inl\<close>;
  the \<open>except Exception\<close> clauses let \<open>CancelledError\<close> through.  An observer keeps the context it got
  at the start, whose \<open>history_so_far\<close> is the cycle's own list: every hook gets the history as its
  first argument.  \<open>cy_trail\<close> records the calls of \<open>_persist\<close>, whose failures are swallowed.
  \<open>repr_of\<close> is Python's \<open>repr\<close> of a string, \<open>format_exc\<close> the traceback text of an exception.
\<close>

section \<open>Observers\<close>

datatype RoundIntervention = CONTINUE | ABORT

type_synonym cycle_history = "(WriterOutput \<times> AuditReport) list"

record CycleContext =
  cx_max_rounds :: nat
  cx_max_wall_seconds :: "real option"

record 'w RoundObserver =
  on_cycle_start :: "CycleContext \<Rightarrow> 'w \<Rightarrow> (py_exception + unit) \<times> 'w"
  on_round_start :: "cycle_history \<Rightarrow> nat \<Rightarrow> AuditReport option \<Rightarrow> 'w \<Rightarrow> (py_exception + unit) \<times> 'w"
  on_writer_done :: "cycle_history \<Rightarrow> nat \<Rightarrow> WriterOutput \<Rightarrow> 'w \<Rightarrow> (py_exception + RoundIntervention option) \<times> 'w"
  on_audit_done :: "cycle_history \<Rightarrow> nat \<Rightarrow> WriterOutput \<Rightarrow> AuditReport \<Rightarrow> 'w \<Rightarrow> (py_exception + RoundIntervention option) \<times> 'w"
  on_cycle_end :: "CycleOutput \<Rightarrow> 'w \<Rightarrow> (py_exception + unit) \<times> 'w"

definition BaseRoundObserver :: "'w RoundObserver" where
  "BaseRoundObserver =
     \<lparr>on_cycle_start = \<lambda>_ w. (Inr (), w), on_round_start = \<lambda>_ _ _ w. (Inr (), w),
      on_writer_done = \<lambda>_ _ _ w. (Inr None, w), on_audit_done = \<lambda>_ _ _ _ w. (Inr None, w),
      on_cycle_end = \<lambda>_ w. (Inr (), w)\<rparr>"

fun fire_hooks :: "('w RoundObserver \<Rightarrow> 'w \<Rightarrow> (py_exception + unit) \<times> 'w) \<Rightarrow> 'w RoundObserver list \<Rightarrow> 'w \<Rightarrow> (py_exception + unit) \<times> 'w" where
  "fire_hooks hook [] w = (Inr (), w)"
| "fire_hooks hook (obs # os) w =
     (case hook obs w of
        (Inl CancelledError, w') \<Rightarrow> (Inl CancelledError, w')
      | (_, w') \<Rightarrow> fire_hooks hook os w')"

fun fire_intervention ::
  "('w RoundObserver \<Rightarrow> 'w \<Rightarrow> (py_exception + RoundIntervention option) \<times> 'w) \<Rightarrow> 'w RoundObserver list \<Rightarrow>
   RoundIntervention \<Rightarrow> 'w \<Rightarrow> (py_exception + RoundIntervention) \<times> 'w" where
  "fire_intervention hook [] result w = (Inr result, w)"
| "fire_intervention hook (obs # os) result w =
     (case hook obs w of
        (Inl CancelledError, w') \<Rightarrow> (Inl CancelledError, w')
      | (Inl _, w') \<Rightarrow> fire_intervention hook os result w'
      | (Inr ret, w') \<Rightarrow> fire_intervention hook os (if ret = Some ABORT then ABORT else result) w')"

section \<open>The cycle and what it is given\<close>

record WriteAuditCycle =
  wc_max_rounds :: nat
  wc_terminal_verdicts :: "string set"
  wc_success_verdicts :: "string set"
  wc_audit_path :: "nat \<Rightarrow> string"
  wc_max_wall_seconds :: "real option"
  wc_wall_clock_safety_ratio :: real

record 'w cycle_env =
  ce_generate :: "AuditReport option \<Rightarrow> nat \<Rightarrow> string \<Rightarrow> 'w \<Rightarrow> (py_exception + WriterOutput) \<times> 'w"
  ce_output_check :: "'w \<Rightarrow> (py_exception + string list) \<times> 'w"
  ce_verify :: "WriterOutput \<Rightarrow> nat \<Rightarrow> 'w \<Rightarrow> (py_exception + AuditReport) \<times> 'w"
  ce_render :: "AuditReport \<Rightarrow> py_exception + string"
  ce_write_text :: "string \<Rightarrow> AuditReport \<Rightarrow> 'w \<Rightarrow> 'w"
  ce_monotonic :: "'w \<Rightarrow> real \<times> 'w"
  ce_observers :: "'w RoundObserver list"

definition DEFAULT_TERMINAL :: "string set" where
  "DEFAULT_TERMINAL = {''success'', ''abandon''}"

definition DEFAULT_SUCCESS :: "string set" where
  "DEFAULT_SUCCESS = {''success''}"

definition default_audit_path :: "nat \<Rightarrow> string" where
  "default_audit_path n = ''audit_round_'' @ str_of_nat n @ ''.json''"

definition init_cycle ::
  "int \<Rightarrow> string set \<Rightarrow> string set \<Rightarrow> (nat \<Rightarrow> string) \<Rightarrow> real option \<Rightarrow> real \<Rightarrow> py_error + WriteAuditCycle" where
  "init_cycle max_rounds terminal_verdicts success_verdicts audit_path max_wall_seconds ratio =
     (if max_rounds < 1 then Inl ValueError
      else if (case max_wall_seconds of None \<Rightarrow> False | Some t \<Rightarrow> t \<le> 0) then Inl ValueError
      else if ratio < 1 then Inl ValueError
      else if \<not> success_verdicts \<subseteq> terminal_verdicts then Inl ValueError
      else Inr \<lparr>wc_max_rounds = nat max_rounds, wc_terminal_verdicts = terminal_verdicts,
                wc_success_verdicts = success_verdicts, wc_audit_path = audit_path,
                wc_max_wall_seconds = max_wall_seconds, wc_wall_clock_safety_ratio = ratio\<rparr>)"

text \<open>The exception a Python error value stands for.\<close>

fun raised :: "py_error \<Rightarrow> py_exception" where
  "raised (KeyError k) = OtherException k ''KeyError''"
| "raised TypeError = OtherException [] ''TypeError''"
| "raised ValueError = OtherException [] ''ValueError''"
| "raised AttributeError = OtherException [] ''AttributeError''"

section \<open>Synthetic audits\<close>

definition synth_output_missing_audit :: "(string \<Rightarrow> string) \<Rightarrow> string list \<Rightarrow> AuditReport" where
  "synth_output_missing_audit repr_of missing =
     \<lparr>ad_verdict = JStr ''iterate'',
      ad_findings = map (\<lambda>path. (new_finding ''output_missing'' ''error'' (''Required artifact missing: '' @ path))
          \<lparr>af_detailed_message := JStr (''The cycle's output_check reported '' @ repr_of path @ '' as missing after the writer round. Auditor was not invoked. Re-attempt the round and ensure this artifact is produced.''),
           af_file := JStr path,
           af_suggested_action := JStr (''Produce the artifact at '' @ repr_of path @ ''.'')\<rparr>) missing,
      ad_summary = JStr (''Required output artifacts are missing ('' @ str_of_nat (length missing) @ ''). The auditor was not invoked because auditing missing artifacts produces unreliable verdicts.''),
      ad_confidence = 1, ad_raw_text = JStr [],
      ad_metadata = [(''synthetic'', JBool True), (''reason'', JStr ''output_missing'')]\<rparr>"

fun exception_class :: "py_exception \<Rightarrow> string" where
  "exception_class CancelledError = ''CancelledError''"
| "exception_class TimeoutError = ''TimeoutError''"
| "exception_class (OtherException txt cls) = cls"

fun exception_text :: "py_exception \<Rightarrow> string" where
  "exception_text (OtherException txt cls) = txt"
| "exception_text _ = []"

definition synth_writer_exception_audit :: "(py_exception \<Rightarrow> string) \<Rightarrow> py_exception \<Rightarrow> AuditReport" where
  "synth_writer_exception_audit format_exc exc =
     \<lparr>ad_verdict = JStr ''iterate'',
      ad_findings = [(new_finding ''writer_exception'' ''error'' (exception_class exc @ '': '' @ take 200 (exception_text exc)))
          \<lparr>af_detailed_message := JStr (format_exc exc),
           af_suggested_action := JStr ''Inspect the writer-side error and re-attempt the round. The cycle will continue regardless.''\<rparr>],
      ad_summary = JStr (''The writer raised '' @ exception_class exc @ '' on this round. The cycle continues to the next round.''),
      ad_confidence = 1, ad_raw_text = JStr [],
      ad_metadata = [(''synthetic'', JBool True), (''reason'', JStr ''writer_exception'')]\<rparr>"

section \<open>One round\<close>

record 'w cycle_state =
  cy_world :: 'w
  cy_prev_audit :: "AuditReport option"
  cy_history :: cycle_history
  cy_last_writer_output :: "WriterOutput option"
  cy_round_durations :: "real list"
  cy_trail :: "(nat \<times> AuditReport) list"

datatype 'w round_result =
    GoOn "'w cycle_state"
  | Finish bool nat "WriterOutput option" "AuditReport option" string "'w cycle_state"
  | Crash py_exception "'w cycle_state"

text \<open>A \<open>deque(maxlen=3)\<close>.\<close>

definition push_duration :: "real \<Rightarrow> real list \<Rightarrow> real list" where
  "push_duration d ds = (let ds' = ds @ [d] in drop (length ds' - 3) ds')"

definition cycle_clock :: "'w cycle_env \<Rightarrow> 'w cycle_state \<Rightarrow> real \<times> 'w cycle_state" where
  "cycle_clock env st = (case ce_monotonic env (cy_world st) of (t, w) \<Rightarrow> (t, st\<lparr>cy_world := w\<rparr>))"

definition wall_spent :: "WriteAuditCycle \<Rightarrow> real \<Rightarrow> real \<Rightarrow> real list \<Rightarrow> bool" where
  "wall_spent cyc cycle_start now durations =
     (case wc_max_wall_seconds cyc of
        None \<Rightarrow> False
      | Some budget \<Rightarrow> budget - (now - cycle_start) < Max (set durations) * wc_wall_clock_safety_ratio cyc)"

definition persist :: "'w cycle_env \<Rightarrow> WriteAuditCycle \<Rightarrow> AuditReport \<Rightarrow> nat \<Rightarrow> 'w cycle_state \<Rightarrow> 'w cycle_state" where
  "persist env cyc audit n st =
     st\<lparr>cy_world := ce_write_text env (wc_audit_path cyc n) audit (cy_world st), cy_trail := cy_trail st @ [(n, audit)]\<rparr>"

text \<open>What every audited round does: persist, append to the history, note the duration, fire \<open>on_audit_done\<close>.\<close>

definition record_audit ::
  "'w cycle_env \<Rightarrow> WriteAuditCycle \<Rightarrow> nat \<Rightarrow> real \<Rightarrow> WriterOutput \<Rightarrow> AuditReport \<Rightarrow> 'w cycle_state \<Rightarrow>
   (py_exception + RoundIntervention) \<times> 'w cycle_state" where
  "record_audit env cyc n t0 out audit st =
     (let st1 = persist env cyc audit n st;
          st2 = st1\<lparr>cy_history := cy_history st1 @ [(out, audit)]\<rparr>;
          (now, st3) = cycle_clock env st2;
          st4 = st3\<lparr>cy_round_durations := push_duration (now - t0) (cy_round_durations st3)\<rparr>;
          (iv, w) = fire_intervention (\<lambda>obs. on_audit_done obs (cy_history st4) n out audit) (ce_observers env) CONTINUE (cy_world st4)
      in (iv, st4\<lparr>cy_world := w\<rparr>))"

definition keep_round :: "WriterOutput \<Rightarrow> AuditReport \<Rightarrow> 'w cycle_state \<Rightarrow> 'w cycle_state" where
  "keep_round out audit st = st\<lparr>cy_prev_audit := Some audit, cy_last_writer_output := Some out\<rparr>"

definition synthetic_round ::
  "'w cycle_env \<Rightarrow> WriteAuditCycle \<Rightarrow> nat \<Rightarrow> real \<Rightarrow> WriterOutput \<Rightarrow> AuditReport \<Rightarrow> 'w cycle_state \<Rightarrow> 'w round_result" where
  "synthetic_round env cyc n t0 out synth st =
     (case record_audit env cyc n t0 out synth st of
        (Inl e, st') \<Rightarrow> Crash e st'
      | (Inr ABORT, st') \<Rightarrow> Finish False (n + 1) (Some out) (Some synth) ''observer_aborted'' st'
      | (Inr CONTINUE, st') \<Rightarrow> GoOn (keep_round out synth st'))"

fun verdict_text :: "json \<Rightarrow> string" where
  "verdict_text (JStr s) = s"
| "verdict_text _ = []"

definition judge ::
  "WriteAuditCycle \<Rightarrow> nat \<Rightarrow> WriterOutput \<Rightarrow> AuditReport \<Rightarrow> 'w cycle_state \<Rightarrow> 'w round_result" where
  "judge cyc n out audit st =
     (case in_strings (ad_verdict audit) (wc_terminal_verdicts cyc) of
        Inl e \<Rightarrow> Crash (raised e) st
      | Inr True \<Rightarrow>
          Finish (in_strings (ad_verdict audit) (wc_success_verdicts cyc) = Inr True) (n + 1) (Some out) (Some audit)
            (''verdict='' @ verdict_text (ad_verdict audit)) st
      | Inr False \<Rightarrow> GoOn (keep_round out audit st))"

definition audited_round ::
  "'w cycle_env \<Rightarrow> WriteAuditCycle \<Rightarrow> nat \<Rightarrow> real \<Rightarrow> WriterOutput \<Rightarrow> 'w cycle_state \<Rightarrow> 'w round_result" where
  "audited_round env cyc n t0 out st =
     (case ce_verify env out n (cy_world st) of
        (Inl e, w) \<Rightarrow> Crash e (st\<lparr>cy_world := w\<rparr>)
      | (Inr audit, w) \<Rightarrow>
          (case record_audit env cyc n t0 out audit (st\<lparr>cy_world := w\<rparr>) of
             (Inl e, st') \<Rightarrow> Crash e st'
           | (Inr ABORT, st') \<Rightarrow> Finish False (n + 1) (Some out) (Some audit) ''observer_aborted'' st'
           | (Inr CONTINUE, st') \<Rightarrow> judge cyc n out audit st'))"

definition after_writer ::
  "(string \<Rightarrow> string) \<Rightarrow> 'w cycle_env \<Rightarrow> WriteAuditCycle \<Rightarrow> nat \<Rightarrow> real \<Rightarrow> WriterOutput \<Rightarrow> 'w cycle_state \<Rightarrow> 'w round_result" where
  "after_writer repr_of env cyc n t0 out st =
     (case fire_intervention (\<lambda>obs. on_writer_done obs (cy_history st) n out) (ce_observers env) CONTINUE (cy_world st) of
        (Inl e, w) \<Rightarrow> Crash e (st\<lparr>cy_world := w\<rparr>)
      | (Inr ABORT, w) \<Rightarrow> Finish False (n + 1) (Some out) (cy_prev_audit st) ''observer_aborted'' (st\<lparr>cy_world := w\<rparr>)
      | (Inr CONTINUE, w) \<Rightarrow>
          (case ce_output_check env w of
             (Inl e, w') \<Rightarrow> Crash e (st\<lparr>cy_world := w'\<rparr>)
           | (Inr missing, w') \<Rightarrow>
               if missing \<noteq> [] then
                 synthetic_round env cyc n t0 out (synth_output_missing_audit repr_of missing) (st\<lparr>cy_world := w'\<rparr>)
               else audited_round env cyc n t0 out (st\<lparr>cy_world := w'\<rparr>)))"

definition feedback_for :: "'w cycle_env \<Rightarrow> AuditReport option \<Rightarrow> py_exception + string" where
  "feedback_for env prev = (case prev of None \<Rightarrow> Inr [] | Some audit \<Rightarrow> ce_render env audit)"

definition write_round ::
  "(string \<Rightarrow> string) \<Rightarrow> (py_exception \<Rightarrow> string) \<Rightarrow> 'w cycle_env \<Rightarrow> WriteAuditCycle \<Rightarrow> nat \<Rightarrow> real \<Rightarrow> string \<Rightarrow> 'w cycle_state \<Rightarrow> 'w round_result" where
  "write_round repr_of format_exc env cyc n t0 feedback_md st =
     (case ce_generate env (cy_prev_audit st) n feedback_md (cy_world st) of
        (Inl CancelledError, w) \<Rightarrow> Crash CancelledError (st\<lparr>cy_world := w\<rparr>)
      | (Inl exc, w) \<Rightarrow>
          synthetic_round env cyc n t0 (new_writer_output []) (synth_writer_exception_audit format_exc exc) (st\<lparr>cy_world := w\<rparr>)
      | (Inr out, w) \<Rightarrow> after_writer repr_of env cyc n t0 out (st\<lparr>cy_world := w\<rparr>))"

definition start_round ::
  "(string \<Rightarrow> string) \<Rightarrow> (py_exception \<Rightarrow> string) \<Rightarrow> 'w cycle_env \<Rightarrow> WriteAuditCycle \<Rightarrow> nat \<Rightarrow> 'w cycle_state \<Rightarrow> 'w round_result" where
  "start_round repr_of format_exc env cyc n st =
     (let (t0, st0) = cycle_clock env st in
      case fire_hooks (\<lambda>obs. on_round_start obs (cy_history st0) n (cy_prev_audit st0)) (ce_observers env) (cy_world st0) of
        (Inl e, w) \<Rightarrow> Crash e (st0\<lparr>cy_world := w\<rparr>)
      | (Inr _, w) \<Rightarrow>
          (case feedback_for env (cy_prev_audit st0) of
             Inl e \<Rightarrow> Crash e (st0\<lparr>cy_world := w\<rparr>)
           | Inr feedback_md \<Rightarrow> write_round repr_of format_exc env cyc n t0 feedback_md (st0\<lparr>cy_world := w\<rparr>)))"

definition cycle_round ::
  "(string \<Rightarrow> string) \<Rightarrow> (py_exception \<Rightarrow> string) \<Rightarrow> 'w cycle_env \<Rightarrow> WriteAuditCycle \<Rightarrow> real \<Rightarrow> nat \<Rightarrow> 'w cycle_state \<Rightarrow> 'w round_result" where
  "cycle_round repr_of format_exc env cyc cycle_start n st =
     (if wc_max_wall_seconds cyc \<noteq> None \<and> cy_round_durations st \<noteq> [] then
        let (now, st1) = cycle_clock env st in
        if wall_spent cyc cycle_start now (cy_round_durations st1)
        then Finish False n (cy_last_writer_output st1) (cy_prev_audit st1) ''wall_clock_exhausted'' st1
        else start_round repr_of format_exc env cyc n st1
      else start_round repr_of format_exc env cyc n st)"

section \<open>The run\<close>

definition finalize ::
  "'w cycle_env \<Rightarrow> bool \<Rightarrow> nat \<Rightarrow> WriterOutput option \<Rightarrow> AuditReport option \<Rightarrow> string \<Rightarrow> 'w cycle_state \<Rightarrow>
   (py_exception + CycleOutput) \<times> 'w cycle_state" where
  "finalize env success rounds_used final_out final_audit reason st =
     (let output = \<lparr>co_success = success, co_rounds_used = int rounds_used, co_final_writer_output = final_out,
                    co_final_audit = final_audit, co_history = cy_history st, co_reason = JStr reason\<rparr>
      in case fire_hooks (\<lambda>obs. on_cycle_end obs output) (ce_observers env) (cy_world st) of
           (Inl e, w) \<Rightarrow> (Inl e, st\<lparr>cy_world := w\<rparr>)
         | (Inr _, w) \<Rightarrow> (Inr output, st\<lparr>cy_world := w\<rparr>))"

fun cycle_rounds ::
  "(string \<Rightarrow> string) \<Rightarrow> (py_exception \<Rightarrow> string) \<Rightarrow> 'w cycle_env \<Rightarrow> WriteAuditCycle \<Rightarrow> real \<Rightarrow> nat list \<Rightarrow> 'w cycle_state \<Rightarrow>
   (py_exception + CycleOutput) \<times> 'w cycle_state" where
  "cycle_rounds repr_of format_exc env cyc cycle_start [] st =
     finalize env False (wc_max_rounds cyc) (cy_last_writer_output st) (cy_prev_audit st) ''max_rounds_exhausted'' st"
| "cycle_rounds repr_of format_exc env cyc cycle_start (n # ns) st =
     (case cycle_round repr_of format_exc env cyc cycle_start n st of
        GoOn st' \<Rightarrow> cycle_rounds repr_of format_exc env cyc cycle_start ns st'
      | Finish success used out audit reason st' \<Rightarrow> finalize env success used out audit reason st'
      | Crash e st' \<Rightarrow> (Inl e, st'))"

definition cycle_begin :: "'w \<Rightarrow> 'w cycle_state" where
  "cycle_begin w =
     \<lparr>cy_world = w, cy_prev_audit = None, cy_history = [], cy_last_writer_output = None, cy_round_durations = [], cy_trail = []\<rparr>"

definition cycle_run ::
  "(string \<Rightarrow> string) \<Rightarrow> (py_exception \<Rightarrow> string) \<Rightarrow> 'w cycle_env \<Rightarrow> WriteAuditCycle \<Rightarrow> 'w \<Rightarrow>
   (py_exception + CycleOutput) \<times> 'w cycle_state" where
  "cycle_run repr_of format_exc env cyc w =
     (let (cycle_start, st) = cycle_clock env (cycle_begin w);
          ctx = \<lparr>cx_max_rounds = wc_max_rounds cyc, cx_max_wall_seconds = wc_max_wall_seconds cyc\<rparr>
      in case fire_hooks (\<lambda>obs. on_cycle_start obs ctx) (ce_observers env) (cy_world st) of
           (Inl e, w') \<Rightarrow> (Inl e, st\<lparr>cy_world := w'\<rparr>)
         | (Inr _, w') \<Rightarrow> cycle_rounds repr_of format_exc env cyc cycle_start [0..<wc_max_rounds cyc] (st\<lparr>cy_world := w'\<rparr>))"

section \<open>What a round leaves behind\<close>

definition not_final :: "WriteAuditCycle \<Rightarrow> WriterOutput \<times> AuditReport \<Rightarrow> bool" where
  "not_final cyc item =
     (map_of (ad_metadata (snd item)) ''synthetic'' = Some (JBool True)
      \<or> in_strings (ad_verdict (snd item)) (wc_terminal_verdicts cyc) = Inr False)"

definition last_audit :: "cycle_history \<Rightarrow> AuditReport option" where
  "last_audit h = (if h = [] then None else Some (snd (last h)))"

definition cycle_inv :: "WriteAuditCycle \<Rightarrow> nat \<Rightarrow> 'w cycle_state \<Rightarrow> bool" where
  "cycle_inv cyc n st =
     (length (cy_history st) = n \<and> cy_trail st = enumerate 0 (map snd (cy_history st))
      \<and> (\<forall>item\<in>set (cy_history st). not_final cyc item) \<and> cy_prev_audit st = last_audit (cy_history st))"

text \<open>How a run ends, given its history.\<close>

inductive cycle_ending :: "WriteAuditCycle \<Rightarrow> cycle_history \<Rightarrow> bool \<Rightarrow> nat \<Rightarrow> string \<Rightarrow> bool" for cyc h where
  exhausted: "\<lbrakk>length h = wc_max_rounds cyc; \<forall>item\<in>set h. not_final cyc item\<rbrakk>
    \<Longrightarrow> cycle_ending cyc h False (length h) ''max_rounds_exhausted''"
| out_of_time: "\<lbrakk>wc_max_wall_seconds cyc \<noteq> None; length h < wc_max_rounds cyc; \<forall>item\<in>set h. not_final cyc item\<rbrakk>
    \<Longrightarrow> cycle_ending cyc h False (length h) ''wall_clock_exhausted''"
| aborted_after_writer: "\<lbrakk>length h < wc_max_rounds cyc; \<forall>item\<in>set h. not_final cyc item\<rbrakk>
    \<Longrightarrow> cycle_ending cyc h False (Suc (length h)) ''observer_aborted''"
| aborted_after_audit: "\<lbrakk>h \<noteq> []; length h \<le> wc_max_rounds cyc; \<forall>item\<in>set (butlast h). not_final cyc item\<rbrakk>
    \<Longrightarrow> cycle_ending cyc h False (length h) ''observer_aborted''"
| judged: "\<lbrakk>h \<noteq> []; length h \<le> wc_max_rounds cyc; \<forall>item\<in>set (butlast h). not_final cyc item;
      ad_verdict (snd (last h)) = JStr v; v \<in> wc_terminal_verdicts cyc\<rbrakk>
    \<Longrightarrow> cycle_ending cyc h (v \<in> wc_success_verdicts cyc) (length h) (''verdict='' @ v)"

definition good_result :: "WriteAuditCycle \<Rightarrow> nat \<Rightarrow> 'w round_result \<Rightarrow> bool" where
  "good_result cyc n res =
     (case res of
        GoOn st \<Rightarrow> cycle_inv cyc (Suc n) st
      | Finish success used out audit reason st \<Rightarrow>
          cycle_ending cyc (cy_history st) success used reason \<and> cy_trail st = enumerate 0 (map snd (cy_history st))
          \<and> audit = last_audit (cy_history st)
      | Crash e st \<Rightarrow> True)"

lemma good_result_Crash [simp]: "good_result cyc n (Crash e st)"
  by (simp add: good_result_def)

lemma cycle_inv_world [simp]: "cycle_inv cyc n (st\<lparr>cy_world := w\<rparr>) = cycle_inv cyc n st"
  by (simp add: cycle_inv_def)

lemma cycle_clock_keeps:
  assumes "cycle_clock env st = (t, st')"
  shows "\<exists>w. st' = st\<lparr>cy_world := w\<rparr>"
  using assms by (auto simp: cycle_clock_def split: prod.splits)

lemma record_audit_effect:
  assumes "record_audit env cyc n t0 out audit st = (iv, st')"
  shows "cy_history st' = cy_history st @ [(out, audit)]" "cy_trail st' = cy_trail st @ [(n, audit)]"
    "cy_prev_audit st' = cy_prev_audit st"
  using assms by (auto simp: record_audit_def persist_def cycle_clock_def Let_def split: prod.splits)

lemma synthetic_markers:
  "not_final cyc (out, synth_output_missing_audit repr_of missing)"
  "not_final cyc (out, synth_writer_exception_audit format_exc exc)"
  by (simp_all add: not_final_def synth_output_missing_audit_def synth_writer_exception_audit_def)

lemma enumerate_snoc: "enumerate k (xs @ [x]) = enumerate k xs @ [(k + length xs, x)]"
  by (simp add: enumerate_append_eq)

lemma keep_round_fields [simp]:
  "cy_history (keep_round out a st) = cy_history st" "cy_trail (keep_round out a st) = cy_trail st"
  "cy_prev_audit (keep_round out a st) = Some a"
  by (simp_all add: keep_round_def)

lemma recorded_round:
  assumes inv: "cycle_inv cyc n st" and rec: "record_audit env cyc n t0 out audit st = (iv, st')"
  shows "cy_trail st' = enumerate 0 (map snd (cy_history st'))" "last_audit (cy_history st') = Some audit"
    "length (cy_history st') = Suc n" "\<forall>item\<in>set (butlast (cy_history st')). not_final cyc item"
    "not_final cyc (out, audit) \<Longrightarrow> cycle_inv cyc (Suc n) (keep_round out audit st')"
  using inv record_audit_effect [OF rec]
  by (auto simp: cycle_inv_def enumerate_snoc last_audit_def)

lemma recorded_abort:
  assumes "cycle_inv cyc n st" "record_audit env cyc n t0 out audit st = (iv, st')" "n < wc_max_rounds cyc"
  shows "good_result cyc n (Finish False (Suc n) (Some out) (Some audit) ''observer_aborted'' st')"
proof -
  note R = recorded_round [OF assms(1,2)]
  have "cycle_ending cyc (cy_history st') False (length (cy_history st')) ''observer_aborted''"
    using R assms(3) by (intro aborted_after_audit) auto
  with R show ?thesis by (simp add: good_result_def)
qed

lemma synthetic_round_good:
  assumes "cycle_inv cyc n st" "n < wc_max_rounds cyc" "not_final cyc (out, synth)"
  shows "good_result cyc n (synthetic_round env cyc n t0 out synth st)"
proof -
  obtain iv st' where r: "record_audit env cyc n t0 out synth st = (iv, st')" by fastforce
  show ?thesis
    using recorded_abort [OF assms(1) r assms(2)] recorded_round(5) [OF assms(1) r assms(3)]
    by (auto simp: synthetic_round_def r good_result_def split: sum.split RoundIntervention.split)
qed

lemma judge_good:
  assumes "cycle_inv cyc n st" "record_audit env cyc n t0 out audit st = (iv, st')" "n < wc_max_rounds cyc"
  shows "good_result cyc n (judge cyc n out audit st')"
proof (cases "in_strings (ad_verdict audit) (wc_terminal_verdicts cyc)")
  case (Inr b)
  note R = recorded_round [OF assms(1,2)]
  show ?thesis
  proof (cases b)
    case True
    with Inr obtain v where v: "ad_verdict audit = JStr v" "v \<in> wc_terminal_verdicts cyc"
      by (cases "ad_verdict audit") auto
    have "ad_verdict (snd (last (cy_history st'))) = JStr v" using v R(2) by (auto simp: last_audit_def split: if_splits)
    then have "cycle_ending cyc (cy_history st') (v \<in> wc_success_verdicts cyc) (length (cy_history st')) (''verdict='' @ v)"
      using R assms(3) v by (intro judged) auto
    with R Inr True v show ?thesis by (simp add: judge_def good_result_def)
  next
    case False
    then have "not_final cyc (out, audit)" using Inr by (simp add: not_final_def)
    with R(5) Inr False show ?thesis by (simp add: judge_def good_result_def)
  qed
qed (simp add: judge_def)

lemma audited_round_good:
  assumes "cycle_inv cyc n st" "n < wc_max_rounds cyc"
  shows "good_result cyc n (audited_round env cyc n t0 out st)"
proof -
  have inv: "cycle_inv cyc n (st\<lparr>cy_world := w\<rparr>)" for w using assms(1) by simp
  show ?thesis
    unfolding audited_round_def
    by (auto simp: recorded_abort [OF inv _ assms(2)] judge_good [OF inv _ assms(2)] split: prod.split sum.split RoundIntervention.split)
qed

lemma write_round_good:
  assumes "cycle_inv cyc n st" "n < wc_max_rounds cyc"
  shows "good_result cyc n (write_round repr_of format_exc env cyc n t0 fb st)"
proof -
  have inv: "cycle_inv cyc n (st\<lparr>cy_world := w\<rparr>)" for w using assms(1) by simp
  have synth: "good_result cyc n (synthetic_round env cyc n t0 o1 (synth_output_missing_audit repr_of m) (st\<lparr>cy_world := w\<rparr>))"
    "good_result cyc n (synthetic_round env cyc n t0 o1 (synth_writer_exception_audit format_exc e) (st\<lparr>cy_world := w\<rparr>))" for o1 m e w
    using synthetic_round_good [OF inv assms(2)] synthetic_markers by blast+
  have "good_result cyc n (Finish False (Suc n) o1 (cy_prev_audit st) ''observer_aborted'' (st\<lparr>cy_world := w\<rparr>))" for o1 w
    using assms aborted_after_writer [of "cy_history st" cyc] by (auto simp: good_result_def cycle_inv_def)
  then have "good_result cyc n (after_writer repr_of env cyc n t0 o1 (st\<lparr>cy_world := w\<rparr>))" for o1 w
    using synth(1) audited_round_good [OF inv assms(2)]
    by (auto simp: after_writer_def split: prod.split sum.split RoundIntervention.split)
  with synth(2) show ?thesis
    by (auto simp: write_round_def split: prod.split sum.split py_exception.split)
qed

lemma start_round_good:
  assumes "cycle_inv cyc n st" "n < wc_max_rounds cyc"
  shows "good_result cyc n (start_round repr_of format_exc env cyc n st)"
proof -
  obtain t0 w0 where r: "cycle_clock env st = (t0, st\<lparr>cy_world := w0\<rparr>)" using cycle_clock_keeps by (metis surj_pair)
  have "good_result cyc n (write_round repr_of format_exc env cyc n t0 fb (st\<lparr>cy_world := w\<rparr>))" for fb w
    using assms by (intro write_round_good) simp_all
  then show ?thesis by (auto simp: start_round_def r split: prod.split sum.split)
qed

lemma cycle_round_good:
  assumes "cycle_inv cyc n st" "n < wc_max_rounds cyc"
  shows "good_result cyc n (cycle_round repr_of format_exc env cyc cycle_start n st)"
proof -
  obtain t w where r: "cycle_clock env st = (t, st\<lparr>cy_world := w\<rparr>)" using cycle_clock_keeps by (metis surj_pair)
  have "good_result cyc n (Finish False n out (cy_prev_audit st) ''wall_clock_exhausted'' (st\<lparr>cy_world := w\<rparr>))"
    if "wc_max_wall_seconds cyc \<noteq> None" for out
    using assms that out_of_time [of cyc "cy_history st"] by (auto simp: good_result_def cycle_inv_def)
  then show ?thesis
    using start_round_good [OF assms] start_round_good [of cyc n "st\<lparr>cy_world := w\<rparr>"] assms by (simp add: cycle_round_def r)
qed

lemma finalize_output:
  assumes "finalize env success used out audit reason st = (Inr c, st')"
  shows "c = \<lparr>co_success = success, co_rounds_used = int used, co_final_writer_output = out,
              co_final_audit = audit, co_history = cy_history st, co_reason = JStr reason\<rparr>" "cy_trail st' = cy_trail st"
  using assms by (auto simp: finalize_def Let_def split: prod.splits sum.splits)

lemma cycle_rounds_good:
  assumes "cycle_inv cyc n st" "n + length ns = wc_max_rounds cyc" "ns = [n..<wc_max_rounds cyc]"
    and "cycle_rounds repr_of format_exc env cyc cycle_start ns st = (Inr c, st')"
  shows "\<exists>used reason. co_rounds_used c = int used \<and> co_reason c = JStr reason
    \<and> cycle_ending cyc (co_history c) (co_success c) used reason
    \<and> cy_trail st' = enumerate 0 (map snd (co_history c)) \<and> co_final_audit c = last_audit (co_history c)"
  using assms
proof (induction ns arbitrary: n st)
  case Nil
  then have "cycle_ending cyc (cy_history st) False (length (cy_history st)) ''max_rounds_exhausted''"
    by (intro exhausted) (auto simp: cycle_inv_def)
  with Nil finalize_output [OF Nil.prems(4) [simplified]] show ?case by (auto simp: cycle_inv_def)
next
  case (Cons m ns)
  have m: "m = n" "ns = [Suc n..<wc_max_rounds cyc]" "n < wc_max_rounds cyc"
    using Cons.prems(3) [symmetric] unfolding upt_eq_Cons_conv by auto
  note G = cycle_round_good [OF Cons.prems(1) m(3), of repr_of format_exc env cycle_start]
  show ?case
  proof (cases "cycle_round repr_of format_exc env cyc cycle_start n st")
    case (GoOn st1)
    then have "cycle_rounds repr_of format_exc env cyc cycle_start ns st1 = (Inr c, st')" using Cons.prems(4) m(1) by simp
    from Cons.IH [OF _ _ m(2) this] G GoOn Cons.prems(2) show ?thesis by (simp add: good_result_def)
  next
    case (Finish s u out a r st1)
    then have "finalize env s u out a r st1 = (Inr c, st')" using Cons.prems(4) m(1) by simp
    from finalize_output [OF this] G Finish show ?thesis by (auto simp: good_result_def)
  next
    case (Crash e st1)
    then show ?thesis using Cons.prems(4) m(1) by simp
  qed
qed

section \<open>Which raises reach the caller\<close>

text \<open>Nobody cancels: the one exception that the cycle's own handlers let through.\<close>

definition no_cancel :: "(py_exception + 'a) \<times> 'w \<Rightarrow> bool" where
  "no_cancel r = (fst r \<noteq> Inl CancelledError)"

definition calm_observer :: "'w RoundObserver \<Rightarrow> bool" where
  "calm_observer obs =
     ((\<forall>c w. no_cancel (on_cycle_start obs c w)) \<and> (\<forall>h n p w. no_cancel (on_round_start obs h n p w))
      \<and> (\<forall>h n out w. no_cancel (on_writer_done obs h n out w)) \<and> (\<forall>h n out a w. no_cancel (on_audit_done obs h n out a w))
      \<and> (\<forall>c w. no_cancel (on_cycle_end obs c w)))"

lemma fire_hooks_calm: "(\<And>obs w. obs \<in> set os \<Longrightarrow> no_cancel (hook obs w)) \<Longrightarrow> \<exists>w'. fire_hooks hook os w = (Inr (), w')"
proof (induction os arbitrary: w)
  case (Cons obs os)
  have "no_cancel (hook obs w)" using Cons.prems by simp
  moreover have "\<exists>w'. fire_hooks hook os v = (Inr (), w')" for v using Cons by simp
  ultimately show ?case by (auto simp: no_cancel_def split: prod.split sum.split py_exception.split)
qed simp

lemma fire_intervention_calm:
  "(\<And>obs w. obs \<in> set os \<Longrightarrow> no_cancel (hook obs w)) \<Longrightarrow> \<exists>iv w'. fire_intervention hook os r w = (Inr iv, w')"
proof (induction os arbitrary: r w)
  case (Cons obs os)
  have "no_cancel (hook obs w)" using Cons.prems by simp
  moreover have "\<exists>iv w'. fire_intervention hook os q v = (Inr iv, w')" for q v using Cons by simp
  ultimately show ?case by (auto simp: no_cancel_def split: prod.split sum.split py_exception.split)
qed simp

lemma hashable_any: "\<not> raises (in_strings v {}) \<Longrightarrow> \<exists>b. in_strings v S = Inr b"
  by (cases v) auto

text \<open>
  The contract of the cycle's parties: observers and writer may raise anything but do not cancel, the
  output check and the auditor return, and the auditor's reports, like the cycle's own, are usable:
  they can be rendered and have a hashable verdict.
\<close>

locale calm_cycle =
  fixes repr_of :: "string \<Rightarrow> string" and format_exc :: "py_exception \<Rightarrow> string"
    and env :: "'w cycle_env" and usable :: "AuditReport \<Rightarrow> bool"
  assumes observers_calm: "obs \<in> set (ce_observers env) \<Longrightarrow> calm_observer obs"
    and writer_calm: "no_cancel (ce_generate env p n fb w)"
    and check_returns: "\<exists>m w'. ce_output_check env w = (Inr m, w')"
    and verify_returns: "\<exists>a w'. ce_verify env out n w = (Inr a, w') \<and> usable a"
    and synthetic_usable: "usable (synth_output_missing_audit repr_of m)" "usable (synth_writer_exception_audit format_exc e)"
    and usable_rendered: "usable a \<Longrightarrow> \<not> raises (ce_render env a)"
    and usable_judged: "usable a \<Longrightarrow> \<not> raises (in_strings (ad_verdict a) {})"
begin

definition prev_usable :: "'w cycle_state \<Rightarrow> bool" where
  "prev_usable st = (\<forall>a. cy_prev_audit st = Some a \<longrightarrow> usable a)"

definition steady :: "'w round_result \<Rightarrow> bool" where
  "steady res = (case res of GoOn st \<Rightarrow> prev_usable st | Finish s u out a r st \<Rightarrow> True | Crash e st \<Rightarrow> False)"

lemma steady_simps [simp]: "steady (Finish s u out a r st)" "steady (GoOn (keep_round o1 b st)) = usable b"
  by (simp_all add: steady_def prev_usable_def)

lemma prev_usable_world [simp]: "prev_usable (st\<lparr>cy_world := w\<rparr>) = prev_usable st"
  by (simp add: prev_usable_def)

lemma record_audit_returns: "\<exists>iv st'. record_audit env cyc n t0 out a st = (Inr iv, st')"
proof -
  have "\<exists>iv w'. fire_intervention (\<lambda>obs. on_audit_done obs h n out a) (ce_observers env) CONTINUE w = (Inr iv, w')" for h w
    using observers_calm by (intro fire_intervention_calm) (simp add: calm_observer_def)
  then show ?thesis by (auto simp: record_audit_def Let_def split: prod.splits) (metis Inl_Inr_False fst_conv)
qed

lemma steady_synthetic: "usable a \<Longrightarrow> steady (synthetic_round env cyc n t0 out a st)"
  using record_audit_returns [of cyc n t0 out a st] by (auto simp: synthetic_round_def split: RoundIntervention.split)

lemma steady_audited: "steady (audited_round env cyc n t0 out st)"
proof -
  obtain a w' where v: "ce_verify env out n (cy_world st) = (Inr a, w')" "usable a" using verify_returns by blast
  obtain b where "in_strings (ad_verdict a) (wc_terminal_verdicts cyc) = Inr b" using hashable_any usable_judged [OF v(2)] by blast
  then have "steady (judge cyc n out a s)" for s using v(2) by (cases b) (simp_all add: judge_def)
  then show ?thesis
    using record_audit_returns [of cyc n t0 out a "st\<lparr>cy_world := w'\<rparr>"]
    by (auto simp: audited_round_def v split: RoundIntervention.split)
qed

lemma steady_after_writer: "steady (after_writer repr_of env cyc n t0 out st)"
proof -
  obtain iv w1 where f: "fire_intervention (\<lambda>obs. on_writer_done obs (cy_history st) n out) (ce_observers env) CONTINUE (cy_world st) = (Inr iv, w1)"
    using fire_intervention_calm [of "ce_observers env"] observers_calm by (metis calm_observer_def)
  obtain m w2 where "ce_output_check env w1 = (Inr m, w2)" using check_returns by blast
  then show ?thesis using steady_synthetic [OF synthetic_usable(1)] steady_audited
    by (cases iv) (simp_all add: after_writer_def f)
qed

lemma steady_write: "steady (write_round repr_of format_exc env cyc n t0 fb st)"
proof -
  obtain r w where g: "ce_generate env (cy_prev_audit st) n fb (cy_world st) = (r, w)" by fastforce
  then have "r \<noteq> Inl CancelledError" using writer_calm [of "cy_prev_audit st" n fb "cy_world st"] by (simp add: no_cancel_def)
  then show ?thesis using steady_synthetic [OF synthetic_usable(2)] steady_after_writer
    by (auto simp: write_round_def g split: sum.split py_exception.split)
qed

lemma steady_start: "prev_usable st \<Longrightarrow> steady (start_round repr_of format_exc env cyc n st)"
proof -
  assume u: "prev_usable st"
  obtain t0 st1 where c: "cycle_clock env st = (t0, st1)" by fastforce
  have u1: "prev_usable st1" using u cycle_clock_keeps [OF c] by auto
  obtain w where f: "fire_hooks (\<lambda>obs. on_round_start obs (cy_history st1) n (cy_prev_audit st1)) (ce_observers env) (cy_world st1) = (Inr (), w)"
    using fire_hooks_calm [of "ce_observers env"] observers_calm by (metis calm_observer_def)
  have "\<not> raises (feedback_for env (cy_prev_audit st1))"
    using u1 usable_rendered by (auto simp: feedback_for_def prev_usable_def split: option.split)
  then obtain fb where "feedback_for env (cy_prev_audit st1) = Inr fb" by (cases "feedback_for env (cy_prev_audit st1)") auto
  then show ?thesis by (simp add: start_round_def c f steady_write)
qed

lemma steady_round: "prev_usable st \<Longrightarrow> steady (cycle_round repr_of format_exc env cyc s n st)"
proof -
  assume u: "prev_usable st"
  obtain t st1 where c: "cycle_clock env st = (t, st1)" by fastforce
  then have "prev_usable st1" using u cycle_clock_keeps [OF c] by auto
  then show ?thesis using u steady_start by (simp add: cycle_round_def c)
qed

lemma finalize_returns: "\<exists>c st'. finalize env s u out a r st = (Inr c, st')"
proof -
  obtain v where "fire_hooks (\<lambda>obs. on_cycle_end obs \<lparr>co_success = s, co_rounds_used = int u, co_final_writer_output = out,
      co_final_audit = a, co_history = cy_history st, co_reason = JStr r\<rparr>) (ce_observers env) (cy_world st) = (Inr (), v)"
    using fire_hooks_calm [of "ce_observers env"] observers_calm by (metis calm_observer_def)
  then show ?thesis by (simp add: finalize_def Let_def)
qed

lemma rounds_return: "prev_usable st \<Longrightarrow> \<exists>c st'. cycle_rounds repr_of format_exc env cyc s ns st = (Inr c, st')"
proof (induction ns arbitrary: st)
  case (Cons n ns)
  have "steady (cycle_round repr_of format_exc env cyc s n st)" using steady_round [OF Cons.prems] .
  then show ?case using Cons.IH finalize_returns
    by (cases "cycle_round repr_of format_exc env cyc s n st") (auto simp: steady_def)
qed (use finalize_returns in simp)

lemma run_returns: "\<exists>c st. cycle_run repr_of format_exc env cyc w = (Inr c, st)"
proof -
  obtain t0 st0 where c: "cycle_clock env (cycle_begin w) = (t0, st0)" by fastforce
  obtain w' where f: "fire_hooks (\<lambda>obs. on_cycle_start obs \<lparr>cx_max_rounds = wc_max_rounds cyc, cx_max_wall_seconds = wc_max_wall_seconds cyc\<rparr>)
      (ce_observers env) (cy_world st0) = (Inr (), w')"
    using fire_hooks_calm [of "ce_observers env"] observers_calm by (metis calm_observer_def)
  have "prev_usable (st0\<lparr>cy_world := w'\<rparr>)" using cycle_clock_keeps [OF c] by (auto simp: prev_usable_def cycle_begin_def)
  then show ?thesis using rounds_return by (simp add: cycle_run_def c f Let_def)
qed

end

section \<open>Properties\<close>

text \<open>
  C29: how a cycle ends.  Whenever \<open>run\<close> returns, one of five endings holds of its history: the rounds are
  exhausted, the wall budget is, an observer aborted after a writer or after an audit, or the last audit
  has a terminal verdict, and only that ending can be a success, exactly for a success verdict.  Every
  earlier audit was synthetic or not terminal; the final audit is the last of the history; and the trail
  on disk has one audit per round of the history, in order.
\<close>

theorem cycle_endings:
  assumes "cycle_run repr_of format_exc env cyc w = (Inr c, st)"
  shows "(\<exists>used reason. co_rounds_used c = int used \<and> co_reason c = JStr reason
      \<and> cycle_ending cyc (co_history c) (co_success c) used reason)
    \<and> cy_trail st = enumerate 0 (map snd (co_history c)) \<and> co_final_audit c = last_audit (co_history c)"
proof -
  obtain t0 st0 where c: "cycle_clock env (cycle_begin w) = (t0, st0)" by fastforce
  obtain w1 where "cycle_rounds repr_of format_exc env cyc t0 [0..<wc_max_rounds cyc] (st0\<lparr>cy_world := w1\<rparr>) = (Inr c, st)"
    using assms by (auto simp: cycle_run_def c Let_def split: prod.splits sum.splits)
  moreover have "cycle_inv cyc 0 (st0\<lparr>cy_world := w1\<rparr>)"
    using cycle_clock_keeps [OF c] by (auto simp: cycle_inv_def cycle_begin_def last_audit_def)
  ultimately show ?thesis using cycle_rounds_good [of cyc 0 _ "[0..<wc_max_rounds cyc]"] by fastforce
qed

text \<open>A cycle on a world that is only a clock: the auditor asks for one revision, then passes.\<close>

definition demo_audit :: "string \<Rightarrow> json \<Rightarrow> AuditReport" where
  "demo_audit verdict summary =
     \<lparr>ad_verdict = JStr verdict, ad_findings = [], ad_summary = summary, ad_confidence = 1, ad_raw_text = JStr [], ad_metadata = []\<rparr>"

definition cycle_render ::
  "(json \<Rightarrow> string) \<Rightarrow> (real \<Rightarrow> string) \<Rightarrow> (json \<Rightarrow> string) \<Rightarrow> string set \<Rightarrow> AuditReport \<Rightarrow> py_exception + string" where
  "cycle_render fmt fmt2 dumps success audit =
     (case render fmt fmt2 dumps success audit of Inl e \<Rightarrow> Inl (raised e) | Inr s \<Rightarrow> Inr s)"

definition demo_cycle_env :: "json \<Rightarrow> nat cycle_env" where
  "demo_cycle_env summary =
     \<lparr>ce_generate = \<lambda>p n fb w. (Inr (new_writer_output ''draft''), Suc w), ce_output_check = \<lambda>w. (Inr [], w),
      ce_verify = \<lambda>out n w. (Inr (demo_audit (if n = 0 then ''iterate'' else ''success'') summary), w),
      ce_render = cycle_render verdict_text (\<lambda>r. []) (\<lambda>v. []) DEFAULT_SUCCESS, ce_write_text = \<lambda>path a w. w, ce_monotonic = \<lambda>w. (real w, w), ce_observers = []\<rparr>"

definition demo_cycle :: WriteAuditCycle where
  "demo_cycle =
     \<lparr>wc_max_rounds = 3, wc_terminal_verdicts = DEFAULT_TERMINAL, wc_success_verdicts = DEFAULT_SUCCESS,
      wc_audit_path = default_audit_path, wc_max_wall_seconds = None, wc_wall_clock_safety_ratio = 11 / 10\<rparr>"

lemmas demo_defs = cycle_run_def cycle_begin_def cycle_clock_def demo_cycle_env_def demo_cycle_def cycle_round_def start_round_def
  feedback_for_def write_round_def after_writer_def audited_round_def record_audit_def persist_def judge_def keep_round_def
  finalize_def cycle_render_def render_def demo_audit_def DEFAULT_TERMINAL_def DEFAULT_SUCCESS_def Let_def upt_rec

theorem cycle_endings_witness:
  "\<exists>c st. cycle_run id (\<lambda>e. []) (demo_cycle_env (JStr [])) demo_cycle 0 = (Inr c, st)
     \<and> co_success c \<and> length (cy_trail st) = 2 \<and> length (co_history c) = 2"
proof -
  let ?r = "cycle_run id (\<lambda>e. []) (demo_cycle_env (JStr [])) demo_cycle 0"
  have "fst ?r \<noteq> Inl e \<and> (\<forall>c. fst ?r = Inr c \<longrightarrow> co_success c \<and> length (co_history c) = 2)" for e
    by (simp add: demo_defs)
  then obtain c st where c: "?r = (Inr c, st)" "co_success c" "length (co_history c) = 2"
    by (metis prod.exhaust_sel sum.exhaust)
  with cycle_endings [OF c(1)] show ?thesis by simp
qed

text \<open>
  C35: a report without a summary ends the run with an exception.  If the auditor asks for a revision
  in a report whose \<open>summary\<close> is \<open>null\<close>, which \<open>AuditReport.from_dict\<close> accepts, then the default renderer
  raises \<open>AttributeError\<close> at the start of the next round, outside every handler, and \<open>run\<close>, documented
  never to raise, passes it on.
\<close>

theorem null_summary_ends_run:
  assumes "2 \<le> wc_max_rounds cyc" and "wc_max_wall_seconds cyc = None" and "ce_observers env = []"
    and "ce_render env = cycle_render fmt fmt2 dumps S"
    and "\<And>w. \<exists>out w'. ce_generate env None 0 [] w = (Inr out, w')" and "\<And>w. \<exists>w'. ce_output_check env w = (Inr [], w')"
    and "\<And>out w. \<exists>a w'. ce_verify env out 0 w = (Inr a, w') \<and> ad_summary a = JNull
           \<and> ad_verdict a = JStr v" and "v \<notin> wc_terminal_verdicts cyc"
  shows "fst (cycle_run repr_of format_exc env cyc w) = Inl (raised AttributeError)"
proof -
  obtain m where m: "[0..<wc_max_rounds cyc] = 0 # 1 # m"
    using assms(1) by (metis One_nat_def Suc_le_lessD le_less_trans less_2_cases_iff numeral_2_eq_2 upt_conv_Cons zero_less_Suc le_eq_less_or_eq)
  have first: "\<exists>st' a. cycle_round repr_of format_exc env cyc t 0 st = GoOn st' \<and> cy_prev_audit st' = Some a \<and> ad_summary a = JNull"
    if "cy_prev_audit st = None" for t st
  proof -
    obtain t0 w0 where c: "cycle_clock env st = (t0, st\<lparr>cy_world := w0\<rparr>)" using cycle_clock_keeps by (metis surj_pair)
    obtain out w1 where g: "ce_generate env None 0 [] w0 = (Inr out, w1)" using assms(5) by blast
    obtain w2 where o: "ce_output_check env w1 = (Inr [], w2)" using assms(6) by blast
    obtain a w3 where a: "ce_verify env out 0 w2 = (Inr a, w3)" "ad_summary a = JNull" "ad_verdict a = JStr v" using assms(7) by blast
    obtain st4 where r: "record_audit env cyc 0 t0 out a (st\<lparr>cy_world := w3\<rparr>) = (Inr CONTINUE, st4)"
      using assms(3) by (auto simp: record_audit_def Let_def case_prod_beta)
    show ?thesis using that assms(2,3,8) a r
      by (simp add: cycle_round_def start_round_def c feedback_for_def write_round_def g after_writer_def o audited_round_def judge_def keep_round_def)
  qed
  have second: "\<exists>st'. cycle_round repr_of format_exc env cyc t 1 st = Crash (raised AttributeError) st'"
    if "cy_prev_audit st = Some a" "ad_summary a = JNull" for t st a
  proof -
    obtain t0 w0 where c: "cycle_clock env st = (t0, st\<lparr>cy_world := w0\<rparr>)" using cycle_clock_keeps by (metis surj_pair)
    show ?thesis using that assms(2,3,4) by (simp add: cycle_round_def start_round_def c feedback_for_def cycle_render_def render_def)
  qed
  obtain t0 st0 where c: "cycle_clock env (cycle_begin w) = (t0, st0)" by fastforce
  then have "cy_prev_audit st0 = None" using cycle_clock_keeps [OF c] by (auto simp: cycle_begin_def)
  then obtain st1 a where s1: "cycle_round repr_of format_exc env cyc t0 0 (st0\<lparr>cy_world := cy_world st0\<rparr>) = GoOn st1"
    "cy_prev_audit st1 = Some a" "ad_summary a = JNull" using first [of "st0\<lparr>cy_world := cy_world st0\<rparr>" t0] by auto
  obtain st2 where "cycle_round repr_of format_exc env cyc t0 1 st1 = Crash (raised AttributeError) st2" using second [OF s1(2,3)] by blast
  with s1(1) show ?thesis using assms(3) by (simp add: cycle_run_def c m Let_def)
qed

theorem null_summary_ends_run_witness:
  "fst (cycle_run id (\<lambda>e. []) (demo_cycle_env JNull) demo_cycle 0) = Inl (raised AttributeError)"
  by (rule null_summary_ends_run [where fmt = verdict_text and S = DEFAULT_SUCCESS and v = "''iterate''"])
     (simp_all add: demo_cycle_env_def demo_cycle_def demo_audit_def DEFAULT_TERMINAL_def)

end
