(* ===== verification/Cycle_Builders.thy ===== *)
theory Cycle_Builders
  imports Write_Audit
begin

text \<open>
  Ready-made writers, auditors and selections for the write/audit cycle
  (\<open>components/cycle/builders.py\<close>) and the built-in round observers
  (\<open>components/cycle/observers_builtin.py\<close>).

  The bus is duck-typed in the source: its three operations are functions on a world.  \<open>loads\<close> is
  \<open>json.loads\<close> (\<open>Inl\<close> the text of the \<open>JSONDecodeError\<close>), \<open>float_of\<close> reads a float literal, \<open>fmt\<close> is
  \<open>str\<close>, \<open>repr_of\<close> is \<open>repr\<close> of a value, \<open>err_text\<close> the message of an error.  A score is a real number
  or, for the default \<open>float("-inf")\<close>, \<open>None\<close>.  Calls that \<open>asyncio.gather\<close> runs side by side are given
  by the list of their outcomes, in call order.
\<close>

section \<open>Reading JSON out of a reply\<close>

definition extract_fenced_json :: "string \<Rightarrow> string option" where
  "extract_fenced_json raw =
     (case split_first ''```json'' raw of
        None \<Rightarrow> None
      | Some (_, rest) \<Rightarrow> (case split_first ''```'' rest of None \<Rightarrow> None | Some (body, _) \<Rightarrow> Some (str_strip body)))"

definition need_dict :: "string \<Rightarrow> json \<Rightarrow> string + jdict" where
  "need_dict msg v = (case v of JDict d \<Rightarrow> Inr d | _ \<Rightarrow> Inl msg)"

definition load_dict :: "(string \<Rightarrow> string + json) \<Rightarrow> string \<Rightarrow> string \<Rightarrow> string \<Rightarrow> string + jdict" where
  "load_dict loads failed not_object s =
     (case loads s of Inl e \<Rightarrow> Inl (failed @ e) | Inr v \<Rightarrow> need_dict not_object v)"

text \<open>The widest \<open>{...}\<close> substring: from the first opening to the last closing brace.\<close>

definition widest_braces :: "string \<Rightarrow> string option" where
  "widest_braces raw =
     (let body = dropWhile (\<lambda>c. c \<noteq> CHR ''{'') raw;
          braced = rev (dropWhile (\<lambda>c. c \<noteq> CHR ''}'') (rev body))
      in if body = [] \<or> braced = [] then None else Some braced)"

definition try_parse_json :: "(string \<Rightarrow> string + json) \<Rightarrow> string \<Rightarrow> string + jdict" where
  "try_parse_json loads raw =
     (if raw = [] then Inl ''empty response''
      else case extract_fenced_json raw of
        Some fenced \<Rightarrow> load_dict loads ''fenced block did not parse: '' ''fenced JSON was not an object'' fenced
      | None \<Rightarrow>
          (case widest_braces raw of
             None \<Rightarrow> Inl ''no JSON object found''
           | Some braced \<Rightarrow> load_dict loads ''bare JSON did not parse: '' ''JSON was not an object'' braced))"

section \<open>Audit reports from a reply\<close>

definition failed_report :: "string \<Rightarrow> AuditFinding \<Rightarrow> string \<Rightarrow> string \<Rightarrow> real \<Rightarrow> jdict \<Rightarrow> AuditReport" where
  "failed_report verdict finding summary raw confidence metadata =
     \<lparr>ad_verdict = JStr verdict, ad_findings = [finding], ad_summary = JStr summary, ad_confidence = confidence,
      ad_raw_text = JStr raw, ad_metadata = metadata\<rparr>"

text \<open>\<open>{**d, **e}\<close>\<close>

definition merge_dicts :: "jdict \<Rightarrow> jdict \<Rightarrow> jdict" where
  "merge_dicts d e = fold (\<lambda>(k, v) m. AList.update k v m) e d"

definition runtime_error_audit :: "string \<Rightarrow> AuditReport" where
  "runtime_error_audit message =
     failed_report ''iterate''
       ((new_finding ''auditor_runtime_error'' ''error'' (take 200 message))
         \<lparr>af_detailed_message := JStr message,
          af_suggested_action := JStr ''Inspect AgentBus / session state. The cycle treats this as iterate so it can retry on the next round.''\<rparr>)
       (''Auditor session did not return a result: '' @ message) [] 1
       [(''synthetic'', JBool True), (''reason'', JStr ''auditor_runtime_error'')]"

definition parse_failure_audit :: "string \<Rightarrow> string \<Rightarrow> jdict \<Rightarrow> AuditReport" where
  "parse_failure_audit raw parse_error metadata =
     failed_report ''iterate''
       ((new_finding ''auditor_parse_failure'' ''error'' ''Auditor did not emit parseable AuditReport JSON'')
         \<lparr>af_detailed_message := JStr (if parse_error = [] then ''no json found in response'' else parse_error),
          af_suggested_action := JStr ''Inspect auditor's system prompt - it must instruct the LLM to emit structured AuditReport JSON.''\<rparr>)
       ''The auditor's response did not contain parseable JSON. Treating verdict as iterate so the cycle can retry.'' raw 1
       (merge_dicts [(''synthetic'', JBool True), (''reason'', JStr ''auditor_parse_failure'')] metadata)"

definition schema_mismatch_audit :: "string \<Rightarrow> string \<Rightarrow> jdict \<Rightarrow> AuditReport" where
  "schema_mismatch_audit raw exc metadata =
     failed_report ''iterate''
       ((new_finding ''auditor_schema_mismatch'' ''error'' (take 200 (''Auditor JSON did not match AuditReport schema: '' @ exc)))
         \<lparr>af_detailed_message := JStr exc\<rparr>)
       ''The auditor's JSON parsed but did not match the AuditReport schema. Treating as iterate.'' raw 1
       (merge_dicts [(''synthetic'', JBool True), (''reason'', JStr ''auditor_schema_mismatch'')] metadata)"

definition parse_audit_report ::
  "(string \<Rightarrow> string + json) \<Rightarrow> (string \<Rightarrow> real option) \<Rightarrow> (py_error \<Rightarrow> string) \<Rightarrow> string \<Rightarrow> jdict \<Rightarrow> AuditReport" where
  "parse_audit_report loads float_of err_text raw metadata =
     (case try_parse_json loads raw of
        Inl parse_error \<Rightarrow> parse_failure_audit raw parse_error metadata
      | Inr data \<Rightarrow>
          (case report_from_dict float_of data of
             Inl e \<Rightarrow> schema_mismatch_audit raw (err_text e) metadata
           | Inr report \<Rightarrow> report\<lparr>ad_raw_text := JStr raw, ad_metadata := merge_dicts (ad_metadata report) metadata\<rparr>))"

section \<open>Scores\<close>

fun as_number :: "(string \<Rightarrow> real option) \<Rightarrow> json \<Rightarrow> real option" where
  "as_number float_of (JInt i) = Some (of_int i)"
| "as_number float_of (JFloat r) = Some r"
| "as_number float_of (JStr s) = float_of (str_strip s)"
| "as_number float_of _ = None"

fun extract_first_number :: "(string \<Rightarrow> real option) \<Rightarrow> jdict \<Rightarrow> string list \<Rightarrow> real option" where
  "extract_first_number float_of data [] = None"
| "extract_first_number float_of data (k # ks) =
     (case map_of data k of
        None \<Rightarrow> extract_first_number float_of data ks
      | Some v \<Rightarrow> (case as_number float_of v of None \<Rightarrow> extract_first_number float_of data ks | Some r \<Rightarrow> Some r))"

fun extract_first_str :: "jdict \<Rightarrow> string list \<Rightarrow> string option" where
  "extract_first_str data [] = None"
| "extract_first_str data (k # ks) =
     (case map_of data k of
        Some (JStr s) \<Rightarrow> if str_strip s \<noteq> [] then Some s else extract_first_str data ks
      | _ \<Rightarrow> extract_first_str data ks)"

definition confidence_from_score :: "real \<Rightarrow> (real \<times> real) option \<Rightarrow> real" where
  "confidence_from_score score range_opt =
     (case range_opt of
        None \<Rightarrow> 0
      | Some (lo, hi) \<Rightarrow>
          if hi \<le> lo then 0
          else let raw = (score - lo) / (hi - lo) in if raw < 0 then 0 else if raw > 1 then 1 else raw)"

record score_rule =
  sr_pass_threshold :: json
  sr_pass_verdict :: string
  sr_fail_verdict :: string
  sr_score_keys :: "string list"
  sr_feedback_keys :: "string list"
  sr_score_range :: "(real \<times> real) option"

text \<open>The value of a threshold, an \<open>int\<close> or a \<open>float\<close>.\<close>

fun threshold_value :: "json \<Rightarrow> real" where
  "threshold_value (JInt i) = of_int i"
| "threshold_value (JFloat r) = r"
| "threshold_value _ = 0"

definition grade_line :: "(json \<Rightarrow> string) \<Rightarrow> score_rule \<Rightarrow> real \<Rightarrow> bool \<Rightarrow> string" where
  "grade_line fmt rule score passed =
     ''Grader score: '' @ fmt (JFloat score) @ '' (threshold '' @ fmt (sr_pass_threshold rule) @ '', '' @ (if passed then ''pass'' else ''fail'') @ '')''"

definition graded_report :: "(json \<Rightarrow> string) \<Rightarrow> score_rule \<Rightarrow> string \<Rightarrow> jdict \<Rightarrow> jdict \<Rightarrow> real \<Rightarrow> string \<Rightarrow> AuditReport" where
  "graded_report fmt rule raw meta_base data score feedback =
     (let passed = (threshold_value (sr_pass_threshold rule) \<le> score);
          line = grade_line fmt rule score passed;
          finding = (new_finding ''grade'' (if passed then ''info'' else ''warning'') line)
            \<lparr>af_detailed_message := JStr feedback,
             af_suggested_action := JStr (if passed then [] else ''Revise the artifact to address the grader's feedback and re-submit on the next round.''),
             af_metadata := [(''score'', JFloat score), (''passed'', JBool passed)]\<rparr>
      in \<lparr>ad_verdict = JStr (if passed then sr_pass_verdict rule else sr_fail_verdict rule), ad_findings = [finding],
          ad_summary = JStr (if feedback \<noteq> [] then line @ [CHR 0x0A, CHR 0x0A] @ feedback else line),
          ad_confidence = confidence_from_score score (sr_score_range rule), ad_raw_text = JStr raw,
          ad_metadata = merge_dicts meta_base
            [(''score'', JFloat score), (''feedback'', JStr feedback), (''passed'', JBool passed),
             (''pass_threshold'', sr_pass_threshold rule), (''grader_data'', JDict data)]\<rparr>)"

definition parse_score_response ::
  "(string \<Rightarrow> string + json) \<Rightarrow> (string \<Rightarrow> real option) \<Rightarrow> (json \<Rightarrow> string) \<Rightarrow> (json \<Rightarrow> string) \<Rightarrow> (string list \<Rightarrow> string) \<Rightarrow>
   score_rule \<Rightarrow> string \<Rightarrow> jdict \<Rightarrow> AuditReport" where
  "parse_score_response loads float_of fmt repr_of repr_keys rule raw meta_base =
     (case try_parse_json loads raw of
        Inl parse_error \<Rightarrow>
          failed_report (sr_fail_verdict rule)
            ((new_finding ''grader_parse_failure'' ''error'' ''Grader did not emit parseable JSON'')
              \<lparr>af_detailed_message := JStr (if parse_error = [] then ''no JSON found'' else parse_error),
               af_suggested_action := JStr ''Inspect grader system prompt - it must instruct the LLM to emit a JSON object with the score and feedback keys.''\<rparr>)
            (''The grader's response did not contain parseable JSON. Treating verdict as '' @ repr_of (JStr (sr_fail_verdict rule)) @ ''.'') raw 0
            (merge_dicts meta_base [(''synthetic'', JBool True), (''reason'', JStr ''grader_parse_failure'')])
      | Inr data \<Rightarrow>
          let feedback = (case extract_first_str data (sr_feedback_keys rule) of None \<Rightarrow> [] | Some s \<Rightarrow> s) in
          (case extract_first_number float_of data (sr_score_keys rule) of
             None \<Rightarrow>
               failed_report (sr_fail_verdict rule)
                 ((new_finding ''grader_score_missing'' ''error''
                    (''Grader JSON did not contain a numeric score under '' @ repr_keys (sr_score_keys rule)))
                   \<lparr>af_detailed_message := JStr (''Parsed JSON: '' @ repr_of (JDict data) @ ''. Expected one of '' @ repr_keys (sr_score_keys rule) @ '' to be a number.'')\<rparr>)
                 (if feedback \<noteq> [] then feedback else ''Grader returned JSON without a numeric score.'') raw 0
                 (merge_dicts meta_base [(''synthetic'', JBool True), (''reason'', JStr ''grader_score_missing''), (''grader_data'', JDict data)])
           | Some score \<Rightarrow> graded_report fmt rule raw meta_base data score feedback))"

section \<open>Selecting an attempt\<close>

type_synonym score = "real option"

fun score_less :: "score \<Rightarrow> score \<Rightarrow> bool" where
  "score_less None None = False"
| "score_less None (Some _) = True"
| "score_less (Some _) None = False"
| "score_less (Some a) (Some b) = (a < b)"

definition key_less :: "score \<times> nat \<Rightarrow> score \<times> nat \<Rightarrow> bool" where
  "key_less p q = (score_less (fst p) (fst q) \<or> fst p = fst q \<and> snd p < snd q)"

text \<open>\<open>max(xs, key=key)\<close>: the first element whose key no other exceeds.\<close>

fun max_key :: "('a \<Rightarrow> score \<times> nat) \<Rightarrow> 'a \<Rightarrow> 'a list \<Rightarrow> 'a" where
  "max_key key best [] = best"
| "max_key key best (x # xs) = max_key key (if key_less (key best) (key x) then x else best) xs"

definition attempt_score :: "(string \<Rightarrow> real option) \<Rightarrow> string \<Rightarrow> score \<Rightarrow> AuditReport \<Rightarrow> score" where
  "attempt_score float_of score_key default_score audit =
     (case map_of (ad_metadata audit) score_key of
        None \<Rightarrow> default_score
      | Some raw \<Rightarrow> (case float_value float_of raw of Inl _ \<Rightarrow> default_score | Inr r \<Rightarrow> Some r))"

definition select_best_attempt ::
  "(string \<Rightarrow> real option) \<Rightarrow> string \<Rightarrow> score \<Rightarrow> cycle_history \<Rightarrow> py_error + (nat \<times> WriterOutput \<times> AuditReport)" where
  "select_best_attempt float_of score_key default_score history =
     (case enumerate 0 history of
        [] \<Rightarrow> Inl ValueError
      | x # xs \<Rightarrow> Inr (max_key (\<lambda>(i, (w, a)). (attempt_score float_of score_key default_score a, i)) x xs))"

type_synonym bucket = "(nat \<times> string) list"

definition valid_answers :: "string \<Rightarrow> cycle_history \<Rightarrow> bucket" where
  "valid_answers answer_key history =
     List.map_filter (\<lambda>(i, (w, a)). case map_of (ad_metadata a) answer_key of
         Some (JStr ans) \<Rightarrow> if str_strip ans \<noteq> [] then Some (i, ans) else None
       | _ \<Rightarrow> None) (enumerate 0 history)"

text \<open>\<open>None\<close> is an equivalence check that raised.\<close>

fun place_answer ::
  "(string \<Rightarrow> string \<Rightarrow> 'w \<Rightarrow> bool option \<times> 'w) \<Rightarrow> nat \<times> string \<Rightarrow> bucket list \<Rightarrow> 'w \<Rightarrow> bucket list \<times> 'w" where
  "place_answer equivalence item [] w = ([[item]], w)"
| "place_answer equivalence item (b # bs) w =
     (if str_strip (snd (hd b)) = str_strip (snd item) then ((b @ [item]) # bs, w)
      else case equivalence (snd item) (snd (hd b)) w of
        (Some True, w') \<Rightarrow> ((b @ [item]) # bs, w')
      | (_, w') \<Rightarrow> (case place_answer equivalence item bs w' of (bs', w'') \<Rightarrow> (b # bs', w'')))"

fun fill_buckets ::
  "(string \<Rightarrow> string \<Rightarrow> 'w \<Rightarrow> bool option \<times> 'w) \<Rightarrow> bucket \<Rightarrow> bucket list \<Rightarrow> 'w \<Rightarrow> bucket list \<times> 'w" where
  "fill_buckets equivalence [] bs w = (bs, w)"
| "fill_buckets equivalence (item # items) bs w =
     (case place_answer equivalence item bs w of (bs', w') \<Rightarrow> fill_buckets equivalence items bs' w')"

fun score_sum :: "score list \<Rightarrow> score" where
  "score_sum [] = Some 0"
| "score_sum (s # ss) = (case (s, score_sum ss) of (Some a, Some b) \<Rightarrow> Some (a + b) | _ \<Rightarrow> None)"

definition bucket_key :: "(AuditReport \<Rightarrow> score) \<Rightarrow> cycle_history \<Rightarrow> bucket \<Rightarrow> score \<times> nat" where
  "bucket_key score_of history b = (score_sum (map (\<lambda>(i, _). score_of (snd (history ! i))) b), length b)"

definition select_by_answer_consensus ::
  "(string \<Rightarrow> real option) \<Rightarrow> (string \<Rightarrow> string \<Rightarrow> 'w \<Rightarrow> bool option \<times> 'w) \<Rightarrow> string \<Rightarrow> string \<Rightarrow> score \<Rightarrow> cycle_history \<Rightarrow> 'w \<Rightarrow>
   (py_error + (nat \<times> WriterOutput \<times> AuditReport)) \<times> 'w" where
  "select_by_answer_consensus float_of equivalence answer_key score_key default_score history w =
     (if history = [] then (Inl ValueError, w)
      else case fill_buckets equivalence (valid_answers answer_key history) [] w of
        ([], w') \<Rightarrow> (select_best_attempt float_of score_key default_score history, w')
      | (b # bs, w') \<Rightarrow>
          let winner = max_key (bucket_key (attempt_score float_of score_key default_score) history) b bs in
          (case select_best_attempt float_of score_key default_score (map (\<lambda>(i, _). history ! i) winner) of
             Inl e \<Rightarrow> (Inl e, w')
           | Inr (rel_idx, best_w, best_a) \<Rightarrow> (Inr (fst (winner ! rel_idx), best_w, best_a), w')))"

section \<open>Majority vote over judges\<close>

text \<open>\<open>Counter(xs).most_common(1)[0]\<close>: the most frequent element, the one met first among equals.\<close>

definition in_order :: "'a list \<Rightarrow> 'a list" where
  "in_order xs = rev (remdups (rev xs))"

fun most_frequent :: "'a list \<Rightarrow> 'a \<Rightarrow> 'a list \<Rightarrow> 'a" where
  "most_frequent xs best [] = best"
| "most_frequent xs best (k # ks) = most_frequent xs (if count_list xs best < count_list xs k then k else best) ks"

definition most_common :: "'a list \<Rightarrow> 'a \<times> nat" where
  "most_common xs =
     (let ks = in_order xs; best = most_frequent xs (hd ks) (tl ks) in (best, count_list xs best))"

text \<open>
  Python's dictionary keys: numbers and booleans of the same value are one key.  \<open>votes xs v\<close> counts
  the elements that share the key of \<open>v\<close>; the element met first stands for its key.
\<close>

fun hash_key :: "json \<Rightarrow> json" where
  "hash_key (JInt i) = JFloat (of_int i)"
| "hash_key (JBool b) = JFloat (if b then 1 else 0)"
| "hash_key v = v"

definition votes :: "json list \<Rightarrow> json \<Rightarrow> nat" where
  "votes xs v = count_list (map hash_key xs) (hash_key v)"

definition counter_top :: "json list \<Rightarrow> json \<times> nat" where
  "counter_top xs =
     (let key = fst (most_common (map hash_key xs)); v = hd (filter (\<lambda>x. hash_key x = key) xs) in (v, votes xs v))"

text \<open>\<open>statistics.median\<close>\<close>

definition median :: "real list \<Rightarrow> real" where
  "median xs =
     (let s = sort xs; n = length s in
      if odd n then s ! (n div 2) else (s ! (n div 2 - 1) + s ! (n div 2)) / 2)"

fun judge_score :: "json \<Rightarrow> real option" where
  "judge_score (JInt i) = Some (of_int i)"
| "judge_score (JFloat r) = Some r"
| "judge_score _ = None"

definition per_judge_scores :: "AuditReport list \<Rightarrow> real list" where
  "per_judge_scores valid = List.map_filter (\<lambda>r. judge_score (j_get (ad_metadata r) ''score'' JNull)) valid"

definition aggregate_score :: "(real list \<Rightarrow> real option) \<Rightarrow> real list \<Rightarrow> real option" where
  "aggregate_score aggregator scores =
     (if scores = [] then None
      else case aggregator scores of Some r \<Rightarrow> Some r | None \<Rightarrow> Some (median scores))"

definition number_or_null :: "real option \<Rightarrow> json" where
  "number_or_null s = (case s of None \<Rightarrow> JNull | Some r \<Rightarrow> JFloat r)"

text \<open>\<open>(metadata.get("feedback") or summary or "").strip()\<close>\<close>

definition judge_feedback :: "AuditReport \<Rightarrow> py_error + string" where
  "judge_feedback r =
     (let fb = j_get (ad_metadata r) ''feedback'' JNull in
      if j_truthy fb then j_strip fb else if j_truthy (ad_summary r) then j_strip (ad_summary r) else Inr [])"

definition str_rstrip :: "string \<Rightarrow> string" where
  "str_rstrip s = rev (dropWhile is_space (rev s))"

definition vote_summary :: "(json \<Rightarrow> string) \<Rightarrow> (json \<Rightarrow> string) \<Rightarrow> nat \<Rightarrow> nat \<Rightarrow> json \<Rightarrow> real option \<Rightarrow> real list \<Rightarrow> string list \<Rightarrow> string" where
  "vote_summary fmt repr_of n_valid n_votes verdict agg scores feedbacks =
     str_rstrip (str_join [CHR 0x0A]
       ([''Majority vote of '' @ str_of_nat n_valid @ ''/'' @ str_of_nat n_votes @ '' judges:'',
         ''  verdict='' @ repr_of verdict @ '' score='' @ fmt (number_or_null agg) @ '' (per-judge scores='' @ fmt (JList (map JFloat scores)) @ '')'',
         []]
        @ concat (map (\<lambda>(i, fb). [''=== Judge '' @ str_of_nat i @ '' ==='', if fb \<noteq> [] then fb else ''(no feedback)'', []]) (enumerate 1 feedbacks))))"

definition all_failed_report :: "nat \<Rightarrow> py_exception list \<Rightarrow> AuditReport" where
  "all_failed_report n_votes errors =
     failed_report ''iterate''
       ((new_finding ''majority_vote_failed'' ''error'' (''All '' @ str_of_nat n_votes @ '' base audits failed''))
         \<lparr>af_detailed_message := JStr (str_join ''; '' (map (\<lambda>e. exception_class e @ '': '' @ take 120 (exception_text e)) (take 5 errors))),
          af_suggested_action := JStr ''Inspect the base auditor - every parallel call raised. The cycle treats this as iterate so it can retry on the next round.''\<rparr>)
       (''Majority vote failed: all '' @ str_of_nat n_votes @ '' base auditors raised exceptions.'') [] 0
       [(''synthetic'', JBool True), (''reason'', JStr ''majority_vote_failed''), (''n_votes'', JInt (int n_votes)), (''n_succeeded'', JInt 0)]"

definition verdict_hashable :: "AuditReport \<Rightarrow> bool" where
  "verdict_hashable r = (\<not> raises (in_strings (ad_verdict r) {}))"

definition vote_report ::
  "(json \<Rightarrow> string) \<Rightarrow> (json \<Rightarrow> string) \<Rightarrow> (real list \<Rightarrow> real option) \<Rightarrow> nat \<Rightarrow> AuditReport list \<Rightarrow> nat \<Rightarrow> string list \<Rightarrow> (AuditReport \<Rightarrow> string) \<Rightarrow> AuditReport" where
  "vote_report fmt repr_of aggregator n_votes valid n_failed feedbacks raw_of =
     (let verdict = fst (counter_top (map ad_verdict valid));
          scores = per_judge_scores valid;
          agg = aggregate_score aggregator scores;
          summary = vote_summary fmt repr_of (length valid) n_votes verdict agg scores feedbacks;
          listed = [(''individual_scores'', JList (map JFloat scores)), (''individual_verdicts'', JList (map ad_verdict valid))];
          finding = (new_finding ''grade'' (case agg of Some s \<Rightarrow> if 6 \<le> s then ''info'' else ''warning'' | None \<Rightarrow> ''warning'')
              (''Majority vote score: '' @ fmt (number_or_null agg) @ '' ('' @ str_of_nat (length valid) @ ''/'' @ str_of_nat n_votes @ '' judges, verdict='' @ fmt verdict @ '')''))
            \<lparr>af_detailed_message := JStr summary, af_metadata := (''score'', number_or_null agg) # listed\<rparr>
      in \<lparr>ad_verdict = verdict, ad_findings = [finding], ad_summary = JStr summary,
          ad_confidence = real (length valid) / real n_votes,
          ad_raw_text = JStr (str_join ([CHR 0x0A, CHR 0x0A] @ ''=== JUDGE BREAK ==='' @ [CHR 0x0A, CHR 0x0A])
             (map raw_of (filter (\<lambda>r. j_truthy (ad_raw_text r)) valid))),
          ad_metadata = [(''score'', number_or_null agg), (''feedback'', JStr summary)] @ listed
            @ [(''n_votes'', JInt (int n_votes)), (''n_succeeded'', JInt (int (length valid))), (''n_failed'', JInt (int n_failed))]\<rparr>)"

text \<open>
  \<open>MajorityVoteAuditor.verify\<close> on the outcomes of its base calls: counting unhashable verdicts,
  a feedback that is no string, and joining raw texts that are no strings raise.
\<close>

fun raw_text_of :: "AuditReport \<Rightarrow> string" where
  "raw_text_of r = verdict_text (ad_raw_text r)"

definition majority_verify ::
  "(json \<Rightarrow> string) \<Rightarrow> (json \<Rightarrow> string) \<Rightarrow> (real list \<Rightarrow> real option) \<Rightarrow> (py_exception + AuditReport) list \<Rightarrow> py_error + AuditReport" where
  "majority_verify fmt repr_of aggregator results =
     (let valid = List.map_filter (\<lambda>r. case r of Inr a \<Rightarrow> Some a | Inl _ \<Rightarrow> None) results;
          errors = List.map_filter (\<lambda>r. case r of Inl e \<Rightarrow> Some e | Inr _ \<Rightarrow> None) results
      in if valid = [] then Inr (all_failed_report (length results) errors)
         else if \<exists>r\<in>set valid. \<not> verdict_hashable r then Inl TypeError
         else bind_result (map_results judge_feedback valid) (\<lambda>feedbacks.
           if \<exists>r\<in>set valid. j_truthy (ad_raw_text r) \<and> (\<forall>s. ad_raw_text r \<noteq> JStr s) then Inl TypeError
           else Inr (vote_report fmt repr_of aggregator (length results) valid (length errors) feedbacks raw_text_of)))"

section \<open>Built-in observers\<close>

text \<open>\<open>BestSoFarObserver.on_audit_done\<close>: the attempt the callback gets after each audit.\<close>

definition best_so_far :: "(string \<Rightarrow> real option) \<Rightarrow> cycle_history \<Rightarrow> WriterOutput \<Rightarrow> AuditReport \<Rightarrow>
  cycle_history \<times> (nat \<times> WriterOutput \<times> AuditReport) option" where
  "best_so_far float_of seen out audit =
     (let seen' = seen @ [(out, audit)] in
      (seen', case select_best_attempt float_of ''score'' None seen' of Inl _ \<Rightarrow> None | Inr best \<Rightarrow> Some best))"

record PlateauAbortObserver =
  pa_plateau :: nat
  pa_min_rounds :: int
  pa_scores :: "real list"

definition init_PlateauAbortObserver :: "int \<Rightarrow> int option \<Rightarrow> py_error + PlateauAbortObserver" where
  "init_PlateauAbortObserver plateau_rounds min_rounds =
     (if plateau_rounds < 1 then Inl ValueError
      else Inr \<lparr>pa_plateau = nat plateau_rounds,
                pa_min_rounds = (case min_rounds of None \<Rightarrow> plateau_rounds | Some m \<Rightarrow> m), pa_scores = []\<rparr>)"

text \<open>\<open>isinstance(score, (int, float))\<close>, which a \<open>bool\<close> passes too.\<close>

fun plateau_score :: "json \<Rightarrow> real option" where
  "plateau_score (JInt i) = Some (of_int i)"
| "plateau_score (JFloat r) = Some r"
| "plateau_score (JBool b) = Some (if b then 1 else 0)"
| "plateau_score _ = None"

definition plateaued :: "nat \<Rightarrow> real list \<Rightarrow> bool" where
  "plateaued k scores =
     (k + 1 \<le> length scores \<and> Max (set (drop (length scores - k) scores)) \<le> Max (set (take (length scores - k) scores)))"

definition plateau_on_audit_done :: "AuditReport \<Rightarrow> PlateauAbortObserver \<Rightarrow> RoundIntervention option \<times> PlateauAbortObserver" where
  "plateau_on_audit_done audit obs =
     (case plateau_score (j_get (ad_metadata audit) ''score'' JNull) of
        None \<Rightarrow> (None, obs)
      | Some s \<Rightarrow>
          let obs' = obs\<lparr>pa_scores := pa_scores obs @ [s]\<rparr> in
          if int (length (pa_scores obs')) < pa_min_rounds obs then (None, obs')
          else if plateaued (pa_plateau obs) (pa_scores obs') then (Some ABORT, obs')
          else (None, obs'))"

record cycle_metrics =
  mt_round :: nat
  mt_duration_seconds :: real
  mt_score :: "real option"
  mt_verdict :: json
  mt_writer_chars :: nat
  mt_audit_findings :: nat

definition metrics_round_start :: "nat \<Rightarrow> real \<Rightarrow> (nat \<times> real) list \<Rightarrow> (nat \<times> real) list" where
  "metrics_round_start n now starts = AList.update n now starts"

text \<open>The content is measured with \<open>len\<close>; a content that has none raises, which the cycle swallows.\<close>

fun j_len :: "json \<Rightarrow> py_error + nat" where
  "j_len (JStr s) = Inr (length s)"
| "j_len (JList vs) = Inr (length vs)"
| "j_len (JDict d) = Inr (length d)"
| "j_len _ = Inl TypeError"

definition metrics_audit_done ::
  "nat \<Rightarrow> WriterOutput \<Rightarrow> AuditReport \<Rightarrow> real \<Rightarrow> real \<Rightarrow> (nat \<times> real) list \<Rightarrow> (py_error + cycle_metrics) \<times> (nat \<times> real) list" where
  "metrics_audit_done n out audit t_default now starts =
     (let begun = (case map_of starts n of None \<Rightarrow> t_default | Some t \<Rightarrow> t) in
      (case j_len (wo_content out) of
         Inr chars \<Rightarrow> Inr \<lparr>mt_round = n, mt_duration_seconds = now - begun,
            mt_score = plateau_score (j_get (ad_metadata audit) ''score'' JNull), mt_verdict = ad_verdict audit,
            mt_writer_chars = chars, mt_audit_findings = length (ad_findings audit)\<rparr>
       | Inl e \<Rightarrow> Inl e, AList.delete n starts))"

section \<open>Lemmas\<close>

lemma merge_dicts_map: "map_of (merge_dicts d e) = map_of d ++ map_of (rev e)"
proof (induction e arbitrary: d)
  case (Cons p e)
  then show ?case by (cases p) (auto simp: merge_dicts_def update_conv' map_add_def fun_eq_iff split: option.splits)
qed (simp add: merge_dicts_def)

lemma confidence_bounds: "0 \<le> confidence_from_score s r" "confidence_from_score s r \<le> 1"
  by (auto simp: confidence_from_score_def Let_def split: option.splits prod.splits)

lemma score_less_trans: "score_less a b \<Longrightarrow> score_less b c \<Longrightarrow> score_less a c"
  by (cases a; cases b; cases c) auto

lemma score_linear: "score_less a b \<or> a = b \<or> score_less b a"
  by (cases a; cases b) auto

lemma score_irrefl [simp]: "\<not> score_less a a"
  by (cases a) auto

lemma key_less_trans: "key_less a b \<Longrightarrow> key_less b c \<Longrightarrow> key_less a c"
  by (auto simp: key_less_def dest: score_less_trans)

lemma key_not_less: "\<not> key_less a b \<Longrightarrow> a = b \<or> key_less b a"
  using score_linear [of "fst a" "fst b"] by (cases a; cases b) (auto simp: key_less_def)

lemma key_irrefl [simp]: "\<not> key_less a a"
  by (simp add: key_less_def)

lemma max_key_mem: "max_key key b xs \<in> insert b (set xs)"
proof (induction xs arbitrary: b)
  case (Cons y ys)
  show ?case using Cons.IH [of y] Cons.IH [of b] by auto
qed simp

lemma max_key_top: "\<not> key_less (key (max_key key b xs)) (key b)"
proof (induction xs arbitrary: b)
  case (Cons y ys)
  show ?case using Cons.IH [of b] Cons.IH [of y] key_less_trans [of "key (max_key key y ys)" "key b" "key y"] by auto
qed simp

lemma max_key_max: "x \<in> insert b (set xs) \<Longrightarrow> \<not> key_less (key (max_key key b xs)) (key x)"
proof (induction xs arbitrary: b)
  case (Cons y ys)
  let ?c = "if key_less (key b) (key y) then y else b"
  have "\<not> key_less (key (max_key key ?c ys)) (key x)"
  proof (cases "x = b \<or> x = y")
    case True
    then have "key x = key ?c \<or> key_less (key x) (key ?c)"
      using key_not_less [of "key b" "key y"] by auto
    then show ?thesis using max_key_top [of key ?c ys] key_less_trans by metis
  next
    case False
    then show ?thesis using Cons by auto
  qed
  then show ?case by simp
qed simp

lemma in_order_set [simp]: "set (in_order xs) = set xs"
  by (simp add: in_order_def)

lemma most_frequent_mem: "most_frequent xs b ks \<in> insert b (set ks)"
proof (induction ks arbitrary: b)
  case (Cons y ys)
  show ?case using Cons.IH [of y] Cons.IH [of b] by auto
qed simp

lemma most_frequent_top: "count_list xs b \<le> count_list xs (most_frequent xs b ks)"
proof (induction ks arbitrary: b)
  case (Cons y ys)
  show ?case using Cons.IH [of y] Cons.IH [of b] by auto
qed simp

lemma most_frequent_max: "k \<in> insert b (set ks) \<Longrightarrow> count_list xs k \<le> count_list xs (most_frequent xs b ks)"
proof (induction ks arbitrary: b)
  case (Cons y ys)
  show ?case
  proof (cases "k \<in> set ys")
    case True
    then show ?thesis using Cons.IH by simp
  next
    case False
    then have "k = b \<or> k = y" using Cons.prems by auto
    then show ?thesis using most_frequent_top [of xs b ys] most_frequent_top [of xs y ys] by auto
  qed
qed simp

lemma most_common_spec:
  assumes "xs \<noteq> []"
  shows "fst (most_common xs) \<in> set xs" "snd (most_common xs) = count_list xs (fst (most_common xs))"
    "count_list xs k \<le> snd (most_common xs)"
proof -
  have ne: "in_order xs \<noteq> []" using assms in_order_set [of xs] by (metis set_empty)
  then have s: "insert (hd (in_order xs)) (set (tl (in_order xs))) = set xs"
    by (metis in_order_set list.collapse list.simps(15))
  show "fst (most_common xs) \<in> set xs"
    using most_frequent_mem [of xs "hd (in_order xs)" "tl (in_order xs)"] s by (simp add: most_common_def Let_def)
  show "snd (most_common xs) = count_list xs (fst (most_common xs))" by (simp add: most_common_def Let_def)
  show "count_list xs k \<le> snd (most_common xs)"
  proof (cases "k \<in> set xs")
    case True
    then show ?thesis using most_frequent_max [of k "hd (in_order xs)" "tl (in_order xs)" xs] s
      by (simp add: most_common_def Let_def)
  next
    case False
    then have "count_list xs k = 0" by (simp add: count_list_0_iff)
    then show ?thesis by simp
  qed
qed

lemma split_first_at:
  assumes "\<not> sublist sep (pre @ butlast sep)" "sep \<noteq> []"
  shows "split_first sep (pre @ sep @ post) = Some (pre, post)"
  using assms(1)
proof (induction pre)
  case Nil
  obtain c cs where "sep = c # cs" using assms(2) by (cases sep) auto
  then show ?case by simp
next
  case (Cons c pre)
  have "\<not> prefix sep ((c # pre) @ sep @ post)"
  proof
    let ?l = "(c # pre) @ butlast sep"
    have "sep = butlast sep @ [last sep]" using assms(2) by simp
    then have "(c # pre) @ sep @ post = ?l @ last sep # post" by (metis append.assoc append_Cons append_Nil)
    moreover assume "prefix sep ((c # pre) @ sep @ post)"
    ultimately have p: "prefix sep (?l @ last sep # post)" by (simp only:)
    have "length sep \<le> length ?l" using assms(2) by (cases sep) simp_all
    then have "prefix sep ?l" using prefix_length_prefix [OF p, of ?l] by simp
    with Cons.prems show False by (simp add: prefix_imp_sublist)
  qed
  moreover have "\<not> sublist sep (pre @ butlast sep)" using Cons.prems by (simp add: sublist_Cons_right)
  ultimately show ?case using Cons.IH by simp
qed

text \<open>Filling the buckets loses no answer and keeps every bucket inhabited.\<close>

lemma place_answer_mset:
  "place_answer eq item bs w = (bs', w') \<Longrightarrow> mset (concat bs') = add_mset item (mset (concat bs))"
  "place_answer eq item bs w = (bs', w') \<Longrightarrow> [] \<notin> set bs \<Longrightarrow> bs' \<noteq> [] \<and> [] \<notin> set bs'"
proof (induction eq item bs w arbitrary: bs' w' rule: place_answer.induct)
  case (2 eq item b bs w)
  { case 1 then show ?case using 2 by (fastforce split: if_splits prod.splits option.splits bool.splits) }
  { case 2 then show ?case using "2.IH" by (fastforce split: if_splits prod.splits option.splits bool.splits) }
qed auto

lemma fill_buckets_mset:
  assumes "fill_buckets eq items bs w = (bs', w')"
  shows "mset (concat bs') = mset items + mset (concat bs)" "[] \<notin> set bs \<Longrightarrow> [] \<notin> set bs'"
  using assms
proof (induction items arbitrary: bs w)
  case (Cons item items)
  { case (1 bs w)
    obtain bs1 w1 where p: "place_answer eq item bs w = (bs1, w1)" by fastforce
    from 1 have "fill_buckets eq items bs1 w1 = (bs', w')" by (simp add: p)
    then show ?case using Cons.IH(1) place_answer_mset(1) [OF p] by fastforce }
  { case (2 bs w)
    obtain bs1 w1 where p: "place_answer eq item bs w = (bs1, w1)" by fastforce
    from 2 have "fill_buckets eq items bs1 w1 = (bs', w')" by (simp add: p)
    then show ?case using Cons.IH(2) place_answer_mset(2) [OF p] 2 by blast }
qed auto

lemma valid_answers_index: "(i, ans) \<in> set (valid_answers key h) \<Longrightarrow> i < length h"
  unfolding valid_answers_def map_filter_def
  by (auto simp: in_set_enumerate_eq split: option.splits json.splits if_splits)

lemma counter_top_spec:
  assumes "xs \<noteq> []"
  shows "fst (counter_top xs) \<in> set xs" "snd (counter_top xs) = votes xs (fst (counter_top xs))" "votes xs v \<le> snd (counter_top xs)"
proof -
  let ?k = "fst (most_common (map hash_key xs))"
  have ne: "map hash_key xs \<noteq> []" using assms by simp
  note M = most_common_spec [OF ne]
  have "filter (\<lambda>x. hash_key x = ?k) xs \<noteq> []" using M(1) by (auto simp: filter_empty_conv)
  then have "hd (filter (\<lambda>x. hash_key x = ?k) xs) \<in> set (filter (\<lambda>x. hash_key x = ?k) xs)" by (rule hd_in_set)
  then have v: "fst (counter_top xs) \<in> set xs" "hash_key (fst (counter_top xs)) = ?k" by (simp_all add: counter_top_def Let_def)
  show "fst (counter_top xs) \<in> set xs" using v(1) .
  show s: "snd (counter_top xs) = votes xs (fst (counter_top xs))" by (simp add: counter_top_def Let_def)
  show "votes xs v \<le> snd (counter_top xs)" unfolding s votes_def v(2) using M(3) [of "hash_key v"] M(2) by simp
qed

section \<open>Properties\<close>

lemma select_best_total:
  assumes "h \<noteq> []" shows "\<exists>i w a. select_best_attempt float_of key d h = Inr (i, w, a)"
  using assms by (cases h) (auto simp: select_best_attempt_def split: prod.split intro: prod_cases3)

lemma select_best_key:
  assumes "select_best_attempt float_of key d h = Inr (i, w, a)"
  shows "i < length h" "h ! i = (w, a)"
    "j < length h \<Longrightarrow> \<not> key_less (attempt_score float_of key d a, i) (attempt_score float_of key d (snd (h ! j)), j)"
proof -
  let ?k = "\<lambda>(i, (w, a)). (attempt_score float_of key d a, i)"
  obtain x xs where e: "enumerate 0 h = x # xs" "(i, w, a) = max_key ?k x xs"
    using assms by (auto simp: select_best_attempt_def split: list.splits)
  have "(i, w, a) \<in> set (enumerate 0 h)" using max_key_mem [of ?k x xs] e by simp
  then show "i < length h" "h ! i = (w, a)" by (auto simp: in_set_enumerate_eq)
  assume "j < length h"
  then have "(j, h ! j) \<in> set (enumerate 0 h)" by (simp add: in_set_enumerate_eq)
  then have "\<not> key_less (?k (i, w, a)) (?k (j, h ! j))" using max_key_max [of "(j, h ! j)" x xs ?k] e by simp
  then show "\<not> key_less (attempt_score float_of key d a, i) (attempt_score float_of key d (snd (h ! j)), j)"
    by (simp add: case_prod_beta)
qed

text \<open>
  The selected attempt is the best one: no attempt has a higher score, and no later one an equal one.
\<close>

theorem select_best_latest:
  assumes "select_best_attempt float_of key d h = Inr (i, w, a)" and "j < length h"
  defines "score \<equiv> \<lambda>n. attempt_score float_of key d (snd (h ! n))"
  shows "i < length h \<and> h ! i = (w, a) \<and> \<not> score_less (score i) (score j) \<and> (score j = score i \<longrightarrow> j \<le> i)"
  using select_best_key(1,2) [OF assms(1)] select_best_key(3) [OF assms(1,2)] by (auto simp: key_less_def score_def)

text \<open>Three attempts, graded 5, 7 and 7, the first two of them with an answer.\<close>

definition demo_attempt :: "real \<Rightarrow> string \<Rightarrow> WriterOutput \<times> AuditReport" where
  "demo_attempt score answer =
     (new_writer_output [], (demo_audit ''iterate'' (JStr []))\<lparr>ad_metadata := [(''score'', JFloat score), (''answer'', JStr answer)]\<rparr>)"

theorem select_best_latest_witness:
  "\<exists>i w a. select_best_attempt (\<lambda>s. None) ''score'' None [demo_attempt 5 ''x'', demo_attempt 7 ''y'', demo_attempt 7 []] = Inr (i, w, a) \<and> 1 \<le> i"
proof -
  let ?h = "[demo_attempt 5 ''x'', demo_attempt 7 ''y'', demo_attempt 7 []]"
  obtain i w a where s: "select_best_attempt (\<lambda>s. None) ''score'' None ?h = Inr (i, w, a)"
    using select_best_total [of ?h] by blast
  have "i = 0 \<Longrightarrow> False" using select_best_latest [OF s, of 1]
    by (simp add: demo_attempt_def attempt_score_def)
  then show ?thesis using s by (metis One_nat_def Suc_leI not_gr_zero)
qed

definition reply_score :: "(string \<Rightarrow> string + json) \<Rightarrow> (string \<Rightarrow> real option) \<Rightarrow> score_rule \<Rightarrow> string \<Rightarrow> score" where
  "reply_score loads float_of rule raw =
     (case try_parse_json loads raw of Inl _ \<Rightarrow> None | Inr data \<Rightarrow> extract_first_number float_of data (sr_score_keys rule))"

text \<open>
  The grade that a grader's reply carries is the grade the selection sees: if the caller's metadata have
  no score of their own, the score of the report built from the reply is the number found in its JSON,
  and none if there is none; the verdict passes exactly when that number reaches the threshold, and
  the confidence lies between 0 and 1.
\<close>

theorem graded_score_kept:
  assumes "map_of meta ''score'' = None"
  shows "attempt_score float_of ''score'' None (parse_score_response loads float_of fmt repr_of repr_keys rule raw meta) = reply_score loads float_of rule raw
    \<and> ad_verdict (parse_score_response loads float_of fmt repr_of repr_keys rule raw meta) =
        JStr (case reply_score loads float_of rule raw of None \<Rightarrow> sr_fail_verdict rule
              | Some s \<Rightarrow> if threshold_value (sr_pass_threshold rule) \<le> s then sr_pass_verdict rule else sr_fail_verdict rule)
    \<and> 0 \<le> ad_confidence (parse_score_response loads float_of fmt repr_of repr_keys rule raw meta)
    \<and> ad_confidence (parse_score_response loads float_of fmt repr_of repr_keys rule raw meta) \<le> 1"
proof (cases "try_parse_json loads raw")
  case (Inl e)
  then show ?thesis using assms(1)
    by (simp add: reply_score_def parse_score_response_def failed_report_def attempt_score_def merge_dicts_map map_add_def)
next
  case (Inr data)
  then show ?thesis using assms(1) confidence_bounds
    by (auto simp: reply_score_def parse_score_response_def failed_report_def graded_report_def attempt_score_def merge_dicts_map map_add_def Let_def
        split: option.split)
qed

lemma score_sum_unscored: "None \<in> set ss \<Longrightarrow> score_sum ss = None"
  by (induction ss) (auto split: option.splits)

definition demo_rule :: score_rule where
  "demo_rule = \<lparr>sr_pass_threshold = JInt 6, sr_pass_verdict = ''success'', sr_fail_verdict = ''iterate'', sr_score_keys = [''score'', ''points''],
     sr_feedback_keys = [''feedback''], sr_score_range = Some (0, 7)\<rparr>"

theorem graded_score_kept_witness:
  "ad_verdict (parse_score_response (\<lambda>s. Inr (JDict [(''points'', JInt 6)])) (\<lambda>s. None) verdict_text verdict_text concat demo_rule ''{}'' []) = JStr ''success''"
proof -
  let ?l = "\<lambda>s. Inr (JDict [(''points'', JInt 6)])"
  have "reply_score ?l (\<lambda>s. None) demo_rule ''{}'' = Some 6"
    by (simp add: reply_score_def try_parse_json_def extract_fenced_json_def widest_braces_def load_dict_def need_dict_def demo_rule_def)
  then show ?thesis
    using graded_score_kept [where meta = "[]" and loads = ?l and float_of = "\<lambda>s. None" and rule = demo_rule and raw = "''{}''"] by (simp add: demo_rule_def)
qed

text \<open>
  The consensus selection: the attempts with an answer are split into buckets, each in exactly one; the
  selected attempt stems from a bucket that no other exceeds in total score and, at equal totals, in
  size, and no attempt of its bucket scores higher.
\<close>

theorem consensus_selects:
  assumes "select_by_answer_consensus float_of eq akey skey d h w = (res, w')" and "valid_answers akey h \<noteq> []"
  shows "\<exists>i out a bs b. res = Inr (i, out, a) \<and> i < length h \<and> h ! i = (out, a)
    \<and> mset (concat bs) = mset (valid_answers akey h) \<and> b \<in> set bs \<and> i \<in> fst ` set b
    \<and> (\<forall>c\<in>set bs. \<not> key_less (bucket_key (attempt_score float_of skey d) h b) (bucket_key (attempt_score float_of skey d) h c))
    \<and> (\<forall>j\<in>fst ` set b. \<not> score_less (attempt_score float_of skey d a) (attempt_score float_of skey d (snd (h ! j))))"
proof -
  have h: "h \<noteq> []" using assms(2) by (auto simp: valid_answers_def map_filter_def)
  obtain bs v where f: "fill_buckets eq (valid_answers akey h) [] w = (bs, v)" by fastforce
  have bs: "mset (concat bs) = mset (valid_answers akey h)" "[] \<notin> set bs" using fill_buckets_mset [OF f] by auto
  then have "bs \<noteq> []" using assms(2) by auto
  then obtain b0 bs0 where b0: "bs = b0 # bs0" by (cases bs) auto
  let ?k = "bucket_key (attempt_score float_of skey d) h"
  define b where "b = max_key ?k b0 bs0"
  have b: "b \<in> set bs" "\<forall>c\<in>set bs. \<not> key_less (?k b) (?k c)"
    using max_key_mem [of ?k b0 bs0] max_key_max [of _ b0 bs0 ?k] by (auto simp: b_def b0)
  let ?hb = "map (\<lambda>(i, _). h ! i) b"
  have "?hb \<noteq> []" using b(1) bs(2) by auto
  then obtain r out a where s: "select_best_attempt float_of skey d ?hb = Inr (r, out, a)" using select_best_total by blast
  note S = select_best_key [OF s]
  have r: "r < length b" "h ! fst (b ! r) = (out, a)" using S(1,2) by (auto simp: case_prod_beta)
  have i: "fst (b ! r) \<in> fst ` set b" using r(1) by simp
  have "set b \<subseteq> set (valid_answers akey h)" using b(1) bs(1) by (metis UN_upper mset_eq_setD set_concat)
  then have "fst (b ! r) < length h" using r(1) valid_answers_index by (metis nth_mem prod.collapse subsetD)
  moreover have "\<forall>j\<in>fst ` set b. \<not> score_less (attempt_score float_of skey d a) (attempt_score float_of skey d (snd (h ! j)))"
  proof
    fix j assume "j \<in> fst ` set b"
    then obtain m where "m < length b" "j = fst (b ! m)" by (metis imageE in_set_conv_nth)
    with S(3) [of m] show "\<not> score_less (attempt_score float_of skey d a) (attempt_score float_of skey d (snd (h ! j)))"
      by (auto simp: case_prod_beta key_less_def)
  qed
  moreover have "res = Inr (fst (b ! r), out, a)"
    using assms(1) h by (simp add: select_by_answer_consensus_def f b0 b_def [symmetric] s Let_def)
  ultimately show ?thesis using bs(1) b i r(2) by blast
qed

theorem consensus_selects_witness:
  "\<exists>i out a. fst (select_by_answer_consensus (\<lambda>s. None) (\<lambda>a b w. (None, w)) ''answer'' ''score'' None
      [demo_attempt 5 ''x'', demo_attempt 7 ''y''] ()) = Inr (i, out, a) \<and> i < 2"
proof -
  let ?h = "[demo_attempt 5 ''x'', demo_attempt 7 ''y'']"
  have "valid_answers ''answer'' ?h \<noteq> []"
    by (simp add: valid_answers_def demo_attempt_def map_filter_simps str_strip_def is_space_def)
  from consensus_selects [OF prod.collapse [symmetric] this, of "\<lambda>s. None" "\<lambda>a b w. (None, w)" "''score''" None "()"]
  show ?thesis by fastforce
qed

definition plain_judge :: "AuditReport \<Rightarrow> bool" where
  "plain_judge r = (verdict_hashable r \<and> \<not> raises (judge_feedback r) \<and> (\<exists>s. ad_raw_text r = JStr s))"

definition answered :: "(py_exception + AuditReport) list \<Rightarrow> AuditReport list" where
  "answered results = List.map_filter (\<lambda>r. case r of Inr a \<Rightarrow> Some a | Inl _ \<Rightarrow> None) results"

lemma map_results_ok: "\<forall>x\<in>set xs. \<not> raises (f x) \<Longrightarrow> \<exists>ys. map_results f xs = Inr ys"
proof (induction xs)
  case (Cons x xs)
  then obtain ys where "map_results f xs = Inr ys" by auto
  with Cons.prems show ?case by (cases "f x") auto
qed simp

text \<open>
  The majority vote elects a verdict that at least one judge gave and that no other verdict outnumbers;
  its confidence is the fraction of judges that answered, and it raises nothing when the judges'
  verdicts are hashable and their feedback and raw texts are strings.
\<close>

theorem majority_elects:
  assumes "answered results \<noteq> []" and "\<forall>r\<in>set (answered results). plain_judge r"
  shows "\<exists>report. majority_verify fmt repr_of agg results = Inr report
    \<and> ad_verdict report \<in> ad_verdict ` set (answered results)
    \<and> (\<forall>v. votes (map ad_verdict (answered results)) v \<le> votes (map ad_verdict (answered results)) (ad_verdict report))
    \<and> ad_confidence report = real (length (answered results)) / real (length results)"
proof -
  let ?v = "answered results"
  have "\<forall>r\<in>set ?v. \<not> raises (judge_feedback r)" using assms(2) by (simp add: plain_judge_def)
  then obtain fbs where fb: "map_results judge_feedback ?v = Inr fbs" using map_results_ok by blast
  have ok: "\<not> (\<exists>r\<in>set ?v. \<not> verdict_hashable r)" "\<not> (\<exists>r\<in>set ?v. j_truthy (ad_raw_text r) \<and> (\<forall>s. ad_raw_text r \<noteq> JStr s))"
    using assms(2) by (auto simp: plain_judge_def)
  have eq: "majority_verify fmt repr_of agg results =
      Inr (vote_report fmt repr_of agg (length results) ?v
        (length (List.map_filter (\<lambda>r. case r of Inl e \<Rightarrow> Some e | Inr _ \<Rightarrow> None) results)) fbs raw_text_of)"
    using assms(1) fb ok unfolding majority_verify_def answered_def Let_def by simp
  have "map ad_verdict ?v \<noteq> []" using assms(1) by simp
  from counter_top_spec [OF this] show ?thesis
    by (auto simp: eq vote_report_def Let_def)
qed

theorem majority_elects_witness:
  "\<exists>report. majority_verify verdict_text verdict_text (\<lambda>xs. None)
      [Inr (demo_audit ''success'' (JStr [])), Inl TimeoutError, Inr (demo_audit ''success'' (JStr [])), Inr (demo_audit ''iterate'' (JStr []))] = Inr report
     \<and> ad_confidence report = 3 / 4"
proof -
  let ?rs = "[Inr (demo_audit ''success'' (JStr [])), Inl TimeoutError, Inr (demo_audit ''success'' (JStr [])), Inr (demo_audit ''iterate'' (JStr []))]"
  have a: "answered ?rs = [demo_audit ''success'' (JStr []), demo_audit ''success'' (JStr []), demo_audit ''iterate'' (JStr [])]"
    by (simp add: answered_def map_filter_simps)
  have p: "\<forall>r\<in>set (answered ?rs). plain_judge r"
    unfolding a by (simp add: plain_judge_def demo_audit_def verdict_hashable_def judge_feedback_def j_get_def dict_get_default_def)
  have "answered ?rs \<noteq> []" by (simp add: a)
  from majority_elects [OF this p, of verdict_text verdict_text "\<lambda>xs. None"] show ?thesis by (auto simp: a)
qed

text \<open>
  Reading back what an auditor was asked to write: a reply that carries a report as a fenced JSON block
  is parsed to that report, whatever prose surrounds the block, with the reply as raw text and the
  caller's metadata added.
\<close>

theorem fenced_report_parsed:
  fixes post :: string
  assumes "\<not> sublist ''```json'' (pre @ ''```jso'')" and "\<not> sublist ''```'' (body @ ''``'')"
    and "loads (str_strip body) = Inr (JDict (report_to_dict r))"
  defines "raw \<equiv> pre @ ''```json'' @ body @ ''```'' @ post"
  shows "parse_audit_report loads float_of err_text raw meta =
    r\<lparr>ad_raw_text := JStr raw, ad_metadata := merge_dicts (ad_metadata r) meta\<rparr>"
proof -
  have "split_first ''```json'' raw = Some (pre, body @ ''```'' @ post)"
    unfolding raw_def using assms(1) by (intro split_first_at) simp_all
  moreover have "split_first ''```'' (body @ ''```'' @ post) = Some (body, post)"
    using assms(2) by (intro split_first_at) simp_all
  ultimately have "extract_fenced_json raw = Some (str_strip body)" by (simp add: extract_fenced_json_def)
  moreover have "raw \<noteq> []" by (simp add: raw_def)
  ultimately have "try_parse_json loads raw = Inr (report_to_dict r)"
    using assms(3) by (simp add: try_parse_json_def load_dict_def need_dict_def)
  then show ?thesis by (simp add: parse_audit_report_def report_dict_inverse)
qed

theorem fenced_report_parsed_witness:
  "parse_audit_report (\<lambda>s. Inr (JDict (report_to_dict (demo_audit ''success'' (JStr []))))) (\<lambda>s. None) (\<lambda>e. []) (''ok '' @ ''```json'' @ ''{}'' @ ''```'' @ []) []
   = (demo_audit ''success'' (JStr []))\<lparr>ad_raw_text := JStr (''ok '' @ ''```json'' @ ''{}'' @ ''```'' @ [])\<rparr>"
proof -
  have "\<not> sublist ''```json'' (''ok '' @ ''```jso'')" "\<not> sublist ''```'' (''{}'' @ ''``'')"
    by (simp_all add: sublist_Cons_right)
  from fenced_report_parsed [OF this, of "\<lambda>s. Inr (JDict (report_to_dict (demo_audit ''success'' (JStr []))))"
      "demo_audit ''success'' (JStr [])" "\<lambda>s. None" "\<lambda>e. []" "[]" "[]"]
  show ?thesis by (simp add: merge_dicts_def demo_audit_def)
qed

section \<open>Cycles with a grader always return\<close>

definition cell_ok :: "json \<Rightarrow> bool" where
  "cell_ok v = (\<not> raises (md_cell v))"

definition textual :: "AuditReport \<Rightarrow> bool" where
  "textual r =
     ((\<exists>v s. ad_verdict r = JStr v \<and> ad_summary r = JStr s)
      \<and> (\<forall>f\<in>set (ad_findings r). cell_ok (af_severity f) \<and> cell_ok (af_category f) \<and> cell_ok (af_file f)
           \<and> cell_ok (af_short_message f) \<and> cell_ok (af_suggested_action f)))"

lemma cell_ok_simps [simp]: "cell_ok (JStr s)" "cell_ok JNull"
  by (simp_all add: cell_ok_def)

lemma textual_rendered:
  assumes "textual r" shows "\<not> raises (cycle_render fmt fmt2 dumps S r)"
proof -
  have "\<not> raises (render_table_row fmt i f)" if "f \<in> set (ad_findings r)" for i f
  proof -
    have "cell_ok (where_cell fmt f)" using assms that by (auto simp: where_cell_def textual_def)
    then have "\<forall>v\<in>set [af_severity f, af_category f, where_cell fmt f, af_short_message f, af_suggested_action f]. \<not> raises (md_cell v)"
      using assms that by (simp add: textual_def cell_ok_def)
    from map_results_ok [OF this] show ?thesis unfolding render_table_row_def by fastforce
  qed
  then have "\<forall>p\<in>set (enumerate 1 (ad_findings r)). \<not> raises ((\<lambda>(i, f). render_table_row fmt i f) p)"
    by (auto simp: in_set_enumerate_eq)
  from map_results_ok [OF this] have "\<not> raises (render_findings fmt dumps (ad_findings r))"
    unfolding render_findings_def by fastforce
  then show ?thesis using assms
    by (cases "render_findings fmt dumps (ad_findings r)") (auto simp: cycle_render_def render_def textual_def Let_def split: if_splits)
qed

lemma textual_judged: "textual r \<Longrightarrow> \<not> raises (in_strings (ad_verdict r) S)"
  by (auto simp: textual_def)

lemma synthetic_textual: "textual (synth_output_missing_audit rp m)" "textual (synth_writer_exception_audit fe e)"
  by (auto simp: textual_def synth_output_missing_audit_def synth_writer_exception_audit_def new_finding_def)

lemma graded_textual: "textual (parse_score_response loads float_of fmt repr_of repr_keys rule raw meta)"
  by (auto simp: parse_score_response_def failed_report_def graded_report_def textual_def new_finding_def Let_def split: sum.split option.split)

text \<open>A cycle whose auditor grades the reply of a raw model call, with the default renderer and without observers.\<close>

record 'w grading_parties =
  gp_generate :: "AuditReport option \<Rightarrow> nat \<Rightarrow> string \<Rightarrow> 'w \<Rightarrow> ((string \<times> string) + WriterOutput) \<times> 'w"
  gp_output_check :: "'w \<Rightarrow> string list \<times> 'w"
  gp_reply :: "WriterOutput \<Rightarrow> nat \<Rightarrow> 'w \<Rightarrow> string \<times> 'w"
  gp_write_text :: "string \<Rightarrow> AuditReport \<Rightarrow> 'w \<Rightarrow> 'w"
  gp_monotonic :: "'w \<Rightarrow> real \<times> 'w"

definition graded_env ::
  "(AuditReport \<Rightarrow> py_exception + string) \<Rightarrow> (string \<Rightarrow> AuditReport) \<Rightarrow> 'w grading_parties \<Rightarrow> 'w cycle_env" where
  "graded_env rendr grade gp =
     \<lparr>ce_generate = \<lambda>p n fb w. (case gp_generate gp p n fb w of (r, w') \<Rightarrow> (map_sum (\<lambda>(txt, cls). OtherException txt cls) id r, w')),
      ce_output_check = \<lambda>w. (case gp_output_check gp w of (m, w') \<Rightarrow> (Inr m, w')),
      ce_verify = \<lambda>out n w. (case gp_reply gp out n w of (raw, w') \<Rightarrow> (Inr (grade raw), w')),
      ce_render = rendr, ce_write_text = gp_write_text gp, ce_monotonic = gp_monotonic gp, ce_observers = []\<rparr>"

interpretation graded: calm_cycle rp fe
  "graded_env (cycle_render fmt fmt2 dumps S) (\<lambda>raw. parse_score_response loads float_of fmt repr_of repr_keys rule raw meta) gp" textual
  for rp fe fmt fmt2 dumps S loads float_of repr_of repr_keys rule meta gp
proof unfold_locales
  fix p n fb w
  show "no_cancel (ce_generate (graded_env (cycle_render fmt fmt2 dumps S)
      (\<lambda>raw. parse_score_response loads float_of fmt repr_of repr_keys rule raw meta) gp) p n fb w)"
    by (cases "gp_generate gp p n fb w"; cases "fst (gp_generate gp p n fb w)") (auto simp: graded_env_def no_cancel_def)
qed (use textual_rendered textual_judged in \<open>auto simp: graded_env_def graded_textual synthetic_textual case_prod_beta\<close>)


end
