(* ===== verification/Cycle_Sessions.thy ===== *)
theory Cycle_Sessions
  imports Cycle_Builders
begin

text \<open>
  The writers and auditors of the write/audit cycle that run on sessions of the agent bus
  (\<open>components/cycle/builders.py\<close>): one persistent session for the writer, a fresh session per round
  for an auditor.

  The bus is duck-typed in the source: \<open>create_session\<close>, \<open>submit_task_to_session\<close> and \<open>collect\<close> are
  functions on a world \<open>'w\<close>, of which the keyword arguments that decide the session are modelled.
  Tools are their names.  Name and prompt templates are the functions their \<open>format\<close> calls compute.
  The observers a caller's factory makes are not modelled.
\<close>

section \<open>The bus as the builders see it\<close>

record session_request =
  rq_task_id :: string
  rq_name :: string
  rq_role_id :: string
  rq_system_prompt :: string
  rq_tools_override :: "string list option"
  rq_max_turns :: nat
  rq_llm_timeout :: nat

record 'w bus_api =
  api_create_session :: "session_request \<Rightarrow> 'w \<Rightarrow> (py_exception + string) \<times> 'w"
  api_submit :: "string \<Rightarrow> string \<Rightarrow> 'w \<Rightarrow> (py_exception + string) \<times> 'w"
  api_collect :: "string \<Rightarrow> 'w \<Rightarrow> (py_exception + CollectResult) \<times> 'w"

definition extract_one_result :: "CollectResult \<Rightarrow> string \<Rightarrow> string + SubAgentResult" where
  "extract_one_result cr label =
     (case cr_completed cr of
        r # _ \<Rightarrow> Inr r
      | [] \<Rightarrow> (case cr_failed cr of
                 r # _ \<Rightarrow> Inr r
               | [] \<Rightarrow> Inl (label @ '': AgentBus.collect returned no result (timeout / pending)'')))"

text \<open>Submit a prompt to a session and wait for its job.\<close>

definition submit_and_collect :: "'w bus_api \<Rightarrow> string \<Rightarrow> string \<Rightarrow> 'w \<Rightarrow> (py_exception + CollectResult) \<times> 'w" where
  "submit_and_collect api sid prompt w =
     (case api_submit api sid prompt w of
        (Inl e, w') \<Rightarrow> (Inl e, w')
      | (Inr job_id, w') \<Rightarrow> api_collect api job_id w')"

section \<open>SessionBackedWriter\<close>

definition DEFAULT_REVISION_INSTRUCTION :: string where
  "DEFAULT_REVISION_INSTRUCTION = ''Revise the artifact addressing every finding above. Maintain everything that was already correct. Do not start over from scratch unless the feedback explicitly requires it.''"

record SessionBackedWriter =
  sw_request :: session_request
  sw_initial_prompt :: string
  sw_revision_instruction :: string
  sw_session_id :: "string option"

definition ensure_session :: "'w bus_api \<Rightarrow> SessionBackedWriter \<Rightarrow> 'w \<Rightarrow> (py_exception + string) \<times> SessionBackedWriter \<times> 'w" where
  "ensure_session api wr w =
     (case sw_session_id wr of
        Some sid \<Rightarrow> (Inr sid, wr, w)
      | None \<Rightarrow>
          (case api_create_session api (sw_request wr) w of
             (Inl e, w') \<Rightarrow> (Inl e, wr, w')
           | (Inr sid, w') \<Rightarrow> (Inr sid, wr\<lparr>sw_session_id := Some sid\<rparr>, w')))"

definition writer_prompt :: "SessionBackedWriter \<Rightarrow> nat \<Rightarrow> string \<Rightarrow> string" where
  "writer_prompt wr n feedback_md =
     (if n = 0 then sw_initial_prompt wr
      else if feedback_md \<noteq> [] then feedback_md @ [CHR 0x0A, CHR 0x0A] @ sw_revision_instruction wr
      else sw_revision_instruction wr)"

text \<open>\<open>list(metadata.get("files", []) or [])\<close> and \<open>int(metadata.get("message_count", 0) or 0)\<close>.\<close>

definition output_of_result :: "SubAgentResult \<Rightarrow> py_error + WriterOutput" where
  "output_of_result r =
     (let md = map (\<lambda>(k, v). (k, json_of v)) (ar_metadata r); count = j_get md ''message_count'' (JInt 0) in
      bind_result (list_or_empty (j_get md ''files'' (JList []))) (\<lambda>files.
      bind_result (if j_truthy count then j_int count else Inr 0) (\<lambda>message_count.
      Inr \<lparr>wo_content = JStr (ar_final_content r), wo_files = files, wo_message_count = message_count,
           wo_metadata = md, wo_loop_result = Some r\<rparr>)))"

definition as_exception :: "py_error + 'a \<Rightarrow> py_exception + 'a" where
  "as_exception r = (case r of Inl e \<Rightarrow> Inl (raised e) | Inr x \<Rightarrow> Inr x)"

definition writer_generate ::
  "'w bus_api \<Rightarrow> SessionBackedWriter \<Rightarrow> nat \<Rightarrow> string \<Rightarrow> 'w \<Rightarrow> (py_exception + WriterOutput) \<times> SessionBackedWriter \<times> 'w" where
  "writer_generate api wr n feedback_md w =
     (case ensure_session api wr w of
        (Inl e, wr', w') \<Rightarrow> (Inl e, wr', w')
      | (Inr sid, wr', w') \<Rightarrow>
          (case submit_and_collect api sid (writer_prompt wr' n feedback_md) w' of
             (Inl e, w'') \<Rightarrow> (Inl e, wr', w'')
           | (Inr cr, w'') \<Rightarrow>
               (case extract_one_result cr (''writer round '' @ str_of_nat n) of
                  Inl msg \<Rightarrow> (Inl (OtherException msg ''_CycleRuntimeError''), wr', w'')
                | Inr r \<Rightarrow> (as_exception (output_of_result r), wr', w''))))"

section \<open>Auditors on fresh sessions\<close>

record session_auditor =
  sa_task_id :: string
  sa_role_id :: string
  sa_system_prompt :: string
  sa_name_of :: "nat \<Rightarrow> string"
  sa_tools :: "string list"
  sa_max_turns :: nat
  sa_llm_timeout :: nat
  sa_prompt_of :: "nat \<Rightarrow> string \<Rightarrow> string \<Rightarrow> string"

text \<open>\<open>self._tools = list(tools) if tools is not None else []\<close>\<close>

definition auditor_tools :: "string list option \<Rightarrow> string list" where
  "auditor_tools tools = (case tools of None \<Rightarrow> [] | Some ts \<Rightarrow> ts)"

definition default_auditor_name :: "nat \<Rightarrow> string" where
  "default_auditor_name n = ''auditor_R'' @ str_of_nat n"

definition DEFAULT_AUDIT_PROMPT_TEMPLATE :: "nat \<Rightarrow> string \<Rightarrow> string \<Rightarrow> string" where
  "DEFAULT_AUDIT_PROMPT_TEMPLATE n content files =
     ''The writer produced this artifact for round '' @ str_of_nat n @ ''.'' @ [CHR 0x0A, CHR 0x0A] @ ''---'' @ [CHR 0x0A] @ content @ [CHR 0x0A] @ ''---''
     @ [CHR 0x0A, CHR 0x0A] @ ''Files reported produced this round: '' @ files @ [CHR 0x0A, CHR 0x0A] @ ''Audit per your instructions and emit your AuditReport JSON now.''"

definition DEFAULT_GRADE_PROMPT_TEMPLATE :: "nat \<Rightarrow> string \<Rightarrow> string \<Rightarrow> string" where
  "DEFAULT_GRADE_PROMPT_TEMPLATE n content files =
     ''Grade the following candidate solution for round '' @ str_of_nat n @ ''.'' @ [CHR 0x0A, CHR 0x0A] @ ''---'' @ [CHR 0x0A] @ content @ [CHR 0x0A] @ ''---''
     @ [CHR 0x0A, CHR 0x0A] @ ''Files reported produced this round: '' @ files @ [CHR 0x0A, CHR 0x0A]
     @ ''Emit your grade as a single JSON object inside a ```json fenced block. Schema:'' @ [CHR 0x0A]
     @ ''  {\"score\": <integer>, \"feedback\": <string>}'' @ [CHR 0x0A] @ ''No prose outside the JSON block.''"

text \<open>\<open>", ".join(files)\<close> raises on an element that is no string.\<close>

fun as_text :: "json \<Rightarrow> py_error + string" where
  "as_text (JStr s) = Inr s"
| "as_text _ = Inl TypeError"

definition build_prompt :: "(json \<Rightarrow> string) \<Rightarrow> session_auditor \<Rightarrow> WriterOutput \<Rightarrow> nat \<Rightarrow> py_error + string" where
  "build_prompt fmt au out n =
     bind_result (if wo_files out \<noteq> [] then bind_result (map_results as_text (wo_files out)) (\<lambda>fs. Inr (str_join '', '' fs))
                  else Inr ''(none reported)'') (\<lambda>files_text.
     Inr (sa_prompt_of au n (fmt (wo_content out)) files_text))"

definition auditor_request :: "session_auditor \<Rightarrow> nat \<Rightarrow> session_request" where
  "auditor_request au n =
     \<lparr>rq_task_id = sa_task_id au, rq_name = sa_name_of au n, rq_role_id = sa_role_id au, rq_system_prompt = sa_system_prompt au,
      rq_tools_override = Some (sa_tools au), rq_max_turns = sa_max_turns au, rq_llm_timeout = sa_llm_timeout au\<rparr>"

definition auditor_metadata :: "session_auditor \<Rightarrow> string \<Rightarrow> nat \<Rightarrow> jdict" where
  "auditor_metadata au sid n = [(''auditor_session'', JStr sid), (''auditor_role'', JStr (sa_role_id au)), (''round'', JInt (int n))]"

text \<open>
  \<open>verify\<close> of \<open>SessionBackedAuditor\<close> and \<open>ScoreThresholdAuditor\<close>: they differ in the label of the
  collection and in how the reply becomes a report.
\<close>

definition session_verify ::
  "(json \<Rightarrow> string) \<Rightarrow> string \<Rightarrow> (string \<Rightarrow> jdict \<Rightarrow> AuditReport) \<Rightarrow> 'w bus_api \<Rightarrow> session_auditor \<Rightarrow> WriterOutput \<Rightarrow> nat \<Rightarrow> 'w \<Rightarrow>
   (py_exception + AuditReport) \<times> 'w" where
  "session_verify fmt label to_report api au out n w =
     (case api_create_session api (auditor_request au n) w of
        (Inl e, w') \<Rightarrow> (Inl e, w')
      | (Inr sid, w') \<Rightarrow>
          (case build_prompt fmt au out n of
             Inl e \<Rightarrow> (Inl (raised e), w')
           | Inr prompt \<Rightarrow>
               (case submit_and_collect api sid prompt w' of
                  (Inl e, w'') \<Rightarrow> (Inl e, w'')
                | (Inr cr, w'') \<Rightarrow>
                    (Inr (case extract_one_result cr (label @ '' round '' @ str_of_nat n) of
                            Inl msg \<Rightarrow> runtime_error_audit msg
                          | Inr r \<Rightarrow> to_report (ar_final_content r) (auditor_metadata au sid n)), w''))))"

definition auditor_verify ::
  "(string \<Rightarrow> string + json) \<Rightarrow> (string \<Rightarrow> real option) \<Rightarrow> (py_error \<Rightarrow> string) \<Rightarrow> (json \<Rightarrow> string) \<Rightarrow> 'w bus_api \<Rightarrow> session_auditor \<Rightarrow>
   WriterOutput \<Rightarrow> nat \<Rightarrow> 'w \<Rightarrow> (py_exception + AuditReport) \<times> 'w" where
  "auditor_verify loads float_of err_text fmt = session_verify fmt ''auditor'' (parse_audit_report loads float_of err_text)"

definition init_score_rule ::
  "json \<Rightarrow> string \<Rightarrow> string \<Rightarrow> string list \<Rightarrow> string list \<Rightarrow> (real \<times> real) option \<Rightarrow> py_error + score_rule" where
  "init_score_rule pass_threshold pass_verdict fail_verdict score_keys feedback_keys score_range =
     (if score_keys = [] then Inl ValueError
      else if feedback_keys = [] then Inl ValueError
      else if (case score_range of None \<Rightarrow> False | Some (lo, hi) \<Rightarrow> hi \<le> lo) then Inl ValueError
      else Inr \<lparr>sr_pass_threshold = pass_threshold, sr_pass_verdict = pass_verdict, sr_fail_verdict = fail_verdict,
                sr_score_keys = score_keys, sr_feedback_keys = feedback_keys, sr_score_range = score_range\<rparr>)"

definition grader_verify ::
  "(string \<Rightarrow> string + json) \<Rightarrow> (string \<Rightarrow> real option) \<Rightarrow> (json \<Rightarrow> string) \<Rightarrow> (json \<Rightarrow> string) \<Rightarrow> (string list \<Rightarrow> string) \<Rightarrow> score_rule \<Rightarrow>
   'w bus_api \<Rightarrow> session_auditor \<Rightarrow> WriterOutput \<Rightarrow> nat \<Rightarrow> 'w \<Rightarrow> (py_exception + AuditReport) \<times> 'w" where
  "grader_verify loads float_of fmt repr_of repr_keys rule =
     session_verify fmt ''grader'' (parse_score_response loads float_of fmt repr_of repr_keys rule)"

section \<open>The cycle on sessions\<close>

text \<open>
  The writer object is part of the world of the cycle: its session id is set by the first round.
  Both parties, the file system and the clock act on the rest.
\<close>

definition on_rest :: "('w \<Rightarrow> 'a \<times> 'w) \<Rightarrow> SessionBackedWriter \<times> 'w \<Rightarrow> 'a \<times> SessionBackedWriter \<times> 'w" where
  "on_rest f p = (case f (snd p) of (x, w) \<Rightarrow> (x, fst p, w))"

definition session_env ::
  "'w bus_api \<Rightarrow> (WriterOutput \<Rightarrow> nat \<Rightarrow> 'w \<Rightarrow> (py_exception + AuditReport) \<times> 'w) \<Rightarrow> ('w \<Rightarrow> (py_exception + string list) \<times> 'w) \<Rightarrow>
   (AuditReport \<Rightarrow> py_exception + string) \<Rightarrow> (string \<Rightarrow> AuditReport \<Rightarrow> 'w \<Rightarrow> 'w) \<Rightarrow> ('w \<Rightarrow> real \<times> 'w) \<Rightarrow> (SessionBackedWriter \<times> 'w) cycle_env" where
  "session_env api verify check rendr write_text clock =
     \<lparr>ce_generate = \<lambda>prev n fb (wr, w). (case writer_generate api wr n fb w of (r, wr', w') \<Rightarrow> (r, wr', w')),
      ce_output_check = on_rest check, ce_verify = \<lambda>out n. on_rest (verify out n), ce_render = rendr,
      ce_write_text = \<lambda>path a (wr, w). (wr, write_text path a w), ce_monotonic = on_rest clock, ce_observers = []\<rparr>"

section \<open>Lemmas\<close>

lemma ensure_session_keeps:
  assumes "ensure_session api wr w = (r, wr', w')"
  shows "sw_request wr' = sw_request wr" "sw_session_id wr = Some sid \<Longrightarrow> wr' = wr \<and> r = Inr sid \<and> w' = w"
    "r = Inr s \<Longrightarrow> sw_session_id wr' = Some s"
  using assms by (auto simp: ensure_session_def split: option.splits prod.splits sum.splits)

lemma writer_generate_keeps:
  assumes "writer_generate api wr n fb w = (r, wr', w')"
  shows "sw_session_id wr = Some sid \<Longrightarrow> wr' = wr" "r = Inr out \<Longrightarrow> \<exists>s. sw_session_id wr' = Some s"
  using assms by (auto simp: writer_generate_def ensure_session_def split: prod.splits sum.splits option.splits)

lemma generate_without_create:
  assumes "sw_session_id wr = Some sid"
  shows "writer_generate (api\<lparr>api_create_session := create\<rparr>) wr n fb w = writer_generate api wr n fb w"
  using assms by (simp add: writer_generate_def ensure_session_def submit_and_collect_def cong: prod.case_cong sum.case_cong)

text \<open>The rounds of a writer, one after the other; whatever happens between them may change the world.\<close>

fun writer_rounds ::
  "'w bus_api \<Rightarrow> (nat \<times> string \<times> ('w \<Rightarrow> 'w)) list \<Rightarrow> SessionBackedWriter \<Rightarrow> 'w \<Rightarrow> (py_exception + WriterOutput) list \<times> SessionBackedWriter \<times> 'w" where
  "writer_rounds api [] wr w = ([], wr, w)"
| "writer_rounds api ((n, fb, between) # rest) wr w =
     (case writer_generate api wr n fb w of
        (r, wr', w') \<Rightarrow> (case writer_rounds api rest wr' (between w') of (rs, wr'', w'') \<Rightarrow> (r # rs, wr'', w'')))"

section \<open>Properties\<close>

text \<open>
  A session-backed writer keeps one session: after a first round that returned, every later sequence of
  rounds runs in that session and would run the same with any other \<open>create_session\<close>: none is called.
\<close>

theorem writer_one_session:
  assumes "writer_generate api wr n fb w = (Inr out, wr', w')"
  shows "\<exists>sid. sw_session_id wr' = Some sid
    \<and> (\<forall>rounds v create. writer_rounds (api\<lparr>api_create_session := create\<rparr>) rounds wr' v = writer_rounds api rounds wr' v
         \<and> fst (snd (writer_rounds api rounds wr' v)) = wr')"
proof -
  obtain sid where sid: "sw_session_id wr' = Some sid" using writer_generate_keeps(2) [OF assms] by blast
  have "writer_rounds (api\<lparr>api_create_session := create\<rparr>) rounds wr' v = writer_rounds api rounds wr' v
      \<and> fst (snd (writer_rounds api rounds wr' v)) = wr'" for rounds v create
  proof (induction rounds arbitrary: v)
    case (Cons x rounds)
    obtain m fb2 f where x: "x = (m, fb2, f)" by (cases x) auto
    obtain r wr2 w2 where g: "writer_generate api wr' m fb2 v = (r, wr2, w2)" by (metis prod_cases3)
    have "wr2 = wr'" using writer_generate_keeps(1) [OF g sid] .
    then show ?case using Cons.IH [of "f w2"] generate_without_create [OF sid, where api = api and create = create]
      by (simp add: x g case_prod_beta)
  qed simp
  with sid show ?thesis by blast
qed

text \<open>The bus of the example answers every prompt with a completed result.\<close>

definition demo_api :: "nat bus_api" where
  "demo_api =
     \<lparr>api_create_session = \<lambda>rq w. (Inr (rq_name rq), Suc w), api_submit = \<lambda>sid prompt w. (Inr ''job'', w),
      api_collect = \<lambda>j w. (Inr \<lparr>cr_completed = [\<lparr>ar_question = [], ar_role_id = [], ar_final_content = ''draft'', ar_success = True,
         ar_error = None, ar_error_class = None, ar_job_id = j, ar_metadata = []\<rparr>], cr_pending = [], cr_failed = []\<rparr>, w)\<rparr>"

definition demo_writer :: SessionBackedWriter where
  "demo_writer =
     \<lparr>sw_request = \<lparr>rq_task_id = ''t'', rq_name = ''writer'', rq_role_id = ''r'', rq_system_prompt = [], rq_tools_override = None,
        rq_max_turns = 80, rq_llm_timeout = 300\<rparr>, sw_initial_prompt = ''go'', sw_revision_instruction = DEFAULT_REVISION_INSTRUCTION, sw_session_id = None\<rparr>"

theorem writer_one_session_witness:
  "\<exists>out wr'. writer_generate demo_api demo_writer 0 [] 0 = (Inr out, wr', 1) \<and> sw_session_id wr' \<noteq> None"
proof -
  have "\<exists>out wr'. writer_generate demo_api demo_writer 0 [] 0 = (Inr out, wr', 1)"
    by (simp add: writer_generate_def ensure_session_def demo_api_def demo_writer_def submit_and_collect_def extract_one_result_def
        output_of_result_def as_exception_def j_get_def dict_get_default_def)
  then obtain out wr' where g: "writer_generate demo_api demo_writer 0 [] 0 = (Inr out, wr', 1)" by blast
  with writer_one_session [OF g] show ?thesis by blast
qed

end
