(* ===== verification/Verifier.thy ===== *)
theory Verifier
  imports Cycle_Builders
begin

text \<open>
  Verifiers and their composers (\<open>components/verifier/protocols.py\<close>, \<open>composers.py\<close>) and the bridge to
  the write/audit cycle (\<open>components/verifier/_compat.py\<close>).

  A verifier is a role and a function from subject and context to its verdict, \<open>Inl\<close> where it raises:
  what it does elsewhere is not seen by a composer.  Calls run side by side are given by the list of
  their outcomes; \<open>first_error\<close> chooses, among the errors, the one that \<open>asyncio.gather\<close> saw first.
  \<open>fmt\<close> is \<open>str\<close>, \<open>repr_of\<close> is \<open>repr\<close>, \<open>fmt_real\<close> formats a float and \<open>fmt_percent\<close> formats \<open>:.0%\<close>.
  The callables of a context have the type \<open>'c\<close>.
\<close>

section \<open>Protocols\<close>

record GroundTruth =
  gt_rubric :: "string option"
  gt_metadata :: jdict
  gt_reference :: "string option"
  gt_formal_spec :: "string option"
  gt_test_cases :: "json list option"

record 'c VerifierContext =
  vc_is_runtime :: bool
  vc_ground_truth :: "GroundTruth option"
  vc_call_llm :: "'c option"
  vc_call_search :: "'c option"
  vc_metadata :: jdict

text \<open>The \<open>ground_truth\<close> property: the oracle fields are stripped at runtime.\<close>

definition ground_truth :: "'c VerifierContext \<Rightarrow> GroundTruth option" where
  "ground_truth ctx =
     (case vc_ground_truth ctx of
        None \<Rightarrow> None
      | Some g \<Rightarrow>
          if vc_is_runtime ctx
          then Some \<lparr>gt_rubric = gt_rubric g, gt_metadata = gt_metadata g, gt_reference = None, gt_formal_spec = None, gt_test_cases = None\<rparr>
          else Some g)"

record Finding =
  fd_severity :: string
  fd_message :: json
  fd_location :: json

datatype Verdict =
  Verdict (vd_score: "real option") (vd_passed: bool) (vd_findings: "Finding list") (vd_reasoning: json)
    (vd_sub_verdicts: "Verdict list") (vd_metadata: jdict)

record ('s, 'c) Verifier =
  vf_role_id :: string
  vf_verify :: "'s \<Rightarrow> 'c VerifierContext \<Rightarrow> py_exception + Verdict"

section \<open>Composers\<close>

definition make_composer ::
  "('s, 'c) Verifier list \<Rightarrow> string \<Rightarrow> ('s \<Rightarrow> 'c VerifierContext \<Rightarrow> py_exception + Verdict) \<Rightarrow> py_error + ('s, 'c) Verifier" where
  "make_composer vs role_id verify =
     (if vs = [] then Inl ValueError else Inr \<lparr>vf_role_id = role_id, vf_verify = verify\<rparr>)"

fun pipeline_from ::
  "(json \<Rightarrow> string) \<Rightarrow> ('s, 'c) Verifier list \<Rightarrow> Verdict list \<Rightarrow> 's \<Rightarrow> 'c VerifierContext \<Rightarrow> py_exception + Verdict" where
  "pipeline_from fmt [] sub subject ctx = Inr (Verdict None True [] (JStr []) sub [])"
| "pipeline_from fmt (v # vs) sub subject ctx =
     bind_result (vf_verify v subject ctx) (\<lambda>r.
       if \<not> vd_passed r
       then Inr (Verdict None False [] (JStr (''short-circuited at '' @ vf_role_id v @ '': '' @ fmt (vd_reasoning r))) (sub @ [r]) [])
       else pipeline_from fmt vs (sub @ [r]) subject ctx)"

definition Pipeline :: "(json \<Rightarrow> string) \<Rightarrow> ('s, 'c) Verifier list \<Rightarrow> string \<Rightarrow> py_error + ('s, 'c) Verifier" where
  "Pipeline fmt vs role_id = make_composer vs role_id (pipeline_from fmt vs [])"

text \<open>\<open>asyncio.gather\<close> without \<open>return_exceptions\<close>.\<close>

definition gather :: "(py_exception list \<Rightarrow> py_exception) \<Rightarrow> (py_exception + Verdict) list \<Rightarrow> py_exception + Verdict list" where
  "gather first_error results =
     (case List.map_filter (\<lambda>r. case r of Inl e \<Rightarrow> Some e | Inr _ \<Rightarrow> None) results of
        [] \<Rightarrow> Inr (map projr results)
      | e # es \<Rightarrow> Inl (first_error (e # es)))"

definition run_all :: "('s, 'c) Verifier list \<Rightarrow> 's \<Rightarrow> 'c VerifierContext \<Rightarrow> (py_exception + Verdict) list" where
  "run_all vs subject ctx = map (\<lambda>v. vf_verify v subject ctx) vs"

definition AGGREGATORS :: "string set" where
  "AGGREGATORS = {''majority'', ''median'', ''min'', ''mean'', ''max''}"

definition mean :: "real list \<Rightarrow> real" where
  "mean xs = sum_list xs / real (length xs)"

definition ensemble_passed :: "string \<Rightarrow> bool list \<Rightarrow> bool" where
  "ensemble_passed aggregator passes =
     (if aggregator = ''majority'' then real (count_list passes True) > real (length passes) / 2 else list_all id passes)"

definition ensemble_score :: "string \<Rightarrow> real list \<Rightarrow> real option" where
  "ensemble_score aggregator scores =
     (if scores = [] then None
      else if aggregator = ''median'' then Some (median scores)
      else if aggregator = ''min'' then Some (Min (set scores))
      else if aggregator = ''max'' then Some (Max (set scores))
      else if aggregator = ''mean'' then Some (mean scores)
      else Some (median scores))"

definition ensemble_verdict :: "string \<Rightarrow> Verdict list \<Rightarrow> Verdict" where
  "ensemble_verdict aggregator results =
     Verdict (ensemble_score aggregator (List.map_filter vd_score results)) (ensemble_passed aggregator (map vd_passed results)) []
       (JStr (''ensemble('' @ aggregator @ '', n='' @ str_of_nat (length results) @ '')'')) results []"

definition Ensemble ::
  "(py_exception list \<Rightarrow> py_exception) \<Rightarrow> ('s, 'c) Verifier list \<Rightarrow> string \<Rightarrow> string \<Rightarrow> py_error + ('s, 'c) Verifier" where
  "Ensemble first_error vs aggregator role_id =
     (if vs \<noteq> [] \<and> aggregator \<notin> AGGREGATORS then Inl ValueError
      else make_composer vs role_id (\<lambda>subject ctx.
        bind_result (gather first_error (run_all vs subject ctx)) (\<lambda>results. Inr (ensemble_verdict aggregator results))))"

fun try_backups :: "('s, 'c) Verifier list \<Rightarrow> Verdict list \<Rightarrow> 's \<Rightarrow> 'c VerifierContext \<Rightarrow> py_exception + Verdict" where
  "try_backups [] sub subject ctx = Inr (Verdict None False [] (JStr ''primary and all backups failed'') sub [])"
| "try_backups (b # bs) sub subject ctx =
     bind_result (vf_verify b subject ctx) (\<lambda>r.
       if vd_passed r then Inr (Verdict (vd_score r) True [] (JStr (''primary failed; recovered via '' @ vf_role_id b)) (sub @ [r]) [])
       else try_backups bs (sub @ [r]) subject ctx)"

definition FallbackVerifier :: "('s, 'c) Verifier \<Rightarrow> ('s, 'c) Verifier list \<Rightarrow> string \<Rightarrow> ('s, 'c) Verifier" where
  "FallbackVerifier primary backups role_id =
     \<lparr>vf_role_id = role_id, vf_verify = \<lambda>subject ctx.
        bind_result (vf_verify primary subject ctx) (\<lambda>r.
          if vd_passed r then Inr (Verdict (vd_score r) True [] (JStr []) [r] [])
          else try_backups backups [r] subject ctx)\<rparr>"

definition confident :: "real \<Rightarrow> Verdict \<Rightarrow> bool" where
  "confident threshold r = (case vd_score r of None \<Rightarrow> False | Some s \<Rightarrow> threshold \<le> s)"

definition Cascade ::
  "(real \<Rightarrow> string) \<Rightarrow> ('s, 'c) Verifier \<Rightarrow> ('s, 'c) Verifier \<Rightarrow> real \<Rightarrow> string \<Rightarrow> py_error + ('s, 'c) Verifier" where
  "Cascade fmt_real cheap expensive threshold role_id =
     (if \<not> (0 \<le> threshold \<and> threshold \<le> 1) then Inl ValueError
      else Inr \<lparr>vf_role_id = role_id, vf_verify = \<lambda>subject ctx.
        bind_result (vf_verify cheap subject ctx) (\<lambda>c.
          if confident threshold c
          then Inr (Verdict (vd_score c) (vd_passed c) [] (JStr (''cheap verifier confident (>='' @ fmt_real threshold @ '')'')) [c] [])
          else bind_result (vf_verify expensive subject ctx) (\<lambda>e.
            Inr (Verdict (vd_score e) (vd_passed e) [] (JStr (''escalated to '' @ vf_role_id expensive)) [c, e] [])))\<rparr>)"

definition Parallel ::
  "(py_exception list \<Rightarrow> py_exception) \<Rightarrow> ('s, 'c) Verifier list \<Rightarrow> string \<Rightarrow> py_error + ('s, 'c) Verifier" where
  "Parallel first_error vs role_id =
     make_composer vs role_id (\<lambda>subject ctx.
       bind_result (gather first_error (run_all vs subject ctx)) (\<lambda>results.
         Inr (Verdict None (list_all vd_passed results) [] (JStr (''parallel(n='' @ str_of_nat (length results) @ '')'')) results [])))"

subsection \<open>Consensus\<close>

definition warning_finding :: "string \<Rightarrow> Finding" where
  "warning_finding message = \<lparr>fd_severity = ''warning'', fd_message = JStr message, fd_location = JNull\<rparr>"

definition valid_verdicts :: "(py_exception + Verdict) list \<Rightarrow> Verdict list" where
  "valid_verdicts results = List.map_filter (\<lambda>r. case r of Inr v \<Rightarrow> Some v | Inl _ \<Rightarrow> None) results"

definition given_answers :: "string \<Rightarrow> Verdict list \<Rightarrow> json list" where
  "given_answers key valid = filter (\<lambda>a. a \<noteq> JNull) (map (\<lambda>v. j_get (vd_metadata v) key JNull) valid)"

definition consensus_verdict ::
  "(json \<Rightarrow> string) \<Rightarrow> (real \<Rightarrow> string) \<Rightarrow> string \<Rightarrow> (py_exception + Verdict) list \<Rightarrow> py_exception + Verdict" where
  "consensus_verdict repr_of fmt_percent answer_key results =
     (let n_total = length results; valid = valid_verdicts results; n_valid = length valid;
          failed = (if n_valid < n_total
                    then [warning_finding (str_of_nat (n_total - n_valid) @ ''/'' @ str_of_nat n_total @ '' sub-verifiers failed'')] else []);
          counts = [(''n_total'', JInt (int n_total)), (''n_succeeded'', JInt (int n_valid))];
          answers = given_answers answer_key valid
      in if valid = [] then Inr (Verdict None False failed (JStr ''all sub-verifiers failed'') [] counts)
         else if answers = [] then
           Inr (Verdict None False (failed @ [warning_finding (''no sub-verdict carried metadata['' @ repr_of (JStr answer_key) @ '']'')])
                 (JStr (''consensus failed: no answers in metadata['' @ repr_of (JStr answer_key) @ '']'')) valid counts)
         else if \<exists>a\<in>set answers. raises (in_strings a {}) then Inl (raised TypeError)
         else
           let (answer, top) = counter_top answers; agreement = real top / real n_valid in
           Inr (Verdict None (n_valid < top * 2) failed
                 (JStr (''consensus('' @ str_of_nat n_valid @ ''/'' @ str_of_nat n_total @ '' valid, agreement='' @ fmt_percent agreement @ ''): '' @ repr_of answer))
                 valid (counts @ [(''consensus_answer'', answer), (''agreement'', JFloat agreement)])))"

definition ConsensusVerifier ::
  "(json \<Rightarrow> string) \<Rightarrow> (real \<Rightarrow> string) \<Rightarrow> ('s, 'c) Verifier list \<Rightarrow> string \<Rightarrow> string \<Rightarrow> py_error + ('s, 'c) Verifier" where
  "ConsensusVerifier repr_of fmt_percent vs answer_key role_id =
     make_composer vs role_id (\<lambda>subject ctx. consensus_verdict repr_of fmt_percent answer_key (run_all vs subject ctx))"

section \<open>The bridge to the cycle\<close>

definition verdict_from_audit_report :: "(json \<Rightarrow> string) \<Rightarrow> AuditReport \<Rightarrow> py_error + Verdict" where
  "verdict_from_audit_report fmt report =
     bind_result (in_strings (ad_verdict report) {''success''}) (\<lambda>passed.
       Inr (Verdict (Some (ad_confidence report)) passed
         (map (\<lambda>f. \<lparr>fd_severity = fmt (af_severity f), fd_message = af_short_message f, fd_location = af_file f\<rparr>) (ad_findings report))
         (ad_summary report) []
         (merge_dicts (ad_metadata report) [(''_cycle_verdict'', ad_verdict report), (''_cycle_raw_text'', ad_raw_text report)])))"

definition VALID_SEVERITIES :: "string set" where
  "VALID_SEVERITIES = {''error'', ''warning'', ''info''}"

definition coerce_severity :: "string \<Rightarrow> string" where
  "coerce_severity v = (if v \<in> VALID_SEVERITIES then v else ''info'')"

definition finding_of :: "Finding \<Rightarrow> AuditFinding" where
  "finding_of f =
     (new_finding (fd_severity f) (coerce_severity (fd_severity f)) [])\<lparr>af_short_message := fd_message f, af_file := fd_location f\<rparr>"

definition audit_report_from_verdict :: "string \<Rightarrow> Verdict \<Rightarrow> AuditReport" where
  "audit_report_from_verdict default_fail_label verdict =
     (let stored = j_get (vd_metadata verdict) ''_cycle_verdict'' JNull in
      \<lparr>ad_verdict = (if stored = JNull then JStr (if vd_passed verdict then ''success'' else default_fail_label) else stored),
       ad_findings = map finding_of (vd_findings verdict), ad_summary = vd_reasoning verdict,
       ad_confidence = (case vd_score verdict of None \<Rightarrow> 0 | Some s \<Rightarrow> s),
       ad_raw_text = j_get (vd_metadata verdict) ''_cycle_raw_text'' (JStr []),
       ad_metadata = filter (\<lambda>(k, v). k \<notin> {''_cycle_verdict'', ''_cycle_raw_text''}) (vd_metadata verdict)\<rparr>)"

definition DEFAULT_FAIL_LABEL :: string where
  "DEFAULT_FAIL_LABEL = ''iterate''"

definition default_ctx_factory :: "nat \<Rightarrow> 'c VerifierContext" where
  "default_ctx_factory n =
     \<lparr>vc_is_runtime = True, vc_ground_truth = None, vc_call_llm = None, vc_call_search = None, vc_metadata = [(''round_num'', JInt (int n))]\<rparr>"

text \<open>\<open>_CycleAuditorAdapter.verify\<close>, a \<open>ce_verify\<close> of the cycle.\<close>

definition adapter_verify ::
  "(WriterOutput, 'c) Verifier \<Rightarrow> (nat \<Rightarrow> 'c VerifierContext) \<Rightarrow> WriterOutput \<Rightarrow> nat \<Rightarrow> 'w \<Rightarrow> (py_exception + AuditReport) \<times> 'w" where
  "adapter_verify v ctx_factory out n w =
     (bind_result (vf_verify v out (ctx_factory n)) (\<lambda>r. Inr (audit_report_from_verdict DEFAULT_FAIL_LABEL r)), w)"

section \<open>Composers see their parts only through their verdicts\<close>

text \<open>What a verifier can read of its context without touching the underscore field.\<close>

definition public_view :: "'c VerifierContext \<Rightarrow> 'c VerifierContext" where
  "public_view ctx = ctx\<lparr>vc_ground_truth := ground_truth ctx\<rparr>"

definition reads_public :: "('s, 'c) Verifier \<Rightarrow> bool" where
  "reads_public v = (\<forall>s c c'. public_view c = public_view c' \<longrightarrow> vf_verify v s c = vf_verify v s c')"

text \<open>
  The contract of a composer: on two contexts on which all its parts answer alike, it answers alike.
\<close>

locale composer =
  fixes build :: "('s, 'c) Verifier list \<Rightarrow> py_error + ('s, 'c) Verifier"
  assumes answers_alike:
    "build vs = Inr v \<Longrightarrow> (\<And>u. u \<in> set vs \<Longrightarrow> vf_verify u s c = vf_verify u s c') \<Longrightarrow> vf_verify v s c = vf_verify v s c'"
begin

lemma keeps_public:
  assumes "build vs = Inr v" and "\<forall>u\<in>set vs. reads_public u"
  shows "reads_public v"
  unfolding reads_public_def
proof (intro allI impI)
  fix s :: 's and c c' :: "'c VerifierContext"
  assume "public_view c = public_view c'"
  then have "vf_verify u s c = vf_verify u s c'" if "u \<in> set vs" for u
    using assms(2) that unfolding reads_public_def by blast
  then show "vf_verify v s c = vf_verify v s c'" by (rule answers_alike [OF assms(1)])
qed

end

lemma run_all_alike: "(\<And>u. u \<in> set vs \<Longrightarrow> vf_verify u s c = vf_verify u s c') \<Longrightarrow> run_all vs s c = run_all vs s c'"
  by (simp add: run_all_def)

lemma pipeline_alike:
  "(\<And>u. u \<in> set vs \<Longrightarrow> vf_verify u s c = vf_verify u s c') \<Longrightarrow> pipeline_from fmt vs sub s c = pipeline_from fmt vs sub s c'"
proof (induction vs arbitrary: sub)
  case (Cons v vs)
  have "vf_verify v s c = vf_verify v s c'" using Cons.prems by simp
  then show ?case using Cons by (cases "vf_verify v s c'") auto
qed simp

lemma backups_alike:
  "(\<And>u. u \<in> set vs \<Longrightarrow> vf_verify u s c = vf_verify u s c') \<Longrightarrow> try_backups vs sub s c = try_backups vs sub s c'"
proof (induction vs arbitrary: sub)
  case (Cons v vs)
  have "vf_verify v s c = vf_verify v s c'" using Cons.prems by simp
  then show ?case using Cons by (cases "vf_verify v s c'") auto
qed simp

lemma make_composer_Inr: "make_composer vs role f = Inr v \<Longrightarrow> vf_verify v = f"
  by (auto simp: make_composer_def split: if_splits)

text \<open>A composer of fixed arity takes its parts as a list; a wrong number of arguments is a \<open>TypeError\<close>.\<close>

definition fallback_of :: "string \<Rightarrow> ('s, 'c) Verifier list \<Rightarrow> py_error + ('s, 'c) Verifier" where
  "fallback_of role vs = (case vs of [] \<Rightarrow> Inl TypeError | p # bs \<Rightarrow> Inr (FallbackVerifier p bs role))"

definition cascade_of :: "(real \<Rightarrow> string) \<Rightarrow> real \<Rightarrow> string \<Rightarrow> ('s, 'c) Verifier list \<Rightarrow> py_error + ('s, 'c) Verifier" where
  "cascade_of fmt_real threshold role vs = (case vs of [c, e] \<Rightarrow> Cascade fmt_real c e threshold role | _ \<Rightarrow> Inl TypeError)"

interpretation pipe: composer "\<lambda>vs. Pipeline fmt vs role" for fmt role
  by unfold_locales (metis Pipeline_def make_composer_Inr pipeline_alike)

interpretation ens: composer "\<lambda>vs. Ensemble fe vs agg role" for fe agg role
proof
  fix vs v s c c'
  assume b: "Ensemble fe vs agg role = Inr (v :: ('a, 'b) Verifier)" and "\<And>u. u \<in> set vs \<Longrightarrow> vf_verify u s c = vf_verify u s c'"
  then have "run_all vs s c = run_all vs s c'" by (intro run_all_alike)
  then show "vf_verify v s c = vf_verify v s c'" using b by (auto simp: Ensemble_def dest!: make_composer_Inr split: if_splits)
qed

interpretation fall: composer "fallback_of role" for role
proof
  fix vs v s c c'
  assume b: "fallback_of role vs = Inr (v :: ('a, 'b) Verifier)" and a: "\<And>u. u \<in> set vs \<Longrightarrow> vf_verify u s c = vf_verify u s c'"
  obtain p bs where vs: "vs = p # bs" "v = FallbackVerifier p bs role" using b by (auto simp: fallback_of_def split: list.splits)
  have "vf_verify p s c = vf_verify p s c'" using a vs(1) by simp
  moreover have "try_backups bs sub s c = try_backups bs sub s c'" for sub
    by (rule backups_alike) (use a vs(1) in simp)
  ultimately show "vf_verify v s c = vf_verify v s c'" by (simp add: vs(2) FallbackVerifier_def cong: if_cong)
qed

interpretation casc: composer "cascade_of fmt_real threshold role" for fmt_real threshold role
proof
  fix vs v s c c'
  assume b: "cascade_of fmt_real threshold role vs = Inr (v :: ('a, 'b) Verifier)" and a: "\<And>u. u \<in> set vs \<Longrightarrow> vf_verify u s c = vf_verify u s c'"
  obtain ch ex where vs: "vs = [ch, ex]" "Cascade fmt_real ch ex threshold role = Inr v"
    using b by (auto simp: cascade_of_def split: list.splits)
  have "vf_verify ch s c = vf_verify ch s c'" "vf_verify ex s c = vf_verify ex s c'" using a vs(1) by simp_all
  then show "vf_verify v s c = vf_verify v s c'" using vs(2) by (auto simp: Cascade_def split: if_splits cong: if_cong)
qed

interpretation par: composer "\<lambda>vs. Parallel fe vs role" for fe role
proof
  fix vs v s c c'
  assume b: "Parallel fe vs role = Inr (v :: ('a, 'b) Verifier)" and "\<And>u. u \<in> set vs \<Longrightarrow> vf_verify u s c = vf_verify u s c'"
  then have "run_all vs s c = run_all vs s c'" by (intro run_all_alike)
  then show "vf_verify v s c = vf_verify v s c'" using b by (auto simp: Parallel_def dest!: make_composer_Inr)
qed

interpretation cons: composer "\<lambda>vs. ConsensusVerifier rp fp vs key role" for rp fp key role
proof
  fix vs v s c c'
  assume b: "ConsensusVerifier rp fp vs key role = Inr (v :: ('a, 'b) Verifier)" and "\<And>u. u \<in> set vs \<Longrightarrow> vf_verify u s c = vf_verify u s c'"
  then have "run_all vs s c = run_all vs s c'" by (intro run_all_alike)
  then show "vf_verify v s c = vf_verify v s c'" using b by (auto simp: ConsensusVerifier_def dest!: make_composer_Inr)
qed

text \<open>The verifiers that the composers build from given ones, to any depth.\<close>

inductive composed :: "(('s, 'c) Verifier \<Rightarrow> bool) \<Rightarrow> ('s, 'c) Verifier \<Rightarrow> bool" for leaf where
  leaf: "leaf v \<Longrightarrow> composed leaf v"
| pipeline: "\<lbrakk>\<forall>u\<in>set vs. composed leaf u; Pipeline fmt vs role = Inr v\<rbrakk> \<Longrightarrow> composed leaf v"
| ensemble: "\<lbrakk>\<forall>u\<in>set vs. composed leaf u; Ensemble fe vs agg role = Inr v\<rbrakk> \<Longrightarrow> composed leaf v"
| fallback: "\<lbrakk>\<forall>u\<in>set vs. composed leaf u; fallback_of role vs = Inr v\<rbrakk> \<Longrightarrow> composed leaf v"
| cascade: "\<lbrakk>\<forall>u\<in>set vs. composed leaf u; cascade_of fmt_real threshold role vs = Inr v\<rbrakk> \<Longrightarrow> composed leaf v"
| parallel: "\<lbrakk>\<forall>u\<in>set vs. composed leaf u; Parallel fe vs role = Inr v\<rbrakk> \<Longrightarrow> composed leaf v"
| consensus: "\<lbrakk>\<forall>u\<in>set vs. composed leaf u; ConsensusVerifier rp fp vs key role = Inr v\<rbrakk> \<Longrightarrow> composed leaf v"

lemma composed_reads_public:
  assumes "composed leaf v" and "\<And>u. leaf u \<Longrightarrow> reads_public u"
  shows "reads_public v"
  using assms(1)
proof (induction rule: composed.induct)
  case (leaf v)
  then show ?case using assms(2) by blast
next
  case (pipeline vs fmt role v)
  then show ?case using pipe.keeps_public by blast
next
  case (ensemble vs fe agg role v)
  then show ?case using ens.keeps_public by blast
next
  case (fallback vs role v)
  then show ?case using fall.keeps_public by blast
next
  case (cascade vs fmt_real threshold role v)
  then show ?case using casc.keeps_public by blast
next
  case (parallel vs fe role v)
  then show ?case using par.keeps_public by blast
next
  case (consensus vs rp fp key role v)
  then show ?case using cons.keeps_public by blast
qed

section \<open>Lemmas\<close>

lemma oracle_stripped:
  "vc_is_runtime ctx \<Longrightarrow>
   public_view (ctx\<lparr>vc_ground_truth := Some (g\<lparr>gt_reference := ref, gt_formal_spec := spec, gt_test_cases := tests\<rparr>)\<rparr>)
   = public_view (ctx\<lparr>vc_ground_truth := Some g\<rparr>)"
  by (simp add: public_view_def ground_truth_def)

lemma pipeline_from_exact:
  assumes "pipeline_from fmt vs sub s ctx = Inr r"
  shows "\<exists>rs. vd_sub_verdicts r = sub @ rs \<and> run_all (take (length rs) vs) s ctx = map Inr rs
    \<and> (if vd_passed r then length rs = length vs \<and> (\<forall>v\<in>set rs. vd_passed v)
        else rs \<noteq> [] \<and> \<not> vd_passed (last rs) \<and> (\<forall>v\<in>set (butlast rs). vd_passed v))"
  using assms
proof (induction vs arbitrary: sub)
  case Nil
  then show ?case by (auto simp: run_all_def intro: exI [of _ "[]"])
next
  case (Cons v vs)
  obtain q where q: "vf_verify v s ctx = Inr q" using Cons.prems by (cases "vf_verify v s ctx") auto
  show ?case
  proof (cases "vd_passed q")
    case False
    then show ?thesis using Cons.prems q by (auto simp: run_all_def intro!: exI [of _ "[q]"])
  next
    case True
    with Cons.prems q have "pipeline_from fmt vs (sub @ [q]) s ctx = Inr r" by simp
    from Cons.IH [OF this] obtain rs where rs: "vd_sub_verdicts r = (sub @ [q]) @ rs" "run_all (take (length rs) vs) s ctx = map Inr rs"
      "if vd_passed r then length rs = length vs \<and> (\<forall>v\<in>set rs. vd_passed v)
       else rs \<noteq> [] \<and> \<not> vd_passed (last rs) \<and> (\<forall>v\<in>set (butlast rs). vd_passed v)" by blast
    show ?thesis
    proof (intro exI conjI)
      show "vd_sub_verdicts r = sub @ q # rs" using rs(1) by simp
      show "run_all (take (length (q # rs)) (v # vs)) s ctx = map Inr (q # rs)" using rs(2) q by (simp add: run_all_def)
      show "if vd_passed r then length (q # rs) = length (v # vs) \<and> (\<forall>v\<in>set (q # rs). vd_passed v)
          else q # rs \<noteq> [] \<and> \<not> vd_passed (last (q # rs)) \<and> (\<forall>v\<in>set (butlast (q # rs)). vd_passed v)"
        using rs(3) True by (cases "vd_passed r") (simp_all only: if_True if_False list.set ball_simps list.size, auto)
    qed
  qed
qed

lemma votes_disjoint:
  assumes "hash_key a \<noteq> hash_key b" shows "votes xs a + votes xs b \<le> length xs"
  using assms by (induction xs) (auto simp: votes_def)

lemma given_answers_length: "length (given_answers key vs) \<le> length vs"
  unfolding given_answers_def by (metis length_filter_le length_map)

lemma median_bounds:
  assumes "xs \<noteq> []" shows "Min (set xs) \<le> median xs" "median xs \<le> Max (set xs)"
proof -
  have mem: "sort xs ! i \<in> set xs" if "i < length xs" for i
    using nth_mem [of i "sort xs"] that by simp
  have "length xs div 2 < length xs" "length xs div 2 - 1 < length xs" using assms by (cases xs; simp)+
  then have b: "Min (set xs) \<le> sort xs ! i \<and> sort xs ! i \<le> Max (set xs)" if "i \<in> {length xs div 2, length xs div 2 - 1}" for i
    using mem that by auto
  show "Min (set xs) \<le> median xs" "median xs \<le> Max (set xs)"
    using b [of "length xs div 2"] b [of "length xs div 2 - 1"] by (auto simp: median_def Let_def field_simps)
qed

lemma mean_bounds:
  assumes "xs \<noteq> []" shows "Min (set xs) \<le> mean xs" "mean xs \<le> Max (set xs)"
proof -
  have len: "0 < real (length xs)" using assms by simp
  have "(\<Sum>x\<leftarrow>xs. Min (set xs)) \<le> sum_list (map (\<lambda>x. x) xs)" by (rule sum_list_mono) simp
  then show "Min (set xs) \<le> mean xs" using len by (simp add: mean_def sum_list_triv pos_le_divide_eq mult.commute)
  have "sum_list (map (\<lambda>x. x) xs) \<le> (\<Sum>x\<leftarrow>xs. Max (set xs))" by (rule sum_list_mono) simp
  then show "mean xs \<le> Max (set xs)" using len by (simp add: mean_def sum_list_triv pos_divide_le_eq mult.commute)
qed

section \<open>Properties\<close>

text \<open>
  C30: oracle material stays hidden at runtime.  Let the leaves of any composition, to any depth, read the
  ground truth only through the \<open>ground_truth\<close> property.  Then at runtime the verdict of the composition
  is the same whatever the reference answer, the formal specification and the test cases are.
\<close>

theorem oracle_hidden:
  assumes "composed leaf v" and "\<And>u. leaf u \<Longrightarrow> reads_public u" and "vc_is_runtime ctx"
  shows "vf_verify v s (ctx\<lparr>vc_ground_truth := Some (g\<lparr>gt_reference := ref, gt_formal_spec := spec, gt_test_cases := tests\<rparr>)\<rparr>)
    = vf_verify v s (ctx\<lparr>vc_ground_truth := Some g\<rparr>)"
  using composed_reads_public [OF assms(1,2)] oracle_stripped [OF assms(3)] unfolding reads_public_def by blast

text \<open>A leaf that passes exactly when a rubric is given, and one that always answers 42.\<close>

definition rubric_leaf :: "(unit, unit) Verifier" where
  "rubric_leaf =
     \<lparr>vf_role_id = ''rubric'', vf_verify = \<lambda>s ctx. Inr (Verdict (Some 1) (map_option gt_rubric (ground_truth ctx) \<noteq> None) [] (JStr []) [] [(''answer'', JInt 42)])\<rparr>"

definition demo_ctx :: "unit VerifierContext" where
  "demo_ctx = \<lparr>vc_is_runtime = True, vc_ground_truth = None, vc_call_llm = None, vc_call_search = None, vc_metadata = []\<rparr>"

definition demo_truth :: GroundTruth where
  "demo_truth = \<lparr>gt_rubric = Some ''be exact'', gt_metadata = [], gt_reference = Some ''17'', gt_formal_spec = None, gt_test_cases = None\<rparr>"

lemma rubric_leaf_public: "reads_public rubric_leaf"
proof -
  have "ground_truth c = vc_ground_truth (public_view c)" for c :: "unit VerifierContext" by (simp add: public_view_def)
  then show ?thesis by (simp add: reads_public_def rubric_leaf_def)
qed

theorem oracle_hidden_witness:
  "\<exists>v. composed (\<lambda>u. u = rubric_leaf) v
     \<and> vf_verify v () (demo_ctx\<lparr>vc_ground_truth := Some (demo_truth\<lparr>gt_reference := Some ''42'', gt_formal_spec := None, gt_test_cases := None\<rparr>)\<rparr>)
       = vf_verify v () (demo_ctx\<lparr>vc_ground_truth := Some demo_truth\<rparr>)"
proof -
  have p: "Pipeline verdict_text [rubric_leaf, rubric_leaf] ''p'' = Inr \<lparr>vf_role_id = ''p'', vf_verify = pipeline_from verdict_text [rubric_leaf, rubric_leaf] []\<rparr>"
    by (simp add: Pipeline_def make_composer_def)
  have c: "composed (\<lambda>u. u = rubric_leaf) \<lparr>vf_role_id = ''p'', vf_verify = pipeline_from verdict_text [rubric_leaf, rubric_leaf] []\<rparr>"
    by (rule composed.pipeline [OF _ p]) (simp add: composed.leaf)
  have "vc_is_runtime demo_ctx" by (simp add: demo_ctx_def)
  from oracle_hidden [OF c _ this] rubric_leaf_public c show ?thesis by blast
qed

text \<open>
  A pipeline runs its verifiers in order up to the first one that does not pass, keeps exactly their
  verdicts, and passes if and only if all of them ran and passed.
\<close>

theorem pipeline_exact:
  assumes "Pipeline fmt vs role = Inr p" and "vf_verify p s ctx = Inr r"
  shows "\<exists>rs. vd_sub_verdicts r = rs \<and> run_all (take (length rs) vs) s ctx = map Inr rs
    \<and> (if vd_passed r then length rs = length vs \<and> (\<forall>v\<in>set rs. vd_passed v)
        else rs \<noteq> [] \<and> \<not> vd_passed (last rs) \<and> (\<forall>v\<in>set (butlast rs). vd_passed v))"
proof -
  have "pipeline_from fmt vs [] s ctx = Inr r" using assms by (auto simp: Pipeline_def dest!: make_composer_Inr)
  from pipeline_from_exact [OF this] show ?thesis unfolding append_Nil .
qed

theorem pipeline_exact_witness:
  "\<exists>p r. Pipeline verdict_text [rubric_leaf, rubric_leaf] ''p'' = Inr p \<and> vf_verify p () demo_ctx = Inr r
     \<and> \<not> vd_passed r \<and> vd_sub_verdicts r \<noteq> []"
proof -
  let ?p = "\<lparr>vf_role_id = ''p'', vf_verify = pipeline_from verdict_text [rubric_leaf, rubric_leaf] []\<rparr>"
  have p: "Pipeline verdict_text [rubric_leaf, rubric_leaf] ''p'' = Inr ?p" by (simp add: Pipeline_def make_composer_def)
  have "\<exists>r. vf_verify ?p () demo_ctx = Inr r \<and> \<not> vd_passed r" by (simp add: rubric_leaf_def ground_truth_def demo_ctx_def)
  then obtain r where r: "vf_verify ?p () demo_ctx = Inr r" "\<not> vd_passed r" by blast
  from pipeline_exact [OF p r(1)] p r show ?thesis by auto
qed

text \<open>
  C32: a consensus is a strict majority: the verdict passes if and only if some answer was given by more than
  half of the verifiers that did not fail, the answer it reports is then that one, and every other
  answer has fewer than half of the votes.
\<close>

theorem consensus_is_majority:
  assumes "consensus_verdict repr_of fmt_percent key results = Inr r"
  defines "valid \<equiv> valid_verdicts results" and "answers \<equiv> given_answers key (valid_verdicts results)"
  shows "(vd_passed r \<longleftrightarrow> (\<exists>a\<in>set answers. length valid < 2 * votes answers a))
    \<and> (vd_passed r \<longrightarrow> (\<exists>a\<in>set answers. map_of (vd_metadata r) ''consensus_answer'' = Some a \<and> length valid < 2 * votes answers a
         \<and> (\<forall>b. hash_key b \<noteq> hash_key a \<longrightarrow> 2 * votes answers b < length valid)))"
proof (cases "valid = [] \<or> answers = []")
  case True
  then have "answers = []" by (auto simp: answers_def valid_def given_answers_def)
  moreover have "\<not> vd_passed r" using assms(1) True
    by (auto simp: consensus_verdict_def Let_def valid_def answers_def split: if_splits)
  ultimately show ?thesis by simp
next
  case False
  obtain a top where ct: "counter_top answers = (a, top)" by fastforce
  have ne: "answers \<noteq> []" using False by simp
  note C = counter_top_spec [OF ne, unfolded ct fst_conv snd_conv]
  have r: "vd_passed r = (length valid < top * 2)" "map_of (vd_metadata r) ''consensus_answer'' = Some a"
    using assms(1) False ct by (auto simp: consensus_verdict_def Let_def valid_def answers_def split: if_splits)
  have le: "length answers \<le> length valid" using given_answers_length by (simp add: answers_def valid_def)
  have "2 * votes answers b < length valid" if "length valid < 2 * votes answers a" "hash_key b \<noteq> hash_key a" for b
    using votes_disjoint [OF that(2), of answers] that(1) le by linarith
  moreover have "length valid < 2 * votes answers a" if "b \<in> set answers" "length valid < 2 * votes answers b" for b
    using C(3) [of b] C(2) that(2) by linarith
  ultimately show ?thesis using r C by (auto simp: mult.commute)
qed

theorem consensus_is_majority_witness:
  "\<exists>r. consensus_verdict verdict_text (\<lambda>x. []) ''answer'' (Inl TimeoutError # run_all [rubric_leaf, rubric_leaf] () demo_ctx) = Inr r \<and> vd_passed r"
proof -
  let ?rs = "Inl TimeoutError # run_all [rubric_leaf, rubric_leaf] () demo_ctx"
  have v: "length (valid_verdicts ?rs) = 2" "given_answers ''answer'' (valid_verdicts ?rs) = [JInt 42, JInt 42]"
    by (simp_all add: valid_verdicts_def run_all_def rubric_leaf_def map_filter_simps given_answers_def j_get_def dict_get_default_def)
  have "valid_verdicts ?rs \<noteq> []" using v(1) by auto
  then obtain r where r: "consensus_verdict verdict_text (\<lambda>x. []) ''answer'' ?rs = Inr r"
    by (auto simp: consensus_verdict_def v(2) Let_def case_prod_beta)
  have "votes [JInt 42, JInt 42] (JInt 42) = 2" by (simp add: votes_def)
  with consensus_is_majority [OF r] r show ?thesis unfolding v by auto
qed

text \<open>
  An ensemble's score lies between the lowest and the highest score of its parts, whichever
  aggregator computes it, and a majority ensemble passes exactly when more parts pass than fail.
\<close>

theorem ensemble_between:
  assumes "List.map_filter vd_score results \<noteq> []"
  shows "\<exists>x. vd_score (ensemble_verdict agg results) = Some x
    \<and> Min (set (List.map_filter vd_score results)) \<le> x \<and> x \<le> Max (set (List.map_filter vd_score results))
    \<and> (vd_passed (ensemble_verdict ''majority'' results) \<longleftrightarrow>
         length (filter (\<lambda>v. \<not> vd_passed v) results) < length (filter vd_passed results))"
proof -
  have "count_list (map vd_passed results) True = length (filter vd_passed results)"
    by (simp add: count_list_eq_length_filter filter_map o_def)
  moreover have "length results = length (filter vd_passed results) + length (filter (\<lambda>v. \<not> vd_passed v) results)"
    by (simp add: sum_length_filter_compl)
  ultimately have "vd_passed (ensemble_verdict ''majority'' results) \<longleftrightarrow>
      length (filter (\<lambda>v. \<not> vd_passed v) results) < length (filter vd_passed results)"
    by (simp add: ensemble_verdict_def ensemble_passed_def)
  then show ?thesis using assms median_bounds [OF assms] mean_bounds [OF assms]
    by (auto simp: ensemble_verdict_def ensemble_score_def)
qed

theorem ensemble_between_witness:
  "\<exists>x. vd_score (ensemble_verdict ''mean'' [Verdict (Some 1) True [] JNull [] [], Verdict (Some 3) False [] JNull [] []]) = Some x \<and> 1 \<le> x \<and> x \<le> 3"
proof -
  let ?rs = "[Verdict (Some 1) True [] JNull [] [], Verdict (Some 3) False [] JNull [] []]"
  have s: "List.map_filter vd_score ?rs = [1, 3]" by (simp add: map_filter_simps)
  then have "List.map_filter vd_score ?rs \<noteq> []" by simp
  from ensemble_between [OF this, of "''mean''"] show ?thesis unfolding s by auto
qed

definition bridgeable :: "(json \<Rightarrow> string) \<Rightarrow> AuditReport \<Rightarrow> bool" where
  "bridgeable fmt r =
     (ad_verdict r \<noteq> JNull \<and> \<not> raises (in_strings (ad_verdict r) {})
      \<and> ''_cycle_verdict'' \<notin> fst ` set (ad_metadata r) \<and> ''_cycle_raw_text'' \<notin> fst ` set (ad_metadata r)
      \<and> (\<forall>f\<in>set (ad_findings r). \<exists>s\<in>VALID_SEVERITIES. af_severity f = JStr s \<and> fmt (JStr s) = s))"

lemma merge_new_keys:
  assumes "k \<notin> fst ` set d" "k' \<notin> fst ` set d" "k \<noteq> k'"
  shows "merge_dicts d [(k, v), (k', v')] = d @ [(k, v), (k', v')]"
proof -
  have "k' \<notin> fst ` set (d @ [(k, v)])" using assms by auto
  then show ?thesis using assms(1) by (simp add: merge_dicts_def update_new_append)
qed

text \<open>
  C34: the bridge between cycle and verifiers: a report that is turned into a verdict and back keeps its
  verdict label, summary, confidence, raw text and metadata, and of every finding the severity, the
  short message and the file; the verdict passes exactly for the label the cycle counts as success.
\<close>

theorem bridge_roundtrip:
  assumes "bridgeable fmt r"
  shows "\<exists>v. verdict_from_audit_report fmt r = Inr v \<and> (vd_passed v \<longleftrightarrow> ad_verdict r = JStr ''success'')
    \<and> (let r' = audit_report_from_verdict DEFAULT_FAIL_LABEL v in
        ad_verdict r' = ad_verdict r \<and> ad_summary r' = ad_summary r \<and> ad_confidence r' = ad_confidence r
        \<and> ad_raw_text r' = ad_raw_text r \<and> ad_metadata r' = ad_metadata r
        \<and> map (\<lambda>f. (af_severity f, af_short_message f, af_file f)) (ad_findings r')
          = map (\<lambda>f. (af_severity f, af_short_message f, af_file f)) (ad_findings r))"
proof -
  obtain b where b: "in_strings (ad_verdict r) {''success''} = Inr b"
    using hashable_any [of "ad_verdict r"] assms unfolding bridgeable_def by blast
  have p: "b \<longleftrightarrow> ad_verdict r = JStr ''success''" using b by (cases "ad_verdict r") auto
  let ?k = "[(''_cycle_verdict'', ad_verdict r), (''_cycle_raw_text'', ad_raw_text r)]"
  have m: "merge_dicts (ad_metadata r) ?k = ad_metadata r @ ?k"
    using assms by (intro merge_new_keys) (auto simp: bridgeable_def)
  have n: "map_of (ad_metadata r) ''_cycle_verdict'' = None" "map_of (ad_metadata r) ''_cycle_raw_text'' = None"
    using assms by (auto simp: bridgeable_def map_of_eq_None_iff)
  have f: "filter (\<lambda>(k, v). k \<notin> {''_cycle_verdict'', ''_cycle_raw_text''}) (ad_metadata r) = ad_metadata r"
    using assms by (intro filter_True) (force simp: bridgeable_def)
  then have f': "filter (\<lambda>(k, v). k \<noteq> ''_cycle_verdict'' \<and> k \<noteq> ''_cycle_raw_text'') (ad_metadata r) = ad_metadata r"
    by simp
  show ?thesis
    using assms p unfolding verdict_from_audit_report_def b m
    by (auto simp: audit_report_from_verdict_def Let_def n f' j_get_def dict_get_default_def map_add_def bridgeable_def
        finding_of_def new_finding_def coerce_severity_def)
qed

theorem bridge_roundtrip_witness:
  "\<exists>v. verdict_from_audit_report verdict_text (demo_audit ''success'' (JStr ''fine'')) = Inr v \<and> vd_passed v"
proof -
  have "bridgeable verdict_text (demo_audit ''success'' (JStr ''fine''))" by (simp add: bridgeable_def demo_audit_def)
  from bridge_roundtrip [OF this] show ?thesis by (auto simp: demo_audit_def)
qed

end
