(* ===== verification/Call_Llm.thy ===== *)
theory Call_Llm
  imports Fallback Runaway Tool_Validation
begin

text \<open>
  One logical call of a model (\<^verbatim>\<open>runtime/loop/_call.py\<close>): the retry loop around the physical requests,
  with its deadlines, the admission gate, the streaming replay of invalid tool calls, the ladder of
  resamples after a reasoning runaway, the resampling of blank completions and the classification
  of errors.  The clock, the provider, the gate, the random factor of a pause and the callbacks are
  functions on a world \<open>'w\<close>.  Everything the call does is logged in a trace: the events of
  its attempts, its requests, its pauses and its readings of the nearest deadline.  Log messages are left out.
\<close>

section \<open>Pauses\<close>

definition WALL_DEADLINE_FLOOR_S :: real where "WALL_DEADLINE_FLOOR_S = 20"

definition STREAM_RECOVERY_MIN_TIMEOUT_S :: real where "STREAM_RECOVERY_MIN_TIMEOUT_S = 10"

definition RUNAWAY_BACKOFF_S :: real where "RUNAWAY_BACKOFF_S = 2"

lemmas call_constants = WALL_DEADLINE_FLOOR_S_def STREAM_RECOVERY_MIN_TIMEOUT_S_def RUNAWAY_BACKOFF_S_def

text \<open>The bases of the two schedules; \<open>factor\<close> is the value of \<open>random.uniform\<close>.\<close>

definition jittered :: "real \<Rightarrow> real \<Rightarrow> real" where
  "jittered base factor = base * factor"

definition default_backoff :: "nat \<Rightarrow> real \<Rightarrow> real" where
  "default_backoff attempt = jittered (min (2 * 2 ^ attempt) 60)"

definition default_rate_limit_backoff :: "nat \<Rightarrow> real \<Rightarrow> real" where
  "default_rate_limit_backoff attempt = jittered (min (30 * 2 ^ attempt) 300)"

text \<open>
  The header of a 429.  The attributes of an object are a dictionary, as are its headers; \<open>to_float\<close> is
  \<open>float\<close>, which may fail.
\<close>

definition header_seconds :: "(pyval \<Rightarrow> real option) \<Rightarrow> pyval \<Rightarrow> real option" where
  "header_seconds to_float headers =
     (case headers of
        PyDict h \<Rightarrow>
          let v = (if truthy (get_or_none h ''retry-after'') then get_or_none h ''retry-after''
                   else get_or_none h ''Retry-After'')
          in if truthy v then to_float v else None
      | _ \<Rightarrow> None)"

definition get_retry_after :: "(pyval \<Rightarrow> real option) \<Rightarrow> llm_exc \<Rightarrow> real option" where
  "get_retry_after to_float e =
     first_some
       [header_seconds to_float
          (case get_or_none (ex_attrs e) ''response'' of
             PyDict obj \<Rightarrow> (case map_of obj ''headers'' of Some h \<Rightarrow> h | None \<Rightarrow> PyDict obj)
           | v \<Rightarrow> v),
        header_seconds to_float (get_or_none (ex_attrs e) ''headers'')]"

definition stream_recovery_budget_too_small :: "real \<Rightarrow> real \<Rightarrow> bool" where
  "stream_recovery_budget_too_small remaining_s attempt_budget_s =
     (remaining_s < STREAM_RECOVERY_MIN_TIMEOUT_S \<and> remaining_s < attempt_budget_s / 2)"

section \<open>Data of a call\<close>

text \<open>What a request or a step of the call raises, sorted by the handler that takes it.\<close>

datatype call_raise =
    EmptyRaised llm_exc "LLMResponse option"
  | CallExhausted llm_exc string "llm_exc option"
  | RunawayRaised llm_exc LLMResponse
  | StallRaised llm_exc
  | TimeoutRaised llm_exc
  | ErrorRaised llm_exc
  | CancelRaised

record call_request =
  rq_max_tokens :: "int option"
  rq_messages :: "message list"
  rq_thinking :: "ThinkingRetryOverride option"
  rq_timeout :: real
  rq_guard_timeout :: "real option"
  rq_guard_tokens :: "int option"

record response_fields =
  rf_usage :: "Usage option"
  rf_finish_reason :: string
  rf_visible_chars :: nat
  rf_reasoning_chars :: nat
  rf_tool_calls_count :: nat

datatype attempt_outcome = Accepted | AcceptedDegraded | Discarded | AttemptFailed

record attempt_report =
  rp_index :: nat
  rp_outcome :: attempt_outcome
  rp_reason :: string
  rp_recovery_action :: string
  rp_duration_ms :: int
  rp_ttft_ms :: "int option"
  rp_max_tokens :: "int option"
  rp_thinking :: "ThinkingRetryOverride option"
  rp_error_type :: string
  rp_response :: "response_fields option"

datatype attempt_event = Started nat "int option" "ThinkingRetryOverride option" | Finished attempt_report

datatype call_action =
    Emitted attempt_event
  | DeadlineRead "(real \<times> string) option"
  | Requested call_request
  | Waited real
  | SlotTaken
  | SlotFreed

text \<open>The dictionary a caller keeps across turns.\<close>

record runaway_state =
  rs_consecutive_turns :: int
  rs_last_call_runaway_responses :: int
  rs_last_call_runaway_reasoning_chars :: int
  rs_last_call_recovered :: bool
  rs_last_call_reason :: string

text \<open>
  The arguments of \<open>call_llm\<close>, with the settings it reads from the environment, the size of the
  messages in tokens and the output limit of the model.
\<close>

record llm_call_args =
  ka_messages :: "message list"
  ka_llm_cap :: "int option"
  ka_tools :: "pyval list"
  ka_timeout :: real
  ka_max_retries :: int
  ka_turn :: int
  ka_use_stream :: bool
  ka_retry_wait_fixed :: "real option"
  ka_runaway_state :: "runaway_state option"
  ka_reasoning_only_timeout_s :: "real option"
  ka_reasoning_only_max_tokens :: "int option"
  ka_logical_call_timeout_s :: "real option"
  ka_max_completion_tokens_hint :: "int option"
  ka_context_token_limit_hint :: "int option"
  ka_empty_completion_max_retries :: int
  ka_gate_limit :: int
  ka_gate_wait_s :: real
  ka_runaway_max_retries :: int
  ka_stream_stall_max :: int
  ka_message_tokens :: int
  ka_output_limit :: "int option"

text \<open>
  The world: \<open>ke_acquire\<close> waits for the gate, at most so long, and says whether it got a slot; a stream also
  gives the time of its first delta; \<open>ke_fmt n\<close> prints a number with \<open>n\<close> decimals.
\<close>

record 'w call_env =
  ke_now :: "'w \<Rightarrow> real \<times> 'w"
  ke_wall_remaining :: "'w \<Rightarrow> real option \<times> 'w"
  ke_chain_fallback_active :: "'w \<Rightarrow> bool \<times> 'w"
  ke_uniform :: "'w \<Rightarrow> real \<times> 'w"
  ke_sleep :: "real \<Rightarrow> 'w \<Rightarrow> 'w"
  ke_on_attempt :: "attempt_event \<Rightarrow> 'w \<Rightarrow> 'w"
  ke_acquire :: "real option \<Rightarrow> 'w \<Rightarrow> bool \<times> 'w"
  ke_release :: "'w \<Rightarrow> 'w"
  ke_chat :: "call_request \<Rightarrow> 'w \<Rightarrow> (call_raise + LLMResponse) \<times> 'w"
  ke_stream :: "call_request \<Rightarrow> 'w \<Rightarrow> ((call_raise + LLMResponse) \<times> real option) \<times> 'w"
  ke_advance :: "llm_exc \<Rightarrow> 'w \<Rightarrow> bool \<times> 'w"
  ke_str_of :: "pyval \<Rightarrow> string"
  ke_fmt :: "nat \<Rightarrow> real \<Rightarrow> string"
  ke_to_float :: "pyval \<Rightarrow> real option"
  ke_loads :: "string \<Rightarrow> pyval option"
  ke_issue :: "pyval \<Rightarrow> json_schema option \<Rightarrow> string option"
  ke_fresh_id :: "'w \<Rightarrow> nat \<Rightarrow> string"

text \<open>The variables that live across the attempts of one call.\<close>

record 'w call_state =
  ks_world :: 'w
  ks_trace :: "call_action list"
  ks_logical_deadline :: "real option"
  ks_last_exc :: "llm_exc option"
  ks_runaway_retries :: int
  ks_runaway_attempts :: int
  ks_runaway_expanded :: bool
  ks_last_runaway_reason :: string
  ks_stream_stall_count :: int
  ks_runaway_state :: "runaway_state option"
  ks_cap :: "int option"
  ks_messages :: "message list"
  ks_retry_thinking :: "ThinkingRetryOverride option"
  ks_guard_timeout_s :: "real option"
  ks_guard_max_tokens :: "int option"
  ks_physical_index :: nat
  ks_empty_completions :: int
  ks_attempt :: nat

text \<open>The variables of one attempt.\<close>

record attempt_frame =
  kf_index :: nat
  kf_started :: real
  kf_first_delta :: "real option"
  kf_ended_at :: "real option"
  kf_cap :: "int option"
  kf_thinking :: "ThinkingRetryOverride option"
  kf_timeout :: real
  kf_deadline_reason :: string

text \<open>How an attempt leaves the body of the loop; \<open>BackOff\<close> goes to the code after the handlers.\<close>

datatype 'w attempt_end =
    Returned LLMResponse "'w call_state"
  | RaisedOut call_raise "'w call_state"
  | NextAttempt "'w call_state"
  | BackOff real string llm_exc "'w call_state"

section \<open>Clock, deadlines and events\<close>

definition log_action :: "call_action \<Rightarrow> 'w call_state \<Rightarrow> 'w call_state" where
  "log_action x st = st\<lparr>ks_trace := ks_trace st @ [x]\<rparr>"

definition call_clock :: "'w call_env \<Rightarrow> 'w call_state \<Rightarrow> real \<times> 'w call_state" where
  "call_clock env st = (case ke_now env (ks_world st) of (t, w) \<Rightarrow> (t, st\<lparr>ks_world := w\<rparr>))"

definition chain_active :: "'w call_env \<Rightarrow> 'w call_state \<Rightarrow> bool \<times> 'w call_state" where
  "chain_active env st = (case ke_chain_fallback_active env (ks_world st) of (b, w) \<Rightarrow> (b, st\<lparr>ks_world := w\<rparr>))"

definition call_sleep :: "'w call_env \<Rightarrow> real \<Rightarrow> 'w call_state \<Rightarrow> 'w call_state" where
  "call_sleep env s st = log_action (Waited s) (st\<lparr>ks_world := ke_sleep env s (ks_world st)\<rparr>)"

definition transient_backoff :: "'w call_env \<Rightarrow> llm_call_args \<Rightarrow> nat \<Rightarrow> 'w call_state \<Rightarrow> real \<times> 'w call_state" where
  "transient_backoff env a attempt st =
     (case ka_retry_wait_fixed a of
        Some s \<Rightarrow> (s, st)
      | None \<Rightarrow> (case ke_uniform env (ks_world st) of (f, w) \<Rightarrow> (default_backoff attempt f, st\<lparr>ks_world := w\<rparr>)))"

text \<open>The nearest of the two deadlines; at equal distance the wall.\<close>

definition nearest_deadline :: "'w call_env \<Rightarrow> 'w call_state \<Rightarrow> (real \<times> string) option \<times> 'w call_state" where
  "nearest_deadline env st =
     (case ke_wall_remaining env (ks_world st) of
        (wall, w) \<Rightarrow>
          let st1 = st\<lparr>ks_world := w\<rparr>;
              (logical, st2) = (case ks_logical_deadline st1 of
                                  None \<Rightarrow> (None, st1)
                                | Some d \<Rightarrow> (case call_clock env st1 of (now, st') \<Rightarrow> (Some (d - now), st')));
              d = (case (wall, logical) of
                     (None, None) \<Rightarrow> None
                   | (Some x, None) \<Rightarrow> Some (x, ''wall_deadline'')
                   | (None, Some y) \<Rightarrow> Some (y, ''logical_call_deadline'')
                   | (Some x, Some y) \<Rightarrow> if x \<le> y then Some (x, ''wall_deadline'') else Some (y, ''logical_call_deadline''))
          in (d, log_action (DeadlineRead d) st2))"

definition effective_timeout ::
  "'w call_env \<Rightarrow> llm_call_args \<Rightarrow> 'w call_state \<Rightarrow> (call_raise + real \<times> string) \<times> 'w call_state" where
  "effective_timeout env a st =
     (case nearest_deadline env st of
        (None, st1) \<Rightarrow> (Inr (ka_timeout a, []), st1)
      | (Some (remaining, reason), st1) \<Rightarrow>
          if remaining < ka_timeout a then
            if remaining < WALL_DEADLINE_FLOOR_S then
              (Inl (CallExhausted
                      (LLMDeadlineExceeded reason
                         (ke_fmt env 0 remaining @ ''s left < '' @ ke_fmt env 0 WALL_DEADLINE_FLOOR_S @ ''s attempt floor''))
                      reason (ks_last_exc st1)), st1)
            else (Inr (remaining, reason), st1)
          else (Inr (ka_timeout a, []), st1))"

definition deadline_allows_retry_after :: "'w call_env \<Rightarrow> real \<Rightarrow> 'w call_state \<Rightarrow> bool \<times> 'w call_state" where
  "deadline_allows_retry_after env delay_s st =
     (case nearest_deadline env st of
        (d, st1) \<Rightarrow>
          (case d of None \<Rightarrow> True | Some (remaining, _) \<Rightarrow> delay_s + WALL_DEADLINE_FLOOR_S < remaining, st1))"

definition emit_attempt :: "'w call_env \<Rightarrow> attempt_event \<Rightarrow> 'w call_state \<Rightarrow> 'w call_state" where
  "emit_attempt env ev st = log_action (Emitted ev) (st\<lparr>ks_world := ke_on_attempt env ev (ks_world st)\<rparr>)"

definition response_attempt_fields :: "(pyval \<Rightarrow> string) \<Rightarrow> LLMResponse \<Rightarrow> response_fields" where
  "response_attempt_fields str_of r =
     \<lparr>rf_usage = extract_usage str_of r, rf_finish_reason = ll_finish_reason r,
      rf_visible_chars = length (visible_response_text str_of r),
      rf_reasoning_chars = length (ll_reasoning_content r), rf_tool_calls_count = length (ll_tool_calls r)\<rparr>"

text \<open>\<open>int(...)\<close> of a float rounds towards zero.\<close>

definition trunc_int :: "real \<Rightarrow> int" where
  "trunc_int s = (if 0 \<le> s then \<lfloor>s\<rfloor> else \<lceil>s\<rceil>)"

definition millis :: "real \<Rightarrow> int" where
  "millis s = trunc_int (s * 1000)"

definition finish_attempt ::
  "'w call_env \<Rightarrow> attempt_frame \<Rightarrow> attempt_outcome \<Rightarrow> string \<Rightarrow> string \<Rightarrow> LLMResponse option \<Rightarrow> string \<Rightarrow>
   real option \<Rightarrow> 'w call_state \<Rightarrow> 'w call_state" where
  "finish_attempt env fr outcome reason action response error_type ended_at st =
     (let (now, st1) = (case ended_at of Some t \<Rightarrow> (t, st) | None \<Rightarrow> call_clock env st)
      in emit_attempt env
           (Finished \<lparr>rp_index = kf_index fr, rp_outcome = outcome, rp_reason = reason, rp_recovery_action = action,
              rp_duration_ms = millis (now - kf_started fr),
              rp_ttft_ms = map_option (\<lambda>t. millis (t - kf_started fr)) (kf_first_delta fr),
              rp_max_tokens = kf_cap fr, rp_thinking = kf_thinking fr, rp_error_type = error_type,
              rp_response = map_option (response_attempt_fields (ke_str_of env)) response\<rparr>) st1)"

section \<open>One attempt up to its request\<close>

definition active_cap :: "llm_call_args \<Rightarrow> 'w call_state \<Rightarrow> int option" where
  "active_cap a st =
     (case ks_cap st of
        None \<Rightarrow> ka_max_completion_tokens_hint a
      | Some c \<Rightarrow> if c = 0 then ka_max_completion_tokens_hint a else Some c)"

definition start_attempt ::
  "'w call_env \<Rightarrow> llm_call_args \<Rightarrow> 'w call_state \<Rightarrow> (call_raise + attempt_frame) \<times> 'w call_state" where
  "start_attempt env a st =
     (case effective_timeout env a st of
        (Inl x, st1) \<Rightarrow> (Inl x, st1)
      | (Inr (t, reason), st1) \<Rightarrow>
          let (now, st2) = call_clock env (st1\<lparr>ks_physical_index := ks_physical_index st1 + 1\<rparr>);
              fr = \<lparr>kf_index = ks_physical_index st2, kf_started = now, kf_first_delta = None, kf_ended_at = None,
                    kf_cap = active_cap a st2, kf_thinking = ks_retry_thinking st2, kf_timeout = t, kf_deadline_reason = reason\<rparr>
          in (Inr fr, emit_attempt env (Started (kf_index fr) (kf_cap fr) (kf_thinking fr)) st2))"

definition request_of :: "attempt_frame \<Rightarrow> real \<Rightarrow> 'w call_state \<Rightarrow> call_request" where
  "request_of fr timeout st =
     \<lparr>rq_max_tokens = ks_cap st, rq_messages = ks_messages st, rq_thinking = kf_thinking fr, rq_timeout = timeout,
      rq_guard_timeout = ks_guard_timeout_s st, rq_guard_tokens = ks_guard_max_tokens st\<rparr>"

definition chat_active ::
  "'w call_env \<Rightarrow> attempt_frame \<Rightarrow> 'w call_state \<Rightarrow> (call_raise + LLMResponse) \<times> 'w call_state" where
  "chat_active env fr st =
     (let (begun, st1) = call_clock env st;
          q = (request_of fr (kf_timeout fr) st1)\<lparr>rq_guard_timeout := None, rq_guard_tokens := None\<rparr>;
          (res, w) = ke_chat env q (ks_world st1);
          st2 = (log_action (Requested q) st1)\<lparr>ks_world := w\<rparr>
      in case res of
           Inl x \<Rightarrow> (Inl x, st2)
         | Inr r \<Rightarrow>
             if is_wholly_empty_response (ke_str_of env) r
             then (case call_clock env st2 of
                     (now, st3) \<Rightarrow> (Inl (EmptyRaised (LLMEmptyCompletion 0 (ke_fmt env 1 (now - begun))) (Some r)), st3))
             else (Inr r, st2))"

definition stream_active ::
  "'w call_env \<Rightarrow> attempt_frame \<Rightarrow> real \<Rightarrow> 'w call_state \<Rightarrow> ((call_raise + LLMResponse) \<times> real option) \<times> 'w call_state" where
  "stream_active env fr timeout st =
     (let q = request_of fr timeout st; (res, w) = ke_stream env q (ks_world st)
      in (res, (log_action (Requested q) st)\<lparr>ks_world := w\<rparr>))"

section \<open>The admission gate\<close>

text \<open>How long to wait for a slot, and the deadline that makes it so, if one does.\<close>

definition gate_wait :: "real \<Rightarrow> (real \<times> string) option \<Rightarrow> real option \<times> string" where
  "gate_wait configured d =
     (let c = (if 0 < configured then Some configured else None) in
      case d of
        None \<Rightarrow> (c, [])
      | Some (remaining, reason) \<Rightarrow>
          let w = remaining - WALL_DEADLINE_FLOOR_S in
          (case c of None \<Rightarrow> (Some w, reason) | Some s \<Rightarrow> if w \<le> s then (Some w, reason) else (Some s, [])))"

definition gate_timeout_error :: "'w call_env \<Rightarrow> real option \<Rightarrow> string \<Rightarrow> llm_exc option \<Rightarrow> call_raise" where
  "gate_timeout_error env wait reason prior =
     (if reason \<noteq> []
      then CallExhausted (LLMDeadlineExceeded reason ''concurrency-gate wait consumed the remaining budget'') reason prior
      else CallExhausted
             ((plain_exc ''_GateWaitTimeout''
                (''concurrency gate stayed saturated for '' @ (case wait of None \<Rightarrow> [] | Some s \<Rightarrow> ke_fmt env 0 s) @ ''s''))
              \<lparr>ex_is_timeout := True\<rparr>) ''gate_wait'' prior)"

definition take_slot :: "'w call_env \<Rightarrow> llm_call_args \<Rightarrow> 'w call_state \<Rightarrow> call_raise option \<times> 'w call_state" where
  "take_slot env a st =
     (let (d, st1) = nearest_deadline env st;
          (res, st2) = (case d of
                          None \<Rightarrow> (Inr (0, []), st1)
                        | Some (remaining, reason) \<Rightarrow>
                            if remaining - WALL_DEADLINE_FLOOR_S \<le> 0 then effective_timeout env a st1 else (Inr (0, []), st1))
      in case res of
           Inl x \<Rightarrow> (Some x, st2)
         | Inr _ \<Rightarrow>
             let (wait, reason) = gate_wait (ka_gate_wait_s a) d; (got, w) = ke_acquire env wait (ks_world st2);
                 st3 = st2\<lparr>ks_world := w\<rparr>
             in if got then (None, log_action SlotTaken st3)
                else (Some (gate_timeout_error env wait reason (ks_last_exc st3)), st3))"

definition free_slot :: "'w call_env \<Rightarrow> 'w call_state \<Rightarrow> 'w call_state" where
  "free_slot env st = log_action SlotFreed (st\<lparr>ks_world := ke_release env (ks_world st)\<rparr>)"

section \<open>The request, and the replay of a stream with invalid calls\<close>

definition timeout_error :: "string \<Rightarrow> call_raise" where
  "timeout_error msg = TimeoutRaised ((plain_exc ''TimeoutError'' msg)\<lparr>ex_is_timeout := True\<rparr>)"

fun raise_name :: "call_raise \<Rightarrow> string" where
  "raise_name (EmptyRaised e p) = ex_type e"
| "raise_name (CallExhausted e reason prior) = ''LLMCallExhausted''"
| "raise_name (RunawayRaised e p) = ex_type e"
| "raise_name (StallRaised e) = ex_type e"
| "raise_name (TimeoutRaised e) = ex_type e"
| "raise_name (ErrorRaised e) = ex_type e"
| "raise_name CancelRaised = ''CancelledError''"

fun partial_of :: "call_raise \<Rightarrow> LLMResponse option" where
  "partial_of (EmptyRaised e p) = p"
| "partial_of (RunawayRaised e p) = Some p"
| "partial_of x = None"

definition issue_value :: "call_issue \<Rightarrow> pyval" where
  "issue_value i =
     PyDict [(''index'', PyInt (int (ci_index i))), (''id'', ci_id i), (''name'', ci_name i),
             (''raw_arguments'', ci_raw_arguments i), (''reason'', PyStr (ci_reason i))]"

definition add_metadata :: "(string \<times> pyval) list \<Rightarrow> LLMResponse \<Rightarrow> LLMResponse" where
  "add_metadata kvs r = r\<lparr>ll_response_metadata := fold (\<lambda>(k, v). AList.update k v) kvs (ll_response_metadata r)\<rparr>"

definition invalid_calls :: "'w call_env \<Rightarrow> llm_call_args \<Rightarrow> LLMResponse \<Rightarrow> call_issue list" where
  "invalid_calls env a r = invalid_native_tool_calls (ke_issue env) (ka_tools a) (ll_tool_calls r)"

definition legacy_empty_args_tools :: "'w call_env \<Rightarrow> llm_call_args \<Rightarrow> LLMResponse \<Rightarrow> string list" where
  "legacy_empty_args_tools env a r =
     stream_tool_calls_missing_required_arguments (ke_loads env) (PyList (ka_tools a)) (ll_tool_calls r)"

text \<open>
  The replay: its error with its index and start, if it was started, or its response with the time of
  the first delta, its index and its start.
\<close>

definition try_replay ::
  "'w call_env \<Rightarrow> llm_call_args \<Rightarrow> attempt_frame \<Rightarrow> real \<Rightarrow> real \<Rightarrow> 'w call_state \<Rightarrow>
   ((call_raise \<times> (nat \<times> real) option) + (LLMResponse \<times> real option \<times> nat \<times> real)) \<times> 'w call_state" where
  "try_replay env a fr attempt_deadline stream_ended_at st =
     (case effective_timeout env a st of
        (Inl x, st1) \<Rightarrow> (Inl (x, None), st1)
      | (Inr (t, _), st1) \<Rightarrow>
          let budget = min t (max (attempt_deadline - stream_ended_at) 0) in
          if stream_recovery_budget_too_small budget (kf_timeout fr) then
            (Inl (timeout_error (''only '' @ ke_fmt env 0 budget @ ''s of the '' @ ke_fmt env 0 (kf_timeout fr)
                    @ ''s attempt budget left for the retry''), None), st1)
          else
            let (begun, st2) = call_clock env (st1\<lparr>ks_physical_index := ks_physical_index st1 + 1\<rparr>);
                i = ks_physical_index st2;
                st3 = emit_attempt env (Started i (kf_cap fr) (kf_thinking fr)) st2
            in case effective_timeout env a st3 of
                 (Inl x, st4) \<Rightarrow> (Inl (x, Some (i, begun)), st4)
               | (Inr (t', _), st4) \<Rightarrow>
                   let (now, st5) = call_clock env st4; budget' = min t' (max (attempt_deadline - now) 0) in
                   if stream_recovery_budget_too_small budget' (kf_timeout fr) then
                     (Inl (timeout_error ''no useful streaming retry budget remains after observation'', Some (i, begun)), st5)
                   else case stream_active env fr budget' st5 of
                          ((Inl x, _), st6) \<Rightarrow> (Inl (x, Some (i, begun)), st6)
                        | ((Inr r, first), st6) \<Rightarrow> (Inr (r, first, i, begun), st6))"

text \<open>A failed replay: the streamed response is kept, and marked.\<close>

definition keep_streamed ::
  "'w call_env \<Rightarrow> attempt_frame \<Rightarrow> call_issue list \<Rightarrow> string list \<Rightarrow> call_raise \<Rightarrow> (nat \<times> real) option \<Rightarrow>
   LLMResponse \<Rightarrow> 'w call_state \<Rightarrow> LLMResponse \<times> 'w call_state" where
  "keep_streamed env fr invalid legacy x replay r st =
     (add_metadata
        ([(''invalid_tool_call_retry'', PyBool False), (''invalid_tool_calls'', PyList (map issue_value invalid)),
          (''invalid_tool_call_recovery_error'', PyStr (raise_name x))]
         @ (if legacy \<noteq> [] then [(''stream_empty_args_fallback'', PyBool False),
              (''stream_empty_args_tools'', PyList (map PyStr legacy)),
              (''stream_empty_args_recovery_error'', PyStr (raise_name x))] else [])) r,
      case replay of
        None \<Rightarrow> st
      | Some (i, begun) \<Rightarrow>
          finish_attempt env (fr\<lparr>kf_index := i, kf_started := begun, kf_first_delta := None\<rparr>) AttemptFailed
            (case x of EmptyRaised _ _ \<Rightarrow> ''empty_completion''
             | _ \<Rightarrow> if legacy \<noteq> [] then ''stream_empty_args_replay'' else ''stream_invalid_tool_call_retry'')
            ''keep_streamed_response'' (partial_of x) (raise_name x) None st)"

text \<open>A replay that answered: the stream is closed as an attempt of its own, and the replay takes its place.\<close>

definition accept_replay ::
  "'w call_env \<Rightarrow> llm_call_args \<Rightarrow> attempt_frame \<Rightarrow> string list \<Rightarrow> LLMResponse \<Rightarrow> real \<Rightarrow>
   LLMResponse \<times> real option \<times> nat \<times> real \<Rightarrow> 'w call_state \<Rightarrow> (LLMResponse \<times> attempt_frame) \<times> 'w call_state" where
  "accept_replay env a fr legacy streamed stream_ended_at replay st =
     (case replay of
        (recovered, first, i, begun) \<Rightarrow>
          ((add_metadata
              ([(''invalid_tool_call_retry'', PyBool True),
                (''invalid_tool_calls'', PyList (map issue_value (invalid_calls env a recovered))),
                (''stream_finish_reason'', PyStr (ll_finish_reason streamed))]
               @ (if legacy \<noteq> [] then [(''stream_empty_args_fallback'', PyBool True),
                    (''stream_empty_args_tools'', PyList (map PyStr legacy))] else [])) recovered,
            fr\<lparr>kf_index := i, kf_started := begun, kf_first_delta := first\<rparr>),
           finish_attempt env fr Discarded
             (if legacy \<noteq> [] then ''stream_empty_tool_arguments'' else ''stream_invalid_tool_call'')
             ''retry_streaming'' (Some streamed) [] (Some stream_ended_at) st))"

definition stream_phase ::
  "'w call_env \<Rightarrow> llm_call_args \<Rightarrow> attempt_frame \<Rightarrow> real \<Rightarrow> 'w call_state \<Rightarrow>
   ((call_raise + LLMResponse) \<times> attempt_frame) \<times> 'w call_state" where
  "stream_phase env a fr attempt_deadline st =
     (case stream_active env fr (kf_timeout fr) st of
        ((Inl x, first), st1) \<Rightarrow> ((Inl x, fr\<lparr>kf_first_delta := first\<rparr>), st1)
      | ((Inr r, first), st1) \<Rightarrow>
          let fr1 = fr\<lparr>kf_first_delta := first\<rparr>; invalid = invalid_calls env a r; legacy = legacy_empty_args_tools env a r in
          if invalid = [] \<and> legacy = [] then ((Inr r, fr1), st1)
          else
            let (ended, st2) = call_clock env st1 in
            case try_replay env a fr1 attempt_deadline ended st2 of
              (Inl (CancelRaised, _), st3) \<Rightarrow> ((Inl CancelRaised, fr1), st3)
            | (Inl (x, replay), st3) \<Rightarrow>
                (case keep_streamed env fr1 invalid legacy x replay r st3 of
                   (r', st4) \<Rightarrow> ((Inr r', fr1\<lparr>kf_ended_at := Some ended\<rparr>), st4))
            | (Inr replay, st3) \<Rightarrow>
                (case accept_replay env a fr1 legacy r ended replay st3 of
                   ((r', fr2), st4) \<Rightarrow> ((Inr r', fr2), st4)))"

definition request_phase ::
  "'w call_env \<Rightarrow> llm_call_args \<Rightarrow> attempt_frame \<Rightarrow> 'w call_state \<Rightarrow> ((call_raise + LLMResponse) \<times> attempt_frame) \<times> 'w call_state" where
  "request_phase env a fr st =
     (case call_clock env st of
        (now, st1) \<Rightarrow>
          if ka_use_stream a then stream_phase env a fr (now + kf_timeout fr) st1
          else (case chat_active env fr st1 of (res, st2) \<Rightarrow> ((res, fr), st2)))"

definition run_request ::
  "'w call_env \<Rightarrow> llm_call_args \<Rightarrow> attempt_frame \<Rightarrow> 'w call_state \<Rightarrow> ((call_raise + LLMResponse) \<times> attempt_frame) \<times> 'w call_state" where
  "run_request env a fr st =
     (if ka_gate_limit a \<le> 0 then request_phase env a fr st
      else case take_slot env a st of
             (Some x, st1) \<Rightarrow> ((Inl x, fr), st1)
           | (None, st1) \<Rightarrow>
               (case effective_timeout env a st1 of
                  (Inl x, st2) \<Rightarrow> ((Inl x, fr), free_slot env st2)
                | (Inr (t, reason), st2) \<Rightarrow>
                    (case request_phase env a (fr\<lparr>kf_timeout := t, kf_deadline_reason := reason\<rparr>) st2 of
                       (res, st3) \<Rightarrow> (res, free_slot env st3))))"

section \<open>Reasoning runaways\<close>

fun guidance_text :: "guidance \<Rightarrow> string" where
  "guidance_text ExpandedGuidance =
     ''[system reminder] The previous attempt used its full private-reasoning '' @
     ''budget without producing visible output. This task may legitimately '' @
     ''require extended scientific or mathematical reasoning, so this retry '' @
     ''has a larger thinking budget. Complete the analysis, while reserving '' @
     ''enough output for either one valid tool call or a visible answer.''"
| "guidance_text RecoveryGuidance =
     ''[system reminder] The expanded-thinking retry still produced no visible '' @
     ''answer or tool call, or could not fit in the available context. Use only '' @
     ''a short, bounded reasoning pass now, then promptly emit either one valid '' @
     ''tool call or visible answer text. Do not re-derive the full plan.''"
| "guidance_text ReducedGuidance =
     ''[system reminder] The previous attempt stopped without producing a visible '' @
     ''answer or tool call. Use only a short, '' @
     ''bounded reasoning pass now, then promptly emit either one valid tool call '' @
     ''or visible answer text. Do not re-derive the full plan.''"
| "guidance_text DirectGuidance =
     ''[system reminder] Three consecutive attempts spent their budgets in '' @
     ''private reasoning without producing a visible answer or tool call. '' @
     ''Thinking is disabled for this retry. Immediately emit either one valid '' @
     ''tool call that advances the task or a visible best-effort answer.''"

definition runaway_retry_messages :: "message list \<Rightarrow> string \<Rightarrow> message list" where
  "runaway_retry_messages messages guidance = messages @ [AList.update ''transient'' (PyBool True) (user_msg guidance)]"

definition count_runaway :: "LLMResponse \<Rightarrow> 'w call_state \<Rightarrow> 'w call_state" where
  "count_runaway r st =
     st\<lparr>ks_runaway_state := map_option (\<lambda>s. s
          \<lparr>rs_last_call_runaway_responses := rs_last_call_runaway_responses s + 1,
           rs_last_call_runaway_reasoning_chars :=
             rs_last_call_runaway_reasoning_chars s + int (length (ll_reasoning_content r))\<rparr>) (ks_runaway_state st)\<rparr>"

definition give_up_runaway :: "string \<Rightarrow> 'w call_state \<Rightarrow> 'w call_state" where
  "give_up_runaway reason st =
     st\<lparr>ks_runaway_state := map_option (\<lambda>s. s
          \<lparr>rs_consecutive_turns := rs_consecutive_turns s + 1, rs_last_call_reason := reason\<rparr>) (ks_runaway_state st)\<rparr>"

text \<open>The deadline is read only when both budgets allow another sample.\<close>

definition may_resample :: "'w call_env \<Rightarrow> llm_call_args \<Rightarrow> 'w call_state \<Rightarrow> bool \<times> 'w call_state" where
  "may_resample env a st =
     (if ks_runaway_attempts st < ka_runaway_max_retries a \<and> int (ks_attempt st) < ka_max_retries a - 1
      then deadline_allows_retry_after env RUNAWAY_BACKOFF_S st else (False, st))"

text \<open>The next rung: a larger cap once, reduced caps from then on, with the thinking policy and the guidance of the rung.\<close>

definition bind_rung :: "llm_call_args \<Rightarrow> int option \<Rightarrow> int option \<Rightarrow> 'w call_state \<Rightarrow> 'w call_state" where
  "bind_rung a expansion_cap reduced st =
     (let next_retry = ks_runaway_retries st + 1;
          st1 = st\<lparr>ks_runaway_attempts := ks_runaway_attempts st + 1\<rparr>
      in case (if next_retry = 1 \<and> RUNAWAY_DISABLE_THINKING_AFTER \<le> ka_runaway_max_retries a
               then expanded_retry_max_tokens expansion_cap (ka_message_tokens a) (ka_context_token_limit_hint a) (ka_output_limit a)
               else None) of
           Some c \<Rightarrow> st1\<lparr>ks_runaway_retries := 1, ks_runaway_expanded := True, ks_cap := Some c\<rparr>
         | None \<Rightarrow> st1\<lparr>ks_runaway_retries := max next_retry 2, ks_cap := reduced\<rparr>)"

definition climb_ladder ::
  "llm_call_args \<Rightarrow> int option \<Rightarrow> int option \<Rightarrow> 'w call_state \<Rightarrow> string \<times> 'w call_state" where
  "climb_ladder a expansion_cap reduced st =
     (let st1 = bind_rung a expansion_cap reduced st;
          (guard_s, guard_n) = phase_reasoning_guard (ks_runaway_retries st1) expansion_cap (ks_cap st1)
                                 (ka_reasoning_only_timeout_s a) (ka_reasoning_only_max_tokens a);
          (thinking, guide, action) = runaway_retry_policy (ks_runaway_retries st1) (ks_cap st1) (ks_runaway_expanded st1)
      in (action, st1\<lparr>ks_guard_timeout_s := guard_s, ks_guard_max_tokens := guard_n, ks_retry_thinking := Some thinking,
                       ks_messages := runaway_retry_messages (ka_messages a) (guidance_text guide)\<rparr>))"

definition next_attempt :: "'w call_state \<Rightarrow> 'w attempt_end" where
  "next_attempt st = NextAttempt (st\<lparr>ks_attempt := ks_attempt st + 1\<rparr>)"

definition expansion_cap :: "'w call_env \<Rightarrow> attempt_frame \<Rightarrow> LLMResponse \<Rightarrow> int option" where
  "expansion_cap env fr r =
     (case kf_cap fr of
        Some c \<Rightarrow> if c \<noteq> 0 then Some c else map_option us_completion_tokens (extract_usage (ke_str_of env) r)
      | None \<Rightarrow> map_option us_completion_tokens (extract_usage (ke_str_of env) r))"

definition on_runaway :: "'w call_env \<Rightarrow> llm_call_args \<Rightarrow> attempt_frame \<Rightarrow> LLMResponse \<Rightarrow> 'w call_state \<Rightarrow> 'w attempt_end" where
  "on_runaway env a fr r st =
     (case may_resample env a (count_runaway r (st\<lparr>ks_last_runaway_reason := ''reasoning_runaway''\<rparr>)) of
        (True, st1) \<Rightarrow>
          (case climb_ladder a (expansion_cap env fr r)
                  (bind_reduced_max_tokens (ke_str_of env) (ks_cap st1) (Some r) None) st1 of
             (action, st2) \<Rightarrow>
               next_attempt (call_sleep env RUNAWAY_BACKOFF_S
                 (finish_attempt env fr Discarded ''reasoning_runaway'' action (Some r) [] None st2)))
      | (False, st1) \<Rightarrow>
          Returned r (finish_attempt env fr AcceptedDegraded ''reasoning_runaway'' ''return_to_loop'' (Some r) [] None
            (give_up_runaway ''reasoning_runaway'' st1)))"

definition on_early_runaway ::
  "'w call_env \<Rightarrow> llm_call_args \<Rightarrow> attempt_frame \<Rightarrow> llm_exc \<Rightarrow> LLMResponse \<Rightarrow> 'w call_state \<Rightarrow> 'w attempt_end" where
  "on_early_runaway env a fr e partial st =
     (case may_resample env a (count_runaway partial (st\<lparr>ks_last_runaway_reason := ''reasoning_runaway_early''\<rparr>)) of
        (True, st1) \<Rightarrow>
          (case climb_ladder a (kf_cap fr) (bind_reduced_max_tokens (ke_str_of env) (ks_cap st1) None (kf_cap fr)) st1 of
             (action, st2) \<Rightarrow>
               next_attempt (call_sleep env RUNAWAY_BACKOFF_S
                 (finish_attempt env fr Discarded ''reasoning_runaway_early'' action (Some partial) (ex_type e) None st2)))
      | (False, st1) \<Rightarrow>
          let r = add_metadata [(''reasoning_runaway_early'', PyBool True)] partial in
          Returned r (finish_attempt env fr AcceptedDegraded ''reasoning_runaway_early'' ''return_to_loop'' (Some r) (ex_type e) None
            (give_up_runaway ''reasoning_runaway_early'' st1)))"

section \<open>Responses\<close>

definition settle_runaway :: "'w call_state \<Rightarrow> 'w call_state" where
  "settle_runaway st =
     st\<lparr>ks_runaway_state := map_option (\<lambda>s. s
          \<lparr>rs_consecutive_turns := 0, rs_last_call_recovered := (ks_runaway_retries st \<noteq> 0),
           rs_last_call_reason := (if ks_runaway_retries st = 0 then rs_last_call_reason s
                                   else if ks_last_runaway_reason st \<noteq> [] then ks_last_runaway_reason st
                                   else ''reasoning_runaway'')\<rparr>) (ks_runaway_state st)\<rparr>"

definition accept_response :: "'w call_env \<Rightarrow> llm_call_args \<Rightarrow> attempt_frame \<Rightarrow> LLMResponse \<Rightarrow> 'w call_state \<Rightarrow> 'w attempt_end" where
  "accept_response env a fr r st =
     (let invalid = invalid_calls env a r \<noteq> [] in
      Returned r (finish_attempt env fr (if invalid then AcceptedDegraded else Accepted)
        (if invalid then ''invalid_tool_call'' else []) (if invalid then ''return_invalid_tool_feedback'' else ''accepted'')
        (Some r) [] (kf_ended_at fr) (settle_runaway st)))"

definition on_response :: "'w call_env \<Rightarrow> llm_call_args \<Rightarrow> attempt_frame \<Rightarrow> LLMResponse \<Rightarrow> 'w call_state \<Rightarrow> 'w attempt_end" where
  "on_response env a fr r st =
     (let r' = r\<lparr>ll_tool_calls := fst (ensure_tool_call_ids (ke_fresh_id env (ks_world st)) (ll_tool_calls r))\<rparr> in
      if is_runaway_response (ke_str_of env) (Some r') then on_runaway env a fr r' st else accept_response env a fr r' st)"

section \<open>Errors\<close>

definition resample_empty ::
  "'w call_env \<Rightarrow> llm_call_args \<Rightarrow> attempt_frame \<Rightarrow> llm_exc \<Rightarrow> LLMResponse option \<Rightarrow> bool \<Rightarrow> 'w call_state \<Rightarrow> 'w attempt_end" where
  "resample_empty env a fr e partial advance st =
     (let (delay, st1) = (if advance then (0, st) else transient_backoff env a (nat (ks_empty_completions st - 1)) st);
          (d, st2) = nearest_deadline env st1;
          go_on = NextAttempt (call_sleep env delay
                    (finish_attempt env fr Discarded ''empty_completion'' (if advance then ''chain_advance'' else ''retry_same_key'')
                       partial (ex_type e) None st2))
      in case d of
           None \<Rightarrow> go_on
         | Some (remaining, reason) \<Rightarrow>
             if remaining < delay + WALL_DEADLINE_FLOOR_S then
               let dl = LLMDeadlineExceeded reason ''no budget for empty resample'' in
               RaisedOut (CallExhausted dl reason (Some e))
                 (finish_attempt env fr AttemptFailed reason ''abandon_retry'' partial (ex_type dl) None st2)
             else go_on)"

definition recover_empty_completion ::
  "'w call_env \<Rightarrow> llm_call_args \<Rightarrow> attempt_frame \<Rightarrow> llm_exc \<Rightarrow> LLMResponse option \<Rightarrow> 'w call_state \<Rightarrow> 'w attempt_end" where
  "recover_empty_completion env a fr e partial st =
     (let st1 = st\<lparr>ks_last_exc := Some e, ks_empty_completions := ks_empty_completions st + 1\<rparr> in
      if ks_empty_completions st1 \<le> max (ka_empty_completion_max_retries a) 0 then resample_empty env a fr e partial False st1
      else case ke_advance env e (ks_world st1) of
             (True, w) \<Rightarrow> resample_empty env a fr e partial True (st1\<lparr>ks_world := w, ks_empty_completions := 0\<rparr>)
           | (False, w) \<Rightarrow>
               (case chain_active env (st1\<lparr>ks_world := w\<rparr>) of
                  (active, st2) \<Rightarrow>
                    let reason = (if active then ''chain_advance'' else ''empty_completion'') in
                    RaisedOut (CallExhausted e reason None)
                      (finish_attempt env fr AttemptFailed ''empty_completion'' reason partial (ex_type e) None st2)))"

definition fail_attempt ::
  "'w call_env \<Rightarrow> attempt_frame \<Rightarrow> string \<Rightarrow> string \<Rightarrow> string \<Rightarrow> llm_exc \<Rightarrow> 'w call_state \<Rightarrow> 'w attempt_end" where
  "fail_attempt env fr reason action raise_reason e st =
     RaisedOut (CallExhausted e raise_reason None) (finish_attempt env fr AttemptFailed reason action None (ex_type e) None st)"

definition back_off_transient ::
  "'w call_env \<Rightarrow> llm_call_args \<Rightarrow> string \<Rightarrow> llm_exc \<Rightarrow> 'w call_state \<Rightarrow> 'w attempt_end" where
  "back_off_transient env a reason e st =
     (case transient_backoff env a (ks_attempt st) st of (s, st1) \<Rightarrow> BackOff s reason e st1)"

definition on_stall :: "'w call_env \<Rightarrow> llm_call_args \<Rightarrow> attempt_frame \<Rightarrow> llm_exc \<Rightarrow> 'w call_state \<Rightarrow> 'w attempt_end" where
  "on_stall env a fr e st =
     (let st1 = st\<lparr>ks_last_exc := Some e, ks_stream_stall_count := ks_stream_stall_count st + 1\<rparr>;
          (active, st2) = (if 0 < ka_stream_stall_max a \<and> ka_stream_stall_max a \<le> ks_stream_stall_count st1
                           then chain_active env st1 else (False, st1))
      in if active then fail_attempt env fr ''stream_stalled'' ''chain_advance'' ''chain_advance'' e st2
         else back_off_transient env a ''stream_stalled'' e st2)"

definition on_timeout :: "'w call_env \<Rightarrow> llm_call_args \<Rightarrow> attempt_frame \<Rightarrow> llm_exc \<Rightarrow> 'w call_state \<Rightarrow> 'w attempt_end" where
  "on_timeout env a fr e st =
     (case nearest_deadline env (st\<lparr>ks_last_exc := Some e\<rparr>) of
        (Some (remaining, reason), st1) \<Rightarrow>
          if kf_deadline_reason fr \<noteq> [] \<and> remaining \<le> 0 \<and> reason = kf_deadline_reason fr then
            let dl = LLMDeadlineExceeded reason ''deadline-clamped provider attempt exhausted its budget'' in
            RaisedOut (CallExhausted dl reason (ks_last_exc st))
              (finish_attempt env fr AttemptFailed reason ''raise'' None (ex_type dl) None st1)
          else back_off_transient env a ''timeout'' e st1
      | (None, st1) \<Rightarrow> back_off_transient env a ''timeout'' e st1)"

text \<open>An expanded sample that did not fit the context goes down the ladder at once.\<close>

definition degrade_expanded :: "'w call_env \<Rightarrow> llm_call_args \<Rightarrow> attempt_frame \<Rightarrow> llm_exc \<Rightarrow> 'w call_state \<Rightarrow> 'w attempt_end" where
  "degrade_expanded env a fr e st =
     (let cap = bind_reduced_max_tokens (ke_str_of env) (ks_cap st) None (kf_cap fr);
          (thinking, guide, _) = runaway_retry_policy 2 cap True
      in next_attempt
           (finish_attempt env fr Discarded ''context_length'' ''retry_reduced_after_context_overflow'' None (ex_type e) None
             (st\<lparr>ks_runaway_attempts := ks_runaway_attempts st + 1, ks_runaway_retries := 2, ks_cap := cap,
                 ks_guard_timeout_s := ka_reasoning_only_timeout_s a, ks_guard_max_tokens := ka_reasoning_only_max_tokens a,
                 ks_retry_thinking := Some thinking,
                 ks_messages := runaway_retry_messages (ka_messages a) (guidance_text guide)\<rparr>)))"

definition rate_limit_backoff :: "'w call_env \<Rightarrow> llm_call_args \<Rightarrow> llm_exc \<Rightarrow> 'w call_state \<Rightarrow> real \<times> 'w call_state" where
  "rate_limit_backoff env a e st =
     (case ka_retry_wait_fixed a of
        Some s \<Rightarrow> (s, st)
      | None \<Rightarrow>
          (case get_retry_after (ke_to_float env) e of
             Some s \<Rightarrow> if s \<noteq> 0 then (min s 300, st)
                       else (case ke_uniform env (ks_world st) of
                               (f, w) \<Rightarrow> (default_rate_limit_backoff (ks_attempt st) f, st\<lparr>ks_world := w\<rparr>))
           | None \<Rightarrow> (case ke_uniform env (ks_world st) of
                        (f, w) \<Rightarrow> (default_rate_limit_backoff (ks_attempt st) f, st\<lparr>ks_world := w\<rparr>))))"

definition by_status :: "'w call_env \<Rightarrow> llm_call_args \<Rightarrow> attempt_frame \<Rightarrow> llm_exc \<Rightarrow> 'w call_state \<Rightarrow> 'w attempt_end" where
  "by_status env a fr e st =
     (case get_status_code e of
        Some s \<Rightarrow>
          if s \<in> {400, 401, 403, 404} then
            if s = 400 \<and> is_transient_network (ke_str_of env) e then back_off_transient env a ''transient_error'' e st
            else fail_attempt env fr ''non_transient'' ''raise'' ''non_transient'' e st
          else if s = 429 then (case rate_limit_backoff env a e st of (d, st1) \<Rightarrow> BackOff d ''rate_limited'' e st1)
          else back_off_transient env a ''transient_error'' e st
      | None \<Rightarrow> back_off_transient env a ''transient_error'' e st)"

definition on_error :: "'w call_env \<Rightarrow> llm_call_args \<Rightarrow> attempt_frame \<Rightarrow> llm_exc \<Rightarrow> 'w call_state \<Rightarrow> 'w attempt_end" where
  "on_error env a fr e st =
     (let str_of = ke_str_of env in
      if is_empty_completion str_of e then
        (case call_clock env st of
           (now, st1) \<Rightarrow> recover_empty_completion env a fr (LLMEmptyCompletion 0 (ke_fmt env 1 (now - kf_started fr))) None st1)
      else
        let st1 = st\<lparr>ks_last_exc := Some e\<rparr> in
        if map_option to_mode (kf_thinking fr) = Some Expanded \<and> is_context_length_error str_of e
           \<and> ks_runaway_attempts st1 < ka_runaway_max_retries a \<and> int (ks_attempt st1) < ka_max_retries a - 1
        then degrade_expanded env a fr e st1
        else if is_retriable_with_fallback str_of e then
          (case chain_active env st1 of
             (active, st2) \<Rightarrow>
               if active \<or> \<not> (is_overloaded_error str_of e \<or> is_empty_completion str_of e \<or> is_truncated_stream str_of e)
               then fail_attempt env fr ''chain_advance'' ''chain_advance'' ''chain_advance'' e st2
               else by_status env a fr e st2)
        else by_status env a fr e st1)"

definition handle_raise :: "'w call_env \<Rightarrow> llm_call_args \<Rightarrow> attempt_frame \<Rightarrow> call_raise \<Rightarrow> 'w call_state \<Rightarrow> 'w attempt_end" where
  "handle_raise env a fr x st =
     (case x of
        EmptyRaised e partial \<Rightarrow> recover_empty_completion env a fr e partial st
      | CallExhausted e reason prior \<Rightarrow>
          RaisedOut x (finish_attempt env fr AttemptFailed reason ''raise'' None (ex_type e) None st)
      | RunawayRaised e partial \<Rightarrow> on_early_runaway env a fr e partial st
      | StallRaised e \<Rightarrow> on_stall env a fr e st
      | TimeoutRaised e \<Rightarrow> on_timeout env a fr e st
      | ErrorRaised e \<Rightarrow> on_error env a fr e st
      | CancelRaised \<Rightarrow> RaisedOut CancelRaised st)"

text \<open>The code after the handlers: the pause before the next attempt, or the end of the last one.\<close>

definition after_back_off ::
  "'w call_env \<Rightarrow> llm_call_args \<Rightarrow> attempt_frame \<Rightarrow> real \<Rightarrow> string \<Rightarrow> llm_exc \<Rightarrow> 'w call_state \<Rightarrow> 'w attempt_end" where
  "after_back_off env a fr backoff reason e st =
     (if int (ks_attempt st) < ka_max_retries a - 1 then
        let (d, st1) = nearest_deadline env st;
            go_on = next_attempt (call_sleep env backoff
                      (finish_attempt env fr Discarded reason ''retry_same_key'' None (ex_type e) None st1))
        in case d of
             None \<Rightarrow> go_on
           | Some (remaining, deadline_reason) \<Rightarrow>
               if remaining < backoff + WALL_DEADLINE_FLOOR_S then
                 RaisedOut (CallExhausted
                     (LLMDeadlineExceeded deadline_reason
                        (''reached before retry (backoff '' @ str_of_int (trunc_int backoff) @ ''s + ''
                         @ ke_fmt env 0 WALL_DEADLINE_FLOOR_S @ ''s floor > '' @ ke_fmt env 0 remaining @ ''s left)''))
                     deadline_reason (Some e))
                   (finish_attempt env fr AttemptFailed deadline_reason ''abandon_retry'' None (ex_type e) None st1)
               else go_on
      else next_attempt (finish_attempt env fr AttemptFailed reason ''raise_exhausted'' None (ex_type e) None st))"

section \<open>The loop\<close>

definition call_attempt :: "'w call_env \<Rightarrow> llm_call_args \<Rightarrow> 'w call_state \<Rightarrow> 'w attempt_end" where
  "call_attempt env a st =
     (case start_attempt env a st of
        (Inl x, st1) \<Rightarrow> RaisedOut x st1
      | (Inr fr, st1) \<Rightarrow>
          (case run_request env a fr st1 of
             ((res, fr'), st2) \<Rightarrow>
               (case (case res of Inr r \<Rightarrow> on_response env a fr' r st2 | Inl x \<Rightarrow> handle_raise env a fr' x st2) of
                  BackOff s reason e st3 \<Rightarrow> after_back_off env a fr' s reason e st3
                | final \<Rightarrow> final)))"

definition exhausted_error :: "llm_call_args \<Rightarrow> 'w call_state \<Rightarrow> call_raise" where
  "exhausted_error a st =
     CallExhausted
       (case ks_last_exc st of
          Some e \<Rightarrow> e
        | None \<Rightarrow> plain_exc ''RuntimeError''
                    (''call_llm exhausted with no captured exception (max_retries='' @ str_of_int (ka_max_retries a)
                     @ '', turn='' @ str_of_int (ka_turn a) @ '')''))
       ''exhausted'' None"

text \<open>
  The loop may go on for ever when the client always finds another leg for a blank completion: \<open>fuel\<close> bounds
  the passes through its body, and \<open>None\<close> is a loop that still runs.
\<close>

fun call_loop ::
  "nat \<Rightarrow> 'w call_env \<Rightarrow> llm_call_args \<Rightarrow> 'w call_state \<Rightarrow> ((call_raise + LLMResponse) \<times> 'w call_state) option" where
  "call_loop 0 env a st = None"
| "call_loop (Suc fuel) env a st =
     (if int (ks_attempt st) < ka_max_retries a then
        (case call_attempt env a st of
           Returned r st' \<Rightarrow> Some (Inr r, st')
         | RaisedOut x st' \<Rightarrow> Some (Inl x, st')
         | NextAttempt st' \<Rightarrow> call_loop fuel env a st'
         | BackOff s reason e st' \<Rightarrow> None)
      else Some (Inl (exhausted_error a st), st))"

definition init_call :: "'w call_env \<Rightarrow> llm_call_args \<Rightarrow> 'w \<Rightarrow> 'w call_state" where
  "init_call env a w =
     (let s = max (case ka_logical_call_timeout_s a of None \<Rightarrow> 0 | Some s \<Rightarrow> s) 0;
          (deadline, w1) = (if s \<noteq> 0 then (case ke_now env w of (t, w') \<Rightarrow> (Some (t + s), w')) else (None, w))
      in \<lparr>ks_world = w1, ks_trace = [], ks_logical_deadline = deadline, ks_last_exc = None, ks_runaway_retries = 0,
          ks_runaway_attempts = 0, ks_runaway_expanded = False, ks_last_runaway_reason = [], ks_stream_stall_count = 0,
          ks_runaway_state = map_option (\<lambda>s. s\<lparr>rs_last_call_runaway_responses := 0,
            rs_last_call_runaway_reasoning_chars := 0, rs_last_call_recovered := False, rs_last_call_reason := []\<rparr>) (ka_runaway_state a),
          ks_cap = ka_llm_cap a, ks_messages = ka_messages a, ks_retry_thinking = None,
          ks_guard_timeout_s = ka_reasoning_only_timeout_s a, ks_guard_max_tokens = ka_reasoning_only_max_tokens a,
          ks_physical_index = 0, ks_empty_completions = 0, ks_attempt = 0\<rparr>)"

definition call_llm ::
  "nat \<Rightarrow> 'w call_env \<Rightarrow> llm_call_args \<Rightarrow> 'w \<Rightarrow> ((call_raise + LLMResponse) \<times> 'w call_state) option" where
  "call_llm fuel env a w = call_loop fuel env a (init_call env a w)"

end
