(* ===== verification/Call_Trace.thy ===== *)
theory Call_Trace
  imports Call_Llm
begin

text \<open>
  Properties of model calls (\<^verbatim>\<open>runtime/loop/_call.py\<close>), proved on the trace of a call: its books, in
  which every attempt is opened and closed once; its deadlines; the reasons it fails for; and its end, for every
  client that runs out of legs, the locale \<open>leg_world\<close>, and so for fallback chains.
\<close>

section \<open>What a trace says\<close>

text \<open>
  The ledger of a trace: the number of attempts started, numbered in order, and the ones not yet
  closed.  It is \<open>None\<close> once an attempt is started out of order, or closed twice or unstarted.
\<close>

fun ledger_step :: "(nat \<times> nat set) option \<Rightarrow> call_action \<Rightarrow> (nat \<times> nat set) option" where
  "ledger_step None x = None"
| "ledger_step (Some (n, opened)) (Emitted (Started i c t)) = (if i = n + 1 then Some (i, insert i opened) else None)"
| "ledger_step (Some (n, opened)) (Emitted (Finished rp)) =
     (if rp_index rp \<in> opened then Some (n, opened - {rp_index rp}) else None)"
| "ledger_step s x = s"

definition ledger :: "call_action list \<Rightarrow> (nat \<times> nat set) option" where
  "ledger tr = foldl ledger_step (Some (0, {})) tr"

text \<open>The last reading of the nearest deadline, if there was one; a reading may find no deadline.\<close>

fun read_step :: "(real \<times> string) option option \<Rightarrow> call_action \<Rightarrow> (real \<times> string) option option" where
  "read_step d (DeadlineRead d') = Some d'"
| "read_step d x = d"

definition last_read :: "call_action list \<Rightarrow> (real \<times> string) option option" where
  "last_read tr = foldl read_step None tr"

text \<open>A timeout that fits a reading of the deadline, and an action that respects the last reading before it.\<close>

definition fits :: "llm_call_args \<Rightarrow> (real \<times> string) option option \<Rightarrow> real \<Rightarrow> bool" where
  "fits a d t =
     (t \<le> ka_timeout a
      \<and> (case d of
           None \<Rightarrow> False
         | Some None \<Rightarrow> True
         | Some (Some (remaining, _)) \<Rightarrow> t \<le> remaining \<and> min WALL_DEADLINE_FLOOR_S (ka_timeout a) \<le> remaining))"

fun action_timely :: "llm_call_args \<Rightarrow> (real \<times> string) option option \<Rightarrow> call_action \<Rightarrow> bool" where
  "action_timely a d (Requested q) = fits a d (rq_timeout q)"
| "action_timely a d (Waited s) =
     (case d of
        None \<Rightarrow> False
      | Some None \<Rightarrow> True
      | Some (Some (remaining, _)) \<Rightarrow> s + WALL_DEADLINE_FLOOR_S \<le> remaining)"
| "action_timely a d x = True"

definition timely :: "llm_call_args \<Rightarrow> call_action list \<Rightarrow> bool" where
  "timely a tr = (\<forall>i<length tr. action_timely a (last_read (take i tr)) (tr ! i))"

fun is_delivered :: "call_action \<Rightarrow> bool" where
  "is_delivered (Emitted (Finished rp)) = (rp_outcome rp \<in> {Accepted, AcceptedDegraded})"
| "is_delivered x = False"

definition delivered :: "call_action list \<Rightarrow> call_action list" where
  "delivered tr = filter is_delivered tr"

lemma trace_snoc [simp]:
  "ledger (tr @ [x]) = ledger_step (ledger tr) x"
  "last_read (tr @ [x]) = read_step (last_read tr) x"
  "timely a (tr @ [x]) = (timely a tr \<and> action_timely a (last_read tr) x)"
  "delivered (tr @ [x]) = delivered tr @ (if is_delivered x then [x] else [])"
proof -
  have "action_timely a (last_read (take i (tr @ [x]))) ((tr @ [x]) ! i)
      \<longleftrightarrow> (if i = length tr then action_timely a (last_read tr) x else action_timely a (last_read (take i tr)) (tr ! i))"
    if "i < Suc (length tr)" for i
    using that by (auto simp: nth_append less_Suc_eq)
  then show "timely a (tr @ [x]) = (timely a tr \<and> action_timely a (last_read tr) x)"
    unfolding timely_def length_append_singleton by (auto simp: less_Suc_eq)
qed (simp_all add: ledger_def last_read_def delivered_def)

lemma trace_empty [simp]: "ledger [] = Some (0, {})" "last_read [] = None" "timely a []" "delivered [] = []"
  by (simp_all add: ledger_def last_read_def timely_def delivered_def)

text \<open>The books of a call between its steps: which attempts are open, nothing delivered, everything in time.\<close>

definition books :: "llm_call_args \<Rightarrow> nat set \<Rightarrow> 'w call_state \<Rightarrow> bool" where
  "books a opened st =
     (ledger (ks_trace st) = Some (ks_physical_index st, opened) \<and> (\<forall>i\<in>opened. i \<le> ks_physical_index st)
      \<and> timely a (ks_trace st) \<and> delivered (ks_trace st) = [])"

abbreviation reading :: "'w call_state \<Rightarrow> (real \<times> string) option option" where
  "reading st \<equiv> last_read (ks_trace st)"

section \<open>Effects of the small steps\<close>

lemma log_simps [simp]:
  "ks_world (log_action x st) = ks_world st" "ks_trace (log_action x st) = ks_trace st @ [x]"
  "ks_attempt (log_action x st) = ks_attempt st" "ks_empty_completions (log_action x st) = ks_empty_completions st"
  "ks_physical_index (log_action x st) = ks_physical_index st" "ks_last_exc (log_action x st) = ks_last_exc st"
  "ks_runaway_attempts (log_action x st) = ks_runaway_attempts st"
  by (simp_all add: log_action_def)

lemma clock_effect: "call_clock env st = (t, st') \<Longrightarrow> \<exists>w. st' = st\<lparr>ks_world := w\<rparr>"
  by (auto simp: call_clock_def split: prod.splits)

lemma chain_effect: "chain_active env st = (b, st') \<Longrightarrow> \<exists>w. st' = st\<lparr>ks_world := w\<rparr>"
  by (auto simp: chain_active_def split: prod.splits)

lemma backoff_effect: "transient_backoff env a n st = (s, st') \<Longrightarrow> \<exists>w. st' = st\<lparr>ks_world := w\<rparr>"
  by (auto simp: transient_backoff_def split: prod.splits option.splits intro: exI [of _ "ks_world st"])

lemma rate_backoff_effect: "rate_limit_backoff env a e st = (s, st') \<Longrightarrow> \<exists>w. st' = st\<lparr>ks_world := w\<rparr>"
  by (auto simp: rate_limit_backoff_def split: prod.splits option.splits if_splits intro: exI [of _ "ks_world st"])

lemma deadline_effect: "nearest_deadline env st = (d, st') \<Longrightarrow> \<exists>w. st' = log_action (DeadlineRead d) (st\<lparr>ks_world := w\<rparr>)"
  by (auto simp: nearest_deadline_def Let_def dest!: clock_effect split: prod.splits option.splits if_splits)

lemma timeout_effect:
  assumes "effective_timeout env a st = (res, st')"
  obtains w d where "st' = log_action (DeadlineRead d) (st\<lparr>ks_world := w\<rparr>)"
    and "\<And>t reason. res = Inr (t, reason) \<Longrightarrow> fits a (Some d) t"
    and "\<And>x. res = Inl x \<Longrightarrow> \<exists>reason s. x = CallExhausted (LLMDeadlineExceeded reason s) reason (ks_last_exc st)
           \<and> reason \<in> {''wall_deadline'', ''logical_call_deadline''}"
proof -
  obtain d st1 where n: "nearest_deadline env st = (d, st1)" by fastforce
  have "d \<noteq> None \<Longrightarrow> snd (the d) \<in> {''wall_deadline'', ''logical_call_deadline''}"
    using n by (auto simp: nearest_deadline_def Let_def split: prod.splits option.splits if_splits)
  then have names: "\<And>rm reason. d = Some (rm, reason) \<Longrightarrow> reason \<in> {''wall_deadline'', ''logical_call_deadline''}" by auto
  obtain w where w: "st1 = log_action (DeadlineRead d) (st\<lparr>ks_world := w\<rparr>)" using deadline_effect [OF n] by blast
  show ?thesis
  proof (rule that [of d w])
    show "st' = log_action (DeadlineRead d) (st\<lparr>ks_world := w\<rparr>)"
      using assms by (auto simp: effective_timeout_def n w split: option.splits if_splits)
    show "\<And>t reason. res = Inr (t, reason) \<Longrightarrow> fits a (Some d) t"
      using assms by (auto simp: effective_timeout_def n fits_def split: option.splits if_splits)
    show "\<exists>reason s. x = CallExhausted (LLMDeadlineExceeded reason s) reason (ks_last_exc st)
        \<and> reason \<in> {''wall_deadline'', ''logical_call_deadline''}" if res: "res = Inl x" for x
    proof -
      obtain rm reason where d: "d = Some (rm, reason)"
        using assms res by (auto simp: effective_timeout_def n split: option.splits)
      then have "\<exists>s. x = CallExhausted (LLMDeadlineExceeded reason s) reason (ks_last_exc st)"
        using assms res unfolding effective_timeout_def n w d by (auto split: if_splits)
      with names [OF d] show ?thesis by blast
    qed
  qed
qed

lemma timeout_raises: "effective_timeout env a st = (Inl x, st') \<Longrightarrow> \<exists>e reason prior. x = CallExhausted e reason prior"
  by (erule timeout_effect) blast

lemma emit_simps [simp]:
  "ks_trace (emit_attempt env ev st) = ks_trace st @ [Emitted ev]" "ks_attempt (emit_attempt env ev st) = ks_attempt st"
  "ks_empty_completions (emit_attempt env ev st) = ks_empty_completions st"
  "ks_physical_index (emit_attempt env ev st) = ks_physical_index st" "ks_last_exc (emit_attempt env ev st) = ks_last_exc st"
  by (simp_all add: emit_attempt_def)

lemma sleep_simps [simp]:
  "ks_trace (call_sleep env s st) = ks_trace st @ [Waited s]" "ks_attempt (call_sleep env s st) = ks_attempt st"
  "ks_empty_completions (call_sleep env s st) = ks_empty_completions st"
  "ks_physical_index (call_sleep env s st) = ks_physical_index st" "ks_last_exc (call_sleep env s st) = ks_last_exc st"
  by (simp_all add: call_sleep_def)

lemma emit_log: "emit_attempt env ev (st\<lparr>ks_world := w\<rparr>) = log_action (Emitted ev) (st\<lparr>ks_world := ke_on_attempt env ev w\<rparr>)"
  by (simp add: emit_attempt_def)

lemma finish_effect:
  "\<exists>w rp. finish_attempt env fr oc reason action resp et ended st = log_action (Emitted (Finished rp)) (st\<lparr>ks_world := w\<rparr>)
     \<and> rp_index rp = kf_index fr \<and> rp_outcome rp = oc
     \<and> rp_response rp = map_option (response_attempt_fields (ke_str_of env)) resp"
proof -
  obtain now w where n: "(case ended of Some t \<Rightarrow> (t, st) | None \<Rightarrow> call_clock env st) = (now, st\<lparr>ks_world := w\<rparr>)"
  proof (cases ended)
    case None
    obtain now st' where c: "call_clock env st = (now, st')" by fastforce
    with clock_effect [OF c] None that show ?thesis by auto
  next
    case (Some t)
    with that [of t "ks_world st"] show ?thesis by simp
  qed
  show ?thesis unfolding finish_attempt_def n emit_log Let_def prod.case by (intro exI conjI) (rule refl, simp_all)
qed

lemma finish_simps [simp]:
  "ks_attempt (finish_attempt env fr oc reason action resp et ended st) = ks_attempt st"
  "ks_empty_completions (finish_attempt env fr oc reason action resp et ended st) = ks_empty_completions st"
  "ks_physical_index (finish_attempt env fr oc reason action resp et ended st) = ks_physical_index st"
  "ks_last_exc (finish_attempt env fr oc reason action resp et ended st) = ks_last_exc st"
  "reading (finish_attempt env fr oc reason action resp et ended st) = reading st"
  using finish_effect [of env fr oc reason action resp et ended st] by auto

lemma books_finish:
  assumes "books a (insert (kf_index fr) opened) st" and "kf_index fr \<notin> opened" and "oc \<in> {Discarded, AttemptFailed}"
  shows "books a opened (finish_attempt env fr oc reason action resp et ended st)"
  using finish_effect [of env fr oc reason action resp et ended st] assms by (auto simp: books_def)

lemma ledger_quiet [simp]:
  "ledger_step s (DeadlineRead d) = s" "ledger_step s (Requested q) = s" "ledger_step s (Waited t) = s"
  "ledger_step s SlotTaken = s" "ledger_step s SlotFreed = s"
  by (cases s; auto)+

lemma books_cong: "ks_trace st' = ks_trace st \<Longrightarrow> ks_physical_index st' = ks_physical_index st \<Longrightarrow> books a os st' = books a os st"
  by (simp add: books_def)

lemma books_log [simp]:
  "books a os (log_action (DeadlineRead d) st) = books a os st"
  "books a os (log_action SlotTaken st) = books a os st" "books a os (log_action SlotFreed st) = books a os st"
  "books a os (log_action (Requested q) st) = (books a os st \<and> fits a (reading st) (rq_timeout q))"
  "books a os (log_action (Waited s) st) = (books a os st \<and> action_timely a (reading st) (Waited s))"
  by (auto simp: books_def)

lemma books_world [simp]: "books a os (st\<lparr>ks_world := w\<rparr>) = books a os st"
  by (simp add: books_def)

lemma books_start:
  assumes "books a os st" and "ks_physical_index st' = ks_physical_index st + 1"
    and "ks_trace st' = ks_trace st @ [Emitted (Started (ks_physical_index st') c t)]"
  shows "books a (insert (ks_physical_index st') os) st'" and "ks_physical_index st' \<notin> os" and "reading st' = reading st"
  using assms by (auto simp: books_def)

text \<open>A request logs itself and leaves the counters alone.\<close>

definition asked :: "call_request \<Rightarrow> 'w call_state \<Rightarrow> 'w call_state \<Rightarrow> bool" where
  "asked q st st' =
     (ks_trace st' = ks_trace st @ [Requested q] \<and> ks_physical_index st' = ks_physical_index st
      \<and> ks_attempt st' = ks_attempt st \<and> ks_empty_completions st' = ks_empty_completions st \<and> ks_last_exc st' = ks_last_exc st)"

lemma books_asked: "asked q st st' \<Longrightarrow> books a os st \<Longrightarrow> fits a (reading st) (rq_timeout q) \<Longrightarrow> books a os st'"
  by (simp add: asked_def books_def)

lemma fits_min: "fits a d t \<Longrightarrow> fits a d (min t s)"
  by (auto simp: fits_def split: option.splits)

section \<open>The books of an attempt\<close>

lemma start_books:
  assumes "start_attempt env a st = (res, st')" and "books a {} st"
  shows "(case res of Inl x \<Rightarrow> books a {} st' \<and> x \<noteq> CancelRaised
          | Inr fr \<Rightarrow> books a {kf_index fr} st' \<and> fits a (reading st') (kf_timeout fr))"
proof -
  obtain r st1 where t: "effective_timeout env a st = (r, st1)" by fastforce
  then show ?thesis
  proof (rule timeout_effect)
    fix w d
    assume s: "st1 = log_action (DeadlineRead d) (st\<lparr>ks_world := w\<rparr>)"
      and f: "\<And>t reason. r = Inr (t, reason) \<Longrightarrow> fits a (Some d) t"
      and e: "\<And>x. r = Inl x \<Longrightarrow> \<exists>reason s. x = CallExhausted (LLMDeadlineExceeded reason s) reason (ks_last_exc st)
           \<and> reason \<in> {''wall_deadline'', ''logical_call_deadline''}"
    show ?thesis
    proof (cases r)
      case (Inl x)
      then show ?thesis using assms(1,2) e [of x] s by (auto simp: start_attempt_def t)
    next
      case (Inr p)
      obtain u reason where p: "p = (u, reason)" by fastforce
      let ?i = "ks_physical_index st + 1"
      obtain now st2 where c: "call_clock env (st1\<lparr>ks_physical_index := ?i\<rparr>) = (now, st2)" by fastforce
      obtain w' where w': "st2 = st1\<lparr>ks_physical_index := ?i, ks_world := w'\<rparr>" using clock_effect [OF c] by blast
      let ?fr = "\<lparr>kf_index = ?i, kf_started = now, kf_first_delta = None, kf_ended_at = None, kf_cap = active_cap a st2,
        kf_thinking = ks_retry_thinking st2, kf_timeout = u, kf_deadline_reason = reason\<rparr>"
      have r: "res = Inr ?fr" "st' = emit_attempt env (Started ?i (active_cap a st2) (ks_retry_thinking st2)) st2"
        using assms(1) c unfolding start_attempt_def t Inr p by (auto simp: Let_def s w')
      have "books a {} st1" using assms(2) s by simp
      moreover have "ks_physical_index st' = ks_physical_index st1 + 1"
        "ks_trace st' = ks_trace st1 @ [Emitted (Started (ks_physical_index st') (active_cap a st2) (ks_retry_thinking st2))]"
        using r(2) w' s by simp_all
      ultimately have "books a {ks_physical_index st'} st'" "reading st' = reading st1" by (rule books_start)+
      then show ?thesis using f [of u reason] Inr p r w' s by simp
    qed
  qed
qed

lemma stream_effect: "stream_active env fr t st = (res, st') \<Longrightarrow> \<exists>q. asked q st st' \<and> rq_timeout q = t"
  by (auto simp: stream_active_def asked_def request_of_def Let_def split: prod.splits)

lemma chat_effect: "chat_active env fr st = (res, st') \<Longrightarrow> \<exists>q. asked q st st' \<and> rq_timeout q = kf_timeout fr"
  by (auto simp: chat_active_def asked_def request_of_def Let_def dest!: clock_effect split: prod.splits sum.splits if_splits)

lemma keep_streamed_books:
  assumes "keep_streamed env fr invalid legacy x replay r st = (r', st')" and "books a (insert (kf_index fr) (set_option (map_option fst replay))) st"
    and "kf_index fr \<notin> set_option (map_option fst replay)"
  shows "books a {kf_index fr} st'"
proof (cases replay)
  case None
  then show ?thesis using assms by (simp add: keep_streamed_def)
next
  case (Some p)
  obtain i b where p: "p = (i, b)" by fastforce
  let ?fr = "fr\<lparr>kf_index := i, kf_started := b, kf_first_delta := None\<rparr>"
  have "books a (insert (kf_index ?fr) {kf_index fr}) st" "kf_index ?fr \<notin> {kf_index fr}"
    using assms Some p by (auto simp: insert_commute)
  from books_finish [OF this] show ?thesis using assms(1) Some p by (auto simp: keep_streamed_def)
qed

lemma timeout_books:
  assumes "effective_timeout env a st = (res, st')" and "books a os st"
  shows "books a os st'" and "ks_physical_index st' = ks_physical_index st"
    and "\<And>t reason. res = Inr (t, reason) \<Longrightarrow> fits a (reading st') t" and "\<And>x. res = Inl x \<Longrightarrow> x \<noteq> CancelRaised"
  using assms(1) by (rule timeout_effect, insert assms(2), fastforce)+

lemma try_replay_books:
  assumes t: "try_replay env a fr ad ended st = (res, st')" and b: "books a {i0} st"
  shows "(case res of
            Inl (x, None) \<Rightarrow> books a {i0} st'
          | Inl (x, Some (i, begun)) \<Rightarrow> books a {i0, i} st' \<and> i \<noteq> i0
          | Inr (r, first, i, begun) \<Rightarrow> books a {i0, i} st' \<and> i \<noteq> i0)"
proof -
  obtain r1 st1 where e1: "effective_timeout env a st = (r1, st1)" by fastforce
  note T1 = timeout_books [OF e1 b]
  show ?thesis
  proof (cases "\<exists>x. res = Inl (x, None)")
    case True
    then have "st' = st1"
      using t e1 by (auto simp: try_replay_def Let_def split: sum.splits if_splits prod.splits)
    with True T1(1) show ?thesis by auto
  next
    case False
    then obtain u reason where r1: "r1 = Inr (u, reason)"
      using t e1 by (cases r1) (auto simp: try_replay_def)
    obtain begun st2 where c: "call_clock env (st1\<lparr>ks_physical_index := ks_physical_index st1 + 1\<rparr>) = (begun, st2)" by fastforce
    obtain w where w: "st2 = st1\<lparr>ks_physical_index := ks_physical_index st1 + 1, ks_world := w\<rparr>" using clock_effect [OF c] by blast
    let ?i = "ks_physical_index st2"
    let ?s3 = "emit_attempt env (Started ?i (kf_cap fr) (kf_thinking fr)) st2"
    have b3: "books a {i0, ?i} ?s3" "?i \<noteq> i0"
      using books_start(1,2) [OF T1(1), of ?s3] w by (auto simp: insert_commute)
    obtain r2 st4 where e2: "effective_timeout env a ?s3 = (r2, st4)" by fastforce
    note T2 = timeout_books [OF e2 b3(1)]
    obtain now st5 where c5: "call_clock env st4 = (now, st5)" by fastforce
    obtain w5 where w5: "st5 = st4\<lparr>ks_world := w5\<rparr>" using clock_effect [OF c5] by blast
    show ?thesis
    proof (cases r2)
      case (Inl x)
      then have "res = Inl (x, Some (?i, begun)) \<and> st' = st4"
        using t False e1 r1 c e2 by (auto simp: try_replay_def Let_def split: if_splits)
      with T2(1) b3(2) show ?thesis by simp
    next
      case (Inr p)
      obtain u' reason' where p: "p = (u', reason')" by fastforce
      let ?b = "min u' (max (ad - now) 0)"
      obtain r6 first st6 where s6: "stream_active env fr ?b st5 = ((r6, first), st6)" by (metis prod.exhaust)
      obtain q where q: "asked q st5 st6" "rq_timeout q = ?b" using stream_effect [OF s6] by blast
      have "fits a (reading st5) ?b" using T2(3) [of u' reason'] Inr p w5 fits_min by simp
      then have b6: "books a {i0, ?i} st6" using books_asked [OF q(1)] T2(1) w5 q(2) by simp
      have "(\<exists>x. res = Inl (x, Some (?i, begun)) \<and> st' = st5) \<or> (\<exists>x. res = Inl (x, Some (?i, begun)) \<and> st' = st6)
          \<or> (\<exists>r. res = Inr (r, first, ?i, begun) \<and> st' = st6)"
        using t False e1 r1 c e2 c5 s6 Inr p by (auto simp: try_replay_def Let_def split: if_splits sum.splits)
      with T2(1) w5 b6 b3(2) show ?thesis by auto
    qed
  qed
qed

lemma accept_replay_books:
  assumes "accept_replay env a fr legacy streamed ended replay st = ((r, fr'), st')"
    and "replay = (recovered, first, i, begun)" and "books a {kf_index fr, i} st" and "i \<noteq> kf_index fr"
  shows "books a {kf_index fr'} st'"
proof -
  have "books a {i} (finish_attempt env fr Discarded reason action resp et e st)" for reason action resp et e
    using books_finish [of a fr "{i}" st] assms(3,4) by blast
  then show ?thesis using assms(1,2) by (auto simp: accept_replay_def)
qed

text \<open>After a request its frame is the only attempt open, unless the call was cancelled.\<close>

definition requested_well :: "llm_call_args \<Rightarrow> ((call_raise + LLMResponse) \<times> attempt_frame) \<times> 'w call_state \<Rightarrow> bool" where
  "requested_well a out =
     (case out of ((res, fr), st) \<Rightarrow> (\<exists>os. books a os st) \<and> (res \<noteq> Inl CancelRaised \<longrightarrow> books a {kf_index fr} st))"

lemma stream_phase_books:
  assumes b: "books a {kf_index fr} st" and f: "fits a (reading st) (kf_timeout fr)"
  shows "requested_well a (stream_phase env a fr ad st)"
proof -
  obtain res first st1 where s: "stream_active env fr (kf_timeout fr) st = ((res, first), st1)" by (metis prod.exhaust)
  let ?f = "fr\<lparr>kf_first_delta := first\<rparr>"
  have b1: "books a {kf_index ?f} st1" using stream_effect [OF s] books_asked b f by fastforce
  show ?thesis
  proof (cases res)
    case (Inl x)
    then show ?thesis using b1 s by (auto simp: stream_phase_def requested_well_def)
  next
    case (Inr r)
    obtain ended st2 where c: "call_clock env st1 = (ended, st2)" by fastforce
    have b2: "books a {kf_index ?f} st2" using clock_effect [OF c] b1 by auto
    obtain rp st3 where t: "try_replay env a ?f ad ended st2 = (rp, st3)" by fastforce
    note T = try_replay_books [OF t b2]
    show ?thesis
    proof (cases rp)
      case L: (Inl xr)
      obtain x replay where xr: "xr = (x, replay)" by fastforce
      obtain r' st4 where k: "keep_streamed env ?f (invalid_calls env a r) (legacy_empty_args_tools env a r) x replay r st3 = (r', st4)"
        by fastforce
      have "books a {kf_index ?f} st4"
        by (rule keep_streamed_books [OF k]) (use T L xr in \<open>auto split: option.splits\<close>)
      moreover have "\<exists>os. books a os st3" using T L xr by (auto split: option.splits)
      ultimately show ?thesis using b1 s c t L xr k Inr unfolding stream_phase_def requested_well_def
        by (cases x) (auto simp: Let_def)
    next
      case R: (Inr p)
      obtain rec first' i begun where p: "p = (rec, first', i, begun)" by (metis prod.exhaust)
      obtain r' fr' st4 where k: "accept_replay env a ?f (legacy_empty_args_tools env a r) r ended p st3 = ((r', fr'), st4)"
        by (metis prod.exhaust)
      have "books a {kf_index fr'} st4" by (rule accept_replay_books [OF k p]) (use T R p in auto)
      then show ?thesis using b1 s c t R k Inr unfolding stream_phase_def requested_well_def by (auto simp: Let_def)
    qed
  qed
qed

lemma request_phase_books:
  assumes "books a {kf_index fr} st" and "fits a (reading st) (kf_timeout fr)"
  shows "requested_well a (request_phase env a fr st)"
proof -
  obtain now st1 where c: "call_clock env st = (now, st1)" by fastforce
  obtain res st2 where h: "chat_active env fr st1 = (res, st2)" by fastforce
  have s: "books a {kf_index fr} st1" "fits a (reading st1) (kf_timeout fr)" using clock_effect [OF c] assms by auto
  then have "books a {kf_index fr} st2" using chat_effect [OF h] books_asked by fastforce
  then show ?thesis using stream_phase_books [OF s] c h by (auto simp: request_phase_def requested_well_def)
qed

lemma take_slot_books:
  assumes "take_slot env a st = (res, st')" and "books a os st"
  shows "books a os st' \<and> res \<noteq> Some CancelRaised"
proof -
  obtain d st1 where n: "nearest_deadline env st = (d, st1)" by fastforce
  have b: "books a os st1" using deadline_effect [OF n] assms(2) by auto
  obtain r st2 where e: "effective_timeout env a st1 = (r, st2)" by fastforce
  show ?thesis using assms(1) n e b timeout_books(1,4) [OF e b]
    by (auto simp: take_slot_def Let_def gate_timeout_error_def split: option.splits if_splits prod.splits sum.splits)
qed

lemma run_request_books:
  assumes b: "books a {kf_index fr} st" and "fits a (reading st) (kf_timeout fr)"
  shows "requested_well a (run_request env a fr st)"
proof (cases "ka_gate_limit a \<le> 0")
  case True
  then show ?thesis using request_phase_books [OF assms] by (simp add: run_request_def)
next
  case False
  obtain x st1 where s: "take_slot env a st = (x, st1)" by fastforce
  note S = take_slot_books [OF s b]
  obtain r st2 where e: "effective_timeout env a st1 = (r, st2)" by fastforce
  note E = timeout_books [OF e conjunct1 [OF S]]
  show ?thesis
  proof (cases x)
    case Some
    then show ?thesis using False s S by (auto simp: run_request_def requested_well_def)
  next
    case None
    show ?thesis
    proof (cases r)
      case (Inl y)
      then show ?thesis using False s None e E by (auto simp: run_request_def requested_well_def free_slot_def)
    next
      case (Inr p)
      obtain u reason where p: "p = (u, reason)" by fastforce
      have "requested_well a (request_phase env a (fr\<lparr>kf_timeout := u, kf_deadline_reason := reason\<rparr>) st2)"
        by (rule request_phase_books) (use E Inr p in auto)
      then show ?thesis using False s None e Inr p
        by (auto simp: run_request_def requested_well_def free_slot_def split: prod.splits)
    qed
  qed
qed

text \<open>How the body of the loop may leave an attempt whose index is \<open>i\<close>.\<close>

definition good_end :: "'w call_env \<Rightarrow> llm_call_args \<Rightarrow> nat \<Rightarrow> 'w attempt_end \<Rightarrow> bool" where
  "good_end env a i final =
     (case final of
        Returned r st \<Rightarrow>
          ledger (ks_trace st) = Some (ks_physical_index st, {}) \<and> timely a (ks_trace st)
          \<and> (\<exists>rp. delivered (ks_trace st) = [Emitted (Finished rp)] \<and> rp_response rp = Some (response_attempt_fields (ke_str_of env) r))
      | RaisedOut x st \<Rightarrow> (\<exists>os. books a os st) \<and> (x \<noteq> CancelRaised \<longrightarrow> books a {} st)
      | NextAttempt st \<Rightarrow> books a {} st
      | BackOff s reason e st \<Rightarrow> books a {i} st)"

lemma good_returned:
  assumes "books a {kf_index fr} st" and "oc \<in> {Accepted, AcceptedDegraded}"
  shows "good_end env a i (Returned r (finish_attempt env fr oc reason action (Some r) et ended st))"
  using finish_effect [of env fr oc reason action "Some r" et ended st] assms by (auto simp: good_end_def books_def)

lemma good_raised: "books a {} st \<Longrightarrow> good_end env a i (RaisedOut x st)"
  by (auto simp: good_end_def)

lemma good_next_attempt: "books a {} st \<Longrightarrow> good_end env a i (next_attempt st)"
  by (simp add: good_end_def next_attempt_def books_def)

lemma books_closed:
  "books a {kf_index fr} st \<Longrightarrow> oc \<in> {Discarded, AttemptFailed} \<Longrightarrow>
   books a {} (finish_attempt env fr oc reason action resp et ended st)"
  by (rule books_finish) simp_all

lemma books_slept:
  assumes "books a {kf_index fr} st" and "action_timely a (reading st) (Waited s)" and "oc \<in> {Discarded, AttemptFailed}"
  shows "books a {} (call_sleep env s (finish_attempt env fr oc reason action resp et ended st))"
proof -
  have "books a {} (finish_attempt env fr oc reason action resp et ended st)" using assms by (simp add: books_closed)
  then show ?thesis using assms(2) by (simp add: call_sleep_def del: action_timely.simps)
qed

lemma may_resample_books:
  assumes "may_resample env a st = (b, st')" and "books a os st"
  shows "books a os st'" and "b \<Longrightarrow> action_timely a (reading st') (Waited RUNAWAY_BACKOFF_S)"
  using assms by (auto simp: may_resample_def deadline_allows_retry_after_def dest!: deadline_effect
      split: if_splits prod.splits option.splits)

lemma bind_rung_books [simp]: "books a os (bind_rung a' e rd st) = books a os st"
  by (rule books_cong) (simp_all add: bind_rung_def Let_def split: option.splits)

lemma ladder_books:
  assumes "climb_ladder a' e rd st = (action, st')"
  shows "books a os st' = books a os st" and "reading st' = reading st"
proof -
  have "ks_trace st' = ks_trace st" "ks_physical_index st' = ks_physical_index st"
    using assms by (auto simp: climb_ladder_def bind_rung_def Let_def split: option.splits prod.splits if_splits)
  then show "books a os st' = books a os st" "reading st' = reading st" by (simp_all add: books_def)
qed

lemma quiet_books [simp]:
  "books a os (count_runaway r st) = books a os st" "books a os (give_up_runaway reason st) = books a os st"
  "books a os (settle_runaway st) = books a os st" "books a os (st\<lparr>ks_last_exc := x\<rparr>) = books a os st"
  "books a os (st\<lparr>ks_empty_completions := n\<rparr>) = books a os st" "books a os (st\<lparr>ks_stream_stall_count := m\<rparr>) = books a os st"
  "books a os (st\<lparr>ks_last_runaway_reason := rr\<rparr>) = books a os st"
  by (simp_all add: books_def count_runaway_def give_up_runaway_def settle_runaway_def)

lemma resampled_good:
  assumes m: "may_resample env a st = (True, st1)" and l: "climb_ladder a c rd st1 = (action, st2)" and b: "books a {kf_index fr} st"
  shows "good_end env a i (next_attempt (call_sleep env RUNAWAY_BACKOFF_S
           (finish_attempt env fr Discarded reason action' resp et ended st2)))"
proof -
  have "books a {kf_index fr} st2" "action_timely a (reading st2) (Waited RUNAWAY_BACKOFF_S)"
    using may_resample_books [OF m b] ladder_books [OF l] by auto
  then show ?thesis by (simp add: good_next_attempt books_slept del: action_timely.simps)
qed

lemma on_runaway_good:
  assumes "books a {kf_index fr} st"
  shows "good_end env a i (on_runaway env a fr r st)"
proof -
  let ?s = "count_runaway r (st\<lparr>ks_last_runaway_reason := ''reasoning_runaway''\<rparr>)"
  obtain b st1 where m: "may_resample env a ?s = (b, st1)" by fastforce
  have "books a {kf_index fr} ?s" using assms by simp
  then show ?thesis using m resampled_good [of env a ?s st1] may_resample_books(1) [OF m]
    by (cases b) (auto simp: on_runaway_def intro: good_returned split: prod.splits)
qed

lemma on_early_runaway_good:
  assumes "books a {kf_index fr} st"
  shows "good_end env a i (on_early_runaway env a fr e r st)"
proof -
  let ?s = "count_runaway r (st\<lparr>ks_last_runaway_reason := ''reasoning_runaway_early''\<rparr>)"
  obtain b st1 where m: "may_resample env a ?s = (b, st1)" by fastforce
  have "books a {kf_index fr} ?s" using assms by simp
  then show ?thesis using m resampled_good [of env a ?s st1] may_resample_books(1) [OF m]
    by (cases b) (auto simp: on_early_runaway_def Let_def intro: good_returned split: prod.splits)
qed

lemma on_response_good: "books a {kf_index fr} st \<Longrightarrow> good_end env a i (on_response env a fr r st)"
  by (simp add: on_response_def accept_response_def Let_def on_runaway_good good_returned)

lemma resample_empty_good:
  assumes b: "books a {kf_index fr} st"
  shows "good_end env a i (resample_empty env a fr e partial adv st)"
proof -
  obtain delay st1 where d: "(if adv then (0, st) else transient_backoff env a (nat (ks_empty_completions st - 1)) st) = (delay, st1)"
    by fastforce
  obtain dl st2 where n: "nearest_deadline env st1 = (dl, st2)" by fastforce
  have "books a {kf_index fr} st1" using d b by (auto split: if_splits dest!: backoff_effect)
  then have b2: "books a {kf_index fr} st2" "reading st2 = Some dl" using deadline_effect [OF n] by auto
  have "good_end env a i (NextAttempt (call_sleep env delay (finish_attempt env fr Discarded reason action resp et ended st2)))"
    if "\<And>rm r. dl = Some (rm, r) \<Longrightarrow> delay + WALL_DEADLINE_FLOOR_S \<le> rm" for reason action resp et ended
    using books_slept [OF b2(1), of delay Discarded] b2(2) that by (auto simp: good_end_def split: option.splits)
  then show ?thesis using b2 unfolding resample_empty_def Let_def d prod.case n
    by (auto split: option.splits intro!: good_raised books_closed)
qed

lemma recover_empty_good:
  assumes b: "books a {kf_index fr} st"
  shows "good_end env a i (recover_empty_completion env a fr e partial st)"
  unfolding recover_empty_completion_def Let_def using b
  by (auto split: prod.splits bool.splits intro!: resample_empty_good good_raised books_closed dest!: chain_effect)

lemma fail_attempt_good: "books a {kf_index fr} st \<Longrightarrow> good_end env a i (fail_attempt env fr reason action rr e st)"
  by (simp add: fail_attempt_def good_raised books_closed)

lemma back_off_good: "books a {i} st \<Longrightarrow> good_end env a i (back_off_transient env a reason e st)"
  by (auto simp: back_off_transient_def good_end_def dest!: backoff_effect split: prod.splits)

lemma on_stall_good: "books a {kf_index fr} st \<Longrightarrow> good_end env a (kf_index fr) (on_stall env a fr e st)"
  by (auto simp: on_stall_def Let_def intro!: fail_attempt_good back_off_good dest!: chain_effect split: prod.splits if_splits)

lemma on_timeout_good: "books a {kf_index fr} st \<Longrightarrow> good_end env a (kf_index fr) (on_timeout env a fr e st)"
  by (auto simp: on_timeout_def Let_def intro!: good_raised books_closed back_off_good dest!: deadline_effect
      split: prod.splits option.splits)

lemma by_status_good: "books a {kf_index fr} st \<Longrightarrow> good_end env a (kf_index fr) (by_status env a fr e st)"
  by (auto simp: by_status_def intro!: fail_attempt_good back_off_good split: option.splits)
     (auto simp: good_end_def dest!: rate_backoff_effect split: prod.splits)

lemma degrade_good: "books a {kf_index fr} st \<Longrightarrow> good_end env a i (degrade_expanded env a fr e st)"
  by (auto simp: degrade_expanded_def Let_def intro!: good_next_attempt books_closed split: prod.splits) (simp add: books_def)

lemma on_error_good: "books a {kf_index fr} st \<Longrightarrow> good_end env a (kf_index fr) (on_error env a fr e st)"
  by (auto simp: on_error_def Let_def intro!: recover_empty_good degrade_good fail_attempt_good by_status_good
      dest!: chain_effect clock_effect split: prod.splits)

lemma handle_raise_good:
  assumes "\<exists>os. books a os st" and "x \<noteq> CancelRaised \<Longrightarrow> books a {kf_index fr} st"
  shows "good_end env a (kf_index fr) (handle_raise env a fr x st)"
  using assms by (cases x)
    (simp_all add: handle_raise_def recover_empty_good on_early_runaway_good on_stall_good on_timeout_good on_error_good
      good_raised books_closed, simp add: good_end_def)

lemma after_back_off_good:
  assumes b: "books a {kf_index fr} st"
  shows "good_end env a i (after_back_off env a fr s reason e st)"
proof -
  obtain dl st1 where n: "nearest_deadline env st = (dl, st1)" by fastforce
  have b1: "books a {kf_index fr} st1" "reading st1 = Some dl" using deadline_effect [OF n] b by auto
  have "books a {} (call_sleep env s (finish_attempt env fr Discarded reason' action resp et ended st1))"
    if "\<And>rm r. dl = Some (rm, r) \<Longrightarrow> s + WALL_DEADLINE_FLOOR_S \<le> rm" for reason' action resp et ended
    using books_slept [OF b1(1), of s Discarded] b1(2) that by (auto split: option.splits)
  then show ?thesis using b b1 unfolding after_back_off_def Let_def n prod.case
    by (auto split: option.splits intro!: good_raised good_next_attempt books_closed)
qed

lemma call_attempt_good:
  assumes "books a {} st"
  shows "\<exists>i. good_end env a i (call_attempt env a st) \<and> (\<nexists>s reason e st'. call_attempt env a st = BackOff s reason e st')"
proof -
  obtain r st1 where s: "start_attempt env a st = (r, st1)" by fastforce
  note S = start_books [OF s assms]
  show ?thesis
  proof (cases r)
    case (Inl x)
    then show ?thesis using S s by (auto simp: call_attempt_def intro: good_raised)
  next
    case (Inr fr)
    obtain res fr' st2 where q: "run_request env a fr st1 = ((res, fr'), st2)" by (metis prod.exhaust)
    have Q: "\<exists>os. books a os st2" "res \<noteq> Inl CancelRaised \<Longrightarrow> books a {kf_index fr'} st2"
      using run_request_books [of a fr st1 env] S Inr q by (auto simp: requested_well_def)
    define final where "final = (case res of Inr r \<Rightarrow> on_response env a fr' r st2 | Inl x \<Rightarrow> handle_raise env a fr' x st2)"
    have g: "good_end env a (kf_index fr') final"
      using Q handle_raise_good [of a st2 _ fr' env] by (cases res) (auto simp: final_def on_response_good)
    have c: "call_attempt env a st = (case final of BackOff s reason e st3 \<Rightarrow> after_back_off env a fr' s reason e st3 | x \<Rightarrow> x)"
      using s Inr q by (simp add: call_attempt_def final_def)
    have "\<nexists>s reason e st'. after_back_off env a fr' b rs e0 st3 = BackOff s reason e st'" for b rs e0 st3
      by (simp add: after_back_off_def next_attempt_def Let_def split: option.splits prod.splits)
    with g show ?thesis unfolding c
      by (cases final) (auto simp: good_end_def [of env a _ "BackOff _ _ _ _"] intro: after_back_off_good)
  qed
qed

section \<open>The end of a call\<close>

lemma call_loop_good:
  assumes "call_loop fuel env a st = Some (res, st')" and "books a {} st"
  shows "(\<exists>os. ledger (ks_trace st') = Some (ks_physical_index st', os) \<and> (res \<noteq> Inl CancelRaised \<longrightarrow> os = {}))
    \<and> timely a (ks_trace st')
    \<and> (case res of
         Inl x \<Rightarrow> delivered (ks_trace st') = []
       | Inr r \<Rightarrow> \<exists>rp. delivered (ks_trace st') = [Emitted (Finished rp)]
                         \<and> rp_response rp = Some (response_attempt_fields (ke_str_of env) r))"
  using assms
proof (induction fuel arbitrary: st)
  case (Suc n)
  show ?case
  proof (cases "int (ks_attempt st) < ka_max_retries a")
    case True
    obtain i where g: "good_end env a i (call_attempt env a st)" using call_attempt_good [OF Suc.prems(2)] by blast
    show ?thesis
    proof (cases "call_attempt env a st")
      case (NextAttempt st2)
      then show ?thesis using Suc.IH [of st2] Suc.prems(1) g True by (simp add: good_end_def)
    next
      case (RaisedOut x st2)
      then obtain os where "books a os st2" "x \<noteq> CancelRaised \<Longrightarrow> books a {} st2" using g by (auto simp: good_end_def)
      then show ?thesis using Suc.prems(1) True RaisedOut by (auto simp: books_def)
    qed (use Suc.prems(1) g True in \<open>auto simp: good_end_def\<close>)
  next
    case False
    then show ?thesis using Suc.prems by (auto simp: books_def exhausted_error_def)
  qed
qed simp

lemma init_books: "books a {} (init_call env a w)"
  by (simp add: init_call_def books_def Let_def split: prod.splits)

section \<open>Clients that run out of legs\<close>

text \<open>
  What the loop needs of its world to end: \<open>left\<close> counts the legs a client can still advance to after
  blank completions, in worlds that are \<open>fit\<close>.  No step but an advance changes it for the worse, every
  request leaves the client at a leg that served it, and from there an advance uses up a leg.
\<close>

locale leg_world =
  fixes env :: "'w call_env" and left :: "'w \<Rightarrow> nat" and served :: "'w \<Rightarrow> bool" and fit :: "'w \<Rightarrow> bool"
  assumes now_keeps: "fit w \<Longrightarrow> ke_now env w = (t, w') \<Longrightarrow> left w' \<le> left w \<and> (served w \<longrightarrow> served w') \<and> fit w'"
    and wall_keeps: "fit w \<Longrightarrow> ke_wall_remaining env w = (d, w') \<Longrightarrow> left w' \<le> left w \<and> (served w \<longrightarrow> served w') \<and> fit w'"
    and chain_keeps: "fit w \<Longrightarrow> ke_chain_fallback_active env w = (b, w') \<Longrightarrow> left w' \<le> left w \<and> (served w \<longrightarrow> served w') \<and> fit w'"
    and uniform_keeps: "fit w \<Longrightarrow> ke_uniform env w = (f, w') \<Longrightarrow> left w' \<le> left w \<and> (served w \<longrightarrow> served w') \<and> fit w'"
    and sleep_keeps: "fit w \<Longrightarrow> left (ke_sleep env s w) \<le> left w \<and> (served w \<longrightarrow> served (ke_sleep env s w)) \<and> fit (ke_sleep env s w)"
    and event_keeps: "fit w \<Longrightarrow> left (ke_on_attempt env ev w) \<le> left w \<and> (served w \<longrightarrow> served (ke_on_attempt env ev w))
          \<and> fit (ke_on_attempt env ev w)"
    and acquire_keeps: "fit w \<Longrightarrow> ke_acquire env m w = (b, w') \<Longrightarrow> left w' \<le> left w \<and> (served w \<longrightarrow> served w') \<and> fit w'"
    and release_keeps: "fit w \<Longrightarrow> left (ke_release env w) \<le> left w \<and> (served w \<longrightarrow> served (ke_release env w)) \<and> fit (ke_release env w)"
    and chat_serves: "fit w \<Longrightarrow> ke_chat env q w = (r, w') \<Longrightarrow> left w' \<le> left w \<and> served w' \<and> fit w'"
    and stream_serves: "fit w \<Longrightarrow> ke_stream env q w = (rs, w') \<Longrightarrow> left w' \<le> left w \<and> served w' \<and> fit w'"
    and advance_uses: "fit w \<Longrightarrow> served w \<Longrightarrow> ke_advance env e w = (True, w') \<Longrightarrow> left w' < left w \<and> fit w'"
begin

definition kept :: "'w call_state \<Rightarrow> 'w call_state \<Rightarrow> bool" where
  "kept st st' =
     ((fit (ks_world st) \<longrightarrow> left (ks_world st') \<le> left (ks_world st) \<and> (served (ks_world st) \<longrightarrow> served (ks_world st')) \<and> fit (ks_world st'))
      \<and> ks_attempt st' = ks_attempt st \<and> ks_empty_completions st' = ks_empty_completions st)"

lemma kept_refl [simp]: "kept st st"
  by (simp add: kept_def)

lemma kept_trans: "kept st1 st2 \<Longrightarrow> kept st2 st3 \<Longrightarrow> kept st1 st3"
  by (auto simp: kept_def)

lemma kept_fields [simp]:
  "kept st (log_action x st') = kept st st'" "kept (log_action x st') st = kept st' st"
  "kept st (st'\<lparr>ks_physical_index := i\<rparr>) = kept st st'" "kept (st'\<lparr>ks_physical_index := i\<rparr>) st = kept st' st"
  "kept st (st'\<lparr>ks_last_exc := e\<rparr>) = kept st st'" "kept (st'\<lparr>ks_last_exc := e\<rparr>) st = kept st' st"
  by (simp_all add: kept_def)

lemma clock_kept: "call_clock env st = (t, st') \<Longrightarrow> kept st st'"
  by (auto simp: call_clock_def kept_def dest: now_keeps split: prod.splits)

lemma chain_kept: "chain_active env st = (b, st') \<Longrightarrow> kept st st'"
  by (auto simp: chain_active_def kept_def dest: chain_keeps split: prod.splits)

lemma backoff_kept: "transient_backoff env a n st = (s, st') \<Longrightarrow> kept st st'"
  by (auto simp: transient_backoff_def kept_def dest: uniform_keeps split: prod.splits option.splits)

lemma rate_kept: "rate_limit_backoff env a e st = (s, st') \<Longrightarrow> kept st st'"
  by (auto simp: rate_limit_backoff_def kept_def dest: uniform_keeps split: prod.splits option.splits if_splits)

lemma sleep_kept: "kept st (call_sleep env s st)"
  by (simp add: call_sleep_def kept_def sleep_keeps)

lemma deadline_kept:
  assumes "nearest_deadline env st = (d, st')"
  shows "kept st st'"
proof -
  obtain wall w where w: "ke_wall_remaining env (ks_world st) = (wall, w)" by fastforce
  have k: "kept st (st\<lparr>ks_world := w\<rparr>)" using wall_keeps [OF _ w] by (simp add: kept_def)
  obtain now st2 where c: "call_clock env (st\<lparr>ks_world := w\<rparr>) = (now, st2)" by fastforce
  show ?thesis using assms w c k kept_trans [OF k clock_kept [OF c]]
    by (cases "ks_logical_deadline st") (auto simp: nearest_deadline_def Let_def)
qed

lemma timeout_kept: "effective_timeout env a st = (r, st') \<Longrightarrow> kept st st'"
  by (auto simp: effective_timeout_def dest: deadline_kept split: prod.splits option.splits if_splits)

lemma emit_kept: "kept st (emit_attempt env ev st)"
  by (simp add: emit_attempt_def kept_def event_keeps)

lemma finish_kept: "kept st (finish_attempt env fr oc reason action resp et ended st)"
  by (auto simp: finish_attempt_def intro: emit_kept kept_trans [OF clock_kept] split: option.splits prod.splits)

lemma finish_kept': "kept st0 st \<Longrightarrow> kept st0 (finish_attempt env fr oc reason action resp et ended st)"
  by (rule kept_trans [OF _ finish_kept])

lemma start_kept:
  assumes "start_attempt env a st = (res, st')"
  shows "kept st st'"
proof -
  obtain r st1 where e: "effective_timeout env a st = (r, st1)" by fastforce
  obtain now st2 where c: "call_clock env (st1\<lparr>ks_physical_index := ks_physical_index st1 + 1\<rparr>) = (now, st2)" by fastforce
  have "kept st st2" using kept_trans [OF timeout_kept [OF e], of st2] clock_kept [OF c] by simp
  then show ?thesis using assms timeout_kept [OF e] kept_trans [OF \<open>kept st st2\<close> emit_kept] e c
    by (auto simp: start_attempt_def Let_def split: sum.splits)
qed

lemma stream_kept: "stream_active env fr t st = (r, st') \<Longrightarrow> kept st st' \<and> (fit (ks_world st) \<longrightarrow> served (ks_world st'))"
  by (auto simp: stream_active_def Let_def kept_def dest: stream_serves split: prod.splits)

lemma chat_kept:
  assumes "chat_active env fr st = (r, st')"
  shows "kept st st' \<and> (fit (ks_world st) \<longrightarrow> served (ks_world st'))"
proof -
  obtain begun st1 where c: "call_clock env st = (begun, st1)" by fastforce
  obtain q where q: "q = (request_of fr (kf_timeout fr) st1)\<lparr>rq_guard_timeout := None, rq_guard_tokens := None\<rparr>" by simp
  obtain res w where h: "ke_chat env q (ks_world st1) = (res, w)" by fastforce
  let ?s = "(log_action (Requested q) st1)\<lparr>ks_world := w\<rparr>"
  have k: "kept st1 ?s" "fit (ks_world st1) \<longrightarrow> served (ks_world ?s)" using chat_serves [OF _ h] by (simp_all add: kept_def)
  have "st' = ?s \<or> (\<exists>t. call_clock env ?s = (t, st'))"
    using assms c h q by (auto simp: chat_active_def Let_def split: sum.splits if_splits prod.splits)
  then have "kept ?s st'" using clock_kept by auto
  then show ?thesis using k clock_kept [OF c] kept_trans [OF kept_trans [OF clock_kept [OF c] k(1)]] by (auto simp: kept_def)
qed

lemma try_replay_kept:
  assumes t: "try_replay env a fr ad ended st = (res, st')"
  shows "kept st st'"
proof -
  obtain r1 st1 where e1: "effective_timeout env a st = (r1, st1)" by fastforce
  obtain b st2 where c: "call_clock env (st1\<lparr>ks_physical_index := ks_physical_index st1 + 1\<rparr>) = (b, st2)" by fastforce
  let ?s3 = "emit_attempt env (Started (ks_physical_index st2) (kf_cap fr) (kf_thinking fr)) st2"
  obtain r2 st4 where e2: "effective_timeout env a ?s3 = (r2, st4)" by fastforce
  obtain now st5 where c5: "call_clock env st4 = (now, st5)" by fastforce
  have k1: "kept st st1" by (rule timeout_kept [OF e1])
  have "kept st1 st2" using clock_kept [OF c] by simp
  then have k4: "kept st st4" by (rule kept_trans [OF kept_trans [OF kept_trans [OF k1] emit_kept] timeout_kept [OF e2]])
  then have k5: "kept st st5" using kept_trans clock_kept [OF c5] by blast
  have "kept st st6" if "stream_active env fr u st5 = (r, st6)" for u r st6
    using kept_trans [OF k5] stream_kept [OF that] by blast
  then show ?thesis using t e1 c e2 c5 k1 k4 k5
    by (auto simp: try_replay_def Let_def split: sum.splits if_splits prod.splits)
qed

lemma keep_streamed_kept: "keep_streamed env fr invalid legacy x replay r st = (r', st') \<Longrightarrow> kept st st'"
  by (auto simp: keep_streamed_def finish_kept split: option.splits)

lemma accept_replay_kept: "accept_replay env a fr legacy streamed ended replay st = (out, st') \<Longrightarrow> kept st st'"
  by (auto simp: accept_replay_def finish_kept split: prod.splits)

lemma stream_phase_kept:
  assumes "stream_phase env a fr ad st = (out, st')"
  shows "kept st st' \<and> (fit (ks_world st) \<longrightarrow> served (ks_world st'))"
proof -
  obtain res first st1 where s: "stream_active env fr (kf_timeout fr) st = ((res, first), st1)" by (metis prod.exhaust)
  have "kept st1 st'"
  proof (cases res)
    case (Inl x)
    then show ?thesis using assms s by (simp add: stream_phase_def)
  next
    case (Inr r)
    let ?f = "fr\<lparr>kf_first_delta := first\<rparr>" and ?l = "legacy_empty_args_tools env a r" and ?v = "invalid_calls env a r"
    obtain ended st2 where c: "call_clock env st1 = (ended, st2)" by fastforce
    obtain rp st3 where t: "try_replay env a ?f ad ended st2 = (rp, st3)" by fastforce
    have k3: "kept st1 st3" by (rule kept_trans [OF clock_kept [OF c] try_replay_kept [OF t]])
    show ?thesis
    proof (cases rp)
      case L: (Inl xr)
      obtain x replay where xr: "xr = (x, replay)" by fastforce
      obtain r' st4 where k: "keep_streamed env ?f ?v ?l x replay r st3 = (r', st4)" by fastforce
      have "st' \<in> {st1, st3, st4}" using assms s c t k L xr Inr by (cases x) (auto simp: stream_phase_def Let_def split: if_splits)
      then show ?thesis using k3 kept_trans [OF k3 keep_streamed_kept [OF k]] by auto
    next
      case R: (Inr p)
      obtain r' fr' st4 where k: "accept_replay env a ?f ?l r ended p st3 = ((r', fr'), st4)" by (metis prod.exhaust)
      have "st' \<in> {st1, st4}" using assms s c t k R Inr by (auto simp: stream_phase_def Let_def split: if_splits)
      then show ?thesis using kept_trans [OF k3 accept_replay_kept [OF k]] by auto
    qed
  qed
  then show ?thesis using stream_kept [OF s] by (auto simp: kept_def)
qed

lemma request_phase_kept:
  assumes "request_phase env a fr st = (out, st')"
  shows "kept st st' \<and> (fit (ks_world st) \<longrightarrow> served (ks_world st'))"
proof -
  obtain now st1 where c: "call_clock env st = (now, st1)" by fastforce
  have k: "kept st1 st' \<and> (fit (ks_world st1) \<longrightarrow> served (ks_world st'))"
    using assms c by (auto simp: request_phase_def dest: stream_phase_kept chat_kept split: if_splits prod.splits)
  moreover have "kept st st'" using kept_trans [OF clock_kept [OF c]] k by blast
  ultimately show ?thesis using clock_kept [OF c] by (simp add: kept_def)
qed

lemma take_slot_kept:
  assumes "take_slot env a st = (res, st')"
  shows "kept st st'" and "res \<noteq> None \<Longrightarrow> \<exists>e reason prior. res = Some (CallExhausted e reason prior)"
proof -
  obtain d st1 where n: "nearest_deadline env st = (d, st1)" by fastforce
  obtain r st2 where r: "(case d of None \<Rightarrow> (Inr (0, []), st1) | Some (rm, reason) \<Rightarrow>
      if rm - WALL_DEADLINE_FLOOR_S \<le> 0 then effective_timeout env a st1 else (Inr (0, []), st1)) = (r, st2)" by fastforce
  have k2: "kept st1 st2" using r by (auto split: option.splits if_splits dest: timeout_kept)
  have x: "\<exists>e reason prior. x = CallExhausted e reason prior" if "r = Inl x" for x
    using r that by (auto split: option.splits if_splits dest: timeout_raises)
  have k: "kept st st2" by (rule kept_trans [OF deadline_kept [OF n] k2])
  show "kept st st'" "res \<noteq> None \<Longrightarrow> \<exists>e reason prior. res = Some (CallExhausted e reason prior)"
  proof (atomize (full), cases r)
    case (Inl y)
    then show "kept st st' \<and> (res \<noteq> None \<longrightarrow> (\<exists>e reason prior. res = Some (CallExhausted e reason prior)))"
      using assms k x unfolding take_slot_def n Let_def prod.case r by auto
  next
    case (Inr y)
    obtain m reason where g: "gate_wait (ka_gate_wait_s a) d = (m, reason)" by fastforce
    obtain got w where w: "ke_acquire env m (ks_world st2) = (got, w)" by fastforce
    have "kept st2 (st2\<lparr>ks_world := w\<rparr>)" using acquire_keeps [OF _ w] by (simp add: kept_def)
    then have "kept st (st2\<lparr>ks_world := w\<rparr>)" by (rule kept_trans [OF k])
    then show "kept st st' \<and> (res \<noteq> None \<longrightarrow> (\<exists>e reason prior. res = Some (CallExhausted e reason prior)))"
      using assms Inr g w unfolding take_slot_def n Let_def prod.case r
      by (auto simp: gate_timeout_error_def split: if_splits)
  qed
qed

lemma free_kept: "kept st (free_slot env st)"
  using release_keeps by (simp add: free_slot_def kept_def)

lemma run_request_kept:
  assumes "run_request env a fr st = ((res, fr'), st')"
  shows "kept st st' \<and> (fit (ks_world st) \<longrightarrow> served (ks_world st') \<or> (\<exists>e reason prior. res = Inl (CallExhausted e reason prior)))"
proof (cases "ka_gate_limit a \<le> 0")
  case True
  then show ?thesis using assms request_phase_kept by (auto simp: run_request_def)
next
  case False
  obtain x st1 where s: "take_slot env a st = (x, st1)" by fastforce
  obtain r st2 where e: "effective_timeout env a st1 = (r, st2)" by fastforce
  have k2: "kept st st2" by (rule kept_trans [OF take_slot_kept(1) [OF s] timeout_kept [OF e]])
  show ?thesis
  proof (cases x)
    case (Some y)
    then show ?thesis using assms False s take_slot_kept [OF s] by (auto simp: run_request_def)
  next
    case None
    show ?thesis
    proof (cases r)
      case (Inl y)
      have "\<exists>e reason prior. y = CallExhausted e reason prior" using e Inl by (auto dest: timeout_raises)
      then show ?thesis using assms False s None e Inl kept_trans [OF k2 free_kept] by (auto simp: run_request_def)
    next
      case (Inr p)
      obtain u reason where p: "p = (u, reason)" by fastforce
      obtain out st3 where q: "request_phase env a (fr\<lparr>kf_timeout := u, kf_deadline_reason := reason\<rparr>) st2 = (out, st3)" by fastforce
      have "st' = free_slot env st3" using assms False s None e Inr p q by (simp add: run_request_def)
      moreover have "kept st st3" using kept_trans [OF k2] request_phase_kept [OF q] by blast
      ultimately have "kept st st'" using kept_trans free_kept by blast
      moreover have "fit (ks_world st) \<longrightarrow> served (ks_world st')"
        using k2 request_phase_kept [OF q] free_kept [of st3] \<open>st' = free_slot env st3\<close> by (auto simp: kept_def)
      ultimately show ?thesis by blast
    qed
  qed
qed

text \<open>
  How far a step brings the loop: to the next attempt, to another sample of the same leg within its
  allowance, or to another leg.
\<close>

definition closer :: "llm_call_args \<Rightarrow> 'w call_state \<Rightarrow> 'w attempt_end \<Rightarrow> bool" where
  "closer a st final =
     (fit (ks_world st) \<longrightarrow> (case final of
        NextAttempt st' \<Rightarrow> fit (ks_world st') \<and>
         (left (ks_world st') \<le> left (ks_world st) \<and> ks_attempt st' = ks_attempt st + 1
            \<and> ks_empty_completions st' = ks_empty_completions st
          \<or> left (ks_world st') \<le> left (ks_world st) \<and> ks_attempt st' = ks_attempt st
            \<and> ks_empty_completions st' = ks_empty_completions st + 1 \<and> ks_empty_completions st' \<le> max (ka_empty_completion_max_retries a) 0
          \<or> left (ks_world st') < left (ks_world st) \<and> ks_attempt st' = ks_attempt st \<and> ks_empty_completions st' = 0)
      | BackOff s reason e st' \<Rightarrow> kept st st'
      | _ \<Rightarrow> True))"

lemma closer_kept: "kept st st1 \<Longrightarrow> closer a st1 final \<Longrightarrow> closer a st final"
  by (cases final) (auto simp: closer_def kept_def)

lemma unfit_closer: "\<not> fit (ks_world st) \<Longrightarrow> closer a st final"
  by (simp add: closer_def)

lemma closer_simps [simp]: "closer a st (Returned r st')" "closer a st (RaisedOut x st')" "closer a st (fail_attempt env fr rs ac rr e st')"
  by (simp_all add: closer_def fail_attempt_def)

lemma closer_next: "kept st st' \<Longrightarrow> closer a st (next_attempt st')"
  by (simp add: closer_def next_attempt_def kept_def)

lemma sleep_kept': "kept st0 st \<Longrightarrow> kept st0 (call_sleep env s st)"
  by (rule kept_trans [OF _ sleep_kept])

lemma may_resample_kept: "may_resample env a st = (b, st') \<Longrightarrow> kept st st'"
  by (auto simp: may_resample_def deadline_allows_retry_after_def dest: deadline_kept split: if_splits prod.splits)

lemma ladder_kept: "climb_ladder a c rd st = (action, st') \<Longrightarrow> kept st st'"
  by (auto simp: climb_ladder_def bind_rung_def kept_def Let_def split: option.splits prod.splits if_splits)

lemma quiet_kept [simp]: "kept st0 (count_runaway r st) = kept st0 st" "kept (count_runaway r st) st0 = kept st st0"
    "kept st0 (st\<lparr>ks_last_runaway_reason := x\<rparr>) = kept st0 st" "kept (st\<lparr>ks_last_runaway_reason := x\<rparr>) st0 = kept st st0"
    "kept st0 (st\<lparr>ks_stream_stall_count := n\<rparr>) = kept st0 st" "kept (st\<lparr>ks_stream_stall_count := n\<rparr>) st0 = kept st st0"
  by (simp_all add: kept_def count_runaway_def)

lemma runaway_closer: "closer a st (on_runaway env a fr r st)" "closer a st (on_early_runaway env a fr e r st)"
  by (auto simp: on_runaway_def on_early_runaway_def Let_def dest!: may_resample_kept ladder_kept
      intro!: closer_next sleep_kept' finish_kept' intro: kept_trans split: prod.splits bool.splits)

lemma on_response_closer: "closer a st (on_response env a fr r st)"
  by (simp add: on_response_def accept_response_def Let_def runaway_closer)

lemma resample_empty_state:
  assumes "resample_empty env a fr e partial adv st = NextAttempt st'"
  shows "kept st st'"
proof -
  obtain delay st1 where d: "(if adv then (0, st) else transient_backoff env a (nat (ks_empty_completions st - 1)) st) = (delay, st1)"
    by fastforce
  obtain dl st2 where n: "nearest_deadline env st1 = (dl, st2)" by fastforce
  have "kept st st1" using d backoff_kept by (auto split: if_splits)
  then have "kept st st2" using deadline_kept [OF n] by (rule kept_trans)
  then show ?thesis using assms unfolding resample_empty_def Let_def d prod.case n
    by (auto intro!: sleep_kept' finish_kept' split: option.splits if_splits)
qed

lemma resample_empty_cases:
  "(\<exists>x st'. resample_empty env a fr e partial adv st = RaisedOut x st') \<or> (\<exists>st'. resample_empty env a fr e partial adv st = NextAttempt st')"
  by (auto simp: resample_empty_def Let_def split: prod.splits option.splits)

lemma recover_empty_closer:
  assumes "fit (ks_world st) \<Longrightarrow> served (ks_world st)"
  shows "closer a st (recover_empty_completion env a fr e partial st)"
proof -
  let ?s = "st\<lparr>ks_last_exc := Some e, ks_empty_completions := ks_empty_completions st + 1\<rparr>"
  obtain b w where v: "ke_advance env e (ks_world ?s) = (b, w)" by fastforce
  have "closer a st (resample_empty env a fr e partial False ?s)" if "ks_empty_completions ?s \<le> max (ka_empty_completion_max_retries a) 0"
    using resample_empty_cases [of a fr e partial False ?s] resample_empty_state [of a fr e partial False ?s] that
    by (auto simp: closer_def kept_def)
  moreover have "closer a st (resample_empty env a fr e partial True (?s\<lparr>ks_world := w, ks_empty_completions := 0\<rparr>))" if b
  proof -
    let ?t = "?s\<lparr>ks_world := w, ks_empty_completions := 0\<rparr>"
    have "fit (ks_world st) \<longrightarrow> left w < left (ks_world st) \<and> fit w"
      using advance_uses [of "ks_world st" e w] v assms that by simp
    then show ?thesis
      using resample_empty_cases [of a fr e partial True ?t] resample_empty_state [of a fr e partial True ?t]
      by (auto simp: closer_def kept_def)
  qed
  ultimately show ?thesis using v by (auto simp: recover_empty_completion_def Let_def split: bool.splits prod.splits)
qed

lemma back_off_closer: "closer a st (back_off_transient env a reason e st)"
  by (auto simp: back_off_transient_def closer_def dest: backoff_kept split: prod.splits)

lemma on_stall_closer: "closer a st (on_stall env a fr e st)"
  by (auto simp: on_stall_def Let_def dest!: chain_kept intro: closer_kept [OF _ back_off_closer] split: prod.splits if_splits)

lemma on_timeout_closer: "closer a st (on_timeout env a fr e st)"
  by (auto simp: on_timeout_def Let_def dest!: deadline_kept intro: closer_kept [OF _ back_off_closer] split: prod.splits option.splits)

lemma by_status_closer: "closer a st (by_status env a fr e st)"
  by (auto simp: by_status_def back_off_closer split: option.splits prod.splits) (simp add: closer_def rate_kept)

lemma degrade_closer: "closer a st (degrade_expanded env a fr e st)"
  by (auto simp: degrade_expanded_def Let_def intro!: closer_next finish_kept' split: prod.splits) (simp add: kept_def)

lemma on_error_closer:
  assumes "fit (ks_world st) \<Longrightarrow> served (ks_world st)"
  shows "closer a st (on_error env a fr e st)"
proof (cases "fit (ks_world st)")
  case True
  have k: "kept st (st\<lparr>ks_last_exc := Some e\<rparr>)" by simp
  have "closer a st (recover_empty_completion env a fr e' None st1)" if "call_clock env st = (t, st1)" for t e' st1
    using closer_kept [OF clock_kept [OF that]] recover_empty_closer clock_kept [OF that] assms True by (auto simp: kept_def)
  moreover have "closer a st (by_status env a fr e st2)" if "chain_active env (st\<lparr>ks_last_exc := Some e\<rparr>) = (b, st2)" for b st2
    using closer_kept [OF kept_trans [OF k chain_kept [OF that]] by_status_closer] .
  moreover have "closer a st (degrade_expanded env a fr e (st\<lparr>ks_last_exc := Some e\<rparr>))" "closer a st (by_status env a fr e (st\<lparr>ks_last_exc := Some e\<rparr>))"
    using closer_kept [OF k] degrade_closer by_status_closer by blast+
  ultimately show ?thesis by (auto simp: on_error_def Let_def split: prod.splits)
qed (rule unfit_closer)

lemma handle_raise_closer:
  assumes "fit (ks_world st) \<Longrightarrow> served (ks_world st) \<or> (\<exists>e reason prior. x = CallExhausted e reason prior)"
  shows "closer a st (handle_raise env a fr x st)"
  using assms by (cases x) (simp_all add: handle_raise_def recover_empty_closer runaway_closer on_stall_closer on_timeout_closer on_error_closer)

lemma after_back_off_closer: "closer a st (after_back_off env a fr s reason e st)"
  by (auto simp: after_back_off_def Let_def dest!: deadline_kept intro!: closer_next sleep_kept' finish_kept' split: prod.splits option.splits)

lemma call_attempt_closer: "closer a st (call_attempt env a st)"
proof (cases "fit (ks_world st)")
  case True
  obtain r st1 where s: "start_attempt env a st = (r, st1)" by fastforce
  show ?thesis
  proof (cases r)
    case (Inl x)
    then show ?thesis using s by (simp add: call_attempt_def)
  next
    case (Inr fr)
    obtain res fr' st2 where q: "run_request env a fr st1 = ((res, fr'), st2)" by (metis prod.exhaust)
    define final where "final = (case res of Inr r \<Rightarrow> on_response env a fr' r st2 | Inl x \<Rightarrow> handle_raise env a fr' x st2)"
    have "fit (ks_world st1)" using start_kept [OF s] True by (simp add: kept_def)
    then have "closer a st2 final" using run_request_kept [OF q] handle_raise_closer on_response_closer
      by (cases res) (auto simp: final_def)
    then have c: "closer a st final" using closer_kept kept_trans start_kept [OF s] run_request_kept [OF q] by blast
    have "call_attempt env a st = (case final of BackOff s reason e st3 \<Rightarrow> after_back_off env a fr' s reason e st3 | x \<Rightarrow> x)"
      using s Inr q by (simp add: call_attempt_def final_def)
    with c True show ?thesis
      by (cases final) (auto simp: closer_def [of a st "BackOff _ _ _ _"] intro: closer_kept [OF _ after_back_off_closer])
  qed
qed (rule unfit_closer)

text \<open>The passes a call may still make.\<close>

definition passes :: "llm_call_args \<Rightarrow> 'w call_state \<Rightarrow> nat" where
  "passes a st =
     (let b = nat (max (ka_empty_completion_max_retries a) 0) in
      nat (ka_max_retries a) - ks_attempt st + left (ks_world st) * (b + 1) + (b - nat (ks_empty_completions st)))"

lemma passes_fall:
  assumes "call_attempt env a st = NextAttempt st'" and "int (ks_attempt st) < ka_max_retries a" and "fit (ks_world st)"
    and "0 \<le> ks_empty_completions st"
  shows "passes a st' < passes a st" and "fit (ks_world st')" and "0 \<le> ks_empty_completions st'"
proof -
  define b where "b = nat (max (ka_empty_completion_max_retries a) 0)"
  define l where "l = left (ks_world st) * (b + 1)"
  define l' where "l' = left (ks_world st') * (b + 1)"
  have c: "closer a st (NextAttempt st')" using call_attempt_closer [of a st] assms(1) by simp
  then show "fit (ks_world st')" "0 \<le> ks_empty_completions st'" using assms(3,4) by (auto simp: closer_def)
  have le: "l' \<le> l" if "left (ks_world st') \<le> left (ks_world st)" using that unfolding l_def l'_def by (rule mult_le_mono1)
  have lt: "l' + b < l" if "left (ks_world st') < left (ks_world st)"
    using mult_le_mono1 [of "left (ks_world st') + 1" "left (ks_world st)" "b + 1"] that by (simp add: l_def l'_def algebra_simps)
  have n: "ks_attempt st < nat (ka_max_retries a)" using assms(2) by linarith
  have m: "passes a st = nat (ka_max_retries a) - ks_attempt st + l + (b - nat (ks_empty_completions st))"
    "passes a st' = nat (ka_max_retries a) - ks_attempt st' + l' + (b - nat (ks_empty_completions st'))"
    by (simp_all add: passes_def Let_def l_def l'_def b_def)
  consider "l' \<le> l" "ks_attempt st' = ks_attempt st + 1" "ks_empty_completions st' = ks_empty_completions st"
    | "l' \<le> l" "ks_attempt st' = ks_attempt st" "nat (ks_empty_completions st') = nat (ks_empty_completions st) + 1"
      "nat (ks_empty_completions st') \<le> b"
    | "l' + b < l" "ks_attempt st' = ks_attempt st" "ks_empty_completions st' = 0"
    using c assms(3,4) le lt by (auto simp: closer_def b_def)
  then show "passes a st' < passes a st" using n unfolding m by cases linarith+
qed

lemma call_loop_ends:
  assumes "passes a st < fuel" and "fit (ks_world st)" and "0 \<le> ks_empty_completions st"
    and "books a {} st"
  shows "\<exists>out. call_loop fuel env a st = Some out"
  using assms
proof (induction fuel arbitrary: st)
  case (Suc n)
  show ?case
  proof (cases "int (ks_attempt st) < ka_max_retries a")
    case True
    obtain i where g: "good_end env a i (call_attempt env a st)"
      "\<nexists>s reason e st'. call_attempt env a st = BackOff s reason e st'" using call_attempt_good [OF Suc.prems(4)] by blast
    show ?thesis
    proof (cases "call_attempt env a st")
      case (NextAttempt st2)
      note P = passes_fall [OF NextAttempt True Suc.prems(2,3)]
      have "books a {} st2" using g NextAttempt by (simp add: good_end_def)
      then show ?thesis using Suc.IH [of st2] P Suc.prems(1) True NextAttempt by simp
    qed (use g True in simp_all)
  qed simp
qed simp

text \<open>The passes of a whole call.\<close>

lemma call_llm_ends:
  assumes "fit w"
    and "nat (ka_max_retries a) + left w * (nat (max (ka_empty_completion_max_retries a) 0) + 1)
           + nat (max (ka_empty_completion_max_retries a) 0) < fuel"
  shows "\<exists>out. call_llm fuel env a w = Some out"
  unfolding call_llm_def
proof (rule call_loop_ends)
  let ?s = "init_call env a w"
  have k: "fit (ks_world ?s) \<and> left (ks_world ?s) \<le> left w" "ks_attempt ?s = 0" "ks_empty_completions ?s = 0"
    using assms(1) by (auto simp: init_call_def Let_def dest: now_keeps split: prod.splits)
  then show "fit (ks_world ?s)" "0 \<le> ks_empty_completions ?s" by simp_all
  have "left (ks_world ?s) * (nat (max (ka_empty_completion_max_retries a) 0) + 1)
      \<le> left w * (nat (max (ka_empty_completion_max_retries a) 0) + 1)" using k by (intro mult_le_mono1) simp
  then show "passes a ?s < fuel" using assms(2) k(2,3) unfolding passes_def Let_def by simp
qed (rule init_books)

end

section \<open>A call over a fallback chain\<close>

text \<open>
  The world of a call whose client is a fallback chain: \<open>answers\<close> and \<open>streams\<close> say what the entries do,
  \<open>assemble\<close> folds a stream into its response, \<open>passed\<close> is the world after a request, and \<open>base\<close> has
  the rest.  The handler that takes an exception of a client depends on its class.
\<close>

definition raise_of :: "llm_exc \<Rightarrow> call_raise" where
  "raise_of e =
     (if ex_is_empty e then EmptyRaised e None
      else if ex_type e = ''LLMStreamStalled'' then StallRaised e
      else if ex_is_timeout e then TimeoutRaised e
      else ErrorRaised e)"

definition on_world :: "('w \<Rightarrow> 'b \<times> 'w) \<Rightarrow> 'c \<times> 'w \<Rightarrow> 'b \<times> ('c \<times> 'w)" where
  "on_world f p = (case f (snd p) of (x, w) \<Rightarrow> (x, (fst p, w)))"

definition chain_env ::
  "'w call_env \<Rightarrow> (nat \<Rightarrow> call_request \<Rightarrow> 'w \<Rightarrow> llm_exc + LLMResponse) \<Rightarrow> (nat \<Rightarrow> call_request \<Rightarrow> 'w \<Rightarrow> client_stream) \<Rightarrow>
   (call_request \<Rightarrow> stream \<Rightarrow> (call_raise + LLMResponse) \<times> real option) \<Rightarrow> (call_request \<Rightarrow> 'w \<Rightarrow> 'w) \<Rightarrow>
   (LLMFallbackChain \<times> 'w) call_env" where
  "chain_env base answers streams assemble passed =
     \<lparr>ke_now = on_world (ke_now base), ke_wall_remaining = on_world (ke_wall_remaining base),
      ke_chain_fallback_active = on_world (ke_chain_fallback_active base), ke_uniform = on_world (ke_uniform base),
      ke_sleep = \<lambda>s p. (fst p, ke_sleep base s (snd p)), ke_on_attempt = \<lambda>ev p. (fst p, ke_on_attempt base ev (snd p)),
      ke_acquire = \<lambda>m. on_world (ke_acquire base m), ke_release = \<lambda>p. (fst p, ke_release base (snd p)),
      ke_chat = \<lambda>q p.
        (case chain_chat (ke_str_of base) (\<lambda>i. answers i q (snd p)) (fst p) of
           (res, ch) \<Rightarrow> (case res of Inl e \<Rightarrow> Inl (raise_of e) | Inr r \<Rightarrow> Inr r, (ch, passed q (snd p)))),
      ke_stream = \<lambda>q p.
        (case chain_stream (ke_str_of base) (\<lambda>i. streams i q (snd p)) (fst p) of
           (s, ch) \<Rightarrow> (assemble q s, (ch, passed q (snd p)))),
      ke_advance = \<lambda>e p. (case advance_empty_completion (fst p) False e of (ch, b) \<Rightarrow> (b, (ch, snd p))),
      ke_str_of = ke_str_of base, ke_fmt = ke_fmt base, ke_to_float = ke_to_float base, ke_loads = ke_loads base,
      ke_issue = ke_issue base, ke_fresh_id = \<lambda>p. ke_fresh_id base (snd p)\<rparr>"

lemma serve_fields [simp]:
  "ch_entries (serve i ch) = ch_entries ch" "ch_managed (serve i ch) = ch_managed ch" "ch_serving_index (serve i ch) = i"
  "ch_managed ch \<Longrightarrow> ch_start_index (serve i ch) = i"
  by (simp_all add: serve_def)

text \<open>A managed chain serves a request with an entry at or after its cursor, and leaves the cursor there.\<close>

definition served_from :: "nat \<Rightarrow> LLMFallbackChain \<Rightarrow> LLMFallbackChain \<Rightarrow> bool" where
  "served_from i ch ch' =
     (ch_entries ch' = ch_entries ch \<and> ch_managed ch' \<and> i \<le> ch_serving_index ch' \<and> ch_serving_index ch' < length (ch_entries ch)
      \<and> ch_start_index ch' = ch_serving_index ch')"

lemma chat_from_serves:
  assumes "chat_from str_of f i ch = (res, ch')" and "i < length (ch_entries ch)" and "ch_managed ch"
  shows "served_from i ch ch'"
  using assms
proof (induction str_of f i ch arbitrary: res ch' rule: chat_from.induct)
  case (1 str_of f i ch)
  have now: "served_from i ch (serve i ch)" using "1.prems"(2,3) by (simp add: served_from_def)
  show ?case
  proof (cases "entry_chat str_of (serve i ch) f i")
    case (Inr r)
    then show ?thesis using "1.prems" now chat_from.simps [of str_of f i ch] by (simp add: Let_def)
  next
    case (Inl e)
    show ?thesis
    proof (cases "i = length (ch_entries ch) - 1 \<or> \<not> entry_matches (ch_entries ch ! i) e")
      case True
      then show ?thesis using "1.prems" now Inl chat_from.simps [of str_of f i ch] by (simp add: Let_def)
    next
      case False
      then have c: "chat_from str_of f (i + 1) (serve i ch) = (res, ch')"
        using "1.prems" Inl chat_from.simps [of str_of f i ch] by (simp add: Let_def)
      have "served_from (i + 1) (serve i ch) ch'"
        by (rule "1.IH" [OF _ refl refl Inl False c]) (use "1.prems" False in auto)
      then show ?thesis by (simp add: served_from_def)
    qed
  qed
qed

lemma stream_from_serves:
  assumes "stream_from str_of f i ch = (s, ch')" and "i < length (ch_entries ch)" and "ch_managed ch"
  shows "served_from i ch ch'"
  using assms
proof (induction str_of f i ch arbitrary: s ch' rule: stream_from.induct)
  case (1 str_of f i ch)
  have now: "served_from i ch (serve i ch)" using "1.prems"(2,3) by (simp add: served_from_def)
  obtain ds err where en: "entry_stream str_of (serve i ch) f i = (ds, err)" by fastforce
  show ?case
  proof (cases "err = None \<or> (\<exists>e. err = Some e \<and> (output_deltas ds \<noteq> [] \<or> i = length (ch_entries ch) - 1 \<or> \<not> entry_matches (ch_entries ch ! i) e))")
    case True
    then show ?thesis using "1.prems" now en stream_from.simps [of str_of f i ch] by (auto simp: Let_def)
  next
    case False
    then obtain e where e: "err = Some e" by (cases err) auto
    obtain s2 ch2 where c: "stream_from str_of f (i + 1) (serve i ch) = (s2, ch2)" by fastforce
    have ch: "ch' = ch2" using "1.prems" False e en c stream_from.simps [of str_of f i ch]
      by (auto simp: Let_def split: prod.splits)
    have "served_from (i + 1) (serve i ch) ch2"
      by (rule "1.IH" [OF _ refl en [symmetric] _ e _ c]) (use "1.prems" False e in auto)
    then show ?thesis using ch by (simp add: served_from_def)
  qed
qed

definition chain_left :: "LLMFallbackChain \<times> 'w \<Rightarrow> nat" where
  "chain_left p = length (ch_entries (fst p)) - ch_start_index (fst p)"

definition chain_served :: "LLMFallbackChain \<times> 'w \<Rightarrow> bool" where
  "chain_served p = (ch_start_index (fst p) \<le> ch_serving_index (fst p))"

definition chain_fit :: "LLMFallbackChain \<times> 'w \<Rightarrow> bool" where
  "chain_fit p = (ch_managed (fst p) \<and> ch_start_index (fst p) < length (ch_entries (fst p)))"

lemmas chain_defs = chain_left_def chain_served_def chain_fit_def

interpretation chain_call: leg_world "chain_env base answers streams assemble passed" chain_left chain_served chain_fit
proof
  fix w w' q and r :: "call_raise + LLMResponse"
  assume "chain_fit w" "ke_chat (chain_env base answers streams assemble passed) q w = (r, w')"
  then show "chain_left w' \<le> chain_left w \<and> chain_served w' \<and> chain_fit w'"
    using chat_from_serves [of "ke_str_of base" "\<lambda>i. answers i q (snd w)" "ch_start_index (fst w)" "fst w"]
    by (auto simp: chain_env_def chain_defs chain_chat_def served_from_def split: prod.splits)
next
  fix w w' q and rs :: "(call_raise + LLMResponse) \<times> real option"
  assume "chain_fit w" "ke_stream (chain_env base answers streams assemble passed) q w = (rs, w')"
  then show "chain_left w' \<le> chain_left w \<and> chain_served w' \<and> chain_fit w'"
    using stream_from_serves [of "ke_str_of base" "\<lambda>i. streams i q (snd w)" "ch_start_index (fst w)" "fst w"]
    by (auto simp: chain_env_def chain_defs chain_stream_def served_from_def split: prod.splits)
next
  fix w w' e
  assume "chain_fit w" "chain_served w" "ke_advance (chain_env base answers streams assemble passed) e w = (True, w')"
  then show "chain_left w' < chain_left w \<and> chain_fit w'"
    by (auto simp: chain_env_def chain_defs advance_empty_completion_def Let_def split: prod.splits if_splits)
qed (auto simp: chain_env_def chain_defs on_world_def split: prod.splits)

section \<open>Why a call fails\<close>

definition DEADLINE_REASONS :: "string set" where
  "DEADLINE_REASONS = {''wall_deadline'', ''logical_call_deadline''}"

text \<open>
  A failure whose error agrees with its reason: a deadline comes with the error of that deadline, and only
  an error that no retry can cure is called non-transient.
\<close>

fun agrees :: "(pyval \<Rightarrow> string) \<Rightarrow> call_raise \<Rightarrow> bool" where
  "agrees str_of (CallExhausted e reason prior) =
     (reason \<in> DEADLINE_REASONS \<and> ex_deadline e = Some reason
      \<or> reason = ''non_transient'' \<and> (\<exists>s\<in>{400, 401, 403, 404}. get_status_code e = Some s \<and> \<not> (s = 400 \<and> is_transient_network str_of e))
      \<or> reason \<in> {''chain_advance'', ''empty_completion'', ''gate_wait'', ''exhausted''})"
| "agrees str_of CancelRaised = True"
| "agrees str_of x = False"

definition sound_end :: "'w call_env \<Rightarrow> 'w attempt_end \<Rightarrow> bool" where
  "sound_end env final = (case final of RaisedOut x st \<Rightarrow> agrees (ke_str_of env) x | _ \<Rightarrow> True)"

lemma sound_simps [simp]:
  "sound_end env (Returned r st)" "sound_end env (NextAttempt st)" "sound_end env (BackOff s reason e st)"
  "sound_end env (RaisedOut x st) = agrees (ke_str_of env) x" "sound_end env (next_attempt st)"
  by (simp_all add: sound_end_def next_attempt_def)

lemma deadline_named: "nearest_deadline env st = (Some (rm, reason), st') \<Longrightarrow> reason \<in> DEADLINE_REASONS"
  by (auto simp: nearest_deadline_def Let_def DEADLINE_REASONS_def split: prod.splits option.splits if_splits)

lemma deadline_agrees [simp]: "reason \<in> DEADLINE_REASONS \<Longrightarrow> agrees str_of (CallExhausted (LLMDeadlineExceeded reason s) reason prior)"
  by (simp add: LLMDeadlineExceeded_def)

lemma timeout_agrees: "effective_timeout env a st = (Inl x, st') \<Longrightarrow> agrees str_of x"
  by (auto elim!: timeout_effect simp: DEADLINE_REASONS_def simp del: agrees.simps)

lemma runaway_sound: "sound_end env (on_runaway env a fr r st)" "sound_end env (on_early_runaway env a fr e r st)"
  by (auto simp: on_runaway_def on_early_runaway_def Let_def split: prod.splits bool.splits)

lemma recover_empty_sound: "sound_end env (recover_empty_completion env a fr e partial st)"
proof -
  have "sound_end env (resample_empty env a fr e partial adv st')" for adv st'
    by (auto simp: resample_empty_def Let_def dest!: deadline_named simp del: agrees.simps split: prod.splits option.splits)
  then show ?thesis by (auto simp: recover_empty_completion_def Let_def split: prod.splits bool.splits)
qed

lemma back_off_sound [simp]: "sound_end env (back_off_transient env a reason e st)"
  by (simp add: back_off_transient_def split: prod.splits)

lemma on_stall_sound: "sound_end env (on_stall env a fr e st)"
  by (simp add: on_stall_def fail_attempt_def Let_def split: prod.splits)

lemma on_timeout_sound: "sound_end env (on_timeout env a fr e st)"
  by (auto simp: on_timeout_def Let_def dest!: deadline_named simp del: agrees.simps split: prod.splits option.splits)

lemma by_status_sound: "sound_end env (by_status env a fr e st)"
  by (auto simp: by_status_def fail_attempt_def split: option.splits prod.splits)

lemma on_error_sound: "sound_end env (on_error env a fr e st)"
  by (auto simp: on_error_def degrade_expanded_def fail_attempt_def Let_def recover_empty_sound by_status_sound split: prod.splits)

lemma handle_raise_sound:
  assumes "\<And>e reason prior. x = CallExhausted e reason prior \<Longrightarrow> agrees (ke_str_of env) x"
  shows "sound_end env (handle_raise env a fr x st)"
  using assms by (cases x)
    (simp_all add: handle_raise_def recover_empty_sound runaway_sound on_stall_sound on_timeout_sound on_error_sound del: agrees.simps(1))

lemma after_back_off_sound: "sound_end env (after_back_off env a fr s reason e st)"
  by (auto simp: after_back_off_def Let_def dest!: deadline_named simp del: agrees.simps split: prod.splits option.splits)

text \<open>A client that does not itself raise the exception of a failed call.\<close>

definition plain_client :: "'w call_env \<Rightarrow> bool" where
  "plain_client env =
     (\<forall>q w e reason prior. fst (ke_chat env q w) \<noteq> Inl (CallExhausted e reason prior)
        \<and> fst (fst (ke_stream env q w)) \<noteq> Inl (CallExhausted e reason prior))"

lemma request_phase_plain:
  assumes "request_phase env a fr st = ((Inl (CallExhausted e reason prior), fr'), st')" and "plain_client env"
  shows False
proof -
  have s: "stream_active env f t s = ((Inl (CallExhausted e reason prior), first), s') \<Longrightarrow> False" for f t s first s'
    using assms(2) by (auto simp: stream_active_def plain_client_def Let_def split: prod.splits)
      (metis fst_conv)
  have c: "chat_active env f s = (Inl (CallExhausted e reason prior), s') \<Longrightarrow> False" for f s s'
    using assms(2) by (auto simp: chat_active_def plain_client_def Let_def split: prod.splits sum.splits if_splits)
      (metis fst_conv)
  show False using assms(1) s c
    by (auto simp: request_phase_def stream_phase_def Let_def split: prod.splits sum.splits if_splits call_raise.splits)
qed

lemma take_slot_agrees:
  assumes "take_slot env a st = (Some x, st')"
  shows "agrees str_of x"
proof -
  obtain d st1 where n: "nearest_deadline env st = (d, st1)" by fastforce
  have g: "agrees str_of (gate_timeout_error env m reason prior)" if "gate_wait c d = (m, reason)" for c m reason prior
    using that n by (auto simp: gate_wait_def gate_timeout_error_def Let_def dest!: deadline_named
        split: option.splits if_splits prod.splits)
       (auto simp: LLMDeadlineExceeded_def)
  show ?thesis using assms g unfolding take_slot_def n Let_def prod.case
    by (auto dest!: timeout_agrees [of env a _ _ _ str_of] simp del: agrees.simps split: option.splits if_splits prod.splits sum.splits)
qed

lemma run_request_agrees:
  assumes "run_request env a fr st = ((Inl (CallExhausted e reason prior), fr'), st')" and "plain_client env"
  shows "agrees str_of (CallExhausted e reason prior)"
  using assms unfolding run_request_def
  by (auto dest!: request_phase_plain [OF _ assms(2)] timeout_agrees [of env a _ _ _ str_of] take_slot_agrees [of env a _ _ _ str_of] simp del: agrees.simps
      split: if_splits prod.splits option.splits sum.splits)

lemma call_attempt_sound:
  assumes "plain_client env"
  shows "sound_end env (call_attempt env a st)"
proof -
  obtain r st1 where s: "start_attempt env a st = (r, st1)" by fastforce
  show ?thesis
  proof (cases r)
    case (Inl x)
    then have "agrees (ke_str_of env) x" using s timeout_agrees
      by (auto simp: start_attempt_def Let_def simp del: agrees.simps split: prod.splits sum.splits)
    then show ?thesis using s Inl by (simp add: call_attempt_def)
  next
    case (Inr fr)
    obtain res fr' st2 where q: "run_request env a fr st1 = ((res, fr'), st2)" by (metis prod.exhaust)
    define final where "final = (case res of Inr r \<Rightarrow> on_response env a fr' r st2 | Inl x \<Rightarrow> handle_raise env a fr' x st2)"
    have "sound_end env final"
    proof (cases res)
      case (Inl x)
      have "agrees (ke_str_of env) x" if "x = CallExhausted e reason prior" for e reason prior
        using run_request_agrees q assms unfolding Inl that by blast
      from handle_raise_sound [OF this] show ?thesis by (simp add: final_def Inl)
    next
      case (Inr r)
      then show ?thesis by (simp add: final_def on_response_def accept_response_def Let_def runaway_sound)
    qed
    then show ?thesis using s Inr q after_back_off_sound
      by (auto simp: call_attempt_def final_def [symmetric] split: attempt_end.splits)
  qed
qed

lemma call_loop_sound:
  "plain_client env \<Longrightarrow> call_loop fuel env a st = Some (Inl x, st') \<Longrightarrow> agrees (ke_str_of env) x"
proof (induction fuel arbitrary: st)
  case (Suc n)
  then show ?case using call_attempt_sound [OF Suc.prems(1), of a st]
    by (auto simp: exhausted_error_def split: if_splits attempt_end.splits)
qed simp

section \<open>Properties\<close>

text \<open>
  C4: every physical request of a call is accounted for exactly once.  When a call ends, otherwise than by
  cancellation, its attempts were started under the numbers \<open>1, 2, ...\<close> in order and each was closed exactly
  once afterwards; if the call returns a response, exactly one of them was delivered, and its report
  carries the fields of that response, and if it fails, none was.
\<close>

theorem attempts_accounted:
  assumes "call_llm fuel env a w = Some (res, st)" and "res \<noteq> Inl CancelRaised"
  shows "ledger (ks_trace st) = Some (ks_physical_index st, {})
    \<and> (case res of
            Inl x \<Rightarrow> delivered (ks_trace st) = []
          | Inr r \<Rightarrow> \<exists>rp. delivered (ks_trace st) = [Emitted (Finished rp)]
                            \<and> rp_response rp = Some (response_attempt_fields (ke_str_of env) r))"
  using call_loop_good [OF assms(1) [unfolded call_llm_def] init_books] assms(2) by auto

text \<open>
  C5: deadlines are respected.  Before every request of a call the nearest deadline was read, and the
  request got at most the configured timeout and at most the time that reading left, which was no less
  than the floor of twenty seconds or the timeout; before every pause it was read too, and pause and floor fit into
  the time left.
\<close>

theorem deadline_respected:
  assumes "call_llm fuel env a w = Some (res, st)" and "i < length (ks_trace st)"
    and "ks_trace st ! i = Requested q \<or> ks_trace st ! i = Waited s"
  shows "\<exists>d. last_read (take i (ks_trace st)) = Some d
    \<and> (ks_trace st ! i = Requested q \<longrightarrow> rq_timeout q \<le> ka_timeout a)
    \<and> (\<forall>remaining reason. d = Some (remaining, reason) \<longrightarrow>
         (ks_trace st ! i = Requested q \<longrightarrow> rq_timeout q \<le> remaining \<and> min WALL_DEADLINE_FLOOR_S (ka_timeout a) \<le> remaining)
         \<and> (ks_trace st ! i = Waited s \<longrightarrow> s + WALL_DEADLINE_FLOOR_S \<le> remaining))"
proof -
  have "action_timely a (last_read (take i (ks_trace st))) (ks_trace st ! i)"
    using call_loop_good [OF assms(1) [unfolded call_llm_def] init_books] assms(2) by (auto simp: timely_def)
  then show ?thesis using assms(3) by (auto simp: fits_def split: option.splits)
qed


text \<open>
  C6: a call over a fallback chain ends.  With a chain of any length as its client, whatever the entries
  answer and however often they answer nothing, a call returns or fails after at most its retries and, per entry, one
  more sample than the allowance for blank completions.
\<close>

theorem chain_call_ends:
  assumes "ch_entries ch \<noteq> []"
    and "nat (ka_max_retries a) + (length (ch_entries ch) + 1) * (nat (max (ka_empty_completion_max_retries a) 0) + 1) \<le> fuel"
  shows "\<exists>res st. call_llm fuel (chain_env base answers streams assemble passed) a (for_logical_call ch, w) = Some (res, st)"
proof -
  let ?b = "nat (max (ka_empty_completion_max_retries a) 0)"
  have f: "chain_fit (for_logical_call ch, w)" "chain_left (for_logical_call ch, w) = length (ch_entries ch)"
    using assms(1) by (simp_all add: chain_fit_def chain_left_def for_logical_call_def)
  have "nat (ka_max_retries a) + length (ch_entries ch) * (?b + 1) + ?b < fuel" using assms(2) by simp
  then obtain out where "call_llm fuel (chain_env base answers streams assemble passed) a (for_logical_call ch, w) = Some out"
    using chain_call.call_llm_ends [OF f(1)] f(2) by metis
  then show ?thesis by (cases out) blast
qed

section \<open>Runs\<close>

text \<open>A world that counts requests: the first one times out, and of the later ones each gets the same reply.\<close>

definition demo_answer :: LLMResponse where
  "demo_answer = \<lparr>ll_content = PyStr ''42'', ll_tool_calls = [], ll_reasoning_content = [], ll_finish_reason = ''stop'',
     ll_model = ''m'', ll_usage = [(''completion_tokens'', 3)], ll_response_metadata = [], ll_usage_source = []\<rparr>"

definition demo_call_env :: "(nat \<Rightarrow> call_raise + LLMResponse) \<Rightarrow> nat call_env" where
  "demo_call_env reply =
     \<lparr>ke_now = \<lambda>w. (real w, w), ke_wall_remaining = \<lambda>w. (Some (100 - real w), w), ke_chain_fallback_active = \<lambda>w. (False, w),
      ke_uniform = \<lambda>w. (1, w), ke_sleep = \<lambda>s w. w, ke_on_attempt = \<lambda>ev w. w, ke_acquire = \<lambda>m w. (True, w), ke_release = \<lambda>w. w,
      ke_chat = \<lambda>q w. (reply w, w + 1), ke_stream = \<lambda>q w. ((reply w, None), w + 1), ke_advance = \<lambda>e w. (False, w),
      ke_str_of = \<lambda>v. [], ke_fmt = \<lambda>n x. [], ke_to_float = \<lambda>v. None, ke_loads = \<lambda>s. None, ke_issue = \<lambda>v sc. None,
      ke_fresh_id = \<lambda>w n. []\<rparr>"

definition demo_call_args :: llm_call_args where
  "demo_call_args =
     \<lparr>ka_messages = [user_msg ''q''], ka_llm_cap = None, ka_tools = [], ka_timeout = 60, ka_max_retries = 3, ka_turn = 1,
      ka_use_stream = False, ka_retry_wait_fixed = Some 5, ka_runaway_state = None, ka_reasoning_only_timeout_s = None,
      ka_reasoning_only_max_tokens = None, ka_logical_call_timeout_s = None, ka_max_completion_tokens_hint = None,
      ka_context_token_limit_hint = None, ka_empty_completion_max_retries = 2, ka_gate_limit = 0, ka_gate_wait_s = 0,
      ka_runaway_max_retries = 3, ka_stream_stall_max = 2, ka_message_tokens = 10, ka_output_limit = None\<rparr>"

definition first_times_out :: "nat \<Rightarrow> call_raise + LLMResponse" where
  "first_times_out w = (if w = 0 then Inl (timeout_error ''slow'') else Inr demo_answer)"

definition always_forbidden :: "nat \<Rightarrow> call_raise + LLMResponse" where
  "always_forbidden w = Inl (ErrorRaised ((plain_exc ''E'' [])\<lparr>ex_attrs := [(''status_code'', PyInt 403)]\<rparr>))"

fun two_requests :: "((call_raise + LLMResponse) \<times> nat call_state) option \<Rightarrow> bool" where
  "two_requests (Some (Inr r, st)) =
     (ks_physical_index st = 2 \<and> length (ks_trace st) = 11 \<and> (case ks_trace st ! 6 of Waited s \<Rightarrow> s = 5 | _ \<Rightarrow> False))"
| "two_requests x = False"

fun fails_as :: "string \<Rightarrow> ((call_raise + LLMResponse) \<times> nat call_state) option \<Rightarrow> bool" where
  "fails_as s (Some (Inl (CallExhausted e reason prior), st)) = (reason = s)"
| "fails_as s x = False"

lemma demo_run:
  obtains r st where "call_llm 5 (demo_call_env first_times_out) demo_call_args 0 = Some (Inr r, st)"
    and "ks_physical_index st = 2" and "length (ks_trace st) = 11" and "ks_trace st ! 6 = Waited 5"
proof -
  have d: "two_requests (call_llm 5 (demo_call_env first_times_out) demo_call_args 0)" by code_simp
  show thesis
    by (cases rule: two_requests.cases [of "call_llm 5 (demo_call_env first_times_out) demo_call_args 0"])
       (use d that in \<open>auto split: call_action.splits\<close>)
qed

theorem attempts_accounted_witness:
  "\<exists>r st. call_llm 5 (demo_call_env first_times_out) demo_call_args 0 = Some (Inr r, st)
     \<and> ledger (ks_trace st) = Some (2, {}) \<and> length (delivered (ks_trace st)) = 1"
proof (rule demo_run)
  fix r st
  assume c: "call_llm 5 (demo_call_env first_times_out) demo_call_args 0 = Some (Inr r, st)" and "ks_physical_index st = 2"
  then show ?thesis using attempts_accounted [OF c] by auto
qed

theorem deadline_respected_witness:
  "\<exists>r st d. call_llm 5 (demo_call_env first_times_out) demo_call_args 0 = Some (Inr r, st)
     \<and> ks_trace st ! 6 = Waited 5 \<and> last_read (take 6 (ks_trace st)) = Some d"
proof (rule demo_run)
  fix r st
  assume c: "call_llm 5 (demo_call_env first_times_out) demo_call_args 0 = Some (Inr r, st)"
    and l: "length (ks_trace st) = 11" "ks_trace st ! 6 = Waited 5"
  show ?thesis using deadline_respected [OF c, of 6 _ 5] c l by auto
qed


definition demo_entry :: FallbackEntry where
  "demo_entry = \<lparr>fe_model_id = ''m'', fe_triggers = None, fe_provider = []\<rparr>"

theorem chain_call_ends_witness:
  "\<exists>res st. call_llm 9 (chain_env (demo_call_env first_times_out) (\<lambda>i q w. Inr demo_answer) (\<lambda>i q w. (([], None), []))
       (\<lambda>q s. (Inr demo_answer, None)) (\<lambda>q w. w)) demo_call_args
     (for_logical_call \<lparr>ch_entries = [demo_entry], ch_managed = False, ch_start_index = 0, ch_serving_index = 0\<rparr>, 0) = Some (res, st)"
  by (rule chain_call_ends) (simp_all add: demo_call_args_def)

end
