(* ===== verification/Streaming.thy ===== *)
theory Streaming
  imports Call_Llm
begin

text \<open>
  Assembly of a streamed response (\<^verbatim>\<open>runtime/loop/_streaming.py\<close>, \<^verbatim>\<open>stream_tools.py\<close>): the splitter of inline
  reasoning tags, the stitching of tool-call fragments, the fold over the deltas with its callbacks, the
  stall and reasoning watchdogs, and the assembled response.  A stream is the list of its
  deltas with the times they arrive at; at equal times a delta is read before a timer fires.
  Texts of fragments are strings, as the providers build them; closing the stream has no result.
\<close>

section \<open>Inline reasoning tags\<close>

definition think_tag :: "bool \<Rightarrow> string" where
  "think_tag inside = (if inside then ''</think>'' else ''<think>'')"

record ThinkTagSplitter =
  ts_inside :: bool
  ts_buffer :: string

definition new_splitter :: ThinkTagSplitter where
  "new_splitter = \<lparr>ts_inside = False, ts_buffer = []\<rparr>"

definition has_state :: "ThinkTagSplitter \<Rightarrow> bool" where
  "has_state s = (ts_inside s \<or> ts_buffer s \<noteq> [])"

fun overlap_upto :: "nat \<Rightarrow> string \<Rightarrow> string \<Rightarrow> nat" where
  "overlap_upto 0 buf tag = 0"
| "overlap_upto (Suc n) buf tag =
     (if drop (length buf - Suc n) buf = take (Suc n) tag then Suc n else overlap_upto n buf tag)"

definition suffix_overlap :: "string \<Rightarrow> string \<Rightarrow> nat" where
  "suffix_overlap buf tag = overlap_upto (min (length tag - 1) (length buf)) buf tag"

text \<open>The loop of \<open>feed\<close>: the visible text, the thinking, and what is left inside or outside a block.\<close>

function feed_loop :: "bool \<Rightarrow> string \<Rightarrow> string \<times> string \<times> bool \<times> string" where
  "feed_loop inside buf =
     (if buf = [] then ([], [], inside, [])
      else case split_first (think_tag inside) buf of
             None \<Rightarrow>
               let safe = length buf - suffix_overlap buf (think_tag inside) in
               if inside then ([], take safe buf, inside, drop safe buf) else (take safe buf, [], inside, drop safe buf)
           | Some (before, rest) \<Rightarrow>
               (case feed_loop (\<not> inside) rest of
                  (v, t, i, b) \<Rightarrow> if inside then (v, before @ t, i, b) else (before @ v, t, i, b)))"
  by pat_completeness auto
termination
proof (relation "measure (\<lambda>(i, b). length b)", simp_all)
  fix inside and buf :: string and p before rest
  assume "buf \<noteq> []" and "split_first (think_tag inside) buf = Some p" and "(before, rest) = p"
  then have "buf = before @ think_tag inside @ rest" using split_first_Some by metis
  then show "length rest < length buf" by (simp add: think_tag_def)
qed

declare feed_loop.simps [simp del]

definition feed :: "string \<Rightarrow> ThinkTagSplitter \<Rightarrow> (string \<times> string) \<times> ThinkTagSplitter" where
  "feed s sp =
     (case feed_loop (ts_inside sp) (ts_buffer sp @ s) of
        (v, t, i, b) \<Rightarrow> ((v, t), \<lparr>ts_inside = i, ts_buffer = b\<rparr>))"

definition flush :: "ThinkTagSplitter \<Rightarrow> (string \<times> string) \<times> ThinkTagSplitter" where
  "flush sp = (if ts_inside sp then ([], ts_buffer sp) else (ts_buffer sp, []), sp\<lparr>ts_buffer := []\<rparr>)"

section \<open>Tool-call fragments\<close>

record call_slot =
  sl_id :: pyval
  sl_name :: string
  sl_arguments :: string

definition new_slot :: call_slot where
  "new_slot = \<lparr>sl_id = PyStr [], sl_name = [], sl_arguments = []\<rparr>"

fun fragment_text :: "pyval \<Rightarrow> string" where
  "fragment_text (PyStr s) = s"
| "fragment_text v = []"

definition fragment_index :: "pyval pydict \<Rightarrow> int" where
  "fragment_index d = (case get_or_none d ''index'' of PyInt i \<Rightarrow> i | _ \<Rightarrow> 0)"

definition extend_slot :: "pyval pydict \<Rightarrow> call_slot \<Rightarrow> call_slot" where
  "extend_slot d s =
     \<lparr>sl_id = (if truthy (get_or_none d ''id'') then get_or_none d ''id'' else sl_id s),
      sl_name = sl_name s @ fragment_text (get_or_none d ''name''),
      sl_arguments = sl_arguments s @ fragment_text (get_or_none d ''arguments'')\<rparr>"

definition feed_fragment :: "pyval pydict \<Rightarrow> (int \<times> call_slot) list \<Rightarrow> (int \<times> call_slot) list" where
  "feed_fragment d slots =
     (let i = fragment_index d in
      AList.update i (extend_slot d (case map_of slots i of None \<Rightarrow> new_slot | Some s \<Rightarrow> s)) slots)"

definition feed_fragments :: "pyval pydict list \<Rightarrow> (int \<times> call_slot) list \<Rightarrow> (int \<times> call_slot) list" where
  "feed_fragments ds slots = fold feed_fragment ds slots"

definition wire_call :: "call_slot \<Rightarrow> pyval" where
  "wire_call s =
     PyDict [(''id'', sl_id s), (''type'', PyStr ''function''),
             (''function'', PyDict [(''name'', PyStr (sl_name s)), (''arguments'', PyStr (sl_arguments s))])]"

definition complete_calls :: "(int \<times> call_slot) list \<Rightarrow> pyval list" where
  "complete_calls slots =
     map wire_call (filter (\<lambda>s. sl_name s \<noteq> []) (List.map_filter (map_of slots) (sort (map fst slots))))"

definition dropped_count :: "(int \<times> call_slot) list \<Rightarrow> nat" where
  "dropped_count slots = length (filter (\<lambda>(i, s). sl_name s = []) slots)"

section \<open>The fold\<close>

text \<open>\<open>sc_first_s\<close> and \<open>sc_stall_s\<close> are the bounds after the configuration and the environment were consulted.\<close>

record stream_cfg =
  sc_timeout :: real
  sc_stall_s :: real
  sc_first_s :: real
  sc_reasoning_timeout_s :: real
  sc_reasoning_token_limit :: int
  sc_accepts_tool_call_chunks :: bool

definition stream_config ::
  "real \<Rightarrow> real \<Rightarrow> real \<Rightarrow> real option \<Rightarrow> real option \<Rightarrow> int option \<Rightarrow> bool \<Rightarrow> stream_cfg" where
  "stream_config timeout env_stall_s env_first_s first_chunk_s reasoning_only_timeout_s reasoning_only_max_tokens accepts =
     \<lparr>sc_timeout = timeout, sc_stall_s = env_stall_s,
      sc_first_s = (case first_chunk_s of None \<Rightarrow> env_first_s | Some s \<Rightarrow> s),
      sc_reasoning_timeout_s = max (case reasoning_only_timeout_s of None \<Rightarrow> 0 | Some s \<Rightarrow> s) 0,
      sc_reasoning_token_limit = max (case reasoning_only_max_tokens of None \<Rightarrow> 0 | Some n \<Rightarrow> n) 0,
      sc_accepts_tool_call_chunks = accepts\<rparr>"

definition initial_s :: "stream_cfg \<Rightarrow> real" where
  "initial_s c = (if 0 < sc_first_s c then sc_first_s c else sc_stall_s c)"

text \<open>One call of \<open>on_delta\<close>; the fragments are passed to callbacks that accept them.\<close>

record delta_call =
  dc_visible :: string
  dc_accumulated :: string
  dc_index :: nat
  dc_thinking :: string
  dc_args_chunks :: "pyval pydict list option"

record stream_state =
  sm_accumulated :: string
  sm_thinking_accum :: string
  sm_delta_index :: nat
  sm_slots :: "(int \<times> call_slot) list"
  sm_final_tool_calls :: "pyval list option"
  sm_usage :: "int pydict"
  sm_usage_source :: string
  sm_refusal :: string
  sm_finish_reason :: string
  sm_model :: string
  sm_provider :: string
  sm_reasoning_blocks :: "pyval list"
  sm_stop_details :: "pyval pydict"
  sm_stop_reason :: string
  sm_thinking_history_reset :: bool
  sm_splitter :: ThinkTagSplitter
  sm_reasoning_started :: "real option"
  sm_reasoning_tokens :: int
  sm_productive :: bool
  sm_chunks_seen :: nat
  sm_stall_at :: "real option"
  sm_calls :: "delta_call list"

definition init_stream :: "stream_cfg \<Rightarrow> real \<Rightarrow> stream_state" where
  "init_stream c started =
     \<lparr>sm_accumulated = [], sm_thinking_accum = [], sm_delta_index = 0, sm_slots = [], sm_final_tool_calls = None, sm_usage = [],
      sm_usage_source = [], sm_refusal = [], sm_finish_reason = [], sm_model = [], sm_provider = [], sm_reasoning_blocks = [],
      sm_stop_details = [], sm_stop_reason = [], sm_thinking_history_reset = False, sm_splitter = new_splitter,
      sm_reasoning_started = None, sm_reasoning_tokens = 0, sm_productive = False, sm_chunks_seen = 0,
      sm_stall_at = (if 0 < initial_s c then Some (started + initial_s c) else None), sm_calls = []\<rparr>"

section \<open>The assembled response\<close>

definition has_text_block :: "(pyval \<Rightarrow> string) \<Rightarrow> pyval list \<Rightarrow> bool" where
  "has_text_block str_of blocks =
     list_ex (\<lambda>b. case b of
         PyDict d \<Rightarrow> get_or_none d ''type'' = PyStr ''text''
           \<and> str_strip (case get_or_none d ''text'' of PyStr s \<Rightarrow> s | v \<Rightarrow> if truthy v then str_of v else []) \<noteq> []
       | _ \<Rightarrow> False) blocks"

definition visible_content :: "stream_state \<Rightarrow> string" where
  "visible_content st = (if str_strip (sm_accumulated st) \<noteq> [] then dropWhile is_space (sm_accumulated st) else [])"

definition assembled_content :: "(pyval \<Rightarrow> string) \<Rightarrow> stream_state \<Rightarrow> pyval" where
  "assembled_content str_of st =
     (let v = visible_content st; blocks = sm_reasoning_blocks st in
      if blocks = [] then PyStr v
      else if str_strip v \<noteq> [] \<and> \<not> has_text_block str_of blocks
      then PyList (blocks @ [PyDict [(''type'', PyStr ''text''), (''text'', PyStr v)]])
      else PyList blocks)"

definition assembled_response :: "(pyval \<Rightarrow> string) \<Rightarrow> stream_state \<Rightarrow> LLMResponse" where
  "assembled_response str_of st =
     \<lparr>ll_content = assembled_content str_of st,
      ll_tool_calls = (case sm_final_tool_calls st of Some cs \<Rightarrow> cs | None \<Rightarrow> complete_calls (sm_slots st)),
      ll_reasoning_content = sm_thinking_accum st, ll_finish_reason = sm_finish_reason st, ll_model = sm_model st,
      ll_usage = sm_usage st,
      ll_response_metadata =
        (if sm_provider st \<noteq> [] then [(''provider_actually_used'', PyStr (sm_provider st))] else [])
        @ (if sm_refusal st \<noteq> [] then [(''refusal'', PyStr (sm_refusal st))] else [])
        @ (if sm_stop_details st \<noteq> [] then [(''stop_details'', PyDict (sm_stop_details st))] else [])
        @ (if sm_stop_reason st \<noteq> [] then [(''stop_reason'', PyStr (sm_stop_reason st))] else [])
        @ (if sm_thinking_history_reset st then [(''thinking_history_reset'', PyBool True)] else []),
      ll_usage_source = sm_usage_source st\<rparr>"

section \<open>One delta\<close>

definition take_terminal :: "StreamDelta \<Rightarrow> stream_state \<Rightarrow> stream_state" where
  "take_terminal d st =
     st\<lparr>sm_final_tool_calls := (case dl_final_tool_calls d of None \<Rightarrow> sm_final_tool_calls st | Some cs \<Rightarrow> Some cs),
        sm_usage := (if dl_usage d \<noteq> [] then dl_usage d else sm_usage st),
        sm_usage_source := (if dl_usage d \<noteq> [] then dl_usage_source d else sm_usage_source st),
        sm_refusal := sm_refusal st @ dl_refusal d,
        sm_finish_reason := (if dl_finish_reason d \<noteq> [] then dl_finish_reason d else sm_finish_reason st),
        sm_model := (if dl_model d \<noteq> [] then dl_model d else sm_model st),
        sm_provider := (if dl_provider d \<noteq> [] then dl_provider d else sm_provider st),
        sm_reasoning_blocks := (if dl_reasoning_blocks d \<noteq> [] then dl_reasoning_blocks d else sm_reasoning_blocks st),
        sm_stop_details := (if dl_stop_details d \<noteq> [] then dl_stop_details d else sm_stop_details st),
        sm_stop_reason := (if dl_stop_reason d \<noteq> [] then dl_stop_reason d else sm_stop_reason st),
        sm_thinking_history_reset := (dl_thinking_history_reset d \<or> sm_thinking_history_reset st)\<rparr>"

text \<open>A chunk without a tag does not go through the splitter, unless the splitter is in the middle of something.\<close>

definition split_visible :: "string \<Rightarrow> ThinkTagSplitter \<Rightarrow> (string \<times> string) \<times> ThinkTagSplitter" where
  "split_visible raw sp =
     (if raw \<noteq> [] \<and> (sublist ''<think>'' raw \<or> sublist ''</think>'' raw \<or> has_state sp) then feed raw sp else ((raw, []), sp))"

definition args_chunk :: "pyval pydict \<Rightarrow> pyval pydict" where
  "args_chunk d =
     [(''name'', get_or_none d ''name''),
      (''args'', if truthy (get_or_none d ''arguments'') then get_or_none d ''arguments'' else PyStr []),
      (''id'', get_or_none d ''id''), (''index'', get_or_none d ''index'')]"

definition tool_progress :: "pyval pydict list \<Rightarrow> bool" where
  "tool_progress ds =
     list_ex (\<lambda>d. truthy (get_or_none d ''id'') \<or> truthy (get_or_none d ''name'') \<or> truthy (get_or_none d ''arguments'')) ds"

definition call_on_delta :: "stream_cfg \<Rightarrow> string \<Rightarrow> string \<Rightarrow> pyval pydict list \<Rightarrow> stream_state \<Rightarrow> stream_state" where
  "call_on_delta c visible thinking ds st =
     (let st1 = st\<lparr>sm_accumulated := sm_accumulated st @ visible, sm_thinking_accum := sm_thinking_accum st @ thinking\<rparr> in
      st1\<lparr>sm_calls := sm_calls st1 @
        [\<lparr>dc_visible = visible, dc_accumulated = sm_accumulated st1, dc_index = sm_delta_index st1, dc_thinking = thinking,
          dc_args_chunks = (if sc_accepts_tool_call_chunks c then Some (map args_chunk ds) else None)\<rparr>]\<rparr>)"

definition LLMReasoningRunaway :: "(nat \<Rightarrow> real \<Rightarrow> string) \<Rightarrow> real \<Rightarrow> int \<Rightarrow> string \<Rightarrow> llm_exc" where
  "LLMReasoningRunaway fmt elapsed tokens trigger =
     plain_exc ''LLMReasoningRunaway''
       (''reasoning-only stream exceeded '' @ trigger @ '' guard (elapsed='' @ fmt 1 elapsed @ ''s, estimated_tokens=''
        @ str_of_int tokens @ '')'')"

definition guard_reasoning ::
  "(pyval \<Rightarrow> string) \<Rightarrow> (nat \<Rightarrow> real \<Rightarrow> string) \<Rightarrow> stream_cfg \<Rightarrow> real \<Rightarrow> string \<Rightarrow> stream_state \<Rightarrow> call_raise option \<times> stream_state" where
  "guard_reasoning str_of fmt c now thinking st =
     (if (sc_reasoning_timeout_s c \<noteq> 0 \<or> sc_reasoning_token_limit c \<noteq> 0) \<and> \<not> sm_productive st \<and> thinking \<noteq> [] then
        let started = (case sm_reasoning_started st of None \<Rightarrow> now | Some s \<Rightarrow> s);
            tokens = (int (length (sm_thinking_accum st)) + 3) div 4;
            elapsed = now - started;
            by_time = (sc_reasoning_timeout_s c \<noteq> 0 \<and> sc_reasoning_timeout_s c \<le> elapsed);
            by_tokens = (sc_reasoning_token_limit c \<noteq> 0 \<and> sc_reasoning_token_limit c \<le> tokens);
            st1 = st\<lparr>sm_reasoning_started := Some started, sm_reasoning_tokens := tokens\<rparr>
        in (if by_time \<or> by_tokens
            then Some (RunawayRaised (LLMReasoningRunaway fmt elapsed tokens (if by_time then ''time'' else ''tokens''))
                         (assembled_response str_of st1))
            else None, st1)
      else (None, st))"

definition reschedule :: "stream_cfg \<Rightarrow> real \<Rightarrow> stream_state \<Rightarrow> stream_state" where
  "reschedule c now st =
     (let stall = (if 0 < sc_stall_s c then [now + sc_stall_s c] else []);
          semantic = (case sm_reasoning_started st of
                        Some s \<Rightarrow> if sc_reasoning_timeout_s c \<noteq> 0 \<and> \<not> sm_productive st then [s + sc_reasoning_timeout_s c] else []
                      | None \<Rightarrow> [])
      in st\<lparr>sm_stall_at := (case stall @ semantic of [] \<Rightarrow> None | x # xs \<Rightarrow> Some (fold min xs x))\<rparr>)"

definition on_chunk ::
  "(pyval \<Rightarrow> string) \<Rightarrow> (nat \<Rightarrow> real \<Rightarrow> string) \<Rightarrow> stream_cfg \<Rightarrow> real \<Rightarrow> StreamDelta \<Rightarrow> stream_state \<Rightarrow> call_raise option \<times> stream_state" where
  "on_chunk str_of fmt c now d st =
     (if dl_transport_activity d \<and> sm_chunks_seen st = 0 \<and> 0 < sc_first_s c then (None, st)
      else
        let st1 = take_terminal d (if dl_transport_activity d then st else st\<lparr>sm_chunks_seen := sm_chunks_seen st + 1\<rparr>);
            raw = (if dl_content d \<noteq> [] then dl_content d else dl_refusal d);
            ds = dl_tool_call_deltas d;
            ((visible, inline), sp) = split_visible raw (sm_splitter st1);
            thinking = dl_reasoning_content d @ inline;
            st2 = st1\<lparr>sm_splitter := sp, sm_slots := feed_fragments ds (sm_slots st1)\<rparr>
        in if visible \<noteq> [] \<or> thinking \<noteq> [] \<or> ds \<noteq> [] then
             let st3 = call_on_delta c visible thinking ds
                         (if str_strip visible \<noteq> [] \<or> tool_progress ds then st2\<lparr>sm_productive := True\<rparr> else st2)
             in case guard_reasoning str_of fmt c now thinking st3 of
                  (Some x, st4) \<Rightarrow> (Some x, st4)
                | (None, st4) \<Rightarrow> (None, reschedule c now (st4\<lparr>sm_delta_index := sm_delta_index st4 + 1\<rparr>))
           else (None, reschedule c now st2))"

section \<open>The whole stream\<close>

datatype stream_ending = StreamClosed | StreamBroke call_raise

text \<open>The stall timer fired at \<open>now\<close>.\<close>

definition on_stall_timer ::
  "(pyval \<Rightarrow> string) \<Rightarrow> (nat \<Rightarrow> real \<Rightarrow> string) \<Rightarrow> stream_cfg \<Rightarrow> real \<Rightarrow> real \<Rightarrow> stream_state \<Rightarrow> call_raise" where
  "on_stall_timer str_of fmt c started now st =
     (let elapsed = (case sm_reasoning_started st of None \<Rightarrow> 0 | Some s \<Rightarrow> now - s) in
      if sc_reasoning_timeout_s c \<noteq> 0 \<and> \<not> sm_productive st \<and> sm_reasoning_started st \<noteq> None \<and> sc_reasoning_timeout_s c \<le> elapsed
      then RunawayRaised (LLMReasoningRunaway fmt elapsed (sm_reasoning_tokens st) ''time'') (assembled_response str_of st)
      else StallRaised (LLMStreamStalled (fmt 0 (if sm_chunks_seen st = 0 then initial_s c else sc_stall_s c))
             (int (sm_chunks_seen st)) (fmt 0 (now - started))))"

definition finish_stream ::
  "(pyval \<Rightarrow> string) \<Rightarrow> (nat \<Rightarrow> real \<Rightarrow> string) \<Rightarrow> stream_cfg \<Rightarrow> real \<Rightarrow> real \<Rightarrow> stream_state \<Rightarrow>
   (call_raise + LLMResponse) \<times> stream_state" where
  "finish_stream str_of fmt c started now st =
     (let ((visible, thinking), sp) = flush (sm_splitter st);
          st1 = st\<lparr>sm_splitter := sp\<rparr>;
          st2 = (if visible \<noteq> [] \<or> thinking \<noteq> [] then call_on_delta c visible thinking [] st1 else st1);
          r = assembled_response str_of st2
      in (if is_wholly_empty_response str_of r
          then Inl (EmptyRaised (LLMEmptyCompletion (sm_chunks_seen st2) (fmt 1 (now - started))) (Some r))
          else Inr r, st2))"

text \<open>Which timer fires before the next arrival at \<open>t\<close>: the stall timer, or the timer of the whole request.\<close>

definition timer_fires :: "real \<Rightarrow> real \<Rightarrow> stream_state \<Rightarrow> (bool \<times> real) option" where
  "timer_fires cutoff t st =
     (case sm_stall_at st of
        Some s \<Rightarrow> if s < t \<and> s \<le> cutoff then Some (True, s) else if cutoff < t then Some (False, cutoff) else None
      | None \<Rightarrow> if cutoff < t then Some (False, cutoff) else None)"

fun run_stream ::
  "(pyval \<Rightarrow> string) \<Rightarrow> (nat \<Rightarrow> real \<Rightarrow> string) \<Rightarrow> stream_cfg \<Rightarrow> real \<Rightarrow> (real \<times> StreamDelta) list \<Rightarrow> real \<times> stream_ending \<Rightarrow>
   stream_state \<Rightarrow> (call_raise + LLMResponse) \<times> stream_state" where
  "run_stream str_of fmt c started arrivals ending st =
     (let t = (case arrivals of [] \<Rightarrow> fst ending | a # as \<Rightarrow> fst a) in
      case timer_fires (started + sc_timeout c) t st of
        Some (True, now) \<Rightarrow> (Inl (on_stall_timer str_of fmt c started now st), st)
      | Some (False, now) \<Rightarrow> (Inl (timeout_error []), st)
      | None \<Rightarrow>
          (case arrivals of
             [] \<Rightarrow> (case snd ending of
                      StreamBroke x \<Rightarrow> (Inl x, st)
                    | StreamClosed \<Rightarrow> finish_stream str_of fmt c started t st)
           | (now, d) # rest \<Rightarrow>
               (case on_chunk str_of fmt c now d st of
                  (Some x, st1) \<Rightarrow> (Inl x, st1)
                | (None, st1) \<Rightarrow> run_stream str_of fmt c started rest ending st1)))"

declare run_stream.simps [simp del]

definition stream_llm_response ::
  "(pyval \<Rightarrow> string) \<Rightarrow> (nat \<Rightarrow> real \<Rightarrow> string) \<Rightarrow> stream_cfg \<Rightarrow> real \<Rightarrow> (real \<times> StreamDelta) list \<Rightarrow> real \<times> stream_ending \<Rightarrow>
   (call_raise + LLMResponse) \<times> stream_state" where
  "stream_llm_response str_of fmt c started arrivals ending =
     run_stream str_of fmt c started arrivals ending (init_stream c started)"

section \<open>The splitter and the cuts of its input\<close>

lemma think_tag_nonempty [simp]: "think_tag i \<noteq> []"
  by (simp add: think_tag_def)

lemma split_first_append:
  assumes "split_first sep s = Some (p, q)" and "sep \<noteq> []"
  shows "split_first sep (s @ t) = Some (p, q @ t)"
  using assms
proof (induction s arbitrary: p)
  case (Cons c cs)
  show ?case
  proof (cases "prefix sep (c # cs)")
    case True
    then have "prefix sep ((c # cs) @ t)" "length sep \<le> length (c # cs)"
      using prefix_length_le [OF True] by (auto dest: prefix_prefix)
    then show ?thesis using Cons.prems True drop_append [of "length sep" "c # cs" t] by auto
  next
    case False
    then obtain p' where p': "split_first sep cs = Some (p', q)" "p = c # p'" using Cons.prems by auto
    have "length sep \<le> length (c # cs)" using split_first_Some [OF p'(1)] by simp
    then have "\<not> prefix sep (c # cs @ t)" using False by (metis append_Cons prefix_length_prefix prefix_def)
    then show ?thesis using Cons.IH [OF p'(1) Cons.prems(2)] p'(2) by simp
  qed
qed simp

text \<open>Nowhere in \<open>a\<close> can a tag begin, when \<open>r\<close> follows, whatever follows \<open>r\<close>.\<close>

definition tag_free :: "string \<Rightarrow> string \<Rightarrow> string \<Rightarrow> bool" where
  "tag_free tag a r = (\<forall>p<length a. \<not> prefix tag (drop p a @ r) \<and> \<not> prefix (drop p a @ r) tag)"

lemma tag_free_Cons: "tag_free tag (c # a) r \<Longrightarrow> \<not> prefix tag (c # a @ r) \<and> tag_free tag a r"
  by (fastforce simp: tag_free_def)

lemma split_first_free: "tag_free tag a r \<Longrightarrow> split_first tag (a @ r) = map_option (\<lambda>(p, q). (a @ p, q)) (split_first tag r)"
proof (induction a)
  case Nil
  then show ?case by (cases "split_first tag r") auto
next
  case (Cons c a)
  then show ?case using tag_free_Cons [OF Cons.prems] by (cases "split_first tag r") auto
qed

lemma overlap_upto_spec:
  "overlap_upto n buf tag \<le> n"
  "overlap_upto n buf tag = 0 \<or> drop (length buf - overlap_upto n buf tag) buf = take (overlap_upto n buf tag) tag"
  "m \<le> n \<Longrightarrow> drop (length buf - m) buf = take m tag \<Longrightarrow> m \<le> overlap_upto n buf tag"
  by (induction n) (auto simp: le_Suc_eq)

lemma suffix_overlap_le: "suffix_overlap buf tag \<le> length buf" "suffix_overlap buf tag \<le> length tag - 1"
  using overlap_upto_spec(1) [of "min (length tag - 1) (length buf)" buf tag] by (simp_all add: suffix_overlap_def)

lemma suffix_overlap_suffix: "drop (length buf - suffix_overlap buf tag) buf = take (suffix_overlap buf tag) tag"
  using overlap_upto_spec(2) [of "min (length tag - 1) (length buf)" buf tag] by (auto simp: suffix_overlap_def)

lemma suffix_overlap_longest:
  "m \<le> length tag - 1 \<Longrightarrow> m \<le> length buf \<Longrightarrow> drop (length buf - m) buf = take m tag \<Longrightarrow> m \<le> suffix_overlap buf tag"
  unfolding suffix_overlap_def by (rule overlap_upto_spec(3)) simp_all

lemma emitted_free:
  assumes "\<not> sublist tag s" and "tag \<noteq> []"
  shows "tag_free tag (take (length s - suffix_overlap s tag) s) (drop (length s - suffix_overlap s tag) s @ t)"
  unfolding tag_free_def
proof (intro allI impI)
  fix p
  let ?h = "suffix_overlap s tag"
  assume p: "p < length (take (length s - ?h) s)"
  define u where "u = drop p s"
  have "drop p (take (length s - ?h) s @ drop (length s - ?h) s) = drop p (take (length s - ?h) s) @ drop (length s - ?h) s"
    using p by (simp only: drop_append) simp
  then have e: "drop p (take (length s - ?h) s) @ drop (length s - ?h) s @ t = u @ t" by (simp add: u_def)
  have u: "length u = length s - p" "?h < length u" using p by (auto simp: u_def)
  have tag: "\<not> prefix tag u" using assms(1) by (auto simp: u_def prefix_def sublist_def) (metis append.assoc append_take_drop_id)
  have "\<not> prefix u tag"
  proof
    assume a: "prefix u tag"
    then have "length u \<noteq> length tag" using tag by (metis not_equal_is_parallel parallelE prefix_order.refl)
    then have "length u \<le> length tag - 1" using prefix_length_le [OF a] assms(2) by (cases tag) auto
    moreover have "drop (length s - length u) s = take (length u) tag"
      using a p u(1) by (auto simp: u_def prefix_def)
    ultimately have "length u \<le> ?h" using suffix_overlap_longest [of "length u" tag s] u(1) by simp
    with u(2) show False by simp
  qed
  then show "\<not> prefix tag (drop p (take (length s - ?h) s) @ drop (length s - ?h) s @ t)
      \<and> \<not> prefix (drop p (take (length s - ?h) s) @ drop (length s - ?h) s @ t) tag"
    unfolding e using tag prefix_same_cases [of tag "u @ t" u] append_prefixD [of u t tag] by auto
qed

lemma overlap_free:
  assumes "tag_free tag a r"
  shows "suffix_overlap (a @ r) tag = suffix_overlap r tag"
proof (rule antisym)
  let ?k = "suffix_overlap (a @ r) tag"
  have k: "drop (length (a @ r) - ?k) (a @ r) = take ?k tag" by (rule suffix_overlap_suffix)
  have "?k \<le> length r"
  proof (rule ccontr)
    assume "\<not> ?k \<le> length r"
    then have p: "length (a @ r) - ?k < length a" using suffix_overlap_le(1) [of "a @ r" tag] by (cases a) auto
    have "drop (length (a @ r) - ?k) a @ r = take ?k tag" using k p by simp
    then have "prefix (drop (length (a @ r) - ?k) a @ r) tag" by (simp add: take_is_prefix)
    with assms p show False unfolding tag_free_def by blast
  qed
  then show "?k \<le> suffix_overlap r tag" using k suffix_overlap_le(2) [of "a @ r" tag] by (intro suffix_overlap_longest) auto
  show "suffix_overlap r tag \<le> ?k"
    using suffix_overlap_suffix [of r tag] suffix_overlap_le [of r tag] by (intro suffix_overlap_longest) auto
qed

definition put_before :: "bool \<Rightarrow> string \<Rightarrow> string \<times> string \<times> bool \<times> string \<Rightarrow> string \<times> string \<times> bool \<times> string" where
  "put_before inside a out = (case out of (v, t, i, b) \<Rightarrow> if inside then (v, a @ t, i, b) else (a @ v, t, i, b))"

lemma feed_loop_free:
  assumes "tag_free (think_tag i) a r"
  shows "feed_loop i (a @ r) = put_before i a (feed_loop i r)"
proof (cases "a = []")
  case True
  then show ?thesis by (simp add: put_before_def split: prod.splits)
next
  case False
  have s: "split_first (think_tag i) (a @ r) = map_option (\<lambda>(p, q). (a @ p, q)) (split_first (think_tag i) r)"
    by (rule split_first_free [OF assms])
  have o: "suffix_overlap (a @ r) (think_tag i) = suffix_overlap r (think_tag i)" by (rule overlap_free [OF assms])
  have l: "length a + length r - suffix_overlap r (think_tag i) = length a + (length r - suffix_overlap r (think_tag i))"
    using suffix_overlap_le(1) [of r "think_tag i"] by simp
  show ?thesis
  proof (cases "split_first (think_tag i) r")
    case None
    have z: "suffix_overlap [] (think_tag i) = 0" by (simp add: suffix_overlap_def)
    have "feed_loop i (a @ r) = (let safe = length a + (length r - suffix_overlap r (think_tag i)) in
        if i then ([], take safe (a @ r), i, drop safe (a @ r)) else (take safe (a @ r), [], i, drop safe (a @ r)))"
      using False None s o l by (simp add: feed_loop.simps [of i "a @ r"] Let_def)
    then show ?thesis using None z by (cases "r = []") (simp_all add: feed_loop.simps [of _ "[]"] feed_loop.simps [of i r] put_before_def Let_def)
  next
    case (Some pq)
    then have "r \<noteq> []" by auto
    then show ?thesis using False Some s
      by (simp add: feed_loop.simps [of i "a @ r"] feed_loop.simps [of i r] put_before_def split: prod.splits)
  qed
qed

lemma feed_loop_append:
  "feed_loop i (s @ t) =
     (case feed_loop i s of (v, th, j, b) \<Rightarrow> (case feed_loop j (b @ t) of (v', th', k, b') \<Rightarrow> (v @ v', th @ th', k, b')))"
proof (induction i s rule: feed_loop.induct)
  case (1 i s)
  show ?case
  proof (cases "s = []")
    case True
    then show ?thesis by (simp add: feed_loop.simps [of i "[]"] split: prod.splits)
  next
    case False
    show ?thesis
    proof (cases "split_first (think_tag i) s")
      case None
      let ?n = "length s - suffix_overlap s (think_tag i)"
      have "\<not> sublist (think_tag i) s" using None split_first_None_iff by simp
      then have "tag_free (think_tag i) (take ?n s) (drop ?n s @ t)" by (rule emitted_free) simp
      then have "feed_loop i (s @ t) = put_before i (take ?n s) (feed_loop i (drop ?n s @ t))"
        using feed_loop_free by (metis append.assoc append_take_drop_id)
      then show ?thesis using False None
        by (simp add: feed_loop.simps [of i s] put_before_def Let_def split: prod.splits)
    next
      case (Some pq)
      obtain p q where pq: "pq = (p, q)" by fastforce
      have "split_first (think_tag i) (s @ t) = Some (p, q @ t)" using split_first_append Some pq by simp
      then have "feed_loop i (s @ t) = put_before i p (feed_loop (\<not> i) (q @ t))"
        using False by (simp add: feed_loop.simps [of i "s @ t"] put_before_def split: prod.splits)
      also have "feed_loop (\<not> i) (q @ t) = (case feed_loop (\<not> i) q of (v, th, j, b) \<Rightarrow>
          (case feed_loop j (b @ t) of (v', th', k, b') \<Rightarrow> (v @ v', th @ th', k, b')))"
        using "1.IH" [OF False Some pq [symmetric]] .
      finally show ?thesis using False Some pq
        by (simp add: feed_loop.simps [of i s] put_before_def split: prod.splits)
    qed
  qed
qed

fun feed_all :: "string list \<Rightarrow> ThinkTagSplitter \<Rightarrow> (string \<times> string) \<times> ThinkTagSplitter" where
  "feed_all [] sp = (([], []), sp)"
| "feed_all (c # cs) sp =
     (case feed c sp of ((v, t), sp1) \<Rightarrow> (case feed_all cs sp1 of ((v', t'), sp2) \<Rightarrow> ((v @ v', t @ t'), sp2)))"

lemma feed_then_all:
  assumes "feed s new_splitter = ((v, t), sp)" and "feed_all cs sp = ((v', t'), sp')"
  shows "feed (s @ concat cs) new_splitter = ((v @ v', t @ t'), sp')"
  using assms
proof (induction cs arbitrary: s v t sp v' t' sp')
  case (Cons c cs)
  obtain v1 t1 sp1 where f: "feed c sp = ((v1, t1), sp1)" by (metis prod.exhaust)
  obtain v2 t2 sp2 where g: "feed_all cs sp1 = ((v2, t2), sp2)" by (metis prod.exhaust)
  have "feed (s @ c) new_splitter = ((v @ v1, t @ t1), sp1)"
    using Cons.prems(1) f feed_loop_append [of False s c]
    by (auto simp: feed_def new_splitter_def split: prod.splits)
  from Cons.IH [OF this g] show ?case using Cons.prems(2) f g by simp
qed simp

section \<open>What the callbacks saw\<close>

text \<open>The calls of \<open>on_delta\<close> so far, against the text of the state.\<close>

definition calls_add_up :: "stream_state \<Rightarrow> bool" where
  "calls_add_up st =
     (sm_accumulated st = concat (map dc_visible (sm_calls st)) \<and> sm_thinking_accum st = concat (map dc_thinking (sm_calls st))
      \<and> (\<forall>i<length (sm_calls st). dc_index (sm_calls st ! i) = i
            \<and> dc_accumulated (sm_calls st ! i) = concat (map dc_visible (take (Suc i) (sm_calls st)))))"

lemma call_on_delta_adds:
  assumes "calls_add_up st" and "sm_delta_index st = length (sm_calls st)"
  shows "calls_add_up (call_on_delta c v t ds st)"
  using assms by (auto simp: calls_add_up_def call_on_delta_def Let_def nth_append less_Suc_eq)

lemma call_on_delta_fields [simp]:
  "length (sm_calls (call_on_delta c v t ds st)) = Suc (length (sm_calls st))"
  "sm_delta_index (call_on_delta c v t ds st) = sm_delta_index st"
  by (simp_all add: call_on_delta_def Let_def)

lemma quiet_calls [simp]:
  "calls_add_up (st\<lparr>sm_splitter := sp\<rparr>) = calls_add_up st" "calls_add_up (st\<lparr>sm_slots := sl\<rparr>) = calls_add_up st"
  "calls_add_up (st\<lparr>sm_productive := b\<rparr>) = calls_add_up st" "calls_add_up (st\<lparr>sm_delta_index := n\<rparr>) = calls_add_up st"
  "calls_add_up (st\<lparr>sm_chunks_seen := n\<rparr>) = calls_add_up st"
  "calls_add_up (st\<lparr>sm_reasoning_started := x, sm_reasoning_tokens := k\<rparr>) = calls_add_up st"
  "calls_add_up (reschedule c now st) = calls_add_up st" "calls_add_up (take_terminal d st) = calls_add_up st"
  "sm_calls (reschedule c now st) = sm_calls st" "sm_calls (take_terminal d st) = sm_calls st"
  "sm_delta_index (reschedule c now st) = sm_delta_index st" "sm_delta_index (take_terminal d st) = sm_delta_index st"
  by (simp_all add: calls_add_up_def reschedule_def take_terminal_def Let_def)

lemma guard_keeps:
  assumes "guard_reasoning str_of fmt c now th st = (x, st')"
  shows "calls_add_up st' = calls_add_up st" "sm_calls st' = sm_calls st" "sm_delta_index st' = sm_delta_index st"
  using assms by (auto simp: guard_reasoning_def Let_def calls_add_up_def split: if_splits)

lemma on_chunk_adds:
  assumes "on_chunk str_of fmt c now d st = (x, st')" and "calls_add_up st" and "sm_delta_index st = length (sm_calls st)"
  shows "calls_add_up st' \<and> (x = None \<longrightarrow> sm_delta_index st' = length (sm_calls st'))"
proof (cases "dl_transport_activity d \<and> sm_chunks_seen st = 0 \<and> 0 < sc_first_s c")
  case True
  then show ?thesis using assms by (simp add: on_chunk_def)
next
  case False
  define st1 where "st1 = take_terminal d (if dl_transport_activity d then st else st\<lparr>sm_chunks_seen := sm_chunks_seen st + 1\<rparr>)"
  have s1: "calls_add_up st1" "sm_delta_index st1 = length (sm_calls st1)" using assms(2,3) by (auto simp: st1_def)
  obtain v i sp where sp: "split_visible (if dl_content d \<noteq> [] then dl_content d else dl_refusal d) (sm_splitter st1) = ((v, i), sp)"
    by (metis prod.exhaust)
  let ?ds = "dl_tool_call_deltas d" and ?th = "dl_reasoning_content d @ i"
  define st2 where "st2 = st1\<lparr>sm_splitter := sp, sm_slots := feed_fragments ?ds (sm_slots st1)\<rparr>"
  define st3 where "st3 = call_on_delta c v ?th ?ds (if str_strip v \<noteq> [] \<or> tool_progress ?ds then st2\<lparr>sm_productive := True\<rparr> else st2)"
  have s3: "calls_add_up st3" "Suc (sm_delta_index st3) = length (sm_calls st3)"
    using s1 call_on_delta_adds by (auto simp: st2_def st3_def)
  obtain g st4 where g: "guard_reasoning str_of fmt c now ?th st3 = (g, st4)" by fastforce
  have c: "on_chunk str_of fmt c now d st =
      (if v \<noteq> [] \<or> ?th \<noteq> [] \<or> ?ds \<noteq> []
       then (case g of Some y \<Rightarrow> (Some y, st4) | None \<Rightarrow> (None, reschedule c now (st4\<lparr>sm_delta_index := sm_delta_index st4 + 1\<rparr>)))
       else (None, reschedule c now st2))"
    unfolding on_chunk_def Let_def if_not_P [OF False] st1_def [symmetric] sp prod.case st2_def [symmetric] st3_def [symmetric] g
    by (simp split: option.splits)
  have "calls_add_up st2 \<and> sm_delta_index st2 = length (sm_calls st2)" using s1 by (simp add: st2_def)
  then show ?thesis using assms(1) s3 guard_keeps [OF g] unfolding c by (auto split: if_splits option.splits)
qed

lemma finish_stream_adds:
  assumes "finish_stream str_of fmt c started now st = (res, st')" and "calls_add_up st" and "sm_delta_index st = length (sm_calls st)"
  shows "calls_add_up st'" and "res = Inr r \<Longrightarrow> r = assembled_response str_of st'"
proof -
  obtain v t sp where f: "flush (sm_splitter st) = ((v, t), sp)" by (metis prod.exhaust)
  have "calls_add_up (call_on_delta c v t [] (st\<lparr>sm_splitter := sp\<rparr>))" using assms(2,3) by (intro call_on_delta_adds) simp_all
  then show "calls_add_up st'" using assms(1,2) f by (auto simp: finish_stream_def Let_def split: if_splits)
  show "res = Inr r \<Longrightarrow> r = assembled_response str_of st'" using assms(1) f by (auto simp: finish_stream_def Let_def split: if_splits)
qed

lemma run_stream_adds:
  assumes "run_stream str_of fmt c started arrivals ending st = (res, st')" and "calls_add_up st"
    and "sm_delta_index st = length (sm_calls st)"
  shows "calls_add_up st' \<and> (\<forall>r. res = Inr r \<longrightarrow> r = assembled_response str_of st')"
  using assms
proof (induction arrivals arbitrary: st)
  case Nil
  then show ?case using finish_stream_adds
    by (auto simp: run_stream.simps Let_def split: option.splits bool.splits stream_ending.splits)
next
  case (Cons a as)
  obtain now d where a: "a = (now, d)" by fastforce
  obtain x st1 where o: "on_chunk str_of fmt c now d st = (x, st1)" by fastforce
  note O = on_chunk_adds [OF o Cons.prems(2,3)]
  show ?case using Cons.prems(1,2) a o O Cons.IH [of st1]
    by (subst (asm) run_stream.simps) (auto simp: Let_def split: option.splits bool.splits)
qed

section \<open>What the fragments make\<close>

text \<open>The slot that the fragments of one index amount to.\<close>

definition stitched :: "pyval pydict list \<Rightarrow> call_slot" where
  "stitched ds =
     \<lparr>sl_id = fold (\<lambda>d v. if truthy (get_or_none d ''id'') then get_or_none d ''id'' else v) ds (PyStr []),
      sl_name = concat (map (\<lambda>d. fragment_text (get_or_none d ''name'')) ds),
      sl_arguments = concat (map (\<lambda>d. fragment_text (get_or_none d ''arguments'')) ds)\<rparr>"

lemma stitched_snoc: "stitched (ds @ [d]) = extend_slot d (stitched ds)"
  by (simp add: stitched_def extend_slot_def)

lemma stitched_Nil: "stitched [] = new_slot"
  by (simp add: stitched_def new_slot_def)

lemma feed_fragments_lookup:
  "map_of (feed_fragments ds []) i =
     (if filter (\<lambda>d. fragment_index d = i) ds = [] then None else Some (stitched (filter (\<lambda>d. fragment_index d = i) ds)))"
proof (induction ds rule: rev_induct)
  case (snoc d ds)
  have "feed_fragments (ds @ [d]) [] = feed_fragment d (feed_fragments ds [])" by (simp add: feed_fragments_def)
  then show ?case using snoc.IH
    by (auto simp: feed_fragment_def Let_def update_conv' stitched_snoc stitched_Nil [symmetric])
qed (simp add: feed_fragments_def)

lemma feed_fragments_keys: "distinct (map fst (feed_fragments ds []))" "set (map fst (feed_fragments ds [])) = fragment_index ` set ds"
proof (induction ds rule: rev_induct)
  case (snoc d ds)
  case 1
  then show ?case using snoc by (simp add: feed_fragments_def feed_fragment_def Let_def distinct_update)
next
  case (snoc d ds)
  case 2
  then show ?case using snoc by (auto simp: feed_fragments_def feed_fragment_def Let_def dom_update)
qed (simp_all add: feed_fragments_def)

section \<open>Properties\<close>

text \<open>
  C19: how a stream was cut into chunks does not matter to the splitter: fed chunk by chunk it emits the same
  visible text and the same thinking, and ends in the same state, as fed all at once, wherever the
  cuts fall in a tag.
\<close>

theorem splitter_ignores_cuts: "feed_all chunks new_splitter = feed (concat chunks) new_splitter"
proof -
  have "feed [] new_splitter = (([], []), new_splitter)" by (simp add: feed_def new_splitter_def feed_loop.simps)
  moreover obtain v t sp where "feed_all chunks new_splitter = ((v, t), sp)" by (metis prod.exhaust)
  ultimately show ?thesis using feed_then_all by fastforce
qed

text \<open>The text a delta brings.\<close>

definition raw_text :: "StreamDelta \<Rightarrow> string" where
  "raw_text d = (if dl_content d \<noteq> [] then dl_content d else dl_refusal d)"

definition whole_tag_free :: "StreamDelta \<Rightarrow> bool" where
  "whole_tag_free d = (\<not> dl_transport_activity d \<and> \<not> sublist ''<think>'' (raw_text d) \<and> \<not> sublist ''</think>'' (raw_text d))"

lemma split_visible_new: "whole_tag_free d \<Longrightarrow> split_visible (raw_text d) new_splitter = ((raw_text d, []), new_splitter)"
  by (auto simp: split_visible_def whole_tag_free_def has_state_def new_splitter_def)

lemma take_terminal_keeps [simp]:
  "sm_accumulated (take_terminal d st) = sm_accumulated st" "sm_thinking_accum (take_terminal d st) = sm_thinking_accum st"
  "sm_splitter (take_terminal d st) = sm_splitter st"
  by (simp_all add: take_terminal_def)

lemma reschedule_keeps [simp]:
  "sm_accumulated (reschedule c now st) = sm_accumulated st" "sm_thinking_accum (reschedule c now st) = sm_thinking_accum st"
  "sm_splitter (reschedule c now st) = sm_splitter st"
  by (simp_all add: reschedule_def Let_def)

lemma call_on_delta_texts [simp]:
  "sm_accumulated (call_on_delta c v t ds st) = sm_accumulated st @ v"
  "sm_thinking_accum (call_on_delta c v t ds st) = sm_thinking_accum st @ t"
  "sm_splitter (call_on_delta c v t ds st) = sm_splitter st"
  by (simp_all add: call_on_delta_def Let_def)

lemma guard_reasoning_keeps:
  assumes "guard_reasoning str_of fmt c now th st = (x, st1)"
  shows "sm_accumulated st1 = sm_accumulated st \<and> sm_thinking_accum st1 = sm_thinking_accum st \<and> sm_splitter st1 = sm_splitter st"
  using assms by (auto simp: guard_reasoning_def Let_def split: if_splits)

lemma on_chunk_tag_free:
  assumes "on_chunk str_of fmt c now d st = (None, st1)" and "whole_tag_free d" and "sm_splitter st = new_splitter"
  shows "sm_accumulated st1 = sm_accumulated st @ raw_text d \<and> sm_thinking_accum st1 = sm_thinking_accum st @ dl_reasoning_content d
    \<and> sm_splitter st1 = new_splitter"
  using assms(1,3) split_visible_new [OF assms(2)] assms(2)
  by (auto simp: on_chunk_def Let_def whole_tag_free_def raw_text_def [symmetric]
      split: if_splits prod.splits option.splits dest!: guard_reasoning_keeps)

lemma run_stream_tag_free:
  assumes "run_stream str_of fmt c started arrivals ending st = (Inr r, st1)"
    and "\<forall>a\<in>set arrivals. whole_tag_free (snd a)" and "sm_splitter st = new_splitter"
  shows "sm_accumulated st1 = sm_accumulated st @ concat (map (raw_text \<circ> snd) arrivals)
    \<and> sm_thinking_accum st1 = sm_thinking_accum st @ concat (map (dl_reasoning_content \<circ> snd) arrivals)"
  using assms
proof (induction arrivals arbitrary: st)
  case Nil
  then show ?case
    by (subst (asm) run_stream.simps)
      (auto simp: finish_stream_def flush_def new_splitter_def Let_def split: if_splits option.splits prod.splits bool.splits stream_ending.splits)
next
  case (Cons a as)
  obtain now d where ad: "a = (now, d)" by fastforce
  with Cons.prems(1) obtain st2 where s: "on_chunk str_of fmt c now d st = (None, st2)" "run_stream str_of fmt c started as ending st2 = (Inr r, st1)"
    by (subst (asm) run_stream.simps) (auto simp: Let_def split: if_splits option.splits prod.splits bool.splits)
  from on_chunk_tag_free [OF s(1)] Cons.prems(2,3) ad Cons.IH [OF s(2)] show ?case by auto
qed

text \<open>
  C37: a tag cut in two is shown.  When no delta of a stream holds a whole reasoning tag, all of its text is
  delivered as visible, whatever tags the deltas make up together, and only typed reasoning as thinking.
\<close>

theorem cut_tags_shown:
  assumes "stream_llm_response str_of fmt c started arrivals ending = (Inr r, st)" and "\<forall>a\<in>set arrivals. whole_tag_free (snd a)"
  shows "concat (map dc_visible (sm_calls st)) = concat (map (raw_text \<circ> snd) arrivals)
    \<and> ll_reasoning_content r = concat (map (dl_reasoning_content \<circ> snd) arrivals)"
proof -
  have "calls_add_up (init_stream c started)" "sm_delta_index (init_stream c started) = length (sm_calls (init_stream c started))"
    by (simp_all add: init_stream_def calls_add_up_def)
  from run_stream_adds [OF assms(1) [unfolded stream_llm_response_def] this] have a: "calls_add_up st" "r = assembled_response str_of st" by auto
  have "sm_accumulated st = concat (map (raw_text \<circ> snd) arrivals)
    \<and> sm_thinking_accum st = concat (map (dl_reasoning_content \<circ> snd) arrivals)"
    using run_stream_tag_free [OF assms(1) [unfolded stream_llm_response_def] assms(2)] by (simp add: init_stream_def)
  then show ?thesis using a by (simp add: assembled_response_def calls_add_up_def)
qed

text \<open>
  C7: the callbacks see the response.  When a stream ends with a response, the visible pieces handed to \<open>on_delta\<close>, in
  order, make up the text its content is taken from, the thinking pieces make up its reasoning, the
  calls are numbered from 0 without a gap, and each was told the text accumulated so far.
\<close>

theorem deltas_make_response:
  assumes "stream_llm_response str_of fmt c started arrivals ending = (Inr r, st)"
  shows "r = assembled_response str_of st \<and> sm_accumulated st = concat (map dc_visible (sm_calls st))
    \<and> ll_reasoning_content r = concat (map dc_thinking (sm_calls st))
    \<and> (\<forall>i<length (sm_calls st). dc_index (sm_calls st ! i) = i
         \<and> dc_accumulated (sm_calls st ! i) = concat (map dc_visible (take (Suc i) (sm_calls st))))"
proof -
  have "calls_add_up (init_stream c started)" "sm_delta_index (init_stream c started) = length (sm_calls (init_stream c started))"
    by (simp_all add: init_stream_def calls_add_up_def)
  from run_stream_adds [OF assms [unfolded stream_llm_response_def] this] have a: "calls_add_up st" "r = assembled_response str_of st" by auto
  then have "ll_reasoning_content r = sm_thinking_accum st" by (simp add: assembled_response_def)
  then show ?thesis using a unfolding calls_add_up_def by simp
qed

definition text_delta :: "string \<Rightarrow> string \<Rightarrow> StreamDelta" where
  "text_delta content reasoning =
     \<lparr>dl_content = content, dl_reasoning_content = reasoning, dl_tool_call_deltas = [], dl_usage = [], dl_finish_reason = [],
      dl_model = [], dl_provider = [], dl_reasoning_blocks = [], dl_stop_details = [], dl_stop_reason = [],
      dl_thinking_history_reset = False, dl_transport_activity = False, dl_usage_source = [], dl_refusal = [],
      dl_final_tool_calls = None\<rparr>"

definition demo_stream :: "(call_raise + LLMResponse) \<times> stream_state" where
  "demo_stream = stream_llm_response (\<lambda>v. []) (\<lambda>n x. []) (stream_config 60 30 0 None None None True) 0
     [(1, text_delta [] ''let me see''), (2, text_delta ''<think>so</think>Hel'' []), (3, text_delta ''lo'' [])] (4, StreamClosed)"

fun three_calls :: "(call_raise + LLMResponse) \<times> stream_state \<Rightarrow> bool" where
  "three_calls (Inr r, st) = (length (sm_calls st) = 3 \<and> ll_reasoning_content r = ''let me seeso'')"
| "three_calls x = False"

definition cut_stream :: "(call_raise + LLMResponse) \<times> stream_state" where
  "cut_stream = stream_llm_response (\<lambda>v. []) (\<lambda>n x. []) (stream_config 60 30 0 None None None True) 0
     [(1, text_delta ''<thi'' []), (2, text_delta ''nk>secret</thi'' []), (3, text_delta ''nk>ok'' [])] (4, StreamClosed)"

text \<open>The splitter itself would have kept the reasoning of this stream apart.\<close>

theorem cut_tags_shown_witness:
  "(\<exists>r st. cut_stream = (Inr r, st) \<and> concat (map dc_visible (sm_calls st)) = ''<think>secret</think>ok'' \<and> ll_reasoning_content r = [])
   \<and> fst (feed_all [''<thi'', ''nk>secret</thi'', ''nk>ok''] new_splitter) = (''ok'', ''secret'')"
proof
  have "\<not> isl (fst cut_stream)" by code_simp
  then obtain r st where s: "cut_stream = (Inr r, st)" by (metis prod.collapse sum.collapse(2))
  have "whole_tag_free (text_delta ''<thi'' [])" "whole_tag_free (text_delta ''nk>secret</thi'' [])" "whole_tag_free (text_delta ''nk>ok'' [])"
    by code_simp+
  then have "concat (map dc_visible (sm_calls st)) = ''<think>secret</think>ok'' \<and> ll_reasoning_content r = []"
    using cut_tags_shown [OF s [unfolded cut_stream_def]] by (simp add: raw_text_def text_delta_def)
  then show "\<exists>r st. cut_stream = (Inr r, st) \<and> concat (map dc_visible (sm_calls st)) = ''<think>secret</think>ok'' \<and> ll_reasoning_content r = []"
    using s by blast
  show "fst (feed_all [''<thi'', ''nk>secret</thi'', ''nk>ok''] new_splitter) = (''ok'', ''secret'')" by code_simp
qed

theorem deltas_make_response_witness:
  "\<exists>r st. demo_stream = (Inr r, st) \<and> concat (map dc_thinking (sm_calls st)) = ''let me seeso'' \<and> dc_index (sm_calls st ! 2) = 2"
proof -
  have c: "three_calls demo_stream" by code_simp
  obtain res st where s: "demo_stream = (res, st)" by fastforce
  have "three_calls (res, st)" using c unfolding s .
  then obtain r where "res = Inr r" "length (sm_calls st) = 3" "ll_reasoning_content r = ''let me seeso''" by (cases res) auto
  then have d: "demo_stream = (Inr r, st)" "length (sm_calls st) = 3" "ll_reasoning_content r = ''let me seeso''" using s by auto
  note M = deltas_make_response [OF d(1) [unfolded demo_stream_def]]
  have "concat (map dc_thinking (sm_calls st)) = ''let me seeso''" "dc_index (sm_calls st ! 2) = 2"
    using M d(2,3) by simp_all
  with d(1) show ?thesis by blast
qed


end
