(* ===== verification/Scheduler.thy ===== *)
theory Scheduler
  imports Mini_DAG
begin

text \<open>
  The task scheduler (\<^verbatim>\<open>scheduling/scheduler.py, workflow_defaults.py, pipeline_registry.py\<close>): the resolution of the wall time, the
  cache of compiled graphs, the execution of a task with its fencing against newer runners, and the readers of
  checkpointed state.  The process manager, the event store, the clock and the stream of a graph are functions
  of a world that anyone may change between two calls; every call that changes a task and every reading of
  it is logged.  The consumer takes every chunk; closing the stream has no result.
\<close>

section \<open>Tasks\<close>

datatype TaskStatus = CREATED | RUNNING | SUSPENDED | COMPLETED | FAILED | ABORTED

record SchedulerTask =
  tsk_status :: TaskStatus
  tsk_thread_id :: string
  tsk_pipeline_id :: "string option"
  tsk_context :: "pyval pydict"

datatype sched_exc =
    TaskWallTimeExceeded string
  | TimeoutExc string
  | OtherExc string

fun exc_str :: "sched_exc \<Rightarrow> string" where
  "exc_str (TaskWallTimeExceeded m) = m"
| "exc_str (TimeoutExc m) = m"
| "exc_str (OtherExc m) = m"

definition is_stale_execution :: "string option \<Rightarrow> SchedulerTask \<Rightarrow> bool" where
  "is_stale_execution token t =
     (case token of
        None \<Rightarrow> False
      | Some k \<Rightarrow> k \<noteq> [] \<and> get_or_none (tsk_context t) ''active_execution_token'' \<noteq> PyStr k)"

section \<open>Wall time\<close>

definition register_workflow_defaults ::
  "string list \<Rightarrow> pyval pydict \<Rightarrow> bool \<Rightarrow> bool \<Rightarrow> pyval pydict pydict \<Rightarrow> pyval pydict pydict" where
  "register_workflow_defaults ids defaults merge include_none reg =
     (let snapshot = filter (\<lambda>(k, v). include_none \<or> v \<noteq> PyNone) defaults in
      fold (\<lambda>pid r. AList.update pid (fold (\<lambda>(k, v) d. AList.update k v d) snapshot
             (if merge then dict_get_default r pid [] else [])) r) ids reg)"

definition get_workflow_default :: "pyval pydict pydict \<Rightarrow> string option \<Rightarrow> string \<Rightarrow> pyval" where
  "get_workflow_default reg pid attr =
     (case pid of None \<Rightarrow> PyNone | Some p \<Rightarrow> if p = [] then PyNone else get_or_none (dict_get_default reg p []) attr)"

definition WALL_TIME_ENVS :: "string list" where
  "WALL_TIME_ENVS = [''AGENT_CORE_TASK_WALL_TIME_S'', ''MIROHARNESS_TASK_WALL_TIME_S'', ''FRONTIER_AGENT_TASK_WALL_TIME_S'']"

definition positive_or_none :: "int \<Rightarrow> int option" where
  "positive_or_none n = (if 0 < n then Some n else None)"

fun default_wall :: "pyval \<Rightarrow> int option" where
  "default_wall (PyInt n) = positive_or_none n"
| "default_wall (PyBool b) = positive_or_none (if b then 1 else 0)"
| "default_wall v = None"

definition resolve_wall_time_s :: "string pydict \<Rightarrow> pyval pydict pydict \<Rightarrow> int option \<Rightarrow> string option \<Rightarrow> int option" where
  "resolve_wall_time_s environ reg explicit pid =
     (case explicit of
        Some n \<Rightarrow> positive_or_none n
      | None \<Rightarrow>
          let workflow_default = default_wall (get_workflow_default reg pid ''TASK_WALL_TIME_S'') in
          if get_workflow_default reg pid ''TASK_WALL_TIME_MODE'' = PyStr ''soft_research'' then workflow_default
          else case find (\<lambda>name. str_strip (dict_get_default environ name []) \<noteq> []) WALL_TIME_ENVS of
                 None \<Rightarrow> workflow_default
               | Some name \<Rightarrow>
                   (case int_of_str (str_strip (dict_get_default environ name [])) of
                      None \<Rightarrow> workflow_default
                    | Some n \<Rightarrow> positive_or_none n))"

section \<open>Compiled graphs\<close>

record 'd pipeline_spec =
  psp_pipeline_id :: string
  psp_agents :: "(string \<times> 'd) list"

record ('d, 'g) Scheduler =
  sd_default_graph :: "'g option"
  sd_pipelines :: "'d pipeline_spec pydict option"
  sd_builder :: "('d pipeline_spec \<Rightarrow> sched_exc + 'g) option"
  sd_compiled_cache :: "'g pydict"
  sd_agents :: "'d pydict option"

text \<open>The agents of a specification are added to the agent registry, when there is one; known roles stay.\<close>

definition register_pipeline_agents :: "'d pipeline_spec \<Rightarrow> ('d, 'g) Scheduler \<Rightarrow> ('d, 'g) Scheduler" where
  "register_pipeline_agents spec s =
     s\<lparr>sd_agents := map_option (fold (\<lambda>(role, d) reg. if map_of reg role = None then AList.update role d reg else reg)
         (psp_agents spec)) (sd_agents s)\<rparr>"

definition get_graph :: "string option \<Rightarrow> ('d, 'g) Scheduler \<Rightarrow> (sched_exc + 'g option) \<times> ('d, 'g) Scheduler" where
  "get_graph pid s =
     (case pid of
        None \<Rightarrow> (Inr (sd_default_graph s), s)
      | Some p \<Rightarrow>
          if p = [] then (Inr (sd_default_graph s), s)
          else case map_of (sd_compiled_cache s) p of
            Some g \<Rightarrow> (Inr (Some g), s)
          | None \<Rightarrow>
              if p \<in> {''deep_research'', ''react_research''} \<and> sd_default_graph s \<noteq> None then (Inr (sd_default_graph s), s)
              else case (sd_pipelines s, sd_builder s) of
                (Some reg, Some compile) \<Rightarrow>
                  (case map_of reg p of
                     None \<Rightarrow> (Inl (OtherExc (''Pipeline '' @ p @ '' not registered'')), s)
                   | Some spec \<Rightarrow>
                       let s1 = register_pipeline_agents spec s in
                       (case compile spec of
                          Inl e \<Rightarrow> (Inl e, s1)
                        | Inr g \<Rightarrow> (Inr (Some g), s1\<lparr>sd_compiled_cache := AList.update p g (sd_compiled_cache s1)\<rparr>)))
              | _ \<Rightarrow> (Inr (sd_default_graph s), s))"

definition execute_dynamic_spec :: "'d pipeline_spec \<Rightarrow> ('d, 'g) Scheduler \<Rightarrow> ('d, 'g) Scheduler" where
  "execute_dynamic_spec spec s =
     s\<lparr>sd_pipelines := map_option (\<lambda>reg. if map_of reg (psp_pipeline_id spec) = None
         then AList.update (psp_pipeline_id spec) spec reg else reg) (sd_pipelines s)\<rparr>"

section \<open>The world of a runner\<close>

type_synonym graph_chunk = "(string \<times> pyval) list"

text \<open>
  A pull from the stream yields a chunk, the end (\<open>Inr None\<close>) or an exception; it is given the time that is
  left, and \<open>wait_for\<close> answers with a \<open>TimeoutError\<close> when that is over.  A snapshot is the dictionary of its
  values, empty when there is none; a checkpoint tuple has the channel values, the names of the pending writes
  and the configuration of its parent.
\<close>

record checkpoint_tuple =
  ckt_channel_values :: "pyval pydict"
  ckt_pending_writes :: "string list"
  ckt_parent_config :: "string option"

record ('g, 'w) sched_env =
  se_get_task :: "'w \<Rightarrow> (sched_exc + SchedulerTask) \<times> 'w"
  se_update_status :: "TaskStatus \<Rightarrow> 'w \<Rightarrow> sched_exc option \<times> 'w"
  se_abort_task :: "string \<Rightarrow> 'w \<Rightarrow> sched_exc option \<times> 'w"
  se_set_error :: "string \<Rightarrow> 'w \<Rightarrow> sched_exc option \<times> 'w"
  se_append :: "'w \<Rightarrow> sched_exc option \<times> 'w"
  se_clock :: "'w \<Rightarrow> real \<times> 'w"
  se_open :: "'g \<Rightarrow> pyval \<Rightarrow> string \<Rightarrow> 'w \<Rightarrow> 'w"
  se_anext :: "real option \<Rightarrow> 'w \<Rightarrow> (sched_exc + graph_chunk option) \<times> 'w"
  se_aget_state :: "'g \<Rightarrow> string \<Rightarrow> 'w \<Rightarrow> sched_exc + pyval pydict"
  se_aget_tuple :: "(string \<Rightarrow> 'w \<Rightarrow> sched_exc + checkpoint_tuple option) option"

datatype sched_action =
    ReadTask "SchedulerTask option"
  | SetStatus TaskStatus
  | AbortTask string
  | SetError string
  | ReportGenerated
  | Delivered graph_chunk
  | FinalState "pyval pydict"

record 'w sched_run =
  sr_world :: 'w
  sr_trace :: "sched_action list"

definition log_act :: "sched_action \<Rightarrow> 'w \<Rightarrow> 'w sched_run \<Rightarrow> 'w sched_run" where
  "log_act a w r = r\<lparr>sr_world := w, sr_trace := sr_trace r @ [a]\<rparr>"

definition read_task :: "('g, 'w) sched_env \<Rightarrow> 'w sched_run \<Rightarrow> (sched_exc + SchedulerTask) \<times> 'w sched_run" where
  "read_task env r =
     (case se_get_task env (sr_world r) of
        (Inl e, w) \<Rightarrow> (Inl e, log_act (ReadTask None) w r)
      | (Inr t, w) \<Rightarrow> (Inr t, log_act (ReadTask (Some t)) w r))"

definition update_task ::
  "sched_action \<Rightarrow> ('w \<Rightarrow> sched_exc option \<times> 'w) \<Rightarrow> 'w sched_run \<Rightarrow> sched_exc option \<times> 'w sched_run" where
  "update_task a f r = (case f (sr_world r) of (res, w) \<Rightarrow> (res, log_act a w r))"

section \<open>State readers\<close>

definition has_terminal_output :: "pyval pydict \<Rightarrow> bool" where
  "has_terminal_output state =
     list_ex (\<lambda>key. case get_or_none state key of PyStr s \<Rightarrow> str_strip s \<noteq> [] | PyDict d \<Rightarrow> d \<noteq> [] | _ \<Rightarrow> False)
       [''report'', ''final_content'']"

definition format_no_terminal_error :: "(pyval \<Rightarrow> string) \<Rightarrow> string \<Rightarrow> pyval pydict \<Rightarrow> string" where
  "format_no_terminal_error str_of task_id state =
     (let phase = (if truthy (get_or_none state ''current_phase'') then str_of (get_or_none state ''current_phase'') else ''?'');
          errors = (case get_or_none state ''errors'' of
                      PyList es \<Rightarrow> if es = [] then [] else [''Errors: '' @ str_join '' | '' (map (take 200 \<circ> str_of) (take 3 es))]
                    | _ \<Rightarrow> []);
          iterations = (case get_or_none state ''iteration_count'' of
                          PyInt n \<Rightarrow> if 0 < n then [''iterations='' @ str_of_int n] else []
                        | PyBool b \<Rightarrow> if b then [''iterations=True''] else []
                        | _ \<Rightarrow> [])
      in str_join '' '' ([''Task '' @ task_id @ '' produced no final answer at phase '' @ [CHR 0x27] @ phase @ [CHR 0x27, CHR ''.'']]
           @ errors @ iterations))"

definition channel_state :: "pyval pydict \<Rightarrow> pyval pydict" where
  "channel_state values = (case get_or_none values ''__root__'' of PyDict d \<Rightarrow> d | _ \<Rightarrow> values)"

definition get_state_for_config :: "('g, 'w) sched_env \<Rightarrow> 'g option \<Rightarrow> string \<Rightarrow> 'w \<Rightarrow> pyval pydict" where
  "get_state_for_config env graph config w =
     (let from_checkpoint =
            (case se_aget_tuple env of
               None \<Rightarrow> []
             | Some f \<Rightarrow> (case f config w of Inr (Some c) \<Rightarrow> channel_state (ckt_channel_values c) | _ \<Rightarrow> []))
      in case graph of
           None \<Rightarrow> from_checkpoint
         | Some g \<Rightarrow> (case se_aget_state env g config w of Inr v \<Rightarrow> if v \<noteq> [] then v else from_checkpoint | Inl e \<Rightarrow> from_checkpoint))"

text \<open>The state a task is resumed from: the parent of a checkpoint with an error write.\<close>

definition get_resume_config ::
  "('g, 'w) sched_env \<Rightarrow> string option \<Rightarrow> ('d, 'g) Scheduler \<Rightarrow> 'w sched_run \<Rightarrow>
   (sched_exc + string \<times> pyval pydict) \<times> ('d, 'g) Scheduler \<times> 'w sched_run" where
  "get_resume_config env pid s r =
     (case read_task env r of
        (Inl e, r1) \<Rightarrow> (Inl e, s, r1)
      | (Inr t, r1) \<Rightarrow>
          (case se_aget_tuple env of
             None \<Rightarrow> (Inr (tsk_thread_id t, []), s, r1)
           | Some f \<Rightarrow>
               (case f (tsk_thread_id t) (sr_world r1) of
                  Inl e \<Rightarrow> (Inl e, s, r1)
                | Inr None \<Rightarrow> (Inr (tsk_thread_id t, []), s, r1)
                | Inr (Some c) \<Rightarrow>
                    let config = (if ''__error__'' \<in> set (ckt_pending_writes c)
                                  then case ckt_parent_config c of Some p \<Rightarrow> p | None \<Rightarrow> tsk_thread_id t
                                  else tsk_thread_id t);
                        (g, s1) = get_graph pid s;
                        graph = (case g of Inl e \<Rightarrow> None | Inr g \<Rightarrow> g)
                    in (Inr (config, get_state_for_config env graph config (sr_world r1)), s1, r1))))"

fun first_snapshot :: "('g, 'w) sched_env \<Rightarrow> string \<Rightarrow> 'w \<Rightarrow> 'g list \<Rightarrow> pyval pydict" where
  "first_snapshot env config w [] = []"
| "first_snapshot env config w (g # gs) =
     (case se_aget_state env g config w of Inr v \<Rightarrow> if v \<noteq> [] then v else first_snapshot env config w gs
      | Inl e \<Rightarrow> first_snapshot env config w gs)"

text \<open>One pipeline of the first loop of \<open>get_state\<close>: the graph is looked up, and may be compiled, then asked.\<close>

fun try_pipelines ::
  "('g, 'w) sched_env \<Rightarrow> string \<Rightarrow> 'w \<Rightarrow> string list \<Rightarrow> ('d, 'g) Scheduler \<Rightarrow> pyval pydict \<times> ('d, 'g) Scheduler" where
  "try_pipelines env config w [] s = ([], s)"
| "try_pipelines env config w (p # ps) s =
     (case get_graph (Some p) s of
        (Inr (Some g), s1) \<Rightarrow>
          (case se_aget_state env g config w of
             Inr v \<Rightarrow> if v \<noteq> [] then (v, s1) else try_pipelines env config w ps s1
           | Inl e \<Rightarrow> try_pipelines env config w ps s1)
      | (_, s1) \<Rightarrow> try_pipelines env config w ps s1)"

definition get_state ::
  "('g, 'w) sched_env \<Rightarrow> ('d, 'g) Scheduler \<Rightarrow> 'w sched_run \<Rightarrow> (sched_exc + pyval pydict) \<times> ('d, 'g) Scheduler \<times> 'w sched_run" where
  "get_state env s r =
     (case read_task env r of
        (Inl e, r1) \<Rightarrow> (Inl e, s, r1)
      | (Inr t, r1) \<Rightarrow>
          let pid = (case tsk_pipeline_id t of None \<Rightarrow> ''deep_research'' | Some p \<Rightarrow> if p = ''auto'' then ''deep_research'' else p);
              config = tsk_thread_id t;
              w = sr_world r1;
              (v, s1) = try_pipelines env config w (if pid \<noteq> ''deep_research'' then [pid, ''deep_research''] else [pid]) s;
              v1 = (if v \<noteq> [] then v else first_snapshot env config w (map snd (sd_compiled_cache s1)));
              v2 = (if v1 \<noteq> [] then v1
                    else case se_aget_tuple env of
                           None \<Rightarrow> []
                         | Some f \<Rightarrow> (case f config w of Inr (Some c) \<Rightarrow> ckt_channel_values c | _ \<Rightarrow> []))
          in (Inr v2, s1, r1))"

section \<open>Execution\<close>

definition wall_message :: "string \<Rightarrow> int option \<Rightarrow> string" where
  "wall_message task_id wall =
     ''task '' @ task_id @ '' wall-time exceeded after '' @ (case wall of None \<Rightarrow> ''None'' | Some n \<Rightarrow> str_of_int n) @ ''s''"

text \<open>A pull of the stream under the deadline.\<close>

definition wall_anext ::
  "('g, 'w) sched_env \<Rightarrow> string \<Rightarrow> int option \<Rightarrow> real option \<Rightarrow> 'w \<Rightarrow> (sched_exc + graph_chunk option) \<times> 'w" where
  "wall_anext env task_id wall deadline w =
     (let pull = (\<lambda>left w. case se_anext env left w of
            (Inl (TimeoutExc m), w1) \<Rightarrow> (Inl (TaskWallTimeExceeded (wall_message task_id wall)), w1)
          | res \<Rightarrow> res)
      in case deadline of
           None \<Rightarrow> pull None w
         | Some d \<Rightarrow>
             (case se_clock env w of
                (now, w1) \<Rightarrow>
                  if d - now \<le> 0 then (Inl (TaskWallTimeExceeded (wall_message task_id wall)), w1) else pull (Some (d - now)) w1))"

datatype stream_exit = StreamDone | RunnerStopped | StreamRaised sched_exc

definition halted :: "SchedulerTask \<Rightarrow> bool" where
  "halted t = (tsk_status t \<in> {SUSPENDED, ABORTED})"

text \<open>One chunk: it is delivered to a runner that still owns the task, which then looks at the task again.\<close>

definition deliver_chunk ::
  "('g, 'w) sched_env \<Rightarrow> string option \<Rightarrow> graph_chunk \<Rightarrow> 'w sched_run \<Rightarrow> stream_exit option \<times> 'w sched_run" where
  "deliver_chunk env token ck r =
     (case read_task env r of
        (Inl e, r1) \<Rightarrow> (Some (StreamRaised e), r1)
      | (Inr t, r1) \<Rightarrow>
          if is_stale_execution token t then (Some RunnerStopped, r1)
          else
            let r2 = log_act (Delivered ck) (sr_world r1) r1 in
            (case read_task env r2 of
               (Inl e, r3) \<Rightarrow> (Some (StreamRaised e), r3)
             | (Inr t', r3) \<Rightarrow> (if is_stale_execution token t' \<or> halted t' then Some RunnerStopped else None, r3)))"

fun consume_stream ::
  "nat \<Rightarrow> ('g, 'w) sched_env \<Rightarrow> string \<Rightarrow> string option \<Rightarrow> int option \<Rightarrow> real option \<Rightarrow> 'w sched_run \<Rightarrow> (stream_exit \<times> 'w sched_run) option" where
  "consume_stream 0 env task_id token wall deadline r = None"
| "consume_stream (Suc fuel) env task_id token wall deadline r =
     (case wall_anext env task_id wall deadline (sr_world r) of
        (Inl e, w) \<Rightarrow> Some (StreamRaised e, r\<lparr>sr_world := w\<rparr>)
      | (Inr None, w) \<Rightarrow> Some (StreamDone, r\<lparr>sr_world := w\<rparr>)
      | (Inr (Some ck), w) \<Rightarrow>
          (case deliver_chunk env token ck (r\<lparr>sr_world := w\<rparr>) of
             (Some x, r1) \<Rightarrow> Some (x, r1)
           | (None, r1) \<Rightarrow> consume_stream fuel env task_id token wall deadline r1))"

text \<open>The transition to \<open>COMPLETED\<close> after the stream; the result is the exception that reached the handler.\<close>

definition report_done :: "('g, 'w) sched_env \<Rightarrow> 'w sched_run \<Rightarrow> sched_exc option \<times> 'w sched_run" where
  "report_done env r =
     (case update_task (SetStatus COMPLETED) (se_update_status env COMPLETED) r of
        (Some e, r1) \<Rightarrow> (Some e, r1)
      | (None, r1) \<Rightarrow> update_task ReportGenerated (se_append env) r1)"

definition complete_task ::
  "(pyval \<Rightarrow> string) \<Rightarrow> ('g, 'w) sched_env \<Rightarrow> string \<Rightarrow> string option \<Rightarrow> 'g option \<Rightarrow> string \<Rightarrow> 'w sched_run \<Rightarrow> sched_exc option \<times> 'w sched_run" where
  "complete_task str_of env task_id token graph config r =
     (case read_task env r of
        (Inl e, r1) \<Rightarrow> (Some e, r1)
      | (Inr t, r1) \<Rightarrow>
          if is_stale_execution token t \<or> halted t \<or> tsk_status t = COMPLETED then (None, r1)
          else
            let state = get_state_for_config env graph config (sr_world r1);
                r2 = log_act (FinalState state) (sr_world r1) r1
            in if \<not> has_terminal_output state then (Some (OtherExc (format_no_terminal_error str_of task_id state)), r2)
               else (case read_task env r2 of
                       (Inl e, r3) \<Rightarrow> (Some e, r3)
                     | (Inr t', r3) \<Rightarrow>
                         if is_stale_execution token t' \<or> tsk_status t' = COMPLETED then (None, r3) else report_done env r3))"

text \<open>The handler of \<open>execute\<close>: what is raised out of it, if anything.\<close>

definition settle_failure ::
  "('g, 'w) sched_env \<Rightarrow> string option \<Rightarrow> sched_exc \<Rightarrow> 'w sched_run \<Rightarrow> sched_exc option \<times> 'w sched_run" where
  "settle_failure env token e r =
     (let (res, r1) = read_task env r;
          suppressed = (case res of Inl x \<Rightarrow> False
                        | Inr t \<Rightarrow> is_stale_execution token t \<or> tsk_status t = COMPLETED \<or> halted t);
          settle = (case e of
                      TaskWallTimeExceeded m \<Rightarrow> update_task (AbortTask m) (se_abort_task env m)
                    | _ \<Rightarrow> update_task (SetError (exc_str e)) (se_set_error env (exc_str e)))
      in if suppressed then (None, r1)
         else case settle r1 of (Some x, r2) \<Rightarrow> (Some x, r2) | (None, r2) \<Rightarrow> (Some e, r2))"

definition run_graph ::
  "nat \<Rightarrow> (pyval \<Rightarrow> string) \<Rightarrow> ('g, 'w) sched_env \<Rightarrow> string \<Rightarrow> string option \<Rightarrow> int option \<Rightarrow> 'g option \<Rightarrow> pyval \<Rightarrow> string \<Rightarrow>
   'w sched_run \<Rightarrow> (sched_exc option \<times> 'w sched_run) option" where
  "run_graph fuel str_of env task_id token wall graph input_data config r =
     (case graph of
        None \<Rightarrow> Some (settle_failure env token (OtherExc ''no graph'') r)
      | Some g \<Rightarrow>
          (let (deadline, w1) = (case wall of
                 None \<Rightarrow> (None, sr_world r)
               | Some n \<Rightarrow> (case se_clock env (sr_world r) of (now, w) \<Rightarrow> (Some (now + of_int n), w)));
               r1 = r\<lparr>sr_world := se_open env g input_data config w1\<rparr>
           in case consume_stream fuel env task_id token wall deadline r1 of
                None \<Rightarrow> None
              | Some (StreamRaised e, r2) \<Rightarrow> Some (settle_failure env token e r2)
              | Some (RunnerStopped, r2) \<Rightarrow> Some (None, r2)
              | Some (StreamDone, r2) \<Rightarrow>
                  Some (case complete_task str_of env task_id token graph config r2 of
                          (Some e, r3) \<Rightarrow> settle_failure env token e r3
                        | (None, r3) \<Rightarrow> (None, r3))))"

text \<open>The configuration of a task is named by its thread, unless the caller overrides it.\<close>

definition execute ::
  "nat \<Rightarrow> (pyval \<Rightarrow> string) \<Rightarrow> ('g, 'w) sched_env \<Rightarrow> (int option \<Rightarrow> string option \<Rightarrow> int option) \<Rightarrow> string \<Rightarrow> pyval \<Rightarrow> string option \<Rightarrow>
   string option \<Rightarrow> string option \<Rightarrow> int option \<Rightarrow> ('d, 'g) Scheduler \<Rightarrow> 'w sched_run \<Rightarrow>
   (sched_exc option \<times> ('d, 'g) Scheduler \<times> 'w sched_run) option" where
  "execute fuel str_of env resolver task_id input_data pid config_override token wall_time_s s r =
     (case read_task env r of
        (Inl e, r1) \<Rightarrow> Some (Some e, s, r1)
      | (Inr t, r1) \<Rightarrow>
          (case (if tsk_status t \<noteq> RUNNING then update_task (SetStatus RUNNING) (se_update_status env RUNNING) r1 else (None, r1)) of
             (Some e, r2) \<Rightarrow> Some (Some e, s, r2)
           | (None, r2) \<Rightarrow>
               (case get_graph pid s of
                  (Inl e, s1) \<Rightarrow> Some (Some e, s1, r2)
                | (Inr graph, s1) \<Rightarrow>
                    map_option (\<lambda>(res, r3). (res, s1, r3))
                      (run_graph fuel str_of env task_id token (resolver wall_time_s pid) graph input_data
                         (case config_override of Some c \<Rightarrow> if c \<noteq> [] then c else tsk_thread_id t | None \<Rightarrow> tsk_thread_id t) r2))))"


section \<open>Graphs are compiled once\<close>

lemma register_pipeline_agents_keeps [simp]:
  "sd_default_graph (register_pipeline_agents spec s) = sd_default_graph s"
  "sd_pipelines (register_pipeline_agents spec s) = sd_pipelines s"
  "sd_builder (register_pipeline_agents spec s) = sd_builder s"
  "sd_compiled_cache (register_pipeline_agents spec s) = sd_compiled_cache s"
  by (simp_all add: register_pipeline_agents_def)

lemma get_graph_keeps:
  assumes "get_graph pid s = (res, s1)"
  shows "sd_default_graph s1 = sd_default_graph s \<and> sd_pipelines s1 = sd_pipelines s \<and> sd_builder s1 = sd_builder s"
  using assms by (auto simp: get_graph_def Let_def split: option.splits if_splits sum.splits)

lemma get_graph_extends:
  assumes "get_graph pid s = (res, s1)" and "map_of (sd_compiled_cache s) p = Some g"
  shows "map_of (sd_compiled_cache s1) p = Some g"
  using assms by (auto simp: get_graph_def Let_def update_conv' split: option.splits if_splits sum.splits)

lemma get_graph_entries:
  assumes "get_graph pid s = (res, s1)" and "map_of (sd_compiled_cache s1) p = Some g" and "map_of (sd_compiled_cache s) p = None"
  shows "res = Inr (Some g) \<and> pid = Some p"
  using assms by (auto simp: get_graph_def Let_def update_conv' split: option.splits if_splits sum.splits)

lemma get_graph_again: "get_graph pid s = (Inr g, s1) \<Longrightarrow> get_graph pid s1 = (Inr g, s1)"
  by (auto simp: get_graph_def Let_def split: option.splits if_splits sum.splits)

text \<open>The cases in which a pipeline that was not compiled gets the graph of the scheduler itself.\<close>

definition takes_default :: "string \<Rightarrow> ('d, 'g) Scheduler \<Rightarrow> bool" where
  "takes_default q s =
     (q = [] \<or> q \<in> {''deep_research'', ''react_research''} \<and> sd_default_graph s \<noteq> None \<or> sd_pipelines s = None \<or> sd_builder s = None)"

lemma get_graph_compiles:
  assumes "get_graph (Some q) s = (Inr g, s1)" and "map_of (sd_compiled_cache s) q = None" and "\<not> takes_default q s"
  shows "\<exists>h. map_of (sd_compiled_cache s1) q = Some h"
  using assms by (auto simp: get_graph_def takes_default_def Let_def update_conv' split: option.splits sum.splits)

lemma get_graph_default:
  assumes "map_of (sd_compiled_cache s) q = None"
  shows "takes_default q s \<Longrightarrow> get_graph (Some q) s = (Inr (sd_default_graph s), s)"
    and "get_graph (Some q) s = (Inr g, s) \<Longrightarrow> takes_default q s \<and> g = sd_default_graph s"
proof -
  show d: "get_graph (Some q) s = (Inr (sd_default_graph s), s)" if "takes_default q s"
    using that assms by (auto simp: get_graph_def takes_default_def split: option.splits)
  show "takes_default q s \<and> g = sd_default_graph s" if "get_graph (Some q) s = (Inr g, s)"
    using get_graph_compiles [OF that assms] assms d that by fastforce
qed

lemma get_graph_stays:
  assumes "get_graph pid s = (Inr g, s)" and "get_graph p s = (x, s1)"
  shows "get_graph pid s1 = (Inr g, s1)"
proof (cases "p = pid")
  case False
  have new: "map_of (sd_compiled_cache s1) q = None" if "pid = Some q" "map_of (sd_compiled_cache s) q = None" for q
    using get_graph_entries [OF assms(2), of q] that False by (cases "map_of (sd_compiled_cache s1) q") auto
  show ?thesis
  proof (cases pid)
    case (Some q)
    show ?thesis
    proof (cases "map_of (sd_compiled_cache s) q")
      case None
      have "takes_default q s" "g = sd_default_graph s" using get_graph_default(2) [OF None] assms(1) Some by auto
      then show ?thesis using get_graph_default(1) [OF new [OF Some None]] get_graph_keeps [OF assms(2)] Some
        by (auto simp: takes_default_def)
    next
      fix h assume "map_of (sd_compiled_cache s) q = Some h"
      then show ?thesis using assms(1) Some get_graph_extends [OF assms(2), of q h] get_graph_keeps [OF assms(2)]
        by (auto simp: get_graph_def split: if_splits)
    qed
  qed (use assms(1) get_graph_keeps [OF assms(2)] in \<open>auto simp: get_graph_def\<close>)
qed (use assms get_graph_again in auto)

lemma get_graph_stays_fold:
  "get_graph pid s = (Inr g, s) \<Longrightarrow> get_graph pid (fold (\<lambda>p s. snd (get_graph p s)) ps s) = (Inr g, fold (\<lambda>p s. snd (get_graph p s)) ps s)"
proof (induction ps arbitrary: s)
  case (Cons p ps)
  have "get_graph pid (snd (get_graph p s)) = (Inr g, snd (get_graph p s))"
    by (rule get_graph_stays [OF Cons.prems, of p "fst (get_graph p s)"]) simp
  then show ?case using Cons.IH by simp
qed simp

section \<open>Traces\<close>

fun last_task :: "sched_action list \<Rightarrow> SchedulerTask option option" where
  "last_task [] = None"
| "last_task (a # as) = (case last_task as of Some t \<Rightarrow> Some t | None \<Rightarrow> (case a of ReadTask t \<Rightarrow> Some t | _ \<Rightarrow> None))"

fun last_state :: "sched_action list \<Rightarrow> pyval pydict option" where
  "last_state [] = None"
| "last_state (a # as) = (case last_state as of Some t \<Rightarrow> Some t | None \<Rightarrow> (case a of FinalState v \<Rightarrow> Some v | _ \<Rightarrow> None))"

lemma last_task_snoc [simp]: "last_task (tr @ [a]) = (case a of ReadTask t \<Rightarrow> Some t | _ \<Rightarrow> last_task tr)"
  by (induction tr) (auto split: sched_action.splits option.splits)

lemma last_state_snoc [simp]: "last_state (tr @ [a]) = (case a of FinalState v \<Rightarrow> Some v | _ \<Rightarrow> last_state tr)"
  by (induction tr) (auto split: sched_action.splits option.splits)

text \<open>The task as last read does not stand against ending it in failure.\<close>

definition may_fail :: "string option \<Rightarrow> sched_action list \<Rightarrow> bool" where
  "may_fail token tr =
     (case last_task tr of
        None \<Rightarrow> False
      | Some None \<Rightarrow> True
      | Some (Some t) \<Rightarrow> \<not> is_stale_execution token t \<and> tsk_status t \<notin> {COMPLETED, SUSPENDED, ABORTED})"

text \<open>When a runner with a token may act, after what it did so far.\<close>

fun action_fenced :: "string option \<Rightarrow> sched_action list \<Rightarrow> sched_action \<Rightarrow> bool" where
  "action_fenced token tr (Delivered ck) = (\<exists>t. last_task tr = Some (Some t) \<and> \<not> is_stale_execution token t)"
| "action_fenced token tr (SetStatus s) =
     (\<exists>t. last_task tr = Some (Some t)
        \<and> (if s = RUNNING then tr = [ReadTask (Some t)] \<and> tsk_status t \<noteq> RUNNING
           else s = COMPLETED \<and> \<not> is_stale_execution token t \<and> tsk_status t \<noteq> COMPLETED
             \<and> (\<exists>v. last_state tr = Some v \<and> has_terminal_output v)))"
| "action_fenced token tr (AbortTask m) = may_fail token tr"
| "action_fenced token tr (SetError m) = may_fail token tr"
| "action_fenced token tr ReportGenerated = (\<exists>tr'. tr = tr' @ [SetStatus COMPLETED])"
| "action_fenced token tr (ReadTask t) = True"
| "action_fenced token tr (FinalState v) = True"

definition fenced :: "string option \<Rightarrow> 'w sched_run \<Rightarrow> bool" where
  "fenced token r = (\<forall>i<length (sr_trace r). action_fenced token (take i (sr_trace r)) (sr_trace r ! i))"

lemma fenced_log [simp]: "fenced token (log_act a w r) \<longleftrightarrow> fenced token r \<and> action_fenced token (sr_trace r) a"
  by (auto simp: fenced_def log_act_def less_Suc_eq nth_append)

lemma log_act_trace [simp]: "sr_trace (log_act a w r) = sr_trace r @ [a]"
  by (simp add: log_act_def)

lemma fenced_world [simp]: "fenced token (r\<lparr>sr_world := w\<rparr>) = fenced token r"
  by (simp add: fenced_def)

lemma read_task_fenced:
  assumes "read_task env r = (res, r1)" and "fenced token r"
  shows "fenced token r1 \<and> last_task (sr_trace r1) = Some (case res of Inl e \<Rightarrow> None | Inr t \<Rightarrow> Some t)
    \<and> last_state (sr_trace r1) = last_state (sr_trace r)"
  using assms by (auto simp: read_task_def split: prod.splits sum.splits)

lemma update_task_fenced:
  assumes "update_task a f r = (res, r1)" and "fenced token r" and "action_fenced token (sr_trace r) a"
  shows "fenced token r1 \<and> sr_trace r1 = sr_trace r @ [a]"
  using assms by (auto simp: update_task_def split: prod.splits)

lemma deliver_chunk_fenced:
  assumes "deliver_chunk env token ck r = (res, r1)" and "fenced token r"
  shows "fenced token r1"
proof -
  obtain x r2 where a: "read_task env r = (x, r2)" by fastforce
  note f = read_task_fenced [OF a assms(2)]
  show ?thesis
  proof (cases x)
    case (Inl e)
    then show ?thesis using assms(1) a f by (auto simp: deliver_chunk_def)
  next
    case (Inr t)
    show ?thesis
    proof (cases "is_stale_execution token t")
      case False
      let ?r = "log_act (Delivered ck) (sr_world r2) r2"
      have g: "fenced token ?r" using f Inr False by simp
      obtain y r3 where b: "read_task env ?r = (y, r3)" by fastforce
      have "r1 = r3" using assms(1) a b Inr False by (auto simp: deliver_chunk_def split: sum.splits)
      then show ?thesis using read_task_fenced [OF b g] by simp
    qed (use assms(1) a f Inr in \<open>auto simp: deliver_chunk_def\<close>)
  qed
qed

lemma consume_stream_fenced:
  assumes "consume_stream fuel env task_id token wall deadline r = Some (x, r1)" and "fenced token r"
  shows "fenced token r1"
  using assms
proof (induction fuel arbitrary: r)
  case (Suc fuel)
  then show ?case
    by (fastforce split: prod.splits sum.splits option.splits dest: deliver_chunk_fenced)
qed simp

lemma report_done_fenced:
  assumes "report_done env r = (res, r1)" and "fenced token r" and "action_fenced token (sr_trace r) (SetStatus COMPLETED)"
  shows "fenced token r1"
proof -
  obtain x r2 where a: "update_task (SetStatus COMPLETED) (se_update_status env COMPLETED) r = (x, r2)" by fastforce
  note f = update_task_fenced [OF a assms(2,3)]
  show ?thesis using assms(1) a f update_task_fenced [of ReportGenerated "se_append env" r2 res r1]
    by (cases x) (auto simp: report_done_def)
qed

lemma complete_task_fenced:
  assumes "complete_task str_of env task_id token graph config r = (res, r1)" and "fenced token r"
  shows "fenced token r1"
proof -
  obtain x r2 where a: "read_task env r = (x, r2)" by fastforce
  note f = read_task_fenced [OF a assms(2)]
  define v where "v = get_state_for_config env graph config (sr_world r2)"
  let ?r = "log_act (FinalState v) (sr_world r2) r2"
  obtain y r3 where b: "read_task env ?r = (y, r3)" by fastforce
  have g: "fenced token ?r" "last_state (sr_trace ?r) = Some v" using f by simp_all
  note h = read_task_fenced [OF b g(1)]
  show ?thesis
    using assms(1) a b f g h report_done_fenced [of env r3 res r1 token]
    by (auto simp: complete_task_def Let_def v_def [symmetric] split: sum.splits if_splits)
qed

lemma settle_failure_fenced:
  assumes "settle_failure env token e r = (res, r1)" and "fenced token r"
  shows "fenced token r1"
proof -
  obtain x r2 where a: "read_task env r = (x, r2)" by fastforce
  note f = read_task_fenced [OF a assms(2)]
  define bad where "bad = (case x of Inl y \<Rightarrow> False | Inr t \<Rightarrow> is_stale_execution token t \<or> tsk_status t = COMPLETED \<or> halted t)"
  have m: "may_fail token (sr_trace r2)" if "\<not> bad"
    using that f by (auto simp: bad_def may_fail_def halted_def split: sum.splits)
  define act where "act = (case e of TaskWallTimeExceeded m \<Rightarrow> AbortTask m | _ \<Rightarrow> SetError (exc_str e))"
  define op where "op = (case e of TaskWallTimeExceeded m \<Rightarrow> se_abort_task env m | _ \<Rightarrow> se_set_error env (exc_str e))"
  obtain y r3 where u: "update_task act op r2 = (y, r3)" by fastforce
  have s: "(case e of TaskWallTimeExceeded m \<Rightarrow> update_task (AbortTask m) (se_abort_task env m)
      | _ \<Rightarrow> update_task (SetError (exc_str e)) (se_set_error env (exc_str e))) r2 = (y, r3)"
    using u by (cases e) (simp_all add: act_def op_def)
  have "r1 = (if bad then r2 else r3)"
    using assms(1) s a unfolding settle_failure_def Let_def bad_def [symmetric] by (auto simp: bad_def [symmetric] split: if_splits option.splits)
  moreover have "fenced token r3" if "\<not> bad"
    using update_task_fenced [OF u, of token] f m [OF that] by (cases e) (auto simp: act_def)
  ultimately show ?thesis using f by auto
qed

lemma run_graph_fenced:
  assumes "run_graph fuel str_of env task_id token wall graph input_data config r = Some (res, r1)" and "fenced token r"
  shows "fenced token r1"
  using assms
  by (auto simp: run_graph_def Let_def split: option.splits prod.splits stream_exit.splits
      dest!: consume_stream_fenced intro: settle_failure_fenced complete_task_fenced)


section \<open>Streams that end\<close>

text \<open>A world in which every chunk uses up something that readings of the task and the clock do not give back.\<close>

locale draining_stream =
  fixes env :: "('g, 'w) sched_env" and left :: "'w \<Rightarrow> nat"
  assumes pull_uses: "se_anext env limit w = (Inr (Some ck), w') \<Longrightarrow> left w' < left w"
    and task_keeps: "se_get_task env w = (res, w') \<Longrightarrow> left w' \<le> left w"
    and clock_keeps: "se_clock env w = (now, w') \<Longrightarrow> left w' \<le> left w"
begin

lemma wall_anext_uses: "wall_anext env task_id wall deadline w = (Inr (Some ck), w') \<Longrightarrow> left w' < left w"
  by (auto simp: wall_anext_def Let_def split: option.splits prod.splits sum.splits sched_exc.splits if_splits
      dest!: pull_uses clock_keeps)

lemma read_task_keeps: "read_task env r = (res, r1) \<Longrightarrow> left (sr_world r1) \<le> left (sr_world r)"
  by (auto simp: read_task_def log_act_def split: prod.splits sum.splits dest!: task_keeps)

lemma deliver_chunk_keeps:
  assumes "deliver_chunk env token ck r = (res, r1)"
  shows "left (sr_world r1) \<le> left (sr_world r)"
proof -
  obtain x r2 where a: "read_task env r = (x, r2)" by fastforce
  obtain y r3 where b: "read_task env (log_act (Delivered ck) (sr_world r2) r2) = (y, r3)" by fastforce
  have "left (sr_world r3) \<le> left (sr_world r2)" using read_task_keeps [OF b] by (simp add: log_act_def)
  moreover have "r1 = r2 \<or> r1 = r3" using assms a b by (auto simp: deliver_chunk_def Let_def split: sum.splits if_splits)
  ultimately show ?thesis using read_task_keeps [OF a] by auto
qed

lemma consume_stream_ends: "left (sr_world r) < fuel \<Longrightarrow> \<exists>out. consume_stream fuel env task_id token wall deadline r = Some out"
proof (induction fuel arbitrary: r)
  case (Suc fuel)
  obtain res w where p: "wall_anext env task_id wall deadline (sr_world r) = (res, w)" by fastforce
  show ?case
  proof (cases "\<exists>ck. res = Inr (Some ck)")
    case True
    then obtain ck where ck: "res = Inr (Some ck)" by blast
    obtain x r1 where d: "deliver_chunk env token ck (r\<lparr>sr_world := w\<rparr>) = (x, r1)" by fastforce
    have "left (sr_world r1) < fuel"
      using deliver_chunk_keeps [OF d] wall_anext_uses [of task_id wall deadline "sr_world r" ck w] p ck Suc.prems by simp
    then show ?thesis using Suc.IH [of r1] p ck d by (cases x) auto
  next
    case False
    then show ?thesis using p by (cases res) (auto split: option.splits)
  qed
qed simp

end

text \<open>
  A runner over the graph engine.  The stream of a compiled graph is the list of its yields; the host \<open>'p\<close> keeps
  the tasks and decides when a pull with a limit takes too long.
\<close>

record ('p, 'c) dag_world =
  dw_host :: 'p
  dw_store :: 'c
  dw_states :: "dag_state pydict"
  dw_yields :: "graph_chunk list"
  dw_raised :: "dag_exc option"

fun dag_exc_str :: "dag_exc \<Rightarrow> string" where
  "dag_exc_str TypeOrValueError = []"
| "dag_exc_str (KeyError k) = k"
| "dag_exc_str (OtherError m) = m"

definition on_host :: "('p \<Rightarrow> 'r \<times> 'p) \<Rightarrow> ('p, 'c) dag_world \<Rightarrow> 'r \<times> ('p, 'c) dag_world" where
  "on_host f w = (case f (dw_host w) of (x, p) \<Rightarrow> (x, w\<lparr>dw_host := p\<rparr>))"

definition dag_open :: "'c checkpointer option \<Rightarrow> MiniDAG \<Rightarrow> pyval \<Rightarrow> string \<Rightarrow> ('p, 'c) dag_world \<Rightarrow> ('p, 'c) dag_world" where
  "dag_open cp g input_data config w =
     (let run = astream g cp config (case input_data of PyDict d \<Rightarrow> Some d | _ \<Rightarrow> None) (dw_store w) (dw_states w)
      in w\<lparr>dw_store := dr_store run, dw_states := dr_states run, dw_yields := map (\<lambda>(n, d). [(n, PyDict d)]) (dr_yields run),
           dw_raised := dr_raised run\<rparr>)"

definition dag_anext :: "(real \<Rightarrow> 'p \<Rightarrow> bool) \<Rightarrow> real option \<Rightarrow> ('p, 'c) dag_world \<Rightarrow> (sched_exc + graph_chunk option) \<times> ('p, 'c) dag_world" where
  "dag_anext too_slow limit w =
     (if (case limit of None \<Rightarrow> False | Some l \<Rightarrow> too_slow l (dw_host w)) then (Inl (TimeoutExc []), w)
      else case dw_yields w of
             y # ys \<Rightarrow> (Inr (Some y), w\<lparr>dw_yields := ys\<rparr>)
           | [] \<Rightarrow> (case dw_raised w of None \<Rightarrow> (Inr None, w) | Some e \<Rightarrow> (Inl (OtherExc (dag_exc_str e)), w)))"

definition dag_env ::
  "(real \<Rightarrow> 'p \<Rightarrow> bool) \<Rightarrow> 'c checkpointer option \<Rightarrow> ('h, 'p) sched_env \<Rightarrow> (MiniDAG, ('p, 'c) dag_world) sched_env" where
  "dag_env too_slow cp host =
     \<lparr>se_get_task = on_host (se_get_task host), se_update_status = (\<lambda>s. on_host (se_update_status host s)),
      se_abort_task = (\<lambda>m. on_host (se_abort_task host m)), se_set_error = (\<lambda>m. on_host (se_set_error host m)),
      se_append = on_host (se_append host), se_clock = on_host (se_clock host), se_open = dag_open cp, se_anext = dag_anext too_slow,
      se_aget_state = (\<lambda>g config w. Inr (aget_state cp config (dw_store w) (dw_states w))), se_aget_tuple = None\<rparr>"

interpretation dag_runner: draining_stream "dag_env too_slow cp host" "length \<circ> dw_yields"
  by unfold_locales
    (auto simp: dag_env_def dag_anext_def on_host_def split: option.splits prod.splits list.splits if_splits)

lemma run_loop_short: "length (dr_yields (run_loop d cp tid n cur st store states)) \<le> n"
proof (induction n arbitrary: cur st store states)
  case (Suc n)
  then show ?case by (cases cur) (auto simp: stopped_def Let_def split: sum.splits)
qed (simp add: stopped_def)

lemma dag_open_short: "length (dw_yields (dag_open cp g inp config w)) \<le> MAX_STEPS"
  using run_loop_short by (auto simp: dag_open_def astream_def astream_upto_def Let_def split: prod.splits)

section \<open>Properties\<close>

text \<open>
  A superseded runner is fenced off.  Whatever happens to a task between two steps of a runner, each chunk is delivered on a
  reading of the task that carries the runner's token; the task is completed on a reading that carries it, is not
  completed yet, and with a final state that has an output; it is failed or aborted only if the last
  reading failed or carries the token and the task was neither completed, suspended nor aborted; and the report is announced
  only right after the completion.  Only the opening transition to running is not fenced.
\<close>

theorem runner_fenced:
  assumes "execute fuel str_of env resolver task_id inp pid config token wall s \<lparr>sr_world = w, sr_trace = []\<rparr> = Some (res, s1, r)"
    and "i < length (sr_trace r)"
  shows "action_fenced token (take i (sr_trace r)) (sr_trace r ! i)"
proof -
  let ?r0 = "\<lparr>sr_world = w, sr_trace = []\<rparr>"
  have z: "fenced token ?r0" by (simp add: fenced_def)
  obtain x r1 where a: "read_task env ?r0 = (x, r1)" by fastforce
  note f = read_task_fenced [OF a z]
  have "fenced token r"
  proof (cases x)
    case (Inl e)
    then show ?thesis using assms(1) a f by (auto simp: execute_def)
  next
    case (Inr t)
    have tr: "sr_trace r1 = [ReadTask (Some t)]" using a Inr by (auto simp: read_task_def split: prod.splits sum.splits)
    obtain y r2 where u: "(if tsk_status t \<noteq> RUNNING then update_task (SetStatus RUNNING) (se_update_status env RUNNING) r1 else (None, r1)) = (y, r2)"
      by fastforce
    have "fenced token r2"
    proof (cases "tsk_status t = RUNNING")
      case False
      then have "update_task (SetStatus RUNNING) (se_update_status env RUNNING) r1 = (y, r2)" using u by simp
      from update_task_fenced [OF this, of token] show ?thesis using f tr Inr False by simp
    qed (use u f in auto)
    then show ?thesis using assms(1) a Inr u
      by (auto simp: execute_def split: option.splits sum.splits prod.splits dest: run_graph_fenced)
  qed
  then show ?thesis using assms(2) by (simp add: fenced_def)
qed

text \<open>
  A task over a compiled graph ends.  With the fuel of one more than the step limit of the graph engine, \<open>execute\<close>
  returns or raises, whatever the process manager, the event store and the clock do.
\<close>

theorem scheduled_run_ends:
  assumes "MAX_STEPS < fuel"
  shows "\<exists>out. execute fuel str_of (dag_env too_slow cp host) resolver task_id inp pid config token wall s r = Some out"
proof -
  let ?env = "dag_env too_slow cp host"
  have c: "\<exists>out. consume_stream fuel ?env task_id token wl deadline (q\<lparr>sr_world := se_open ?env g inp cfg w\<rparr>) = Some out" for wl deadline q g cfg w
  proof (rule dag_runner.consume_stream_ends)
    show "(length \<circ> dw_yields) (sr_world (q\<lparr>sr_world := se_open ?env g inp cfg w\<rparr>)) < fuel"
      using dag_open_short [of cp g inp cfg w] assms by (simp add: dag_env_def)
  qed
  have "\<exists>out. run_graph fuel str_of ?env task_id token wl graph inp cfg q = Some out" for wl graph cfg q
  proof (cases graph)
    case (Some g)
    obtain deadline w1 where d: "(case wl of None \<Rightarrow> (None, sr_world q)
        | Some n \<Rightarrow> (case se_clock ?env (sr_world q) of (now, w) \<Rightarrow> (Some (now + of_int n), w))) = (deadline, w1)" by fastforce
    obtain x r2 where "consume_stream fuel ?env task_id token wl deadline (q\<lparr>sr_world := se_open ?env g inp cfg w1\<rparr>) = Some (x, r2)"
      using c by fastforce
    then show ?thesis using Some d by (cases x) (simp_all add: run_graph_def Let_def)
  qed (simp add: run_graph_def)
  then show ?thesis
    by (auto simp: execute_def split: sum.splits prod.splits option.splits)
qed

text \<open>
  A graph is compiled once.  A graph that a lookup returned is returned again by every later lookup of the same pipeline, without
  another change of the scheduler, whatever pipelines are looked up in between.
\<close>

theorem graph_compiled_once:
  assumes "get_graph pid s = (Inr g, s1)"
  shows "get_graph pid (fold (\<lambda>p s. snd (get_graph p s)) others s1) = (Inr g, fold (\<lambda>p s. snd (get_graph p s)) others s1)"
  by (rule get_graph_stays_fold) (rule get_graph_again [OF assms])


text \<open>
  A timeout inside a node aborts the task.  Without any wall time, a \<open>TimeoutError\<close> that a node of the graph raises is taken
  for the end of the wall time: the task is aborted with a message that names a limit of \<open>None\<close> seconds, not failed with
  the error of the node.
\<close>

theorem node_timeout_aborts:
  assumes "\<And>w. se_get_task env w = (Inr t, w)" and "tsk_status t = RUNNING" and "\<not> is_stale_execution token t"
    and "get_graph pid s = (Inr (Some g), s1)" and "resolver wall pid = None"
    and "se_anext env None (se_open env g inp (tsk_thread_id t) w) = (Inl (TimeoutExc m), w1)"
    and "se_abort_task env (''task '' @ task_id @ '' wall-time exceeded after Nones'') w1 = (None, w2)"
  shows "execute (Suc fuel) str_of env resolver task_id inp pid None token wall s \<lparr>sr_world = w, sr_trace = []\<rparr> =
    Some (Some (TaskWallTimeExceeded (''task '' @ task_id @ '' wall-time exceeded after Nones'')), s1,
      \<lparr>sr_world = w2, sr_trace = [ReadTask (Some t), ReadTask (Some t), AbortTask (''task '' @ task_id @ '' wall-time exceeded after Nones'')]\<rparr>)"
  using assms
  by (simp add: execute_def read_task_def log_act_def run_graph_def wall_anext_def wall_message_def settle_failure_def halted_def update_task_def)

text \<open>
  An abort is overwritten.  When a task is aborted while a runner reads the final state, the runner sees the abort in its last reading
  and completes the task all the same, although it skips the completion of a task that it finds aborted one reading earlier.
\<close>

theorem abort_overwritten:
  assumes "se_get_task env w0 = (Inr t0, w1)" and "tsk_status t0 = RUNNING"
    and "get_graph pid s = (Inr (Some g), s1)" and "resolver wall pid = None"
    and "se_anext env None (se_open env g inp (tsk_thread_id t0) w1) = (Inr None, w2)"
    and "se_get_task env w2 = (Inr t1, w3)" and "tsk_status t1 = RUNNING" and "\<not> is_stale_execution token t1"
    and "has_terminal_output (get_state_for_config env (Some g) (tsk_thread_id t0) w3)"
    and "se_get_task env w3 = (Inr t2, w4)" and "tsk_status t2 = ABORTED" and "\<not> is_stale_execution token t2"
    and "se_update_status env COMPLETED w4 = (None, w5)" and "se_append env w5 = (None, w6)"
  shows "execute (Suc fuel) str_of env resolver task_id inp pid None token wall s \<lparr>sr_world = w0, sr_trace = []\<rparr> =
    Some (None, s1, \<lparr>sr_world = w6, sr_trace = [ReadTask (Some t0), ReadTask (Some t1),
      FinalState (get_state_for_config env (Some g) (tsk_thread_id t0) w3), ReadTask (Some t2), SetStatus COMPLETED, ReportGenerated]\<rparr>)"
  using assms
  by (simp add: execute_def read_task_def log_act_def run_graph_def wall_anext_def complete_task_def report_done_def halted_def update_task_def Let_def)

section \<open>Examples\<close>

definition demo_task :: "TaskStatus \<Rightarrow> SchedulerTask" where
  "demo_task s = \<lparr>tsk_status = s, tsk_thread_id = ''th'', tsk_pipeline_id = None, tsk_context = [(''active_execution_token'', PyStr ''k'')]\<rparr>"

text \<open>A world that counts the readings of the task: the third finds it aborted.\<close>

definition demo_sched_env :: "(sched_exc + graph_chunk option) \<Rightarrow> (nat \<Rightarrow> TaskStatus) \<Rightarrow> (unit, nat) sched_env" where
  "demo_sched_env pull status =
     \<lparr>se_get_task = (\<lambda>n. (Inr (demo_task (status n)), n + 1)), se_update_status = (\<lambda>s n. (None, n)), se_abort_task = (\<lambda>m n. (None, n)),
      se_set_error = (\<lambda>m n. (None, n)), se_append = (\<lambda>n. (None, n)), se_clock = (\<lambda>n. (0, n)), se_open = (\<lambda>g i c n. n),
      se_anext = (\<lambda>l n. (pull, n)), se_aget_state = (\<lambda>g c n. Inr [(''report'', PyStr ''done'')]), se_aget_tuple = None\<rparr>"

definition demo_scheduler :: "(unit, unit) Scheduler" where
  "demo_scheduler = \<lparr>sd_default_graph = Some (), sd_pipelines = None, sd_builder = None, sd_compiled_cache = [], sd_agents = None\<rparr>"

lemma demo_tools:
  "get_graph None demo_scheduler = (Inr (Some ()), demo_scheduler)" "\<not> is_stale_execution (Some ''k'') (demo_task st)"
  "tsk_status (demo_task st) = st" "tsk_thread_id (demo_task st) = ''th''"
  by (simp_all add: get_graph_def demo_scheduler_def is_stale_execution_def demo_task_def get_or_none_def)

lemma demo_output: "has_terminal_output (get_state_for_config (demo_sched_env pull st) (Some ()) c n)"
  by (simp add: get_state_for_config_def demo_sched_env_def has_terminal_output_def get_or_none_def str_strip_def is_space_def)

theorem abort_overwritten_witness:
  "\<exists>r. execute 1 (\<lambda>v. []) (demo_sched_env (Inr None) (\<lambda>n. if n = 2 then ABORTED else RUNNING)) (\<lambda>w p. None) ''t'' PyNone None None (Some ''k'')
     None demo_scheduler \<lparr>sr_world = 0, sr_trace = []\<rparr> = Some (None, demo_scheduler, r)
   \<and> drop 3 (sr_trace r) = [ReadTask (Some (demo_task ABORTED)), SetStatus COMPLETED, ReportGenerated]"
proof -
  let ?env = "demo_sched_env (Inr None) (\<lambda>n. if n = 2 then ABORTED else RUNNING)"
  note f = abort_overwritten [where env = ?env and ?w0.0 = 0 and ?w1.0 = 1 and ?w2.0 = 1 and ?w3.0 = 2 and ?w4.0 = 3 and ?w5.0 = 3 and ?w6.0 = 3
      and ?t0.0 = "demo_task RUNNING" and ?t1.0 = "demo_task RUNNING" and ?t2.0 = "demo_task ABORTED" and pid = None and s = demo_scheduler
      and ?s1.0 = demo_scheduler and g = "()" and token = "Some ''k''" and resolver = "\<lambda>w p. None" and fuel = 0]
  show ?thesis
    by (rule exI, rule conjI, subst One_nat_def, rule f) (simp_all add: demo_tools demo_output, simp_all add: demo_sched_env_def)
qed

theorem node_timeout_aborts_witness:
  "\<exists>r. execute 1 (\<lambda>v. []) (demo_sched_env (Inl (TimeoutExc ''node'')) (\<lambda>n. RUNNING)\<lparr>se_get_task := \<lambda>n. (Inr (demo_task RUNNING), n)\<rparr>)
     (\<lambda>w p. None) ''t'' PyNone None None (Some ''k'') None demo_scheduler \<lparr>sr_world = 0, sr_trace = []\<rparr>
     = Some (Some (TaskWallTimeExceeded ''task t wall-time exceeded after Nones''), demo_scheduler, r)
   \<and> last (sr_trace r) = AbortTask ''task t wall-time exceeded after Nones''"
proof -
  let ?env = "demo_sched_env (Inl (TimeoutExc ''node'')) (\<lambda>n. RUNNING)\<lparr>se_get_task := \<lambda>n. (Inr (demo_task RUNNING), n)\<rparr>"
  have "execute (Suc 0) (\<lambda>v. []) ?env (\<lambda>w p. None) ''t'' PyNone None None (Some ''k'') None demo_scheduler \<lparr>sr_world = 0, sr_trace = []\<rparr> =
    Some (Some (TaskWallTimeExceeded (''task '' @ ''t'' @ '' wall-time exceeded after Nones'')), demo_scheduler,
      \<lparr>sr_world = 0, sr_trace = [ReadTask (Some (demo_task RUNNING)), ReadTask (Some (demo_task RUNNING)),
        AbortTask (''task '' @ ''t'' @ '' wall-time exceeded after Nones'')]\<rparr>)"
    by (rule node_timeout_aborts [where g = "()" and ?w1.0 = 0 and m = "''node''"])
      (simp_all add: demo_tools, simp_all add: demo_sched_env_def)
  then show ?thesis by simp
qed

definition demo_run_done :: "(sched_exc option \<times> (unit, unit) Scheduler \<times> nat sched_run) option" where
  "demo_run_done = execute 2 (\<lambda>v. []) (demo_sched_env (Inr None) (\<lambda>n. if n = 0 then CREATED else RUNNING)) (\<lambda>w p. None) ''t'' PyNone None None (Some ''k'')
     None demo_scheduler \<lparr>sr_world = 0, sr_trace = []\<rparr>"

fun completes_sixth :: "(sched_exc option \<times> (unit, unit) Scheduler \<times> nat sched_run) option \<Rightarrow> bool" where
  "completes_sixth (Some (None, s, r)) = (length (sr_trace r) = 7 \<and> sr_trace r ! 5 = SetStatus COMPLETED)"
| "completes_sixth x = False"

theorem runner_fenced_witness:
  "\<exists>s r. demo_run_done = Some (None, s, r) \<and> sr_trace r ! 5 = SetStatus COMPLETED \<and> action_fenced (Some ''k'') (take 5 (sr_trace r)) (sr_trace r ! 5)"
proof -
  have "completes_sixth demo_run_done" by code_simp
  then obtain s r where r: "demo_run_done = Some (None, s, r)" "length (sr_trace r) = 7" "sr_trace r ! 5 = SetStatus COMPLETED"
    by (auto elim: completes_sixth.elims(2))
  have "5 < length (sr_trace r)" using r(2) by simp
  from runner_fenced [OF r(1) [unfolded demo_run_done_def] this] r show ?thesis by blast
qed

theorem scheduled_run_ends_witness:
  "\<exists>out. execute 101 (\<lambda>v. []) (dag_env (\<lambda>l p. False) (Some ex_checkpointer) (demo_sched_env (Inr None) (\<lambda>n. RUNNING))) (\<lambda>w p. None) ''t'' (PyDict []) None None
     None None \<lparr>sd_default_graph = Some ex_dag, sd_pipelines = (None :: unit pipeline_spec pydict option), sd_builder = None, sd_compiled_cache = [], sd_agents = None\<rparr>
     \<lparr>sr_world = \<lparr>dw_host = 0, dw_store = [], dw_states = [], dw_yields = [], dw_raised = None\<rparr>, sr_trace = []\<rparr> = Some out"
  by (rule scheduled_run_ends) (simp add: MAX_STEPS_def)

theorem graph_compiled_once_witness:
  "get_graph (Some ''a'') (fold (\<lambda>p s. snd (get_graph p s)) [None, Some ''a'']
     \<lparr>sd_default_graph = None, sd_pipelines = Some [(''a'', \<lparr>psp_pipeline_id = ''a'', psp_agents = [(''r'', ())]\<rparr>)], sd_builder = Some (\<lambda>spec. Inr (7 :: nat)),
      sd_compiled_cache = [(''a'', 7)], sd_agents = Some [(''r'', ())]\<rparr>) =
   (Inr (Some 7), fold (\<lambda>p s. snd (get_graph p s)) [None, Some ''a'']
     \<lparr>sd_default_graph = None, sd_pipelines = Some [(''a'', \<lparr>psp_pipeline_id = ''a'', psp_agents = [(''r'', ())]\<rparr>)], sd_builder = Some (\<lambda>spec. Inr (7 :: nat)),
      sd_compiled_cache = [(''a'', 7)], sd_agents = Some [(''r'', ())]\<rparr>)"
  by (rule graph_compiled_once [where s = "\<lparr>sd_default_graph = None, sd_pipelines = Some [(''a'', \<lparr>psp_pipeline_id = ''a'', psp_agents = [(''r'', ())]\<rparr>)],
        sd_builder = Some (\<lambda>spec. Inr (7 :: nat)), sd_compiled_cache = [], sd_agents = Some []\<rparr>"])
    (simp add: get_graph_def register_pipeline_agents_def)

end
