(* ===== verification/Recovery.thy ===== *)
theory Recovery
  imports Loop_History Context_Budget
begin

text \<open>
  The request that rescues an answer from a damaged history (\<^verbatim>\<open>components/finalization/recovery.py\<close>): the check of
  a history for broken tool protocol, and the flat context that replaces it.  The scrubbers of a workflow,
  its prefixes and labels, the estimator of tokens and \<open>str\<close> of a value that is not a string are parameters, as is the
  Chinese wording of the last answer.
\<close>

section \<open>Tool protocol\<close>

text \<open>\<open>str(v or "")\<close>\<close>

definition text_or_empty :: "(pyval \<Rightarrow> string) \<Rightarrow> pyval \<Rightarrow> string" where
  "text_or_empty str_of v = (if truthy v then py_format str_of v else [])"

definition message_role :: "(pyval \<Rightarrow> string) \<Rightarrow> message \<Rightarrow> string" where
  "message_role str_of d = text_or_empty str_of (get_or_none d ''role'')"

definition stripped_id :: "(pyval \<Rightarrow> string) \<Rightarrow> pyval \<Rightarrow> string" where
  "stripped_id str_of v = str_strip (text_or_empty str_of v)"

text \<open>The identifier of a well-formed call that was not announced before.\<close>

definition announced_id :: "(pyval \<Rightarrow> string) \<Rightarrow> string list \<Rightarrow> pyval \<Rightarrow> string option" where
  "announced_id str_of ids call =
     (case call of
        PyDict c \<Rightarrow>
          (let i = stripped_id str_of (get_or_none c ''id'') in
           case get_or_none c ''function'' of
             PyDict f \<Rightarrow>
               if i = [] \<or> i \<in> set ids \<or> str_strip (text_or_empty str_of (get_or_none f ''name'')) = []
                  \<or> get_or_none f ''arguments'' \<in> {PyNone, PyStr []}
               then None else Some i
           | _ \<Rightarrow> None)
      | _ \<Rightarrow> None)"

fun announced_ids :: "(pyval \<Rightarrow> string) \<Rightarrow> string list \<Rightarrow> pyval list \<Rightarrow> string list option" where
  "announced_ids str_of ids [] = Some ids"
| "announced_ids str_of ids (c # cs) =
     (case announced_id str_of ids c of None \<Rightarrow> None | Some i \<Rightarrow> announced_ids str_of (ids @ [i]) cs)"

text \<open>The loop of the check; \<open>True\<close> is malformed.\<close>

fun protocol_scan :: "(pyval \<Rightarrow> string) \<Rightarrow> string list \<Rightarrow> string list \<Rightarrow> pyval list \<Rightarrow> bool" where
  "protocol_scan str_of expected seen [] = (expected \<noteq> [] \<and> set seen \<noteq> set expected)"
| "protocol_scan str_of expected seen (m # ms) =
     (case m of
        PyDict d \<Rightarrow>
          if message_role str_of d = ''tool'' then
            let i = stripped_id str_of (get_or_none d ''tool_call_id'') in
            if i = [] \<or> i \<notin> set expected \<or> i \<in> set seen then True else protocol_scan str_of expected (i # seen) ms
          else if expected \<noteq> [] \<and> set seen \<noteq> set expected then True
          else
            let seen1 = (if expected \<noteq> [] then [] else seen); calls = get_or_none d ''tool_calls'' in
            if \<not> truthy calls then protocol_scan str_of [] seen1 ms
            else if message_role str_of d \<noteq> ''assistant'' then True
            else (case calls of
                    PyList cs \<Rightarrow> (case announced_ids str_of [] cs of None \<Rightarrow> True | Some ids \<Rightarrow> protocol_scan str_of ids seen1 ms)
                  | _ \<Rightarrow> True)
      | _ \<Rightarrow> True)"

definition has_malformed_tool_protocol :: "(pyval \<Rightarrow> string) \<Rightarrow> pyval list \<Rightarrow> bool" where
  "has_malformed_tool_protocol str_of ms = protocol_scan str_of [] [] ms"

section \<open>The recovery context\<close>

definition is_recovery_nudge :: "string \<Rightarrow> string list \<Rightarrow> bool" where
  "is_recovery_nudge content prefs =
     (let stripped = dropWhile is_space content in
      prefix ''Warning: ~'' stripped \<and> sublist ''wall-clock deadline'' stripped \<or> list_ex (\<lambda>p. prefix p stripped) prefs)"

record recovery_cfg =
  rv_strip_thinking :: "string \<Rightarrow> string"
  rv_strip_leaked :: "string \<Rightarrow> string"
  rv_nudge_prefixes :: "string list"
  rv_empty_fallback :: string
  rv_labels :: "string pydict"
  rv_fixed_prompt :: string
  rv_context_max_chars :: int
  rv_item_max_chars :: nat
  rv_context_max_tokens :: "int option"

definition DEFAULT_RECOVERY_LABELS :: "string pydict" where
  "DEFAULT_RECOVERY_LABELS =
     [(''system'', ''System guidance''), (''assistant'', ''Visible agent draft''), (''tool'', ''Observed tool result''),
      (''user'', ''User instruction'')]"

text \<open>The visible text of a message, if it is to be replayed at all.\<close>

definition replayed_text :: "recovery_cfg \<Rightarrow> string \<Rightarrow> string \<Rightarrow> string option" where
  "replayed_text c role content =
     (if role = ''system'' \<or> role = ''tool'' then Some content
      else if role = ''assistant'' then Some (rv_strip_thinking c content)
      else if role = ''user'' then if is_recovery_nudge content (rv_nudge_prefixes c) then None else Some content
      else None)"

text \<open>The entry of a message, with a flag for system guidance.\<close>

definition recovery_entry :: "(pyval \<Rightarrow> string) \<Rightarrow> recovery_cfg \<Rightarrow> pyval \<Rightarrow> (bool \<times> string) option" where
  "recovery_entry str_of c m =
     (case m of
        PyDict d \<Rightarrow>
          (let role = message_role str_of d in
           case replayed_text c role (text_of str_of (get_or_none d ''content'')) of
             None \<Rightarrow> None
           | Some s \<Rightarrow>
               let s1 = str_strip (rv_strip_leaked c s);
                   s2 = (if rv_context_max_tokens c = None then take (rv_item_max_chars c) s1 else s1)
               in if s1 = [] then None
                  else Some (role = ''system'', ''['' @ dict_get_default (rv_labels c) role role @ '']'' @ [char_of (10::nat)] @ s2))
      | _ \<Rightarrow> None)"

fun fit_system :: "int \<Rightarrow> int \<Rightarrow> bool \<Rightarrow> string list \<Rightarrow> string list \<times> int" where
  "fit_system limit used any [] = ([], used)"
| "fit_system limit used any (e # es) =
     (if any \<and> limit < used + int (length e) then ([], used)
      else case fit_system limit (used + int (length e)) True es of (sel, u) \<Rightarrow> (e # sel, u))"

fun fit_recent :: "int \<Rightarrow> int \<Rightarrow> bool \<Rightarrow> string list \<Rightarrow> string list" where
  "fit_recent limit used any [] = []"
| "fit_recent limit used any (e # es) =
     (if limit < used + int (length e) then if any then [] else fit_recent limit used any es
      else e # fit_recent limit (used + int (length e)) True es)"

definition TRUNCATION_MARKER :: string where
  "TRUNCATION_MARKER = char_of (10::nat) # ''[... older context truncated for reporter input limit ...]''"

fun fit_tokens :: "(string \<Rightarrow> int) \<Rightarrow> int \<Rightarrow> bool \<Rightarrow> string list \<Rightarrow> string list \<times> int" where
  "fit_tokens est left any [] = ([], left)"
| "fit_tokens est left any (e # es) =
     (if est e \<le> left then case fit_tokens est (left - est e) True es of (sel, l) \<Rightarrow> (e # sel, l)
      else if \<not> any \<and> 128 < left then ([truncate_text_to_tokens est TRUNCATION_MARKER Head e left], 0)
      else ([], left))"

definition select_entries :: "(string \<Rightarrow> int) \<Rightarrow> recovery_cfg \<Rightarrow> string list \<Rightarrow> string list \<Rightarrow> string list \<times> string list" where
  "select_entries est c system_entries entries =
     (case rv_context_max_tokens c of
        None \<Rightarrow>
          (case fit_system (rv_context_max_chars c) 0 False system_entries of
             (sel, used) \<Rightarrow> (sel, fit_recent (rv_context_max_chars c) used False (rev entries)))
      | Some n \<Rightarrow>
          (case fit_tokens est (max 1024 (n - est (rv_fixed_prompt c))) False system_entries of
             (sel, left) \<Rightarrow> (sel, fst (fit_tokens est left False (rev entries)))))"

definition build_recovery_context :: "(pyval \<Rightarrow> string) \<Rightarrow> (string \<Rightarrow> int) \<Rightarrow> recovery_cfg \<Rightarrow> pyval list \<Rightarrow> string" where
  "build_recovery_context str_of est c messages =
     (let found = List.map_filter (recovery_entry str_of c) messages;
          (sys, recent) = select_entries est c (map snd (filter fst found)) (map snd (filter (Not \<circ> fst) found));
          out = str_join [char_of (10::nat), char_of (10::nat)] (sys @ rev recent)
      in if out \<noteq> [] then out else rv_empty_fallback c)"

section \<open>The rescue call and the last answer\<close>

text \<open>The legs of a client that has a list of entries, and the two timeouts of the rescue call.\<close>

definition fallback_leg_count :: "nat option \<Rightarrow> nat" where
  "fallback_leg_count entries = (case entries of Some n \<Rightarrow> max 1 n | None \<Rightarrow> 1)"

definition rescue_timeouts :: "real \<Rightarrow> nat option \<Rightarrow> real \<times> real" where
  "rescue_timeouts per_leg_timeout_s entries =
     (let t = max per_leg_timeout_s 1 in (t, t * real (fallback_leg_count entries) + 5))"

definition minimal_best_effort_answer :: "(char \<Rightarrow> bool) \<Rightarrow> (string \<Rightarrow> string) \<Rightarrow> string \<Rightarrow> string \<Rightarrow> string \<Rightarrow> string" where
  "minimal_best_effort_answer is_cjk chinese_answer task_description stopped_by language =
     (let label = str_lower (str_strip language);
          chinese = (if label \<noteq> [] then sublist ''chinese'' label \<or> label \<in> {''zh'', ''zh-cn'', ''zh-hans''}
                     else list_ex is_cjk task_description);
          marker = (if stopped_by \<noteq> [] then stopped_by else ''execution_limit'')
      in if chinese then chinese_answer marker
         else ''## Best available result'' @ [char_of (10::nat), char_of (10::nat)]
           @ ''Execution was finalized from the progress available at the limit. Any files already present in the workspace and output ''
           @ ''directory have been preserved. The final synthesis did not yield a reliable verified conclusion, so no unsupported result is ''
           @ ''asserted here. If the output directory is empty, the task did not reach a verifiable complete deliverable (stop marker: ''
           @ [CHR 0x60] @ marker @ [CHR 0x60] @ '').'')"

section \<open>What the check accepts\<close>

text \<open>
  A history as a sequence of turns: a message without calls, or an assistant message with calls beneath which exactly
  one answer per call stands.
\<close>

definition tool_entry :: "(pyval \<Rightarrow> string) \<Rightarrow> pyval \<Rightarrow> bool" where
  "tool_entry str_of m = (case m of PyDict d \<Rightarrow> message_role str_of d = ''tool'' | _ \<Rightarrow> False)"

fun answer_key :: "(pyval \<Rightarrow> string) \<Rightarrow> pyval \<Rightarrow> string" where
  "answer_key str_of (PyDict d) = stripped_id str_of (get_or_none d ''tool_call_id'')"
| "answer_key str_of v = []"

inductive clean :: "(pyval \<Rightarrow> string) \<Rightarrow> pyval list \<Rightarrow> bool" for str_of where
  clean_Nil: "clean str_of []"
| clean_plain: "message_role str_of d \<noteq> ''tool'' \<Longrightarrow> \<not> truthy (get_or_none d ''tool_calls'') \<Longrightarrow> clean str_of ms \<Longrightarrow>
    clean str_of (PyDict d # ms)"
| clean_calls: "message_role str_of d = ''assistant'' \<Longrightarrow> get_or_none d ''tool_calls'' = PyList cs \<Longrightarrow> cs \<noteq> [] \<Longrightarrow>
    announced_ids str_of [] cs = Some ids \<Longrightarrow> list_all (tool_entry str_of) answers \<Longrightarrow>
    distinct (map (answer_key str_of) answers) \<Longrightarrow> answer_key str_of ` set answers = set ids \<Longrightarrow> clean str_of ms \<Longrightarrow>
    clean str_of (PyDict d # answers @ ms)"


lemma announced_id_Some:
  assumes "announced_id str_of ids c = Some i"
  shows "i \<noteq> [] \<and> i \<notin> set ids \<and> (\<exists>d. c = PyDict d \<and> i = stripped_id str_of (get_or_none d ''id''))"
  using assms by (auto simp: announced_id_def Let_def split: pyval.splits if_splits)

lemma announced_ids_props:
  assumes "announced_ids str_of ids cs = Some out" and "distinct ids" and "[] \<notin> set ids"
  shows "distinct out \<and> [] \<notin> set out \<and> length out = length ids + length cs
    \<and> set out = set ids \<union> (\<lambda>d. stripped_id str_of (get_or_none d ''id'')) ` set (dicts_of cs)"
  using assms
proof (induction cs arbitrary: ids)
  case (Cons c cs)
  then obtain i d where i: "announced_id str_of ids c = Some i" "announced_ids str_of (ids @ [i]) cs = Some out"
    "i \<noteq> []" "i \<notin> set ids" "c = PyDict d" "i = stripped_id str_of (get_or_none d ''id'')"
    using announced_id_Some by (auto split: option.splits) blast
  have "distinct out \<and> [] \<notin> set out \<and> length out = length (ids @ [i]) + length cs
    \<and> set out = set (ids @ [i]) \<union> (\<lambda>d. stripped_id str_of (get_or_none d ''id'')) ` set (dicts_of cs)"
    by (rule Cons.IH) (use i Cons.prems in auto)
  then show ?case using i by auto
qed auto

lemma scan_open_iff:
  assumes "E \<noteq> []" and "[] \<notin> set E" and "set S \<subseteq> set E"
  shows "\<not> protocol_scan str_of E S ms \<longleftrightarrow>
    (\<exists>answers rest. ms = answers @ rest \<and> list_all (tool_entry str_of) answers \<and> distinct (map (answer_key str_of) answers)
       \<and> answer_key str_of ` set answers \<inter> set S = {} \<and> answer_key str_of ` set answers \<union> set S = set E \<and> \<not> protocol_scan str_of [] [] rest)"
    (is "_ \<longleftrightarrow> ?split S ms")
  using assms(3)
proof (induction ms arbitrary: S)
  case Nil
  show ?case using assms(1) by auto
next
  case (Cons m ms)
  show ?case
  proof (cases "tool_entry str_of m")
    case True
    then obtain d where d: "m = PyDict d" "message_role str_of d = ''tool''" by (auto simp: tool_entry_def split: pyval.splits)
    let ?i = "answer_key str_of m"
    have bad: "protocol_scan str_of [] [] (m # xs)" for xs using d by (simp add: Let_def)
    have split: "?split S (m # ms) \<longleftrightarrow> ?i \<in> set E \<and> ?i \<notin> set S \<and> ?split (?i # S) ms"
    proof
      assume "?split S (m # ms)"
      then obtain answers rest where a: "m # ms = answers @ rest" "list_all (tool_entry str_of) answers"
        "distinct (map (answer_key str_of) answers)" "answer_key str_of ` set answers \<inter> set S = {}"
        "answer_key str_of ` set answers \<union> set S = set E" "\<not> protocol_scan str_of [] [] rest" by blast
      then obtain as where as: "answers = m # as" "ms = as @ rest" using bad by (cases answers) auto
      then show "?i \<in> set E \<and> ?i \<notin> set S \<and> ?split (?i # S) ms"
        using a by (intro conjI exI [of _ as] exI [of _ rest]) auto
    next
      assume r: "?i \<in> set E \<and> ?i \<notin> set S \<and> ?split (?i # S) ms"
      then obtain as rest where "ms = as @ rest" "list_all (tool_entry str_of) as"
        "distinct (map (answer_key str_of) as)" "answer_key str_of ` set as \<inter> set (?i # S) = {}"
        "answer_key str_of ` set as \<union> set (?i # S) = set E" "\<not> protocol_scan str_of [] [] rest" by blast
      then show "?split S (m # ms)" using r True by (intro exI [of _ "m # as"] exI [of _ rest]) auto
    qed
    have "\<not> protocol_scan str_of E S (m # ms) \<longleftrightarrow> ?i \<in> set E \<and> ?i \<notin> set S \<and> \<not> protocol_scan str_of E (?i # S) ms"
      using d assms(2) by (auto simp: Let_def)
    moreover have "\<not> protocol_scan str_of E (?i # S) ms \<longleftrightarrow> ?split (?i # S) ms" if "?i \<in> set E"
      by (rule Cons.IH) (use Cons.prems that in auto)
    ultimately show ?thesis unfolding split by blast
  next
    case False
    have "?split S (m # ms) \<longleftrightarrow> set S = set E \<and> \<not> protocol_scan str_of [] [] (m # ms)"
    proof
      assume "?split S (m # ms)"
      then obtain answers rest where a: "m # ms = answers @ rest" "list_all (tool_entry str_of) answers"
        "answer_key str_of ` set answers \<union> set S = set E" "\<not> protocol_scan str_of [] [] rest" by blast
      then have "answers = []" using False by (cases answers) auto
      then show "set S = set E \<and> \<not> protocol_scan str_of [] [] (m # ms)" using a by simp
    next
      assume "set S = set E \<and> \<not> protocol_scan str_of [] [] (m # ms)"
      then show "?split S (m # ms)" by (intro exI [of _ "[]"] exI [of _ "m # ms"]) auto
    qed
    moreover have "\<not> protocol_scan str_of E S (m # ms) \<longleftrightarrow> set S = set E \<and> \<not> protocol_scan str_of [] [] (m # ms)"
      using False assms(1) by (auto simp: tool_entry_def Let_def split: pyval.splits)
    ultimately show ?thesis by blast
  qed
qed

lemma scan_closed_iff:
  "\<not> protocol_scan str_of [] [] (PyDict d # ms) \<longleftrightarrow>
     message_role str_of d \<noteq> ''tool'' \<and> (\<not> truthy (get_or_none d ''tool_calls'') \<and> \<not> protocol_scan str_of [] [] ms
       \<or> message_role str_of d = ''assistant'' \<and> (\<exists>cs ids. get_or_none d ''tool_calls'' = PyList cs \<and> cs \<noteq> []
            \<and> announced_ids str_of [] cs = Some ids \<and> \<not> protocol_scan str_of ids [] ms))"
  by (auto simp: Let_def split: pyval.splits option.splits)

lemma clean_scan: "clean str_of ms \<Longrightarrow> \<not> protocol_scan str_of [] [] ms"
proof (induction rule: clean.induct)
  case (clean_plain d ms)
  then show ?case by (simp only: scan_closed_iff) blast
next
  case (clean_calls d cs ids answers ms)
  have p: "[] \<notin> set ids" "ids \<noteq> []" using announced_ids_props [OF clean_calls(4)] clean_calls(3) by auto
  have "\<not> protocol_scan str_of ids [] (answers @ ms)"
    unfolding scan_open_iff [OF p(2,1), of "[]", simplified] using clean_calls by blast
  then show ?case using clean_calls(1-4) unfolding scan_closed_iff by auto
qed simp

lemma scan_clean: "\<not> protocol_scan str_of [] [] ms \<Longrightarrow> clean str_of ms"
proof (induction "length ms" arbitrary: ms rule: less_induct)
  case less
  show ?case
  proof (cases ms)
    case (Cons m rest)
    then obtain d where d: "m = PyDict d" using less.prems by (auto split: pyval.splits)
    show ?thesis
    proof (cases "truthy (get_or_none d ''tool_calls'')")
      case False
      then have "message_role str_of d \<noteq> ''tool'' \<and> \<not> protocol_scan str_of [] [] rest"
        using less.prems unfolding Cons d scan_closed_iff by auto
      then show ?thesis using less.hyps [of rest] False unfolding Cons d by (auto intro: clean.intros)
    next
      case True
      then obtain cs ids where c: "message_role str_of d = ''assistant''" "get_or_none d ''tool_calls'' = PyList cs" "cs \<noteq> []"
        "announced_ids str_of [] cs = Some ids" "\<not> protocol_scan str_of ids [] rest"
        using less.prems unfolding Cons d scan_closed_iff by auto
      have p: "[] \<notin> set ids" "ids \<noteq> []" using announced_ids_props [OF c(4)] c(3) by auto
      from c(5) obtain answers ms' where a: "rest = answers @ ms'" "list_all (tool_entry str_of) answers"
        "distinct (map (answer_key str_of) answers)" "answer_key str_of ` set answers = set ids" "\<not> protocol_scan str_of [] [] ms'"
        unfolding scan_open_iff [OF p(2,1), of "[]", simplified] by blast
      have "clean str_of ms'" by (rule less.hyps) (use a(1,5) Cons in auto)
      then show ?thesis unfolding Cons d a(1) by (rule clean_calls [OF c(1-4) a(2-4)])
    qed
  qed (simp add: clean_Nil)
qed

section \<open>Histories that are accepted\<close>

text \<open>Roles and identifiers of a message are strings, and identifiers have no blanks around them.\<close>

definition plain_id :: "pyval \<Rightarrow> bool" where
  "plain_id v = (case v of PyStr s \<Rightarrow> str_strip s = s | PyNone \<Rightarrow> True | _ \<Rightarrow> False)"

definition plain_message :: "message \<Rightarrow> bool" where
  "plain_message d =
     ((\<exists>r. get_or_none d ''role'' = PyStr r) \<and> plain_id (answer_id d) \<and> list_all (plain_id \<circ> call_id) (recorded_calls d))"

lemma plain_role: "plain_message d \<Longrightarrow> message_role str_of d = r \<longleftrightarrow> get_or_none d ''role'' = PyStr r \<or> r = [] \<and> get_or_none d ''role'' = PyStr []"
  by (auto simp: plain_message_def message_role_def text_or_empty_def py_format_def)

lemma plain_id_key: "plain_id v \<Longrightarrow> truthy v \<Longrightarrow> v = PyStr (stripped_id str_of v)"
  by (auto simp: plain_id_def stripped_id_def text_or_empty_def py_format_def split: pyval.splits)

lemma plain_kinds:
  assumes "plain_message d"
  shows "message_role str_of d = ''tool'' \<longleftrightarrow> is_tool_msg d" "message_role str_of d = ''assistant'' \<longleftrightarrow> is_assistant_msg d"
  using plain_role [OF assms, of str_of] by (auto simp: is_tool_msg_def is_assistant_msg_def)

lemma falsy_id: "\<not> truthy v \<Longrightarrow> stripped_id str_of v = []"
  by (simp add: stripped_id_def text_or_empty_def str_strip_def)

lemma clean_turn_accepted:
  assumes "get_or_none d ''tool_calls'' = PyList cs" and "announced_ids str_of [] cs = Some ids"
    and "answer_key str_of ` set (map PyDict as) = set ids" and "plain_message d" and "\<forall>a\<in>set as. plain_message a \<and> is_tool_msg a"
  shows "set (native_ids d) \<subseteq> set (answered_ids as)"
proof
  fix v assume "v \<in> set (native_ids d)"
  then obtain c where c: "c \<in> set (dicts_of cs)" "v = get_or_none c ''id''" "truthy v"
    using assms(1) by (auto simp: native_ids_def recorded_calls_def call_id_def)
  have pv: "v = PyStr (stripped_id str_of v)"
    using plain_id_key [of v str_of] c assms(1,4) by (auto simp: plain_message_def recorded_calls_def call_id_def list_all_iff)
  have ids: "[] \<notin> set ids" "stripped_id str_of v \<in> set ids" using announced_ids_props [OF assms(2)] c by auto
  have "set ids = (\<lambda>a. stripped_id str_of (answer_id a)) ` set as" using assms(3) by (simp add: image_image answer_id_def)
  with ids(2) obtain a where a: "a \<in> set as" "stripped_id str_of (answer_id a) = stripped_id str_of v" by (metis imageE)
  have "truthy (answer_id a)" using falsy_id [of "answer_id a" str_of] a(2) ids by metis
  moreover have "plain_id (answer_id a)" using a(1) assms(5) by (auto simp: plain_message_def)
  ultimately have "answer_id a = PyStr (stripped_id str_of v)" using plain_id_key [of "answer_id a" str_of] a(2) by simp
  then have "answer_id a = v" using pv by (rule trans [OF _ sym])
  then show "v \<in> set (answered_ids as)" using a(1) assms(5) by (auto simp: answered_ids_def)
qed

lemma clean_accepted:
  assumes "clean str_of vs" and "vs = map PyDict ms" and "\<forall>m\<in>set ms. plain_message m"
  shows "wire_ok ms"
  using assms
proof (induction arbitrary: ms rule: clean.induct)
  case clean_Nil
  then show ?case by (simp add: wire_ok_def)
next
  case (clean_plain d vs)
  then obtain ms' where ms: "ms = d # ms'" "vs = map PyDict ms'" by auto
  have p: "plain_message d" using clean_plain ms by simp
  have "native_ids d = []" using clean_plain(2) by (auto simp: native_ids_def recorded_calls_def split: pyval.splits)
  then have "wire_ok [d]" using clean_plain(1) plain_kinds(1) [OF p] by (auto simp: wire_ok_def)
  then show ?case using wire_ok_append [of "[d]" ms'] clean_plain.IH [OF ms(2)] clean_plain.prems ms by simp
next
  case (clean_calls d cs ids answers vs)
  then obtain as ms' where ms: "ms = d # as @ ms'" "answers = map PyDict as" "vs = map PyDict ms'"
    by (auto simp: append_eq_map_conv)
  have p: "plain_message d" "\<forall>a\<in>set as. plain_message a" using clean_calls.prems ms by auto
  have t: "\<forall>a\<in>set as. is_tool_msg a" using clean_calls(5) p plain_kinds(1) ms by (auto simp: list_all_iff tool_entry_def)
  have "wire_ok (d # as)"
    by (rule wire_ok_turn) (use clean_calls(1,2,4,7) p t ms plain_kinds clean_turn_accepted in \<open>auto\<close>)
  then show ?case using wire_ok_append [of "d # as" ms'] clean_calls.IH [OF ms(3)] clean_calls.prems ms by simp
qed

section \<open>The selection\<close>

abbreviation text_size :: "string list \<Rightarrow> int" where
  "text_size es \<equiv> sum_list (map (\<lambda>e. int (length e)) es)"

lemma fit_system_more:
  "fit_system limit used True es = (sel, u) \<Longrightarrow> prefix sel es \<and> u = used + text_size sel \<and> u \<le> max used limit"
  by (induction es arbitrary: used sel u) (fastforce split: if_splits prod.splits)+

lemma fit_system_first:
  assumes "fit_system limit 0 False es = (sel, u)"
  shows "prefix sel es \<and> u = text_size sel \<and> (es \<noteq> [] \<longrightarrow> sel \<noteq> [] \<and> u \<le> max (int (length (hd es))) limit)"
proof (cases es)
  case (Cons e es')
  obtain sel' u' where "fit_system limit (int (length e)) True es' = (sel', u')" by fastforce
  then show ?thesis using fit_system_more [of limit "int (length e)" es' sel' u'] assms Cons by auto
qed (use assms in auto)

lemma fit_recent_more:
  "\<exists>rest. es = fit_recent limit used True es @ rest
     \<and> (rest \<noteq> [] \<longrightarrow> limit < used + text_size (fit_recent limit used True es) + int (length (hd rest)))
     \<and> (fit_recent limit used True es \<noteq> [] \<longrightarrow> used + text_size (fit_recent limit used True es) \<le> limit)"
proof (induction es arbitrary: used)
  case (Cons e es)
  from Cons.IH [of "used + int (length e)"] show ?case
    by (cases "fit_recent limit (used + int (length e)) True es") (auto simp: algebra_simps)
qed simp

lemma fit_recent_spec:
  "\<exists>skipped rest. es = skipped @ fit_recent limit used False es @ rest \<and> (\<forall>e\<in>set skipped. limit < used + int (length e))
     \<and> (rest \<noteq> [] \<longrightarrow> limit < used + text_size (fit_recent limit used False es) + int (length (hd rest)))
     \<and> (fit_recent limit used False es \<noteq> [] \<longrightarrow> used + text_size (fit_recent limit used False es) \<le> limit)"
proof (induction es)
  case (Cons e es)
  show ?case
  proof (cases "limit < used + int (length e)")
    case True
    from Cons.IH obtain skipped rest where "es = skipped @ fit_recent limit used False es @ rest"
      "\<forall>e\<in>set skipped. limit < used + int (length e)"
      "rest \<noteq> [] \<longrightarrow> limit < used + text_size (fit_recent limit used False es) + int (length (hd rest))"
      "fit_recent limit used False es \<noteq> [] \<longrightarrow> used + text_size (fit_recent limit used False es) \<le> limit" by blast
    then have "e # es = (e # skipped) @ fit_recent limit used False (e # es) @ rest
      \<and> (\<forall>e\<in>set (e # skipped). limit < used + int (length e))
      \<and> (rest \<noteq> [] \<longrightarrow> limit < used + text_size (fit_recent limit used False (e # es)) + int (length (hd rest)))
      \<and> (fit_recent limit used False (e # es) \<noteq> [] \<longrightarrow> used + text_size (fit_recent limit used False (e # es)) \<le> limit)"
      using True by simp
    then show ?thesis by blast
  next
    case False
    define longer where "longer = fit_recent limit (used + int (length e)) True es"
    from fit_recent_more [of es limit "used + int (length e)"] obtain rest where m: "es = longer @ rest"
      "rest \<noteq> [] \<longrightarrow> limit < used + int (length e) + text_size longer + int (length (hd rest))"
      "longer \<noteq> [] \<longrightarrow> used + int (length e) + text_size longer \<le> limit" by (auto simp: longer_def)
    have f: "fit_recent limit used False (e # es) = e # longer" using False by (simp add: longer_def)
    have "e # es = [] @ (e # longer) @ rest \<and> (\<forall>e\<in>set []. limit < used + int (length e))
      \<and> (rest \<noteq> [] \<longrightarrow> limit < used + text_size (e # longer) + int (length (hd rest)))
      \<and> (e # longer \<noteq> [] \<longrightarrow> used + text_size (e # longer) \<le> limit)"
      using m False by (cases "longer = []") (simp_all add: algebra_simps)
    then show ?thesis unfolding f by blast
  qed
qed simp

section \<open>Properties\<close>

text \<open>
  The check is exact: a history is judged sound if and only if it is a sequence of messages without calls and of
  assistant messages with well-formed calls beneath which exactly one answer for each call stands.
\<close>

theorem malformed_exact: "\<not> has_malformed_tool_protocol str_of ms \<longleftrightarrow> clean str_of ms"
  unfolding has_malformed_tool_protocol_def using clean_scan scan_clean by blast

text \<open>
  A history that the check lets through is acceptable to a provider by the standard of the loop: every announced
  call is answered directly beneath it, and no tool message stands elsewhere.
\<close>

theorem sound_history_accepted:
  assumes "\<not> has_malformed_tool_protocol str_of (map PyDict ms)" and "\<forall>m\<in>set ms. plain_message m"
  shows "wire_ok ms"
  using clean_accepted [OF scan_clean refl assms(2)] assms(1) by (simp add: has_malformed_tool_protocol_def)

text \<open>
  What a recovery context keeps, measured in characters: the first system entries, at least one if there is any, and the
  newest of the other entries without a gap, apart from newest ones that would not fit alone.  Beyond the first system
  entry the texts stay within the limit, and the next older entry would exceed it.
\<close>

theorem recovery_selection:
  assumes "rv_context_max_tokens c = None" and "select_entries est c sys entries = (ss, rr)"
  shows "prefix ss sys \<and> (sys \<noteq> [] \<longrightarrow> ss \<noteq> [] \<and> text_size ss \<le> max (int (length (hd sys))) (rv_context_max_chars c))
    \<and> (rr \<noteq> [] \<longrightarrow> text_size (ss @ rr) \<le> rv_context_max_chars c)
    \<and> (\<exists>skipped rest. rev entries = skipped @ rr @ rest
         \<and> (\<forall>e\<in>set skipped. rv_context_max_chars c < text_size ss + int (length e))
         \<and> (rest \<noteq> [] \<longrightarrow> rv_context_max_chars c < text_size (ss @ rr) + int (length (hd rest))))"
proof -
  obtain u where f: "fit_system (rv_context_max_chars c) 0 False sys = (ss, u)" "rr = fit_recent (rv_context_max_chars c) u False (rev entries)"
    using assms by (auto simp: select_entries_def split: prod.splits)
  show ?thesis using fit_system_first [OF f(1)] fit_recent_spec [of "rev entries" "rv_context_max_chars c" u] unfolding f(2) by auto
qed

section \<open>Examples\<close>

definition demo_call_msg :: message where
  "demo_call_msg = [(''role'', PyStr ''assistant''), (''tool_calls'', PyList [PyDict [(''id'', PyStr ''c1''),
     (''function'', PyDict [(''name'', PyStr ''ls''), (''arguments'', PyStr ''{}'')])]])]"

definition demo_history :: "message list" where
  "demo_history = [user_msg ''hi'', demo_call_msg, tool_reply ''ok'' (PyStr ''c1''), user_msg ''thanks'']"

theorem sound_history_accepted_witness: "wire_ok demo_history"
proof (rule sound_history_accepted [of "\<lambda>v. []"])
  show "\<not> has_malformed_tool_protocol (\<lambda>v. []) (map PyDict demo_history)" by code_simp
  show "\<forall>m\<in>set demo_history. plain_message m"
    by (simp add: demo_history_def demo_call_msg_def user_msg_def tool_reply_def plain_message_def plain_id_def answer_id_def
        recorded_calls_def call_id_def get_or_none_def str_strip_def is_space_def)
qed

definition demo_recovery :: recovery_cfg where
  "demo_recovery = \<lparr>rv_strip_thinking = id, rv_strip_leaked = id, rv_nudge_prefixes = [], rv_empty_fallback = [],
     rv_labels = DEFAULT_RECOVERY_LABELS, rv_fixed_prompt = [], rv_context_max_chars = 6, rv_item_max_chars = 10, rv_context_max_tokens = None\<rparr>"

theorem recovery_selection_witness:
  "select_entries (\<lambda>s. 0) demo_recovery [''abc''] [''one'', ''longer'', ''x''] = ([''abc''], [''x'']) \<and> text_size [''abc'', ''x''] \<le> 6"
proof -
  have s: "select_entries (\<lambda>s. 0) demo_recovery [''abc''] [''one'', ''longer'', ''x''] = ([''abc''], [''x''])"
    by (simp add: select_entries_def demo_recovery_def)
  have "rv_context_max_tokens demo_recovery = None" by (simp add: demo_recovery_def)
  from recovery_selection [OF this s] s show ?thesis by (simp add: demo_recovery_def)
qed

end
