(* ===== verification/Spec2Isabelle.thy ===== *)
theory Spec2Isabelle
  imports Bus_Runs Mini_DAG Stop_Signal Tool_Permission Repetition_Guard Rate_Limit Runaway
    Context_Budget Wall_Time Tiered_Compact Loop_Runs Fallback Stuck_Target Tool_Validation
    Fan_In Cycle_Sessions Verifier Call_Trace Streaming Scheduler Recovery
begin

text \<open>
  A verification development for AgentCore (\<^verbatim>\<open>src/agent_core\<close>), a runtime for tool-using language
  model agents.  This theory imports all others and describes them.

  \<^bold>\<open>The program.\<close>  An agent run is a loop (\<^verbatim>\<open>runtime/loop/agent_loop.py\<close>): every turn prepares a
  request from the conversation history, calls a model, parses tool calls from the reply, runs
  them, lets observers intervene, and compacts the history when it grows.  Around the loop stand
  observers and middleware (repetition guard, rate limiter), budgets (tokens, task budget, wall
  time), a permission filter for tools, and the compactors of the history.  Runs are composed by a
  small graph engine (\<^verbatim>\<open>runtime/dag/minidag.py\<close>) and by the agent bus
  (\<^verbatim>\<open>components/agent_bus/bus.py\<close>), which runs sub-agents as jobs and as sessions with a serial task
  queue, under the limits of a spawn guard, and trims a session's history between its tasks.  A model
  call goes through retries and a chain of vendors (\<^verbatim>\<open>runtime/loop/_call.py, providers/fallback.py\<close>); the
  reports of sub-agents are collected by a fan-in, and a writer and an auditor may work in a cycle
  (\<^verbatim>\<open>components/cycle\<close>) whose verdicts come from composed verifiers (\<^verbatim>\<open>components/verifier\<close>).

  \<^bold>\<open>The theories.\<close>
  \<^item> \<open>Prelude\<close>: Python values, dictionaries, strings and the generic locales: a dictionary with
    insertion order, \<open>invariant_system\<close> (a step relation with an invariant) and \<open>op_system\<close>
    (operations on a state), which the components interpret.
  \<^item> \<open>Messages\<close> (\<^verbatim>\<open>messages.py\<close>): messages as dictionaries, their constructors, the wire filter.
  \<^item> \<open>Trimmer\<close> (\<^verbatim>\<open>runtime/loop/message_trimmer.py\<close>): task boundaries; eager trimming keeps the
    boundary invariant and is invisible to the trimmer that seeds the next task.
  \<^item> \<open>Budget\<close> (\<^verbatim>\<open>models/task_budget.py\<close>), \<open>Spawn\<close> (\<^verbatim>\<open>agent_bus/spawn_guard.py\<close>): charging and escalation;
    admission, slots and their return, with a locale for reservations.
  \<^item> \<open>Bus_Models\<close>, \<open>Bus\<close> (\<^verbatim>\<open>agent_bus/models.py, runtime.py, bus.py\<close>): jobs, sessions and every
    operation that changes them; \<open>Session_Inv\<close>, \<open>Bus_Inv\<close>, \<open>Bus_Steps\<close>: the invariant of a session
    (one live task, boundaries that tile its history), of the bus (queues, slots) and its
    preservation; \<open>Bus_System\<close>, \<open>Bus_Runs\<close>: reachable states, liveness of queued jobs, and two
    interleavings the code does not handle.
  \<^item> \<open>Mini_DAG\<close> (\<^verbatim>\<open>runtime/dag/minidag.py\<close>): validation, the runner and its checkpoints; the search is
    exact, compiled runs stay inside the graph, and a resumed run refines the uninterrupted one.
  \<^item> \<open>Stop_Signal\<close> (\<^verbatim>\<open>stop_signal.py, shared_pool.py\<close>), \<open>Tool_Permission\<close> (\<^verbatim>\<open>runtime/tool_permission.py\<close>),
    \<open>Rate_Limit\<close> (\<^verbatim>\<open>middleware/rate_limit.py\<close>), \<open>Repetition_Guard\<close> (\<^verbatim>\<open>observers/repetition_guard.py\<close>),
    \<open>Context_Budget\<close> (\<^verbatim>\<open>runtime/loop/context_budget.py\<close>), \<open>Wall_Time\<close> (\<^verbatim>\<open>runtime/wall_time_lease.py\<close>
    and \<^verbatim>\<open>components/finalization/budget.py\<close>): each with the law its users rely on.
  \<^item> \<open>Response\<close> and \<open>Runaway\<close> (\<^verbatim>\<open>runtime/loop/_response.py, _runaway.py\<close>): reading a reply, reasoning
    that used up the output, and the caps of the retries.
  \<^item> \<open>Loop_Types\<close> (\<^verbatim>\<open>loop_types.py\<close>): interventions and their merge, configuration, results.
  \<^item> \<open>Loop_History\<close> (the history operations of \<^verbatim>\<open>agent_loop.py\<close>): \<open>wire_ok\<close>, the condition under which a
    provider accepts a history (every announced call answered directly beneath it, no tool message
    elsewhere), and the locales \<open>history_rewriter\<close> (keeps it) and \<open>history_repair\<close> (restores it after
    an interrupted turn), interpreted by every operation that rewrites a history.
  \<^item> \<open>Image_Attach\<close> (\<^verbatim>\<open>runtime/loop/image_attach.py\<close>), \<open>Tool_Exec\<close> (\<^verbatim>\<open>runtime/loop/tool_exec.py\<close>):
    images of results and their eviction; a batch of calls, whose failures all become results.
  \<^item> \<open>Compact\<close>, \<open>Tiered_Compact\<close> (\<^verbatim>\<open>runtime/loop/compact.py, compact_llm.py, tiered_compact.py\<close>): the
    compactors, each a \<open>history_rewriter\<close>, with their caps, bounds and retries.
  \<^item> \<open>Agent_Loop\<close>: one function per stage of a turn, \<open>loop_turn\<close>, and the terminating \<open>run_loop\<close>;
    \<open>Loop_Inv\<close>: every stage keeps the invariant; \<open>Loop_Runs\<close>: whole runs.  A run ends within
    its bounds, every request it sends is acceptable, only permitted calls are dispatched.

  \<^item> \<open>Llm_Errors\<close> (\<^verbatim>\<open>errors.py, runtime/retriable.py, retry_policy.py, completion.py\<close>): the errors of model calls and
    the predicates that classify them; \<open>Fallback\<close> (\<^verbatim>\<open>providers/fallback.py\<close>): the chain of clients and
    the cooldown wrapper, for calls and streams.
  \<^item> \<open>Tool_Validation\<close> (\<^verbatim>\<open>tool_call_validation.py, tool_call_recovery.py, tool_call_repair.py\<close>): which calls are accepted, and
    the repair that leaves literal content alone.
  \<^item> \<open>Call_Llm\<close> (\<^verbatim>\<open>runtime/loop/_call.py\<close>): one logical model call with its physical attempts, deadlines,
    back-offs, the ladder of runaway recovery and the resampling of blank completions, written as a trace of
    what it does; \<open>Call_Trace\<close>: every attempt is accounted for, deadlines are respected, failures name
    their reason, and in the locale \<open>leg_world\<close> (a client with finitely many legs), interpreted by the
    chain of \<open>Fallback\<close>, a call ends.
  \<^item> \<open>Streaming\<close> (\<^verbatim>\<open>runtime/loop/_streaming.py, stream_tools.py\<close>): the splitter of reasoning tags, the stitching
    of tool-call fragments and the fold of a stream with its watchdogs; the splitter does not depend on the
    cuts of its input, the callbacks make up the response, and a tag cut in two leaks.
  \<^item> \<open>Observers\<close> (\<^verbatim>\<open>components/observers\<close>), \<open>Text_Repetition\<close>, \<open>Stuck_Target\<close>: the budget and turn observers, the
    similarity guard and the quarantine of hosts, each as a state machine with the exact condition it fires on.
  \<^item> \<open>Fan_In\<close> (\<^verbatim>\<open>agent_bus/fan_in.py\<close>): labels, blocks and harvest of the reports of sub-agents.
  \<^item> \<open>Cycle_Types\<close>, \<open>Write_Audit\<close>, \<open>Cycle_Builders\<close>, \<open>Cycle_Sessions\<close> (\<^verbatim>\<open>components/cycle\<close>): reports and their
    dictionary form, the loop of writer and auditor with its observers and endings, the graders, the votes and
    selections, and the parties that talk through sessions of the bus.
  \<^item> \<open>Verifier\<close> (\<^verbatim>\<open>components/verifier\<close>): contexts that hide the oracle at runtime, the six composers and the
    bridge to the cycle.

  \<^bold>\<open>How code becomes definitions.\<close>  A class is a record of its fields, an operation a function of
  the record, a raise the value \<open>Inl e\<close>.  Asynchronous code is cut at its awaits: a stretch between
  two awaits is one operation, interleavings are sequences of operations.  A dictionary is an
  association list in insertion order; strings are ASCII (an ellipsis is one character, a dash a
  hyphen); a float is an exact real.  What comes from outside (model replies, tool outcomes, clock
  readings, tokenizers, parsers of vendor formats, digests, hooks and observers of a host, spill
  and checkpoint stores, \<open>str\<close> of a value that is not a string) is an argument; the properties hold
  for all of them, or under named conditions such as \<open>turn_ok\<close> and \<open>batch_hook_ok\<close>.

  \<^bold>\<open>Bounds.\<close>  Only \<open>call_loop\<close> takes fuel, one unit per attempt, because a client may advance to another
  vendor as often as it likes; \<open>chain_call_ends\<close> gives the fuel that is enough for a chain.  The loop counts
  attempts, bounded by \<open>max_turns + EXTRA_ATTEMPTS_BUFFER\<close> (200); the graph runner counts steps up to
  \<open>MAX_STEPS\<close> (100); the summariser counts its retries; all other recursions are structural or over a measure.

  \<^bold>\<open>Not modelled.\<close>  The vendor clients under \<^verbatim>\<open>providers\<close> translate to and from the wire formats of services and
  are network code; the parsers of tool-call dialects (\<^verbatim>\<open>tool_call_parser.py\<close>) and the profiles of models are
  tables of regular expressions; stores, spill files, event streams, the trajectory log and the
  registries are input and output or lookup; prompt texts have no behaviour.  Of modelled parts, scopes and
  cancellation of the loop, the message-channel recovery and the clean-up of the bus, and logging are left
  out.  The manifest lists every part with its reason.
\<close>

end
